(* ===== verification/Prelude.thy ===== *)
theory Prelude
  imports Main "HOL-Library.AList" "HOL-Library.Multiset" "HOL-Library.Sublist"
    "HOL-Library.Char_ord" "HOL-Library.List_Lexorder"
begin

text \<open>
  Shared vocabulary of the development: errors and results, instants of time, Go maps as
  association lists with the loops the code runs over them, sorting by a \<open>less\<close>
  function, and tables of rows with a generated key and a unique attribute. Nothing here
  is specific to one component; the component theories get their automation from the
  collections \<open>gomap_simps\<close>, \<open>keys_intros\<close> and \<open>table_intros\<close>.
\<close>

named_theorems gomap_simps \<open>look-ups after the map operations\<close>
named_theorems keys_intros \<open>map operations keep keys distinct\<close>
named_theorems table_intros \<open>map operations keep a table well formed\<close>

section \<open>Results and time\<close>

text \<open>
  A Go method returning \<open>(T, error)\<close> is a value of \<open>error + 'a\<close>. An instant is
  counted in nanoseconds from Go's zero \<open>time.Time\<close>, so \<open>IsZero\<close> is \<open>t = 0\<close>,
  \<open>Before\<close> is \<open><\<close> and \<open>After\<close> is \<open>>\<close>.
\<close>

abbreviation Ok :: "'a \<Rightarrow> 'e + 'a" where "Ok \<equiv> Inr"
abbreviation Err :: "'e \<Rightarrow> 'e + 'a" where "Err \<equiv> Inl"

type_synonym time = int
type_synonym bytes = string

definition second_ns :: int where "second_ns = 1000000000"

section \<open>Go maps as association lists\<close>

text \<open>
  A Go map is a list of key/value pairs with distinct keys. Its order is the order in which
  one particular execution happens to range over the map, which Go leaves open; every fact
  proved for all lists holds for every such order.
\<close>

type_synonym ('k, 'v) gomap = "('k \<times> 'v) list"

definition keys_ok :: "('k, 'v) gomap \<Rightarrow> bool" where
  "keys_ok m \<longleftrightarrow> distinct (map fst m)"

abbreviation mget :: "('k, 'v) gomap \<Rightarrow> 'k \<Rightarrow> 'v option" where
  "mget \<equiv> map_of"

definition mput :: "'k \<Rightarrow> 'v \<Rightarrow> ('k, 'v) gomap \<Rightarrow> ('k, 'v) gomap" where
  "mput k v m = AList.update k v m"

definition mdel :: "'k \<Rightarrow> ('k, 'v) gomap \<Rightarrow> ('k, 'v) gomap" where
  "mdel k m = filter (\<lambda>e. fst e \<noteq> k) m"

text \<open>\<open>for k, v := range m { if p(k, v) { delete(m, k) } }\<close>\<close>

definition mprune :: "('k \<Rightarrow> 'v \<Rightarrow> bool) \<Rightarrow> ('k, 'v) gomap \<Rightarrow> ('k, 'v) gomap" where
  "mprune p m = filter (\<lambda>e. \<not> p (fst e) (snd e)) m"

text \<open>Writes through the pointer stored at \<open>k\<close>, and through every pointer of the map.\<close>

definition mmod :: "'k \<Rightarrow> ('v \<Rightarrow> 'v) \<Rightarrow> ('k, 'v) gomap \<Rightarrow> ('k, 'v) gomap" where
  "mmod k f m = map (\<lambda>e. (fst e, if fst e = k then f (snd e) else snd e)) m"

definition mmap :: "('v \<Rightarrow> 'v) \<Rightarrow> ('k, 'v) gomap \<Rightarrow> ('k, 'v) gomap" where
  "mmap f m = map (\<lambda>e. (fst e, f (snd e))) m"

text \<open>\<open>for _, v := range m { if p(v) { return v } }\<close>\<close>

definition mfind :: "('v \<Rightarrow> bool) \<Rightarrow> ('k, 'v) gomap \<Rightarrow> 'v option" where
  "mfind p m = find p (map snd m)"

definition mvals :: "('k, 'v) gomap \<Rightarrow> 'v list" where
  "mvals m = map snd m"

subsection \<open>Look-ups\<close>

lemma map_of_filter_keys:
  "map_of (filter (\<lambda>e. q (fst e)) m) k = (if q k then map_of m k else None)"
  by (induction m) auto

lemma mget_mput [simp, gomap_simps]:
  "mget (mput k v m) k' = (if k' = k then Some v else mget m k')"
  by (simp add: mput_def update_conv')

lemma mget_mdel [simp, gomap_simps]:
  "mget (mdel k m) k' = (if k' = k then None else mget m k')"
  by (simp add: mdel_def map_of_filter_keys [where q = "\<lambda>x. x \<noteq> k"])

lemma mget_mmod [simp, gomap_simps]:
  "mget (mmod k f m) k' = (if k' = k then map_option f (mget m k') else mget m k')"
  by (induction m) (auto simp: mmod_def)

lemma mget_mmap [simp, gomap_simps]: "mget (mmap f m) k = map_option f (mget m k)"
  by (induction m) (auto simp: mmap_def)

lemma mget_mprune [gomap_simps]:
  "keys_ok m \<Longrightarrow> mget (mprune p m) k =
     (case mget m k of None \<Rightarrow> None | Some v \<Rightarrow> if p k v then None else Some v)"
proof (induction m)
  case Nil
  then show ?case by (simp add: mprune_def)
next
  case (Cons e m)
  then have ih: "mget (mprune p m) k =
     (case mget m k of None \<Rightarrow> None | Some v \<Rightarrow> if p k v then None else Some v)"
    and new: "fst e \<notin> fst ` set m"
    by (auto simp: keys_ok_def)
  then have "mget m (fst e) = None" by (simp add: map_of_eq_None_iff)
  with ih show ?case by (cases e) (auto simp: mprune_def)
qed

lemma mget_in_set: "mget m k = Some v \<Longrightarrow> (k, v) \<in> set m"
  by (rule map_of_SomeD)

lemma mget_iff_in: "keys_ok m \<Longrightarrow> mget m k = Some v \<longleftrightarrow> (k, v) \<in> set m"
  by (simp add: keys_ok_def)

lemma in_mvals: "v \<in> set (mvals m) \<longleftrightarrow> (\<exists>k. (k, v) \<in> set m)"
  by (force simp: mvals_def)

lemma mvals_mget: "keys_ok m \<Longrightarrow> v \<in> set (mvals m) \<longleftrightarrow> (\<exists>k. mget m k = Some v)"
  by (simp add: in_mvals mget_iff_in)

subsection \<open>Members of the changed map\<close>

lemma set_mput: "keys_ok m \<Longrightarrow> set (mput k v m) = insert (k, v) {e \<in> set m. fst e \<noteq> k}"
  unfolding mput_def keys_ok_def
  by (induction m) (force simp: image_iff)+

lemma set_mdel [simp]: "set (mdel k m) = {e \<in> set m. fst e \<noteq> k}"
  by (auto simp: mdel_def)

lemma set_mprune [simp]: "set (mprune p m) = {e \<in> set m. \<not> p (fst e) (snd e)}"
  by (auto simp: mprune_def)

lemma set_mmod: "set (mmod k f m) = (\<lambda>e. (fst e, if fst e = k then f (snd e) else snd e)) ` set m"
  by (simp add: mmod_def)

lemma set_mmap: "set (mmap f m) = (\<lambda>e. (fst e, f (snd e))) ` set m"
  by (simp add: mmap_def)

subsection \<open>Distinct keys\<close>

lemma keys_ok_Nil [simp, keys_intros]: "keys_ok []"
  by (simp add: keys_ok_def)

lemma keys_ok_mput [keys_intros]: "keys_ok m \<Longrightarrow> keys_ok (mput k v m)"
  by (simp add: keys_ok_def mput_def distinct_update)

lemma keys_ok_filter: "keys_ok m \<Longrightarrow> keys_ok (filter p m)"
  by (simp add: keys_ok_def distinct_map_filter)

lemma keys_ok_mdel [keys_intros]: "keys_ok m \<Longrightarrow> keys_ok (mdel k m)"
  by (simp add: mdel_def keys_ok_filter)

lemma keys_ok_mprune [keys_intros]: "keys_ok m \<Longrightarrow> keys_ok (mprune p m)"
  by (simp add: mprune_def keys_ok_filter)

lemma keys_ok_mmod [simp, keys_intros]: "keys_ok (mmod k f m) = keys_ok m"
  by (simp add: keys_ok_def mmod_def comp_def)

lemma keys_ok_mmap [simp, keys_intros]: "keys_ok (mmap f m) = keys_ok m"
  by (simp add: keys_ok_def mmap_def comp_def)

subsection \<open>Searching\<close>

lemma find_SomeD: "List.find P xs = Some x \<Longrightarrow> x \<in> set xs \<and> P x"
  by (induction xs) (auto split: if_splits)

lemma mfind_None: "mfind p m = None \<longleftrightarrow> (\<forall>v \<in> set (mvals m). \<not> p v)"
  by (auto simp: mfind_def mvals_def find_None_iff)

lemma mfind_Some: "mfind p m = Some v \<Longrightarrow> v \<in> set (mvals m) \<and> p v"
  by (auto simp: mfind_def mvals_def find_Some_iff in_set_conv_nth simp del: set_map)

text \<open>
  When at most one value satisfies the test, the search finds it whatever the order of
  the map: this is what makes a loop over a Go map deterministic.
\<close>

lemma mfind_unique:
  assumes "v \<in> set (mvals m)" and "p v"
    and "\<And>w. w \<in> set (mvals m) \<Longrightarrow> p w \<Longrightarrow> w = v"
  shows "mfind p m = Some v"
proof (cases "mfind p m")
  case None
  with assms(1,2) show ?thesis by (simp add: mfind_None)
next
  case (Some w)
  then have "w = v" using assms(3) mfind_Some by metis
  with Some show ?thesis by simp
qed

section \<open>Sorting by a less function\<close>

text \<open>
  \<open>sort.Slice\<close> and \<open>sort.SliceStable\<close> as a stable insertion sort on the given
  \<open>less\<close>. Go leaves the order of elements that compare equal open in \<open>sort.Slice\<close>.
\<close>

fun insort_by :: "('a \<Rightarrow> 'a \<Rightarrow> bool) \<Rightarrow> 'a \<Rightarrow> 'a list \<Rightarrow> 'a list" where
  "insort_by lt x [] = [x]"
| "insort_by lt x (y # ys) = (if lt y x then y # insort_by lt x ys else x # y # ys)"

definition sort_by :: "('a \<Rightarrow> 'a \<Rightarrow> bool) \<Rightarrow> 'a list \<Rightarrow> 'a list" where
  "sort_by lt xs = foldr (insort_by lt) xs []"

lemma sort_by_simps [simp]:
  "sort_by lt [] = []" "sort_by lt (x # xs) = insort_by lt x (sort_by lt xs)"
  by (simp_all add: sort_by_def)

lemma mset_insort_by [simp]: "mset (insort_by lt x ys) = add_mset x (mset ys)"
  by (induction ys) auto

lemma mset_sort_by [simp]: "mset (sort_by lt xs) = mset xs"
  by (induction xs) auto

lemma set_sort_by [simp]: "set (sort_by lt xs) = set xs"
  by (metis mset_sort_by set_mset_mset)

lemma length_sort_by [simp]: "length (sort_by lt xs) = length xs"
  by (metis mset_sort_by size_mset)

lemma distinct_sort_by [simp]: "distinct (sort_by lt xs) = distinct xs"
  by (metis mset_sort_by mset_eq_imp_distinct_iff)

text \<open>The comparisons of the code compare a key, so they are strict weak orders.\<close>

lemma set_insort_by [simp]: "set (insort_by lt x ys) = insert x (set ys)"
  by (metis mset_insort_by set_mset_add_mset_insert set_mset_mset)

lemma sorted_insort_by:
  assumes asym: "\<And>a b. lt a b \<Longrightarrow> \<not> lt b a"
    and neg: "\<And>a b c. \<not> lt b a \<Longrightarrow> \<not> lt c b \<Longrightarrow> \<not> lt c a"
    and srt: "sorted_wrt (\<lambda>a b. \<not> lt b a) ys"
  shows "sorted_wrt (\<lambda>a b. \<not> lt b a) (insort_by lt x ys)"
  using srt
proof (induction ys)
  case (Cons y ys)
  show ?case
  proof (cases "lt y x")
    case True
    with Cons asym show ?thesis by auto
  next
    case False
    with Cons.prems neg show ?thesis by auto
  qed
qed simp

lemma sorted_sort_by:
  assumes "\<And>a b. lt a b \<Longrightarrow> \<not> lt b a"
    and "\<And>a b c. \<not> lt b a \<Longrightarrow> \<not> lt c b \<Longrightarrow> \<not> lt c a"
  shows "sorted_wrt (\<lambda>a b. \<not> lt b a) (sort_by lt xs)"
proof (induction xs)
  case (Cons x xs)
  then show ?case using sorted_insort_by [OF assms] by simp
qed simp

lemma sorted_sort_by_key:
  fixes f :: "'a \<Rightarrow> 'k::linorder"
  shows "sorted (map f (sort_by (\<lambda>a b. f a < f b) xs))"
proof -
  have "sorted_wrt (\<lambda>a b. \<not> f b < f a) (sort_by (\<lambda>a b. f a < f b) xs)"
    by (rule sorted_sort_by) auto
  then show ?thesis by (simp add: sorted_wrt_map not_less)
qed

text \<open>The sort is stable: it keeps the order of elements that do not compare.\<close>

lemma filter_insort_by:
  assumes "\<And>y. P x \<Longrightarrow> P y \<Longrightarrow> \<not> lt y x"
  shows "filter P (insort_by lt x ys) = filter P (x # ys)"
  using assms by (induction ys) auto

lemma filter_sort_by:
  assumes "\<And>x y. P x \<Longrightarrow> P y \<Longrightarrow> \<not> lt y x"
  shows "filter P (sort_by lt xs) = filter P xs"
  using assms by (induction xs) (simp_all add: filter_insort_by)

section \<open>Tables\<close>

text \<open>
  The stores keep rows in maps keyed by a generated number: the sequence is bumped and the
  row stored under the new value, which it also carries (\<open>own k r\<close>). On top of that the code
  keeps one attribute of the rows unique by searching before it inserts. \<open>table_ok\<close> is that
  invariant for the sequence \<open>n\<close> and the attribute \<open>uk\<close>.
\<close>

definition table_ok :: "nat \<Rightarrow> (nat \<Rightarrow> 'r \<Rightarrow> bool) \<Rightarrow> ('r \<Rightarrow> 'u) \<Rightarrow> (nat, 'r) gomap \<Rightarrow> bool" where
  "table_ok n own uk m \<longleftrightarrow> keys_ok m \<and>
     (\<forall>(k, r) \<in> set m. own k r \<and> 1 \<le> k \<and> k \<le> n) \<and>
     (\<forall>(k, r) \<in> set m. \<forall>(k', r') \<in> set m. uk r = uk r' \<longrightarrow> k = k')"

lemma table_ok_Nil [simp, table_intros]: "table_ok n own uk []"
  by (simp add: table_ok_def)

lemma table_ok_keys: "table_ok n own uk m \<Longrightarrow> keys_ok m"
  by (simp add: table_ok_def)

lemma table_ok_entry:
  "table_ok n own uk m \<Longrightarrow> mget m k = Some r \<Longrightarrow> own k r \<and> 1 \<le> k \<and> k \<le> n"
  by (auto simp: table_ok_def dest: mget_in_set)

lemma table_ok_row:
  "table_ok n own uk m \<Longrightarrow> r \<in> set (mvals m) \<Longrightarrow> \<exists>k. mget m k = Some r \<and> own k r \<and> 1 \<le> k \<and> k \<le> n"
  by (auto simp: table_ok_def in_mvals mget_iff_in)

lemma table_ok_unique:
  assumes "table_ok n own uk m" and "r \<in> set (mvals m)" and "r' \<in> set (mvals m)"
    and "uk r = uk r'"
  shows "r = r'"
proof -
  from assms(2,3) obtain k k' where in_m: "(k, r) \<in> set m" "(k', r') \<in> set m"
    by (auto simp: in_mvals)
  with assms(1,4) have "k = k'" by (fastforce simp: table_ok_def)
  with in_m show ?thesis
    using assms(1) by (metis mget_iff_in option.inject table_ok_keys)
qed

lemma table_ok_unique_key:
  assumes "table_ok n own uk m" and "mget m k = Some r" and "mget m k' = Some r'"
    and "uk r = uk r'"
  shows "k = k'"
  using assms by (fastforce simp: table_ok_def dest!: mget_in_set)

lemma table_ok_fresh: "table_ok n own uk m \<Longrightarrow> n < k \<Longrightarrow> mget m k = None"
  using table_ok_entry by (metis not_less option.exhaust)

lemma table_ok_insert [table_intros]:
  assumes t: "table_ok n own uk m" and id: "own (Suc n) r"
    and new: "\<And>r'. r' \<in> set (mvals m) \<Longrightarrow> uk r' \<noteq> uk r"
  shows "table_ok (Suc n) own uk (mput (Suc n) r m)"
proof -
  have k: "keys_ok m" using t by (rule table_ok_keys)
  have new': "uk r'' \<noteq> uk r" if "(k', r'') \<in> set m" for k' r''
    using new that by (auto simp: in_mvals)
  show ?thesis
    unfolding table_ok_def set_mput [OF k]
    using t id new' by (fastforce simp: table_ok_def keys_ok_mput)
qed

lemma table_ok_subset:
  assumes "table_ok n own uk m" and "set m' \<subseteq> set m" and "keys_ok m'"
  shows "table_ok n own uk m'"
  using assms unfolding table_ok_def by blast

lemma table_ok_mdel [table_intros]: "table_ok n own uk m \<Longrightarrow> table_ok n own uk (mdel k m)"
  by (rule table_ok_subset) (auto intro: keys_ok_mdel table_ok_keys)

lemma table_ok_mprune [table_intros]: "table_ok n own uk m \<Longrightarrow> table_ok n own uk (mprune p m)"
  by (rule table_ok_subset) (auto intro: keys_ok_mprune table_ok_keys)

text \<open>
  A write through the pointer keeps the table when it keeps the row's key and gives the
  attribute a value no other row has (its old value, for instance).
\<close>

lemma table_ok_mmod:
  assumes t: "table_ok n own uk m" and id: "\<And>r. own k r \<Longrightarrow> own k (f r)"
    and new: "\<And>r k' r'. mget m k = Some r \<Longrightarrow> mget m k' = Some r' \<Longrightarrow> uk r' = uk (f r) \<Longrightarrow> k' = k"
  shows "table_ok n own uk (mmod k f m)"
proof -
  have k: "keys_ok m" using t by (rule table_ok_keys)
  have old: "k1 = k2" if "(k1, r1) \<in> set m" "(k2, r2) \<in> set m" "uk r1 = uk r2" for k1 r1 k2 r2
    using t that by (fastforce simp: table_ok_def)
  have upd: "k2 = k" if "(k, r1) \<in> set m" "(k2, r2) \<in> set m" "uk r2 = uk (f r1)" for k2 r1 r2
    using that k new by (metis mget_iff_in)
  have upd': "k2 = k" if "(k, r1) \<in> set m" "(k2, r2) \<in> set m" "uk (f r1) = uk r2" for k2 r1 r2
    using upd that by metis
  have "keys_ok (mmod k f m)" using k by simp
  moreover have "\<forall>(k', r') \<in> set (mmod k f m). own k' r' \<and> 1 \<le> k' \<and> k' \<le> n"
    using t id by (fastforce simp: table_ok_def set_mmod)
  moreover have "\<forall>(k1, r1) \<in> set (mmod k f m). \<forall>(k2, r2) \<in> set (mmod k f m).
      uk r1 = uk r2 \<longrightarrow> k1 = k2"
    using old upd upd' by (auto simp: set_mmod split: if_splits)
  ultimately show ?thesis by (simp add: table_ok_def)
qed

lemma table_ok_mmod_same [table_intros]:
  assumes "table_ok n own uk m" and "\<And>r. own k r \<Longrightarrow> own k (f r)" and "\<And>r. uk (f r) = uk r"
  shows "table_ok n own uk (mmod k f m)"
proof (rule table_ok_mmod)
  fix r k' r'
  assume "mget m k = Some r" "mget m k' = Some r'" "uk r' = uk (f r)"
  then show "k' = k" using table_ok_unique_key [OF assms(1)] assms(3) by metis
qed (use assms in auto)

lemma table_ok_mmap [table_intros]:
  assumes "table_ok n own uk m" and "\<And>k r. own k r \<Longrightarrow> own k (f r)" and "\<And>r. uk (f r) = uk r"
  shows "table_ok n own uk (mmap f m)"
  using assms by (fastforce simp: table_ok_def set_mmap)

text \<open>Searching a table for a value of its unique attribute is independent of the order.\<close>

lemma table_ok_find:
  assumes "table_ok n own uk m"
  shows "mfind (\<lambda>r. uk r = v) m = Some r \<longleftrightarrow> (\<exists>k. mget m k = Some r) \<and> uk r = v"
proof
  assume "mfind (\<lambda>r. uk r = v) m = Some r"
  then show "(\<exists>k. mget m k = Some r) \<and> uk r = v"
    using assms by (auto dest!: mfind_Some simp: mvals_mget table_ok_keys)
next
  assume "(\<exists>k. mget m k = Some r) \<and> uk r = v"
  then show "mfind (\<lambda>r. uk r = v) m = Some r"
    using table_ok_unique [OF assms] mvals_mget [OF table_ok_keys [OF assms]]
    by (intro mfind_unique) auto
qed

lemma table_ok_find_None:
  assumes "table_ok n own uk m"
  shows "mfind (\<lambda>r. uk r = v) m = None \<longleftrightarrow> (\<forall>k r. mget m k = Some r \<longrightarrow> uk r \<noteq> v)"
  unfolding mfind_None Ball_def mvals_mget [OF table_ok_keys [OF assms]] by auto

end
