(* ===== verification/GoStrings.thy ===== *)
theory GoStrings
  imports Prelude
begin

text \<open>
  The byte-string functions of Go's standard library the code calls, and the conversion of
  the stores' numeric keys to and from opaque identifiers (\<open>idStr\<close>, \<open>parseID\<close>,
  \<open>parseUserID\<close>, \<open>userIDStr\<close>, \<open>idLess\<close> of \<open>store/memory\<close>). A Go string is a list
  of bytes (\<open>char list\<close>). \<open>strings.ToLower\<close>, \<open>ToUpper\<close>, \<open>EqualFold\<close> and
  \<open>TrimSpace\<close> are modelled on ASCII: letters and white space outside ASCII are left as
  they are.
\<close>

section \<open>Case, white space, searching\<close>

definition lower_char :: "char \<Rightarrow> char" where
  "lower_char c = (let n = (of_char c :: nat) in if 65 \<le> n \<and> n \<le> 90 then char_of (n + 32) else c)"

definition upper_char :: "char \<Rightarrow> char" where
  "upper_char c = (let n = (of_char c :: nat) in if 97 \<le> n \<and> n \<le> 122 then char_of (n - 32) else c)"

definition to_lower :: "string \<Rightarrow> string" where
  "to_lower s = map lower_char s"

definition to_upper :: "string \<Rightarrow> string" where
  "to_upper s = map upper_char s"

definition equal_fold :: "string \<Rightarrow> string \<Rightarrow> bool" where
  "equal_fold a b \<longleftrightarrow> to_lower a = to_lower b"

definition is_space :: "char \<Rightarrow> bool" where
  "is_space c \<longleftrightarrow> (let n = (of_char c :: nat) in n = 32 \<or> 9 \<le> n \<and> n \<le> 13)"

definition trim_space :: "string \<Rightarrow> string" where
  "trim_space s = rev (dropWhile is_space (rev (dropWhile is_space s)))"

definition has_prefix :: "string \<Rightarrow> string \<Rightarrow> bool" where
  "has_prefix s p \<longleftrightarrow> take (length p) s = p"

definition has_suffix :: "string \<Rightarrow> string \<Rightarrow> bool" where
  "has_suffix s p \<longleftrightarrow> has_prefix (rev s) (rev p)"

fun contains_str :: "string \<Rightarrow> string \<Rightarrow> bool" where
  "contains_str [] p = (p = [])"
| "contains_str (c # s) p = (has_prefix (c # s) p \<or> contains_str s p)"

lemma lower_char_idem [simp]: "lower_char (lower_char c) = lower_char c"
  by (auto simp: lower_char_def Let_def)

lemma to_lower_idem [simp]: "to_lower (to_lower s) = to_lower s"
  by (simp add: to_lower_def)

lemma to_lower_append [simp]: "to_lower (a @ b) = to_lower a @ to_lower b"
  by (simp add: to_lower_def)

lemma to_lower_Nil_iff [simp]: "to_lower s = [] \<longleftrightarrow> s = []" "[] = to_lower s \<longleftrightarrow> s = []"
  by (simp_all add: to_lower_def)

lemma is_space_lower [simp]: "is_space (lower_char c) = is_space c"
  by (auto simp: lower_char_def is_space_def Let_def)

lemma dropWhile_space_lower: "dropWhile is_space (map lower_char s) = map lower_char (dropWhile is_space s)"
  by (simp add: dropWhile_map comp_def)

lemma trim_space_lower: "trim_space (to_lower s) = to_lower (trim_space s)"
  by (simp add: trim_space_def to_lower_def rev_map dropWhile_space_lower)

lemma hd_dropWhile_space: "dropWhile is_space s = t \<Longrightarrow> t \<noteq> [] \<Longrightarrow> \<not> is_space (hd t)"
  using hd_dropWhile by blast

lemma dropWhile_space_idem [simp]: "dropWhile is_space (dropWhile is_space s) = dropWhile is_space s"
  by (induction s) auto

text \<open>Trimming the right end keeps a string that has no white space on its left.\<close>

lemma dropWhile_space_rtrim:
  assumes "dropWhile is_space s = s"
  shows "dropWhile is_space (rev (dropWhile is_space (rev s))) = rev (dropWhile is_space (rev s))"
proof (cases "rev (dropWhile is_space (rev s))")
  case (Cons c t)
  have "suffix (dropWhile is_space (rev s)) (rev s)"
    by (metis suffix_dropWhile)
  then have "prefix (c # t) s"
    using Cons by (metis suffix_to_prefix rev_rev_ident)
  then have "\<not> is_space c"
    using assms by (metis append_Cons dropWhile.simps(2) list.sel(1) list.distinct(1) hd_dropWhile prefixE)
  with Cons show ?thesis by simp
next
  case Nil
  then show ?thesis by (metis dropWhile.simps(1))
qed

lemma trim_space_idem [simp]: "trim_space (trim_space s) = trim_space s"
  unfolding trim_space_def by (simp add: dropWhile_space_rtrim)

lemma has_prefix_iff: "has_prefix s p \<longleftrightarrow> (\<exists>r. s = p @ r)"
  unfolding has_prefix_def by (metis append_eq_conv_conj append_take_drop_id)

lemma has_suffix_iff: "has_suffix s p \<longleftrightarrow> (\<exists>r. s = r @ p)"
  unfolding has_suffix_def has_prefix_iff by (metis rev_append rev_rev_ident)

lemma contains_str_iff: "contains_str s p \<longleftrightarrow> (\<exists>a b. s = a @ p @ b)"
proof (induction s)
  case Nil
  then show ?case by auto
next
  case (Cons c s)
  note ih = Cons.IH
  show ?case (is "?L \<longleftrightarrow> ?R")
  proof
    assume ?L
    then consider r where "c # s = p @ r" | a b where "s = a @ p @ b"
      using ih by (auto simp: has_prefix_iff)
    then show ?R
      by cases (metis append_Nil, metis append_Cons)
  next
    assume ?R
    then obtain a b where ab: "c # s = a @ p @ b" by blast
    show ?L
    proof (cases a)
      case Nil
      with ab have "has_prefix (c # s) p" by (auto simp: has_prefix_iff)
      then show ?thesis by simp
    next
      case (Cons d a')
      with ab have "s = a' @ p @ b" by simp
      then have "contains_str s p" using ih by blast
      then show ?thesis by simp
    qed
  qed
qed

text \<open>\<open>norm\<close> of \<open>store/memory/memory.go\<close>: every address is compared in this form.\<close>

definition norm :: "string \<Rightarrow> string" where
  "norm e = to_lower (trim_space e)"

lemma norm_idem [simp]: "norm (norm e) = norm e"
  by (simp add: norm_def trim_space_lower)

section \<open>Decimal numbers\<close>

definition is_digit :: "char \<Rightarrow> bool" where
  "is_digit c \<longleftrightarrow> (let n = (of_char c :: nat) in 48 \<le> n \<and> n \<le> 57)"

definition digit_val :: "char \<Rightarrow> nat" where
  "digit_val c = of_char c - 48"

definition digit_char :: "nat \<Rightarrow> char" where
  "digit_char d = char_of (48 + d)"

text \<open>\<open>strconv.FormatUint(n, 10)\<close>\<close>

fun format_uint :: "nat \<Rightarrow> string" where
  "format_uint n = (if n < 10 then [digit_char n] else format_uint (n div 10) @ [digit_char (n mod 10)])"

declare format_uint.simps [simp del]

definition digits_val :: "string \<Rightarrow> nat" where
  "digits_val s = foldl (\<lambda>a c. 10 * a + digit_val c) 0 s"

text \<open>
  \<open>strconv.ParseUint(s, 10, 64)\<close>: only decimal digits, at least one, and a value that
  fits in 64 bits; anything else is an error.
\<close>

definition parse_uint :: "string \<Rightarrow> nat option" where
  "parse_uint s =
     (if s = [] \<or> \<not> list_all is_digit s \<or> 2 ^ 64 \<le> digits_val s then None
      else Some (digits_val s))"

text \<open>The bound is evaluated on binary numerals.\<close>

lemma parse_uint_code [code]:
  "parse_uint s =
     (if s = [] \<or> \<not> list_all is_digit s \<or> 18446744073709551616 \<le> int (digits_val s) then None
      else Some (digits_val s))"
proof -
  have "18446744073709551616 \<le> int (digits_val s) \<longleftrightarrow> 2 ^ 64 \<le> digits_val s"
    using of_nat_le_iff [of "18446744073709551616" "digits_val s", where 'a = int] by simp
  then show ?thesis by (simp add: parse_uint_def)
qed

lemma digit_char_simps [simp]:
  "d < 10 \<Longrightarrow> is_digit (digit_char d)" "d < 10 \<Longrightarrow> digit_val (digit_char d) = d"
  by (simp_all add: digit_char_def is_digit_def digit_val_def)

lemma digit_char_zero [simp]: "digit_char 0 = CHR ''0''"
proof -
  have "(of_char (CHR ''0'') :: nat) = 48" by simp
  then show ?thesis by (metis char_of_char digit_char_def add.right_neutral)
qed

lemma digit_val_zero [simp]: "digit_val CHR ''0'' = 0"
  by (simp add: digit_val_def)

lemma digit_char_val [simp]: "is_digit c \<Longrightarrow> digit_char (digit_val c) = c"
  by (simp add: digit_char_def is_digit_def digit_val_def Let_def)

lemma digit_val_less: "is_digit c \<Longrightarrow> digit_val c < 10"
  by (auto simp: is_digit_def digit_val_def Let_def)

lemma digits_val_snoc [simp]: "digits_val (s @ [c]) = 10 * digits_val s + digit_val c"
  by (simp add: digits_val_def)

lemma digits_val_Nil [simp]: "digits_val [] = 0"
  by (simp add: digits_val_def)

lemma digits_val_single [simp]: "digits_val [c] = digit_val c"
  by (simp add: digits_val_def)

lemma format_uint_nonempty [simp]: "format_uint n \<noteq> []"
  by (subst format_uint.simps) simp

lemma format_uint_digits: "list_all is_digit (format_uint n)"
proof (induction n rule: format_uint.induct)
  case (1 n)
  then show ?case by (subst format_uint.simps) (simp add: list_all_append)
qed

lemma digits_val_format [simp]: "digits_val (format_uint n) = n"
proof (induction n rule: format_uint.induct)
  case (1 n)
  show ?case
  proof (cases "n < 10")
    case True
    then show ?thesis by (subst format_uint.simps) (simp add: digits_val_def)
  next
    case False
    with 1 show ?thesis by (subst format_uint.simps) simp
  qed
qed

lemma parse_format_uint: "n < 2 ^ 64 \<Longrightarrow> parse_uint (format_uint n) = Some n"
  by (simp add: parse_uint_def format_uint_digits)

lemma format_uint_inj [simp]: "format_uint m = format_uint n \<longleftrightarrow> m = n"
  by (metis digits_val_format)

text \<open>A number is printed without leading zeros, so exactly those spellings survive a round trip.\<close>

lemma digits_val_pos: "list_all is_digit s \<Longrightarrow> s \<noteq> [] \<Longrightarrow> hd s \<noteq> CHR ''0'' \<Longrightarrow> 0 < digits_val s"
proof (induction s rule: rev_induct)
  case (snoc c s)
  show ?case
  proof (cases "s = []")
    case True
    have "digit_val c \<noteq> 0"
    proof
      assume "digit_val c = 0"
      moreover have "is_digit c" using snoc.prems(1) by simp
      ultimately have "digit_char 0 = c" by (metis digit_char_val)
      then show False using snoc.prems(3) True by simp
    qed
    with True show ?thesis by simp
  next
    case False
    with snoc show ?thesis by (simp add: list_all_append)
  qed
qed simp

lemma format_digits_val:
  "list_all is_digit s \<Longrightarrow> s \<noteq> [] \<Longrightarrow> hd s \<noteq> CHR ''0'' \<Longrightarrow> format_uint (digits_val s) = s"
proof (induction s rule: rev_induct)
  case (snoc c s)
  then have c: "is_digit c" by (simp add: list_all_append)
  show ?case
  proof (cases "s = []")
    case True
    with c digit_val_less [OF c] show ?thesis by (subst format_uint.simps) (simp add: digits_val_def)
  next
    case False
    with snoc have ih: "format_uint (digits_val s) = s" and pos: "0 < digits_val s"
      by (simp_all add: list_all_append digits_val_pos)
    have "\<not> 10 * digits_val s + digit_val c < 10" using pos by simp
    moreover have "(10 * digits_val s + digit_val c) div 10 = digits_val s"
      and "(10 * digits_val s + digit_val c) mod 10 = digit_val c"
      using digit_val_less [OF c] by simp_all
    ultimately show ?thesis using ih c by (subst format_uint.simps) simp
  qed
qed simp

section \<open>Opaque identifiers\<close>

definition idStr :: "nat \<Rightarrow> string" where
  "idStr n = format_uint n"

definition parseID :: "string \<Rightarrow> nat option" where
  "parseID s = (case parse_uint s of None \<Rightarrow> None | Some n \<Rightarrow> if n = 0 then None else Some n)"

definition parseUserID :: "string \<Rightarrow> nat" where
  "parseUserID s = (if s = [] then 0 else case parseID s of None \<Rightarrow> 0 | Some n \<Rightarrow> n)"

definition userIDStr :: "nat \<Rightarrow> string" where
  "userIDStr n = (if n = 0 then [] else idStr n)"

definition idLess :: "string \<Rightarrow> string \<Rightarrow> bool" where
  "idLess a b \<longleftrightarrow>
     (case parseID a of None \<Rightarrow> 0 | Some n \<Rightarrow> n) < (case parseID b of None \<Rightarrow> 0 | Some n \<Rightarrow> n)"

lemma idStr_inj [simp]: "idStr m = idStr n \<longleftrightarrow> m = n"
  by (simp add: idStr_def)

lemma idStr_nonempty [simp]: "idStr n \<noteq> []" "[] \<noteq> idStr n"
  by (simp_all add: idStr_def not_sym)

lemma parseID_range: "parseID s = Some n \<Longrightarrow> 1 \<le> n \<and> n < 2 ^ 64"
  by (auto simp: parseID_def parse_uint_def split: if_splits option.splits)

lemma parseID_idStr [simp]: "1 \<le> n \<Longrightarrow> n < 2 ^ 64 \<Longrightarrow> parseID (idStr n) = Some n"
  by (simp add: parseID_def idStr_def parse_format_uint)

lemma parseID_Nil [simp]: "parseID [] = None"
  by (simp add: parseID_def parse_uint_def)

lemma parseID_canonical: "parseID s = Some n \<Longrightarrow> idStr n = s \<longleftrightarrow> hd s \<noteq> CHR ''0''"
proof
  assume p: "parseID s = Some n"
  then have s: "list_all is_digit s" "s \<noteq> []" "n = digits_val s" "0 < n"
    by (auto simp: parseID_def parse_uint_def split: if_splits option.splits)
  show "idStr n = s" if "hd s \<noteq> CHR ''0''"
    using that s by (simp add: idStr_def format_digits_val)
  show "hd s \<noteq> CHR ''0''" if "idStr n = s"
  proof
    assume z: "hd s = CHR ''0''"
    have "hd (format_uint m) \<noteq> CHR ''0''" if "0 < m" for m
      using that
    proof (induction m rule: format_uint.induct)
      case (1 m)
      have "digit_char m \<noteq> CHR ''0''" if "m < 10"
        using that 1(2) by (metis digit_char_simps(2) digit_val_zero less_irrefl)
      then show ?case using 1 by (subst format_uint.simps) auto
    qed
    with that s(4) z show False by (auto simp: idStr_def)
  qed
qed

lemma userIDStr_parseUserID: "n < 2 ^ 64 \<Longrightarrow> parseUserID (userIDStr n) = n"
  by (auto simp: parseUserID_def userIDStr_def)

text \<open>The dashes of the code's messages, in UTF-8.\<close>

definition em_dash :: string where "em_dash = [CHR 0xE2, CHR 0x80, CHR 0x94]"
definition en_dash :: string where "en_dash = [CHR 0xE2, CHR 0x80, CHR 0x93]"

section \<open>Hexadecimal\<close>

definition hex_digit :: "nat \<Rightarrow> char" where
  "hex_digit d = (if d < 10 then char_of (48 + d) else char_of (87 + d))"

text \<open>\<open>hex.EncodeToString\<close>\<close>

definition hex_encode :: "bytes \<Rightarrow> string" where
  "hex_encode bs = concat (map (\<lambda>c. [hex_digit (of_char c div 16), hex_digit (of_char c mod 16)]) bs)"

text \<open>\<open>url.QueryEscape\<close>: letters, digits and \<open>-_.~\<close> stay, a space becomes \<open>+\<close>, other bytes \<open>%XX\<close>.\<close>

definition query_char :: "char \<Rightarrow> bool" where
  "query_char c \<longleftrightarrow> (let n = (of_char c :: nat) in
     48 \<le> n \<and> n \<le> 57 \<or> 65 \<le> n \<and> n \<le> 90 \<or> 97 \<le> n \<and> n \<le> 122 \<or> n \<in> {45, 46, 95, 126})"

definition query_escape :: "string \<Rightarrow> string" where
  "query_escape s = concat (map (\<lambda>c. if query_char c then [c] else if c = CHR '' '' then ''+''
     else [CHR ''%'', upper_char (hex_digit (of_char c div 16)), upper_char (hex_digit (of_char c mod 16))]) s)"

text \<open>\<open>url.PathEscape\<close> also keeps \<open>$&+=:@\<close> and escapes the space.\<close>

definition path_escape :: "string \<Rightarrow> string" where
  "path_escape s = concat (map (\<lambda>c. if query_char c \<or> (of_char c :: nat) \<in> {36, 38, 43, 58, 61, 64} then [c]
     else [CHR ''%'', upper_char (hex_digit (of_char c div 16)), upper_char (hex_digit (of_char c mod 16))]) s)"

lemma hex_digit_inj: "d < 16 \<Longrightarrow> e < 16 \<Longrightarrow> hex_digit d = hex_digit e \<Longrightarrow> d = e"
proof -
  assume b: "d < 16" "e < 16" and eq: "hex_digit d = hex_digit e"
  have v: "(of_char (hex_digit x) :: nat) = (if x < 10 then 48 + x else 87 + x)" if "x < 16" for x
    using that by (simp add: hex_digit_def)
  from eq have "(of_char (hex_digit d) :: nat) = of_char (hex_digit e)" by simp
  with b show "d = e" by (simp add: v split: if_splits)
qed

lemma hex_encode_inj: "hex_encode a = hex_encode b \<Longrightarrow> a = b"
proof (induction a arbitrary: b)
  case Nil
  then show ?case by (cases b) (auto simp: hex_encode_def)
next
  case (Cons x a)
  then obtain y b' where b: "b = y # b'" by (cases b) (auto simp: hex_encode_def)
  have lt: "of_char c div 16 < (16 :: nat)" for c :: char
    using nat_of_char_less_256 [of c] by (simp only: less_mult_imp_div_less)
  from Cons.prems b have "hex_digit (of_char x div 16) = hex_digit (of_char y div 16)"
    and "hex_digit (of_char x mod 16) = hex_digit (of_char y mod 16)"
    and "hex_encode a = hex_encode b'"
    by (simp_all add: hex_encode_def)
  then have "(of_char x :: nat) div 16 = of_char y div 16" "(of_char x :: nat) mod 16 = of_char y mod 16"
    and "a = b'"
    using Cons.IH hex_digit_inj lt by (blast, simp add: hex_digit_inj, blast)
  then have "(of_char x :: nat) = of_char y" by (metis div_mult_mod_eq)
  then show ?case using b \<open>a = b'\<close> by simp
qed

section \<open>Splitting and joining\<close>

text \<open>\<open>strings.Split\<close> on a one-byte separator and \<open>strings.Join\<close>.\<close>

fun split_on :: "char \<Rightarrow> string \<Rightarrow> string list" where
  "split_on c [] = [[]]"
| "split_on c (x # xs) = (if x = c then [] # split_on c xs
     else case split_on c xs of [] \<Rightarrow> [[x]] | w # ws \<Rightarrow> (x # w) # ws)"

fun join_with :: "string \<Rightarrow> string list \<Rightarrow> string" where
  "join_with sep [] = []"
| "join_with sep [s] = s"
| "join_with sep (s # ss) = s @ sep @ join_with sep ss"

lemma split_on_single: "c \<notin> set s \<Longrightarrow> split_on c s = [s]"
  by (induction s) (auto split: list.splits)

lemma split_on_prefix: "c \<notin> set s \<Longrightarrow> split_on c (s @ c # t) = s # split_on c t"
  by (induction s) (auto split: list.splits)

lemma split_join: "ss \<noteq> [] \<Longrightarrow> \<forall>s \<in> set ss. c \<notin> set s \<Longrightarrow> split_on c (join_with [c] ss) = ss"
  by (induction "[c]" ss rule: join_with.induct) (simp_all add: split_on_single split_on_prefix)

end
