(* ===== verification/AuthxTypes.thy ===== *)
theory AuthxTypes
  imports GoStrings "HOL-Library.Word"
begin

text \<open>
  The storage-agnostic data of the root package \<open>authx\<close>: the sentinel errors, the records
  exchanged with the stores, and the pure functions over them (\<open>loginBlocked\<close>,
  \<open>KeyHasScope\<close>, \<open>hasAnyGroup\<close>, the slug and role validators). A pointer that may be nil
  is an \<open>option\<close>; a nil slice and an empty one are both \<open>[]\<close>; a zero \<open>time.Time\<close> is \<open>0\<close>.
\<close>

section \<open>Errors\<close>

datatype error =
    ErrNoUser | ErrNoCredential | ErrTokenInvalid | ErrEmailConflict | ErrUserBlocked
  | ErrNoGroup | ErrNoOrg | ErrNotOrgMember | ErrOrgOwnerDeprovision | ErrOrgView
  | ErrOAuthNotFound | ErrOAuthTokenUsed
  | ErrDuplicateCredential | ErrDuplicateGroup | ErrDuplicateOrg | ErrDuplicateOAuth

type_synonym 'a result = "error + 'a"

section \<open>Users, passkeys, tokens\<close>

record AuthUser =
  au_ID :: string
  au_Sub :: string
  au_Email :: string
  au_Name :: string
  au_EmailVerified :: bool
  au_Disabled :: bool
  au_Banned :: bool
  au_BannedUntil :: time
  au_BanReason :: string
  au_CreatedAt :: time
  au_UpdatedAt :: time

text \<open>\<open>loginBlocked\<close>: the Disabled switch and an unexpired ban, with the reason shown.\<close>

definition loginBlocked :: "time \<Rightarrow> AuthUser option \<Rightarrow> bool \<times> string" where
  "loginBlocked now ou = (case ou of
     None \<Rightarrow> (False, [])
   | Some u \<Rightarrow>
       if au_Disabled u then (True, ''this account has been disabled'')
       else if au_Banned u \<and> (au_BannedUntil u = 0 \<or> now < au_BannedUntil u) then
         (if au_BanReason u \<noteq> [] then (True, ''this account is suspended: '' @ au_BanReason u)
          else (True, ''this account is suspended''))
       else (False, []))"

record TokenClaim =
  tc_UserID :: string
  tc_Email :: string

record Passkey =
  pk_ID :: string
  pk_CredentialID :: bytes
  pk_PublicKey :: bytes
  pk_AttestationType :: string
  pk_AAGUID :: bytes
  pk_SignCount :: "32 word"
  pk_Transports :: string
  pk_BackupEligible :: bool
  pk_BackupState :: bool
  pk_Name :: string
  pk_CreatedAt :: time
  pk_LastUsedAt :: time

record Identity =
  id_Subject :: string
  id_Email :: string
  id_Name :: string
  id_EmailVerified :: bool
  id_Groups :: "string list"

section \<open>Directory records\<close>

record Group =
  g_ID :: string
  g_Name :: string
  g_Description :: string
  g_CreatedAt :: time
  g_UpdatedAt :: time
  g_OrgID :: string

record APIKeyInfo =
  ak_ID :: string
  ak_Name :: string
  ak_Prefix :: string
  ak_Groups :: "string list"
  ak_Scopes :: "string list"
  ak_ExpiresAt :: "time option"
  ak_CreatedAt :: time
  ak_LastUsedAt :: "time option"
  ak_OrgID :: string

text \<open>\<open>KeyHasScope\<close>, loop included: nil and an empty scope list grant nothing.\<close>

fun scope_listed :: "string \<Rightarrow> string list \<Rightarrow> bool" where
  "scope_listed scope [] = False"
| "scope_listed scope (s # ss) = (if s = scope \<or> s = ''*'' then True else scope_listed scope ss)"

definition KeyHasScope :: "APIKeyInfo option \<Rightarrow> string \<Rightarrow> bool" where
  "KeyHasScope info scope = (case info of None \<Rightarrow> False | Some k \<Rightarrow> scope_listed scope (ak_Scopes k))"

definition groupNames :: "Group list \<Rightarrow> string list" where
  "groupNames gs = map g_Name gs"

definition globalGroups :: "Group list \<Rightarrow> Group list" where
  "globalGroups gs = filter (\<lambda>g. g_OrgID g = []) gs"

text \<open>\<open>hasAnyGroup(have, want)\<close>: an empty \<open>want\<close> admits everyone.\<close>

definition hasAnyGroup :: "string list \<Rightarrow> string list \<Rightarrow> bool" where
  "hasAnyGroup hv want = (if want = [] then True else list_ex (\<lambda>w. List.member hv w) want)"

section \<open>Organizations and sessions\<close>

record Org =
  o_ID :: string
  o_Slug :: string
  o_Name :: string
  o_CreatedAt :: time
  o_UpdatedAt :: time

record UserOrg =
  uo_Org :: Org
  uo_Role :: string

record OrgMember =
  om_User :: AuthUser
  om_Role :: string

record OrgInvite =
  oi_ID :: string
  oi_OrgID :: string
  oi_Email :: string
  oi_Role :: string
  oi_InvitedBy :: string
  oi_ExpiresAt :: time
  oi_CreatedAt :: time

definition OrgRoleOwner :: string where "OrgRoleOwner = ''owner''"
definition OrgRoleAdmin :: string where "OrgRoleAdmin = ''admin''"
definition OrgRoleMember :: string where "OrgRoleMember = ''member''"

definition in_range :: "char \<Rightarrow> char \<Rightarrow> char \<Rightarrow> bool" where
  "in_range lo hi c \<longleftrightarrow> (of_char lo :: nat) \<le> of_char c \<and> (of_char c :: nat) \<le> of_char hi"

definition slug_char :: "char \<Rightarrow> bool" where
  "slug_char c \<longleftrightarrow> in_range CHR ''a'' CHR ''z'' c \<or> in_range CHR ''0'' CHR ''9'' c \<or> c = CHR ''-''"

definition validOrgSlug :: "string \<Rightarrow> bool" where
  "validOrgSlug s =
     (if length s = 0 \<or> length s > 63 \<or> hd s = CHR ''-'' \<or> last s = CHR ''-'' then False
      else list_all slug_char s)"

definition validOrgRole :: "string \<Rightarrow> bool" where
  "validOrgRole r =
     (if length r = 0 \<or> length r > 32 then False
      else list_all (\<lambda>c. slug_char c \<or> c = CHR ''_'') r)"

definition orgRoleIsManager :: "string \<Rightarrow> bool" where
  "orgRoleIsManager role \<longleftrightarrow> role = OrgRoleOwner \<or> role = OrgRoleAdmin"

record SessionRecord =
  sr_SID :: string
  sr_Subject :: string
  sr_UserID :: string
  sr_UserAgent :: string
  sr_IP :: string
  sr_CreatedAt :: time
  sr_ExpiresAt :: time
  sr_Current :: bool

record TOTPInfo =
  ti_Secret :: string
  ti_Enabled :: bool
  ti_LastStep :: "64 word"

section \<open>OAuth provider records\<close>

record OAuthClient =
  oc_ID :: string
  oc_SecretHash :: string
  oc_Name :: string
  oc_URI :: string
  oc_LogoURI :: string
  oc_RedirectURIs :: "string list"
  oc_GrantTypes :: "string list"
  oc_AuthMethod :: string
  oc_Dynamic :: bool
  oc_CreatedAt :: time
  oc_LastUsedAt :: time

record OAuthAuthRequest =
  or_ID :: string
  or_ClientID :: string
  or_RedirectURI :: string
  or_State :: string
  or_Nonce :: string
  or_Scopes :: "string list"
  or_ResponseType :: string
  or_ResponseMode :: string
  or_CodeChallenge :: string
  or_CodeChallengeMethod :: string
  or_Resources :: "string list"
  or_Prompt :: "string list"
  or_Subject :: string
  or_Ref :: string
  or_GrantExpiresAt :: time
  or_AuthTime :: time
  or_Done :: bool
  or_CodeHash :: string
  or_CodeAt :: time
  or_CreatedAt :: time

record OAuthGrant =
  og_ID :: string
  og_ClientID :: string
  og_Subject :: string
  og_Scopes :: "string list"
  og_Resources :: "string list"
  og_Ref :: string
  og_AuthTime :: time
  og_CreatedAt :: time
  og_ExpiresAt :: time
  og_RevokedAt :: "time option"

record OAuthAccessToken =
  oa_ID :: string
  oa_GrantID :: string
  oa_ClientID :: string
  oa_Subject :: string
  oa_Scopes :: "string list"
  oa_ExpiresAt :: time
  oa_CreatedAt :: time

record OAuthRefreshToken =
  ot_Hash :: string
  ot_GrantID :: string
  ot_ClientID :: string
  ot_Subject :: string
  ot_Scopes :: "string list"
  ot_ExpiresAt :: time
  ot_CreatedAt :: time
  ot_UsedAt :: "time option"

record OAuthSigningKey =
  ok_ID :: string
  ok_Algorithm :: string
  ok_PrivatePEM :: bytes
  ok_CreatedAt :: time
  ok_RetiredAt :: "time option"

record OAuthGrantFilter =
  gf_ID :: string
  gf_Ref :: string
  gf_ClientID :: string
  gf_Subject :: string

definition filter_Empty :: "OAuthGrantFilter \<Rightarrow> bool" where
  "filter_Empty f \<longleftrightarrow> gf_ID f = [] \<and> gf_Ref f = [] \<and> gf_ClientID f = [] \<and> gf_Subject f = []"

section \<open>Facts about the pure functions\<close>

lemma KeyHasScope_iff:
  "KeyHasScope info scope \<longleftrightarrow>
     (\<exists>k. info = Some k \<and> (scope \<in> set (ak_Scopes k) \<or> ''*'' \<in> set (ak_Scopes k)))"
proof -
  have "scope_listed scope ss \<longleftrightarrow> scope \<in> set ss \<or> ''*'' \<in> set ss" for ss
    by (induction ss) auto
  then show ?thesis by (auto simp: KeyHasScope_def split: option.splits)
qed

lemma hasAnyGroup_iff: "hasAnyGroup hv want \<longleftrightarrow> want = [] \<or> set hv \<inter> set want \<noteq> {}"
  by (auto simp: hasAnyGroup_def list_ex_iff)

lemma validOrgSlug_iff:
  "validOrgSlug s \<longleftrightarrow> s \<noteq> [] \<and> length s \<le> 63 \<and> hd s \<noteq> CHR ''-'' \<and> last s \<noteq> CHR ''-'' \<and>
     (\<forall>c \<in> set s. slug_char c)"
  by (auto simp: validOrgSlug_def list_all_iff)

lemma loginBlocked_iff:
  "fst (loginBlocked now (Some u)) \<longleftrightarrow>
     au_Disabled u \<or> au_Banned u \<and> (au_BannedUntil u = 0 \<or> now < au_BannedUntil u)"
  by (simp add: loginBlocked_def)

end
