(* ===== verification/MemState.thy ===== *)
theory MemState
  imports AuthxTypes
begin

text \<open>
  The state of the in-memory store (\<open>store/memory/memory.go\<close>): its row types, the
  \<open>Store\<close> struct and \<open>New\<close>. Every method of the store holds \<open>s.mu\<close> from its first
  statement to its return, so each method is one atomic step of the state. The instants a
  method reads from \<open>time.Now()\<close> are one argument \<open>now\<close> (all its calls sit in one critical
  section), and the random bytes it draws are an argument too. The maps of the OAuth
  provider are created on first use (\<open>initOAuthLocked\<close>); a nil map reads as an empty one,
  so they are empty from the start here. The generated sequences are unbounded naturals:
  the code's 64-bit counters would need \<open>2 ^ 64\<close> insertions to wrap.
\<close>

record user =
  u_id :: nat
  u_sub :: string
  u_email :: string
  u_name :: string
  u_emailVerified :: bool
  u_disabled :: bool
  u_banned :: bool
  u_bannedUntil :: time
  u_banReason :: string
  u_webauthnHandle :: bytes
  u_createdAt :: time
  u_updatedAt :: time

record passkey =
  p_p :: Passkey
  p_userID :: nat

record token =
  t_purpose :: string
  t_userID :: nat
  t_email :: string
  t_hash :: bytes
  t_expiresAt :: time
  t_consumedAt :: "time option"

record emailOTP =
  e_codeHash :: bytes
  e_attempts :: int
  e_maxAttempts :: int
  e_expiresAt :: time

record sessionRec =
  s_rec :: SessionRecord
  s_revoked :: bool

record audit =
  a_userID :: nat
  a_email :: string
  a_success :: bool
  a_createdAt :: time

record totpRec =
  r_secret :: string
  r_enabled :: bool
  r_lastStep :: "64 word"

record apiKey =
  k_info :: APIKeyInfo
  k_hash :: string

record org =
  org_id :: nat
  org_slug :: string
  org_name :: string
  org_createdAt :: time
  org_updatedAt :: time

record orgInvite =
  iv_inv :: OrgInvite
  iv_hash :: string
  iv_consumed :: bool

text \<open>
  The sets the code keeps as \<open>map[K]bool\<close> with the value \<open>true\<close> (group memberships,
  recovery codes) are lists without repetition.
\<close>

record store =
  st_seq :: nat
  st_users :: "(nat, user) gomap"
  st_passwords :: "(nat, string \<times> string) gomap"
  st_passkeys :: "(nat, passkey) gomap"
  st_pkSeq :: nat
  st_oauth :: "(string, nat) gomap"
  st_tokens :: "token list"
  st_otps :: "(string, emailOTP) gomap"
  st_sessions :: "(string, sessionRec) gomap"
  st_audits :: "audit list"
  st_groups :: "(nat, Group) gomap"
  st_groupSeq :: nat
  st_memberships :: "(nat, nat list) gomap"
  st_apikeys :: "(nat, apiKey) gomap"
  st_apiSeq :: nat
  st_orgs :: "(nat, org) gomap"
  st_orgSeq :: nat
  st_orgMembers :: "(nat, (nat, string) gomap) gomap"
  st_orgInvites :: "(nat, orgInvite) gomap"
  st_inviteSeq :: nat
  st_totp :: "(nat, totpRec) gomap"
  st_recovery :: "(nat, string list) gomap"
  st_oauthClients :: "(string, OAuthClient) gomap"
  st_oauthRequests :: "(string, OAuthAuthRequest) gomap"
  st_oauthGrants :: "(string, OAuthGrant) gomap"
  st_oauthAccess :: "(string, OAuthAccessToken) gomap"
  st_oauthRefresh :: "(string, OAuthRefreshToken) gomap"
  st_oauthKeys :: "OAuthSigningKey list"

definition New :: store where
  "New = \<lparr>st_seq = 0, st_users = [], st_passwords = [], st_passkeys = [], st_pkSeq = 0,
     st_oauth = [], st_tokens = [], st_otps = [], st_sessions = [], st_audits = [],
     st_groups = [], st_groupSeq = 0, st_memberships = [], st_apikeys = [], st_apiSeq = 0,
     st_orgs = [], st_orgSeq = 0, st_orgMembers = [], st_orgInvites = [], st_inviteSeq = 0,
     st_totp = [], st_recovery = [], st_oauthClients = [], st_oauthRequests = [],
     st_oauthGrants = [], st_oauthAccess = [], st_oauthRefresh = [], st_oauthKeys = []\<rparr>"

text \<open>\<open>view\<close>: the public record of a user row.\<close>

definition view :: "user \<Rightarrow> AuthUser" where
  "view u = \<lparr>au_ID = idStr (u_id u), au_Sub = u_sub u, au_Email = u_email u, au_Name = u_name u,
     au_EmailVerified = u_emailVerified u, au_Disabled = u_disabled u, au_Banned = u_banned u,
     au_BannedUntil = u_bannedUntil u, au_BanReason = u_banReason u,
     au_CreatedAt = u_createdAt u, au_UpdatedAt = u_updatedAt u\<rparr>"

text \<open>Absent entries of the maps of sets and maps of maps read as empty.\<close>

definition sget :: "('k, 'v list) gomap \<Rightarrow> 'k \<Rightarrow> 'v list" where
  "sget m k = (case mget m k of None \<Rightarrow> [] | Some xs \<Rightarrow> xs)"

lemma sget_simps [simp, gomap_simps]:
  "sget [] k = []"
  "sget (mput k xs m) k' = (if k' = k then xs else sget m k')"
  "sget (mdel k m) k' = (if k' = k then [] else sget m k')"
  by (simp_all add: sget_def)

lemma sget_mmap [simp, gomap_simps]: "f [] = [] \<Longrightarrow> sget (mmap f m) k = f (sget m k)"
  by (simp add: sget_def split: option.splits)

lemma sget_mmod [simp, gomap_simps]:
  "f [] = [] \<Longrightarrow> sget (mmod k f m) k' = (if k' = k then f (sget m k') else sget m k')"
  by (simp add: sget_def split: option.splits)

end
