(* ===== verification/MemIdentity.thy ===== *)
theory MemIdentity
  imports MemState
begin

text \<open>
  The credential half of the in-memory store (\<open>store/memory/memory.go\<close>): users, passkeys,
  passwords, social links, single-use tokens, e-mail codes, the audit trail, the identity
  upsert run on every login and the deletion cascade.
\<close>

section \<open>Users\<close>

definition findByEmail :: "store \<Rightarrow> string \<Rightarrow> user option" where
  "findByEmail s email = mfind (\<lambda>u. u_email u = norm email) (st_users s)"

definition findBySub :: "store \<Rightarrow> string \<Rightarrow> user option" where
  "findBySub s sub = mfind (\<lambda>u. u_sub u = sub) (st_users s)"

definition UserByEmail :: "store \<Rightarrow> string \<Rightarrow> AuthUser result" where
  "UserByEmail s email = (case findByEmail s email of Some u \<Rightarrow> Ok (view u) | None \<Rightarrow> Err ErrNoUser)"

definition UserBySub :: "store \<Rightarrow> string \<Rightarrow> AuthUser result" where
  "UserBySub s sub = (case findBySub s sub of Some u \<Rightarrow> Ok (view u) | None \<Rightarrow> Err ErrNoUser)"

text \<open>The composite literal of a new row; the fields it leaves out have their zero value.\<close>

definition new_user :: "time \<Rightarrow> nat \<Rightarrow> string \<Rightarrow> string \<Rightarrow> string \<Rightarrow> bool \<Rightarrow> user" where
  "new_user now n sub email name verified =
     \<lparr>u_id = n, u_sub = sub, u_email = email, u_name = name, u_emailVerified = verified,
      u_disabled = False, u_banned = False, u_bannedUntil = 0, u_banReason = [],
      u_webauthnHandle = [], u_createdAt = now, u_updatedAt = now\<rparr>"

text \<open>\<open>s.seq++\<close>, the new row stored under it, and its view returned.\<close>

definition insert_user ::
  "time \<Rightarrow> string \<Rightarrow> string \<Rightarrow> string \<Rightarrow> bool \<Rightarrow> store \<Rightarrow> AuthUser result \<times> store" where
  "insert_user now sub email name verified s =
     (let n = Suc (st_seq s); u = new_user now n sub email name verified
      in (Ok (view u), s\<lparr>st_seq := n, st_users := mput n u (st_users s)\<rparr>))"

text \<open>\<open>rid\<close> is the hex string of \<open>randID\<close>.\<close>

definition CreateLocalUser ::
  "time \<Rightarrow> string \<Rightarrow> store \<Rightarrow> string \<Rightarrow> string \<Rightarrow> AuthUser result \<times> store" where
  "CreateLocalUser now rid s email name =
     (if findByEmail s email \<noteq> None then (Err ErrEmailConflict, s)
      else insert_user now (''local:'' @ rid) (norm email) name False s)"

definition SetEmailVerified :: "time \<Rightarrow> store \<Rightarrow> string \<Rightarrow> bool \<Rightarrow> unit result \<times> store" where
  "SetEmailVerified now s userID verified = (case parseID userID of
     None \<Rightarrow> (Ok (), s)
   | Some n \<Rightarrow> (Ok (), s\<lparr>st_users :=
       mmod n (\<lambda>u. u\<lparr>u_emailVerified := verified, u_updatedAt := now\<rparr>) (st_users s)\<rparr>))"

text \<open>\<open>h\<close> is the 32 random bytes of a new handle.\<close>

definition EnsureWebauthnHandle :: "bytes \<Rightarrow> store \<Rightarrow> string \<Rightarrow> bytes result \<times> store" where
  "EnsureWebauthnHandle h s userID = (case parseID userID of
     None \<Rightarrow> (Err ErrNoUser, s)
   | Some n \<Rightarrow> (case mget (st_users s) n of
       None \<Rightarrow> (Err ErrNoUser, s)
     | Some u \<Rightarrow>
         if length (u_webauthnHandle u) = 0 then
           (Ok h, s\<lparr>st_users := mmod n (\<lambda>u. u\<lparr>u_webauthnHandle := h\<rparr>) (st_users s)\<rparr>)
         else (Ok (u_webauthnHandle u), s)))"

definition UserByWebauthnHandle :: "store \<Rightarrow> bytes \<Rightarrow> AuthUser result" where
  "UserByWebauthnHandle s handle =
     (case mfind (\<lambda>u. u_webauthnHandle u = handle) (st_users s) of
        Some u \<Rightarrow> Ok (view u) | None \<Rightarrow> Err ErrNoUser)"

definition SetEmail :: "time \<Rightarrow> store \<Rightarrow> string \<Rightarrow> string \<Rightarrow> unit result \<times> store" where
  "SetEmail now s userID newEmail = (case parseID userID of
     None \<Rightarrow> (Ok (), s)
   | Some n \<Rightarrow>
       let ne = norm newEmail in
       if mfind (\<lambda>u. u_email u = ne \<and> u_id u \<noteq> n) (st_users s) \<noteq> None
       then (Err ErrEmailConflict, s)
       else (Ok (), s\<lparr>st_users := mmod n
         (\<lambda>u. u\<lparr>u_email := ne, u_emailVerified := True, u_updatedAt := now\<rparr>) (st_users s)\<rparr>))"

section \<open>Passkeys\<close>

definition Passkeys :: "store \<Rightarrow> string \<Rightarrow> Passkey list result" where
  "Passkeys s userID = (case parseID userID of
     None \<Rightarrow> Ok []
   | Some n \<Rightarrow> Ok (map p_p (filter (\<lambda>pk. p_userID pk = n) (mvals (st_passkeys s)))))"

definition AddPasskey :: "time \<Rightarrow> store \<Rightarrow> string \<Rightarrow> Passkey \<Rightarrow> unit result \<times> store" where
  "AddPasskey now s userID p = (case parseID userID of
     None \<Rightarrow> (Err ErrNoUser, s)
   | Some n \<Rightarrow>
       if mfind (\<lambda>pk. pk_CredentialID (p_p pk) = pk_CredentialID p) (st_passkeys s) \<noteq> None
       then (Err ErrDuplicateCredential, s)
       else let pkID = Suc (st_pkSeq s);
                p' = p\<lparr>pk_ID := idStr pkID, pk_CreatedAt := now, pk_LastUsedAt := now\<rparr>
            in (Ok (), s\<lparr>st_pkSeq := pkID,
                 st_passkeys := mput pkID \<lparr>p_p = p', p_userID = n\<rparr> (st_passkeys s)\<rparr>))"

definition touch_passkey :: "time \<Rightarrow> bytes \<Rightarrow> 32 word \<Rightarrow> passkey \<Rightarrow> passkey" where
  "touch_passkey now cid n pk =
     (if pk_CredentialID (p_p pk) = cid then
        let p = p_p pk;
            p' = (if pk_SignCount p < n then p\<lparr>pk_SignCount := n\<rparr> else p)
        in pk\<lparr>p_p := p'\<lparr>pk_LastUsedAt := now\<rparr>\<rparr>
      else pk)"

definition TouchPasskey :: "time \<Rightarrow> store \<Rightarrow> bytes \<Rightarrow> 32 word \<Rightarrow> unit result \<times> store" where
  "TouchPasskey now s credentialID signCount =
     (Ok (), s\<lparr>st_passkeys := mmap (touch_passkey now credentialID signCount) (st_passkeys s)\<rparr>)"

definition RemovePasskey :: "store \<Rightarrow> string \<Rightarrow> string \<Rightarrow> unit result \<times> store" where
  "RemovePasskey s userID pid0 = (case (parseID userID, parseID pid0) of
     (Some uid, Some pid) \<Rightarrow> (case mget (st_passkeys s) pid of
        Some pk \<Rightarrow> if p_userID pk = uid then (Ok (), s\<lparr>st_passkeys := mdel pid (st_passkeys s)\<rparr>)
                   else (Ok (), s)
      | None \<Rightarrow> (Ok (), s))
   | _ \<Rightarrow> (Ok (), s))"

definition RenamePasskey :: "store \<Rightarrow> string \<Rightarrow> string \<Rightarrow> string \<Rightarrow> unit result \<times> store" where
  "RenamePasskey s userID pid0 name = (case (parseID userID, parseID pid0) of
     (Some uid, Some pid) \<Rightarrow> (case mget (st_passkeys s) pid of
        Some pk \<Rightarrow>
          if p_userID pk = uid then
            (Ok (), s\<lparr>st_passkeys :=
               mmod pid (\<lambda>pk. pk\<lparr>p_p := (p_p pk)\<lparr>pk_Name := name\<rparr>\<rparr>) (st_passkeys s)\<rparr>)
          else (Ok (), s)
      | None \<Rightarrow> (Ok (), s))
   | _ \<Rightarrow> (Ok (), s))"

section \<open>Passwords and social links\<close>

definition PasswordHash :: "store \<Rightarrow> string \<Rightarrow> (string \<times> string) result" where
  "PasswordHash s userID = (case parseID userID of
     None \<Rightarrow> Err ErrNoCredential
   | Some n \<Rightarrow> (case mget (st_passwords s) n of
       Some pc \<Rightarrow> Ok pc | None \<Rightarrow> Err ErrNoCredential))"

definition SetPasswordHash :: "store \<Rightarrow> string \<Rightarrow> string \<Rightarrow> string \<Rightarrow> unit result \<times> store" where
  "SetPasswordHash s userID hash algo = (case parseID userID of
     None \<Rightarrow> (Ok (), s)
   | Some n \<Rightarrow> (Ok (), s\<lparr>st_passwords := mput n (hash, algo) (st_passwords s)\<rparr>))"

definition oauth_key :: "string \<Rightarrow> string \<Rightarrow> string" where
  "oauth_key provider subject = provider @ ''|'' @ subject"

definition UserByOAuth :: "store \<Rightarrow> string \<Rightarrow> string \<Rightarrow> AuthUser result" where
  "UserByOAuth s provider subject = (case mget (st_oauth s) (oauth_key provider subject) of
     None \<Rightarrow> Err ErrNoUser
   | Some uid \<Rightarrow> (case mget (st_users s) uid of Some u \<Rightarrow> Ok (view u) | None \<Rightarrow> Err ErrNoUser))"

definition LinkOAuth ::
  "store \<Rightarrow> string \<Rightarrow> string \<Rightarrow> string \<Rightarrow> string \<Rightarrow> unit result \<times> store" where
  "LinkOAuth s userID provider subject email = (case parseID userID of
     None \<Rightarrow> (Ok (), s)
   | Some n \<Rightarrow> (case mget (st_oauth s) (oauth_key provider subject) of
       Some _ \<Rightarrow> (Ok (), s)
     | None \<Rightarrow> (Ok (), s\<lparr>st_oauth := mput (oauth_key provider subject) n (st_oauth s)\<rparr>)))"

definition UnlinkOAuth :: "store \<Rightarrow> string \<Rightarrow> string \<Rightarrow> unit result \<times> store" where
  "UnlinkOAuth s userID provider = (case parseID userID of
     None \<Rightarrow> (Ok (), s)
   | Some n \<Rightarrow> (Ok (), s\<lparr>st_oauth :=
       mprune (\<lambda>k uid. uid = n \<and> has_prefix k (provider @ ''|'')) (st_oauth s)\<rparr>))"

text \<open>\<open>strings.IndexByte\<close>, and the loop of \<open>OAuthIdentities\<close> with its \<open>seen\<close> set.\<close>

fun index_byte :: "string \<Rightarrow> char \<Rightarrow> nat option" where
  "index_byte [] c = None"
| "index_byte (d # s) c = (if d = c then Some 0 else map_option Suc (index_byte s c))"

fun linked_slugs :: "nat \<Rightarrow> string list \<Rightarrow> (string \<times> nat) list \<Rightarrow> string list" where
  "linked_slugs n seen [] = []"
| "linked_slugs n seen ((k, uid) # es) =
     (if uid \<noteq> n then linked_slugs n seen es
      else case index_byte k CHR ''|'' of
        None \<Rightarrow> linked_slugs n seen es
      | Some i \<Rightarrow>
          if 0 < i \<and> take i k \<notin> set seen
          then take i k # linked_slugs n (take i k # seen) es
          else linked_slugs n seen es)"

definition OAuthIdentities :: "store \<Rightarrow> string \<Rightarrow> string list result" where
  "OAuthIdentities s userID = (case parseID userID of
     None \<Rightarrow> Ok []
   | Some n \<Rightarrow> Ok (sort_by (<) (linked_slugs n [] (st_oauth s))))"

section \<open>Single-use tokens\<close>

definition CreateToken ::
  "store \<Rightarrow> string \<Rightarrow> string \<Rightarrow> string \<Rightarrow> bytes \<Rightarrow> time \<Rightarrow> unit result \<times> store" where
  "CreateToken s purpose userID email tokenHash expiresAt =
     (Ok (), s\<lparr>st_tokens := st_tokens s @
        [\<lparr>t_purpose = purpose, t_userID = parseUserID userID, t_email = norm email,
          t_hash = tokenHash, t_expiresAt = expiresAt, t_consumedAt = None\<rparr>]\<rparr>)"

definition claim_of :: "token \<Rightarrow> TokenClaim" where
  "claim_of t = \<lparr>tc_UserID = userIDStr (t_userID t), tc_Email = t_email t\<rparr>"

text \<open>The loops of \<open>ConsumeToken\<close> and \<open>PeekToken\<close>: the first row that matches decides.\<close>

fun consume_loop ::
  "time \<Rightarrow> string \<Rightarrow> bytes \<Rightarrow> token list \<Rightarrow> TokenClaim result \<times> token list" where
  "consume_loop now purpose h [] = (Err ErrTokenInvalid, [])"
| "consume_loop now purpose h (t # ts) =
     (if t_purpose t = purpose \<and> t_hash t = h then
        if t_consumedAt t \<noteq> None \<or> t_expiresAt t < now then (Err ErrTokenInvalid, t # ts)
        else (Ok (claim_of t), t\<lparr>t_consumedAt := Some now\<rparr> # ts)
      else case consume_loop now purpose h ts of (r, ts') \<Rightarrow> (r, t # ts'))"

fun peek_loop :: "time \<Rightarrow> string \<Rightarrow> bytes \<Rightarrow> token list \<Rightarrow> TokenClaim result" where
  "peek_loop now purpose h [] = Err ErrTokenInvalid"
| "peek_loop now purpose h (t # ts) =
     (if t_purpose t = purpose \<and> t_hash t = h then
        if t_consumedAt t \<noteq> None \<or> t_expiresAt t < now then Err ErrTokenInvalid
        else Ok (claim_of t)
      else peek_loop now purpose h ts)"

definition ConsumeToken :: "time \<Rightarrow> store \<Rightarrow> string \<Rightarrow> bytes \<Rightarrow> TokenClaim result \<times> store" where
  "ConsumeToken now s purpose tokenHash =
     (case consume_loop now purpose tokenHash (st_tokens s) of
        (r, ts) \<Rightarrow> (r, s\<lparr>st_tokens := ts\<rparr>))"

definition PeekToken :: "time \<Rightarrow> store \<Rightarrow> string \<Rightarrow> bytes \<Rightarrow> TokenClaim result" where
  "PeekToken now s purpose tokenHash = peek_loop now purpose tokenHash (st_tokens s)"

section \<open>E-mail codes\<close>

definition otp_key :: "string \<Rightarrow> string \<Rightarrow> string" where
  "otp_key purpose email = purpose @ ''|'' @ norm email"

definition CreateEmailOTP ::
  "store \<Rightarrow> string \<Rightarrow> string \<Rightarrow> bytes \<Rightarrow> time \<Rightarrow> int \<Rightarrow> unit result \<times> store" where
  "CreateEmailOTP s purpose email codeHash expiresAt maxAttempts =
     (Ok (), s\<lparr>st_otps := mput (otp_key purpose email)
        \<lparr>e_codeHash = codeHash, e_attempts = 0, e_maxAttempts = maxAttempts,
         e_expiresAt = expiresAt\<rparr> (st_otps s)\<rparr>)"

text \<open>\<open>subtle.ConstantTimeCompare(a, b) == 1\<close> is equality of the two byte strings.\<close>

definition VerifyEmailOTP ::
  "time \<Rightarrow> store \<Rightarrow> string \<Rightarrow> string \<Rightarrow> bytes \<Rightarrow> TokenClaim result \<times> store" where
  "VerifyEmailOTP now s purpose email codeHash =
     (let key = otp_key purpose email in
      case mget (st_otps s) key of
        None \<Rightarrow> (Err ErrTokenInvalid, s)
      | Some oo \<Rightarrow>
          if e_expiresAt oo < now then (Err ErrTokenInvalid, s\<lparr>st_otps := mdel key (st_otps s)\<rparr>)
          else
            let matches = (e_codeHash oo = codeHash);
                lst = (e_maxAttempts oo \<le> e_attempts oo + 1)
            in if matches \<or> lst then
                 (if \<not> matches then Err ErrTokenInvalid
                  else Ok \<lparr>tc_UserID = [], tc_Email = norm email\<rparr>,
                  s\<lparr>st_otps := mdel key (st_otps s)\<rparr>)
               else (Err ErrTokenInvalid,
                     s\<lparr>st_otps := mmod key (\<lambda>e. e\<lparr>e_attempts := e_attempts e + 1\<rparr>) (st_otps s)\<rparr>))"

section \<open>Audit trail\<close>

definition RecordAudit :: "time \<Rightarrow> store \<Rightarrow> string \<Rightarrow> string \<Rightarrow> bool \<Rightarrow> store" where
  "RecordAudit now s userID email success =
     s\<lparr>st_audits := st_audits s @
        [\<lparr>a_userID = parseUserID userID, a_email = norm email, a_success = success,
          a_createdAt = now\<rparr>]\<rparr>"

definition RecentFailures :: "store \<Rightarrow> string \<Rightarrow> time \<Rightarrow> nat result" where
  "RecentFailures s email since =
     Ok (length (filter (\<lambda>a. a_email a = norm email \<and> \<not> a_success a \<and> \<not> a_createdAt a < since)
           (st_audits s)))"

section \<open>Deletion\<close>

definition revoke_of :: "nat \<Rightarrow> sessionRec \<Rightarrow> sessionRec" where
  "revoke_of n r = (if sr_UserID (s_rec r) = idStr n then r\<lparr>s_revoked := True\<rparr> else r)"

definition deleteUserCascadeLocked :: "store \<Rightarrow> nat \<Rightarrow> store" where
  "deleteUserCascadeLocked s n = s\<lparr>
     st_users := mdel n (st_users s),
     st_passwords := mdel n (st_passwords s),
     st_memberships := mdel n (st_memberships s),
     st_totp := mdel n (st_totp s),
     st_recovery := mdel n (st_recovery s),
     st_orgMembers := mmap (mdel n) (st_orgMembers s),
     st_passkeys := mprune (\<lambda>_ pk. p_userID pk = n) (st_passkeys s),
     st_oauth := mprune (\<lambda>_ uid. uid = n) (st_oauth s),
     st_tokens := filter (\<lambda>t. t_userID t \<noteq> n) (st_tokens s),
     st_sessions := mmap (revoke_of n) (st_sessions s)\<rparr>"

definition DeleteUser :: "store \<Rightarrow> string \<Rightarrow> unit result \<times> store" where
  "DeleteUser s userID = (case parseID userID of
     None \<Rightarrow> (Ok (), s)
   | Some n \<Rightarrow>
       let email = (case mget (st_users s) n of Some u \<Rightarrow> u_email u | None \<Rightarrow> []);
           s1 = deleteUserCascadeLocked s n;
           s2 = (if email \<noteq> [] then
                   s1\<lparr>st_otps := mprune (\<lambda>k _. has_suffix k (''|'' @ email)) (st_otps s1),
                      st_orgInvites := mprune (\<lambda>_ rec. oi_Email (iv_inv rec) = email) (st_orgInvites s1)\<rparr>
                 else s1)
       in (Ok (), s2\<lparr>st_audits :=
            map (\<lambda>a. if a_userID a = n then a\<lparr>a_email := []\<rparr> else a) (st_audits s2)\<rparr>))"

section \<open>The identity upsert of a login\<close>

text \<open>\<open>if emailVerified { u.emailVerified = true }\<close>\<close>

definition mark_verified :: "bool \<Rightarrow> user \<Rightarrow> user" where
  "mark_verified verified u = (if verified then u\<lparr>u_emailVerified := True\<rparr> else u)"

text \<open>Writes the row the pointer \<open>u\<close> points to and returns its view.\<close>

definition rebind_user :: "user \<Rightarrow> (user \<Rightarrow> user) \<Rightarrow> store \<Rightarrow> AuthUser result \<times> store" where
  "rebind_user u f s = (Ok (view (f u)), s\<lparr>st_users := mmod (u_id u) f (st_users s)\<rparr>)"

definition UpsertUserOnLogin ::
  "time \<Rightarrow> store \<Rightarrow> string \<Rightarrow> string \<Rightarrow> string \<Rightarrow> bool \<Rightarrow> AuthUser result \<times> store" where
  "UpsertUserOnLogin now s sub email0 name emailVerified =
     (let email = norm email0 in
      case findBySub s sub of
        Some u \<Rightarrow>
          if email \<noteq> u_email u \<and>
             (case findByEmail s email of None \<Rightarrow> False | Some other \<Rightarrow> u_id other \<noteq> u_id u)
          then (Err ErrEmailConflict, s)
          else rebind_user u
            (\<lambda>u. mark_verified emailVerified (u\<lparr>u_email := email, u_name := name\<rparr>)) s
      | None \<Rightarrow> (case findByEmail s email of
          Some existing \<Rightarrow>
            let bootstrap = has_prefix (u_sub existing) ''bootstrap:'' in
            if bootstrap \<or> u_emailVerified existing then
              (if \<not> bootstrap \<and> \<not> emailVerified then (Err ErrEmailConflict, s)
               else rebind_user existing
                 (\<lambda>u. mark_verified emailVerified (u\<lparr>u_sub := sub, u_name := name\<rparr>)) s)
            else if \<not> emailVerified then (Err ErrEmailConflict, s)
            else insert_user now sub email name emailVerified
              (deleteUserCascadeLocked s (u_id existing))
        | None \<Rightarrow> insert_user now sub email name emailVerified s))"

text \<open>The store's reference \<open>Authorizer\<close>: the role is empty, the error is the upsert's.\<close>

definition Authorize :: "time \<Rightarrow> store \<Rightarrow> Identity \<Rightarrow> string result \<times> store" where
  "Authorize now s i =
     (case UpsertUserOnLogin now s (id_Subject i) (id_Email i) (id_Name i) (id_EmailVerified i) of
        (Inr _, s') \<Rightarrow> (Ok [], s')
      | (Inl e, s') \<Rightarrow> (Err e, s'))"

section \<open>The invariant of the credential half\<close>

text \<open>
  Every address and every subject belongs to one row, every row carries the key it is stored
  under, addresses are stored in their normal form, and a passkey's credential ID is
  registered once. The invariants are stated on the fields they constrain, so an operation
  that leaves the fields alone keeps them by simplification.
\<close>

definition users_ok :: "nat \<Rightarrow> (nat, user) gomap \<Rightarrow> bool" where
  "users_ok n us \<longleftrightarrow>
     table_ok n (\<lambda>k u. u_id u = k) u_email us \<and> table_ok n (\<lambda>k u. u_id u = k) u_sub us \<and>
     (\<forall>k u. mget us k = Some u \<longrightarrow> norm (u_email u) = u_email u)"

definition passkeys_ok :: "nat \<Rightarrow> (nat, passkey) gomap \<Rightarrow> bool" where
  "passkeys_ok n pks \<longleftrightarrow>
     table_ok n (\<lambda>k pk. pk_ID (p_p pk) = idStr k) (\<lambda>pk. pk_CredentialID (p_p pk)) pks"

definition cred_ok :: "store \<Rightarrow> bool" where
  "cred_ok s \<longleftrightarrow> users_ok (st_seq s) (st_users s) \<and> passkeys_ok (st_pkSeq s) (st_passkeys s) \<and>
     keys_ok (st_passwords s) \<and> keys_ok (st_oauth s) \<and> keys_ok (st_otps s)"

lemma cred_okD:
  assumes "cred_ok s"
  shows cred_ok_users: "users_ok (st_seq s) (st_users s)"
    and cred_ok_passkeys: "passkeys_ok (st_pkSeq s) (st_passkeys s)"
    and cred_ok_passwords: "keys_ok (st_passwords s)"
    and cred_ok_oauth: "keys_ok (st_oauth s)"
    and cred_ok_otps: "keys_ok (st_otps s)"
  using assms by (simp_all add: cred_ok_def)

lemma users_ok_tables:
  assumes "users_ok n us"
  shows users_ok_email: "table_ok n (\<lambda>k u. u_id u = k) u_email us"
    and users_ok_sub: "table_ok n (\<lambda>k u. u_id u = k) u_sub us"
  using assms by (simp_all add: users_ok_def)

lemma users_ok_keys: "users_ok n us \<Longrightarrow> keys_ok us"
  by (rule table_ok_keys [OF users_ok_email])

lemma users_ok_row:
  "users_ok n us \<Longrightarrow> mget us k = Some u \<Longrightarrow>
     u_id u = k \<and> 1 \<le> k \<and> k \<le> n \<and> norm (u_email u) = u_email u"
  by (auto simp: users_ok_def dest: table_ok_entry)

lemma findByEmail_Some:
  "users_ok n (st_users s) \<Longrightarrow> findByEmail s e = Some u \<longleftrightarrow>
     (\<exists>k. mget (st_users s) k = Some u) \<and> u_email u = norm e"
  by (simp add: findByEmail_def table_ok_find [OF users_ok_email])

lemma findBySub_Some:
  "users_ok n (st_users s) \<Longrightarrow> findBySub s sub = Some u \<longleftrightarrow>
     (\<exists>k. mget (st_users s) k = Some u) \<and> u_sub u = sub"
  by (simp add: findBySub_def table_ok_find [OF users_ok_sub])

lemma findByEmail_None:
  "users_ok n (st_users s) \<Longrightarrow> findByEmail s e = None \<longleftrightarrow>
     (\<forall>k u. mget (st_users s) k = Some u \<longrightarrow> u_email u \<noteq> norm e)"
  by (simp add: findByEmail_def table_ok_find_None [OF users_ok_email])

lemma findBySub_None:
  "users_ok n (st_users s) \<Longrightarrow> findBySub s sub = None \<longleftrightarrow>
     (\<forall>k u. mget (st_users s) k = Some u \<longrightarrow> u_sub u \<noteq> sub)"
  by (simp add: findBySub_def table_ok_find_None [OF users_ok_sub])

lemma email_unique:
  "users_ok n us \<Longrightarrow> mget us k = Some u \<Longrightarrow> mget us k' = Some u' \<Longrightarrow> u_email u = u_email u' \<Longrightarrow> k = k'"
  by (rule table_ok_unique_key [OF users_ok_email])

lemma sub_unique:
  "users_ok n us \<Longrightarrow> mget us k = Some u \<Longrightarrow> mget us k' = Some u' \<Longrightarrow> u_sub u = u_sub u' \<Longrightarrow> k = k'"
  by (rule table_ok_unique_key [OF users_ok_sub])

text \<open>The ways the table of users changes: a new row, a write to one row, a deletion.\<close>

lemma users_ok_insert:
  assumes s: "users_ok n us" and id: "u_id u = Suc n" and nrm: "norm (u_email u) = u_email u"
    and em: "\<And>k u'. mget us k = Some u' \<Longrightarrow> u_email u' \<noteq> u_email u"
    and sub: "\<And>k u'. mget us k = Some u' \<Longrightarrow> u_sub u' \<noteq> u_sub u"
  shows "users_ok (Suc n) (mput (Suc n) u us)"
proof -
  note rows = mvals_mget [OF users_ok_keys [OF s]]
  have "table_ok (Suc n) (\<lambda>k u. u_id u = k) u_email (mput (Suc n) u us)"
    using em by (intro table_ok_insert users_ok_email [OF s] id) (auto simp: rows)
  moreover have "table_ok (Suc n) (\<lambda>k u. u_id u = k) u_sub (mput (Suc n) u us)"
    using sub by (intro table_ok_insert users_ok_sub [OF s] id) (auto simp: rows)
  ultimately show ?thesis using s nrm by (auto simp: users_ok_def split: if_splits)
qed

lemma users_ok_write:
  assumes s: "users_ok n us" and id: "\<And>u. u_id (f u) = u_id u"
    and em: "\<And>u k' u'. mget us k = Some u \<Longrightarrow> mget us k' = Some u' \<Longrightarrow>
        u_email u' = u_email (f u) \<Longrightarrow> k' = k"
    and sub: "\<And>u k' u'. mget us k = Some u \<Longrightarrow> mget us k' = Some u' \<Longrightarrow>
        u_sub u' = u_sub (f u) \<Longrightarrow> k' = k"
    and nrm: "\<And>u. mget us k = Some u \<Longrightarrow> norm (u_email (f u)) = u_email (f u)"
  shows "users_ok n (mmod k f us)"
proof -
  have "table_ok n (\<lambda>k u. u_id u = k) u_email (mmod k f us)"
    using em by (intro table_ok_mmod [OF users_ok_email [OF s]]) (simp_all add: id)
  moreover have "table_ok n (\<lambda>k u. u_id u = k) u_sub (mmod k f us)"
    using sub by (intro table_ok_mmod [OF users_ok_sub [OF s]]) (simp_all add: id)
  moreover have "norm (u_email u) = u_email u" if "mget (mmod k f us) k' = Some u" for k' u
    using that s nrm by (auto simp: users_ok_def split: if_splits)
  ultimately show ?thesis by (simp add: users_ok_def)
qed

lemma users_ok_write_same:
  assumes s: "users_ok n us" and f: "\<And>u. u_id (f u) = u_id u" "\<And>u. u_email (f u) = u_email u"
    "\<And>u. u_sub (f u) = u_sub u"
  shows "users_ok n (mmod k f us)"
  using s f by (intro users_ok_write) (auto dest: email_unique sub_unique users_ok_row)

lemma users_ok_delete: "users_ok n us \<Longrightarrow> users_ok n (mdel k us)"
  by (auto simp: users_ok_def intro: table_intros split: if_splits)

section \<open>Every operation keeps the invariant\<close>

lemma cred_ok_New [simp]: "cred_ok New"
  by (simp add: cred_ok_def New_def users_ok_def passkeys_ok_def)

lemma find_New [simp]: "findBySub New sub = None" "findByEmail New e = None"
  by (simp_all add: findBySub_def findByEmail_def New_def mfind_def)

lemma new_user_simps [simp]:
  "u_id (new_user now n sub e nm v) = n" "u_sub (new_user now n sub e nm v) = sub"
  "u_email (new_user now n sub e nm v) = e" "u_name (new_user now n sub e nm v) = nm"
  "u_emailVerified (new_user now n sub e nm v) = v"
  by (simp_all add: new_user_def)

lemma mark_verified_simps [simp]:
  "u_id (mark_verified v u) = u_id u" "u_sub (mark_verified v u) = u_sub u"
  "u_email (mark_verified v u) = u_email u" "u_name (mark_verified v u) = u_name u"
  "u_emailVerified (mark_verified v u) = (v \<or> u_emailVerified u)"
  by (simp_all add: mark_verified_def)

lemma insert_user_ok:
  assumes s: "cred_ok s" and nrm: "norm email = email"
    and em: "findByEmail s email = None" and sub: "findBySub s sub = None"
  shows "cred_ok (snd (insert_user now sub email name v s))"
proof -
  note u = cred_ok_users [OF s]
  have "users_ok (Suc (st_seq s)) (mput (Suc (st_seq s)) (new_user now (Suc (st_seq s)) sub email name v)
      (st_users s))"
    using u em sub nrm by (intro users_ok_insert) (simp_all add: findByEmail_None findBySub_None)
  with s show ?thesis by (simp add: insert_user_def cred_ok_def Let_def)
qed

lemma CreateLocalUser_ok:
  assumes "cred_ok s" and "findBySub s (''local:'' @ rid) = None"
  shows "cred_ok (snd (CreateLocalUser now rid s email name))"
  using assms insert_user_ok
  by (simp add: CreateLocalUser_def findByEmail_def)

lemma SetEmailVerified_ok: "cred_ok s \<Longrightarrow> cred_ok (snd (SetEmailVerified now s userID v))"
  by (auto simp: SetEmailVerified_def cred_ok_def intro: users_ok_write_same split: option.split)

lemma EnsureWebauthnHandle_ok: "cred_ok s \<Longrightarrow> cred_ok (snd (EnsureWebauthnHandle h s userID))"
  by (auto simp: EnsureWebauthnHandle_def cred_ok_def intro: users_ok_write_same split: option.split)

lemma SetEmail_ok: "cred_ok s \<Longrightarrow> cred_ok (snd (SetEmail now s userID e))"
proof -
  assume s: "cred_ok s"
  note u = cred_ok_users [OF s]
  show ?thesis
  proof (cases "parseID userID")
    case (Some n)
    show ?thesis
    proof (cases "mfind (\<lambda>u. u_email u = norm e \<and> u_id u \<noteq> n) (st_users s)")
      case None
      then have "\<And>k u'. mget (st_users s) k = Some u' \<Longrightarrow> u_email u' = norm e \<Longrightarrow> k = n"
        using users_ok_row [OF u] by (auto simp: mfind_None mvals_mget [OF users_ok_keys [OF u]])
      then have "users_ok (st_seq s) (mmod n (\<lambda>u. u\<lparr>u_email := norm e, u_emailVerified := True,
          u_updatedAt := now\<rparr>) (st_users s))"
        using u by (intro users_ok_write) (auto dest: sub_unique)
      with None Some s show ?thesis by (simp add: SetEmail_def cred_ok_def Let_def)
    qed (use Some s in \<open>simp add: SetEmail_def Let_def\<close>)
  qed (use s in \<open>simp add: SetEmail_def\<close>)
qed

lemma AddPasskey_ok: "cred_ok s \<Longrightarrow> cred_ok (snd (AddPasskey now s userID p))"
  by (auto simp: AddPasskey_def cred_ok_def passkeys_ok_def mfind_None Let_def
      intro!: table_ok_insert split: option.split)

lemma TouchPasskey_ok: "cred_ok s \<Longrightarrow> cred_ok (snd (TouchPasskey now s cid n))"
  by (auto simp: TouchPasskey_def cred_ok_def passkeys_ok_def touch_passkey_def Let_def
      intro!: table_ok_mmap)

lemma RemovePasskey_ok: "cred_ok s \<Longrightarrow> cred_ok (snd (RemovePasskey s userID pid))"
  by (auto simp: RemovePasskey_def cred_ok_def passkeys_ok_def
      intro!: table_ok_mdel split: option.split)

lemma RenamePasskey_ok: "cred_ok s \<Longrightarrow> cred_ok (snd (RenamePasskey s userID pid name))"
  by (auto simp: RenamePasskey_def cred_ok_def passkeys_ok_def
      intro!: table_ok_mmod_same split: option.split)

lemma SetPasswordHash_ok: "cred_ok s \<Longrightarrow> cred_ok (snd (SetPasswordHash s userID h a))"
  by (auto simp: SetPasswordHash_def cred_ok_def intro: keys_intros split: option.split)

lemma LinkOAuth_ok: "cred_ok s \<Longrightarrow> cred_ok (snd (LinkOAuth s userID prov subj e))"
  by (auto simp: LinkOAuth_def cred_ok_def intro: keys_intros split: option.split)

lemma UnlinkOAuth_ok: "cred_ok s \<Longrightarrow> cred_ok (snd (UnlinkOAuth s userID prov))"
  by (auto simp: UnlinkOAuth_def cred_ok_def intro: keys_intros split: option.split)

lemma CreateToken_ok: "cred_ok s \<Longrightarrow> cred_ok (snd (CreateToken s p u e h t))"
  by (simp add: CreateToken_def cred_ok_def)

lemma ConsumeToken_ok: "cred_ok s \<Longrightarrow> cred_ok (snd (ConsumeToken now s p h))"
  by (simp add: ConsumeToken_def cred_ok_def split: prod.split)

lemma CreateEmailOTP_ok: "cred_ok s \<Longrightarrow> cred_ok (snd (CreateEmailOTP s p e h t m))"
  by (simp add: CreateEmailOTP_def cred_ok_def keys_intros)

lemma VerifyEmailOTP_ok: "cred_ok s \<Longrightarrow> cred_ok (snd (VerifyEmailOTP now s p e h))"
  by (simp add: VerifyEmailOTP_def cred_ok_def keys_intros Let_def split: option.split)

lemma RecordAudit_ok: "cred_ok s \<Longrightarrow> cred_ok (RecordAudit now s u e ok)"
  by (simp add: RecordAudit_def cred_ok_def)

lemma deleteUserCascadeLocked_ok: "cred_ok s \<Longrightarrow> cred_ok (deleteUserCascadeLocked s n)"
  by (simp add: deleteUserCascadeLocked_def cred_ok_def passkeys_ok_def users_ok_delete
      keys_intros table_intros)

lemma DeleteUser_ok: "cred_ok s \<Longrightarrow> cred_ok (snd (DeleteUser s userID))"
  using deleteUserCascadeLocked_ok [of s]
  by (auto simp: DeleteUser_def cred_ok_def Let_def intro: keys_intros split: option.split)


subsection \<open>The upsert\<close>

lemma cascade_users [simp]:
  "st_users (deleteUserCascadeLocked s n) = mdel n (st_users s)"
  "st_seq (deleteUserCascadeLocked s n) = st_seq s"
  by (simp_all add: deleteUserCascadeLocked_def)

text \<open>
  The cases of a successful or refused upsert: update the subject's own row, adopt the
  address's row, reclaim the address from an unproven row, create, or refuse.
\<close>

lemma upsert_cases:
  assumes s: "cred_ok s"
  obtains
    (update) k u where "mget (st_users s) k = Some u" "u_sub u = sub" "u_id u = k"
      "\<And>k' u'. mget (st_users s) k' = Some u' \<Longrightarrow> u_email u' = norm email \<Longrightarrow> k' = k"
      "UpsertUserOnLogin now s sub email name v = rebind_user u
         (\<lambda>u. mark_verified v (u\<lparr>u_email := norm email, u_name := name\<rparr>)) s"
  | (adopt) k u where "mget (st_users s) k = Some u" "u_email u = norm email" "u_id u = k"
      "findBySub s sub = None" "has_prefix (u_sub u) ''bootstrap:'' \<or> u_emailVerified u \<and> v"
      "UpsertUserOnLogin now s sub email name v = rebind_user u
         (\<lambda>u. mark_verified v (u\<lparr>u_sub := sub, u_name := name\<rparr>)) s"
  | (reclaim) k u where "mget (st_users s) k = Some u" "u_email u = norm email" "u_id u = k"
      "findBySub s sub = None" "\<not> has_prefix (u_sub u) ''bootstrap:''" "\<not> u_emailVerified u" "v"
      "UpsertUserOnLogin now s sub email name v =
         insert_user now sub (norm email) name v (deleteUserCascadeLocked s k)"
  | (create) "findBySub s sub = None" "findByEmail s email = None"
      "UpsertUserOnLogin now s sub email name v = insert_user now sub (norm email) name v s"
  | (refuse) "UpsertUserOnLogin now s sub email name v = (Err ErrEmailConflict, s)"
proof -
  note u = cred_ok_users [OF s]
  have fe: "findByEmail s (norm email) = findByEmail s email" by (simp add: findByEmail_def)
  show thesis
  proof (cases "findBySub s sub")
    case (Some u)
    then obtain k where k: "mget (st_users s) k = Some u" "u_sub u = sub" "u_id u = k"
      using findBySub_Some [OF u] users_ok_row [OF u] by metis
    show thesis
    proof (cases "norm email \<noteq> u_email u \<and>
        (case findByEmail s email of None \<Rightarrow> False | Some other \<Rightarrow> u_id other \<noteq> u_id u)")
      case True
      then show thesis by (intro refuse) (simp add: UpsertUserOnLogin_def Some fe Let_def)
    next
      case False
      have "k' = k" if "mget (st_users s) k' = Some u'" "u_email u' = norm email" for k' u'
      proof -
        have "findByEmail s email = Some u'" using findByEmail_Some [OF u] that by blast
        then have "norm email = u_email u \<or> u_id u' = u_id u" using False by simp
        then show ?thesis
          using email_unique [OF u that(1) k(1)] users_ok_row [OF u that(1)] that(2) k by auto
      qed
      moreover have "UpsertUserOnLogin now s sub email name v = rebind_user u
          (\<lambda>u. mark_verified v (u\<lparr>u_email := norm email, u_name := name\<rparr>)) s"
        using False by (auto simp: UpsertUserOnLogin_def Some fe Let_def)
      ultimately show thesis using k update by blast
    qed
  next
    case None
    show thesis
    proof (cases "findByEmail s email")
      case (Some x)
      then obtain k where k: "mget (st_users s) k = Some x" "u_email x = norm email" "u_id x = k"
        using findByEmail_Some [OF u] users_ok_row [OF u] by metis
      consider "has_prefix (u_sub x) ''bootstrap:'' \<or> u_emailVerified x \<and> v"
        | "\<not> has_prefix (u_sub x) ''bootstrap:''" "\<not> u_emailVerified x" "v"
        | "\<not> has_prefix (u_sub x) ''bootstrap:''" "\<not> v"
        by blast
      then show thesis
      proof cases
        case 1
        then have "UpsertUserOnLogin now s sub email name v = rebind_user x
            (\<lambda>u. mark_verified v (u\<lparr>u_sub := sub, u_name := name\<rparr>)) s"
          by (auto simp: UpsertUserOnLogin_def None Some fe Let_def)
        with k None 1 show thesis by (rule adopt)
      next
        case 2
        then have "UpsertUserOnLogin now s sub email name v =
            insert_user now sub (norm email) name v (deleteUserCascadeLocked s k)"
          by (simp add: UpsertUserOnLogin_def None Some fe Let_def k)
        with k None 2 show thesis by (rule reclaim)
      next
        case 3
        with None show thesis
          by (intro refuse) (auto simp: UpsertUserOnLogin_def Some fe Let_def)
      qed
    next
      case ne: None
      with None show thesis by (intro create) (simp_all add: UpsertUserOnLogin_def fe)
    qed
  qed
qed

lemma UpsertUserOnLogin_ok:
  assumes s: "cred_ok s"
  shows "cred_ok (snd (UpsertUserOnLogin now s sub email name v))"
proof -
  note u = cred_ok_users [OF s]
  from s show ?thesis
  proof (cases rule: upsert_cases [of s sub email now name v])
    case (update k w)
    have "users_ok (st_seq s) (mmod k
        (\<lambda>u. mark_verified v (u\<lparr>u_email := norm email, u_name := name\<rparr>)) (st_users s))"
      using update by (intro users_ok_write [OF u]) (auto dest: sub_unique [OF u])
    with update s show ?thesis by (simp add: rebind_user_def cred_ok_def)
  next
    case (adopt k w)
    have "users_ok (st_seq s) (mmod k
        (\<lambda>u. mark_verified v (u\<lparr>u_sub := sub, u_name := name\<rparr>)) (st_users s))"
      using adopt(1,4) users_ok_row [OF u]
      by (intro users_ok_write [OF u]) (auto dest: email_unique [OF u] simp: findBySub_None [OF u])
    with adopt s show ?thesis by (simp add: rebind_user_def cred_ok_def)
  next
    case (reclaim k w)
    let ?s = "deleteUserCascadeLocked s k"
    have ok: "cred_ok ?s" using s by (rule deleteUserCascadeLocked_ok)
    have "findBySub ?s sub = None" and "findByEmail ?s (norm email) = None"
      using reclaim(1,2,4) email_unique [OF u]
      by (auto simp: findBySub_None [OF u] findBySub_None [OF cred_ok_users [OF ok]]
          findByEmail_None [OF cred_ok_users [OF ok]] split: if_splits)
    with ok reclaim show ?thesis by (simp add: insert_user_ok)
  next
    case create
    then have "findByEmail s (norm email) = None" by (simp add: findByEmail_def)
    with create s show ?thesis by (simp add: insert_user_ok)
  next
    case refuse
    with s show ?thesis by simp
  qed
qed

lemma Authorize_ok: "cred_ok s \<Longrightarrow> cred_ok (snd (Authorize now s i))"
  using UpsertUserOnLogin_ok [of s now "id_Subject i" "id_Email i" "id_Name i" "id_EmailVerified i"]
  by (auto simp: Authorize_def split: prod.split sum.split)

end
