(* ===== verification/IdentityLaws.thy ===== *)
theory IdentityLaws
  imports MemIdentity
begin

text \<open>
  What the identity operations of the in-memory store guarantee: the login upsert resolves the
  subject it was given, never hands an existing account to an unproven login, and wipes an
  unproven squatter it displaces; deleting a user erases every row keyed to it and touches
  nobody else. Two theorems state how the upsert treats a changed and a missing address.
\<close>

section \<open>The login upsert\<close>

text \<open>The user table after the upsert of a known subject, an adoption and a creation.\<close>

lemma rebind_user_users [simp]:
  "st_users (snd (rebind_user u f s)) = mmod (u_id u) f (st_users s)"
  "fst (rebind_user u f s) = Ok (view (f u))"
  by (simp_all add: rebind_user_def)

lemma insert_user_users [simp]:
  "st_users (snd (insert_user now sub e nm v s)) =
     mput (Suc (st_seq s)) (new_user now (Suc (st_seq s)) sub e nm v) (st_users s)"
  "st_seq (snd (insert_user now sub e nm v s)) = Suc (st_seq s)"
  "fst (insert_user now sub e nm v s) = Ok (view (new_user now (Suc (st_seq s)) sub e nm v))"
  by (simp_all add: insert_user_def Let_def)

lemma UserBySub_row:
  "users_ok n (st_users s) \<Longrightarrow> mget (st_users s) k = Some u \<Longrightarrow> UserBySub s (u_sub u) = Ok (view u)"
  using findBySub_Some [of n s "u_sub u" u] by (auto simp: UserBySub_def split: option.split)

lemma UserByEmail_row:
  "users_ok n (st_users s) \<Longrightarrow> mget (st_users s) k = Some u \<Longrightarrow> u_email u = norm e \<Longrightarrow>
   UserByEmail s e = Ok (view u)"
  using findByEmail_Some [of n s e u] by (auto simp: UserByEmail_def split: option.split)

lemma upsert_row:
  assumes s: "cred_ok s" and ok: "fst (UpsertUserOnLogin now s sub email name v) = Ok a"
  shows "\<exists>k u. mget (st_users (snd (UpsertUserOnLogin now s sub email name v))) k = Some u \<and>
    a = view u \<and> u_sub u = sub \<and> u_email u = norm email \<and> u_name u = name \<and>
    (v \<longrightarrow> u_emailVerified u)"
  using s
proof (cases rule: upsert_cases [of s sub email now name v])
  case (update k u)
  then show ?thesis
    using ok by (intro exI [of _ k] exI [of _ "mark_verified v (u\<lparr>u_email := norm email, u_name := name\<rparr>)"])
      auto
next
  case (adopt k u)
  then show ?thesis
    using ok by (intro exI [of _ k] exI [of _ "mark_verified v (u\<lparr>u_sub := sub, u_name := name\<rparr>)"])
      auto
next
  case (reclaim k u)
  then show ?thesis using ok by (intro exI [of _ "Suc (st_seq s)"]) auto
next
  case create
  then show ?thesis using ok by (intro exI [of _ "Suc (st_seq s)"]) auto
qed (use ok in simp)

text \<open>
  After a login's upsert succeeds, both the subject and the address it asserted resolve to
  the very user that was returned, under the name given, and marked verified when the login
  proved the address.
\<close>

theorem upsert_resolves:
  assumes s: "cred_ok s" and ok: "UpsertUserOnLogin now s sub email name v = (Ok a, s')"
  shows "UserBySub s' sub = Ok a \<and> UserByEmail s' email = Ok a \<and> au_Sub a = sub \<and>
    au_Email a = norm email \<and> au_Name a = name \<and> (v \<longrightarrow> au_EmailVerified a)"
proof -
  have s': "cred_ok s'" using UpsertUserOnLogin_ok [OF s, of now sub email name v] ok by simp
  obtain k u where u: "mget (st_users s') k = Some u" "a = view u" "u_sub u = sub"
    "u_email u = norm email" "u_name u = name" "v \<longrightarrow> u_emailVerified u"
    using upsert_row [OF s, of now sub email name v a] ok by auto
  then show ?thesis
    using UserBySub_row [OF cred_ok_users [OF s'] u(1)]
      UserByEmail_row [OF cred_ok_users [OF s'] u(1), of email]
    by (simp add: view_def)
qed

theorem upsert_resolves_witness:
  "UserBySub (snd (UpsertUserOnLogin 7 New ''oidc:a'' '' A@x '' ''Ann'' True)) ''oidc:a'' =
     Ok (view (new_user 7 1 ''oidc:a'' ''a@x'' ''Ann'' True))"
proof -
  have e: "UpsertUserOnLogin 7 New ''oidc:a'' '' A@x '' ''Ann'' True =
      (Ok (view (new_user 7 1 ''oidc:a'' ''a@x'' ''Ann'' True)),
       snd (UpsertUserOnLogin 7 New ''oidc:a'' '' A@x '' ''Ann'' True))"
    by code_simp
  show ?thesis using upsert_resolves [OF cred_ok_New e] by simp
qed

text \<open>
  An upsert is refused exactly when the address belongs to another row than the subject's
  own, or when it belongs to a row that the login may not take: not an operator's bootstrap
  row, and the login did not prove the address. A refused upsert changes nothing.
\<close>

theorem upsert_refuses:
  assumes s: "cred_ok s"
  shows "((\<exists>e. fst (UpsertUserOnLogin now s sub email name v) = Err e) \<longleftrightarrow>
     (case findBySub s sub of
        Some u \<Rightarrow> \<exists>k x. mget (st_users s) k = Some x \<and> u_email x = norm email \<and> x \<noteq> u
      | None \<Rightarrow> \<exists>k x. mget (st_users s) k = Some x \<and> u_email x = norm email \<and>
                  \<not> has_prefix (u_sub x) ''bootstrap:'' \<and> \<not> v)) \<and>
    (\<forall>e. fst (UpsertUserOnLogin now s sub email name v) = Err e \<longrightarrow>
       e = ErrEmailConflict \<and> snd (UpsertUserOnLogin now s sub email name v) = s)"
proof -
  note u = cred_ok_users [OF s]
  have em: "findByEmail s email = Some x \<longleftrightarrow> mget (st_users s) (u_id x) = Some x \<and> u_email x = norm email" for x
    using findByEmail_Some [OF u, of email x] by (auto dest: users_ok_row [OF u])
  have sb: "findBySub s sub = Some x \<longleftrightarrow> mget (st_users s) (u_id x) = Some x \<and> u_sub x = sub" for x
    using findBySub_Some [OF u, of sub x] by (auto dest: users_ok_row [OF u])
  have row: "mget (st_users s) k = Some x \<and> u_email x = norm email \<longleftrightarrow>
      findByEmail s email = Some x \<and> u_id x = k" for k x
    by (auto simp: em dest: users_ok_row [OF u])
  have own: "u_id x \<noteq> u_id y \<longleftrightarrow> x \<noteq> y" if "findByEmail s email = Some x" "findBySub s sub = Some y" for x y
  proof -
    have "mget (st_users s) (u_id x) = Some x" "mget (st_users s) (u_id y) = Some y"
      using that em sb by blast+
    then show ?thesis by (metis option.inject)
  qed
  have fe: "findByEmail s (norm email) = findByEmail s email" by (simp add: findByEmail_def)
  have eq: "norm email = u_email y \<longleftrightarrow> findByEmail s email = Some y" if "findBySub s sub = Some y" for y
    using that em [of y] sb [of y] by auto
  have A: "(\<exists>e. fst (UpsertUserOnLogin now s sub email name v) = Err e) \<longleftrightarrow>
     (case findBySub s sub of
        Some u \<Rightarrow> \<exists>k x. mget (st_users s) k = Some x \<and> u_email x = norm email \<and> x \<noteq> u
      | None \<Rightarrow> \<exists>k x. mget (st_users s) k = Some x \<and> u_email x = norm email \<and>
                  \<not> has_prefix (u_sub x) ''bootstrap:'' \<and> \<not> v)"
  proof (cases "findBySub s sub")
    case None
    have rhs: "(\<exists>k x. mget (st_users s) k = Some x \<and> u_email x = norm email \<and>
          \<not> has_prefix (u_sub x) ''bootstrap:'' \<and> \<not> v) \<longleftrightarrow>
        (\<exists>x. findByEmail s email = Some x \<and> \<not> has_prefix (u_sub x) ''bootstrap:'' \<and> \<not> v)"
      using row by blast
    show ?thesis
      by (cases "findByEmail s email") (simp_all add: UpsertUserOnLogin_def Let_def fe None rhs)
  next
    case (Some y)
    have rhs: "(\<exists>k x. mget (st_users s) k = Some x \<and> u_email x = norm email \<and> x \<noteq> y) \<longleftrightarrow>
        (\<exists>x. findByEmail s email = Some x \<and> x \<noteq> y)"
      using row by blast
    show ?thesis
    proof (cases "findByEmail s email")
      case None
      with Some rhs show ?thesis by (simp add: UpsertUserOnLogin_def Let_def fe)
    next
      case (Some x)
      then show ?thesis
        using own [OF Some \<open>findBySub s sub = Some y\<close>] eq [OF \<open>findBySub s sub = Some y\<close>]
          \<open>findBySub s sub = Some y\<close> rhs
        by (simp add: UpsertUserOnLogin_def Let_def fe)
    qed
  qed
  from s have B: "e = ErrEmailConflict \<and> snd (UpsertUserOnLogin now s sub email name v) = s"
    if "fst (UpsertUserOnLogin now s sub email name v) = Err e" for e
    by (cases rule: upsert_cases [of s sub email now name v]) (use that in auto)
  from A B show ?thesis by blast
qed

theorem upsert_refuses_witness:
  "fst (UpsertUserOnLogin 9 (snd (CreateLocalUser 7 ''r'' New ''a@x'' ''Ann'')) ''oidc:a'' ''a@x'' ''A'' False)
     = Err ErrEmailConflict"
proof -
  let ?s = "snd (CreateLocalUser 7 ''r'' New ''a@x'' ''Ann'')"
  have s: "cred_ok ?s" by (rule CreateLocalUser_ok) simp_all
  have u: "mget (st_users ?s) 1 = Some (new_user 7 1 ''local:r'' ''a@x'' ''Ann'' False)" by code_simp
  have "findBySub ?s ''oidc:a'' = None" "norm ''a@x'' = ''a@x''"
    "\<not> has_prefix ''local:r'' ''bootstrap:''" by code_simp+
  with u have "\<exists>e. fst (UpsertUserOnLogin 9 ?s ''oidc:a'' ''a@x'' ''A'' False) = Err e"
    using upsert_refuses [OF s, of 9 "''oidc:a''" "''a@x''" "''A''" False] by (auto intro!: exI)
  then show ?thesis
    using upsert_refuses [OF s, of 9 "''oidc:a''" "''a@x''" "''A''" False] by blast
qed

text \<open>
  A login that did not prove its address cannot reach an existing account of another
  subject: unless the row is an operator's bootstrap placeholder, the row keeps every field, the login does
  not resolve to it, and no credential of any user changes.
\<close>

theorem upsert_unproven_no_takeover:
  assumes s: "cred_ok s" and run: "UpsertUserOnLogin now s sub email name False = (r, s')"
    and x: "mget (st_users s) k = Some x" "u_sub x \<noteq> sub" "\<not> has_prefix (u_sub x) ''bootstrap:''"
  shows "mget (st_users s') k = Some x \<and> (\<forall>a. r = Ok a \<longrightarrow> au_ID a \<noteq> idStr k) \<and>
    st_passwords s' = st_passwords s \<and> st_passkeys s' = st_passkeys s \<and>
    st_oauth s' = st_oauth s \<and> st_tokens s' = st_tokens s \<and> st_totp s' = st_totp s \<and>
    st_recovery s' = st_recovery s \<and> st_sessions s' = st_sessions s \<and>
    st_memberships s' = st_memberships s \<and> st_orgMembers s' = st_orgMembers s"
proof -
  note u = cred_ok_users [OF s]
  have kx: "u_id x = k" "k \<le> st_seq s" using users_ok_row [OF u x(1)] by auto
  from s show ?thesis
  proof (cases rule: upsert_cases [of s sub email now name False])
    case (update j y)
    with x have "j \<noteq> k" by auto
    with update x run show ?thesis by (auto simp: rebind_user_def view_def)
  next
    case (adopt j y)
    with x have "j \<noteq> k" by auto
    with adopt x run show ?thesis by (auto simp: rebind_user_def view_def)
  next
    case create
    with kx x run show ?thesis by (auto simp: insert_user_def Let_def view_def)
  qed (use run x in auto)
qed

theorem upsert_unproven_no_takeover_witness:
  "mget (st_users (snd (UpsertUserOnLogin 9 (snd (CreateLocalUser 7 ''r'' New ''a@x'' ''Ann''))
     ''oidc:b'' ''b@x'' ''B'' False))) 1 = Some (new_user 7 1 ''local:r'' ''a@x'' ''Ann'' False)"
proof -
  let ?s = "snd (CreateLocalUser 7 ''r'' New ''a@x'' ''Ann'')"
  let ?x = "new_user 7 1 ''local:r'' ''a@x'' ''Ann'' False"
  have s: "cred_ok ?s" by (rule CreateLocalUser_ok) simp_all
  have x: "mget (st_users ?s) 1 = Some ?x" by code_simp
  have sub: "u_sub ?x \<noteq> ''oidc:b''" "\<not> has_prefix (u_sub ?x) ''bootstrap:''" by code_simp+
  show ?thesis using upsert_unproven_no_takeover [OF s surjective_pairing x sub] by blast
qed

section \<open>Erasure\<close>

text \<open>
  \<open>erased n s\<close>: no row keyed to the user \<open>n\<close> is left, and its sessions are tombstones.
  \<open>same_rows m s s'\<close>: everything keyed to the user \<open>m\<close> is the same in both states.
\<close>

definition erased :: "nat \<Rightarrow> store \<Rightarrow> bool" where
  "erased n s \<longleftrightarrow>
     mget (st_users s) n = None \<and> mget (st_passwords s) n = None \<and>
     mget (st_memberships s) n = None \<and> mget (st_totp s) n = None \<and> mget (st_recovery s) n = None \<and>
     (\<forall>oid ms. mget (st_orgMembers s) oid = Some ms \<longrightarrow> mget ms n = None) \<and>
     (\<forall>pk \<in> set (mvals (st_passkeys s)). p_userID pk \<noteq> n) \<and>
     (\<forall>uid \<in> set (mvals (st_oauth s)). uid \<noteq> n) \<and>
     (\<forall>t \<in> set (st_tokens s). t_userID t \<noteq> n) \<and>
     (\<forall>r \<in> set (mvals (st_sessions s)). sr_UserID (s_rec r) = idStr n \<longrightarrow> s_revoked r)"

definition same_rows :: "nat \<Rightarrow> store \<Rightarrow> store \<Rightarrow> bool" where
  "same_rows m s s' \<longleftrightarrow>
     mget (st_users s') m = mget (st_users s) m \<and> mget (st_passwords s') m = mget (st_passwords s) m \<and>
     mget (st_memberships s') m = mget (st_memberships s) m \<and> mget (st_totp s') m = mget (st_totp s) m \<and>
     mget (st_recovery s') m = mget (st_recovery s) m \<and>
     (\<forall>oid. map_option (\<lambda>ms. mget ms m) (mget (st_orgMembers s') oid) =
            map_option (\<lambda>ms. mget ms m) (mget (st_orgMembers s) oid)) \<and>
     filter (\<lambda>e. p_userID (snd e) = m) (st_passkeys s') = filter (\<lambda>e. p_userID (snd e) = m) (st_passkeys s) \<and>
     filter (\<lambda>e. snd e = m) (st_oauth s') = filter (\<lambda>e. snd e = m) (st_oauth s) \<and>
     filter (\<lambda>t. t_userID t = m) (st_tokens s') = filter (\<lambda>t. t_userID t = m) (st_tokens s) \<and>
     filter (\<lambda>e. sr_UserID (s_rec (snd e)) = idStr m) (st_sessions s') =
       filter (\<lambda>e. sr_UserID (s_rec (snd e)) = idStr m) (st_sessions s)"

lemma cascade_erases: "erased n (deleteUserCascadeLocked s n)"
  by (auto simp: erased_def deleteUserCascadeLocked_def in_mvals set_mmap revoke_of_def)

lemma filter_mprune: "(\<And>k v. P (k, v) \<Longrightarrow> \<not> q k v) \<Longrightarrow> filter P (mprune q m) = filter P m"
  by (auto simp: mprune_def intro!: filter_cong)

lemma filter_mmap_same:
  "(\<And>k v. P (k, f v) = P (k, v)) \<Longrightarrow> (\<And>k v. P (k, v) \<Longrightarrow> f v = v) \<Longrightarrow>
   filter P (mmap f m) = filter P m"
  by (induction m) (auto simp: mmap_def)

lemma cascade_same_rows:
  assumes "m \<noteq> n" shows "same_rows m s (deleteUserCascadeLocked s n)"
proof -
  have "filter (\<lambda>e. sr_UserID (s_rec (snd e)) = idStr m) (mmap (revoke_of n) (st_sessions s)) =
      filter (\<lambda>e. sr_UserID (s_rec (snd e)) = idStr m) (st_sessions s)"
    using assms by (intro filter_mmap_same) (auto simp: revoke_of_def)
  moreover have "filter (\<lambda>t. t_userID t = m) (filter (\<lambda>t. t_userID t \<noteq> n) (st_tokens s)) =
      filter (\<lambda>t. t_userID t = m) (st_tokens s)"
    using assms by (auto intro: filter_cong)
  moreover have "map_option (\<lambda>ms. mget ms m) (mget (mmap (mdel n) (st_orgMembers s)) oid) =
      map_option (\<lambda>ms. mget ms m) (mget (st_orgMembers s) oid)" for oid
    using assms by (simp add: option.map_comp comp_def)
  moreover have "filter (\<lambda>e. p_userID (snd e) = m) (mprune (\<lambda>_ pk. p_userID pk = n) (st_passkeys s)) =
      filter (\<lambda>e. p_userID (snd e) = m) (st_passkeys s)"
    and "filter (\<lambda>e. snd e = m) (mprune (\<lambda>_ uid. uid = n) (st_oauth s)) =
      filter (\<lambda>e. snd e = m) (st_oauth s)"
    using assms by (auto intro: filter_mprune)
  ultimately show ?thesis
    using assms by (simp add: same_rows_def deleteUserCascadeLocked_def)
qed

text \<open>
  A login that proved its address displaces an unproven, non-bootstrap holder of it: the
  squatter and everything keyed to it are gone, its sessions revoked, the login gets a fresh
  row of its own, and no other user is touched.
\<close>

theorem upsert_reclaims:
  assumes s: "cred_ok s" and new: "findBySub s sub = None"
    and x: "mget (st_users s) k = Some x" "u_email x = norm email"
      "\<not> has_prefix (u_sub x) ''bootstrap:''" "\<not> u_emailVerified x"
    and run: "UpsertUserOnLogin now s sub email name True = (r, s')"
  shows "r = Ok (view (new_user now (Suc (st_seq s)) sub (norm email) name True)) \<and> erased k s' \<and>
    (\<forall>m. m \<noteq> k \<longrightarrow> m \<noteq> Suc (st_seq s) \<longrightarrow> same_rows m s s')"
proof -
  note u = cred_ok_users [OF s]
  have kx: "u_id x = k" "k \<le> st_seq s" using users_ok_row [OF u x(1)] by auto
  have "UpsertUserOnLogin now s sub email name True =
      insert_user now sub (norm email) name True (deleteUserCascadeLocked s k)"
    using s
  proof (cases rule: upsert_cases [of s sub email now name True])
    case (update j y)
    with new show ?thesis by (auto simp: findBySub_None [OF u])
  next
    case (adopt j y)
    with x have "j = k" using email_unique [OF u] by metis
    with adopt x show ?thesis by auto
  next
    case (reclaim j y)
    with x have "j = k" using email_unique [OF u] by metis
    with reclaim show ?thesis by simp
  next
    case create
    with x show ?thesis by (auto simp: findByEmail_None [OF u])
  next
    case refuse
    have "\<exists>e. fst (UpsertUserOnLogin now s sub email name True) = Err e" using refuse by simp
    then show ?thesis using upsert_refuses [OF s, of now sub email name True] new by simp
  qed
  with run have s': "s' = snd (insert_user now sub (norm email) name True (deleteUserCascadeLocked s k))"
    and r: "r = Ok (view (new_user now (Suc (st_seq s)) sub (norm email) name True))"
    by (simp_all add: insert_user_def Let_def)
  have "erased k s'"
    using cascade_erases [of k s] kx unfolding s' by (auto simp: erased_def insert_user_def Let_def)
  moreover have "same_rows m s s'" if "m \<noteq> k" "m \<noteq> Suc (st_seq s)" for m
    using cascade_same_rows [OF that(1), of s] that unfolding s'
    by (auto simp: same_rows_def insert_user_def Let_def)
  ultimately show ?thesis using r by blast
qed

theorem upsert_reclaims_witness:
  "erased 1 (snd (UpsertUserOnLogin 9
     (snd (SetPasswordHash (snd (CreateLocalUser 7 ''r'' New ''a@x'' ''Ann'')) ''1'' ''h'' ''bcrypt''))
     ''oidc:a'' ''a@x'' ''A'' True))"
proof -
  let ?s = "snd (SetPasswordHash (snd (CreateLocalUser 7 ''r'' New ''a@x'' ''Ann'')) ''1'' ''h'' ''bcrypt'')"
  let ?x = "new_user 7 1 ''local:r'' ''a@x'' ''Ann'' False"
  have s: "cred_ok ?s"
    by (intro SetPasswordHash_ok CreateLocalUser_ok) simp_all
  have x: "mget (st_users ?s) 1 = Some ?x" "u_email ?x = norm ''a@x''" "findBySub ?s ''oidc:a'' = None"
    "\<not> has_prefix (u_sub ?x) ''bootstrap:''" "\<not> u_emailVerified ?x" by code_simp+
  from upsert_reclaims [OF s x(3) x(1,2,4,5) surjective_pairing] show ?thesis
    by (rule conjunct2 [THEN conjunct1])
qed

lemma scrub_fields:
  "a_userID (if c then a\<lparr>a_email := []\<rparr> else a) = a_userID a"
  "a_email (if c then a\<lparr>a_email := []\<rparr> else a) = (if c then [] else a_email a)"
  by simp_all

lemma audits_scrubbed:
  "\<forall>a \<in> set (map (\<lambda>a. if a_userID a = n then a\<lparr>a_email := []\<rparr> else a) xs).
     a_userID a = n \<longrightarrow> a_email a = []"
  unfolding list.set_map ball_simps by (simp only: scrub_fields) simp

text \<open>
  \<open>DeleteUser\<close> erases the user: no row keyed to it is left, its sessions read as revoked, its
  audit rows stay but lose the address, and no code sent to the address and no invite to it
  survives. Every other user keeps all its rows, and codes of other addresses survive
  (purposes and addresses without the separator \<open>|\<close>).
\<close>

theorem DeleteUser_erases:
  assumes s: "cred_ok s" and n: "parseID userID = Some n" and run: "DeleteUser s userID = (r, s')"
  shows "r = Ok () \<and> erased n s' \<and>
    (\<forall>a \<in> set (st_audits s'). a_userID a = n \<longrightarrow> a_email a = []) \<and>
    length (st_audits s') = length (st_audits s) \<and>
    (\<forall>u. mget (st_users s) n = Some u \<longrightarrow> u_email u \<noteq> [] \<longrightarrow>
       (\<forall>p e. norm e = u_email u \<longrightarrow> mget (st_otps s') (otp_key p e) = None) \<and>
       (\<forall>rec \<in> set (mvals (st_orgInvites s')). oi_Email (iv_inv rec) \<noteq> u_email u)) \<and>
    (\<forall>m. m \<noteq> n \<longrightarrow> same_rows m s s') \<and>
    (\<forall>p e. CHR ''|'' \<notin> set p \<longrightarrow> CHR ''|'' \<notin> set (norm e) \<longrightarrow>
       (\<forall>u. mget (st_users s) n = Some u \<longrightarrow> norm e \<noteq> u_email u) \<longrightarrow>
       mget (st_otps s') (otp_key p e) = mget (st_otps s) (otp_key p e))"
proof -
  define em where "em = (case mget (st_users s) n of Some u \<Rightarrow> u_email u | None \<Rightarrow> [])"
  have em: "mget (st_users s) n = Some u \<Longrightarrow> em = u_email u" for u by (simp add: em_def)
  let ?c = "deleteUserCascadeLocked s n"
  have s': "r = Ok ()" "s' = (if em \<noteq> [] then
        ?c\<lparr>st_otps := mprune (\<lambda>k _. has_suffix k (''|'' @ em)) (st_otps s),
           st_orgInvites := mprune (\<lambda>_ rec. oi_Email (iv_inv rec) = em) (st_orgInvites s)\<rparr>
      else ?c)\<lparr>st_audits := map (\<lambda>a. if a_userID a = n then a\<lparr>a_email := []\<rparr> else a) (st_audits s)\<rparr>"
    using run n by (auto simp: DeleteUser_def Let_def em_def deleteUserCascadeLocked_def)
  have er: "erased n s'"
    using cascade_erases [of n s] by (simp add: s'(2) erased_def)
  have fr: "same_rows m s s'" if "m \<noteq> n" for m
    using cascade_same_rows [OF that, of s] by (simp add: s'(2) same_rows_def)
  have au: "(\<forall>a \<in> set (st_audits s'). a_userID a = n \<longrightarrow> a_email a = []) \<and>
      length (st_audits s') = length (st_audits s)"
  proof -
    have "st_audits s' = map (\<lambda>a. if a_userID a = n then a\<lparr>a_email := []\<rparr> else a) (st_audits s)"
      by (simp add: s'(2))
    then show ?thesis using audits_scrubbed by simp
  qed
  have ot: "mget (st_otps s') key = (if em \<noteq> [] \<and> has_suffix key (''|'' @ em) then None else mget (st_otps s) key)"
    for key using cred_ok_otps [OF s]
    by (auto simp: s'(2) mget_mprune deleteUserCascadeLocked_def split: option.split)
  have iv: "em \<noteq> [] \<Longrightarrow> \<forall>rec \<in> set (mvals (st_orgInvites s')). oi_Email (iv_inv rec) \<noteq> em"
    by (auto simp: s'(2) in_mvals)
  have sfx: "has_suffix (otp_key p e) (''|'' @ norm e)" for p e
    by (auto simp: otp_key_def has_suffix_iff)
  have other: "\<not> has_suffix (otp_key p e) (''|'' @ em)"
    if "CHR ''|'' \<notin> set p" "CHR ''|'' \<notin> set (norm e)" "norm e \<noteq> em" for p e
  proof
    assume "has_suffix (otp_key p e) (''|'' @ em)"
    then obtain q where "p @ CHR ''|'' # norm e = q @ CHR ''|'' # em"
      by (auto simp: otp_key_def has_suffix_iff)
    then show False using that append_Cons_eq_iff [of "CHR ''|''" p "norm e" q em] by simp
  qed
  have gone: "(\<forall>p e. norm e = u_email u \<longrightarrow> mget (st_otps s') (otp_key p e) = None) \<and>
      (\<forall>rec \<in> set (mvals (st_orgInvites s')). oi_Email (iv_inv rec) \<noteq> u_email u)"
    if "mget (st_users s) n = Some u" "u_email u \<noteq> []" for u
    using em [OF that(1)] that(2) iv sfx by (auto simp: ot) (metis sfx)
  have kept: "mget (st_otps s') (otp_key p e) = mget (st_otps s) (otp_key p e)"
    if "CHR ''|'' \<notin> set p" "CHR ''|'' \<notin> set (norm e)"
      "\<And>u. mget (st_users s) n = Some u \<Longrightarrow> norm e \<noteq> u_email u" for p e
  proof (cases "em = []")
    case False
    then obtain u where "mget (st_users s) n = Some u" by (auto simp: em_def split: option.splits)
    then have "norm e \<noteq> em" using em that(3) by simp
    then show ?thesis using other [OF that(1,2)] by (simp add: ot)
  qed (simp add: ot)
  show ?thesis
    by (intro conjI s'(1) er au [THEN conjunct1] au [THEN conjunct2]; use gone fr kept in blast)
qed

theorem DeleteUser_erases_witness:
  "erased 1 (snd (DeleteUser (snd (SetPasswordHash (snd (CreateLocalUser 7 ''r'' New ''a@x'' ''Ann''))
     ''1'' ''h'' ''bcrypt'')) ''1''))"
proof -
  let ?s = "snd (SetPasswordHash (snd (CreateLocalUser 7 ''r'' New ''a@x'' ''Ann'')) ''1'' ''h'' ''bcrypt'')"
  have s: "cred_ok ?s"
    by (intro SetPasswordHash_ok CreateLocalUser_ok) simp_all
  have "parseID ''1'' = Some 1" by code_simp
  from DeleteUser_erases [OF s this surjective_pairing] show ?thesis by (rule conjunct2 [THEN conjunct1])
qed

section \<open>Two ways an unproven address passes for a proven one\<close>

text \<open>
  A login that moves a verified account to another address without proving it keeps the
  account marked verified, at the new address. The owner of that address, logging in with a
  proof, is then given the first account, with the password set by its first owner intact: the
  reclaim that protects unverified rows does not run.
\<close>

theorem upsert_keeps_verified_flag:
  assumes s: "cred_ok s" and u: "mget (st_users s) k = Some u" "u_emailVerified u"
    and free: "findByEmail s email = None" and new: "findBySub s sub2 = None"
    and k: "k < 2 ^ 64"
  shows "let (r1, s1) = UpsertUserOnLogin now s (u_sub u) email nm False;
             (r2, s2) = UpsertUserOnLogin now' s1 sub2 email nm2 True
         in \<exists>a b. r1 = Ok a \<and> au_Email a = norm email \<and> au_EmailVerified a \<and>
              r2 = Ok b \<and> au_ID b = au_ID a \<and> au_Sub b = sub2 \<and>
              PasswordHash s2 (au_ID b) = PasswordHash s (idStr k)"
proof -
  note us = cred_ok_users [OF s]
  have kx: "u_id u = k" "1 \<le> k" using users_ok_row [OF us u(1)] by auto
  let ?f = "\<lambda>u. mark_verified False (u\<lparr>u_email := norm email, u_name := nm\<rparr>)"
  let ?u1 = "?f u"
  let ?s1 = "s\<lparr>st_users := mmod k ?f (st_users s)\<rparr>"
  have fs: "findBySub s (u_sub u) = Some u" using findBySub_Some [OF us] u(1) by blast
  have fe: "findByEmail s (norm email) = None" using free by (simp add: findByEmail_def)
  have r1: "UpsertUserOnLogin now s (u_sub u) email nm False = (Ok (view ?u1), ?s1)"
    using fs fe kx by (simp add: UpsertUserOnLogin_def Let_def rebind_user_def)
  have s1: "cred_ok ?s1" using UpsertUserOnLogin_ok [OF s, of now "u_sub u" email nm False] r1 by simp
  note us1 = cred_ok_users [OF s1]
  have g1: "mget (st_users ?s1) k = Some ?u1" using u(1) by simp
  have "findByEmail ?s1 (norm email) = Some ?u1" using findByEmail_Some [OF us1] g1 by fastforce
  moreover have "findBySub ?s1 sub2 = None"
    unfolding findBySub_None [OF us1] using new [unfolded findBySub_None [OF us]]
    by (auto split: if_splits) blast
  ultimately have "UpsertUserOnLogin now' ?s1 sub2 email nm2 True =
      rebind_user ?u1 (\<lambda>u. mark_verified True (u\<lparr>u_sub := sub2, u_name := nm2\<rparr>)) ?s1"
    using u(2) by (simp add: UpsertUserOnLogin_def Let_def mark_verified_def)
  then show ?thesis
    using u(2) kx k by (simp add: r1 rebind_user_def view_def mark_verified_def PasswordHash_def)
qed

theorem upsert_keeps_verified_flag_witness:
  "\<exists>b. fst (UpsertUserOnLogin 9 (snd (UpsertUserOnLogin 8 (snd (SetPasswordHash
      (snd (UpsertUserOnLogin 7 New ''oidc:m'' ''m@x'' ''M'' True)) ''1'' ''evil'' ''bcrypt''))
      ''oidc:m'' ''victim@x'' ''M'' False)) ''oidc:v'' ''victim@x'' ''V'' True) = Ok b \<and> au_ID b = ''1''"
proof -
  let ?s = "snd (SetPasswordHash (snd (UpsertUserOnLogin 7 New ''oidc:m'' ''m@x'' ''M'' True)) ''1'' ''evil'' ''bcrypt'')"
  let ?u = "new_user 7 1 ''oidc:m'' ''m@x'' ''M'' True"
  have s: "cred_ok ?s" by (intro SetPasswordHash_ok UpsertUserOnLogin_ok) simp_all
  have u: "mget (st_users ?s) 1 = Some ?u" "u_emailVerified ?u" "findByEmail ?s ''victim@x'' = None"
    "findBySub ?s ''oidc:v'' = None" "u_sub ?u = ''oidc:m''" "idStr 1 = ''1''" by code_simp+
  have v: "fst (UpsertUserOnLogin 8 ?s ''oidc:m'' ''victim@x'' ''M'' False) = Ok a \<Longrightarrow> au_ID a = ''1''" for a
  proof -
    have "map_option au_ID (case fst (UpsertUserOnLogin 8 ?s ''oidc:m'' ''victim@x'' ''M'' False) of
        Inr a \<Rightarrow> Some a | Inl _ \<Rightarrow> None) = Some ''1''" by code_simp
    then show "fst (UpsertUserOnLogin 8 ?s ''oidc:m'' ''victim@x'' ''M'' False) = Ok a \<Longrightarrow> au_ID a = ''1''" by simp
  qed
  from upsert_keeps_verified_flag [OF s u(1-4), of 8 "''M''" 9 "''V''"]
  show ?thesis using v by (auto simp: Let_def u(5) split: prod.splits)
qed

text \<open>
  An identity without an e-mail address is treated as having the empty one: when the provider is
  trusted to have verified it, a second subject without an address is signed in to the account
  of the first.
\<close>

theorem upsert_merges_empty_addresses:
  assumes s: "cred_ok s" and u: "mget (st_users s) k = Some u" "u_email u = []" "u_emailVerified u"
    and new: "findBySub s sub2 = None"
  shows "\<exists>b. fst (UpsertUserOnLogin now s sub2 [] nm True) = Ok b \<and> au_ID b = idStr k"
proof -
  note us = cred_ok_users [OF s]
  have n: "norm [] = []" by (simp add: norm_def trim_space_def to_lower_def)
  have "findByEmail s [] = Some u" using findByEmail_Some [OF us, of "[]" u] u n by auto
  then show ?thesis
    using new u users_ok_row [OF us u(1)]
    by (simp add: UpsertUserOnLogin_def Let_def n rebind_user_def view_def mark_verified_def)
qed

section \<open>Single-use tokens\<close>

definition live_token :: "time \<Rightarrow> token \<Rightarrow> bool" where
  "live_token now t \<longleftrightarrow> t_consumedAt t = None \<and> now \<le> t_expiresAt t"

lemma consume_loop_spec:
  "consume_loop now p h ts =
     (case List.find (\<lambda>t. t_purpose t = p \<and> t_hash t = h) ts of
        None \<Rightarrow> (Err ErrTokenInvalid, ts)
      | Some t \<Rightarrow> if live_token now t then (Ok (claim_of t), snd (consume_loop now p h ts))
                  else (Err ErrTokenInvalid, ts))"
  by (induction ts) (auto simp: live_token_def split: option.splits prod.splits)

lemma peek_loop_spec: "peek_loop now p h ts = fst (consume_loop now p h ts)"
  by (induction ts) (auto split: prod.split)

lemma consume_loop_again:
  "fst (consume_loop now p h ts) = Ok c \<Longrightarrow>
   fst (consume_loop now' p h (snd (consume_loop now p h ts))) = Err ErrTokenInvalid"
  by (induction ts) (auto split: if_splits prod.splits)

lemma find_append_None: "List.find P xs = None \<Longrightarrow> List.find P (xs @ ys) = List.find P ys"
  by (induction xs) auto

text \<open>
  A token round-trips: one created under a fresh purpose and hash is redeemed, up to and
  including its expiry instant, for exactly the user and the normalized address it was created
  with, is refused ever after, and is refused to any other purpose. \<open>PeekToken\<close> answers what
  \<open>ConsumeToken\<close> would, without spending it.
\<close>

theorem token_roundtrip:
  assumes fresh: "\<forall>t \<in> set (st_tokens s). t_hash t \<noteq> h"
  shows "let s1 = snd (CreateToken s p userID email h exp);
             (r, s2) = ConsumeToken now s1 p h
         in r = (if now \<le> exp then Ok \<lparr>tc_UserID = userIDStr (parseUserID userID), tc_Email = norm email\<rparr>
                 else Err ErrTokenInvalid) \<and>
            (now \<le> exp \<longrightarrow> (\<forall>t. fst (ConsumeToken t s2 p h) = Err ErrTokenInvalid)) \<and>
            (\<forall>q. q \<noteq> p \<longrightarrow> fst (ConsumeToken now s1 q h) = Err ErrTokenInvalid) \<and>
            (\<forall>t q g. PeekToken t s1 q g = fst (ConsumeToken t s1 q g))"
proof -
  let ?s1 = "snd (CreateToken s p userID email h exp)"
  let ?t = "\<lparr>t_purpose = p, t_userID = parseUserID userID, t_email = norm email, t_hash = h,
      t_expiresAt = exp, t_consumedAt = None\<rparr>"
  have none: "List.find (\<lambda>t. t_purpose t = q \<and> t_hash t = h) (st_tokens s) = None" for q
    using fresh by (auto simp: find_None_iff)
  have ts: "st_tokens ?s1 = st_tokens s @ [?t]" by (simp add: CreateToken_def)
  have fst_eq: "fst (ConsumeToken t x q g) = fst (consume_loop t q g (st_tokens x))"
    and snd_eq: "st_tokens (snd (ConsumeToken t x q g)) = snd (consume_loop t q g (st_tokens x))" for t x q g
    by (simp_all add: ConsumeToken_def split: prod.split)
  have r: "fst (ConsumeToken now ?s1 p h) = (if now \<le> exp
      then Ok \<lparr>tc_UserID = userIDStr (parseUserID userID), tc_Email = norm email\<rparr> else Err ErrTokenInvalid)"
    unfolding fst_eq ts by (subst consume_loop_spec)
      (simp add: find_append_None [OF none] live_token_def claim_of_def)
  have again: "fst (ConsumeToken t (snd (ConsumeToken now ?s1 p h)) p h) = Err ErrTokenInvalid"
    if "now \<le> exp" for t
    using r that consume_loop_again unfolding fst_eq snd_eq by simp
  have other: "fst (ConsumeToken now ?s1 q h) = Err ErrTokenInvalid" if "q \<noteq> p" for q
    unfolding fst_eq ts using that by (subst consume_loop_spec) (simp add: find_append_None [OF none])
  have peek: "PeekToken t ?s1 q g = fst (ConsumeToken t ?s1 q g)" for t q g
    by (simp add: PeekToken_def peek_loop_spec fst_eq)
  show ?thesis using r again other peek by (simp add: Let_def split_beta)
qed

theorem token_roundtrip_witness:
  "fst (ConsumeToken 5 (snd (CreateToken New ''login'' ''12'' '' A@x'' ''h'' 5)) ''login'' ''h'') =
     Ok \<lparr>tc_UserID = ''12'', tc_Email = ''a@x''\<rparr>"
proof -
  have n: "userIDStr (parseUserID ''12'') = ''12''" "norm '' A@x'' = ''a@x''" by code_simp+
  have "\<forall>t \<in> set (st_tokens New). t_hash t \<noteq> ''h''" by (simp add: New_def)
  from token_roundtrip [OF this, of "''login''" "''12''" "'' A@x''" 5 5]
  show ?thesis by (simp add: Let_def split_beta n)
qed

end
