(* ===== verification/MemDirectory.thy ===== *)
theory MemDirectory
  imports MemIdentity
begin

text \<open>
  The directory of the in-memory store (\<open>store/memory/directory.go\<close>): global groups and
  memberships, with their batch forms, the administration of users, and API keys; then what
  the listings return and which rows each operation touches.
\<close>

section \<open>Groups\<close>

definition CreateGroup ::
  "time \<Rightarrow> store \<Rightarrow> string \<Rightarrow> string \<Rightarrow> Group result \<times> store" where
  "CreateGroup now s name description =
     (let trimmed = trim_space name in
      if mfind (\<lambda>g. g_OrgID g = [] \<and> g_Name g = trimmed) (st_groups s) \<noteq> None
      then (Err ErrDuplicateGroup, s)
      else let gid = Suc (st_groupSeq s);
               g = \<lparr>g_ID = idStr gid, g_Name = trimmed, g_Description = description,
                    g_CreatedAt = now, g_UpdatedAt = now, g_OrgID = []\<rparr>
           in (Ok g, s\<lparr>st_groupSeq := gid, st_groups := mput gid g (st_groups s)\<rparr>))"

definition Groups :: "store \<Rightarrow> Group list result" where
  "Groups s = Ok (sort_by (\<lambda>a b. g_Name a < g_Name b)
     (filter (\<lambda>g. g_OrgID g = []) (mvals (st_groups s))))"

definition GroupByName :: "store \<Rightarrow> string \<Rightarrow> Group result" where
  "GroupByName s name0 = (let name = trim_space name0 in
     case mfind (\<lambda>g. g_OrgID g = [] \<and> g_Name g = name) (st_groups s) of
       Some g \<Rightarrow> Ok g | None \<Rightarrow> Err ErrNoGroup)"

definition DeleteGroup :: "store \<Rightarrow> string \<Rightarrow> unit result \<times> store" where
  "DeleteGroup s i = (case parseID i of
     None \<Rightarrow> (Ok (), s)
   | Some n \<Rightarrow> (Ok (), s\<lparr>st_groups := mdel n (st_groups s),
       st_memberships := mmap (removeAll n) (st_memberships s)\<rparr>))"

text \<open>\<open>s.memberships[uid][gid] = true\<close>, the inner map created when it is nil.\<close>

definition add_member :: "nat \<Rightarrow> nat \<Rightarrow> (nat, nat list) gomap \<Rightarrow> (nat, nat list) gomap" where
  "add_member uid gid ms = mput uid (List.insert gid (sget ms uid)) ms"

definition AddUserToGroup :: "store \<Rightarrow> string \<Rightarrow> string \<Rightarrow> unit result \<times> store" where
  "AddUserToGroup s userID groupID = (case (parseID userID, parseID groupID) of
     (Some uid, Some gid) \<Rightarrow> (Ok (), s\<lparr>st_memberships := add_member uid gid (st_memberships s)\<rparr>)
   | _ \<Rightarrow> (Ok (), s))"

definition RemoveUserFromGroup :: "store \<Rightarrow> string \<Rightarrow> string \<Rightarrow> unit result \<times> store" where
  "RemoveUserFromGroup s userID groupID = (case (parseID userID, parseID groupID) of
     (Some uid, Some gid) \<Rightarrow>
       (Ok (), s\<lparr>st_memberships := mmod uid (removeAll gid) (st_memberships s)\<rparr>)
   | _ \<Rightarrow> (Ok (), s))"

text \<open>The loops of the batch forms over the list of user ids.\<close>

fun add_members :: "nat \<Rightarrow> string list \<Rightarrow> (nat, nat list) gomap \<Rightarrow> (nat, nat list) gomap" where
  "add_members gid [] ms = ms"
| "add_members gid (i # is) ms = (case parseID i of
     None \<Rightarrow> add_members gid is ms
   | Some uid \<Rightarrow> add_members gid is (add_member uid gid ms))"

fun remove_members :: "nat \<Rightarrow> string list \<Rightarrow> (nat, nat list) gomap \<Rightarrow> (nat, nat list) gomap" where
  "remove_members gid [] ms = ms"
| "remove_members gid (i # is) ms = (case parseID i of
     None \<Rightarrow> remove_members gid is ms
   | Some uid \<Rightarrow> remove_members gid is (mmod uid (removeAll gid) ms))"

definition AddUsersToGroup :: "store \<Rightarrow> string list \<Rightarrow> string \<Rightarrow> unit result \<times> store" where
  "AddUsersToGroup s userIDs groupID = (case parseID groupID of
     None \<Rightarrow> (Ok (), s)
   | Some gid \<Rightarrow> (Ok (), s\<lparr>st_memberships := add_members gid userIDs (st_memberships s)\<rparr>))"

definition RemoveUsersFromGroup :: "store \<Rightarrow> string list \<Rightarrow> string \<Rightarrow> unit result \<times> store" where
  "RemoveUsersFromGroup s userIDs groupID = (case parseID groupID of
     None \<Rightarrow> (Ok (), s)
   | Some gid \<Rightarrow> (Ok (), s\<lparr>st_memberships := remove_members gid userIDs (st_memberships s)\<rparr>))"

definition UserGroups :: "store \<Rightarrow> string \<Rightarrow> Group list result" where
  "UserGroups s userID = (case parseID userID of
     None \<Rightarrow> Ok []
   | Some n \<Rightarrow> Ok (sort_by (\<lambda>a b. g_Name a < g_Name b)
       (List.map_filter (mget (st_groups s)) (sget (st_memberships s) n))))"

definition GroupMembers :: "store \<Rightarrow> string \<Rightarrow> AuthUser list result" where
  "GroupMembers s groupID = (case parseID groupID of
     None \<Rightarrow> Ok []
   | Some n \<Rightarrow> Ok (sort_by (\<lambda>a b. au_Email a < au_Email b)
       (List.map_filter (\<lambda>(uid, gs). if n \<in> set gs then map_option view (mget (st_users s) uid) else None)
          (st_memberships s))))"

section \<open>Administration of users\<close>

definition ListUsers :: "store \<Rightarrow> AuthUser list result" where
  "ListUsers s = Ok (sort_by (\<lambda>a b. au_Email a < au_Email b) (map view (mvals (st_users s))))"

definition UserByID :: "store \<Rightarrow> string \<Rightarrow> AuthUser result" where
  "UserByID s i = (case parseID i of
     None \<Rightarrow> Err ErrNoUser
   | Some n \<Rightarrow> (case mget (st_users s) n of Some u \<Rightarrow> Ok (view u) | None \<Rightarrow> Err ErrNoUser))"

definition SetUserDisabled :: "store \<Rightarrow> string \<Rightarrow> bool \<Rightarrow> unit result \<times> store" where
  "SetUserDisabled s userID disabled = (case parseID userID of
     None \<Rightarrow> (Ok (), s)
   | Some n \<Rightarrow> (Ok (), s\<lparr>st_users := mmod n (\<lambda>u. u\<lparr>u_disabled := disabled\<rparr>) (st_users s)\<rparr>))"

definition SetUserBan ::
  "store \<Rightarrow> string \<Rightarrow> bool \<Rightarrow> time option \<Rightarrow> string \<Rightarrow> unit result \<times> store" where
  "SetUserBan s userID banned until reason = (case parseID userID of
     None \<Rightarrow> (Ok (), s)
   | Some n \<Rightarrow> (Ok (), s\<lparr>st_users := mmod n (\<lambda>u.
       if banned then
         (case until of
            Some t \<Rightarrow> u\<lparr>u_banned := True, u_banReason := reason, u_bannedUntil := t\<rparr>
          | None \<Rightarrow> u\<lparr>u_banned := True, u_banReason := reason, u_bannedUntil := 0\<rparr>)
       else u\<lparr>u_banned := False, u_banReason := [], u_bannedUntil := 0\<rparr>) (st_users s)\<rparr>))"

definition UpsertExternalUser ::
  "time \<Rightarrow> store \<Rightarrow> string \<Rightarrow> string \<Rightarrow> string \<Rightarrow> bool \<Rightarrow> AuthUser result \<times> store" where
  "UpsertExternalUser now s sub email name emailVerified =
     UpsertUserOnLogin now s sub email name emailVerified"

section \<open>API keys\<close>

definition insert_apikey :: "APIKeyInfo \<Rightarrow> bytes \<Rightarrow> store \<Rightarrow> APIKeyInfo result \<times> store" where
  "insert_apikey info hash s =
     (let kid = Suc (st_apiSeq s); i = info\<lparr>ak_ID := idStr kid\<rparr>
      in (Ok i, s\<lparr>st_apiSeq := kid, st_apikeys := mput kid \<lparr>k_info = i, k_hash = hash\<rparr> (st_apikeys s)\<rparr>))"

definition CreateAPIKey ::
  "time \<Rightarrow> store \<Rightarrow> string \<Rightarrow> string list \<Rightarrow> string list \<Rightarrow> string \<Rightarrow> bytes \<Rightarrow> time option \<Rightarrow>
   APIKeyInfo result \<times> store" where
  "CreateAPIKey now s name groups scopes pfx hash expiresAt =
     insert_apikey \<lparr>ak_ID = [], ak_Name = name, ak_Prefix = pfx, ak_Groups = groups,
       ak_Scopes = scopes, ak_ExpiresAt = expiresAt, ak_CreatedAt = now, ak_LastUsedAt = None,
       ak_OrgID = []\<rparr> hash s"

definition APIKeyByHash :: "store \<Rightarrow> bytes \<Rightarrow> APIKeyInfo result" where
  "APIKeyByHash s hash = (case mfind (\<lambda>k. k_hash k = hash) (st_apikeys s) of
     Some k \<Rightarrow> Ok (k_info k) | None \<Rightarrow> Err ErrNoCredential)"

definition ListAPIKeys :: "store \<Rightarrow> APIKeyInfo list result" where
  "ListAPIKeys s = Ok (sort_by (\<lambda>a b. idLess (ak_ID b) (ak_ID a)) (map k_info (mvals (st_apikeys s))))"

definition RevokeAPIKey :: "store \<Rightarrow> string \<Rightarrow> unit result \<times> store" where
  "RevokeAPIKey s i = (case parseID i of
     None \<Rightarrow> (Ok (), s)
   | Some n \<Rightarrow> (Ok (), s\<lparr>st_apikeys := mdel n (st_apikeys s)\<rparr>))"

definition TouchAPIKey :: "time \<Rightarrow> store \<Rightarrow> string \<Rightarrow> unit result \<times> store" where
  "TouchAPIKey now s i = (case parseID i of
     None \<Rightarrow> (Ok (), s)
   | Some n \<Rightarrow> (Ok (), s\<lparr>st_apikeys :=
       mmod n (\<lambda>k. k\<lparr>k_info := (k_info k)\<lparr>ak_LastUsedAt := Some now\<rparr>\<rparr>) (st_apikeys s)\<rparr>))"

section \<open>The invariant of the directory\<close>

text \<open>
  A group carries its key and its name is unique within its namespace (the global one or one
  organization's); a membership set has no repetition; an API key carries its key.
\<close>

definition groups_ok :: "nat \<Rightarrow> (nat, Group) gomap \<Rightarrow> bool" where
  "groups_ok n gs \<longleftrightarrow> table_ok n (\<lambda>k g. g_ID g = idStr k) (\<lambda>g. (g_OrgID g, g_Name g)) gs"

definition sets_ok :: "('k, 'v list) gomap \<Rightarrow> bool" where
  "sets_ok m \<longleftrightarrow> keys_ok m \<and> (\<forall>k. distinct (sget m k))"

definition apikeys_ok :: "nat \<Rightarrow> (nat, apiKey) gomap \<Rightarrow> bool" where
  "apikeys_ok n ks \<longleftrightarrow> table_ok n (\<lambda>k r. ak_ID (k_info r) = idStr k) (\<lambda>r. ak_ID (k_info r)) ks"

definition dir_ok :: "store \<Rightarrow> bool" where
  "dir_ok s \<longleftrightarrow> groups_ok (st_groupSeq s) (st_groups s) \<and> sets_ok (st_memberships s) \<and>
     apikeys_ok (st_apiSeq s) (st_apikeys s)"

lemma dir_okD:
  assumes "dir_ok s"
  shows dir_ok_groups: "groups_ok (st_groupSeq s) (st_groups s)"
    and dir_ok_members: "sets_ok (st_memberships s)"
    and dir_ok_apikeys: "apikeys_ok (st_apiSeq s) (st_apikeys s)"
  using assms by (simp_all add: dir_ok_def)

lemma groups_ok_keys: "groups_ok n gs \<Longrightarrow> keys_ok gs"
  by (auto simp: groups_ok_def dest: table_ok_keys)

lemma sets_ok_keys: "sets_ok m \<Longrightarrow> keys_ok m"
  by (simp add: sets_ok_def)

lemma sets_ok_intros [table_intros]:
  "sets_ok []"
  "sets_ok m \<Longrightarrow> distinct xs \<Longrightarrow> sets_ok (mput k xs m)"
  "sets_ok m \<Longrightarrow> sets_ok (mdel k m)"
  "sets_ok m \<Longrightarrow> sets_ok (mmap (removeAll x) m)"
  "sets_ok m \<Longrightarrow> sets_ok (mmod k (removeAll x) m)"
  by (auto simp: sets_ok_def distinct_removeAll intro: keys_intros)

lemma sets_ok_add_member [table_intros]: "sets_ok ms \<Longrightarrow> sets_ok (add_member uid gid ms)"
  by (auto simp: add_member_def sets_ok_def intro: keys_intros)

lemma sets_ok_batch [table_intros]:
  "sets_ok ms \<Longrightarrow> sets_ok (add_members gid is ms)"
  "sets_ok ms \<Longrightarrow> sets_ok (remove_members gid is ms)"
  by (induction "is" arbitrary: ms) (auto intro: table_intros split: option.split)

lemma groups_ok_insert:
  assumes "groups_ok n gs" and "g_ID g = idStr (Suc n)"
    and "mfind (\<lambda>h. g_OrgID h = g_OrgID g \<and> g_Name h = g_Name g) gs = None"
  shows "groups_ok (Suc n) (mput (Suc n) g gs)"
  using assms unfolding groups_ok_def by (intro table_ok_insert) (auto simp: mfind_None)

lemma dir_ok_New [simp]: "dir_ok New"
  by (simp add: dir_ok_def New_def groups_ok_def apikeys_ok_def table_intros)

lemma CreateGroup_ok: "dir_ok s \<Longrightarrow> dir_ok (snd (CreateGroup now s name d))"
  by (auto simp: CreateGroup_def dir_ok_def Let_def intro: groups_ok_insert)

lemma DeleteGroup_ok: "dir_ok s \<Longrightarrow> dir_ok (snd (DeleteGroup s i))"
  by (auto simp: DeleteGroup_def dir_ok_def groups_ok_def intro: table_intros split: option.split)

lemma membership_ops_ok:
  assumes "dir_ok s"
  shows AddUserToGroup_ok: "dir_ok (snd (AddUserToGroup s u g))"
    and RemoveUserFromGroup_ok: "dir_ok (snd (RemoveUserFromGroup s u g))"
    and AddUsersToGroup_ok: "dir_ok (snd (AddUsersToGroup s us g))"
    and RemoveUsersFromGroup_ok: "dir_ok (snd (RemoveUsersFromGroup s us g))"
  using assms
  by (auto simp: AddUserToGroup_def RemoveUserFromGroup_def AddUsersToGroup_def
      RemoveUsersFromGroup_def dir_ok_def intro: table_intros split: option.split)

lemma user_admin_ok:
  assumes "cred_ok s"
  shows SetUserDisabled_ok: "cred_ok (snd (SetUserDisabled s userID b))"
    and SetUserBan_ok: "cred_ok (snd (SetUserBan s userID b t r))"
  using assms
  by (auto simp: SetUserDisabled_def SetUserBan_def cred_ok_def intro!: users_ok_write_same
      split: option.split)

lemma insert_apikey_ok: "dir_ok s \<Longrightarrow> dir_ok (snd (insert_apikey info h s))"
proof -
  assume s: "dir_ok s"
  have "apikeys_ok (Suc (st_apiSeq s)) (mput (Suc (st_apiSeq s))
      \<lparr>k_info = info\<lparr>ak_ID := idStr (Suc (st_apiSeq s))\<rparr>, k_hash = h\<rparr> (st_apikeys s))"
    using dir_ok_apikeys [OF s] unfolding apikeys_ok_def
    by (intro table_ok_insert) (auto dest: table_ok_row)
  with s show ?thesis by (simp add: insert_apikey_def dir_ok_def Let_def)
qed

lemma apikey_ops_ok:
  assumes "dir_ok s"
  shows CreateAPIKey_ok: "dir_ok (snd (CreateAPIKey now s nm gs sc p h t))"
    and RevokeAPIKey_ok: "dir_ok (snd (RevokeAPIKey s i))"
    and TouchAPIKey_ok: "dir_ok (snd (TouchAPIKey now s i))"
  using assms insert_apikey_ok [OF assms]
  by (auto simp: CreateAPIKey_def RevokeAPIKey_def TouchAPIKey_def dir_ok_def apikeys_ok_def
      intro!: table_intros split: option.split)

lemma dir_cascade_ok: "dir_ok s \<Longrightarrow> dir_ok (deleteUserCascadeLocked s n)"
  by (simp add: deleteUserCascadeLocked_def dir_ok_def table_intros)

section \<open>Memberships after the operations\<close>

lemma sget_add_member:
  "sget (add_member u g ms) k = (if k = u then List.insert g (sget ms k) else sget ms k)"
  by (simp add: add_member_def)

lemma set_add_members:
  "set (sget (add_members g is ms) k) = set (sget ms k) \<union> (if \<exists>i \<in> set is. parseID i = Some k then {g} else {})"
  by (induction "is" arbitrary: ms) (auto simp: sget_add_member split: option.split)

lemma set_remove_members:
  "set (sget (remove_members g is ms) k) = set (sget ms k) - (if \<exists>i \<in> set is. parseID i = Some k then {g} else {})"
  by (induction "is" arbitrary: ms) (auto split: option.split)

lemma set_map_filter_eq: "set (List.map_filter f xs) = {y. \<exists>x \<in> set xs. f x = Some y}"
  by (force simp: List.map_filter_def)

end
