(* ===== verification/MemOrgs.thy ===== *)
theory MemOrgs
  imports MemDirectory
begin

text \<open>
  Organizations in the in-memory store (\<open>store/memory/orgs.go\<close>): the organizations and their
  members, invites, and the groups and API keys an organization owns; then their invariant,
  with the references between the tables, and that every operation keeps it.
\<close>

section \<open>Organizations\<close>

definition org_view :: "org \<Rightarrow> Org" where
  "org_view o' = \<lparr>o_ID = idStr (org_id o'), o_Slug = org_slug o', o_Name = org_name o',
     o_CreatedAt = org_createdAt o', o_UpdatedAt = org_updatedAt o'\<rparr>"

definition CreateOrg :: "time \<Rightarrow> store \<Rightarrow> string \<Rightarrow> string \<Rightarrow> Org result \<times> store" where
  "CreateOrg now s slug name =
     (if mfind (\<lambda>r. org_slug r = slug) (st_orgs s) \<noteq> None then (Err ErrDuplicateOrg, s)
      else let n = Suc (st_orgSeq s);
               r = \<lparr>org_id = n, org_slug = slug, org_name = name, org_createdAt = now,
                    org_updatedAt = now\<rparr>
           in (Ok (org_view r), s\<lparr>st_orgSeq := n, st_orgs := mput n r (st_orgs s)\<rparr>))"

definition OrgByID :: "store \<Rightarrow> string \<Rightarrow> Org result" where
  "OrgByID s i = (case parseID i of
     None \<Rightarrow> Err ErrNoOrg
   | Some n \<Rightarrow> (case mget (st_orgs s) n of Some r \<Rightarrow> Ok (org_view r) | None \<Rightarrow> Err ErrNoOrg))"

definition OrgBySlug :: "store \<Rightarrow> string \<Rightarrow> Org result" where
  "OrgBySlug s slug = (case mfind (\<lambda>r. org_slug r = slug) (st_orgs s) of
     Some r \<Rightarrow> Ok (org_view r) | None \<Rightarrow> Err ErrNoOrg)"

definition Orgs :: "store \<Rightarrow> Org list result" where
  "Orgs s = Ok (sort_by (\<lambda>a b. o_Slug a < o_Slug b) (map org_view (mvals (st_orgs s))))"

definition RenameOrg :: "time \<Rightarrow> store \<Rightarrow> string \<Rightarrow> string \<Rightarrow> unit result \<times> store" where
  "RenameOrg now s i name = (case parseID i of
     None \<Rightarrow> (Err ErrNoOrg, s)
   | Some n \<Rightarrow> (case mget (st_orgs s) n of
       None \<Rightarrow> (Err ErrNoOrg, s)
     | Some _ \<Rightarrow> (Ok (), s\<lparr>st_orgs :=
         mmod n (\<lambda>r. r\<lparr>org_name := name, org_updatedAt := now\<rparr>) (st_orgs s)\<rparr>)))"

text \<open>
  The cascade of \<open>DeleteOrg\<close>. Its first loop deletes the organization's groups and, for each,
  its key from every membership set.
\<close>

definition drop_groups :: "(nat \<Rightarrow> bool) \<Rightarrow> nat list \<Rightarrow> nat list" where
  "drop_groups gone gids = filter (\<lambda>gid. \<not> gone gid) gids"

definition DeleteOrg :: "store \<Rightarrow> string \<Rightarrow> unit result \<times> store" where
  "DeleteOrg s i = (case parseID i of
     None \<Rightarrow> (Ok (), s)
   | Some n \<Rightarrow>
       let canonical = idStr n;
           owned = (\<lambda>gid. case mget (st_groups s) gid of
             Some g \<Rightarrow> g_OrgID g = canonical | None \<Rightarrow> False)
       in (Ok (), s\<lparr>
            st_orgs := mdel n (st_orgs s),
            st_orgMembers := mdel n (st_orgMembers s),
            st_groups := mprune (\<lambda>_ g. g_OrgID g = canonical) (st_groups s),
            st_memberships := mmap (drop_groups owned) (st_memberships s),
            st_orgInvites := mprune (\<lambda>_ rec. oi_OrgID (iv_inv rec) = canonical) (st_orgInvites s),
            st_apikeys := mprune (\<lambda>_ k. ak_OrgID (k_info k) = canonical) (st_apikeys s)\<rparr>))"

section \<open>Members\<close>

text \<open>\<open>parseID\<close> and the presence test that open most methods: \<open>!ok || s.orgs[n] == nil\<close>.\<close>

definition org_key :: "store \<Rightarrow> string \<Rightarrow> nat option" where
  "org_key s orgID = (case parseID orgID of
     None \<Rightarrow> None
   | Some n \<Rightarrow> if mget (st_orgs s) n = None then None else Some n)"

definition SetOrgMember :: "store \<Rightarrow> string \<Rightarrow> string \<Rightarrow> string \<Rightarrow> unit result \<times> store" where
  "SetOrgMember s orgID userID role = (case org_key s orgID of
     None \<Rightarrow> (Err ErrNoOrg, s)
   | Some n \<Rightarrow> (case parseID userID of
       None \<Rightarrow> (Err ErrNoUser, s)
     | Some uid \<Rightarrow>
         if mget (st_users s) uid = None then (Err ErrNoUser, s)
         else (Ok (), s\<lparr>st_orgMembers :=
           mput n (mput uid role (sget (st_orgMembers s) n)) (st_orgMembers s)\<rparr>)))"

text \<open>
  The second half removes the user from every group whose \<open>OrgID\<close> parses to the
  organization's key.
\<close>

definition group_of_org :: "nat \<Rightarrow> Group \<Rightarrow> bool" where
  "group_of_org n g \<longleftrightarrow> parseID (g_OrgID g) = Some n"

definition RemoveOrgMember :: "store \<Rightarrow> string \<Rightarrow> string \<Rightarrow> unit result \<times> store" where
  "RemoveOrgMember s orgID userID = (case (parseID orgID, parseID userID) of
     (Some n, Some uid) \<Rightarrow>
       let owned = (\<lambda>gid. case mget (st_groups s) gid of Some g \<Rightarrow> group_of_org n g | None \<Rightarrow> False)
       in (Ok (), s\<lparr>st_orgMembers := mmod n (mdel uid) (st_orgMembers s),
                   st_memberships := mmod uid (drop_groups owned) (st_memberships s)\<rparr>)
   | _ \<Rightarrow> (Ok (), s))"

definition OrgRole :: "store \<Rightarrow> string \<Rightarrow> string \<Rightarrow> string result" where
  "OrgRole s orgID userID = (case org_key s orgID of
     None \<Rightarrow> Err ErrNoOrg
   | Some n \<Rightarrow> (case parseID userID of
       None \<Rightarrow> Err ErrNotOrgMember
     | Some uid \<Rightarrow> (case mget (sget (st_orgMembers s) n) uid of
         Some role \<Rightarrow> Ok role | None \<Rightarrow> Err ErrNotOrgMember)))"

definition UserOrgs :: "store \<Rightarrow> string \<Rightarrow> UserOrg list result" where
  "UserOrgs s userID = (case parseID userID of
     None \<Rightarrow> Ok []
   | Some uid \<Rightarrow> Ok (sort_by (\<lambda>a b. o_Slug (uo_Org a) < o_Slug (uo_Org b))
       (List.map_filter (\<lambda>(oid, members). case (mget members uid, mget (st_orgs s) oid) of
            (Some role, Some r) \<Rightarrow> Some \<lparr>uo_Org = org_view r, uo_Role = role\<rparr>
          | _ \<Rightarrow> None) (st_orgMembers s))))"

definition OrgMembers :: "store \<Rightarrow> string \<Rightarrow> OrgMember list result" where
  "OrgMembers s orgID = (case org_key s orgID of
     None \<Rightarrow> Err ErrNoOrg
   | Some n \<Rightarrow> Ok (sort_by (\<lambda>a b. au_Email (om_User a) < au_Email (om_User b))
       (List.map_filter (\<lambda>(uid, role).
            map_option (\<lambda>u. \<lparr>om_User = view u, om_Role = role\<rparr>) (mget (st_users s) uid))
          (sget (st_orgMembers s) n))))"

section \<open>Invites\<close>

definition pending_for :: "string \<Rightarrow> string \<Rightarrow> orgInvite \<Rightarrow> bool" where
  "pending_for orgID email rec \<longleftrightarrow>
     oi_OrgID (iv_inv rec) = orgID \<and> oi_Email (iv_inv rec) = email \<and> \<not> iv_consumed rec"

definition CreateOrgInvite ::
  "time \<Rightarrow> store \<Rightarrow> string \<Rightarrow> string \<Rightarrow> string \<Rightarrow> string \<Rightarrow> bytes \<Rightarrow> time \<Rightarrow>
   OrgInvite result \<times> store" where
  "CreateOrgInvite now s orgID email role invitedBy tokenHash expiresAt = (case org_key s orgID of
     None \<Rightarrow> (Err ErrNoOrg, s)
   | Some n \<Rightarrow>
       let invs = mprune (\<lambda>_. pending_for orgID email) (st_orgInvites s);
           iid = Suc (st_inviteSeq s);
           inv = \<lparr>oi_ID = idStr iid, oi_OrgID = orgID, oi_Email = email, oi_Role = role,
                  oi_InvitedBy = invitedBy, oi_ExpiresAt = expiresAt, oi_CreatedAt = now\<rparr>
       in (Ok inv, s\<lparr>st_inviteSeq := iid, st_orgInvites :=
             mput iid \<lparr>iv_inv = inv, iv_hash = tokenHash, iv_consumed = False\<rparr> invs\<rparr>))"

definition OrgInvites :: "time \<Rightarrow> store \<Rightarrow> string \<Rightarrow> OrgInvite list result" where
  "OrgInvites now s orgID = (case org_key s orgID of
     None \<Rightarrow> Err ErrNoOrg
   | Some n \<Rightarrow> Ok (sort_by (\<lambda>a b. idLess (oi_ID a) (oi_ID b))
       (map iv_inv (filter (\<lambda>rec. oi_OrgID (iv_inv rec) = orgID \<and> \<not> iv_consumed rec \<and>
            now < oi_ExpiresAt (iv_inv rec)) (mvals (st_orgInvites s))))))"

definition RevokeOrgInvite :: "store \<Rightarrow> string \<Rightarrow> string \<Rightarrow> unit result \<times> store" where
  "RevokeOrgInvite s orgID i = (case parseID i of
     None \<Rightarrow> (Ok (), s)
   | Some iid \<Rightarrow> (case mget (st_orgInvites s) iid of
       Some rec \<Rightarrow>
         if oi_OrgID (iv_inv rec) = orgID
         then (Ok (), s\<lparr>st_orgInvites := mdel iid (st_orgInvites s)\<rparr>) else (Ok (), s)
     | None \<Rightarrow> (Ok (), s)))"

text \<open>
  \<open>findValidInviteLocked\<close> returns a pointer into the map; here the key is returned with the
  row, so that a caller can write through it.
\<close>

definition valid_invite :: "time \<Rightarrow> bytes \<Rightarrow> orgInvite \<Rightarrow> bool" where
  "valid_invite now tokenHash rec \<longleftrightarrow>
     iv_hash rec = tokenHash \<and> \<not> iv_consumed rec \<and> now < oi_ExpiresAt (iv_inv rec)"

definition findValidInviteLocked :: "time \<Rightarrow> store \<Rightarrow> bytes \<Rightarrow> (nat \<times> orgInvite) option" where
  "findValidInviteLocked now s tokenHash =
     find (\<lambda>e. valid_invite now tokenHash (snd e)) (st_orgInvites s)"

definition PeekOrgInvite :: "time \<Rightarrow> store \<Rightarrow> bytes \<Rightarrow> OrgInvite result" where
  "PeekOrgInvite now s tokenHash = (case findValidInviteLocked now s tokenHash of
     None \<Rightarrow> Err ErrTokenInvalid | Some (iid, rec) \<Rightarrow> Ok (iv_inv rec))"

definition ConsumeOrgInvite :: "time \<Rightarrow> store \<Rightarrow> bytes \<Rightarrow> OrgInvite result \<times> store" where
  "ConsumeOrgInvite now s tokenHash = (case findValidInviteLocked now s tokenHash of
     None \<Rightarrow> (Err ErrTokenInvalid, s)
   | Some (iid, rec) \<Rightarrow> (Ok (iv_inv rec),
       s\<lparr>st_orgInvites := mmod iid (\<lambda>r. r\<lparr>iv_consumed := True\<rparr>) (st_orgInvites s)\<rparr>))"

section \<open>Groups and API keys of an organization\<close>

definition CreateOrgGroup ::
  "time \<Rightarrow> store \<Rightarrow> string \<Rightarrow> string \<Rightarrow> string \<Rightarrow> Group result \<times> store" where
  "CreateOrgGroup now s orgID name description = (case org_key s orgID of
     None \<Rightarrow> (Err ErrNoOrg, s)
   | Some n \<Rightarrow>
       let trimmed = trim_space name; canonical = idStr n in
       if mfind (\<lambda>g. g_OrgID g = canonical \<and> g_Name g = trimmed) (st_groups s) \<noteq> None
       then (Err ErrDuplicateGroup, s)
       else let gid = Suc (st_groupSeq s);
                g = \<lparr>g_ID = idStr gid, g_Name = trimmed, g_Description = description,
                     g_CreatedAt = now, g_UpdatedAt = now, g_OrgID = canonical\<rparr>
            in (Ok g, s\<lparr>st_groupSeq := gid, st_groups := mput gid g (st_groups s)\<rparr>))"

definition OrgGroups :: "store \<Rightarrow> string \<Rightarrow> Group list result" where
  "OrgGroups s orgID = Ok (sort_by (\<lambda>a b. g_Name a < g_Name b)
     (filter (\<lambda>g. g_OrgID g = orgID) (mvals (st_groups s))))"

definition OrgGroupByName :: "store \<Rightarrow> string \<Rightarrow> string \<Rightarrow> Group result" where
  "OrgGroupByName s orgID name0 = (let name = trim_space name0 in
     case mfind (\<lambda>g. g_OrgID g = orgID \<and> g_Name g = name) (st_groups s) of
       Some g \<Rightarrow> Ok g | None \<Rightarrow> Err ErrNoGroup)"

definition OrgOfGroup :: "store \<Rightarrow> string \<Rightarrow> string result" where
  "OrgOfGroup s groupID = (case parseID groupID of
     None \<Rightarrow> Err ErrNoGroup
   | Some n \<Rightarrow> (case mget (st_groups s) n of Some g \<Rightarrow> Ok (g_OrgID g) | None \<Rightarrow> Err ErrNoGroup))"

definition UserOrgGroups :: "store \<Rightarrow> string \<Rightarrow> string \<Rightarrow> Group list result" where
  "UserOrgGroups s orgID userID = (case parseID userID of
     None \<Rightarrow> Ok []
   | Some uid \<Rightarrow> Ok (sort_by (\<lambda>a b. g_Name a < g_Name b)
       (List.map_filter (\<lambda>gid. case mget (st_groups s) gid of
            Some g \<Rightarrow> if g_OrgID g = orgID then Some g else None
          | None \<Rightarrow> None) (sget (st_memberships s) uid))))"

definition CreateOrgAPIKey ::
  "time \<Rightarrow> store \<Rightarrow> string \<Rightarrow> string \<Rightarrow> string list \<Rightarrow> string list \<Rightarrow> string \<Rightarrow> bytes \<Rightarrow> time option \<Rightarrow>
   APIKeyInfo result \<times> store" where
  "CreateOrgAPIKey now s orgID name groups scopes pfx hash expiresAt = (case org_key s orgID of
     None \<Rightarrow> (Err ErrNoOrg, s)
   | Some n \<Rightarrow> insert_apikey \<lparr>ak_ID = [], ak_Name = name, ak_Prefix = pfx, ak_Groups = groups,
       ak_Scopes = scopes, ak_ExpiresAt = expiresAt, ak_CreatedAt = now, ak_LastUsedAt = None,
       ak_OrgID = orgID\<rparr> hash s)"

definition ListOrgAPIKeys :: "store \<Rightarrow> string \<Rightarrow> APIKeyInfo list result" where
  "ListOrgAPIKeys s orgID = Ok (sort_by (\<lambda>a b. idLess (ak_ID b) (ak_ID a))
     (filter (\<lambda>i. ak_OrgID i = orgID) (map k_info (mvals (st_apikeys s)))))"

section \<open>The invariant\<close>

text \<open>
  Slugs are unique; a member of an organization is an existing user and the organization
  exists; a group that names an organization carries the canonical id of an existing one; and
  of the invites to one address under one spelling of the organization's id at most one is
  pending.
\<close>

definition orgs_ok :: "nat \<Rightarrow> (nat, org) gomap \<Rightarrow> bool" where
  "orgs_ok n os \<longleftrightarrow> table_ok n (\<lambda>k r. org_id r = k) org_slug os"

definition members_ok ::
  "(nat, user) gomap \<Rightarrow> (nat, org) gomap \<Rightarrow> (nat, (nat, string) gomap) gomap \<Rightarrow> bool" where
  "members_ok us os ms \<longleftrightarrow> keys_ok ms \<and> (\<forall>n. keys_ok (sget ms n)) \<and>
     (\<forall>n m. mget ms n = Some m \<longrightarrow> mget os n \<noteq> None) \<and>
     (\<forall>n u r. mget (sget ms n) u = Some r \<longrightarrow> mget us u \<noteq> None)"

definition group_refs_ok :: "(nat, org) gomap \<Rightarrow> (nat, Group) gomap \<Rightarrow> bool" where
  "group_refs_ok os gs \<longleftrightarrow> (\<forall>k g. mget gs k = Some g \<longrightarrow> g_OrgID g \<noteq> [] \<longrightarrow>
     (\<exists>n. g_OrgID g = idStr n \<and> mget os n \<noteq> None))"

definition invites_ok :: "nat \<Rightarrow> (nat, orgInvite) gomap \<Rightarrow> bool" where
  "invites_ok n ivs \<longleftrightarrow>
     table_ok n (\<lambda>k r. oi_ID (iv_inv r) = idStr k) (\<lambda>r. oi_ID (iv_inv r)) ivs \<and>
     (\<forall>k k' r r'. mget ivs k = Some r \<longrightarrow> mget ivs k' = Some r' \<longrightarrow>
        pending_for (oi_OrgID (iv_inv r)) (oi_Email (iv_inv r)) r \<longrightarrow>
        pending_for (oi_OrgID (iv_inv r)) (oi_Email (iv_inv r)) r' \<longrightarrow> k = k')"

definition org_ok :: "store \<Rightarrow> bool" where
  "org_ok s \<longleftrightarrow> orgs_ok (st_orgSeq s) (st_orgs s) \<and>
     members_ok (st_users s) (st_orgs s) (st_orgMembers s) \<and>
     group_refs_ok (st_orgs s) (st_groups s) \<and>
     invites_ok (st_inviteSeq s) (st_orgInvites s)"

lemma org_okD:
  assumes "org_ok s"
  shows org_ok_orgs: "orgs_ok (st_orgSeq s) (st_orgs s)"
    and org_ok_members: "members_ok (st_users s) (st_orgs s) (st_orgMembers s)"
    and org_ok_refs: "group_refs_ok (st_orgs s) (st_groups s)"
    and org_ok_invites: "invites_ok (st_inviteSeq s) (st_orgInvites s)"
  using assms by (simp_all add: org_ok_def)

lemma org_key_Some: "org_key s i = Some n \<longleftrightarrow> parseID i = Some n \<and> mget (st_orgs s) n \<noteq> None"
  by (auto simp: org_key_def split: option.split)

lemma org_ok_New [simp]: "org_ok New"
  by (simp add: org_ok_def New_def orgs_ok_def members_ok_def group_refs_ok_def invites_ok_def)

section \<open>Every operation keeps the invariant\<close>

lemma members_ok_mono:
  assumes "members_ok us os ms" and "\<And>k. mget us k \<noteq> None \<Longrightarrow> mget us' k \<noteq> None"
    and "\<And>k. mget os k \<noteq> None \<Longrightarrow> mget os' k \<noteq> None"
  shows "members_ok us' os' ms"
  using assms unfolding members_ok_def by meson

lemma members_ok_cascade: "members_ok us os ms \<Longrightarrow> members_ok (mdel u us) os (mmap (mdel u) ms)"
  by (auto simp: members_ok_def mdel_def [of _ "[]"] intro: keys_intros split: if_splits)

lemma members_ok_user_write [table_intros]:
  "members_ok us os ms \<Longrightarrow> members_ok (mput k u us) os ms"
  "members_ok us os ms \<Longrightarrow> members_ok (mmod k f us) os ms"
  by (erule members_ok_mono; auto)+

lemma members_ok_set:
  assumes "members_ok us os ms" and "mget os n \<noteq> None" and "mget us u \<noteq> None"
  shows "members_ok us os (mput n (mput u role (sget ms n)) ms)"
  using assms by (auto simp: members_ok_def intro: keys_intros split: if_splits)

lemma members_ok_unset: "members_ok us os ms \<Longrightarrow> members_ok us os (mmod n (mdel u) ms)"
  by (auto simp: members_ok_def mdel_def [of _ "[]"] intro: keys_intros split: if_splits)

lemma members_ok_delete_org: "members_ok us os ms \<Longrightarrow> members_ok us (mdel n os) (mdel n ms)"
  by (auto simp: members_ok_def intro: keys_intros split: if_splits)

lemma group_refs_ok_orgs [table_intros]:
  "group_refs_ok os gs \<Longrightarrow> group_refs_ok (mput n r os) gs"
  "group_refs_ok os gs \<Longrightarrow> group_refs_ok (mmod n f os) gs"
  by (fastforce simp: group_refs_ok_def)+

lemma group_refs_ok_groups:
  "group_refs_ok os gs \<Longrightarrow> group_refs_ok os (mdel k gs)"
  "group_refs_ok os gs \<Longrightarrow> g_OrgID g = [] \<or> (\<exists>n. g_OrgID g = idStr n \<and> mget os n \<noteq> None) \<Longrightarrow>
     group_refs_ok os (mput k g gs)"
  by (auto simp: group_refs_ok_def)

lemma group_refs_ok_delete_org:
  assumes k: "keys_ok gs" and r: "group_refs_ok os gs"
  shows "group_refs_ok (mdel n os) (mprune (\<lambda>_ g. g_OrgID g = idStr n) gs)"
  unfolding group_refs_ok_def mget_mprune [OF k]
proof (intro allI impI)
  fix i g
  assume "(case mget gs i of None \<Rightarrow> None | Some g \<Rightarrow> if g_OrgID g = idStr n then None else Some g) = Some g"
    and ne: "g_OrgID g \<noteq> []"
  then have g: "mget gs i = Some g" "g_OrgID g \<noteq> idStr n" by (auto split: option.splits if_splits)
  then obtain m where "g_OrgID g = idStr m" "mget os m \<noteq> None"
    using r ne unfolding group_refs_ok_def by blast
  with g(2) show "\<exists>m. g_OrgID g = idStr m \<and> mget (mdel n os) m \<noteq> None" by auto
qed

lemma invites_ok_keys: "invites_ok n ivs \<Longrightarrow> keys_ok ivs"
  by (auto simp: invites_ok_def dest: table_ok_keys)

lemma invites_ok_subset:
  assumes ok: "invites_ok n ivs" and sub: "set ivs' \<subseteq> set ivs" and k: "keys_ok ivs'"
  shows "invites_ok n ivs'"
proof -
  have m: "mget ivs i = Some r" if "mget ivs' i = Some r" for i r
    using that sub k invites_ok_keys [OF ok] by (auto simp: mget_iff_in)
  have "table_ok n (\<lambda>k r. oi_ID (iv_inv r) = idStr k) (\<lambda>r. oi_ID (iv_inv r)) ivs'"
    using ok sub k by (auto simp: invites_ok_def intro: table_ok_subset)
  with ok m show ?thesis unfolding invites_ok_def by blast
qed

lemma invites_ok_delete [table_intros]:
  assumes "invites_ok n ivs"
  shows "invites_ok n (mdel k ivs)" and "invites_ok n (mprune p ivs)"
  using keys_ok_mdel [OF invites_ok_keys [OF assms]] keys_ok_mprune [OF invites_ok_keys [OF assms]]
  by (auto intro!: invites_ok_subset [OF assms])

lemma invites_ok_consume [table_intros]:
  assumes "invites_ok n ivs"
  shows "invites_ok n (mmod k (\<lambda>r. r\<lparr>iv_consumed := True\<rparr>) ivs)"
proof -
  have t: "table_ok n (\<lambda>k r. oi_ID (iv_inv r) = idStr k) (\<lambda>r. oi_ID (iv_inv r))
      (mmod k (\<lambda>r. r\<lparr>iv_consumed := True\<rparr>) ivs)"
    by (rule table_ok_mmod_same [OF assms [unfolded invites_ok_def, THEN conjunct1]]) simp_all
  have live: "mget ivs i = Some q" if "mget (mmod k (\<lambda>r. r\<lparr>iv_consumed := True\<rparr>) ivs) i = Some q"
      "pending_for a b q"
    for i a b and q :: orgInvite
    using that by (cases "i = k") (auto simp: pending_for_def)
  show ?thesis unfolding invites_ok_def
  proof (intro conjI t allI impI)
    fix i i' and q q' :: orgInvite
    let ?p = "pending_for (oi_OrgID (iv_inv q)) (oi_Email (iv_inv q))"
    assume q: "mget (mmod k (\<lambda>r. r\<lparr>iv_consumed := True\<rparr>) ivs) i = Some q"
        "mget (mmod k (\<lambda>r. r\<lparr>iv_consumed := True\<rparr>) ivs) i' = Some q'" "?p q" "?p q'"
    from live [OF q(1,3)] live [OF q(2,4)] q(3,4) assms show "i = i'"
      unfolding invites_ok_def by blast
  qed
qed

lemma invites_ok_create:
  assumes ok: "invites_ok n ivs"
    and r: "oi_ID (iv_inv r) = idStr (Suc n)" "oi_OrgID (iv_inv r) = o'" "oi_Email (iv_inv r) = e"
  shows "invites_ok (Suc n) (mput (Suc n) r (mprune (\<lambda>_. pending_for o' e) ivs))"
proof -
  let ?m = "mprune (\<lambda>_. pending_for o' e) ivs"
  have ok': "invites_ok n ?m" using ok by (rule invites_ok_delete)
  have t: "table_ok (Suc n) (\<lambda>k r. oi_ID (iv_inv r) = idStr k) (\<lambda>r. oi_ID (iv_inv r)) (mput (Suc n) r ?m)"
    using ok' r by (auto simp: invites_ok_def intro!: table_ok_insert dest: table_ok_row)
  have none: "\<not> pending_for o' e q" if "mget ?m i = Some q" for i q
    using that mget_in_set [OF that] by simp
  have u: "i = i'" if "mget (mput (Suc n) r ?m) i = Some q" "mget (mput (Suc n) r ?m) i' = Some q'"
      "pending_for (oi_OrgID (iv_inv q)) (oi_Email (iv_inv q)) q"
      "pending_for (oi_OrgID (iv_inv q)) (oi_Email (iv_inv q)) q'" for i i' q q'
  proof (cases "i = Suc n \<or> i' = Suc n")
    case True
    then have "oi_OrgID (iv_inv q) = o' \<and> oi_Email (iv_inv q) = e"
      using that r by (auto simp: pending_for_def)
    then show ?thesis using that none by (auto split: if_splits)
  next
    case False
    then show ?thesis using that ok' by (auto simp: invites_ok_def)
  qed
  show ?thesis unfolding invites_ok_def using t u by blast
qed

lemma CreateOrg_ok: "org_ok s \<Longrightarrow> org_ok (snd (CreateOrg now s slug name))"
  by (auto simp: CreateOrg_def org_ok_def orgs_ok_def mfind_None Let_def
      intro!: table_ok_insert table_intros elim!: members_ok_mono)

lemma RenameOrg_ok: "org_ok s \<Longrightarrow> org_ok (snd (RenameOrg now s i name))"
  by (auto simp: RenameOrg_def org_ok_def orgs_ok_def intro!: table_ok_mmod_same table_intros
      elim!: members_ok_mono split: option.split)

lemma DeleteOrg_ok: "org_ok s \<Longrightarrow> dir_ok s \<Longrightarrow> org_ok (snd (DeleteOrg s i))"
  by (auto simp: DeleteOrg_def org_ok_def orgs_ok_def dir_ok_def Let_def
      intro!: group_refs_ok_delete_org table_intros members_ok_delete_org dest: groups_ok_keys split: option.split)

lemma SetOrgMember_ok: "org_ok s \<Longrightarrow> org_ok (snd (SetOrgMember s i u r))"
  by (auto simp: SetOrgMember_def org_ok_def org_key_Some intro!: members_ok_set split: option.split)

lemma RemoveOrgMember_ok: "org_ok s \<Longrightarrow> org_ok (snd (RemoveOrgMember s i u))"
  by (auto simp: RemoveOrgMember_def org_ok_def Let_def intro!: members_ok_unset split: option.split)

lemma CreateOrgInvite_ok: "org_ok s \<Longrightarrow> org_ok (snd (CreateOrgInvite now s i e r b h t))"
  by (auto simp: CreateOrgInvite_def org_ok_def Let_def intro!: invites_ok_create split: option.split)

lemma RevokeOrgInvite_ok: "org_ok s \<Longrightarrow> org_ok (snd (RevokeOrgInvite s i j))"
  by (auto simp: RevokeOrgInvite_def org_ok_def intro: table_intros split: option.split)

lemma ConsumeOrgInvite_ok: "org_ok s \<Longrightarrow> org_ok (snd (ConsumeOrgInvite now s h))"
  by (auto simp: ConsumeOrgInvite_def org_ok_def intro: table_intros split: option.split)

lemma CreateOrgGroup_ok:
  assumes "org_ok s" and "dir_ok s"
  shows "org_ok (snd (CreateOrgGroup now s i nm d))" and "dir_ok (snd (CreateOrgGroup now s i nm d))"
  using assms
  by (auto simp: CreateOrgGroup_def org_ok_def dir_ok_def org_key_Some Let_def
      intro!: group_refs_ok_groups groups_ok_insert split: option.split)

lemma CreateOrgAPIKey_ok: "dir_ok s \<Longrightarrow> dir_ok (snd (CreateOrgAPIKey now s i nm gs sc p h t))"
  by (auto simp: CreateOrgAPIKey_def intro: insert_apikey_ok split: option.split)

lemma sets_ok_drop_groups [table_intros]:
  "sets_ok m \<Longrightarrow> sets_ok (mmap (drop_groups p) m)"
  "sets_ok m \<Longrightarrow> sets_ok (mmod k (drop_groups p) m)"
  by (auto simp: sets_ok_def drop_groups_def)

lemma DeleteOrg_dir_ok: "dir_ok s \<Longrightarrow> dir_ok (snd (DeleteOrg s i))"
  by (auto simp: DeleteOrg_def dir_ok_def groups_ok_def apikeys_ok_def Let_def intro!: table_intros
      split: option.split)

lemma RemoveOrgMember_dir_ok: "dir_ok s \<Longrightarrow> dir_ok (snd (RemoveOrgMember s i u))"
  by (auto simp: RemoveOrgMember_def dir_ok_def Let_def intro!: table_intros split: option.split)

end
