(* ===== verification/MemSessions.thy ===== *)
theory MemSessions
  imports MemState
begin

text \<open>
  The revocable sessions and the second factor of the in-memory store
  (\<open>store/memory/sessions.go\<close>, \<open>store/memory/twofactor.go\<close>): session rows with their
  tombstones, TOTP enrolments with the highest step used, and recovery codes.
\<close>

section \<open>Sessions\<close>

definition pruneSessionsLocked :: "time \<Rightarrow> store \<Rightarrow> store" where
  "pruneSessionsLocked now s =
     s\<lparr>st_sessions := mprune (\<lambda>_ r. sr_ExpiresAt (s_rec r) < now) (st_sessions s)\<rparr>"

definition RecordSession :: "time \<Rightarrow> store \<Rightarrow> SessionRecord \<Rightarrow> unit result \<times> store" where
  "RecordSession now s rec =
     (let s1 = pruneSessionsLocked now s
      in (Ok (), s1\<lparr>st_sessions := mput (sr_SID rec) \<lparr>s_rec = rec, s_revoked = False\<rparr> (st_sessions s1)\<rparr>))"

definition IsRevoked :: "store \<Rightarrow> string \<Rightarrow> bool result" where
  "IsRevoked s sid = (case mget (st_sessions s) sid of
     Some r \<Rightarrow> Ok (s_revoked r) | None \<Rightarrow> Ok True)"

definition RevokeSession :: "store \<Rightarrow> string \<Rightarrow> unit result \<times> store" where
  "RevokeSession s sid =
     (Ok (), s\<lparr>st_sessions := mmod sid (\<lambda>r. r\<lparr>s_revoked := True\<rparr>) (st_sessions s)\<rparr>)"

definition RevokeAllForUser :: "store \<Rightarrow> string \<Rightarrow> unit result \<times> store" where
  "RevokeAllForUser s subject =
     (Ok (), s\<lparr>st_sessions := mmap (\<lambda>r. if sr_Subject (s_rec r) = subject
        then r\<lparr>s_revoked := True\<rparr> else r) (st_sessions s)\<rparr>)"

definition ListSessionsForUser :: "time \<Rightarrow> store \<Rightarrow> string \<Rightarrow> SessionRecord list result" where
  "ListSessionsForUser now s subject = Ok (sort_by (\<lambda>a b. sr_CreatedAt b < sr_CreatedAt a)
     (map s_rec (filter (\<lambda>r. sr_Subject (s_rec r) = subject \<and> \<not> s_revoked r \<and>
        now < sr_ExpiresAt (s_rec r)) (mvals (st_sessions s)))))"

section \<open>TOTP\<close>

definition TOTP :: "store \<Rightarrow> string \<Rightarrow> TOTPInfo result" where
  "TOTP s userID = (case parseID userID of
     None \<Rightarrow> Err ErrNoCredential
   | Some n \<Rightarrow> (case mget (st_totp s) n of
       None \<Rightarrow> Err ErrNoCredential
     | Some r \<Rightarrow> Ok \<lparr>ti_Secret = r_secret r, ti_Enabled = r_enabled r, ti_LastStep = r_lastStep r\<rparr>))"

definition SetTOTPSecret :: "store \<Rightarrow> string \<Rightarrow> string \<Rightarrow> unit result \<times> store" where
  "SetTOTPSecret s userID secret = (case parseID userID of
     None \<Rightarrow> (Ok (), s)
   | Some n \<Rightarrow> (Ok (), s\<lparr>st_totp :=
       mput n \<lparr>r_secret = secret, r_enabled = False, r_lastStep = 0\<rparr> (st_totp s)\<rparr>))"

definition EnableTOTP :: "store \<Rightarrow> string \<Rightarrow> unit result \<times> store" where
  "EnableTOTP s userID = (case parseID userID of
     None \<Rightarrow> (Ok (), s)
   | Some n \<Rightarrow> (Ok (), s\<lparr>st_totp := mmod n (\<lambda>r. r\<lparr>r_enabled := True\<rparr>) (st_totp s)\<rparr>))"

definition DisableTOTP :: "store \<Rightarrow> string \<Rightarrow> unit result \<times> store" where
  "DisableTOTP s userID = (case parseID userID of
     None \<Rightarrow> (Ok (), s)
   | Some n \<Rightarrow> (Ok (), s\<lparr>st_totp := mdel n (st_totp s), st_recovery := mdel n (st_recovery s)\<rparr>))"

definition SetTOTPLastStep :: "store \<Rightarrow> string \<Rightarrow> 64 word \<Rightarrow> unit result \<times> store" where
  "SetTOTPLastStep s userID step = (case parseID userID of
     None \<Rightarrow> (Ok (), s)
   | Some n \<Rightarrow> (Ok (), s\<lparr>st_totp := mmod n (\<lambda>r. r\<lparr>r_lastStep := step\<rparr>) (st_totp s)\<rparr>))"

definition ClaimTOTPStep :: "store \<Rightarrow> string \<Rightarrow> 64 word \<Rightarrow> bool result \<times> store" where
  "ClaimTOTPStep s userID step = (case parseID userID of
     None \<Rightarrow> (Err ErrNoCredential, s)
   | Some n \<Rightarrow> (case mget (st_totp s) n of
       None \<Rightarrow> (Err ErrNoCredential, s)
     | Some r \<Rightarrow>
         if step \<le> r_lastStep r then (Ok False, s)
         else (Ok True, s\<lparr>st_totp := mmod n (\<lambda>r. r\<lparr>r_lastStep := step\<rparr>) (st_totp s)\<rparr>)))"

section \<open>Recovery codes\<close>

text \<open>The loop that builds the set of hex strings.\<close>

definition code_set :: "bytes list \<Rightarrow> string list" where
  "code_set hashes = foldl (\<lambda>set h. List.insert (hex_encode h) set) [] hashes"

definition ReplaceRecoveryCodes :: "store \<Rightarrow> string \<Rightarrow> bytes list \<Rightarrow> unit result \<times> store" where
  "ReplaceRecoveryCodes s userID hashes = (case parseID userID of
     None \<Rightarrow> (Ok (), s)
   | Some n \<Rightarrow> (Ok (), s\<lparr>st_recovery := mput n (code_set hashes) (st_recovery s)\<rparr>))"

definition ConsumeRecoveryCode :: "store \<Rightarrow> string \<Rightarrow> bytes \<Rightarrow> bool result \<times> store" where
  "ConsumeRecoveryCode s userID hash = (case parseID userID of
     None \<Rightarrow> (Ok False, s)
   | Some n \<Rightarrow>
       let key = hex_encode hash in
       if key \<in> set (sget (st_recovery s) n)
       then (Ok True, s\<lparr>st_recovery := mmod n (removeAll key) (st_recovery s)\<rparr>)
       else (Ok False, s))"

definition RecoveryCodesRemaining :: "store \<Rightarrow> string \<Rightarrow> nat result" where
  "RecoveryCodesRemaining s userID = (case parseID userID of
     None \<Rightarrow> Ok 0 | Some n \<Rightarrow> Ok (length (sget (st_recovery s) n)))"

section \<open>The invariant\<close>

definition sessions_ok :: "(string, sessionRec) gomap \<Rightarrow> bool" where
  "sessions_ok m \<longleftrightarrow> keys_ok m \<and> (\<forall>k r. mget m k = Some r \<longrightarrow> sr_SID (s_rec r) = k)"

definition tfa_ok :: "store \<Rightarrow> bool" where
  "tfa_ok s \<longleftrightarrow> sessions_ok (st_sessions s) \<and> keys_ok (st_totp s) \<and> keys_ok (st_recovery s) \<and>
     (\<forall>n. distinct (sget (st_recovery s) n))"

lemma sessions_ok_keys: "sessions_ok m \<Longrightarrow> keys_ok m"
  by (simp add: sessions_ok_def)

lemma sessions_ok_put [table_intros]:
  "sessions_ok m \<Longrightarrow> sr_SID (s_rec r) = k \<Longrightarrow> sessions_ok (mput k r m)"
  by (auto simp: sessions_ok_def intro: keys_intros split: if_splits)

lemma sessions_ok_write [table_intros]:
  "sessions_ok m \<Longrightarrow> (\<And>r. s_rec (f r) = s_rec r) \<Longrightarrow> sessions_ok (mmap f m)"
  "sessions_ok m \<Longrightarrow> (\<And>r. s_rec (f r) = s_rec r) \<Longrightarrow> sessions_ok (mmod k f m)"
  by (auto simp: sessions_ok_def split: if_splits)

lemma sessions_ok_prune [table_intros]: "sessions_ok m \<Longrightarrow> sessions_ok (mprune p m)"
  by (auto simp: sessions_ok_def mget_mprune intro: keys_intros split: option.splits if_splits)

lemma revoke_of_rec [simp]: "s_rec (if c then r\<lparr>s_revoked := True\<rparr> else r) = s_rec r"
  by simp

lemma foldl_insert_distinct: "distinct acc \<Longrightarrow> distinct (foldl (\<lambda>a h. List.insert (f h) a) acc hs)"
  by (induction hs arbitrary: acc) auto

lemma foldl_insert_set: "set (foldl (\<lambda>a h. List.insert (f h) a) acc hs) = set acc \<union> f ` set hs"
  by (induction hs arbitrary: acc) auto

lemma code_set_simps [simp]: "distinct (code_set hs)" "set (code_set hs) = hex_encode ` set hs"
  by (simp_all add: code_set_def foldl_insert_distinct foldl_insert_set)

lemma tfa_ok_New [simp]: "tfa_ok New"
  by (simp add: tfa_ok_def New_def sessions_ok_def)

lemma session_ops_ok:
  assumes "tfa_ok s"
  shows RecordSession_ok: "tfa_ok (snd (RecordSession now s rec))"
    and RevokeSession_ok: "tfa_ok (snd (RevokeSession s sid))"
    and RevokeAllForUser_ok: "tfa_ok (snd (RevokeAllForUser s sub))"
  using assms
  by (auto simp: tfa_ok_def RecordSession_def pruneSessionsLocked_def RevokeSession_def
      RevokeAllForUser_def Let_def intro!: table_intros)

lemma totp_ops_ok:
  assumes "tfa_ok s"
  shows SetTOTPSecret_ok: "tfa_ok (snd (SetTOTPSecret s u secret))"
    and EnableTOTP_ok: "tfa_ok (snd (EnableTOTP s u))"
    and DisableTOTP_ok: "tfa_ok (snd (DisableTOTP s u))"
    and SetTOTPLastStep_ok: "tfa_ok (snd (SetTOTPLastStep s u step))"
    and ClaimTOTPStep_ok: "tfa_ok (snd (ClaimTOTPStep s u step))"
  using assms
  by (auto simp: tfa_ok_def SetTOTPSecret_def EnableTOTP_def DisableTOTP_def SetTOTPLastStep_def
      ClaimTOTPStep_def intro: keys_intros split: option.split)

lemma recovery_ops_ok:
  assumes "tfa_ok s"
  shows ReplaceRecoveryCodes_ok: "tfa_ok (snd (ReplaceRecoveryCodes s u hs))"
    and ConsumeRecoveryCode_ok: "tfa_ok (snd (ConsumeRecoveryCode s u h))"
  using assms
  by (auto simp: tfa_ok_def ReplaceRecoveryCodes_def ConsumeRecoveryCode_def Let_def
      distinct_removeAll intro: keys_intros split: option.split)

end
