(* ===== verification/MemOAuth.thy ===== *)
theory MemOAuth
  imports MemState
begin

text \<open>
  The OAuth provider's persistence in the in-memory store (\<open>store/memory/oauth.go\<close>):
  clients, authorization requests, grants, access and refresh tokens, signing keys, and the
  periodic cleanup. The \<open>clone\<close> functions copy what goes in and out, so that no caller
  aliases a stored row; values are immutable here, so they are the identity and
  \<open>initOAuthLocked\<close>, which creates the maps, has nothing to do.
\<close>

section \<open>Clients and the deletion cascades\<close>

definition CreateOAuthClient :: "store \<Rightarrow> OAuthClient \<Rightarrow> unit result \<times> store" where
  "CreateOAuthClient s c =
     (if mget (st_oauthClients s) (oc_ID c) \<noteq> None then (Err ErrDuplicateOAuth, s)
      else (Ok (), s\<lparr>st_oauthClients := mput (oc_ID c) c (st_oauthClients s)\<rparr>))"

definition OAuthClient_get :: "store \<Rightarrow> string \<Rightarrow> OAuthClient result" where
  "OAuthClient_get s i = (case mget (st_oauthClients s) i of
     None \<Rightarrow> Err ErrOAuthNotFound | Some c \<Rightarrow> Ok c)"

definition TouchOAuthClient :: "store \<Rightarrow> string \<Rightarrow> time \<Rightarrow> unit result \<times> store" where
  "TouchOAuthClient s i at = (case mget (st_oauthClients s) i of
     None \<Rightarrow> (Err ErrOAuthNotFound, s)
   | Some _ \<Rightarrow> (Ok (), s\<lparr>st_oauthClients :=
       mmod i (\<lambda>c. c\<lparr>oc_LastUsedAt := at\<rparr>) (st_oauthClients s)\<rparr>))"

definition deleteGrantLocked :: "string \<Rightarrow> store \<Rightarrow> store" where
  "deleteGrantLocked i s = s\<lparr>
     st_oauthGrants := mdel i (st_oauthGrants s),
     st_oauthAccess := mprune (\<lambda>_ t. oa_GrantID t = i) (st_oauthAccess s),
     st_oauthRefresh := mprune (\<lambda>_ t. ot_GrantID t = i) (st_oauthRefresh s)\<rparr>"

text \<open>
  A loop over a map that deletes entries it visits: the keys whose entry satisfies the test,
  in the order of the map.
\<close>

definition keys_with :: "('v \<Rightarrow> bool) \<Rightarrow> ('k, 'v) gomap \<Rightarrow> 'k list" where
  "keys_with p m = map fst (filter (\<lambda>e. p (snd e)) m)"

definition deleteClientLocked :: "string \<Rightarrow> store \<Rightarrow> store" where
  "deleteClientLocked i s =
     (let s1 = s\<lparr>st_oauthClients := mdel i (st_oauthClients s),
                 st_oauthRequests := mprune (\<lambda>_ r. or_ClientID r = i) (st_oauthRequests s)\<rparr>;
          s2 = fold deleteGrantLocked (keys_with (\<lambda>g. og_ClientID g = i) (st_oauthGrants s1)) s1
      in s2\<lparr>st_oauthAccess := mprune (\<lambda>_ t. oa_ClientID t = i) (st_oauthAccess s2),
            st_oauthRefresh := mprune (\<lambda>_ t. ot_ClientID t = i) (st_oauthRefresh s2)\<rparr>)"

definition DeleteOAuthClient :: "store \<Rightarrow> string \<Rightarrow> unit result \<times> store" where
  "DeleteOAuthClient s i = (Ok (), deleteClientLocked i s)"

section \<open>Authorization requests\<close>

definition SaveOAuthAuthRequest :: "store \<Rightarrow> OAuthAuthRequest \<Rightarrow> unit result \<times> store" where
  "SaveOAuthAuthRequest s r =
     (Ok (), s\<lparr>st_oauthRequests := mput (or_ID r) r (st_oauthRequests s)\<rparr>)"

definition OAuthAuthRequest_get :: "store \<Rightarrow> string \<Rightarrow> OAuthAuthRequest result" where
  "OAuthAuthRequest_get s i = (case mget (st_oauthRequests s) i of
     None \<Rightarrow> Err ErrOAuthNotFound | Some r \<Rightarrow> Ok r)"

definition OAuthAuthRequestByCode :: "store \<Rightarrow> string \<Rightarrow> OAuthAuthRequest result" where
  "OAuthAuthRequestByCode s codeHash =
     (if codeHash = [] then Err ErrOAuthNotFound
      else case mfind (\<lambda>r. or_CodeHash r = codeHash) (st_oauthRequests s) of
        Some r \<Rightarrow> Ok r | None \<Rightarrow> Err ErrOAuthNotFound)"

definition DeleteOAuthAuthRequest :: "store \<Rightarrow> string \<Rightarrow> unit result \<times> store" where
  "DeleteOAuthAuthRequest s i = (Ok (), s\<lparr>st_oauthRequests := mdel i (st_oauthRequests s)\<rparr>)"

section \<open>Grants\<close>

definition CreateOAuthGrant :: "store \<Rightarrow> OAuthGrant \<Rightarrow> unit result \<times> store" where
  "CreateOAuthGrant s g =
     (if mget (st_oauthGrants s) (og_ID g) \<noteq> None then (Err ErrDuplicateOAuth, s)
      else (Ok (), s\<lparr>st_oauthGrants := mput (og_ID g) g (st_oauthGrants s)\<rparr>))"

definition OAuthGrant_get :: "store \<Rightarrow> string \<Rightarrow> OAuthGrant result" where
  "OAuthGrant_get s i = (case mget (st_oauthGrants s) i of
     None \<Rightarrow> Err ErrOAuthNotFound | Some g \<Rightarrow> Ok g)"

text \<open>The test that makes the loop of \<open>RevokeOAuthGrants\<close> \<open>continue\<close>.\<close>

definition grant_skipped :: "OAuthGrantFilter \<Rightarrow> OAuthGrant \<Rightarrow> bool" where
  "grant_skipped f g \<longleftrightarrow> og_RevokedAt g \<noteq> None \<or>
     (gf_ID f \<noteq> [] \<and> og_ID g \<noteq> gf_ID f) \<or> (gf_Ref f \<noteq> [] \<and> og_Ref g \<noteq> gf_Ref f) \<or>
     (gf_ClientID f \<noteq> [] \<and> og_ClientID g \<noteq> gf_ClientID f) \<or>
     (gf_Subject f \<noteq> [] \<and> og_Subject g \<noteq> gf_Subject f)"

definition RevokeOAuthGrants :: "store \<Rightarrow> OAuthGrantFilter \<Rightarrow> time \<Rightarrow> nat result \<times> store" where
  "RevokeOAuthGrants s f at =
     (if filter_Empty f then (Ok 0, s)
      else (Ok (length (filter (\<lambda>g. \<not> grant_skipped f g) (mvals (st_oauthGrants s)))),
        s\<lparr>st_oauthGrants := mmap (\<lambda>g. if grant_skipped f g then g else g\<lparr>og_RevokedAt := Some at\<rparr>)
            (st_oauthGrants s)\<rparr>))"

section \<open>Access and refresh tokens\<close>

definition CreateOAuthAccessToken :: "store \<Rightarrow> OAuthAccessToken \<Rightarrow> unit result \<times> store" where
  "CreateOAuthAccessToken s t =
     (if mget (st_oauthAccess s) (oa_ID t) \<noteq> None then (Err ErrDuplicateOAuth, s)
      else (Ok (), s\<lparr>st_oauthAccess := mput (oa_ID t) t (st_oauthAccess s)\<rparr>))"

definition OAuthAccessToken_get :: "store \<Rightarrow> string \<Rightarrow> OAuthAccessToken result" where
  "OAuthAccessToken_get s i = (case mget (st_oauthAccess s) i of
     None \<Rightarrow> Err ErrOAuthNotFound | Some t \<Rightarrow> Ok t)"

definition DeleteOAuthAccessToken :: "store \<Rightarrow> string \<Rightarrow> unit result \<times> store" where
  "DeleteOAuthAccessToken s i = (Ok (), s\<lparr>st_oauthAccess := mdel i (st_oauthAccess s)\<rparr>)"

definition CreateOAuthRefreshToken :: "store \<Rightarrow> OAuthRefreshToken \<Rightarrow> unit result \<times> store" where
  "CreateOAuthRefreshToken s t =
     (if mget (st_oauthRefresh s) (ot_Hash t) \<noteq> None then (Err ErrDuplicateOAuth, s)
      else (Ok (), s\<lparr>st_oauthRefresh := mput (ot_Hash t) t (st_oauthRefresh s)\<rparr>))"

definition OAuthRefreshToken_get :: "store \<Rightarrow> string \<Rightarrow> OAuthRefreshToken result" where
  "OAuthRefreshToken_get s h = (case mget (st_oauthRefresh s) h of
     None \<Rightarrow> Err ErrOAuthNotFound | Some t \<Rightarrow> Ok t)"

definition UseOAuthRefreshToken :: "store \<Rightarrow> string \<Rightarrow> time \<Rightarrow> unit result \<times> store" where
  "UseOAuthRefreshToken s h at = (case mget (st_oauthRefresh s) h of
     None \<Rightarrow> (Err ErrOAuthNotFound, s)
   | Some t \<Rightarrow>
       if ot_UsedAt t \<noteq> None then (Err ErrOAuthTokenUsed, s)
       else (Ok (), s\<lparr>st_oauthRefresh :=
         mmod h (\<lambda>t. t\<lparr>ot_UsedAt := Some at\<rparr>) (st_oauthRefresh s)\<rparr>))"

section \<open>Signing keys\<close>

definition OAuthSigningKeys :: "store \<Rightarrow> OAuthSigningKey list result" where
  "OAuthSigningKeys s = Ok (sort_by (\<lambda>a b. ok_CreatedAt a < ok_CreatedAt b) (st_oauthKeys s))"

fun put_key :: "OAuthSigningKey \<Rightarrow> OAuthSigningKey list \<Rightarrow> OAuthSigningKey list" where
  "put_key k [] = [k]"
| "put_key k (x # xs) = (if ok_ID x = ok_ID k then k # xs else x # put_key k xs)"

definition AddOAuthSigningKey :: "store \<Rightarrow> OAuthSigningKey \<Rightarrow> unit result \<times> store" where
  "AddOAuthSigningKey s k = (Ok (), s\<lparr>st_oauthKeys := put_key k (st_oauthKeys s)\<rparr>)"

fun retire_key ::
  "string \<Rightarrow> time \<Rightarrow> OAuthSigningKey list \<Rightarrow> unit result \<times> OAuthSigningKey list" where
  "retire_key i at [] = (Err ErrOAuthNotFound, [])"
| "retire_key i at (k # ks) =
     (if ok_ID k = i then
        (Ok (), (if ok_RetiredAt k = None then k\<lparr>ok_RetiredAt := Some at\<rparr> else k) # ks)
      else case retire_key i at ks of (r, ks') \<Rightarrow> (r, k # ks'))"

definition RetireOAuthSigningKey :: "store \<Rightarrow> string \<Rightarrow> time \<Rightarrow> unit result \<times> store" where
  "RetireOAuthSigningKey s i at = (case retire_key i at (st_oauthKeys s) of
     (r, ks) \<Rightarrow> (r, s\<lparr>st_oauthKeys := ks\<rparr>))"

definition DeleteOAuthSigningKey :: "store \<Rightarrow> string \<Rightarrow> unit result \<times> store" where
  "DeleteOAuthSigningKey s i =
     (Ok (), s\<lparr>st_oauthKeys := filter (\<lambda>k. ok_ID k \<noteq> i) (st_oauthKeys s)\<rparr>)"

section \<open>Cleanup\<close>

definition grant_expired :: "time \<Rightarrow> OAuthGrant \<Rightarrow> bool" where
  "grant_expired now g \<longleftrightarrow>
     (case og_RevokedAt g of None \<Rightarrow> False | Some t \<Rightarrow> t < now) \<or>
     (og_ExpiresAt g \<noteq> 0 \<and> og_ExpiresAt g < now)"

definition client_stale :: "time \<Rightarrow> OAuthClient \<Rightarrow> bool" where
  "client_stale clientsBefore c \<longleftrightarrow>
     (let lst = (if oc_LastUsedAt c = 0 then oc_CreatedAt c else oc_LastUsedAt c)
      in oc_Dynamic c \<and> lst < clientsBefore)"

definition DeleteExpiredOAuth :: "store \<Rightarrow> time \<Rightarrow> time \<Rightarrow> time \<Rightarrow> unit result \<times> store" where
  "DeleteExpiredOAuth s now requestsBefore clientsBefore =
     (let s1 = s\<lparr>st_oauthRequests := mprune (\<lambda>_ r. or_CreatedAt r < requestsBefore) (st_oauthRequests s),
                 st_oauthAccess := mprune (\<lambda>_ t. oa_ExpiresAt t < now) (st_oauthAccess s),
                 st_oauthRefresh := mprune (\<lambda>_ t. ot_ExpiresAt t < now) (st_oauthRefresh s)\<rparr>;
          s2 = fold deleteGrantLocked (keys_with (grant_expired now) (st_oauthGrants s1)) s1;
          s3 = fold deleteClientLocked (keys_with (client_stale clientsBefore) (st_oauthClients s2)) s2
      in (Ok (), s3))"

section \<open>The invariant\<close>

text \<open>Every row is stored under the identifier it carries.\<close>

definition keyed :: "('v \<Rightarrow> 'k) \<Rightarrow> ('k, 'v) gomap \<Rightarrow> bool" where
  "keyed f m \<longleftrightarrow> keys_ok m \<and> (\<forall>k v. mget m k = Some v \<longrightarrow> f v = k)"

definition oauth_ok :: "store \<Rightarrow> bool" where
  "oauth_ok s \<longleftrightarrow> keyed oc_ID (st_oauthClients s) \<and> keyed or_ID (st_oauthRequests s) \<and>
     keyed og_ID (st_oauthGrants s) \<and> keyed oa_ID (st_oauthAccess s) \<and>
     keyed ot_Hash (st_oauthRefresh s) \<and> distinct (map ok_ID (st_oauthKeys s))"

lemma keyed_Nil [simp]: "keyed f []"
  by (simp add: keyed_def)

lemma keyed_keys: "keyed f m \<Longrightarrow> keys_ok m"
  by (simp add: keyed_def)

lemma keyed_intros [table_intros]:
  "keyed f m \<Longrightarrow> f v = k \<Longrightarrow> keyed f (mput k v m)"
  "keyed f m \<Longrightarrow> keyed f (mdel k m)"
  "keyed f m \<Longrightarrow> keyed f (mprune p m)"
  "keyed f m \<Longrightarrow> (\<And>v. f (h v) = f v) \<Longrightarrow> keyed f (mmod k h m)"
  "keyed f m \<Longrightarrow> (\<And>v. f (h v) = f v) \<Longrightarrow> keyed f (mmap h m)"
  by (auto simp: keyed_def mget_mprune intro: keys_intros split: if_splits option.splits)

lemma oauth_ok_New [simp]: "oauth_ok New"
  by (simp add: oauth_ok_def New_def)

lemma deleteGrantLocked_ok: "oauth_ok s \<Longrightarrow> oauth_ok (deleteGrantLocked i s)"
  by (auto simp: oauth_ok_def deleteGrantLocked_def intro: table_intros)

lemma fold_ok: "P s \<Longrightarrow> (\<And>x s. P s \<Longrightarrow> P (f x s)) \<Longrightarrow> P (fold f xs s)"
  by (induction xs arbitrary: s) auto

lemma deleteClientLocked_ok:
  assumes "oauth_ok s"
  shows "oauth_ok (deleteClientLocked i s)"
proof -
  let ?s1 = "s\<lparr>st_oauthClients := mdel i (st_oauthClients s),
      st_oauthRequests := mprune (\<lambda>_ r. or_ClientID r = i) (st_oauthRequests s)\<rparr>"
  have "oauth_ok ?s1" using assms by (auto simp: oauth_ok_def intro: table_intros)
  then have "oauth_ok (fold deleteGrantLocked ks ?s1)" for ks
    by (rule fold_ok) (rule deleteGrantLocked_ok)
  then show ?thesis
    by (auto simp: deleteClientLocked_def Let_def oauth_ok_def intro: table_intros)
qed

lemma ok_ID_put_key [simp]: "ok_ID ` set (put_key k ks) = insert (ok_ID k) (ok_ID ` set ks)"
  by (induction ks) auto

lemma distinct_put_key: "distinct (map ok_ID ks) \<Longrightarrow> distinct (map ok_ID (put_key k ks))"
  by (induction ks) auto

lemma retire_key_ids: "map ok_ID (snd (retire_key i at ks)) = map ok_ID ks"
  by (induction ks) (auto split: prod.split)

lemma oauth_ops_ok:
  assumes "oauth_ok s"
  shows CreateOAuthClient_ok: "oauth_ok (snd (CreateOAuthClient s c))"
    and TouchOAuthClient_ok: "oauth_ok (snd (TouchOAuthClient s i at))"
    and DeleteOAuthClient_ok: "oauth_ok (snd (DeleteOAuthClient s i))"
    and SaveOAuthAuthRequest_ok: "oauth_ok (snd (SaveOAuthAuthRequest s r))"
    and DeleteOAuthAuthRequest_ok: "oauth_ok (snd (DeleteOAuthAuthRequest s i))"
    and CreateOAuthGrant_ok: "oauth_ok (snd (CreateOAuthGrant s g))"
    and RevokeOAuthGrants_ok: "oauth_ok (snd (RevokeOAuthGrants s f at))"
  using assms deleteClientLocked_ok [OF assms]
  by (auto simp: CreateOAuthClient_def TouchOAuthClient_def DeleteOAuthClient_def
      SaveOAuthAuthRequest_def DeleteOAuthAuthRequest_def CreateOAuthGrant_def
      RevokeOAuthGrants_def oauth_ok_def intro!: table_intros split: option.split)

lemma oauth_token_ops_ok:
  assumes "oauth_ok s"
  shows CreateOAuthAccessToken_ok: "oauth_ok (snd (CreateOAuthAccessToken s t))"
    and DeleteOAuthAccessToken_ok: "oauth_ok (snd (DeleteOAuthAccessToken s i))"
    and CreateOAuthRefreshToken_ok: "oauth_ok (snd (CreateOAuthRefreshToken s t'))"
    and UseOAuthRefreshToken_ok: "oauth_ok (snd (UseOAuthRefreshToken s h at))"
    and AddOAuthSigningKey_ok: "oauth_ok (snd (AddOAuthSigningKey s k))"
    and RetireOAuthSigningKey_ok: "oauth_ok (snd (RetireOAuthSigningKey s i at))"
    and DeleteOAuthSigningKey_ok: "oauth_ok (snd (DeleteOAuthSigningKey s i))"
  using assms retire_key_ids [of i at "st_oauthKeys s"]
  by (auto simp: CreateOAuthAccessToken_def DeleteOAuthAccessToken_def CreateOAuthRefreshToken_def
      UseOAuthRefreshToken_def AddOAuthSigningKey_def RetireOAuthSigningKey_def
      DeleteOAuthSigningKey_def oauth_ok_def distinct_put_key distinct_map_filter
      intro!: table_intros split: option.split prod.split)

lemma DeleteExpiredOAuth_ok:
  assumes "oauth_ok s"
  shows "oauth_ok (snd (DeleteExpiredOAuth s now rb cb))"
proof -
  let ?s1 = "s\<lparr>st_oauthRequests := mprune (\<lambda>_ r. or_CreatedAt r < rb) (st_oauthRequests s),
      st_oauthAccess := mprune (\<lambda>_ t. oa_ExpiresAt t < now) (st_oauthAccess s),
      st_oauthRefresh := mprune (\<lambda>_ t. ot_ExpiresAt t < now) (st_oauthRefresh s)\<rparr>"
  have s1: "oauth_ok ?s1" using assms by (auto simp: oauth_ok_def intro: table_intros)
  have s2: "oauth_ok (fold deleteGrantLocked ks ?s1)" for ks
    using s1 by (rule fold_ok) (rule deleteGrantLocked_ok)
  have "oauth_ok (fold deleteClientLocked js (fold deleteGrantLocked ks ?s1))" for js ks
    using s2 by (rule fold_ok) (rule deleteClientLocked_ok)
  then show ?thesis by (simp add: DeleteExpiredOAuth_def Let_def)
qed

end
