(* ===== verification/MemTrace.thy ===== *)
theory MemTrace
  imports MemOrgs MemSessions MemOAuth
begin

text \<open>
  The in-memory store as a state machine: one rule per method that changes the state, grouped
  by the file it is in, with an event for the calls that issue or spend a secret. The store's
  mutex makes each call one step, so a trace is any interleaving of calls of any number of
  goroutines. The total invariant \<open>store_ok\<close> holds in every reachable state.
\<close>

section \<open>Events and steps\<close>

datatype event =
    Silent
  | TokenIssued string bytes
  | TokenRedeemed string bytes
  | CodeIssued string int
  | CodeGuessed string bool
  | InviteIssued bytes
  | InviteUsed bytes
  | RefreshIssued string
  | RefreshUsed string
  | RecoverySet nat
  | RecoveryUsed nat bytes
  | TOTPReset nat
  | StepClaimed nat "64 word"
  | SessionRecorded string

text \<open>
  \<open>memory.go\<close>. The random identifier of a new local user is assumed fresh: it is 128 random
  bits (\<open>randID\<close>).
\<close>

inductive cred_step :: "store \<Rightarrow> event \<Rightarrow> store \<Rightarrow> bool" where
  CreateLocalUser: "findBySub s (''local:'' @ rid) = None \<Longrightarrow>
     cred_step s Silent (snd (CreateLocalUser now rid s e nm))"
| SetEmailVerified: "cred_step s Silent (snd (SetEmailVerified now s u v))"
| EnsureWebauthnHandle: "cred_step s Silent (snd (EnsureWebauthnHandle h s u))"
| SetEmail: "cred_step s Silent (snd (SetEmail now s u e))"
| AddPasskey: "cred_step s Silent (snd (AddPasskey now s u p))"
| TouchPasskey: "cred_step s Silent (snd (TouchPasskey now s c n))"
| RemovePasskey: "cred_step s Silent (snd (RemovePasskey s u i))"
| RenamePasskey: "cred_step s Silent (snd (RenamePasskey s u i nm))"
| SetPasswordHash: "cred_step s Silent (snd (SetPasswordHash s u h a))"
| LinkOAuth: "cred_step s Silent (snd (LinkOAuth s u prov subj e))"
| UnlinkOAuth: "cred_step s Silent (snd (UnlinkOAuth s u prov))"
| CreateToken: "cred_step s (TokenIssued p h) (snd (CreateToken s p u e h t))"
| ConsumeToken_Ok: "ConsumeToken now s p h = (Ok c, s') \<Longrightarrow> cred_step s (TokenRedeemed p h) s'"
| ConsumeToken_Err: "ConsumeToken now s p h = (Err er, s') \<Longrightarrow> cred_step s Silent s'"
| CreateEmailOTP: "cred_step s (CodeIssued (otp_key p e) m) (snd (CreateEmailOTP s p e h t m))"
| VerifyEmailOTP: "mget (st_otps s) (otp_key p e) = Some oo \<Longrightarrow> now \<le> e_expiresAt oo \<Longrightarrow>
     VerifyEmailOTP now s p e h = (r, s') \<Longrightarrow>
     cred_step s (CodeGuessed (otp_key p e) (r = Ok \<lparr>tc_UserID = [], tc_Email = norm e\<rparr>)) s'"
| VerifyEmailOTP_dead: "(case mget (st_otps s) (otp_key p e) of
       None \<Rightarrow> True | Some oo \<Rightarrow> e_expiresAt oo < now) \<Longrightarrow>
     cred_step s Silent (snd (VerifyEmailOTP now s p e h))"
| RecordAudit: "cred_step s Silent (RecordAudit now s u e b)"
| DeleteUser: "cred_step s Silent (snd (DeleteUser s u))"
| UpsertUserOnLogin: "cred_step s Silent (snd (UpsertUserOnLogin now s sub e nm v))"
| Authorize: "cred_step s Silent (snd (Authorize now s i))"

text \<open>\<open>directory.go\<close> and \<open>orgs.go\<close>\<close>

inductive dir_step :: "store \<Rightarrow> event \<Rightarrow> store \<Rightarrow> bool" where
  CreateGroup: "dir_step s Silent (snd (CreateGroup now s nm d))"
| DeleteGroup: "dir_step s Silent (snd (DeleteGroup s i))"
| AddUserToGroup: "dir_step s Silent (snd (AddUserToGroup s u g))"
| RemoveUserFromGroup: "dir_step s Silent (snd (RemoveUserFromGroup s u g))"
| AddUsersToGroup: "dir_step s Silent (snd (AddUsersToGroup s us g))"
| RemoveUsersFromGroup: "dir_step s Silent (snd (RemoveUsersFromGroup s us g))"
| SetUserDisabled: "dir_step s Silent (snd (SetUserDisabled s u b))"
| SetUserBan: "dir_step s Silent (snd (SetUserBan s u b t rs))"
| CreateAPIKey: "dir_step s Silent (snd (CreateAPIKey now s nm gs sc p h t))"
| RevokeAPIKey: "dir_step s Silent (snd (RevokeAPIKey s i))"
| TouchAPIKey: "dir_step s Silent (snd (TouchAPIKey now s i))"
| CreateOrg: "dir_step s Silent (snd (CreateOrg now s sl nm))"
| RenameOrg: "dir_step s Silent (snd (RenameOrg now s i nm))"
| DeleteOrg: "dir_step s Silent (snd (DeleteOrg s i))"
| SetOrgMember: "dir_step s Silent (snd (SetOrgMember s i u r))"
| RemoveOrgMember: "dir_step s Silent (snd (RemoveOrgMember s i u))"
| CreateOrgInvite: "dir_step s (InviteIssued h) (snd (CreateOrgInvite now s i e r b h t))"
| RevokeOrgInvite: "dir_step s Silent (snd (RevokeOrgInvite s i j))"
| ConsumeOrgInvite_Ok: "ConsumeOrgInvite now s h = (Ok iv, s') \<Longrightarrow> dir_step s (InviteUsed h) s'"
| ConsumeOrgInvite_Err: "ConsumeOrgInvite now s h = (Err er, s') \<Longrightarrow> dir_step s Silent s'"
| CreateOrgGroup: "dir_step s Silent (snd (CreateOrgGroup now s i nm d))"
| CreateOrgAPIKey: "dir_step s Silent (snd (CreateOrgAPIKey now s i nm gs sc p h t))"

text \<open>\<open>sessions.go\<close> and \<open>twofactor.go\<close>\<close>

inductive tfa_step :: "store \<Rightarrow> event \<Rightarrow> store \<Rightarrow> bool" where
  RecordSession: "tfa_step s (SessionRecorded (sr_SID rec)) (snd (RecordSession now s rec))"
| RevokeSession: "tfa_step s Silent (snd (RevokeSession s sid))"
| RevokeAllForUser: "tfa_step s Silent (snd (RevokeAllForUser s sub))"
| SetTOTPSecret: "parseID u = Some n \<Longrightarrow> tfa_step s (TOTPReset n) (snd (SetTOTPSecret s u sec))"
| SetTOTPSecret_none: "parseID u = None \<Longrightarrow> tfa_step s Silent (snd (SetTOTPSecret s u sec))"
| EnableTOTP: "tfa_step s Silent (snd (EnableTOTP s u))"
| DisableTOTP: "tfa_step s Silent (snd (DisableTOTP s u))"
| SetTOTPLastStep: "parseID u = Some n \<Longrightarrow> tfa_step s (TOTPReset n) (snd (SetTOTPLastStep s u w))"
| SetTOTPLastStep_none: "parseID u = None \<Longrightarrow> tfa_step s Silent (snd (SetTOTPLastStep s u w))"
| ClaimTOTPStep_True: "parseID u = Some n \<Longrightarrow> ClaimTOTPStep s u w = (Ok True, s') \<Longrightarrow>
     tfa_step s (StepClaimed n w) s'"
| ClaimTOTPStep_False: "ClaimTOTPStep s u w = (r, s') \<Longrightarrow> r \<noteq> Ok True \<Longrightarrow> tfa_step s Silent s'"
| ReplaceRecoveryCodes: "parseID u = Some n \<Longrightarrow>
     tfa_step s (RecoverySet n) (snd (ReplaceRecoveryCodes s u hs))"
| ReplaceRecoveryCodes_none: "parseID u = None \<Longrightarrow>
     tfa_step s Silent (snd (ReplaceRecoveryCodes s u hs))"
| ConsumeRecoveryCode_True: "parseID u = Some n \<Longrightarrow> ConsumeRecoveryCode s u h = (Ok True, s') \<Longrightarrow>
     tfa_step s (RecoveryUsed n h) s'"
| ConsumeRecoveryCode_False: "ConsumeRecoveryCode s u h = (r, s') \<Longrightarrow> r \<noteq> Ok True \<Longrightarrow>
     tfa_step s Silent s'"

text \<open>\<open>oauth.go\<close>\<close>

inductive oauth_step :: "store \<Rightarrow> event \<Rightarrow> store \<Rightarrow> bool" where
  CreateOAuthClient: "oauth_step s Silent (snd (CreateOAuthClient s c))"
| TouchOAuthClient: "oauth_step s Silent (snd (TouchOAuthClient s i at))"
| DeleteOAuthClient: "oauth_step s Silent (snd (DeleteOAuthClient s i))"
| SaveOAuthAuthRequest: "oauth_step s Silent (snd (SaveOAuthAuthRequest s rq))"
| DeleteOAuthAuthRequest: "oauth_step s Silent (snd (DeleteOAuthAuthRequest s i))"
| CreateOAuthGrant: "oauth_step s Silent (snd (CreateOAuthGrant s g))"
| RevokeOAuthGrants: "oauth_step s Silent (snd (RevokeOAuthGrants s f at))"
| CreateOAuthAccessToken: "oauth_step s Silent (snd (CreateOAuthAccessToken s t))"
| DeleteOAuthAccessToken: "oauth_step s Silent (snd (DeleteOAuthAccessToken s i))"
| CreateOAuthRefreshToken: "ot_UsedAt rt = None \<Longrightarrow>
     oauth_step s (RefreshIssued (ot_Hash rt)) (snd (CreateOAuthRefreshToken s rt))"
| CreateOAuthRefreshToken_used: "ot_UsedAt rt \<noteq> None \<Longrightarrow>
     oauth_step s Silent (snd (CreateOAuthRefreshToken s rt))"
| UseOAuthRefreshToken_Ok: "UseOAuthRefreshToken s h at = (Ok (), s') \<Longrightarrow>
     oauth_step s (RefreshUsed h) s'"
| UseOAuthRefreshToken_Err: "UseOAuthRefreshToken s h at = (Err er, s') \<Longrightarrow> oauth_step s Silent s'"
| AddOAuthSigningKey: "oauth_step s Silent (snd (AddOAuthSigningKey s k))"
| RetireOAuthSigningKey: "oauth_step s Silent (snd (RetireOAuthSigningKey s i at))"
| DeleteOAuthSigningKey: "oauth_step s Silent (snd (DeleteOAuthSigningKey s i))"
| DeleteExpiredOAuth: "oauth_step s Silent (snd (DeleteExpiredOAuth s now rb cb))"

definition mem_step :: "store \<Rightarrow> event \<Rightarrow> store \<Rightarrow> bool" where
  "mem_step s ev s' \<longleftrightarrow> cred_step s ev s' \<or> dir_step s ev s' \<or> tfa_step s ev s' \<or> oauth_step s ev s'"

inductive mem_trace :: "store \<Rightarrow> event list \<Rightarrow> store \<Rightarrow> bool" where
  start: "mem_trace s [] s"
| extend: "mem_trace s evs s' \<Longrightarrow> mem_step s' ev s'' \<Longrightarrow> mem_trace s (evs @ [ev]) s''"

definition reachable :: "store \<Rightarrow> bool" where
  "reachable s \<longleftrightarrow> (\<exists>evs. mem_trace New evs s)"

section \<open>The total invariant\<close>

definition store_ok :: "store \<Rightarrow> bool" where
  "store_ok s \<longleftrightarrow> cred_ok s \<and> dir_ok s \<and> org_ok s \<and> tfa_ok s \<and> oauth_ok s"

lemma store_okD:
  assumes "store_ok s"
  shows store_ok_cred: "cred_ok s" and store_ok_dir: "dir_ok s" and store_ok_org: "org_ok s"
    and store_ok_tfa: "tfa_ok s" and store_ok_oauth: "oauth_ok s"
  using assms by (simp_all add: store_ok_def)

lemma store_ok_New [simp]: "store_ok New"
  by (simp add: store_ok_def)

text \<open>
  Which fields a group of methods leaves alone: the result is the old state with new values in
  the other fields. Each invariant follows from the fields it is stated on.
\<close>

definition cred_frame :: "store \<Rightarrow> store \<Rightarrow> bool" where
  "cred_frame s s' \<longleftrightarrow> s' = s\<lparr>st_seq := st_seq s', st_users := st_users s',
     st_passwords := st_passwords s', st_passkeys := st_passkeys s', st_pkSeq := st_pkSeq s',
     st_oauth := st_oauth s', st_tokens := st_tokens s', st_otps := st_otps s',
     st_audits := st_audits s'\<rparr> \<and>
     (\<forall>k. mget (st_users s) k \<noteq> None \<longrightarrow> mget (st_users s') k \<noteq> None)"

definition dir_frame :: "store \<Rightarrow> store \<Rightarrow> bool" where
  "dir_frame s s' \<longleftrightarrow> s' = s\<lparr>st_users := st_users s', st_groups := st_groups s',
     st_groupSeq := st_groupSeq s', st_memberships := st_memberships s',
     st_apikeys := st_apikeys s', st_apiSeq := st_apiSeq s', st_orgs := st_orgs s',
     st_orgSeq := st_orgSeq s', st_orgMembers := st_orgMembers s',
     st_orgInvites := st_orgInvites s', st_inviteSeq := st_inviteSeq s'\<rparr>"

definition tfa_frame :: "store \<Rightarrow> store \<Rightarrow> bool" where
  "tfa_frame s s' \<longleftrightarrow> s' = s\<lparr>st_sessions := st_sessions s', st_totp := st_totp s',
     st_recovery := st_recovery s'\<rparr>"

definition oauth_frame :: "store \<Rightarrow> store \<Rightarrow> bool" where
  "oauth_frame s s' \<longleftrightarrow> s' = s\<lparr>st_oauthClients := st_oauthClients s',
     st_oauthRequests := st_oauthRequests s', st_oauthGrants := st_oauthGrants s',
     st_oauthAccess := st_oauthAccess s', st_oauthRefresh := st_oauthRefresh s',
     st_oauthKeys := st_oauthKeys s'\<rparr>"

lemma store_ok_cred_frame:
  assumes s: "store_ok s" and f: "cred_frame s s'" and c: "cred_ok s'"
  shows "store_ok s'"
proof -
  obtain x :: store where x: "s' = s\<lparr>st_seq := st_seq x, st_users := st_users x,
     st_passwords := st_passwords x, st_passkeys := st_passkeys x, st_pkSeq := st_pkSeq x,
     st_oauth := st_oauth x, st_tokens := st_tokens x, st_otps := st_otps x,
     st_audits := st_audits x\<rparr>"
    using f [unfolded cred_frame_def, THEN conjunct1] by (rule that)
  have "dir_ok s'" "tfa_ok s'" "oauth_ok s'"
    using s by (simp_all add: x store_ok_def dir_ok_def tfa_ok_def oauth_ok_def)
  moreover have "members_ok (st_users s') (st_orgs s) (st_orgMembers s)"
    using org_ok_members [OF store_ok_org [OF s]]
    by (rule members_ok_mono) (use f [unfolded cred_frame_def] in blast)+
  then have "org_ok s'" using s by (simp add: x store_ok_def org_ok_def)
  ultimately show ?thesis using c by (simp add: store_ok_def)
qed

lemma store_ok_dir_frame:
  assumes s: "store_ok s" and f: "dir_frame s s'"
    and c: "users_ok (st_seq s) (st_users s')" "dir_ok s'" "org_ok s'"
  shows "store_ok s'"
proof -
  obtain x :: store where x: "s' = s\<lparr>st_users := st_users x, st_groups := st_groups x,
     st_groupSeq := st_groupSeq x, st_memberships := st_memberships x,
     st_apikeys := st_apikeys x, st_apiSeq := st_apiSeq x, st_orgs := st_orgs x,
     st_orgSeq := st_orgSeq x, st_orgMembers := st_orgMembers x,
     st_orgInvites := st_orgInvites x, st_inviteSeq := st_inviteSeq x\<rparr>"
    using f unfolding dir_frame_def by (rule that)
  show ?thesis using s c by (simp add: x store_ok_def cred_ok_def tfa_ok_def oauth_ok_def)
qed

lemma store_ok_tfa_frame:
  assumes s: "store_ok s" and f: "tfa_frame s s'" and c: "tfa_ok s'"
  shows "store_ok s'"
proof -
  obtain x :: store where x: "s' = s\<lparr>st_sessions := st_sessions x, st_totp := st_totp x,
     st_recovery := st_recovery x\<rparr>"
    using f unfolding tfa_frame_def by (rule that)
  show ?thesis using s c by (simp add: x store_ok_def cred_ok_def dir_ok_def org_ok_def oauth_ok_def)
qed

lemma store_ok_oauth_frame:
  assumes s: "store_ok s" and f: "oauth_frame s s'" and c: "oauth_ok s'"
  shows "store_ok s'"
proof -
  obtain x :: store where x: "s' = s\<lparr>st_oauthClients := st_oauthClients x,
     st_oauthRequests := st_oauthRequests x, st_oauthGrants := st_oauthGrants x,
     st_oauthAccess := st_oauthAccess x, st_oauthRefresh := st_oauthRefresh x,
     st_oauthKeys := st_oauthKeys x\<rparr>"
    using f unfolding oauth_frame_def by (rule that)
  show ?thesis using s c by (simp add: x store_ok_def cred_ok_def dir_ok_def org_ok_def tfa_ok_def)
qed

section \<open>Every step keeps the invariant\<close>

lemmas cred_op_defs = CreateLocalUser_def insert_user_def SetEmailVerified_def
  EnsureWebauthnHandle_def SetEmail_def AddPasskey_def TouchPasskey_def RemovePasskey_def
  RenamePasskey_def SetPasswordHash_def LinkOAuth_def UnlinkOAuth_def CreateToken_def
  ConsumeToken_def CreateEmailOTP_def VerifyEmailOTP_def RecordAudit_def rebind_user_def

lemma cred_frames [simp]:
  "cred_frame s (snd (CreateLocalUser now rid s e nm))"
  "cred_frame s (snd (SetEmailVerified now s u b))"
  "cred_frame s (snd (EnsureWebauthnHandle h s u))"
  "cred_frame s (snd (SetEmail now s u e))"
  "cred_frame s (snd (AddPasskey now s u p))"
  "cred_frame s (snd (TouchPasskey now s c n))"
  "cred_frame s (snd (RemovePasskey s u i))"
  "cred_frame s (snd (RenamePasskey s u i nm))"
  "cred_frame s (snd (SetPasswordHash s u ph a))"
  "cred_frame s (snd (LinkOAuth s u prov subj e))"
  "cred_frame s (snd (UnlinkOAuth s u prov))"
  "cred_frame s (snd (CreateToken s pp u e h t))"
  "cred_frame s (snd (ConsumeToken now s pp h))"
  "cred_frame s (snd (CreateEmailOTP s pp e h t m))"
  "cred_frame s (snd (VerifyEmailOTP now s pp e h))"
  "cred_frame s (RecordAudit now s u e b)"
  "cred_frame s (snd (insert_user now u e nm b s))"
  "cred_frame s (snd (rebind_user w f s))"
  by (simp_all add: cred_op_defs cred_frame_def Let_def split: option.split prod.split)

text \<open>The deletion cascade reaches into every component.\<close>

lemma cascade_store_ok: "store_ok s \<Longrightarrow> store_ok (deleteUserCascadeLocked s n)"
  using deleteUserCascadeLocked_ok [of s n] dir_cascade_ok [of s n]
    members_ok_cascade [of "st_users s" "st_orgs s" "st_orgMembers s" n]
  by (simp add: store_ok_def org_ok_def tfa_ok_def oauth_ok_def deleteUserCascadeLocked_def
      revoke_of_def keys_intros table_intros)

lemma DeleteUser_store_ok:
  assumes s: "store_ok s"
  shows "store_ok (snd (DeleteUser s u))"
proof (cases "parseID u")
  case (Some n)
  let ?c = "deleteUserCascadeLocked s n"
  have c: "store_ok ?c" using s by (rule cascade_store_ok)
  have "cred_ok (snd (DeleteUser s u))" by (rule DeleteUser_ok [OF store_ok_cred [OF s]])
  moreover have "dir_ok (snd (DeleteUser s u))" "org_ok (snd (DeleteUser s u))"
    "tfa_ok (snd (DeleteUser s u))" "oauth_ok (snd (DeleteUser s u))"
    using c by (simp_all add: DeleteUser_def Some Let_def store_ok_def dir_ok_def org_ok_def
        tfa_ok_def oauth_ok_def table_intros)
  ultimately show ?thesis by (simp add: store_ok_def)
qed (use s in \<open>simp add: DeleteUser_def\<close>)

lemma Upsert_store_ok:
  assumes s: "store_ok s"
  shows "store_ok (snd (UpsertUserOnLogin now s sub e nm v))"
proof -
  note c = UpsertUserOnLogin_ok [OF store_ok_cred [OF s], of now sub e nm v]
  show ?thesis
    using store_ok_cred [OF s]
  proof (cases rule: upsert_cases [of s sub e now nm v])
    case (update k u)
    then show ?thesis using store_ok_cred_frame [OF s _ c] by simp
  next
    case (adopt k u)
    then show ?thesis using store_ok_cred_frame [OF s _ c] by simp
  next
    case (reclaim k u)
    then show ?thesis using store_ok_cred_frame [OF cascade_store_ok [OF s, of k] _ c] by simp
  next
    case create
    then show ?thesis using store_ok_cred_frame [OF s _ c] by simp
  next
    case refuse
    then show ?thesis using s by simp
  qed
qed

lemma Authorize_snd:
  "snd (Authorize now s i) =
     snd (UpsertUserOnLogin now s (id_Subject i) (id_Email i) (id_Name i) (id_EmailVerified i))"
  by (simp add: Authorize_def split: prod.split sum.split)

lemma store_ok_CreateLocalUser:
  "store_ok s \<Longrightarrow> findBySub s (''local:'' @ rid) = None \<Longrightarrow>
   store_ok (snd (CreateLocalUser now rid s e nm))"
  by (rule store_ok_cred_frame) (auto simp: store_ok_cred intro: CreateLocalUser_ok)

lemmas cred_frame_ok = cred_frames [THEN store_ok_cred_frame [rotated]]

lemma cred_step_ok:
  assumes "cred_step s ev s'" and s: "store_ok s"
  shows "store_ok s'"
proof -
  note c = store_ok_cred [OF s]
  from assms(1) show ?thesis
  proof cases
    case CreateLocalUser
    then show ?thesis using s by (simp add: store_ok_CreateLocalUser)
  next
    case (ConsumeToken_Ok now p h c)
    then show ?thesis using cred_frame_ok(13) [OF ConsumeToken_ok [OF c] s, of now p h] by simp
  next
    case (ConsumeToken_Err now p h er)
    then show ?thesis using cred_frame_ok(13) [OF ConsumeToken_ok [OF c] s, of now p h] by simp
  next
    case (VerifyEmailOTP p e oo now h r)
    then show ?thesis using cred_frame_ok(15) [OF VerifyEmailOTP_ok [OF c] s, of now p e h] by simp
  next
    case (DeleteUser u)
    then show ?thesis using s by (simp add: DeleteUser_store_ok)
  next
    case (UpsertUserOnLogin now sub e nm v)
    then show ?thesis using s by (simp add: Upsert_store_ok)
  next
    case (Authorize now i)
    then show ?thesis using s by (simp add: Upsert_store_ok Authorize_snd)
  qed (auto intro!: cred_frame_ok s c SetEmailVerified_ok EnsureWebauthnHandle_ok SetEmail_ok AddPasskey_ok
      TouchPasskey_ok RemovePasskey_ok RenamePasskey_ok SetPasswordHash_ok LinkOAuth_ok
      UnlinkOAuth_ok CreateToken_ok CreateEmailOTP_ok VerifyEmailOTP_ok RecordAudit_ok)
qed

lemmas dir_op_defs = CreateGroup_def DeleteGroup_def AddUserToGroup_def RemoveUserFromGroup_def
  AddUsersToGroup_def RemoveUsersFromGroup_def SetUserDisabled_def SetUserBan_def
  CreateAPIKey_def insert_apikey_def RevokeAPIKey_def TouchAPIKey_def
lemmas org_op_defs = CreateOrg_def RenameOrg_def DeleteOrg_def SetOrgMember_def RemoveOrgMember_def
  CreateOrgInvite_def RevokeOrgInvite_def ConsumeOrgInvite_def CreateOrgGroup_def
  CreateOrgAPIKey_def insert_apikey_def

text \<open>
  The methods of \<open>directory.go\<close> and \<open>orgs.go\<close> change the user table only by writing the
  blocking fields of a row, and the group methods do not touch the organizations.
\<close>

lemma dir_frames [simp]:
  "dir_frame s (snd (CreateGroup now s nm d))" "dir_frame s (snd (DeleteGroup s i))"
  "dir_frame s (snd (AddUserToGroup s u g))" "dir_frame s (snd (RemoveUserFromGroup s u g))"
  "dir_frame s (snd (AddUsersToGroup s us g))" "dir_frame s (snd (RemoveUsersFromGroup s us g))"
  "dir_frame s (snd (SetUserDisabled s u b))" "dir_frame s (snd (SetUserBan s u b t rs))"
  "dir_frame s (snd (CreateAPIKey now s nm gs sc p h t))" "dir_frame s (snd (RevokeAPIKey s i))"
  "dir_frame s (snd (TouchAPIKey now s i))"
  by (simp_all add: dir_op_defs dir_frame_def Let_def split: option.split)

lemma org_frames [simp]:
  "dir_frame s (snd (CreateOrg now s sl nm))" "dir_frame s (snd (RenameOrg now s i nm))"
  "dir_frame s (snd (DeleteOrg s i))" "dir_frame s (snd (SetOrgMember s i u r))"
  "dir_frame s (snd (RemoveOrgMember s i u))"
  "dir_frame s (snd (CreateOrgInvite now s i e r b h t'))"
  "dir_frame s (snd (RevokeOrgInvite s i j))" "dir_frame s (snd (ConsumeOrgInvite now s h))"
  "dir_frame s (snd (CreateOrgGroup now s i nm d))"
  "dir_frame s (snd (CreateOrgAPIKey now s i nm gs sc p h x))"
  by (simp_all add: org_op_defs dir_frame_def Let_def split: option.split)

lemma dir_ops_users [simp]:
  "st_users (snd (CreateGroup now s nm d)) = st_users s" "st_users (snd (DeleteGroup s i)) = st_users s"
  "st_users (snd (AddUserToGroup s u g)) = st_users s"
  "st_users (snd (RemoveUserFromGroup s u g)) = st_users s"
  "st_users (snd (AddUsersToGroup s us g)) = st_users s"
  "st_users (snd (RemoveUsersFromGroup s us g)) = st_users s"
  "st_users (snd (CreateAPIKey now s nm gs sc p h t)) = st_users s"
  "st_users (snd (RevokeAPIKey s i)) = st_users s" "st_users (snd (TouchAPIKey now s i)) = st_users s"
  by (simp_all add: dir_op_defs Let_def split: option.split)

lemma org_ops_users [simp]:
  "st_users (snd (CreateOrg now s sl nm)) = st_users s"
  "st_users (snd (RenameOrg now s i nm)) = st_users s"
  "st_users (snd (DeleteOrg s i)) = st_users s" "st_users (snd (SetOrgMember s i u r)) = st_users s"
  "st_users (snd (RemoveOrgMember s i u)) = st_users s"
  "st_users (snd (CreateOrgInvite now s i e r b h t')) = st_users s"
  "st_users (snd (RevokeOrgInvite s i j)) = st_users s"
  "st_users (snd (ConsumeOrgInvite now s h)) = st_users s"
  "st_users (snd (CreateOrgGroup now s i nm d)) = st_users s"
  "st_users (snd (CreateOrgAPIKey now s i nm gs sc p h x)) = st_users s"
  by (simp_all add: org_op_defs Let_def split: option.split)

lemma dir_ops_org_ok:
  assumes "org_ok s"
  shows "org_ok (snd (CreateGroup now s nm d))" "org_ok (snd (DeleteGroup s i))"
    "org_ok (snd (AddUserToGroup s u g))" "org_ok (snd (RemoveUserFromGroup s u g))"
    "org_ok (snd (AddUsersToGroup s us g))" "org_ok (snd (RemoveUsersFromGroup s us g))"
    "org_ok (snd (CreateAPIKey now s nm gs sc p h t))" "org_ok (snd (RevokeAPIKey s i))"
    "org_ok (snd (TouchAPIKey now s i))" "org_ok (snd (SetUserDisabled s u b))"
    "org_ok (snd (SetUserBan s u b tt rs))"
    "org_ok (snd (CreateOrgAPIKey now s i nm gs sc p h x))"
  using assms
  by (auto simp: dir_op_defs CreateOrgAPIKey_def org_ok_def Let_def
      intro!: group_refs_ok_groups table_intros split: option.split)

lemma org_ops_dir_ok:
  assumes "dir_ok s"
  shows "dir_ok (snd (CreateOrg now s sl nm))" "dir_ok (snd (RenameOrg now s i nm))"
    "dir_ok (snd (SetOrgMember s i u r))" "dir_ok (snd (CreateOrgInvite now s i e r b h t'))"
    "dir_ok (snd (RevokeOrgInvite s i j))" "dir_ok (snd (ConsumeOrgInvite now s h))"
    "dir_ok (snd (SetUserDisabled s u bb))" "dir_ok (snd (SetUserBan s u bb tt rs))"
  using assms
  by (auto simp: CreateOrg_def RenameOrg_def SetOrgMember_def CreateOrgInvite_def
      RevokeOrgInvite_def ConsumeOrgInvite_def SetUserDisabled_def SetUserBan_def dir_ok_def Let_def
      split: option.split)

lemmas dir_step_oks = CreateGroup_ok DeleteGroup_ok AddUserToGroup_ok RemoveUserFromGroup_ok
  AddUsersToGroup_ok RemoveUsersFromGroup_ok CreateAPIKey_ok RevokeAPIKey_ok TouchAPIKey_ok
  CreateOrg_ok RenameOrg_ok DeleteOrg_ok SetOrgMember_ok RemoveOrgMember_ok CreateOrgInvite_ok
  RevokeOrgInvite_ok ConsumeOrgInvite_ok CreateOrgGroup_ok CreateOrgAPIKey_ok DeleteOrg_dir_ok
  RemoveOrgMember_dir_ok dir_ops_org_ok org_ops_dir_ok

lemma user_writes_ok:
  assumes s: "cred_ok s"
  shows "users_ok (st_seq s) (st_users (snd (SetUserDisabled s u b)))"
    and "users_ok (st_seq s) (st_users (snd (SetUserBan s u b tt rs)))"
  using cred_ok_users [OF SetUserDisabled_ok [OF s, of u b]] cred_ok_users [OF SetUserBan_ok [OF s, of u b tt rs]]
  by (simp_all add: SetUserDisabled_def SetUserBan_def split: option.splits)

lemma dir_step_ok:
  assumes "dir_step s ev s'" and s: "store_ok s"
  shows "store_ok s'"
proof -
  note c = store_ok_cred [OF s] store_ok_dir [OF s] store_ok_org [OF s]
  note u = cred_ok_users [OF c(1)]
  note frame = store_ok_dir_frame [OF s]
  from assms(1) show ?thesis
  proof cases
    case (ConsumeOrgInvite_Ok now h iv)
    then show ?thesis
      using frame [OF org_frames(8), of now h] u c ConsumeOrgInvite_ok [OF c(3), of now h]
        org_ops_dir_ok(6) [OF c(2), of now h] org_ops_users(8) [of now s h] by simp
  next
    case (ConsumeOrgInvite_Err now h er)
    then show ?thesis
      using frame [OF org_frames(8), of now h] u c ConsumeOrgInvite_ok [OF c(3), of now h]
        org_ops_dir_ok(6) [OF c(2), of now h] org_ops_users(8) [of now s h] by simp
  qed (auto intro!: frame dir_step_oks c user_writes_ok simp: u)
qed

lemma tfa_frames [simp]:
  "tfa_frame s (snd (RecordSession now s rec))" "tfa_frame s (snd (RevokeSession s sid))"
  "tfa_frame s (snd (RevokeAllForUser s sub))" "tfa_frame s (snd (SetTOTPSecret s u sec))"
  "tfa_frame s (snd (EnableTOTP s u))" "tfa_frame s (snd (DisableTOTP s u))"
  "tfa_frame s (snd (SetTOTPLastStep s u w))" "tfa_frame s (snd (ClaimTOTPStep s u w))"
  "tfa_frame s (snd (ReplaceRecoveryCodes s u hs))" "tfa_frame s (snd (ConsumeRecoveryCode s u h))"
  by (simp_all add: RecordSession_def pruneSessionsLocked_def RevokeSession_def RevokeAllForUser_def
      SetTOTPSecret_def EnableTOTP_def DisableTOTP_def SetTOTPLastStep_def ClaimTOTPStep_def
      ReplaceRecoveryCodes_def ConsumeRecoveryCode_def tfa_frame_def Let_def split: option.split)

lemmas tfa_frame_ok = tfa_frames [THEN store_ok_tfa_frame [rotated]]

lemma tfa_step_ok:
  assumes "tfa_step s ev s'" and s: "store_ok s"
  shows "store_ok s'"
proof -
  note c = store_ok_tfa [OF s]
  from assms(1) show ?thesis
  proof cases
    case (ClaimTOTPStep_True u n w)
    then show ?thesis using tfa_frame_ok(8) [OF ClaimTOTPStep_ok [OF c] s, of u w] by simp
  next
    case (ClaimTOTPStep_False u w r)
    then show ?thesis using tfa_frame_ok(8) [OF ClaimTOTPStep_ok [OF c] s, of u w] by simp
  next
    case (ConsumeRecoveryCode_True u n h)
    then show ?thesis using tfa_frame_ok(10) [OF ConsumeRecoveryCode_ok [OF c] s, of u h] by simp
  next
    case (ConsumeRecoveryCode_False u h r)
    then show ?thesis using tfa_frame_ok(10) [OF ConsumeRecoveryCode_ok [OF c] s, of u h] by simp
  qed (auto intro!: tfa_frame_ok s c session_ops_ok totp_ops_ok recovery_ops_ok)
qed

text \<open>The deletion cascades of the OAuth tables stay within them.\<close>

lemma oauth_frame_refl [simp]: "oauth_frame s s"
  by (simp add: oauth_frame_def)

lemma oauth_frame_trans: "oauth_frame s s' \<Longrightarrow> oauth_frame s' s'' \<Longrightarrow> oauth_frame s s''"
proof -
  assume a: "oauth_frame s s'" and b: "oauth_frame s' s''"
  obtain x :: store where x: "s' = s\<lparr>st_oauthClients := st_oauthClients x,
     st_oauthRequests := st_oauthRequests x, st_oauthGrants := st_oauthGrants x,
     st_oauthAccess := st_oauthAccess x, st_oauthRefresh := st_oauthRefresh x,
     st_oauthKeys := st_oauthKeys x\<rparr>"
    using a unfolding oauth_frame_def by (rule that)
  show ?thesis using b unfolding oauth_frame_def x by simp
qed

lemma oauth_frame_fold:
  "(\<And>x s. oauth_frame s (f x s)) \<Longrightarrow> oauth_frame s (fold f xs s)"
  by (induction xs arbitrary: s) (auto intro: oauth_frame_trans)

lemma deleteGrantLocked_frame: "oauth_frame s (deleteGrantLocked i s)"
  by (simp add: deleteGrantLocked_def oauth_frame_def)

lemma deleteClientLocked_frame: "oauth_frame s (deleteClientLocked i s)"
proof -
  let ?s1 = "s\<lparr>st_oauthClients := mdel i (st_oauthClients s),
      st_oauthRequests := mprune (\<lambda>_ r. or_ClientID r = i) (st_oauthRequests s)\<rparr>"
  let ?s2 = "fold deleteGrantLocked (keys_with (\<lambda>g. og_ClientID g = i) (st_oauthGrants ?s1)) ?s1"
  have "oauth_frame s ?s1" by (simp add: oauth_frame_def)
  moreover have "oauth_frame ?s1 ?s2"
    by (rule oauth_frame_fold) (rule deleteGrantLocked_frame)
  moreover have "oauth_frame ?s2 (deleteClientLocked i s)"
    by (simp add: deleteClientLocked_def Let_def oauth_frame_def)
  ultimately show ?thesis by (blast intro: oauth_frame_trans)
qed

lemma DeleteExpiredOAuth_frame: "oauth_frame s (snd (DeleteExpiredOAuth s now rb cb))"
proof -
  let ?s1 = "s\<lparr>st_oauthRequests := mprune (\<lambda>_ r. or_CreatedAt r < rb) (st_oauthRequests s),
      st_oauthAccess := mprune (\<lambda>_ t. oa_ExpiresAt t < now) (st_oauthAccess s),
      st_oauthRefresh := mprune (\<lambda>_ t. ot_ExpiresAt t < now) (st_oauthRefresh s)\<rparr>"
  let ?s2 = "fold deleteGrantLocked (keys_with (grant_expired now) (st_oauthGrants ?s1)) ?s1"
  have "oauth_frame s ?s1" by (simp add: oauth_frame_def)
  moreover have "oauth_frame ?s1 ?s2" by (rule oauth_frame_fold) (rule deleteGrantLocked_frame)
  moreover have "oauth_frame ?s2 (fold deleteClientLocked ks ?s2)" for ks
    by (rule oauth_frame_fold) (rule deleteClientLocked_frame)
  ultimately show ?thesis
    by (simp add: DeleteExpiredOAuth_def Let_def) (blast intro: oauth_frame_trans)
qed

lemma oauth_frames [simp]:
  "oauth_frame s (snd (CreateOAuthClient s c))" "oauth_frame s (snd (TouchOAuthClient s i at))"
  "oauth_frame s (snd (DeleteOAuthClient s i))" "oauth_frame s (snd (SaveOAuthAuthRequest s rq))"
  "oauth_frame s (snd (DeleteOAuthAuthRequest s i))" "oauth_frame s (snd (CreateOAuthGrant s g))"
  "oauth_frame s (snd (RevokeOAuthGrants s f at))" "oauth_frame s (snd (CreateOAuthAccessToken s tk))"
  "oauth_frame s (snd (DeleteOAuthAccessToken s i))"
  "oauth_frame s (snd (CreateOAuthRefreshToken s rt))"
  "oauth_frame s (snd (UseOAuthRefreshToken s h at))" "oauth_frame s (snd (AddOAuthSigningKey s k))"
  "oauth_frame s (snd (RetireOAuthSigningKey s i at))"
  "oauth_frame s (snd (DeleteOAuthSigningKey s i))"
  "oauth_frame s (snd (DeleteExpiredOAuth s now rb cb))"
  by (simp_all add: deleteClientLocked_frame DeleteExpiredOAuth_frame CreateOAuthClient_def
      TouchOAuthClient_def DeleteOAuthClient_def SaveOAuthAuthRequest_def DeleteOAuthAuthRequest_def
      CreateOAuthGrant_def RevokeOAuthGrants_def CreateOAuthAccessToken_def
      DeleteOAuthAccessToken_def CreateOAuthRefreshToken_def UseOAuthRefreshToken_def
      AddOAuthSigningKey_def RetireOAuthSigningKey_def DeleteOAuthSigningKey_def)
    (simp_all add: oauth_frame_def split: option.split prod.split)

lemmas oauth_frame_ok = oauth_frames [THEN store_ok_oauth_frame [rotated]]

lemma oauth_step_ok:
  assumes "oauth_step s ev s'" and s: "store_ok s"
  shows "store_ok s'"
proof -
  note c = store_ok_oauth [OF s]
  from assms(1) show ?thesis
  proof cases
    case (UseOAuthRefreshToken_Ok h at)
    then show ?thesis using oauth_frame_ok(11) [OF UseOAuthRefreshToken_ok [OF c] s, of h at] by simp
  next
    case (UseOAuthRefreshToken_Err h at er)
    then show ?thesis using oauth_frame_ok(11) [OF UseOAuthRefreshToken_ok [OF c] s, of h at] by simp
  qed (auto intro!: oauth_frame_ok s c oauth_ops_ok oauth_token_ops_ok DeleteExpiredOAuth_ok)
qed

lemma mem_step_ok: "mem_step s ev s' \<Longrightarrow> store_ok s \<Longrightarrow> store_ok s'"
  unfolding mem_step_def using cred_step_ok dir_step_ok tfa_step_ok oauth_step_ok by blast

lemma mem_trace_ok: "mem_trace s evs s' \<Longrightarrow> store_ok s \<Longrightarrow> store_ok s'"
  by (induction rule: mem_trace.induct) (auto intro: mem_step_ok)

text \<open>Preservation, call by call: the states the examples build are well formed by these.\<close>

lemmas store_ok_steps =
  cred_step_ok [OF cred_step.CreateLocalUser] cred_step_ok [OF cred_step.SetPasswordHash]
  cred_step_ok [OF cred_step.UpsertUserOnLogin] cred_step_ok [OF cred_step.CreateToken]
  cred_step_ok [OF cred_step.AddPasskey] cred_step_ok [OF cred_step.DeleteUser]
  dir_step_ok [OF dir_step.CreateGroup] dir_step_ok [OF dir_step.AddUserToGroup]
  dir_step_ok [OF dir_step.CreateAPIKey] dir_step_ok [OF dir_step.CreateOrg]
  dir_step_ok [OF dir_step.SetOrgMember] dir_step_ok [OF dir_step.CreateOrgInvite]
  dir_step_ok [OF dir_step.CreateOrgGroup] dir_step_ok [OF dir_step.CreateOrgAPIKey]
  dir_step_ok [OF dir_step.RemoveOrgMember] dir_step_ok [OF dir_step.DeleteOrg]
  tfa_step_ok [OF tfa_step.RecordSession]
  tfa_step_ok [OF tfa_step.SetTOTPSecret] tfa_step_ok [OF tfa_step.ReplaceRecoveryCodes]
  oauth_step_ok [OF oauth_step.CreateOAuthClient] oauth_step_ok [OF oauth_step.CreateOAuthGrant]
  oauth_step_ok [OF oauth_step.CreateOAuthRefreshToken]
  oauth_step_ok [OF oauth_step.CreateOAuthAccessToken]

text \<open>
  In every state reachable from an empty store by any interleaving of the store's methods,
  the total invariant holds: addresses, subjects, credential ids, organization slugs and group
  names are unique, rows sit under the keys they carry, organization members are existing users
  of existing organizations, groups refer to existing organizations, and each address has at
  most one pending invite per organization id.
\<close>

theorem reachable_store_ok:
  assumes "reachable s"
  shows "store_ok s"
  using assms mem_trace_ok unfolding reachable_def by (metis store_ok_New)

theorem reachable_store_ok_witness:
  "store_ok (snd (CreateOrg 4 (snd (CreateLocalUser 3 ''r'' New ''a@x'' ''A'')) ''acme'' ''Acme''))"
proof -
  have "mem_step New Silent (snd (CreateLocalUser 3 ''r'' New ''a@x'' ''A''))"
    by (simp add: mem_step_def cred_step.CreateLocalUser)
  moreover have "mem_step s Silent (snd (CreateOrg 4 s ''acme'' ''Acme''))" for s
    by (simp add: mem_step_def dir_step.CreateOrg)
  ultimately have "reachable (snd (CreateOrg 4 (snd (CreateLocalUser 3 ''r'' New ''a@x'' ''A'')) ''acme'' ''Acme''))"
    unfolding reachable_def by (blast intro: mem_trace.intros)
  then show ?thesis by (rule reachable_store_ok)
qed

end
