(* ===== verification/DirectoryLaws.thy ===== *)
theory DirectoryLaws
  imports MemTrace
begin

text \<open>
  What the directory of the in-memory store reports: memberships as seen from users and from
  groups, the batch forms, the separation of the global groups from those of organizations,
  bans and API keys.
\<close>

section \<open>What the directory reports\<close>

text \<open>Membership as a relation, independent of the order of the maps.\<close>

definition member :: "store \<Rightarrow> nat \<Rightarrow> nat \<Rightarrow> bool" where
  "member s uid gid \<longleftrightarrow> gid \<in> set (sget (st_memberships s) uid)"

lemma member_iff_row: "keys_ok m \<Longrightarrow> x \<in> set (sget m k) \<longleftrightarrow> (\<exists>xs. (k, xs) \<in> set m \<and> x \<in> set xs)"
  by (cases "mget m k") (auto simp: sget_def mget_iff_in [symmetric])

lemma sorted_key_iff: "sorted (map f xs) \<longleftrightarrow> sorted_wrt (\<lambda>a b. f a \<le> f b) xs"
  by (simp add: sorted_map)

text \<open>The rows of a map read through an injective reading are distinct.\<close>

lemma distinct_map_filter_option:
  assumes "distinct xs" and "\<And>x y z. x \<in> set xs \<Longrightarrow> y \<in> set xs \<Longrightarrow> f x = Some z \<Longrightarrow> f y = Some z \<Longrightarrow> x = y"
  shows "distinct (List.map_filter f xs)"
  using assms
proof (induction xs)
  case (Cons x xs)
  have "distinct (List.map_filter f xs)" using Cons by (simp add: Cons.prems(2))
  moreover have "z \<notin> set (List.map_filter f xs)" if "f x = Some z" for z
    using Cons.prems(1) Cons.prems(2) [of x _ z] that by (auto simp: set_map_filter_eq)
  ultimately show ?case by (auto simp: List.map_filter_simps split: option.split)
qed (simp add: List.map_filter_simps)

lemma view_inj: "view u = view u' \<Longrightarrow> u_id u = u_id u'"
  by (simp add: view_def)

text \<open>
  The two listings of memberships agree with the membership relation and with each other:
  \<open>UserGroups\<close> holds exactly the existing groups the user belongs to and \<open>GroupMembers\<close>
  exactly the existing users that belong to the group, each once, sorted by name and address.
\<close>

theorem membership_listings:
  assumes s: "store_ok s"
    and u: "parseID userID = Some u" and g: "parseID groupID = Some g"
  shows "\<exists>gs us. UserGroups s userID = Ok gs \<and> GroupMembers s groupID = Ok us \<and>
    set gs = {y. \<exists>k. mget (st_groups s) k = Some y \<and> member s u k} \<and>
    set us = {view x | x k. mget (st_users s) k = Some x \<and> member s k g} \<and>
    distinct gs \<and> distinct us \<and> sorted (map g_Name gs) \<and> sorted (map au_Email us)"
proof -
  note d = store_ok_dir [OF s] and c = store_ok_cred [OF s]
  let ?gs = "List.map_filter (mget (st_groups s)) (sget (st_memberships s) u)"
  let ?f = "\<lambda>(uid, gs). if g \<in> set gs then map_option view (mget (st_users s) uid) else None"
  let ?us = "List.map_filter ?f (st_memberships s)"
  note gt = dir_ok_groups [OF d, unfolded groups_ok_def]
  note km = sets_ok_keys [OF dir_ok_members [OF d]]
  have "set ?gs = {y. \<exists>k. mget (st_groups s) k = Some y \<and> member s u k}"
    by (auto simp: set_map_filter_eq member_def)
  moreover have "set ?us = {view x | x k. mget (st_users s) k = Some x \<and> member s k g}"
    unfolding set_map_filter_eq member_def member_iff_row [OF km]
    by (force split: if_splits)
  moreover have "distinct ?gs"
  proof (rule distinct_map_filter_option)
    show "distinct (sget (st_memberships s) u)" using dir_ok_members [OF d] by (simp add: sets_ok_def)
    fix x y z
    assume "mget (st_groups s) x = Some z" "mget (st_groups s) y = Some z"
    then show "x = y" using table_ok_entry [OF gt] by (metis idStr_inj)
  qed
  moreover have "distinct ?us"
  proof (rule distinct_map_filter_option)
    show "distinct (st_memberships s)" using km by (auto simp: keys_ok_def intro: distinct_map [THEN iffD1, THEN conjunct1])
    fix x y z
    assume in_m: "x \<in> set (st_memberships s)" "y \<in> set (st_memberships s)"
      and fz: "?f x = Some z" "?f y = Some z"
    obtain a b where ab: "mget (st_users s) (fst x) = Some a" "view a = z"
      "mget (st_users s) (fst y) = Some b" "view b = z"
      using fz by (auto split: prod.splits if_splits)
    then have "fst x = fst y"
      using view_inj [of a b] users_ok_row [OF cred_ok_users [OF c]] by metis
    then show "x = y" using in_m km by (metis mget_iff_in option.inject prod.collapse)
  qed
  ultimately show ?thesis
    using u g sorted_sort_by_key [of g_Name ?gs] sorted_sort_by_key [of au_Email ?us]
    by (simp add: UserGroups_def GroupMembers_def)
qed

theorem membership_listings_witness:
  "\<exists>gs us. UserGroups (snd (AddUserToGroup (snd (CreateGroup 3 (snd (CreateLocalUser 2 ''r'' New ''a@x'' ''A''))
     ''eng'' [])) ''1'' ''1'')) ''1'' = Ok gs \<and>
     GroupMembers (snd (AddUserToGroup (snd (CreateGroup 3 (snd (CreateLocalUser 2 ''r'' New ''a@x'' ''A''))
     ''eng'' [])) ''1'' ''1'')) ''1'' = Ok us \<and> distinct gs \<and> distinct us"
proof -
  let ?s = "snd (CreateGroup 3 (snd (CreateLocalUser 2 ''r'' New ''a@x'' ''A'')) ''eng'' [])"
  have s: "store_ok (snd (AddUserToGroup ?s ''1'' ''1''))"
    by (intro store_ok_steps) simp_all
  have p: "parseID ''1'' = Some 1" by code_simp
  show ?thesis using membership_listings [OF s p p] by blast
qed

text \<open>
  The batch forms (used by SCIM) are the single forms applied to each id in turn: adding a
  list of users to a group and removing it again afterwards changes exactly the memberships of
  the ids that name a user in that one group, and ids that cannot name a user are skipped.
\<close>

theorem batch_membership:
  assumes g: "parseID groupID = Some g"
  shows "AddUsersToGroup s ids groupID = (Ok (), fold (\<lambda>i s. snd (AddUserToGroup s i groupID)) ids s) \<and>
    RemoveUsersFromGroup s ids groupID = (Ok (), fold (\<lambda>i s. snd (RemoveUserFromGroup s i groupID)) ids s) \<and>
    (\<forall>u h. member (snd (AddUsersToGroup s ids groupID)) u h \<longleftrightarrow>
       member s u h \<or> h = g \<and> (\<exists>i \<in> set ids. parseID i = Some u)) \<and>
    (\<forall>u h. member (snd (RemoveUsersFromGroup s ids groupID)) u h \<longleftrightarrow>
       member s u h \<and> \<not> (h = g \<and> (\<exists>i \<in> set ids. parseID i = Some u)))"
proof -
  have "fold (\<lambda>i s. snd (AddUserToGroup s i groupID)) ids s =
      s\<lparr>st_memberships := add_members g ids (st_memberships s)\<rparr>"
    by (induction ids arbitrary: s) (auto simp: AddUserToGroup_def g split: option.split)
  moreover have "fold (\<lambda>i s. snd (RemoveUserFromGroup s i groupID)) ids s =
      s\<lparr>st_memberships := remove_members g ids (st_memberships s)\<rparr>"
    by (induction ids arbitrary: s) (auto simp: RemoveUserFromGroup_def g split: option.split)
  ultimately show ?thesis
    by (auto simp: AddUsersToGroup_def RemoveUsersFromGroup_def g member_def set_add_members
        set_remove_members)
qed

theorem batch_membership_witness:
  "member (snd (AddUsersToGroup New [''2'', ''x''] ''7'')) 2 7"
proof -
  have p: "parseID ''7'' = Some 7" "parseID ''2'' = Some 2" by code_simp+
  show ?thesis using batch_membership [OF p(1), of New "[''2'', ''x'']"] p(2) by auto
qed

text \<open>
  The unscoped group verbs see the global namespace only: \<open>Groups\<close> lists every group
  without an organization once, sorted by name, and \<open>GroupByName\<close> finds the group of that
  trimmed name exactly when it is a global one.
\<close>

theorem global_groups_only:
  assumes s: "store_ok s"
  shows "(\<exists>gs. Groups s = Ok gs \<and> distinct gs \<and> sorted (map g_Name gs) \<and>
      set gs = {g. (\<exists>k. mget (st_groups s) k = Some g) \<and> g_OrgID g = []}) \<and>
    (\<forall>g. GroupByName s name = Ok g \<longleftrightarrow>
      (\<exists>k. mget (st_groups s) k = Some g) \<and> g_OrgID g = [] \<and> g_Name g = trim_space name)"
proof -
  note gt = dir_ok_groups [OF store_ok_dir [OF s], unfolded groups_ok_def]
  note rows = mvals_mget [OF table_ok_keys [OF gt]]
  let ?gs = "filter (\<lambda>g. g_OrgID g = []) (mvals (st_groups s))"
  have "distinct (mvals (st_groups s))"
    unfolding mvals_def
  proof (subst distinct_map, intro conjI inj_onI)
    show "distinct (st_groups s)" using table_ok_keys [OF gt] by (auto simp: keys_ok_def distinct_map)
    fix x y
    assume "x \<in> set (st_groups s)" "y \<in> set (st_groups s)" "snd x = snd y"
    then show "x = y" using table_ok_entry [OF gt] mget_iff_in [OF table_ok_keys [OF gt]]
      by (metis idStr_inj prod.collapse)
  qed
  then have "\<exists>gs. Groups s = Ok gs \<and> distinct gs \<and> sorted (map g_Name gs) \<and>
      set gs = {g. (\<exists>k. mget (st_groups s) k = Some g) \<and> g_OrgID g = []}"
    using sorted_sort_by_key [of g_Name ?gs] by (auto simp: Groups_def rows)
  moreover have "GroupByName s name = Ok g \<longleftrightarrow>
      (\<exists>k. mget (st_groups s) k = Some g) \<and> g_OrgID g = [] \<and> g_Name g = trim_space name" for g
  proof -
    have "GroupByName s name = Ok g \<longleftrightarrow>
        mfind (\<lambda>g. g_OrgID g = [] \<and> g_Name g = trim_space name) (st_groups s) = Some g"
      by (simp add: GroupByName_def Let_def split: option.split)
    then show ?thesis using table_ok_find [OF gt, of "([], trim_space name)" g] by simp
  qed
  ultimately show ?thesis by blast
qed

theorem global_groups_only_witness: "\<forall>g. GroupByName New ''x'' \<noteq> Ok g"
  using global_groups_only [OF store_ok_New, of "''x''"] by (simp add: New_def)

section \<open>Blocking a user\<close>

lemma mmod_users_UserByID:
  assumes "parseID i = Some n" and "mget (st_users s) n = Some u"
  shows "UserByID (s\<lparr>st_users := mmod n f (st_users s)\<rparr>) i = Ok (view (f u))"
  using assms by (simp add: UserByID_def)

text \<open>
  Disabling and banning do what the login gate reads. A disabled user is blocked until
  enabled again; a ban with an end blocks exactly until that instant, one without an end
  forever; lifting a ban of a user who is not disabled unblocks at once. Nothing else about
  the user changes.
\<close>

theorem ban_blocks_login:
  assumes s: "store_ok s" and i: "parseID i = Some n" and u: "mget (st_users s) n = Some u"
  shows "(\<exists>a. UserByID (snd (SetUserDisabled s i True)) i = Ok a \<and> fst (loginBlocked now (Some a))) \<and>
    (\<exists>a. UserByID (snd (SetUserBan s i True (Some t) why)) i = Ok a \<and>
       (fst (loginBlocked now (Some a)) \<longleftrightarrow> u_disabled u \<or> t = 0 \<or> now < t) \<and>
       au_Email a = u_email u \<and> au_Sub a = u_sub u) \<and>
    (\<exists>a. UserByID (snd (SetUserBan s i True None why)) i = Ok a \<and> fst (loginBlocked now (Some a))) \<and>
    (\<exists>a. UserByID (snd (SetUserBan s i False x why)) i = Ok a \<and>
       (fst (loginBlocked now (Some a)) \<longleftrightarrow> u_disabled u))"
  using i u by (simp add: SetUserDisabled_def SetUserBan_def mmod_users_UserByID loginBlocked_def view_def)

theorem ban_blocks_login_witness:
  "\<exists>a. UserByID (snd (SetUserBan (snd (CreateLocalUser 2 ''r'' New ''a@x'' ''A'')) ''1'' True (Some 9) ''spam'')) ''1''
     = Ok a \<and> fst (loginBlocked 5 (Some a)) \<and> \<not> fst (loginBlocked 9 (Some a))"
proof -
  let ?s = "snd (CreateLocalUser 2 ''r'' New ''a@x'' ''A'')"
  have s: "store_ok ?s" by (intro store_ok_steps) simp_all
  have u: "parseID ''1'' = Some 1" "mget (st_users ?s) 1 = Some (new_user 2 1 ''local:r'' ''a@x'' ''A'' False)"
    "\<not> u_disabled (new_user 2 1 ''local:r'' ''a@x'' ''A'' False)" by code_simp+
  obtain a where a: "UserByID (snd (SetUserBan ?s ''1'' True (Some 9) ''spam'')) ''1'' = Ok a"
    "fst (loginBlocked 5 (Some a)) \<longleftrightarrow> u_disabled (new_user 2 1 ''local:r'' ''a@x'' ''A'' False) \<or> (9::int) = 0 \<or> (5::int) < 9"
    using ban_blocks_login [OF s u(1,2), of 5 9 "''spam''"] by blast
  obtain b where "UserByID (snd (SetUserBan ?s ''1'' True (Some 9) ''spam'')) ''1'' = Ok b"
    "fst (loginBlocked 9 (Some b)) \<longleftrightarrow> u_disabled (new_user 2 1 ''local:r'' ''a@x'' ''A'' False) \<or> (9::int) = 0 \<or> (9::int) < 9"
    using ban_blocks_login [OF s u(1,2), of 9 9 "''spam''"] by blast
  with a u(3) show ?thesis by simp
qed

section \<open>Memberships of identifiers nobody has\<close>

text \<open>
  \<open>AddUserToGroup\<close> stores a membership for any numeric id, also one no user has yet, and
  the next user that is created under it inherits the group: the comment in the code says such
  a membership cannot exist. (\<open>SetOrgMember\<close> refuses the same call.)
\<close>

theorem dangling_membership_inherited:
  assumes s: "store_ok s" and n: "Suc (st_seq s) < 2 ^ 64"
    and g: "mget (st_groups s) gid = Some g" "1 \<le> gid" "gid < 2 ^ 64"
    and e: "findByEmail s email = None"
  shows "let s1 = snd (AddUserToGroup s (idStr (Suc (st_seq s))) (idStr gid));
             (r, s2) = CreateLocalUser now rid s1 email name
         in UserByID s1 (idStr (Suc (st_seq s))) = Err ErrNoUser \<and>
            (\<exists>a gs. r = Ok a \<and> UserGroups s2 (au_ID a) = Ok gs \<and> g \<in> set gs)"
proof -
  let ?n = "Suc (st_seq s)"
  have p: "parseID (idStr ?n) = Some ?n" "parseID (idStr gid) = Some gid" using n g by simp_all
  have none: "mget (st_users s) ?n = None"
    using table_ok_fresh [OF users_ok_email [OF cred_ok_users [OF store_ok_cred [OF s]]]] by blast
  have f: "findByEmail (snd (AddUserToGroup s (idStr ?n) (idStr gid))) email = None"
    using e by (simp add: findByEmail_def AddUserToGroup_def p)
  show ?thesis
    using p none f g
    by (auto simp: Let_def CreateLocalUser_def insert_user_def UserByID_def AddUserToGroup_def
        UserGroups_def view_def new_user_def set_map_filter_eq sget_add_member)
qed

theorem dangling_membership_inherited_witness:
  "\<exists>a gs. fst (CreateLocalUser 3 ''r'' (snd (AddUserToGroup (snd (CreateGroup 2 New ''admins'' [])) ''1'' ''1'')) ''a@x'' ''A'') = Ok a \<and>
     UserGroups (snd (CreateLocalUser 3 ''r'' (snd (AddUserToGroup (snd (CreateGroup 2 New ''admins'' [])) ''1'' ''1'')) ''a@x'' ''A'')) (au_ID a) = Ok gs \<and>
     gs \<noteq> []"
proof -
  let ?s = "snd (CreateGroup 2 New ''admins'' [])"
  let ?g = "\<lparr>g_ID = ''1'', g_Name = ''admins'', g_Description = [], g_CreatedAt = 2, g_UpdatedAt = 2, g_OrgID = []\<rparr>"
  have s: "store_ok ?s" by (intro store_ok_steps) simp_all
  have q: "mget (st_groups ?s) 1 = Some ?g" "findByEmail ?s ''a@x'' = None" "idStr 1 = ''1''" by code_simp+
  have seq: "Suc (st_seq ?s) = 1" by code_simp
  have "Suc (st_seq ?s) < 2 ^ 64" unfolding seq by simp
  from dangling_membership_inherited [OF s this q(1) _ _ q(2), of 3 "''r''" "''A''", unfolded seq q(3)]
  show ?thesis by (auto simp: Let_def split: prod.splits)
qed

end
