(* ===== verification/OrgLaws.thy ===== *)
theory OrgLaws
  imports MemTrace
begin

text \<open>
  Organizations in the in-memory store: who is a member with which role, what leaves with a
  member and with an organization, and how invites are replaced, read and accepted.
\<close>

section \<open>Membership\<close>

text \<open>The role of a user as a relation on keys, and the groups of an organization.\<close>

definition role_of :: "store \<Rightarrow> nat \<Rightarrow> nat \<Rightarrow> string option" where
  "role_of s n uid = mget (sget (st_orgMembers s) n) uid"

definition in_group :: "store \<Rightarrow> nat \<Rightarrow> nat \<Rightarrow> bool" where
  "in_group s uid gid \<longleftrightarrow> gid \<in> set (sget (st_memberships s) uid)"

definition owned_group :: "store \<Rightarrow> nat \<Rightarrow> nat \<Rightarrow> bool" where
  "owned_group s n gid \<longleftrightarrow> (\<exists>g. mget (st_groups s) gid = Some g \<and> parseID (g_OrgID g) = Some n)"

lemma OrgRole_role_of:
  "org_key s i = Some n \<Longrightarrow> parseID u = Some uid \<Longrightarrow>
   OrgRole s i u = (case role_of s n uid of Some r \<Rightarrow> Ok r | None \<Rightarrow> Err ErrNotOrgMember)"
  by (simp add: OrgRole_def role_of_def)

lemma in_drop_groups [simp]: "gid \<in> set (drop_groups p xs) \<longleftrightarrow> gid \<in> set xs \<and> \<not> p gid"
  by (simp add: drop_groups_def)

lemma drop_groups_Nil [simp]: "drop_groups p [] = []"
  by (simp add: drop_groups_def)

text \<open>
  \<open>SetOrgMember\<close> gives exactly the named user exactly the role it is told, in exactly that
  organization, and refuses an organization or a user that does not exist without a change;
  \<open>OrgRole\<close> reads the role back.
\<close>

theorem set_org_member:
  assumes s: "store_ok s" and run: "SetOrgMember s i u role = (r, s')"
  shows "(case (org_key s i, parseID u) of
      (Some n, Some uid) \<Rightarrow>
        if mget (st_users s) uid = None then r = Err ErrNoUser \<and> s' = s
        else r = Ok () \<and> OrgRole s' i u = Ok role \<and>
          (\<forall>m v. role_of s' m v = (if m = n \<and> v = uid then Some role else role_of s m v)) \<and>
          st_memberships s' = st_memberships s
    | (Some n, None) \<Rightarrow> r = Err ErrNoUser \<and> s' = s
    | (None, _) \<Rightarrow> r = Err ErrNoOrg \<and> s' = s)"
proof (cases "org_key s i")
  case None
  then show ?thesis using run by (auto simp: SetOrgMember_def)
next
  case n: (Some n)
  show ?thesis
  proof (cases "parseID u")
    case None
    then show ?thesis using run n by (auto simp: SetOrgMember_def)
  next
    case (Some uid)
    have "mget (st_users s) uid \<noteq> None \<Longrightarrow> org_key s' i = Some n"
      using run n Some by (auto simp: SetOrgMember_def org_key_def split: option.splits if_splits)
    then show ?thesis
      using run n Some by (auto simp: SetOrgMember_def role_of_def OrgRole_def)
  qed
qed

theorem set_org_member_witness:
  "OrgRole (snd (SetOrgMember (snd (CreateOrg 4 (snd (CreateLocalUser 3 ''r'' New ''a@x'' ''A'')) ''acme'' ''Acme''))
     ''1'' ''1'' ''owner'')) ''1'' ''1'' = Ok ''owner''"
proof -
  let ?s = "snd (CreateOrg 4 (snd (CreateLocalUser 3 ''r'' New ''a@x'' ''A'')) ''acme'' ''Acme'')"
  have s: "store_ok ?s" by (intro store_ok_steps) simp_all
  have k: "org_key ?s ''1'' = Some 1" "parseID ''1'' = Some 1" "mget (st_users ?s) 1 \<noteq> None" by code_simp+
  show ?thesis using set_org_member [OF s surjective_pairing, of "''1''" "''1''" "''owner''"] k by simp
qed

lemma remove_org_member_effect:
  assumes n: "parseID i = Some n" and u: "parseID u = Some uid"
  shows "\<forall>m v. role_of (snd (RemoveOrgMember s i u)) m v = (if m = n \<and> v = uid then None else role_of s m v)"
    and "\<forall>v g. in_group (snd (RemoveOrgMember s i u)) v g \<longleftrightarrow>
       in_group s v g \<and> \<not> (v = uid \<and> owned_group s n g)"
proof -
  let ?p = "\<lambda>gid. case mget (st_groups s) gid of Some g \<Rightarrow> group_of_org n g | None \<Rightarrow> False"
  have s': "snd (RemoveOrgMember s i u) = s\<lparr>st_orgMembers := mmod n (mdel uid) (st_orgMembers s),
      st_memberships := mmod uid (drop_groups ?p) (st_memberships s)\<rparr>"
    using n u by (simp add: RemoveOrgMember_def Let_def)
  have nil: "mdel uid [] = ([] :: (nat, string) gomap)" by (simp add: mdel_def)
  have own: "?p g \<longleftrightarrow> owned_group s n g" for g
    by (auto simp: owned_group_def group_of_org_def split: option.split)
  show "\<forall>m v. role_of (snd (RemoveOrgMember s i u)) m v = (if m = n \<and> v = uid then None else role_of s m v)"
    by (simp add: s' role_of_def nil)
  show "\<forall>v g. in_group (snd (RemoveOrgMember s i u)) v g \<longleftrightarrow>
       in_group s v g \<and> \<not> (v = uid \<and> owned_group s n g)"
    by (simp add: s' in_group_def own)
qed

text \<open>
  Removing a member removes the role and, with it, the member's membership in every group of
  that organization, and nothing else: other members, other organizations' groups and the global
  groups of the same user are untouched. The organization is matched by its number, so a
  non-canonical spelling of its id removes both or neither.
\<close>

theorem remove_org_member:
  assumes s: "store_ok s" and n: "parseID i = Some n" and u: "parseID u = Some uid"
    and run: "RemoveOrgMember s i u = (r, s')"
  shows "r = Ok () \<and>
    (\<forall>m v. role_of s' m v = (if m = n \<and> v = uid then None else role_of s m v)) \<and>
    (\<forall>v g. in_group s' v g \<longleftrightarrow> in_group s v g \<and> \<not> (v = uid \<and> owned_group s n g)) \<and>
    st_groups s' = st_groups s \<and> st_users s' = st_users s"
proof -
  have "r = Ok ()" using run n u by (simp add: RemoveOrgMember_def Let_def)
  moreover have "st_groups s' = st_groups s" "st_users s' = st_users s"
    using run n u by (auto simp: RemoveOrgMember_def Let_def)
  moreover have "s' = snd (RemoveOrgMember s i u)" using run by simp
  ultimately show ?thesis using remove_org_member_effect [OF n u, of s] by simp
qed

theorem remove_org_member_witness:
  "\<not> in_group (snd (RemoveOrgMember
      (snd (AddUserToGroup (snd (CreateOrgGroup 5 (snd (CreateOrg 4 New ''acme'' ''Acme'')) ''1'' ''eng'' []))
        ''7'' ''1'')) ''01'' ''7'')) 7 1"
proof -
  let ?s = "snd (AddUserToGroup (snd (CreateOrgGroup 5 (snd (CreateOrg 4 New ''acme'' ''Acme'')) ''1'' ''eng'' []))
        ''7'' ''1'')"
  have s: "store_ok ?s" by (intro store_ok_steps) simp_all
  have p: "parseID ''01'' = Some 1" "parseID ''7'' = Some 7" by code_simp+
  have "mget (st_groups ?s) 1 = Some \<lparr>g_ID = ''1'', g_Name = ''eng'', g_Description = [], g_CreatedAt = 5,
      g_UpdatedAt = 5, g_OrgID = ''1''\<rparr>" "parseID ''1'' = Some 1" by code_simp+
  then have "owned_group ?s 1 1" by (simp add: owned_group_def)
  with remove_org_member [OF s p surjective_pairing] show ?thesis by blast
qed

section \<open>Deleting an organization\<close>

text \<open>
  Deleting an organization leaves nothing it owned behind under its canonical id: no member,
  group, membership in such a group, invite or API key; and keeps every group, membership, invite
  and key of other organizations and of the global namespace.
\<close>

theorem delete_org_cascade:
  assumes s: "store_ok s" and n: "parseID i = Some n" and run: "DeleteOrg s i = (r, s')"
  shows "r = Ok () \<and> OrgByID s' i = Err ErrNoOrg \<and> (\<forall>u. OrgRole s' i u = Err ErrNoOrg) \<and>
    (\<forall>v. role_of s' n v = None) \<and> (\<forall>m v. m \<noteq> n \<longrightarrow> role_of s' m v = role_of s m v) \<and>
    (\<forall>k g. mget (st_groups s') k = Some g \<longleftrightarrow> mget (st_groups s) k = Some g \<and> g_OrgID g \<noteq> idStr n) \<and>
    (\<forall>v k. in_group s' v k \<longleftrightarrow> in_group s v k \<and>
       \<not> (\<exists>g. mget (st_groups s) k = Some g \<and> g_OrgID g = idStr n)) \<and>
    (\<forall>k iv. mget (st_orgInvites s') k = Some iv \<longleftrightarrow>
       mget (st_orgInvites s) k = Some iv \<and> oi_OrgID (iv_inv iv) \<noteq> idStr n) \<and>
    (\<forall>k a. mget (st_apikeys s') k = Some a \<longleftrightarrow>
       mget (st_apikeys s) k = Some a \<and> ak_OrgID (k_info a) \<noteq> idStr n)"
proof -
  let ?owned = "\<lambda>gid. case mget (st_groups s) gid of Some g \<Rightarrow> g_OrgID g = idStr n | None \<Rightarrow> False"
  have s': "r = Ok ()" "s' = s\<lparr>
            st_orgs := mdel n (st_orgs s),
            st_orgMembers := mdel n (st_orgMembers s),
            st_groups := mprune (\<lambda>_ g. g_OrgID g = idStr n) (st_groups s),
            st_memberships := mmap (drop_groups ?owned) (st_memberships s),
            st_orgInvites := mprune (\<lambda>_ rec. oi_OrgID (iv_inv rec) = idStr n) (st_orgInvites s),
            st_apikeys := mprune (\<lambda>_ k. ak_OrgID (k_info k) = idStr n) (st_apikeys s)\<rparr>"
    using run n by (simp_all add: DeleteOrg_def Let_def)
  have k: "keys_ok (st_groups s)" "keys_ok (st_orgInvites s)" "keys_ok (st_apikeys s)"
    using groups_ok_keys [OF dir_ok_groups [OF store_ok_dir [OF s]]]
      invites_ok_keys [OF org_ok_invites [OF store_ok_org [OF s]]]
      table_ok_keys [OF dir_ok_apikeys [OF store_ok_dir [OF s], unfolded apikeys_ok_def]] by auto
  have own: "?owned g \<longleftrightarrow> (\<exists>x. mget (st_groups s) g = Some x \<and> g_OrgID x = idStr n)" for g
    by (simp split: option.split)
  have rows: "mget (mprune (\<lambda>_. q) m) k = Some v \<longleftrightarrow> mget m k = Some v \<and> \<not> q v"
    if "keys_ok m" for q k v and m :: "(nat, 'x) gomap"
    using mget_mprune [OF that, of "\<lambda>_. q" k] by (auto split: option.splits if_splits)
  have "OrgByID s' i = Err ErrNoOrg" "\<forall>u. OrgRole s' i u = Err ErrNoOrg"
    using n by (simp_all add: OrgByID_def OrgRole_def org_key_def s'(2))
  moreover have "\<forall>v. role_of s' n v = None" "\<forall>m v. m \<noteq> n \<longrightarrow> role_of s' m v = role_of s m v"
    by (simp_all add: role_of_def s'(2))
  moreover have "\<forall>k g. mget (st_groups s') k = Some g \<longleftrightarrow> mget (st_groups s) k = Some g \<and> g_OrgID g \<noteq> idStr n"
    by (simp add: s'(2) rows [OF k(1)])
  moreover have "\<forall>v k. in_group s' v k \<longleftrightarrow> in_group s v k \<and>
       \<not> (\<exists>g. mget (st_groups s) k = Some g \<and> g_OrgID g = idStr n)"
    by (simp add: in_group_def s'(2) own)
  moreover have "\<forall>k iv. mget (st_orgInvites s') k = Some iv \<longleftrightarrow>
       mget (st_orgInvites s) k = Some iv \<and> oi_OrgID (iv_inv iv) \<noteq> idStr n"
    by (simp add: s'(2) rows [OF k(2)])
  moreover have "\<forall>k a. mget (st_apikeys s') k = Some a \<longleftrightarrow>
       mget (st_apikeys s) k = Some a \<and> ak_OrgID (k_info a) \<noteq> idStr n"
    by (simp add: s'(2) rows [OF k(3)])
  ultimately show ?thesis using s'(1) by blast
qed

theorem delete_org_cascade_witness:
  "mget (st_groups (snd (DeleteOrg (snd (CreateOrgGroup 5 (snd (CreateOrg 4 New ''acme'' ''Acme'')) ''1'' ''eng'' []))
     ''1''))) 1 = None"
proof -
  let ?s = "snd (CreateOrgGroup 5 (snd (CreateOrg 4 New ''acme'' ''Acme'')) ''1'' ''eng'' [])"
  have s: "store_ok ?s" by (intro store_ok_steps) simp_all
  have p: "parseID ''1'' = Some 1" by code_simp
  have g: "map_option g_OrgID (mget (st_groups ?s) 1) = Some (idStr 1)" by code_simp
  note rows = delete_org_cascade [OF s p surjective_pairing, THEN conjunct2, THEN conjunct2, THEN conjunct2,
      THEN conjunct2, THEN conjunct2, THEN conjunct1]
  show ?thesis
  proof (cases "mget (st_groups (snd (DeleteOrg ?s ''1''))) 1")
    case (Some x)
    then have "mget (st_groups ?s) 1 = Some x \<and> g_OrgID x \<noteq> idStr 1" using rows by blast
    with g show ?thesis by simp
  qed
qed

text \<open>
  What \<open>DeleteOrg\<close> misses: \<open>CreateOrgInvite\<close> and \<open>CreateOrgAPIKey\<close> store the id as it was
  spelled, while the cascade matches the canonical id. An invite or key created under another
  spelling of the same organization's id (\<open>"01"\<close>) outlives the organization, and the invite is
  still accepted.
\<close>

theorem delete_org_keeps_noncanonical:
  assumes s: "store_ok s" and n: "org_key s i = Some n" and nc: "i \<noteq> idStr n"
    and live: "now < exp" and fresh: "\<forall>e \<in> set (st_orgInvites s). iv_hash (snd e) \<noteq> h"
  shows "let s1 = snd (CreateOrgInvite now s i email role by h exp);
             s2 = snd (DeleteOrg s1 i)
         in \<exists>iv. ConsumeOrgInvite now s2 h = (Ok iv, snd (ConsumeOrgInvite now s2 h)) \<and>
              oi_OrgID iv = i \<and> OrgByID s2 i = Err ErrNoOrg"
proof -
  let ?k = "Suc (st_inviteSeq s)"
  let ?inv = "\<lparr>oi_ID = idStr ?k, oi_OrgID = i, oi_Email = email, oi_Role = role,
                  oi_InvitedBy = by, oi_ExpiresAt = exp, oi_CreatedAt = now\<rparr>"
  let ?rec = "\<lparr>iv_inv = ?inv, iv_hash = h, iv_consumed = False\<rparr>"
  let ?m = "mprune (\<lambda>_. pending_for i email) (st_orgInvites s)"
  let ?s1 = "snd (CreateOrgInvite now s i email role by h exp)"
  let ?s2 = "snd (DeleteOrg ?s1 i)"
  have p: "parseID i = Some n" using n by (simp add: org_key_Some)
  have keys: "keys_ok ?m" by (intro keys_intros invites_ok_keys [OF org_ok_invites [OF store_ok_org [OF s]]])
  have iv: "st_orgInvites ?s2 = mprune (\<lambda>_ rec. oi_OrgID (iv_inv rec) = idStr n) (mput ?k ?rec ?m)"
    using n p by (simp add: CreateOrgInvite_def DeleteOrg_def Let_def)
  then have "set (st_orgInvites ?s2) \<subseteq> insert (?k, ?rec) (set ?m)" "(?k, ?rec) \<in> set (st_orgInvites ?s2)"
    using nc by (auto simp: set_mput [OF keys])
  then have all: "\<forall>e \<in> set (st_orgInvites ?s2). valid_invite now h (snd e) \<longrightarrow> e = (?k, ?rec)"
    and ex: "(?k, ?rec) \<in> set (st_orgInvites ?s2)" "valid_invite now h ?rec"
    using fresh live by (auto simp: valid_invite_def)
  have "findValidInviteLocked now ?s2 h = Some (?k, ?rec)"
  proof (cases "findValidInviteLocked now ?s2 h")
    case None
    then show ?thesis using ex by (auto simp: findValidInviteLocked_def find_None_iff)
  next
    case (Some e)
    then show ?thesis using find_SomeD [OF Some [unfolded findValidInviteLocked_def]] all by auto
  qed
  moreover have "OrgByID ?s2 i = Err ErrNoOrg" using p by (simp add: OrgByID_def DeleteOrg_def Let_def)
  ultimately show ?thesis by (simp add: Let_def ConsumeOrgInvite_def)
qed

theorem delete_org_keeps_noncanonical_witness:
  "\<exists>iv. fst (ConsumeOrgInvite 5 (snd (DeleteOrg (snd (CreateOrgInvite 5 (snd (CreateOrg 4 New ''acme'' ''Acme''))
     ''01'' ''a@x'' ''owner'' ''boss'' ''h'' 9)) ''01'')) ''h'') = Ok iv \<and> oi_OrgID iv = ''01''"
proof -
  let ?s = "snd (CreateOrg 4 New ''acme'' ''Acme'')"
  have s: "store_ok ?s" by (intro store_ok_steps) simp_all
  have k: "org_key ?s ''01'' = Some 1" "''01'' \<noteq> idStr 1" "st_orgInvites ?s = []" by code_simp+
  from k(3) have "\<forall>e \<in> set (st_orgInvites ?s). iv_hash (snd e) \<noteq> ''h''" by simp
  from delete_org_keeps_noncanonical [OF s k(1,2) _ this, of 5 9 "''a@x''" "''owner''" "''boss''"]
  show ?thesis by (simp add: Let_def) (metis fst_conv)
qed

section \<open>Invites\<close>

text \<open>
  An invite is accepted once and read consistently: \<open>PeekOrgInvite\<close> shows what
  \<open>ConsumeOrgInvite\<close> would accept; an accepted invite was unexpired and, when its hash is
  unique, is refused and no longer listed afterwards; the others stay as they were.
\<close>

theorem invite_consume:
  assumes s: "store_ok s" and run: "ConsumeOrgInvite now s h = (r, s')"
    and uniq: "\<forall>e \<in> set (st_orgInvites s). \<forall>e' \<in> set (st_orgInvites s).
      iv_hash (snd e) = h \<longrightarrow> iv_hash (snd e') = h \<longrightarrow> e = e'"
  shows "r = PeekOrgInvite now s h \<and>
    (\<forall>iv. r = Ok iv \<longrightarrow> now < oi_ExpiresAt iv \<and> (\<forall>t. PeekOrgInvite t s' h = Err ErrTokenInvalid) \<and>
       (\<forall>t i l. OrgInvites t s' i = Ok l \<longrightarrow> iv \<notin> set l)) \<and>
    (\<forall>k rec. iv_hash rec \<noteq> h \<longrightarrow>
       (mget (st_orgInvites s') k = Some rec \<longleftrightarrow> mget (st_orgInvites s) k = Some rec))"
proof (cases "findValidInviteLocked now s h")
  case None
  then show ?thesis using run by (auto simp: ConsumeOrgInvite_def PeekOrgInvite_def)
next
  case (Some e)
  obtain iid rec where e: "e = (iid, rec)" by (cases e)
  note k = invites_ok_keys [OF org_ok_invites [OF store_ok_org [OF s]]]
  have v: "valid_invite now h rec" "(iid, rec) \<in> set (st_orgInvites s)"
    using find_SomeD [OF Some [unfolded findValidInviteLocked_def]] e by auto
  then have m: "mget (st_orgInvites s) iid = Some rec" by (simp add: mget_iff_in [OF k])
  have r: "r = Ok (iv_inv rec)"
    and s': "s' = s\<lparr>st_orgInvites := mmod iid (\<lambda>r. r\<lparr>iv_consumed := True\<rparr>) (st_orgInvites s)\<rparr>"
    using run Some e by (simp_all add: ConsumeOrgInvite_def)
  have k': "keys_ok (st_orgInvites s')" using k by (simp add: s')
  have spent: "iv_consumed x" if "(j, x) \<in> set (st_orgInvites s')" "iv_hash x = h \<or> iv_inv x = iv_inv rec" for j x
  proof -
    have g: "mget (st_orgInvites s') j = Some x" using that(1) by (simp add: mget_iff_in [OF k'])
    show ?thesis
    proof (cases "j = iid")
      case True
      then show ?thesis using g m by (auto simp: s')
    next
      case False
      then have j: "mget (st_orgInvites s) j = Some x" using g by (simp add: s')
      have t: "table_ok (st_inviteSeq s) (\<lambda>k r. oi_ID (iv_inv r) = idStr k) (\<lambda>r. oi_ID (iv_inv r)) (st_orgInvites s)"
        using org_ok_invites [OF store_ok_org [OF s]] by (simp add: invites_ok_def)
      from that(2) have "j = iid"
      proof
        assume "iv_hash x = h"
        moreover have "(j, x) \<in> set (st_orgInvites s)" using j by (rule mget_in_set)
        ultimately have "(j, x) = (iid, rec)" using v uniq by (fastforce simp: valid_invite_def)
        then show ?thesis by simp
      next
        assume "iv_inv x = iv_inv rec"
        then show ?thesis using table_ok_unique_key [OF t j m] by simp
      qed
      with False show ?thesis by simp
    qed
  qed
  have peek: "PeekOrgInvite t s' h = Err ErrTokenInvalid" for t
  proof (cases "findValidInviteLocked t s' h")
    case (Some x)
    then show ?thesis using find_SomeD [OF Some [unfolded findValidInviteLocked_def]] spent
      by (cases x) (auto simp: valid_invite_def)
  qed (simp add: PeekOrgInvite_def)
  have lst: "iv_inv rec \<notin> set l" if "OrgInvites t s' i = Ok l" for t i l
    using that spent by (auto simp: OrgInvites_def in_mvals split: option.splits)
  have oth: "mget (st_orgInvites s') k = Some x \<longleftrightarrow> mget (st_orgInvites s) k = Some x"
    if "iv_hash x \<noteq> h" for k x
  proof (cases "k = iid")
    case True
    then show ?thesis using m that v by (auto simp: s' valid_invite_def)
  qed (simp add: s')
  show ?thesis using r v Some e peek lst oth by (auto simp: PeekOrgInvite_def valid_invite_def)
qed

theorem invite_consume_witness:
  "\<exists>iv. ConsumeOrgInvite 5 (snd (CreateOrgInvite 5 (snd (CreateOrg 4 New ''acme'' ''Acme''))
      ''1'' ''a@x'' ''owner'' ''boss'' ''h'' 9)) ''h'' = (Ok iv, snd (ConsumeOrgInvite 5 (snd (CreateOrgInvite 5 (snd (CreateOrg 4 New ''acme'' ''Acme''))
      ''1'' ''a@x'' ''owner'' ''boss'' ''h'' 9)) ''h'')) \<and> 5 < oi_ExpiresAt iv"
proof -
  let ?s = "snd (CreateOrgInvite 5 (snd (CreateOrg 4 New ''acme'' ''Acme'')) ''1'' ''a@x'' ''owner'' ''boss'' ''h'' 9)"
  have s: "store_ok ?s" by (intro store_ok_steps) simp_all
  have l: "length (st_orgInvites ?s) = 1" by code_simp
  then have u: "\<forall>e \<in> set (st_orgInvites ?s). \<forall>e' \<in> set (st_orgInvites ?s).
      iv_hash (snd e) = ''h'' \<longrightarrow> iv_hash (snd e') = ''h'' \<longrightarrow> e = e'"
    by (auto simp: length_Suc_conv)
  obtain iv where iv: "fst (ConsumeOrgInvite 5 ?s ''h'') = Ok iv"
  proof -
    have "(case fst (ConsumeOrgInvite 5 ?s ''h'') of Inr _ \<Rightarrow> True | Inl _ \<Rightarrow> False)" by code_simp
    then show thesis using that by (auto split: sum.splits)
  qed
  with invite_consume [OF s surjective_pairing u] show ?thesis by (metis prod.collapse)
qed

text \<open>
  Inviting an address again replaces its pending invite: afterwards the organization's list
  shows the new invite and no other pending one for that address, whatever was pending before.
\<close>

theorem reinvite_replaces:
  assumes s: "store_ok s" and n: "org_key s i = Some n" and live: "now < exp" and t: "t \<le> now"
    and run: "CreateOrgInvite now s i email role by h exp = (r, s')"
  shows "\<exists>iv l. r = Ok iv \<and> oi_Role iv = role \<and> OrgInvites t s' i = Ok l \<and>
    {x \<in> set l. oi_Email x = email} = {iv} \<and>
    (\<forall>x. oi_Email x \<noteq> email \<longrightarrow> (\<forall>l0. OrgInvites t s i = Ok l0 \<longrightarrow> (x \<in> set l \<longleftrightarrow> x \<in> set l0)))"
proof -
  let ?k = "Suc (st_inviteSeq s)"
  let ?inv = "\<lparr>oi_ID = idStr ?k, oi_OrgID = i, oi_Email = email, oi_Role = role,
                  oi_InvitedBy = by, oi_ExpiresAt = exp, oi_CreatedAt = now\<rparr>"
  let ?rec = "\<lparr>iv_inv = ?inv, iv_hash = h, iv_consumed = False\<rparr>"
  let ?m = "mprune (\<lambda>_. pending_for i email) (st_orgInvites s)"
  let ?sel = "\<lambda>rec. oi_OrgID (iv_inv rec) = i \<and> \<not> iv_consumed rec \<and> t < oi_ExpiresAt (iv_inv rec)"
  note iv_ok = org_ok_invites [OF store_ok_org [OF s]]
  note k = invites_ok_keys [OF iv_ok]
  have km: "keys_ok ?m" by (intro keys_intros k)
  have r: "r = Ok ?inv" and s': "s' = s\<lparr>st_inviteSeq := ?k, st_orgInvites := mput ?k ?rec ?m\<rparr>"
    using run n by (simp_all add: CreateOrgInvite_def Let_def)
  have fresh: "mget (st_orgInvites s) ?k = None"
    using table_ok_fresh [OF conjunct1 [OF iv_ok [unfolded invites_ok_def]], of ?k] by simp
  have rows: "set (st_orgInvites s') = insert (?k, ?rec) {e \<in> set (st_orgInvites s). \<not> pending_for i email (snd e)}"
    using fresh set_mput [OF km, of ?k ?rec] by (auto simp: s' map_of_eq_None_iff image_iff)
  have k': "org_key s' i = Some n" using n by (simp add: s' org_key_Some)
  obtain l where l: "OrgInvites t s' i = Ok l" "set l = iv_inv ` {rec. (\<exists>k. (k, rec) \<in> set (st_orgInvites s')) \<and> ?sel rec}"
    using k' by (auto simp: OrgInvites_def in_mvals)
  have "set l = insert ?inv (iv_inv ` {rec. (\<exists>k. (k, rec) \<in> set (st_orgInvites s)) \<and> ?sel rec \<and>
      oi_Email (iv_inv rec) \<noteq> email})"
  proof -
    define rc where "rc = ?rec"
    have sel: "?sel rc" "iv_inv rc = ?inv" using live t by (simp_all add: rc_def)
    have "{rec. (\<exists>k. (k, rec) \<in> set (st_orgInvites s')) \<and> ?sel rec} =
        insert rc {rec. (\<exists>k. (k, rec) \<in> set (st_orgInvites s)) \<and> ?sel rec \<and> oi_Email (iv_inv rec) \<noteq> email}"
      using sel(1) unfolding rows rc_def [symmetric] by (auto simp: pending_for_def)
    then show ?thesis unfolding l(2) by (simp add: sel(2))
  qed
  moreover have "set l0 = iv_inv ` {rec. (\<exists>k. (k, rec) \<in> set (st_orgInvites s)) \<and> ?sel rec}"
    if "OrgInvites t s i = Ok l0" for l0
    using that [symmetric] n by (simp add: OrgInvites_def in_mvals)
  ultimately show ?thesis
    using r l(1) by (intro exI [of _ ?inv] exI [of _ l]) auto
qed

theorem reinvite_replaces_witness:
  "\<exists>iv l. OrgInvites 5 (snd (CreateOrgInvite 5 (snd (CreateOrgInvite 4 (snd (CreateOrg 4 New ''acme'' ''Acme''))
      ''1'' ''a@x'' ''member'' ''boss'' ''g'' 9)) ''1'' ''a@x'' ''owner'' ''boss'' ''h'' 9)) ''1'' = Ok l \<and>
     oi_Role iv = ''owner'' \<and> {x \<in> set l. oi_Email x = ''a@x''} = {iv}"
proof -
  let ?s = "snd (CreateOrgInvite 4 (snd (CreateOrg 4 New ''acme'' ''Acme'')) ''1'' ''a@x'' ''member'' ''boss'' ''g'' 9)"
  have s: "store_ok ?s" by (intro store_ok_steps) simp_all
  have k: "org_key ?s ''1'' = Some 1" by code_simp
  from reinvite_replaces [OF s k _ _ surjective_pairing, of 5 9 5 "''a@x''" "''owner''" "''boss''" "''h''"]
  show ?thesis by auto
qed

end
