(* ===== verification/OrgView.thy ===== *)
theory OrgView
  imports OrgLaws
begin

text \<open>
  The org-scoped directory view (\<open>orgdirectory.go\<close>): one organization presented as a complete
  directory for a customer's SCIM server. The view holds three interfaces to one store; here
  they are the in-memory store, so a method of the view maps the organization's id and the
  store to a result and the new store. \<open>NewOrgScopedDirectory\<close> refuses an id that is not an
  organization.
\<close>

section \<open>The view\<close>

definition AddGroupMembers :: "store \<Rightarrow> string list \<Rightarrow> string \<Rightarrow> unit result \<times> store" where
  "AddGroupMembers s userIDs groupID =
     (if userIDs = [] then (Ok (), s) else MemDirectory.AddUsersToGroup s userIDs groupID)"

definition RemoveGroupMembers :: "store \<Rightarrow> string list \<Rightarrow> string \<Rightarrow> unit result \<times> store" where
  "RemoveGroupMembers s userIDs groupID =
     (if userIDs = [] then (Ok (), s) else MemDirectory.RemoveUsersFromGroup s userIDs groupID)"

definition NewOrgScopedDirectory :: "store \<Rightarrow> string \<Rightarrow> string result" where
  "NewOrgScopedDirectory s orgID = (case OrgByID s orgID of Inl e \<Rightarrow> Err e | Inr _ \<Rightarrow> Ok orgID)"

definition orgSubPrefix :: "string \<Rightarrow> string" where
  "orgSubPrefix orgID = ''scim:org'' @ orgID @ '':''"

definition nsSub :: "string \<Rightarrow> string \<Rightarrow> string" where
  "nsSub orgID sub =
     (if has_prefix sub (orgSubPrefix orgID) then sub
      else if has_prefix sub ''scim:'' then orgSubPrefix orgID @ drop (length ''scim:'') sub
      else sub)"

definition memberRole :: "string \<Rightarrow> store \<Rightarrow> string \<Rightarrow> string result" where
  "memberRole orgID s userID = OrgRole s orgID userID"

definition isMember :: "string \<Rightarrow> store \<Rightarrow> string \<Rightarrow> bool" where
  "isMember orgID s userID = (case memberRole orgID s userID of Inr _ \<Rightarrow> True | Inl _ \<Rightarrow> False)"

definition ensureMember :: "string \<Rightarrow> store \<Rightarrow> string \<Rightarrow> unit result \<times> store" where
  "ensureMember orgID s userID = (case memberRole orgID s userID of
     Inl e \<Rightarrow> if e = ErrNotOrgMember then SetOrgMember s orgID userID OrgRoleMember else (Err e, s)
   | Inr _ \<Rightarrow> (Ok (), s))"

definition view_ListUsers :: "string \<Rightarrow> store \<Rightarrow> AuthUser list result" where
  "view_ListUsers orgID s = (case OrgMembers s orgID of
     Inl e \<Rightarrow> Err e | Inr members \<Rightarrow> Ok (map om_User members))"

definition view_UserByID :: "string \<Rightarrow> store \<Rightarrow> string \<Rightarrow> AuthUser result" where
  "view_UserByID orgID s i = (case MemDirectory.UserByID s i of
     Inl e \<Rightarrow> Err e
   | Inr u \<Rightarrow> if \<not> isMember orgID s (au_ID u) then Err ErrNoUser else Ok u)"

definition view_UserByEmail :: "string \<Rightarrow> store \<Rightarrow> string \<Rightarrow> AuthUser result" where
  "view_UserByEmail orgID s email = (case MemIdentity.UserByEmail s email of
     Inl e \<Rightarrow> Err e
   | Inr u \<Rightarrow> if \<not> isMember orgID s (au_ID u) then Err ErrNoUser else Ok u)"

definition view_UpsertExternalUser ::
  "time \<Rightarrow> string \<Rightarrow> store \<Rightarrow> string \<Rightarrow> string \<Rightarrow> string \<Rightarrow> bool \<Rightarrow> AuthUser result \<times> store" where
  "view_UpsertExternalUser now orgID s sub email name emailVerified =
     (let ns = nsSub orgID sub in
      if \<not> has_prefix ns (orgSubPrefix orgID) then (Err ErrEmailConflict, s)
      else
        let upsert = (case UpsertExternalUser now s ns email name emailVerified of
          (Inl e, s1) \<Rightarrow> (Err e, s1)
        | (Inr u, s1) \<Rightarrow> (case ensureMember orgID s1 (au_ID u) of
            (Inl e, s2) \<Rightarrow> (Err e, s2)
          | (Inr _, s2) \<Rightarrow> (Ok u, s2)))
        in case MemIdentity.UserByEmail s email of
          Inr existing \<Rightarrow> if au_Sub existing \<noteq> ns then (Err ErrEmailConflict, s) else upsert
        | Inl e \<Rightarrow> if e \<noteq> ErrNoUser then (Err e, s) else upsert)"

definition view_SetUserDisabled :: "string \<Rightarrow> store \<Rightarrow> string \<Rightarrow> bool \<Rightarrow> unit result \<times> store" where
  "view_SetUserDisabled orgID s userID disabled = (case memberRole orgID s userID of
     Inl e \<Rightarrow> if e = ErrNotOrgMember
       then (if disabled then (Ok (), s) else (Err ErrNoUser, s)) else (Err e, s)
   | Inr role \<Rightarrow>
       if \<not> disabled then (Ok (), s)
       else if role = OrgRoleOwner then (Err ErrOrgOwnerDeprovision, s)
       else RemoveOrgMember s orgID userID)"

definition view_SetUserBan :: "string \<Rightarrow> store \<Rightarrow> unit result \<times> store" where
  "view_SetUserBan orgID s = (Err ErrOrgView, s)"

definition view_CreateGroup :: "time \<Rightarrow> string \<Rightarrow> store \<Rightarrow> string \<Rightarrow> string \<Rightarrow> Group result \<times> store" where
  "view_CreateGroup now orgID s name description = CreateOrgGroup now s orgID name description"

definition view_Groups :: "string \<Rightarrow> store \<Rightarrow> Group list result" where
  "view_Groups orgID s = OrgGroups s orgID"

definition view_GroupByName :: "string \<Rightarrow> store \<Rightarrow> string \<Rightarrow> Group result" where
  "view_GroupByName orgID s name = OrgGroupByName s orgID name"

definition groupInOrg :: "string \<Rightarrow> store \<Rightarrow> string \<Rightarrow> error option" where
  "groupInOrg orgID s groupID = (case OrgOfGroup s groupID of
     Inl e \<Rightarrow> Some e
   | Inr o' \<Rightarrow> if o' \<noteq> orgID then Some ErrNoGroup else None)"

definition view_DeleteGroup :: "string \<Rightarrow> store \<Rightarrow> string \<Rightarrow> unit result \<times> store" where
  "view_DeleteGroup orgID s i = (case groupInOrg orgID s i of
     Some e \<Rightarrow> (Err e, s) | None \<Rightarrow> MemDirectory.DeleteGroup s i)"

definition view_AddUserToGroup :: "string \<Rightarrow> store \<Rightarrow> string \<Rightarrow> string \<Rightarrow> unit result \<times> store" where
  "view_AddUserToGroup orgID s userID groupID = (case groupInOrg orgID s groupID of
     Some e \<Rightarrow> (Err e, s)
   | None \<Rightarrow> if \<not> isMember orgID s userID then (Err ErrNoUser, s)
             else MemDirectory.AddUserToGroup s userID groupID)"

definition view_RemoveUserFromGroup :: "string \<Rightarrow> store \<Rightarrow> string \<Rightarrow> string \<Rightarrow> unit result \<times> store" where
  "view_RemoveUserFromGroup orgID s userID groupID = (case groupInOrg orgID s groupID of
     Some e \<Rightarrow> (Err e, s)
   | None \<Rightarrow> MemDirectory.RemoveUserFromGroup s userID groupID)"

definition orgMemberScanMin :: nat where "orgMemberScanMin = 16"

text \<open>The two ways \<open>orgMembersOf\<close> filters: a role look-up per id, or one read of the list.\<close>

fun members_by_lookup :: "string \<Rightarrow> store \<Rightarrow> string list \<Rightarrow> string list result" where
  "members_by_lookup orgID s [] = Ok []"
| "members_by_lookup orgID s (uid # uids) = (case memberRole orgID s uid of
     Inr _ \<Rightarrow> (case members_by_lookup orgID s uids of Inr l \<Rightarrow> Ok (uid # l) | Inl e \<Rightarrow> Err e)
   | Inl e \<Rightarrow> if e \<noteq> ErrNotOrgMember then Err e else members_by_lookup orgID s uids)"

definition members_by_scan :: "string \<Rightarrow> store \<Rightarrow> string list \<Rightarrow> string list result" where
  "members_by_scan orgID s uids = (case OrgMembers s orgID of
     Inl e \<Rightarrow> Err e
   | Inr members \<Rightarrow>
       let isM = map (\<lambda>m. au_ID (om_User m)) members
       in Ok (filter (\<lambda>uid. uid \<in> set isM) uids))"

definition orgMembersOf :: "string \<Rightarrow> store \<Rightarrow> string list \<Rightarrow> string list result" where
  "orgMembersOf orgID s userIDs =
     (if length userIDs < orgMemberScanMin then members_by_lookup orgID s userIDs
      else members_by_scan orgID s userIDs)"

definition view_AddUsersToGroup :: "string \<Rightarrow> store \<Rightarrow> string list \<Rightarrow> string \<Rightarrow> unit result \<times> store" where
  "view_AddUsersToGroup orgID s userIDs groupID = (case groupInOrg orgID s groupID of
     Some e \<Rightarrow> (Err e, s)
   | None \<Rightarrow> (case orgMembersOf orgID s userIDs of
       Inl e \<Rightarrow> (Err e, s)
     | Inr members \<Rightarrow> AddGroupMembers s members groupID))"

definition view_RemoveUsersFromGroup :: "string \<Rightarrow> store \<Rightarrow> string list \<Rightarrow> string \<Rightarrow> unit result \<times> store" where
  "view_RemoveUsersFromGroup orgID s userIDs groupID = (case groupInOrg orgID s groupID of
     Some e \<Rightarrow> (Err e, s) | None \<Rightarrow> RemoveGroupMembers s userIDs groupID)"

definition view_GroupMembers :: "string \<Rightarrow> store \<Rightarrow> string \<Rightarrow> AuthUser list result" where
  "view_GroupMembers orgID s groupID = (case groupInOrg orgID s groupID of
     Some e \<Rightarrow> Err e | None \<Rightarrow> MemDirectory.GroupMembers s groupID)"

definition view_UserGroups :: "string \<Rightarrow> store \<Rightarrow> string \<Rightarrow> Group list result" where
  "view_UserGroups orgID s userID = UserOrgGroups s orgID userID"

text \<open>The API-key methods of the view answer an error whatever they are given.\<close>

definition view_CreateAPIKey :: "APIKeyInfo result" where "view_CreateAPIKey = Err ErrOrgView"
definition view_APIKeyByHash :: "APIKeyInfo result" where "view_APIKeyByHash = Err ErrNoCredential"
definition view_ListAPIKeys :: "APIKeyInfo list result" where "view_ListAPIKeys = Err ErrOrgView"
definition view_RevokeAPIKey :: "unit result" where "view_RevokeAPIKey = Err ErrOrgView"
definition view_TouchAPIKey :: "unit result" where "view_TouchAPIKey = Err ErrOrgView"

text \<open>The state-changing methods as the steps a customer's SCIM server can make.\<close>

inductive view_step :: "string \<Rightarrow> store \<Rightarrow> store \<Rightarrow> bool" for orgID where
  Upsert: "view_step orgID s (snd (view_UpsertExternalUser now orgID s sub e nm v))"
| SetDisabled: "view_step orgID s (snd (view_SetUserDisabled orgID s u b))"
| SetBan: "view_step orgID s (snd (view_SetUserBan orgID s))"
| CreateGroup: "view_step orgID s (snd (view_CreateGroup now orgID s nm d))"
| DeleteGroup: "view_step orgID s (snd (view_DeleteGroup orgID s i))"
| AddUser: "view_step orgID s (snd (view_AddUserToGroup orgID s u g))"
| RemoveUser: "view_step orgID s (snd (view_RemoveUserFromGroup orgID s u g))"
| AddUsers: "view_step orgID s (snd (view_AddUsersToGroup orgID s us g))"
| RemoveUsers: "view_step orgID s (snd (view_RemoveUsersFromGroup orgID s us g))"

section \<open>Membership as an interface\<close>

text \<open>
  The view decides who is a member through two calls of the organization store. What
  \<open>ensureMember\<close> needs of them: reading a role does not depend on anything but the state, and
  setting one makes it readable and leaves the other roles alone.
\<close>

locale member_store =
  fixes role :: "'s \<Rightarrow> string \<Rightarrow> string result"
    and set_role :: "'s \<Rightarrow> string \<Rightarrow> string \<Rightarrow> unit result \<times> 's"
    and same :: "string \<Rightarrow> string \<Rightarrow> bool"
  assumes set_ok: "set_role s u r = (Ok (), s') \<Longrightarrow> role s' u = Ok r"
    and set_other: "set_role s u r = (x, s') \<Longrightarrow> \<not> same u v \<Longrightarrow> role s' v = role s v"
    and set_err: "set_role s u r = (Err e, s') \<Longrightarrow> s' = s"
begin

definition ensure :: "'s \<Rightarrow> string \<Rightarrow> unit result \<times> 's" where
  "ensure s u = (case role s u of
     Inl e \<Rightarrow> if e = ErrNotOrgMember then set_role s u OrgRoleMember else (Err e, s)
   | Inr _ \<Rightarrow> (Ok (), s))"

lemma ensure_makes_member: "ensure s u = (Ok (), s') \<Longrightarrow> \<exists>r. role s' u = Ok r"
  by (auto simp: ensure_def dest: set_ok split: sum.splits if_splits)

lemma ensure_keeps_role: "role s u = Ok r \<Longrightarrow> ensure s u = (Ok (), s)"
  by (simp add: ensure_def)

lemma ensure_idem: "ensure s u = (Ok (), s') \<Longrightarrow> ensure s' u = (Ok (), s')"
  using ensure_makes_member ensure_keeps_role by metis

lemma ensure_other:
  assumes "ensure s u = (x, s')" and "\<not> same u v"
  shows "role s' v = role s v"
  using assms set_other [OF _ assms(2)]
  by (cases "role s u") (simp_all add: ensure_def split: if_splits)

end

lemma SetOrgMember_Ok:
  assumes "SetOrgMember s i u r = (Ok (), s')"
  shows "\<exists>n uid. org_key s i = Some n \<and> parseID u = Some uid \<and>
    s' = s\<lparr>st_orgMembers := mput n (mput uid r (sget (st_orgMembers s) n)) (st_orgMembers s)\<rparr>"
  using assms by (auto simp: SetOrgMember_def split: option.splits if_splits)

interpretation members: member_store "memberRole orgID" "\<lambda>s u r. SetOrgMember s orgID u r"
  "\<lambda>u v. parseID u = parseID v" for orgID
proof
  fix s s' :: store and u v r x e
  show "SetOrgMember s orgID u r = (Ok (), s') \<Longrightarrow> memberRole orgID s' u = Ok r"
    by (auto dest!: SetOrgMember_Ok simp: memberRole_def OrgRole_def org_key_def split: option.splits if_splits)
  show "SetOrgMember s orgID u r = (Err e, s') \<Longrightarrow> s' = s"
    by (auto simp: SetOrgMember_def split: option.splits if_splits)
  show "SetOrgMember s orgID u r = (x, s') \<Longrightarrow> parseID u \<noteq> parseID v \<Longrightarrow> memberRole orgID s' v = memberRole orgID s v"
    by (auto simp: SetOrgMember_def memberRole_def OrgRole_def org_key_def split: option.splits if_splits)
qed

lemma ensureMember_ensure: "ensureMember orgID s u = members.ensure orgID s u"
  by (simp add: ensureMember_def members.ensure_def)

text \<open>
  Provisioning never changes an existing membership: \<open>ensureMember\<close> leaves the store as it is
  for a user who has any role in the organization (an owner stays an owner), makes a non-member a
  plain member, is idempotent, and touches nobody else.
\<close>

theorem ensure_member:
  assumes run: "ensureMember orgID s u = (Ok (), s')"
  shows "(\<forall>r. memberRole orgID s u = Ok r \<longrightarrow> s' = s) \<and>
    (memberRole orgID s u = Err ErrNotOrgMember \<longrightarrow> memberRole orgID s' u = Ok OrgRoleMember) \<and>
    isMember orgID s' u \<and> ensureMember orgID s' u = (Ok (), s') \<and>
    (\<forall>v. parseID v \<noteq> parseID u \<longrightarrow> memberRole orgID s' v = memberRole orgID s v)"
proof -
  have e: "members.ensure orgID s u = (Ok (), s')" using run by (simp add: ensureMember_ensure)
  have "\<forall>r. memberRole orgID s u = Ok r \<longrightarrow> s' = s" using e by (auto dest: members.ensure_keeps_role)
  moreover have "memberRole orgID s u = Err ErrNotOrgMember \<longrightarrow> memberRole orgID s' u = Ok OrgRoleMember"
    using run members.set_ok [of s orgID u OrgRoleMember s'] by (auto simp: ensureMember_def)
  moreover have "isMember orgID s' u"
    using members.ensure_makes_member [OF e] by (auto simp: isMember_def)
  moreover have "ensureMember orgID s' u = (Ok (), s')"
    using members.ensure_idem [OF e] by (simp add: ensureMember_ensure)
  moreover have "\<forall>v. parseID v \<noteq> parseID u \<longrightarrow> memberRole orgID s' v = memberRole orgID s v"
    using members.ensure_other [OF e] by metis
  ultimately show ?thesis by blast
qed

theorem ensure_member_witness:
  "isMember ''1'' (snd (ensureMember ''1'' (snd (CreateOrg 4 (snd (CreateLocalUser 3 ''r'' New ''a@x'' ''A'')) ''acme'' ''Acme''))
     ''1'')) ''1''"
proof -
  let ?s = "snd (CreateOrg 4 (snd (CreateLocalUser 3 ''r'' New ''a@x'' ''A'')) ''acme'' ''Acme'')"
  have k: "org_key ?s ''1'' = Some 1" "parseID ''1'' = Some 1" "mget (st_users ?s) 1 \<noteq> None"
    "mget (sget (st_orgMembers ?s) 1) 1 = None" by code_simp+
  have "ensureMember ''1'' ?s ''1'' = (Ok (), snd (ensureMember ''1'' ?s ''1''))"
    using k by (simp add: ensureMember_def memberRole_def OrgRole_def SetOrgMember_def)
  from ensure_member [OF this] show ?thesis by blast
qed

section \<open>Tenant isolation\<close>

text \<open>
  What a step through the view of organization \<open>n\<close> must leave alone: every user outside the
  organization's subject namespace, all credentials and sessions, the roles in other
  organizations and the owners of this one, the groups of others with their members, and
  organizations, invites and API keys.
\<close>

definition others_untouched :: "nat \<Rightarrow> store \<Rightarrow> store \<Rightarrow> bool" where
  "others_untouched n s s' \<longleftrightarrow>
     (\<forall>k u. mget (st_users s) k = Some u \<longrightarrow> \<not> has_prefix (u_sub u) (orgSubPrefix (idStr n)) \<longrightarrow>
        mget (st_users s') k = Some u) \<and>
     (\<forall>m v. m \<noteq> n \<longrightarrow> role_of s' m v = role_of s m v) \<and>
     (\<forall>v. role_of s n v = Some OrgRoleOwner \<longrightarrow> role_of s' n v = Some OrgRoleOwner) \<and>
     (\<forall>k g. mget (st_groups s) k = Some g \<longrightarrow> g_OrgID g \<noteq> idStr n \<longrightarrow>
        mget (st_groups s') k = Some g \<and> (\<forall>v. in_group s' v k \<longleftrightarrow> in_group s v k)) \<and>
     st_passwords s' = st_passwords s \<and> st_passkeys s' = st_passkeys s \<and> st_oauth s' = st_oauth s \<and>
     st_tokens s' = st_tokens s \<and> st_sessions s' = st_sessions s \<and> st_totp s' = st_totp s \<and>
     st_recovery s' = st_recovery s \<and> st_orgs s' = st_orgs s \<and>
     st_orgInvites s' = st_orgInvites s \<and> st_apikeys s' = st_apikeys s"

lemma others_untouched_refl [simp]: "others_untouched n s s"
  by (simp add: others_untouched_def)

lemma others_untouched_trans:
  "others_untouched n s s' \<Longrightarrow> others_untouched n s' s'' \<Longrightarrow> others_untouched n s s''"
  unfolding others_untouched_def
  by (elim conjE, intro conjI) (((intro allI impI)?, simp (no_asm_simp); fail) | (intro allI impI; blast))+

lemma parse_owned:
  assumes s: "store_ok s" and g: "mget (st_groups s) k = Some g"
  shows "parseID (g_OrgID g) = Some n \<Longrightarrow> g_OrgID g = idStr n"
proof -
  assume p: "parseID (g_OrgID g) = Some n"
  then have "g_OrgID g \<noteq> []" by auto
  then obtain m where m: "g_OrgID g = idStr m"
    using org_ok_refs [OF store_ok_org [OF s]] g by (auto simp: group_refs_ok_def)
  then have "m < 2 ^ 64 \<and> 1 \<le> m"
    using p by (auto simp: parseID_def parse_uint_def idStr_def split: option.splits if_splits)
  with m p show ?thesis by simp
qed

lemma RemoveOrgMember_others:
  assumes s: "store_ok s" and n: "parseID orgID = Some n" "orgID = idStr n"
    and role: "memberRole orgID s u \<noteq> Ok OrgRoleOwner"
  shows "others_untouched n s (snd (RemoveOrgMember s orgID u))"
proof (cases "parseID u")
  case None
  then show ?thesis by (simp add: RemoveOrgMember_def split: option.split)
next
  case (Some uid)
  let ?s' = "snd (RemoveOrgMember s orgID u)"
  note r = remove_org_member_effect [OF n(1) Some, of s]
  have other: "\<not> owned_group s n k" if "mget (st_groups s) k = Some g" "g_OrgID g \<noteq> idStr n" for k g
    using that parse_owned [OF s that(1)] by (auto simp: owned_group_def)
  have key: "org_key s orgID = Some n" if "role_of s n v \<noteq> None" for v
  proof -
    have "mget (st_orgMembers s) n \<noteq> None" using that by (auto simp: role_of_def sget_def split: option.splits)
    then have "mget (st_orgs s) n \<noteq> None"
      using org_ok_members [OF store_ok_org [OF s]] by (auto simp: members_ok_def)
    then show ?thesis using n by (simp add: org_key_Some)
  qed
  have owner: "role_of s n uid \<noteq> Some OrgRoleOwner"
    using role key [of uid] OrgRole_role_of [OF _ Some, of s orgID n]
    by (auto simp: memberRole_def)
  have rest: "st_passwords ?s' = st_passwords s" "st_passkeys ?s' = st_passkeys s" "st_oauth ?s' = st_oauth s"
    "st_tokens ?s' = st_tokens s" "st_sessions ?s' = st_sessions s" "st_totp ?s' = st_totp s"
    "st_recovery ?s' = st_recovery s" "st_orgs ?s' = st_orgs s" "st_orgInvites ?s' = st_orgInvites s"
    "st_apikeys ?s' = st_apikeys s" "st_groups ?s' = st_groups s" "st_users ?s' = st_users s"
    by (simp_all add: RemoveOrgMember_def Let_def split: option.split)
  show ?thesis
    unfolding others_untouched_def using r other owner by (auto simp: rest)
qed

text \<open>The user rows after the upsert of a subject in the organization's namespace.\<close>

lemma view_upsert_rows:
  assumes s: "store_ok s" and pre: "has_prefix ns (orgSubPrefix (idStr n))"
    and free: "\<And>x. UserByEmail s email = Ok x \<Longrightarrow> au_Sub x = ns"
  shows "others_untouched n s (snd (UpsertUserOnLogin now s ns email nm v))"
proof -
  note c = store_ok_cred [OF s]
  note us = cred_ok_users [OF c]
  have own: "u_sub x = ns" if "mget (st_users s) k = Some x" "u_email x = norm email" for k x
  proof -
    have "findByEmail s email = Some x" using findByEmail_Some [OF us] that by blast
    then show ?thesis using free [of "view x"] by (simp add: UserByEmail_def view_def)
  qed
  have framed: "others_untouched n s s'"
    if "s' = s\<lparr>st_seq := q, st_users := us'\<rparr>"
      "\<And>k u. mget (st_users s) k = Some u \<Longrightarrow> \<not> has_prefix (u_sub u) (orgSubPrefix (idStr n)) \<Longrightarrow>
         mget us' k = Some u" for s' q us'
    using that(2) by (simp add: that(1) others_untouched_def role_of_def in_group_def)
  from c show ?thesis
  proof (cases rule: upsert_cases [of s ns email now nm v])
    case (update k u)
    show ?thesis
      by (rule framed [where q = "st_seq s" and us' = "mmod k
          (\<lambda>u. mark_verified v (u\<lparr>u_email := norm email, u_name := nm\<rparr>)) (st_users s)"])
        (use update pre in \<open>auto simp: rebind_user_def\<close>)
  next
    case (adopt k u)
    then have "u_sub u = ns" by (simp add: own)
    then show ?thesis using adopt(1,4) findBySub_None [OF us, of ns] by auto
  next
    case (reclaim k u)
    then have "u_sub u = ns" by (simp add: own)
    then show ?thesis using reclaim(1,4) findBySub_None [OF us, of ns] by auto
  next
    case create
    have new: "mget (st_users s) (Suc (st_seq s)) = None"
      using table_ok_fresh [OF users_ok_email [OF us]] by blast
    show ?thesis
      by (rule framed [where q = "Suc (st_seq s)" and us' = "mput (Suc (st_seq s))
          (new_user now (Suc (st_seq s)) ns (norm email) nm v) (st_users s)"])
        (use create new in \<open>auto simp: insert_user_def Let_def\<close>)
  qed simp
qed

lemma ensureMember_others:
  assumes n: "parseID (idStr n) = Some n"
  shows "others_untouched n s (snd (ensureMember (idStr n) s u))"
proof (cases "memberRole (idStr n) s u")
  case (Inl e)
  show ?thesis
  proof (cases "e = ErrNotOrgMember \<and> (\<exists>s'. SetOrgMember s (idStr n) u OrgRoleMember = (Ok (), s'))")
    case True
    then obtain s' where s': "SetOrgMember s (idStr n) u OrgRoleMember = (Ok (), s')" by blast
    obtain m uid where m: "org_key s (idStr n) = Some m" "parseID u = Some uid"
      "s' = s\<lparr>st_orgMembers := mput m (mput uid OrgRoleMember (sget (st_orgMembers s) m)) (st_orgMembers s)\<rparr>"
      using SetOrgMember_Ok [OF s'] by blast
    have mn: "m = n" using m(1) n by (simp add: org_key_Some)
    have "role_of s n uid = None"
      using Inl True m(1,2) OrgRole_role_of [OF m(1,2)] by (auto simp: memberRole_def mn split: option.splits)
    then have "role_of s' a v = (if a = n \<and> v = uid then Some OrgRoleMember else role_of s a v)" for a v
      by (simp add: role_of_def m(3) mn)
    with \<open>role_of s n uid = None\<close> have "others_untouched n s s'"
      by (simp add: others_untouched_def in_group_def) (simp add: m(3))
    then show ?thesis using Inl True s' by (simp add: ensureMember_def)
  next
    case False
    have "snd (ensureMember (idStr n) s u) = s"
    proof (cases "SetOrgMember s (idStr n) u OrgRoleMember")
      case (Pair r s')
      show ?thesis
      proof (cases r)
        case (Inl e')
        with Pair have "s' = s" using members.set_err by blast
        with Pair \<open>memberRole (idStr n) s u = Inl e\<close> show ?thesis by (simp add: ensureMember_def)
      next
        case (Inr x)
        with Pair False have "e \<noteq> ErrNotOrgMember" by auto
        with \<open>memberRole (idStr n) s u = Inl e\<close> show ?thesis by (simp add: ensureMember_def)
      qed
    qed
    then show ?thesis by simp
  qed
qed (simp add: ensureMember_def)

lemma groupInOrg_None:
  "groupInOrg orgID s g = None \<Longrightarrow>
   \<exists>k x. parseID g = Some k \<and> mget (st_groups s) k = Some x \<and> g_OrgID x = orgID"
  by (auto simp: groupInOrg_def OrgOfGroup_def split: option.splits sum.splits if_splits)

text \<open>A change of memberships confined to one group of the organization.\<close>

lemma one_group_others:
  assumes x: "mget (st_groups s) k = Some x" "g_OrgID x = idStr n"
    and gs: "groups' = st_groups s \<or> groups' = mdel k (st_groups s)"
    and ms: "\<And>v j. j \<noteq> k \<Longrightarrow> j \<in> set (sget ms' v) \<longleftrightarrow> j \<in> set (sget (st_memberships s) v)"
  shows "others_untouched n s (s\<lparr>st_groups := groups', st_memberships := ms'\<rparr>)"
proof -
  have "j \<noteq> k" if "mget (st_groups s) j = Some g" "g_OrgID g \<noteq> idStr n" for j g
    using x that by auto
  then show ?thesis using gs ms by (auto simp: others_untouched_def role_of_def in_group_def)
qed

lemma view_step_others:
  assumes st: "view_step (idStr n) s s'" and s: "store_ok s" and n: "parseID (idStr n) = Some n"
  shows "others_untouched n s s'"
  using st
proof cases
  case (Upsert now sub e nm v)
  let ?ns = "nsSub (idStr n) sub"
  let ?u = "UpsertUserOnLogin now s ?ns e nm v"
  have "others_untouched n s (snd ?u)"
    if "has_prefix ?ns (orgSubPrefix (idStr n))" "\<And>x. UserByEmail s e = Ok x \<Longrightarrow> au_Sub x = ?ns"
    using view_upsert_rows [OF s that] .
  moreover have "others_untouched n s (snd (ensureMember (idStr n) t w))" if "others_untouched n s t" for t w
    using others_untouched_trans [OF that ensureMember_others [OF n]] .
  ultimately show ?thesis
    unfolding Upsert view_UpsertExternalUser_def Let_def UpsertExternalUser_def
    by (auto split: sum.split prod.split) (metis snd_conv)+
next
  case (SetDisabled u b)
  have "others_untouched n s (snd (RemoveOrgMember s (idStr n) u))"
    if "memberRole (idStr n) s u = Ok role" "role \<noteq> OrgRoleOwner" for role
    using RemoveOrgMember_others [OF s n refl] that by simp
  then show ?thesis unfolding SetDisabled
    by (auto simp: view_SetUserDisabled_def split: sum.split)
next
  case (CreateGroup now nm d)
  note g = dir_ok_groups [OF store_ok_dir [OF s], unfolded groups_ok_def]
  have "mget (st_groups s) (Suc (st_groupSeq s)) = None" using table_ok_fresh [OF g] by blast
  then show ?thesis unfolding CreateGroup
    by (auto simp: view_CreateGroup_def CreateOrgGroup_def Let_def others_untouched_def role_of_def
        in_group_def split: option.split)
next
  case (DeleteGroup i)
  show ?thesis
  proof (cases "groupInOrg (idStr n) s i")
    case None
    then obtain k x where k: "parseID i = Some k" "mget (st_groups s) k = Some x" "g_OrgID x = idStr n"
      using groupInOrg_None by blast
    have "others_untouched n s (s\<lparr>st_groups := mdel k (st_groups s),
        st_memberships := mmap (removeAll k) (st_memberships s)\<rparr>)"
      by (rule one_group_others [OF k(2,3)]) auto
    then show ?thesis using DeleteGroup None k by (simp add: view_DeleteGroup_def DeleteGroup_def)
  qed (simp add: DeleteGroup view_DeleteGroup_def)
next
  case (AddUser u g)
  show ?thesis
  proof (cases "groupInOrg (idStr n) s g")
    case None
    then obtain k x where k: "parseID g = Some k" "mget (st_groups s) k = Some x" "g_OrgID x = idStr n"
      using groupInOrg_None by blast
    have "others_untouched n s (s\<lparr>st_groups := st_groups s,
        st_memberships := add_member w k (st_memberships s)\<rparr>)" for w
      by (rule one_group_others [OF k(2,3)]) (auto simp: add_member_def)
    then show ?thesis using AddUser None k
      by (simp add: view_AddUserToGroup_def AddUserToGroup_def split: option.split)
  qed (simp add: AddUser view_AddUserToGroup_def)
next
  case (RemoveUser u g)
  show ?thesis
  proof (cases "groupInOrg (idStr n) s g")
    case None
    then obtain k x where k: "parseID g = Some k" "mget (st_groups s) k = Some x" "g_OrgID x = idStr n"
      using groupInOrg_None by blast
    have "others_untouched n s (s\<lparr>st_groups := st_groups s,
        st_memberships := mmod w (removeAll k) (st_memberships s)\<rparr>)" for w
      by (rule one_group_others [OF k(2,3)]) auto
    then show ?thesis using RemoveUser None k
      by (simp add: view_RemoveUserFromGroup_def RemoveUserFromGroup_def split: option.split)
  qed (simp add: RemoveUser view_RemoveUserFromGroup_def)
next
  case (AddUsers us g)
  show ?thesis
  proof (cases "groupInOrg (idStr n) s g")
    case None
    then obtain k x where k: "parseID g = Some k" "mget (st_groups s) k = Some x" "g_OrgID x = idStr n"
      using groupInOrg_None by blast
    have "others_untouched n s (s\<lparr>st_groups := st_groups s,
        st_memberships := add_members k ws (st_memberships s)\<rparr>)" for ws
      by (rule one_group_others [OF k(2,3)]) (auto simp: set_add_members)
    then show ?thesis using AddUsers None k
      by (simp add: view_AddUsersToGroup_def AddGroupMembers_def AddUsersToGroup_def split: sum.split)
  qed (simp add: AddUsers view_AddUsersToGroup_def)
next
  case (RemoveUsers us g)
  show ?thesis
  proof (cases "groupInOrg (idStr n) s g")
    case None
    then obtain k x where k: "parseID g = Some k" "mget (st_groups s) k = Some x" "g_OrgID x = idStr n"
      using groupInOrg_None by blast
    have "others_untouched n s (s\<lparr>st_groups := st_groups s,
        st_memberships := remove_members k ws (st_memberships s)\<rparr>)" for ws
      by (rule one_group_others [OF k(2,3)]) (auto simp: set_remove_members)
    then show ?thesis using RemoveUsers None k
      by (simp add: view_RemoveUsersFromGroup_def RemoveGroupMembers_def RemoveUsersFromGroup_def)
  qed (simp add: RemoveUsers view_RemoveUsersFromGroup_def)
qed (simp add: view_SetUserBan_def)

text \<open>Every method of the view keeps the store's invariant, so the steps compose.\<close>

lemma view_step_ok:
  assumes st: "view_step orgID s s'" and s: "store_ok s"
  shows "store_ok s'"
proof -
  have dir: "store_ok (snd (SetOrgMember t i u r))" "store_ok (snd (MemDirectory.AddUserToGroup t u g))"
    "store_ok (snd (MemDirectory.RemoveUserFromGroup t u g))" "store_ok (snd (MemDirectory.AddUsersToGroup t us g))"
    "store_ok (snd (MemDirectory.RemoveUsersFromGroup t us g))" "store_ok (snd (MemDirectory.DeleteGroup t g))"
    "store_ok (snd (RemoveOrgMember t i u))" "store_ok (snd (CreateOrgGroup now t i nm d))"
    if "store_ok t" for t i u r g us now nm d
    using that by (auto intro: dir_step_ok dir_step.intros)
  have ens: "store_ok (snd (ensureMember orgID t w))" if "store_ok t" for t w
    using that dir(1) by (auto simp: ensureMember_def split: sum.split)
  from st show ?thesis
  proof cases
    case (Upsert now sub e nm v)
    have "store_ok (snd (UpsertUserOnLogin now s ns e nm v))" for ns using s by (rule Upsert_store_ok)
    then show ?thesis
      unfolding Upsert view_UpsertExternalUser_def Let_def UpsertExternalUser_def
      using s ens by (auto split: sum.split prod.split) (metis snd_conv)+
  qed (use s dir in \<open>auto simp: view_SetUserDisabled_def view_SetUserBan_def view_CreateGroup_def
      view_DeleteGroup_def view_AddUserToGroup_def view_RemoveUserFromGroup_def
      view_AddUsersToGroup_def view_RemoveUsersFromGroup_def AddGroupMembers_def
      RemoveGroupMembers_def split: sum.split option.split\<close>)
qed

inductive view_run :: "string \<Rightarrow> store \<Rightarrow> store \<Rightarrow> bool" for orgID where
  stop: "view_run orgID s s"
| step: "view_run orgID s s' \<Longrightarrow> view_step orgID s' s'' \<Longrightarrow> view_run orgID s s''"

text \<open>
  C19: Tenant isolation. Whatever sequence of calls a customer's SCIM server makes through the view of
  its organization, it never changes a user outside that organization's own subject namespace,
  any password, passkey, social link, token, session, second factor, invite, API key or
  organization, a role in another organization, or a group of another organization or of the
  global namespace and its members; and it never removes or demotes an owner of its own.
\<close>

theorem tenant_isolation:
  assumes "view_run (idStr n) s s'" and "store_ok s" and "1 \<le> n" and "n < 2 ^ 64"
  shows "others_untouched n s s'"
proof -
  have "others_untouched n s s' \<and> store_ok s'" using assms
  proof (induction rule: view_run.induct)
    case (step s s1 s2)
    then have "others_untouched n s1 s2" using view_step_others by simp
    with step show ?case using others_untouched_trans view_step_ok by blast
  qed simp
  then show ?thesis by blast
qed

theorem tenant_isolation_witness:
  "others_untouched 1 (snd (CreateOrg 4 (snd (CreateLocalUser 3 ''r'' New ''a@x'' ''A'')) ''acme'' ''Acme''))
     (snd (view_UpsertExternalUser 5 (idStr 1) (snd (CreateOrg 4 (snd (CreateLocalUser 3 ''r'' New ''a@x'' ''A'')) ''acme'' ''Acme''))
        ''scim:bob'' ''a@x'' ''Bob'' True))"
proof -
  let ?s = "snd (CreateOrg 4 (snd (CreateLocalUser 3 ''r'' New ''a@x'' ''A'')) ''acme'' ''Acme'')"
  have s: "store_ok ?s" by (intro store_ok_steps) simp_all
  have "view_run (idStr 1) ?s (snd (view_UpsertExternalUser 5 (idStr 1) ?s ''scim:bob'' ''a@x'' ''Bob'' True))"
    by (rule view_run.step [OF view_run.stop view_step.Upsert])
  from tenant_isolation [OF this s] show ?thesis by simp
qed

section \<open>The two ways to check a batch\<close>

lemma members_by_lookup_eq:
  assumes "org_key s orgID \<noteq> None"
  shows "members_by_lookup orgID s uids = Ok (filter (isMember orgID s) uids)"
proof (induction uids)
  case (Cons u uids)
  have "memberRole orgID s u = Err e \<Longrightarrow> e = ErrNotOrgMember" for e
    using assms by (auto simp: memberRole_def OrgRole_def split: option.splits)
  with Cons show ?case by (auto simp: isMember_def split: sum.split)
qed simp

text \<open>
  The batch shortcut is sound: for canonical user ids, reading the member list once (batches of
  16 and more) selects exactly the ids that one role look-up each selects (smaller batches), in
  the same order.
\<close>

theorem batch_check_equiv:
  assumes s: "store_ok s" and o: "org_key s orgID = Some n"
    and canon: "\<forall>u \<in> set uids. \<exists>k. u = idStr k \<and> 1 \<le> k \<and> k < 2 ^ 64"
  shows "members_by_scan orgID s uids = members_by_lookup orgID s uids \<and>
    members_by_lookup orgID s uids = Ok (filter (isMember orgID s) uids)"
proof -
  let ?ms = "List.map_filter (\<lambda>(uid, role).
      map_option (\<lambda>u. \<lparr>om_User = view u, om_Role = role\<rparr>) (mget (st_users s) uid)) (sget (st_orgMembers s) n)"
  note us = cred_ok_users [OF store_ok_cred [OF s]]
  note mo = org_ok_members [OF store_ok_org [OF s]]
  have k: "keys_ok (sget (st_orgMembers s) n)" using mo by (simp add: members_ok_def)
  have "idStr j \<in> set (map (\<lambda>m. au_ID (om_User m)) ?ms) \<longleftrightarrow> isMember orgID s (idStr j)"
    if "1 \<le> j" "j < 2 ^ 64" for j
  proof -
    have "idStr j \<in> set (map (\<lambda>m. au_ID (om_User m)) ?ms) \<longleftrightarrow>
        (\<exists>uid r u. mget (sget (st_orgMembers s) n) uid = Some r \<and> mget (st_users s) uid = Some u \<and> u_id u = j)"
      by (auto simp: set_map_filter_eq mget_iff_in [OF k] view_def image_iff) force
    also have "\<dots> \<longleftrightarrow> (\<exists>r. mget (sget (st_orgMembers s) n) j = Some r)"
    proof
      assume "\<exists>uid r u. mget (sget (st_orgMembers s) n) uid = Some r \<and> mget (st_users s) uid = Some u \<and> u_id u = j"
      then show "\<exists>r. mget (sget (st_orgMembers s) n) j = Some r" using users_ok_row [OF us] by metis
    next
      assume "\<exists>r. mget (sget (st_orgMembers s) n) j = Some r"
      then obtain r where r: "mget (sget (st_orgMembers s) n) j = Some r" ..
      then have "mget (st_users s) j \<noteq> None" using mo unfolding members_ok_def by blast
      then obtain u where "mget (st_users s) j = Some u" by blast
      with r show "\<exists>uid r u. mget (sget (st_orgMembers s) n) uid = Some r \<and> mget (st_users s) uid = Some u \<and> u_id u = j"
        using users_ok_row [OF us] by metis
    qed
    also have "\<dots> \<longleftrightarrow> isMember orgID s (idStr j)"
      using that o by (auto simp: isMember_def memberRole_def OrgRole_def split: option.split)
    finally show ?thesis .
  qed
  note each = this
  have sel: "u \<in> (\<lambda>m. au_ID (om_User m)) ` set ?ms \<longleftrightarrow> isMember orgID s u" if "u \<in> set uids" for u
  proof -
    from bspec [OF canon that] obtain j where j: "u = idStr j" "1 \<le> j" "j < 2 ^ 64" by (elim exE conjE)
    show ?thesis using each [OF j(2,3)] unfolding j(1) set_map .
  qed
  have "members_by_scan orgID s uids = Ok (filter (isMember orgID s) uids)"
  proof -
    have "filter (\<lambda>uid. uid \<in> set (map (\<lambda>m. au_ID (om_User m)) (sort_by lt ?ms))) uids =
        filter (isMember orgID s) uids" for lt
      by (intro filter_cong refl) (simp only: set_map set_sort_by sel)
    then show ?thesis by (simp only: members_by_scan_def OrgMembers_def Let_def o option.case sum.case)
  qed
  moreover have "members_by_lookup orgID s uids = Ok (filter (isMember orgID s) uids)"
    by (rule members_by_lookup_eq) (simp add: o)
  ultimately show ?thesis by simp
qed

theorem batch_check_equiv_witness:
  "members_by_scan ''1'' (snd (SetOrgMember (snd (CreateOrg 4 (snd (CreateLocalUser 3 ''r'' New ''a@x'' ''A'')) ''acme'' ''Acme''))
     ''1'' ''1'' ''owner'')) [''1'', ''2''] = Ok [''1'']"
proof -
  let ?s = "snd (SetOrgMember (snd (CreateOrg 4 (snd (CreateLocalUser 3 ''r'' New ''a@x'' ''A'')) ''acme'' ''Acme''))
     ''1'' ''1'' ''owner'')"
  have s: "store_ok ?s" by (intro store_ok_steps) simp_all
  have o: "org_key ?s ''1'' = Some 1" by code_simp
  have i: "idStr 1 = ''1''" "idStr 2 = ''2''" by code_simp+
  then have "\<forall>u \<in> set [''1'', ''2'']. \<exists>k. u = idStr k \<and> 1 \<le> k \<and> k < 2 ^ 64" by (auto intro: exI [of _ 1] exI [of _ 2])
  from batch_check_equiv [OF s o this] have "members_by_scan ''1'' ?s [''1'', ''2''] = Ok (filter (isMember ''1'' ?s) [''1'', ''2''])"
    by simp
  moreover have "isMember ''1'' ?s ''1''" "\<not> isMember ''1'' ?s ''2''" by code_simp+
  ultimately show ?thesis by simp
qed

end
