(* ===== verification/TraceLaws.thy ===== *)
theory TraceLaws
  imports MemTrace
begin

text \<open>
  Laws over whole histories of the in-memory store: a one-time secret is spent no more often
  than it was issued, whatever other calls are interleaved. The argument is the same for tokens,
  e-mail codes, invites and refresh tokens, so it is made once, in the locale \<open>metered\<close>: a
  measure of the state that a step lowers by what it spends and raises by what it issues.
\<close>

section \<open>Metered secrets\<close>

locale metered =
  fixes stock :: "store \<Rightarrow> nat" and gain :: "event \<Rightarrow> nat" and cost :: "event \<Rightarrow> nat"
  assumes step: "store_ok s \<Longrightarrow> mem_step s ev s' \<Longrightarrow> stock s' + cost ev \<le> stock s + gain ev"
begin

lemma trace:
  assumes "mem_trace s evs s'" and "store_ok s"
  shows "stock s' + sum_list (map cost evs) \<le> stock s + sum_list (map gain evs)"
  using assms
proof induction
  case (extend s evs s' ev s'')
  then have "store_ok s'" using mem_trace_ok by blast
  from step [OF this extend.hyps(2)] extend show ?case by simp
qed simp

lemma spent_le_issued:
  assumes "mem_trace New evs s'" and "stock New = 0"
  shows "sum_list (map cost evs) \<le> sum_list (map gain evs)"
  using trace [OF assms(1)] assms(2) by simp

end

lemma sum_list_count: "sum_list (map (\<lambda>x. if P x then 1 else 0) xs) = length (filter P xs)"
  by (induction xs) auto

text \<open>The components a group of methods does not touch.\<close>

lemma frame_fields:
  "dir_frame s s' \<Longrightarrow> st_tokens s' = st_tokens s \<and> st_otps s' = st_otps s \<and> st_totp s' = st_totp s \<and>
     st_recovery s' = st_recovery s \<and> st_oauthRefresh s' = st_oauthRefresh s \<and> st_sessions s' = st_sessions s"
  "tfa_frame s s' \<Longrightarrow> st_tokens s' = st_tokens s \<and> st_otps s' = st_otps s \<and>
     st_orgInvites s' = st_orgInvites s \<and> st_oauthRefresh s' = st_oauthRefresh s"
  "oauth_frame s s' \<Longrightarrow> st_tokens s' = st_tokens s \<and> st_otps s' = st_otps s \<and>
     st_orgInvites s' = st_orgInvites s \<and> st_totp s' = st_totp s \<and> st_recovery s' = st_recovery s \<and>
     st_sessions s' = st_sessions s"
proof -
  assume "dir_frame s s'"
  then obtain x :: store where "s' = s\<lparr>st_users := st_users x, st_groups := st_groups x,
     st_groupSeq := st_groupSeq x, st_memberships := st_memberships x,
     st_apikeys := st_apikeys x, st_apiSeq := st_apiSeq x, st_orgs := st_orgs x,
     st_orgSeq := st_orgSeq x, st_orgMembers := st_orgMembers x,
     st_orgInvites := st_orgInvites x, st_inviteSeq := st_inviteSeq x\<rparr>"
    unfolding dir_frame_def by (rule that)
  then show "st_tokens s' = st_tokens s \<and> st_otps s' = st_otps s \<and> st_totp s' = st_totp s \<and>
     st_recovery s' = st_recovery s \<and> st_oauthRefresh s' = st_oauthRefresh s \<and> st_sessions s' = st_sessions s"
    by simp
next
  assume "tfa_frame s s'"
  then obtain x :: store where "s' = s\<lparr>st_sessions := st_sessions x, st_totp := st_totp x,
     st_recovery := st_recovery x\<rparr>"
    unfolding tfa_frame_def by (rule that)
  then show "st_tokens s' = st_tokens s \<and> st_otps s' = st_otps s \<and>
     st_orgInvites s' = st_orgInvites s \<and> st_oauthRefresh s' = st_oauthRefresh s" by simp
next
  assume "oauth_frame s s'"
  then obtain x :: store where "s' = s\<lparr>st_oauthClients := st_oauthClients x,
     st_oauthRequests := st_oauthRequests x, st_oauthGrants := st_oauthGrants x,
     st_oauthAccess := st_oauthAccess x, st_oauthRefresh := st_oauthRefresh x,
     st_oauthKeys := st_oauthKeys x\<rparr>"
    unfolding oauth_frame_def by (rule that)
  then show "st_tokens s' = st_tokens s \<and> st_otps s' = st_otps s \<and>
     st_orgInvites s' = st_orgInvites s \<and> st_totp s' = st_totp s \<and> st_recovery s' = st_recovery s \<and>
     st_sessions s' = st_sessions s" by simp
qed

lemma step_frames:
  "dir_step s ev s' \<Longrightarrow> dir_frame s s'"
  "tfa_step s ev s' \<Longrightarrow> tfa_frame s s'"
  "oauth_step s ev s' \<Longrightarrow> oauth_frame s s'"
proof -
  assume "dir_step s ev s'"
  then show "dir_frame s s'"
    by cases (simp_all, (metis org_frames(8) snd_conv)+)
next
  assume "tfa_step s ev s'"
  then show "tfa_frame s s'"
    by cases (simp_all, (metis tfa_frames(8,10) snd_conv)+)
next
  assume "oauth_step s ev s'"
  then show "oauth_frame s s'"
    by cases (simp_all, (metis oauth_frames(11) snd_conv)+)
qed

text \<open>The single-use tokens after each method of \<open>memory.go\<close>.\<close>

definition pending_tokens :: "string \<Rightarrow> bytes \<Rightarrow> store \<Rightarrow> nat" where
  "pending_tokens p h s =
     length (filter (\<lambda>t. t_purpose t = p \<and> t_hash t = h \<and> t_consumedAt t = None) (st_tokens s))"

lemma consume_loop_pending:
  assumes "consume_loop now p h ts = (r, ts')"
  shows "length (filter (\<lambda>t. t_purpose t = q \<and> t_hash t = g \<and> t_consumedAt t = None) ts) =
    length (filter (\<lambda>t. t_purpose t = q \<and> t_hash t = g \<and> t_consumedAt t = None) ts') +
    (if (\<exists>c. r = Ok c) \<and> p = q \<and> h = g then 1 else 0)"
  using assms by (induction ts arbitrary: ts') (auto split: if_splits prod.splits)

lemma length_filter_filter: "length (filter (\<lambda>x. Q x \<and> P x) xs) \<le> length (filter P xs)"
  by (induction xs) auto

lemma cascade_tokens [simp]:
  "st_tokens (deleteUserCascadeLocked s n) = filter (\<lambda>t. t_userID t \<noteq> n) (st_tokens s)"
  "st_otps (deleteUserCascadeLocked s n) = st_otps s"
  "st_orgInvites (deleteUserCascadeLocked s n) = st_orgInvites s"
  by (simp_all add: deleteUserCascadeLocked_def)

lemma Upsert_tokens:
  "(\<exists>P. st_tokens (snd (UpsertUserOnLogin now s sub e nm v)) = filter P (st_tokens s)) \<and>
   st_otps (snd (UpsertUserOnLogin now s sub e nm v)) = st_otps s \<and>
   st_orgInvites (snd (UpsertUserOnLogin now s sub e nm v)) = st_orgInvites s"
  by (auto simp: UpsertUserOnLogin_def insert_user_def rebind_user_def Let_def
      intro: exI [of _ "\<lambda>_. True"] split: option.split)

lemma DeleteUser_tokens:
  "\<exists>P. st_tokens (snd (DeleteUser s u)) = filter P (st_tokens s)"
  by (auto simp: DeleteUser_def Let_def intro: exI [of _ "\<lambda>_. True"] split: option.split)

lemma cred_step_tokens:
  assumes "cred_step s ev s'"
  shows "pending_tokens p h s' + (if ev = TokenRedeemed p h then 1 else 0) \<le>
    pending_tokens p h s + (if ev = TokenIssued p h then 1 else 0)"
  using assms
proof cases
  case (ConsumeToken_Ok now q g c)
  then show ?thesis
    using consume_loop_pending [of now q g "st_tokens s" "Ok c" "st_tokens s'" p h]
    by (auto simp: ConsumeToken_def pending_tokens_def split: prod.splits)
next
  case (ConsumeToken_Err now q g er)
  then show ?thesis
    using consume_loop_pending [of now q g "st_tokens s" "Err er" "st_tokens s'" p h]
    by (auto simp: ConsumeToken_def pending_tokens_def split: prod.splits)
next
  case (VerifyEmailOTP q e oo now g r)
  then have "st_tokens s' = st_tokens s"
    by (auto simp: VerifyEmailOTP_def Let_def split: if_splits)
  with VerifyEmailOTP show ?thesis by (simp add: pending_tokens_def)
next
  case (DeleteUser u)
  then show ?thesis using DeleteUser_tokens [of s u]
    by (auto simp: pending_tokens_def length_filter_filter)
next
  case (UpsertUserOnLogin now sub e nm v)
  then show ?thesis using Upsert_tokens [of now s sub e nm v]
    by (auto simp: pending_tokens_def length_filter_filter)
next
  case (Authorize now i)
  then show ?thesis
    using Upsert_tokens [of now s "id_Subject i" "id_Email i" "id_Name i" "id_EmailVerified i"]
    by (auto simp: pending_tokens_def length_filter_filter Authorize_snd)
qed (simp_all add: pending_tokens_def cred_op_defs Let_def split: option.split)

interpretation tokens: metered "pending_tokens p h"
  "\<lambda>ev. if ev = TokenIssued p h then 1 else 0" "\<lambda>ev. if ev = TokenRedeemed p h then 1 else 0"
  for p h
proof
  fix s ev s'
  assume "mem_step s ev s'"
  then consider "cred_step s ev s'" | "dir_step s ev s'" | "tfa_step s ev s'" | "oauth_step s ev s'"
    unfolding mem_step_def by blast
  then show "pending_tokens p h s' + (if ev = TokenRedeemed p h then 1 else 0) \<le>
    pending_tokens p h s + (if ev = TokenIssued p h then 1 else 0)"
  proof cases
    case 2
    then show ?thesis using frame_fields(1) [OF step_frames(1) [OF 2]]
      by cases (simp_all add: pending_tokens_def)
  next
    case 3
    then show ?thesis using frame_fields(2) [OF step_frames(2) [OF 3]]
      by cases (simp_all add: pending_tokens_def)
  next
    case 4
    then show ?thesis using frame_fields(3) [OF step_frames(3) [OF 4]]
      by cases (simp_all add: pending_tokens_def)
  qed (rule cred_step_tokens)
qed

section \<open>E-mail codes\<close>

text \<open>How many more guesses the live code under a key stands for; at least one when there is a code.\<close>

definition guesses_left :: "string \<Rightarrow> store \<Rightarrow> nat" where
  "guesses_left k s = (case mget (st_otps s) k of
     None \<Rightarrow> 0 | Some oo \<Rightarrow> nat (max 1 (e_maxAttempts oo - e_attempts oo)))"

definition live_codes :: "string \<Rightarrow> store \<Rightarrow> nat" where
  "live_codes k s = (if mget (st_otps s) k = None then 0 else 1)"

definition code_gain :: "string \<Rightarrow> event \<Rightarrow> nat" where
  "code_gain k ev = (case ev of CodeIssued k' m \<Rightarrow> if k' = k then nat (max 1 m) else 0 | _ \<Rightarrow> 0)"

definition code_issued :: "string \<Rightarrow> event \<Rightarrow> nat" where
  "code_issued k ev = (case ev of CodeIssued k' m \<Rightarrow> if k' = k then 1 else 0 | _ \<Rightarrow> 0)"

definition is_guess :: "string \<Rightarrow> event \<Rightarrow> bool" where
  "is_guess k ev \<longleftrightarrow> (case ev of CodeGuessed k' b \<Rightarrow> k' = k | _ \<Rightarrow> False)"

lemma DeleteUser_otps:
  "keys_ok (st_otps s) \<Longrightarrow> mget (st_otps (snd (DeleteUser s u))) k = None \<or>
     mget (st_otps (snd (DeleteUser s u))) k = mget (st_otps s) k"
  by (auto simp: DeleteUser_def Let_def mget_mprune split: option.split)

text \<open>A verification either removes the code or, after a wrong guess, counts one attempt.\<close>

lemma verify_effect:
  assumes "mget (st_otps s) (otp_key p e) = Some oo" and "now \<le> e_expiresAt oo"
    and run: "VerifyEmailOTP now s p e h = (r, s')"
  shows "if e_codeHash oo = h \<or> e_maxAttempts oo \<le> e_attempts oo + 1
     then st_otps s' = mdel (otp_key p e) (st_otps s) \<and>
          (r = Ok \<lparr>tc_UserID = [], tc_Email = norm e\<rparr> \<longleftrightarrow> e_codeHash oo = h)
     else r = Err ErrTokenInvalid \<and>
          st_otps s' = mmod (otp_key p e) (\<lambda>x. x\<lparr>e_attempts := e_attempts x + 1\<rparr>) (st_otps s)"
  using assms by (auto simp: VerifyEmailOTP_def Let_def split: if_splits)

lemma verify_dead:
  "(case mget (st_otps s) (otp_key p e) of None \<Rightarrow> True | Some oo \<Rightarrow> e_expiresAt oo < now) \<Longrightarrow>
   st_otps (snd (VerifyEmailOTP now s p e h)) = st_otps s \<or>
   st_otps (snd (VerifyEmailOTP now s p e h)) = mdel (otp_key p e) (st_otps s)"
  by (auto simp: VerifyEmailOTP_def Let_def split: option.splits)

lemma cred_step_guesses:
  assumes st: "cred_step s ev s'" and s: "store_ok s"
  shows "guesses_left k s' + (if is_guess k ev then 1 else 0) \<le> guesses_left k s + code_gain k ev \<and>
    live_codes k s' + (if ev = CodeGuessed k True then 1 else 0) \<le> live_codes k s + code_issued k ev"
  using st
proof cases
  case (VerifyEmailOTP q e oo now g r)
  from verify_effect [OF VerifyEmailOTP(2,3,4)] show ?thesis
    using VerifyEmailOTP(1,2)
    by (cases "e_codeHash oo = g \<or> e_maxAttempts oo \<le> e_attempts oo + 1")
      (auto simp: guesses_left_def live_codes_def is_guess_def code_gain_def code_issued_def max_def)
next
  case (VerifyEmailOTP_dead q e now g)
  from verify_dead [OF VerifyEmailOTP_dead(3), of g] show ?thesis
    using VerifyEmailOTP_dead(1,2)
    by (auto simp: guesses_left_def live_codes_def is_guess_def split: if_splits)
next
  case (ConsumeToken_Ok now q g c)
  then have "st_otps s' = st_otps s" by (auto simp: ConsumeToken_def split: prod.splits)
  with ConsumeToken_Ok show ?thesis by (simp add: guesses_left_def live_codes_def is_guess_def)
next
  case (ConsumeToken_Err now q g er)
  then have "st_otps s' = st_otps s" by (auto simp: ConsumeToken_def split: prod.splits)
  with ConsumeToken_Err show ?thesis by (simp add: guesses_left_def live_codes_def is_guess_def)
next
  case (DeleteUser u)
  from DeleteUser_otps [OF cred_ok_otps [OF store_ok_cred [OF s]], of u k]
  show ?thesis using DeleteUser by (auto simp: guesses_left_def live_codes_def is_guess_def)
next
  case (UpsertUserOnLogin now sub e nm v)
  then show ?thesis using Upsert_tokens [of now s sub e nm v]
    by (simp add: guesses_left_def live_codes_def is_guess_def)
next
  case (Authorize now i)
  then show ?thesis
    using Upsert_tokens [of now s "id_Subject i" "id_Email i" "id_Name i" "id_EmailVerified i"]
    by (simp add: guesses_left_def live_codes_def is_guess_def Authorize_snd)
qed (simp_all add: guesses_left_def live_codes_def is_guess_def code_gain_def code_issued_def
      cred_op_defs Let_def split: option.split)

lemma mem_step_guesses:
  assumes "mem_step s ev s'" and s: "store_ok s"
  shows "guesses_left k s' + (if is_guess k ev then 1 else 0) \<le> guesses_left k s + code_gain k ev \<and>
    live_codes k s' + (if ev = CodeGuessed k True then 1 else 0) \<le> live_codes k s + code_issued k ev"
proof -
  from assms(1) consider "cred_step s ev s'" | "dir_step s ev s'" | "tfa_step s ev s'" | "oauth_step s ev s'"
    unfolding mem_step_def by blast
  then show ?thesis
  proof cases
    case 1
    then show ?thesis using s by (rule cred_step_guesses)
  next
    case 2
    then show ?thesis using frame_fields(1) [OF step_frames(1) [OF 2]]
      by cases (simp_all add: guesses_left_def live_codes_def is_guess_def)
  next
    case 3
    then show ?thesis using frame_fields(2) [OF step_frames(2) [OF 3]]
      by cases (simp_all add: guesses_left_def live_codes_def is_guess_def)
  next
    case 4
    then show ?thesis using frame_fields(3) [OF step_frames(3) [OF 4]]
      by cases (simp_all add: guesses_left_def live_codes_def is_guess_def)
  qed
qed

interpretation guesses: metered "guesses_left k" "code_gain k" "\<lambda>ev. if is_guess k ev then 1 else 0" for k
  using mem_step_guesses by unfold_locales blast

interpretation codes: metered "live_codes k" "code_issued k" "\<lambda>ev. if ev = CodeGuessed k True then 1 else 0" for k
  using mem_step_guesses by unfold_locales blast

section \<open>Invites and refresh tokens\<close>

definition pending_invites :: "bytes \<Rightarrow> store \<Rightarrow> nat" where
  "pending_invites h s =
     length (filter (\<lambda>e. iv_hash (snd e) = h \<and> \<not> iv_consumed (snd e)) (st_orgInvites s))"

lemma pending_invites_mdel:
  "length (filter P (mdel k m)) \<le> length (filter P m)" "length (filter P (mprune q m)) \<le> length (filter P m)"
  unfolding mdel_def mprune_def by (induction m) auto

lemma length_filter_mput_fresh:
  "mget m k = None \<Longrightarrow> length (filter P (mput k v m)) = length (filter P m) + (if P (k, v) then 1 else 0)"
  unfolding mput_def by (induction m) auto

lemma length_filter_mmod:
  assumes "keys_ok m" and "mget m k = Some v" and "P (k, v)" and "\<not> P (k, f v)"
  shows "Suc (length (filter P (mmod k f m))) = length (filter P m)"
  using assms
proof (induction m)
  case (Cons e m)
  have same: "fst e = k \<Longrightarrow> mmod k f m = m"
    using Cons.prems(1) unfolding mmod_def keys_ok_def
    by (intro map_idI) (auto simp: image_iff)
  show ?case
  proof (cases "fst e = k")
    case True
    then have "e = (k, v)" using Cons.prems(2) by (cases e) simp
    then show ?thesis using Cons.prems same [OF True] by (simp add: mmod_def)
  next
    case False
    then have "Suc (length (filter P (mmod k f m))) = length (filter P m)"
      using Cons by (cases e) (auto simp: keys_ok_def)
    with False show ?thesis by (cases e) (simp add: mmod_def)
  qed
qed simp

definition unused_refresh :: "string \<Rightarrow> store \<Rightarrow> nat" where
  "unused_refresh h s = (case mget (st_oauthRefresh s) h of
     None \<Rightarrow> 0 | Some t \<Rightarrow> if ot_UsedAt t = None then 1 else 0)"

lemma DeleteUser_invites:
  "st_orgInvites (snd (DeleteUser s u)) = st_orgInvites s \<or>
   (\<exists>q. st_orgInvites (snd (DeleteUser s u)) = mprune q (st_orgInvites s))"
  by (auto simp: DeleteUser_def Let_def split: option.split)

lemma cred_step_invites:
  assumes "cred_step s ev s'"
  shows "(st_orgInvites s' = st_orgInvites s \<or> (\<exists>q. st_orgInvites s' = mprune q (st_orgInvites s))) \<and>
    st_oauthRefresh s' = st_oauthRefresh s \<and> (\<forall>h. ev \<noteq> InviteUsed h) \<and> (\<forall>h. ev \<noteq> RefreshUsed h)"
  using assms
proof cases
  case (ConsumeToken_Ok now q g c)
  then show ?thesis by (auto simp: ConsumeToken_def split: prod.splits)
next
  case (ConsumeToken_Err now q g er)
  then show ?thesis by (auto simp: ConsumeToken_def split: prod.splits)
next
  case (VerifyEmailOTP q e oo now g r)
  then show ?thesis by (auto simp: VerifyEmailOTP_def Let_def split: if_splits)
next
  case (DeleteUser u)
  have "st_oauthRefresh (snd (DeleteUser s u)) = st_oauthRefresh s"
    by (simp add: DeleteUser_def deleteUserCascadeLocked_def Let_def split: option.split)
  with DeleteUser DeleteUser_invites [of s u] show ?thesis by simp
next
  case (UpsertUserOnLogin now sub e nm v)
  then show ?thesis using Upsert_tokens [of now s sub e nm v]
    by (simp add: UpsertUserOnLogin_def insert_user_def rebind_user_def deleteUserCascadeLocked_def
        Let_def split: option.split)
next
  case (Authorize now i)
  then show ?thesis
    by (simp add: Authorize_snd UpsertUserOnLogin_def insert_user_def rebind_user_def
        deleteUserCascadeLocked_def Let_def split: option.split)
qed (simp_all add: cred_op_defs Let_def split: option.split)

lemma dir_step_invites:
  assumes st: "dir_step s ev s'" and s: "store_ok s"
  shows "pending_invites h s' + (if ev = InviteUsed h then 1 else 0) \<le>
    pending_invites h s + (if ev = InviteIssued h then 1 else 0)"
proof -
  note iv = org_ok_invites [OF store_ok_org [OF s]]
  note k = invites_ok_keys [OF iv]
  let ?P = "\<lambda>e. iv_hash (snd e) = h \<and> \<not> iv_consumed (snd e)"
  from st show ?thesis
  proof cases
    case (CreateOrgInvite g now i e r b t)
    show ?thesis
    proof (cases "org_key s i")
      case (Some n)
      let ?m = "mprune (\<lambda>_. pending_for i e) (st_orgInvites s)"
      have "mget ?m (Suc (st_inviteSeq s)) = None"
        using table_ok_fresh [OF conjunct1 [OF iv [unfolded invites_ok_def]], of "Suc (st_inviteSeq s)"]
        by (simp add: mget_mprune [OF k])
      from length_filter_mput_fresh [OF this, of ?P]
      show ?thesis
        using CreateOrgInvite Some pending_invites_mdel(2) [of ?P "\<lambda>_. pending_for i e" "st_orgInvites s"]
        by (simp add: pending_invites_def CreateOrgInvite_def Let_def)
    qed (use CreateOrgInvite in \<open>simp add: pending_invites_def CreateOrgInvite_def\<close>)
  next
    case (ConsumeOrgInvite_Ok now g iv')
    then obtain iid rec where f: "findValidInviteLocked now s g = Some (iid, rec)"
      and s': "st_orgInvites s' = mmod iid (\<lambda>r. r\<lparr>iv_consumed := True\<rparr>) (st_orgInvites s)"
      by (auto simp: ConsumeOrgInvite_def split: option.splits)
    have v: "valid_invite now g rec" "(iid, rec) \<in> set (st_orgInvites s)"
      using find_SomeD [OF f [unfolded findValidInviteLocked_def]] by auto
    then have m: "mget (st_orgInvites s) iid = Some rec" by (simp add: mget_iff_in [OF k])
    show ?thesis
    proof (cases "g = h")
      case True
      then have "?P (iid, rec)" using v by (simp add: valid_invite_def)
      from length_filter_mmod [OF k m, of ?P "\<lambda>r. r\<lparr>iv_consumed := True\<rparr>"] this
      show ?thesis using ConsumeOrgInvite_Ok True by (simp add: pending_invites_def s')
    next
      case False
      have "length (filter ?P (mmod iid (\<lambda>r. r\<lparr>iv_consumed := True\<rparr>) m)) \<le> length (filter ?P m)" for m
        by (induction m) (auto simp: mmod_def)
      then show ?thesis using ConsumeOrgInvite_Ok False by (simp add: pending_invites_def s')
    qed
  next
    case (ConsumeOrgInvite_Err now g er)
    then show ?thesis
      by (auto simp: ConsumeOrgInvite_def pending_invites_def split: option.splits)
  qed (simp_all add: pending_invites_def dir_op_defs org_op_defs Let_def pending_invites_mdel
      split: option.split)
qed

lemma mem_step_invites:
  assumes "mem_step s ev s'" and s: "store_ok s"
  shows "pending_invites h s' + (if ev = InviteUsed h then 1 else 0) \<le>
    pending_invites h s + (if ev = InviteIssued h then 1 else 0)"
proof -
  from assms(1) consider "cred_step s ev s'" | "dir_step s ev s'" | "tfa_step s ev s'" | "oauth_step s ev s'"
    unfolding mem_step_def by blast
  then show ?thesis
  proof cases
    case 1
    have "pending_invites h s' \<le> pending_invites h s"
      using cred_step_invites [OF 1] by (auto simp: pending_invites_def pending_invites_mdel)
    then show ?thesis using cred_step_invites [OF 1] by auto
  next
    case 2
    then show ?thesis using s by (rule dir_step_invites)
  next
    case 3
    then show ?thesis using frame_fields(2) [OF step_frames(2) [OF 3]]
      by cases (simp_all add: pending_invites_def)
  next
    case 4
    then show ?thesis using frame_fields(3) [OF step_frames(3) [OF 4]]
      by cases (simp_all add: pending_invites_def)
  qed
qed

interpretation invites: metered "pending_invites h"
  "\<lambda>ev. if ev = InviteIssued h then 1 else 0" "\<lambda>ev. if ev = InviteUsed h then 1 else 0" for h
  using mem_step_invites by unfold_locales blast

text \<open>The cascades of the OAuth tables only remove refresh tokens.\<close>

definition refresh_sub :: "store \<Rightarrow> store \<Rightarrow> bool" where
  "refresh_sub s s' \<longleftrightarrow> (\<exists>P. st_oauthRefresh s' = filter P (st_oauthRefresh s))"

lemma refresh_sub_trans: "refresh_sub s s' \<Longrightarrow> refresh_sub s' s'' \<Longrightarrow> refresh_sub s s''"
  by (auto simp: refresh_sub_def)

lemma refresh_sub_eq: "st_oauthRefresh s' = st_oauthRefresh s \<Longrightarrow> refresh_sub s s'"
  by (auto simp: refresh_sub_def intro: exI [of _ "\<lambda>_. True"])

lemma refresh_sub_prune: "st_oauthRefresh s' = mprune q (st_oauthRefresh s) \<Longrightarrow> refresh_sub s s'"
  by (auto simp: refresh_sub_def mprune_def)

lemma refresh_sub_fold: "(\<And>x s. refresh_sub s (f x s)) \<Longrightarrow> refresh_sub s (fold f xs s)"
  by (induction xs arbitrary: s) (auto intro: refresh_sub_trans refresh_sub_eq)

lemma refresh_sub_grant: "refresh_sub s (deleteGrantLocked i s)"
  by (rule refresh_sub_prune) (simp add: deleteGrantLocked_def)

lemma refresh_sub_client: "refresh_sub s (deleteClientLocked i s)"
proof -
  let ?s1 = "s\<lparr>st_oauthClients := mdel i (st_oauthClients s),
      st_oauthRequests := mprune (\<lambda>_ r. or_ClientID r = i) (st_oauthRequests s)\<rparr>"
  let ?s2 = "fold deleteGrantLocked (keys_with (\<lambda>g. og_ClientID g = i) (st_oauthGrants ?s1)) ?s1"
  have "refresh_sub s ?s1" by (rule refresh_sub_eq) simp
  moreover have "refresh_sub ?s1 ?s2" by (rule refresh_sub_fold) (rule refresh_sub_grant)
  moreover have "refresh_sub ?s2 (deleteClientLocked i s)"
    by (rule refresh_sub_prune) (simp add: deleteClientLocked_def Let_def)
  ultimately show ?thesis by (blast intro: refresh_sub_trans)
qed

lemma refresh_sub_expired: "refresh_sub s (snd (DeleteExpiredOAuth s now rb cb))"
proof -
  let ?s1 = "s\<lparr>st_oauthRequests := mprune (\<lambda>_ r. or_CreatedAt r < rb) (st_oauthRequests s),
      st_oauthAccess := mprune (\<lambda>_ t. oa_ExpiresAt t < now) (st_oauthAccess s),
      st_oauthRefresh := mprune (\<lambda>_ t. ot_ExpiresAt t < now) (st_oauthRefresh s)\<rparr>"
  let ?s2 = "fold deleteGrantLocked (keys_with (grant_expired now) (st_oauthGrants ?s1)) ?s1"
  have "refresh_sub s ?s1" by (rule refresh_sub_prune) simp
  moreover have "refresh_sub ?s1 ?s2" by (rule refresh_sub_fold) (rule refresh_sub_grant)
  moreover have "refresh_sub ?s2 (fold deleteClientLocked ks ?s2)" for ks
    by (rule refresh_sub_fold) (rule refresh_sub_client)
  ultimately show ?thesis
    by (simp add: DeleteExpiredOAuth_def Let_def) (blast intro: refresh_sub_trans)
qed

lemma unused_refresh_sub:
  assumes "refresh_sub s s'" and k: "keys_ok (st_oauthRefresh s)"
  shows "unused_refresh h s' \<le> unused_refresh h s"
proof -
  obtain P where P: "st_oauthRefresh s' = filter P (st_oauthRefresh s)"
    using assms(1) by (auto simp: refresh_sub_def)
  then have "mget (st_oauthRefresh s') h = None \<or> mget (st_oauthRefresh s') h = mget (st_oauthRefresh s) h"
    using mget_mprune [OF k, of "\<lambda>k v. \<not> P (k, v)" h]
    by (auto simp: mprune_def split: option.splits if_splits)
  then show ?thesis by (auto simp: unused_refresh_def)
qed

lemma oauth_ops_refresh [simp]:
  "st_oauthRefresh (snd (CreateOAuthClient s c)) = st_oauthRefresh s"
  "st_oauthRefresh (snd (TouchOAuthClient s i at)) = st_oauthRefresh s"
  "st_oauthRefresh (snd (SaveOAuthAuthRequest s rq)) = st_oauthRefresh s"
  "st_oauthRefresh (snd (DeleteOAuthAuthRequest s i)) = st_oauthRefresh s"
  "st_oauthRefresh (snd (CreateOAuthGrant s g)) = st_oauthRefresh s"
  "st_oauthRefresh (snd (RevokeOAuthGrants s f at)) = st_oauthRefresh s"
  "st_oauthRefresh (snd (CreateOAuthAccessToken s tk)) = st_oauthRefresh s"
  "st_oauthRefresh (snd (DeleteOAuthAccessToken s i)) = st_oauthRefresh s"
  "st_oauthRefresh (snd (AddOAuthSigningKey s k)) = st_oauthRefresh s"
  "st_oauthRefresh (snd (RetireOAuthSigningKey s i at)) = st_oauthRefresh s"
  "st_oauthRefresh (snd (DeleteOAuthSigningKey s i)) = st_oauthRefresh s"
  by (simp_all add: CreateOAuthClient_def TouchOAuthClient_def SaveOAuthAuthRequest_def
      DeleteOAuthAuthRequest_def CreateOAuthGrant_def RevokeOAuthGrants_def
      CreateOAuthAccessToken_def DeleteOAuthAccessToken_def AddOAuthSigningKey_def
      RetireOAuthSigningKey_def DeleteOAuthSigningKey_def split: option.split prod.split)

lemma oauth_step_refresh:
  assumes st: "oauth_step s ev s'" and s: "store_ok s"
  shows "unused_refresh h s' + (if ev = RefreshUsed h then 1 else 0) \<le>
    unused_refresh h s + (if ev = RefreshIssued h then 1 else 0)"
proof -
  have k: "keys_ok (st_oauthRefresh s)" using store_ok_oauth [OF s] by (simp add: oauth_ok_def keyed_def)
  note sub = unused_refresh_sub [OF _ k, of _ h]
  from st show ?thesis
  proof cases
    case (DeleteOAuthClient i)
    then show ?thesis using sub [OF refresh_sub_client] by (simp add: DeleteOAuthClient_def)
  next
    case (DeleteExpiredOAuth now rb cb)
    then show ?thesis using sub [OF refresh_sub_expired, of now rb cb] by simp
  next
    case (UseOAuthRefreshToken_Ok g at)
    then show ?thesis
      by (auto simp: UseOAuthRefreshToken_def unused_refresh_def split: option.splits if_splits)
  next
    case (UseOAuthRefreshToken_Err g at er)
    then show ?thesis
      by (auto simp: UseOAuthRefreshToken_def unused_refresh_def split: option.splits if_splits)
  next
    case (CreateOAuthRefreshToken rt)
    then show ?thesis by (auto simp: CreateOAuthRefreshToken_def unused_refresh_def)
  next
    case (CreateOAuthRefreshToken_used rt)
    then show ?thesis by (auto simp: CreateOAuthRefreshToken_def unused_refresh_def split: option.split)
  qed (simp_all add: unused_refresh_def)
qed

lemma mem_step_refresh:
  assumes "mem_step s ev s'" and s: "store_ok s"
  shows "unused_refresh h s' + (if ev = RefreshUsed h then 1 else 0) \<le>
    unused_refresh h s + (if ev = RefreshIssued h then 1 else 0)"
proof -
  from assms(1) consider "cred_step s ev s'" | "dir_step s ev s'" | "tfa_step s ev s'" | "oauth_step s ev s'"
    unfolding mem_step_def by blast
  then show ?thesis
  proof cases
    case 1
    then show ?thesis using cred_step_invites [OF 1] by (auto simp: unused_refresh_def)
  next
    case 2
    then show ?thesis using frame_fields(1) [OF step_frames(1) [OF 2]]
      by cases (simp_all add: unused_refresh_def)
  next
    case 3
    then show ?thesis using frame_fields(2) [OF step_frames(2) [OF 3]]
      by cases (simp_all add: unused_refresh_def)
  next
    case 4
    then show ?thesis using s by (rule oauth_step_refresh)
  qed
qed

interpretation refresh: metered "unused_refresh h"
  "\<lambda>ev. if ev = RefreshIssued h then 1 else 0" "\<lambda>ev. if ev = RefreshUsed h then 1 else 0" for h
  using mem_step_refresh by unfold_locales blast

section \<open>The laws\<close>

text \<open>
  C34: Single-use tokens (magic links, password resets, e-mail changes, invitations by link) are
  single use: in any history of the store, over all goroutines and calls of other methods, the
  number of successful \<open>ConsumeToken\<close> calls for a purpose and hash is at most the number of
  times a token with that purpose and hash was created.
\<close>

theorem token_single_use:
  assumes "mem_trace New evs s"
  shows "length (filter (\<lambda>ev. ev = TokenRedeemed p h) evs) \<le> length (filter (\<lambda>ev. ev = TokenIssued p h) evs)"
  using tokens.spent_le_issued [OF assms, of p h]
  by (simp add: sum_list_count pending_tokens_def New_def)

theorem token_single_use_witness:
  "\<exists>evs s. mem_trace New evs s \<and> TokenRedeemed ''login'' ''h'' \<in> set evs \<and>
     length (filter (\<lambda>ev. ev = TokenRedeemed ''login'' ''h'') evs) \<le> 1"
proof -
  let ?s1 = "snd (CreateToken New ''login'' [] ''a@x'' ''h'' 9)"
  let ?s2 = "snd (ConsumeToken 5 ?s1 ''login'' ''h'')"
  have a: "mem_step New (TokenIssued ''login'' ''h'') ?s1"
    by (simp add: mem_step_def cred_step.CreateToken)
  have "ConsumeToken 5 ?s1 ''login'' ''h'' = (Ok \<lparr>tc_UserID = [], tc_Email = ''a@x''\<rparr>, ?s2)"
    by code_simp
  then have b: "mem_step ?s1 (TokenRedeemed ''login'' ''h'') ?s2"
    by (simp add: mem_step_def cred_step.ConsumeToken_Ok)
  from mem_trace.extend [OF mem_trace.extend [OF mem_trace.start a] b]
  have t: "mem_trace New [TokenIssued ''login'' ''h'', TokenRedeemed ''login'' ''h''] ?s2" by simp
  from t token_single_use [OF t, of "''login''" "''h''"] show ?thesis
    by (intro exI [of _ "[TokenIssued ''login'' ''h'', TokenRedeemed ''login'' ''h'']"] exI [of _ ?s2]) simp
qed

text \<open>
  C35: E-mail codes cannot be brute-forced: under one purpose and address, the guesses that are
  compared with a live code number at most the sum of the attempt limits (each at least one) of
  the codes sent, and at most one guess per code succeeds. Wrong guesses, concurrent or not,
  count against the limit.
\<close>

theorem code_guesses_bounded:
  assumes "mem_trace New evs s"
  shows "length (filter (is_guess k) evs) \<le> sum_list (map (code_gain k) evs) \<and>
    length (filter (\<lambda>ev. ev = CodeGuessed k True) evs) \<le> sum_list (map (code_issued k) evs)"
  using guesses.spent_le_issued [OF assms, of k] codes.spent_le_issued [OF assms, of k]
  by (simp add: sum_list_count guesses_left_def live_codes_def New_def)

theorem code_guesses_bounded_witness:
  "\<exists>evs s. mem_trace New evs s \<and> filter (is_guess (otp_key ''otp'' ''a@x'')) evs \<noteq> [] \<and>
     length (filter (is_guess (otp_key ''otp'' ''a@x'')) evs) \<le> 3"
proof -
  let ?k = "otp_key ''otp'' ''a@x''"
  let ?s1 = "snd (CreateEmailOTP New ''otp'' ''a@x'' ''h'' 9 3)"
  let ?s2 = "snd (VerifyEmailOTP 5 ?s1 ''otp'' ''a@x'' ''g'')"
  have a: "mem_step New (CodeIssued ?k 3) ?s1" by (simp add: mem_step_def cred_step.CreateEmailOTP)
  have "VerifyEmailOTP 5 ?s1 ''otp'' ''a@x'' ''g'' = (Err ErrTokenInvalid, ?s2)" by code_simp
  from cred_step.VerifyEmailOTP [OF _ _ this]
  have b: "mem_step ?s1 (CodeGuessed ?k False) ?s2"
    by (simp add: mem_step_def CreateEmailOTP_def)
  from mem_trace.extend [OF mem_trace.extend [OF mem_trace.start a] b]
  have t: "mem_trace New [CodeIssued ?k 3, CodeGuessed ?k False] ?s2" by simp
  from t code_guesses_bounded [OF t, of ?k] show ?thesis
    by (intro exI [of _ "[CodeIssued ?k 3, CodeGuessed ?k False]"] exI [of _ ?s2])
      (simp add: is_guess_def code_gain_def)
qed

text \<open>
  Organization invites and OAuth refresh tokens are single use in the same sense, across
  deletions, revocations and the cleanup job: an invite hash is accepted and a refresh token
  exchanged at most as often as one was issued.
\<close>

theorem invite_refresh_single_use:
  assumes "mem_trace New evs s"
  shows "length (filter (\<lambda>ev. ev = InviteUsed h) evs) \<le> length (filter (\<lambda>ev. ev = InviteIssued h) evs) \<and>
    length (filter (\<lambda>ev. ev = RefreshUsed g) evs) \<le> length (filter (\<lambda>ev. ev = RefreshIssued g) evs)"
  using invites.spent_le_issued [OF assms, of h] refresh.spent_le_issued [OF assms, of g]
  by (simp add: sum_list_count pending_invites_def unused_refresh_def New_def)

theorem invite_refresh_single_use_witness:
  "\<exists>evs s. mem_trace New evs s \<and> RefreshUsed ''h'' \<in> set evs \<and>
     length (filter (\<lambda>ev. ev = RefreshUsed ''h'') evs) \<le> 1"
proof -
  let ?rt = "\<lparr>ot_Hash = ''h'', ot_GrantID = ''g'', ot_ClientID = ''c'', ot_Subject = ''u'', ot_Scopes = [],
    ot_ExpiresAt = 9, ot_CreatedAt = 1, ot_UsedAt = None\<rparr>"
  let ?s1 = "snd (CreateOAuthRefreshToken New ?rt)"
  let ?s2 = "snd (UseOAuthRefreshToken ?s1 ''h'' 5)"
  have a: "mem_step New (RefreshIssued ''h'') ?s1"
    using oauth_step.CreateOAuthRefreshToken [of ?rt New] by (simp add: mem_step_def)
  have "UseOAuthRefreshToken ?s1 ''h'' 5 = (Ok (), ?s2)" by code_simp
  then have b: "mem_step ?s1 (RefreshUsed ''h'') ?s2"
    by (simp add: mem_step_def oauth_step.UseOAuthRefreshToken_Ok)
  from mem_trace.extend [OF mem_trace.extend [OF mem_trace.start a] b]
  have t: "mem_trace New [RefreshIssued ''h'', RefreshUsed ''h''] ?s2" by simp
  from t conjunct2 [OF invite_refresh_single_use [OF t, of "''x''" "''h''"]] show ?thesis
    by (intro exI [of _ "[RefreshIssued ''h'', RefreshUsed ''h'']"] exI [of _ ?s2]) simp
qed

end
