(* ===== verification/SessionLaws.thy ===== *)
theory SessionLaws
  imports TraceLaws
begin

text \<open>
  Sessions and the second factor over whole histories of the in-memory store: a revoked or
  unknown session stays refused, TOTP steps are accepted in strictly increasing order, and a
  recovery code is accepted at most once per set of codes.
\<close>

section \<open>What the other methods do to these tables\<close>

text \<open>
  Outside the methods of \<open>sessions.go\<close> and \<open>twofactor.go\<close> a session can only become revoked,
  and an enrolment or a code set can only disappear.
\<close>

definition tfa_decreases :: "store \<Rightarrow> store \<Rightarrow> bool" where
  "tfa_decreases s s' \<longleftrightarrow>
     (\<forall>sid. mget (st_sessions s') sid = mget (st_sessions s) sid \<or>
        mget (st_sessions s') sid = map_option (\<lambda>r. r\<lparr>s_revoked := True\<rparr>) (mget (st_sessions s) sid)) \<and>
     (\<forall>n. mget (st_totp s') n = mget (st_totp s) n \<or> mget (st_totp s') n = None) \<and>
     (\<forall>n. sget (st_recovery s') n = sget (st_recovery s) n \<or> sget (st_recovery s') n = [])"

lemma tfa_decreases_refl:
  "st_sessions s' = st_sessions s \<Longrightarrow> st_totp s' = st_totp s \<Longrightarrow> st_recovery s' = st_recovery s \<Longrightarrow>
   tfa_decreases s s'"
  by (simp add: tfa_decreases_def)

lemma tfa_decreases_cascade:
  "st_sessions s' = st_sessions (deleteUserCascadeLocked s n) \<Longrightarrow>
   st_totp s' = st_totp (deleteUserCascadeLocked s n) \<Longrightarrow>
   st_recovery s' = st_recovery (deleteUserCascadeLocked s n) \<Longrightarrow> tfa_decreases s s'"
  by (auto simp: tfa_decreases_def deleteUserCascadeLocked_def revoke_of_def option.map_ident
      split: option.splits intro!: map_option_cong)

lemma Upsert_tfa: "tfa_decreases s (snd (UpsertUserOnLogin now s sub e nm v))"
proof -
  let ?s' = "snd (UpsertUserOnLogin now s sub e nm v)"
  have "(st_sessions ?s' = st_sessions s \<and> st_totp ?s' = st_totp s \<and> st_recovery ?s' = st_recovery s) \<or>
    (\<exists>n. st_sessions ?s' = st_sessions (deleteUserCascadeLocked s n) \<and>
         st_totp ?s' = st_totp (deleteUserCascadeLocked s n) \<and>
         st_recovery ?s' = st_recovery (deleteUserCascadeLocked s n))"
    by (auto simp: UpsertUserOnLogin_def insert_user_def rebind_user_def Let_def split: option.split)
  then show ?thesis using tfa_decreases_refl tfa_decreases_cascade by blast
qed

lemma cred_step_tfa:
  assumes "cred_step s ev s'"
  shows "tfa_decreases s s'"
  using assms
proof cases
  case (ConsumeToken_Ok now q g c)
  then show ?thesis by (intro tfa_decreases_refl) (auto simp: ConsumeToken_def split: prod.splits)
next
  case (ConsumeToken_Err now q g er)
  then show ?thesis by (intro tfa_decreases_refl) (auto simp: ConsumeToken_def split: prod.splits)
next
  case (VerifyEmailOTP q e oo now g r)
  then show ?thesis by (intro tfa_decreases_refl) (auto simp: VerifyEmailOTP_def Let_def split: if_splits)
next
  case (DeleteUser u)
  then show ?thesis
    by (cases "parseID u") (auto simp: DeleteUser_def Let_def intro: tfa_decreases_refl tfa_decreases_cascade)
next
  case (UpsertUserOnLogin now sub e nm v)
  then show ?thesis by (simp add: Upsert_tfa)
next
  case (Authorize now i)
  then show ?thesis by (simp add: Authorize_snd Upsert_tfa)
qed (auto intro!: tfa_decreases_refl simp: cred_op_defs Let_def split: option.split)

lemma cred_step_events:
  "cred_step s ev s' \<Longrightarrow> ev \<noteq> StepClaimed n w \<and> ev \<noteq> RecoveryUsed n h \<and> ev \<noteq> TOTPReset n \<and>
     ev \<noteq> RecoverySet n \<and> ev \<noteq> SessionRecorded sid"
  by (cases rule: cred_step.cases) auto

lemma dir_step_events:
  "dir_step s ev s' \<Longrightarrow> ev \<noteq> StepClaimed n w \<and> ev \<noteq> RecoveryUsed n h \<and> ev \<noteq> TOTPReset n \<and>
     ev \<noteq> RecoverySet n \<and> ev \<noteq> SessionRecorded sid"
  by (cases rule: dir_step.cases) auto

lemma oauth_step_events:
  "oauth_step s ev s' \<Longrightarrow> ev \<noteq> StepClaimed n w \<and> ev \<noteq> RecoveryUsed n h \<and> ev \<noteq> TOTPReset n \<and>
     ev \<noteq> RecoverySet n \<and> ev \<noteq> SessionRecorded sid"
  by (cases rule: oauth_step.cases) auto

text \<open>A step is one of \<open>tfa_step\<close>, or raises no such event and only removes.\<close>

lemma mem_step_tfa:
  assumes "mem_step s ev s'"
  shows "tfa_step s ev s' \<or> (tfa_decreases s s' \<and> (\<forall>n w h sid. ev \<noteq> StepClaimed n w \<and>
     ev \<noteq> RecoveryUsed n h \<and> ev \<noteq> TOTPReset n \<and> ev \<noteq> RecoverySet n \<and> ev \<noteq> SessionRecorded sid))"
proof -
  from assms consider "cred_step s ev s'" | "dir_step s ev s'" | "tfa_step s ev s'" | "oauth_step s ev s'"
    unfolding mem_step_def by blast
  then show ?thesis
  proof cases
    case 1
    then show ?thesis using cred_step_tfa [OF 1] cred_step_events [OF 1] by blast
  next
    case 2
    have "tfa_decreases s s'"
      using frame_fields(1) [OF step_frames(1) [OF 2]] by (intro tfa_decreases_refl) auto
    then show ?thesis using dir_step_events [OF 2] by blast
  next
    case 4
    have "tfa_decreases s s'"
      using frame_fields(3) [OF step_frames(3) [OF 4]] by (intro tfa_decreases_refl) auto
    then show ?thesis using oauth_step_events [OF 4] by blast
  qed blast
qed

section \<open>Sessions\<close>

definition refused :: "store \<Rightarrow> string \<Rightarrow> bool" where
  "refused s sid \<longleftrightarrow> IsRevoked s sid = Ok True"

lemma refused_iff: "refused s sid \<longleftrightarrow> (case mget (st_sessions s) sid of None \<Rightarrow> True | Some r \<Rightarrow> s_revoked r)"
  by (simp add: refused_def IsRevoked_def split: option.split)

lemma refused_step:
  assumes "mem_step s ev s'" and s: "store_ok s" and r: "refused s sid" and ev: "ev \<noteq> SessionRecorded sid"
  shows "refused s' sid"
proof -
  from mem_step_tfa [OF assms(1)] consider "tfa_step s ev s'" | "tfa_decreases s s'" by blast
  then show ?thesis
  proof cases
    case 1
    have k: "keys_ok (st_sessions s)" using store_ok_tfa [OF s] by (simp add: tfa_ok_def sessions_ok_def)
    from 1 show ?thesis
    proof cases
      case (RecordSession rec now)
      then show ?thesis using r ev
        by (auto simp: refused_iff RecordSession_def pruneSessionsLocked_def mget_mprune [OF k] Let_def
            split: option.splits if_splits)
    next
      case (ClaimTOTPStep_True u n w)
      then have "st_sessions s' = st_sessions s"
        by (auto simp: ClaimTOTPStep_def split: option.splits if_splits)
      then show ?thesis using r by (simp add: refused_iff)
    next
      case (ClaimTOTPStep_False u w re)
      then have "st_sessions s' = st_sessions s"
        by (auto simp: ClaimTOTPStep_def split: option.splits if_splits)
      then show ?thesis using r by (simp add: refused_iff)
    next
      case (ConsumeRecoveryCode_True u n h)
      then have "st_sessions s' = st_sessions s"
        by (auto simp: ConsumeRecoveryCode_def Let_def split: option.splits if_splits)
      then show ?thesis using r by (simp add: refused_iff)
    next
      case (ConsumeRecoveryCode_False u h re)
      then have "st_sessions s' = st_sessions s"
        by (auto simp: ConsumeRecoveryCode_def Let_def split: option.splits if_splits)
      then show ?thesis using r by (simp add: refused_iff)
    qed (use r in \<open>auto simp: refused_iff RevokeSession_def RevokeAllForUser_def SetTOTPSecret_def
        EnableTOTP_def DisableTOTP_def SetTOTPLastStep_def ReplaceRecoveryCodes_def split: option.splits\<close>)
  next
    case 2
    then have "mget (st_sessions s') sid = mget (st_sessions s) sid \<or>
        mget (st_sessions s') sid = map_option (\<lambda>r. r\<lparr>s_revoked := True\<rparr>) (mget (st_sessions s) sid)"
      by (simp add: tfa_decreases_def)
    then show ?thesis using r by (auto simp: refused_iff split: option.splits)
  qed
qed

text \<open>
  A refused session stays refused: once \<open>IsRevoked\<close> answers yes for a session id (because it
  was revoked, its subject was signed out everywhere, its user was deleted, or it was never
  recorded), no later call of any method makes it answer no, except recording a new session
  under that very id.
\<close>

theorem revoked_stays_revoked:
  assumes "mem_trace s evs s'" and "store_ok s" and "IsRevoked s sid = Ok True"
    and "SessionRecorded sid \<notin> set evs"
  shows "IsRevoked s' sid = Ok True"
proof -
  have "refused s' sid" using assms
  proof (induction rule: mem_trace.induct)
    case (extend s evs s1 ev s2)
    then have "store_ok s1" using mem_trace_ok by blast
    with extend show ?case using refused_step by auto
  qed (simp add: refused_def)
  then show ?thesis by (simp add: refused_def)
qed

theorem revoked_stays_revoked_witness:
  "IsRevoked (snd (CreateLocalUser 3 ''r'' New ''a@x'' ''A'')) ''sid'' = Ok True"
proof -
  have "mem_step New Silent (snd (CreateLocalUser 3 ''r'' New ''a@x'' ''A''))"
    by (simp add: mem_step_def cred_step.CreateLocalUser)
  from mem_trace.extend [OF mem_trace.start this]
  have t: "mem_trace New [Silent] (snd (CreateLocalUser 3 ''r'' New ''a@x'' ''A''))" by simp
  have "IsRevoked New ''sid'' = Ok True" by (simp add: IsRevoked_def New_def)
  from revoked_stays_revoked [OF t store_ok_New this] show ?thesis by simp
qed

text \<open>
  Recording, revoking and listing sessions: a recorded session is accepted and, while
  unexpired, listed to its subject until it is revoked; signing a subject out everywhere refuses
  all its sessions and no one else's; the list shows exactly the subject's unrevoked, unexpired
  sessions, newest first.
\<close>

theorem session_operations:
  assumes s: "store_ok s"
  shows "IsRevoked (snd (RecordSession now s rec)) (sr_SID rec) = Ok False \<and>
    IsRevoked (snd (RevokeSession s sid)) sid = Ok True \<and>
    (\<forall>x. x \<noteq> sid \<longrightarrow> IsRevoked (snd (RevokeSession s sid)) x = IsRevoked s x) \<and>
    (\<forall>x. IsRevoked (snd (RevokeAllForUser s sub)) x = Ok False \<longleftrightarrow> IsRevoked s x = Ok False \<and>
       (\<exists>r. mget (st_sessions s) x = Some r \<and> sr_Subject (s_rec r) \<noteq> sub)) \<and>
    (\<exists>l. ListSessionsForUser now s sub = Ok l \<and>
       sorted_wrt (\<lambda>a b. sr_CreatedAt b \<le> sr_CreatedAt a) l \<and>
       set l = {s_rec r | r x. mget (st_sessions s) x = Some r \<and> sr_Subject (s_rec r) = sub \<and>
         \<not> s_revoked r \<and> now < sr_ExpiresAt (s_rec r)})"
proof -
  have k: "keys_ok (st_sessions s)" using store_ok_tfa [OF s] by (simp add: tfa_ok_def sessions_ok_def)
  let ?l = "map s_rec (filter (\<lambda>r. sr_Subject (s_rec r) = sub \<and> \<not> s_revoked r \<and>
        now < sr_ExpiresAt (s_rec r)) (mvals (st_sessions s)))"
  have "IsRevoked (snd (RecordSession now s rec)) (sr_SID rec) = Ok False"
    by (simp add: IsRevoked_def RecordSession_def Let_def)
  moreover have "IsRevoked (snd (RevokeSession s sid)) sid = Ok True"
    by (simp add: IsRevoked_def RevokeSession_def split: option.split)
  moreover have "\<forall>x. x \<noteq> sid \<longrightarrow> IsRevoked (snd (RevokeSession s sid)) x = IsRevoked s x"
    by (simp add: IsRevoked_def RevokeSession_def)
  moreover have "IsRevoked (snd (RevokeAllForUser s sub)) x = Ok False \<longleftrightarrow> IsRevoked s x = Ok False \<and>
       (\<exists>r. mget (st_sessions s) x = Some r \<and> sr_Subject (s_rec r) \<noteq> sub)" for x
    by (simp add: IsRevoked_def RevokeAllForUser_def split: option.split)
  moreover have "sorted_wrt (\<lambda>a b. \<not> sr_CreatedAt a < sr_CreatedAt b)
      (sort_by (\<lambda>a b. sr_CreatedAt b < sr_CreatedAt a) ?l)"
    by (rule sorted_sort_by) auto
  then have "sorted_wrt (\<lambda>a b. sr_CreatedAt b \<le> sr_CreatedAt a)
      (sort_by (\<lambda>a b. sr_CreatedAt b < sr_CreatedAt a) ?l)" by (simp add: not_less)
  moreover have "set ?l = {s_rec r | r x. mget (st_sessions s) x = Some r \<and> sr_Subject (s_rec r) = sub \<and>
         \<not> s_revoked r \<and> now < sr_ExpiresAt (s_rec r)}"
    by (auto simp: mvals_mget [OF k])
  ultimately show ?thesis by (simp add: ListSessionsForUser_def)
qed

theorem session_operations_witness:
  "IsRevoked (snd (RevokeSession New ''x'')) ''x'' = Ok True"
  using session_operations [OF store_ok_New, of 0 _ "''x''" "''u''"] by blast

section \<open>TOTP\<close>

text \<open>A user's last accepted step; a user without an enrolment has no step to accept.\<close>

definition claimed_below :: "store \<Rightarrow> nat \<Rightarrow> 64 word \<Rightarrow> bool" where
  "claimed_below s n w \<longleftrightarrow> (case mget (st_totp s) n of None \<Rightarrow> True | Some r \<Rightarrow> w \<le> r_lastStep r)"

fun claims :: "nat \<Rightarrow> event list \<Rightarrow> 64 word list" where
  "claims n [] = []"
| "claims n (StepClaimed m w # evs) = (if m = n then w # claims n evs else claims n evs)"
| "claims n (ev # evs) = claims n evs"

lemma claims_append [simp]: "claims n (xs @ ys) = claims n xs @ claims n ys"
  by (induction n xs rule: claims.induct) auto

lemma claims_step:
  assumes "mem_step s ev s'" and nr: "ev \<noteq> TOTPReset n"
  shows "(\<forall>w. claimed_below s n w \<longrightarrow> claimed_below s' n w) \<and>
    (\<forall>w. ev = StepClaimed n w \<longrightarrow> claimed_below s' n w \<and> (\<forall>v. claimed_below s n v \<longrightarrow> v < w))"
proof -
  from mem_step_tfa [OF assms(1)] consider "tfa_step s ev s'"
    | "tfa_decreases s s'" "\<forall>n w. ev \<noteq> StepClaimed n w" by blast
  then show ?thesis
  proof cases
    case 1
    then show ?thesis
    proof cases
      case (ClaimTOTPStep_True u m w)
      then show ?thesis
        by (auto simp: ClaimTOTPStep_def claimed_below_def not_le split: option.splits if_splits)
    next
      case (ClaimTOTPStep_False u w re)
      then have "st_totp s' = st_totp s"
        by (auto simp: ClaimTOTPStep_def split: option.splits if_splits)
      then show ?thesis using ClaimTOTPStep_False by (simp add: claimed_below_def)
    next
      case (ConsumeRecoveryCode_True u m h)
      then have "st_totp s' = st_totp s"
        by (auto simp: ConsumeRecoveryCode_def Let_def split: option.splits if_splits)
      then show ?thesis using ConsumeRecoveryCode_True by (simp add: claimed_below_def)
    next
      case (ConsumeRecoveryCode_False u h re)
      then have "st_totp s' = st_totp s"
        by (auto simp: ConsumeRecoveryCode_def Let_def split: option.splits if_splits)
      then show ?thesis using ConsumeRecoveryCode_False by (simp add: claimed_below_def)
    qed (use nr in \<open>auto simp: claimed_below_def RecordSession_def pruneSessionsLocked_def Let_def
        RevokeSession_def RevokeAllForUser_def SetTOTPSecret_def EnableTOTP_def DisableTOTP_def
        SetTOTPLastStep_def ReplaceRecoveryCodes_def split: option.splits\<close>)
  next
    case 2
    then have "mget (st_totp s') n = mget (st_totp s) n \<or> mget (st_totp s') n = None"
      by (simp add: tfa_decreases_def)
    with 2(2) show ?thesis by (auto simp: claimed_below_def)
  qed
qed



section \<open>Recovery codes\<close>

definition recovery_stock :: "nat \<Rightarrow> bytes \<Rightarrow> store \<Rightarrow> nat" where
  "recovery_stock n h s = (if hex_encode h \<in> set (sget (st_recovery s) n) then 1 else 0)"

lemma mem_step_recovery:
  assumes "mem_step s ev s'"
  shows "recovery_stock n h s' + (if ev = RecoveryUsed n h then 1 else 0) \<le>
    recovery_stock n h s + (if ev = RecoverySet n then 1 else 0)"
proof -
  from mem_step_tfa [OF assms(1)] consider "tfa_step s ev s'"
    | "tfa_decreases s s'" "\<forall>n h. ev \<noteq> RecoveryUsed n h \<and> ev \<noteq> RecoverySet n" by blast
  then show ?thesis
  proof cases
    case 1
    then show ?thesis
    proof cases
      case (ClaimTOTPStep_True u m w)
      then have "st_recovery s' = st_recovery s"
        by (auto simp: ClaimTOTPStep_def split: option.splits if_splits)
      then show ?thesis using ClaimTOTPStep_True by (simp add: recovery_stock_def)
    next
      case (ClaimTOTPStep_False u w re)
      then have "st_recovery s' = st_recovery s"
        by (auto simp: ClaimTOTPStep_def split: option.splits if_splits)
      then show ?thesis using ClaimTOTPStep_False by (simp add: recovery_stock_def)
    next
      case (ConsumeRecoveryCode_True u m g)
      then show ?thesis
        by (auto simp: ConsumeRecoveryCode_def recovery_stock_def Let_def split: if_splits)
    next
      case (ConsumeRecoveryCode_False u g re)
      then have "st_recovery s' = st_recovery s"
        by (auto simp: ConsumeRecoveryCode_def Let_def split: option.splits if_splits)
      then show ?thesis using ConsumeRecoveryCode_False by (simp add: recovery_stock_def)
    qed (auto simp: recovery_stock_def RecordSession_def pruneSessionsLocked_def Let_def
        RevokeSession_def RevokeAllForUser_def SetTOTPSecret_def EnableTOTP_def DisableTOTP_def
        SetTOTPLastStep_def ReplaceRecoveryCodes_def split: option.splits)
  next
    case 2
    then have "sget (st_recovery s') n = sget (st_recovery s) n \<or> sget (st_recovery s') n = []"
      by (simp add: tfa_decreases_def)
    with 2(2) show ?thesis by (auto simp: recovery_stock_def)
  qed
qed

interpretation recovery: metered "recovery_stock n h"
  "\<lambda>ev. if ev = RecoverySet n then 1 else 0" "\<lambda>ev. if ev = RecoveryUsed n h then 1 else 0" for n h
  using mem_step_recovery by unfold_locales blast

text \<open>
  A recovery code is single use: in any history, a code of a user is accepted at most once
  per time that user's set of codes was generated.
\<close>

theorem recovery_code_single_use:
  assumes "mem_trace New evs s"
  shows "length (filter (\<lambda>ev. ev = RecoveryUsed n h) evs) \<le> length (filter (\<lambda>ev. ev = RecoverySet n) evs)"
  using recovery.spent_le_issued [OF assms, of n h]
  by (simp add: sum_list_count recovery_stock_def New_def)

theorem recovery_code_single_use_witness:
  "\<exists>evs s. mem_trace New evs s \<and> RecoveryUsed 1 ''h'' \<in> set evs \<and>
     length (filter (\<lambda>ev. ev = RecoveryUsed 1 ''h'') evs) \<le> 1"
proof -
  let ?s1 = "snd (ReplaceRecoveryCodes New ''1'' [''g'', ''h''])"
  let ?s2 = "snd (ConsumeRecoveryCode ?s1 ''1'' ''h'')"
  have p: "parseID ''1'' = Some 1" by code_simp
  have "ConsumeRecoveryCode ?s1 ''1'' ''h'' = (Ok True, ?s2)"
    by (simp add: ConsumeRecoveryCode_def ReplaceRecoveryCodes_def p Let_def)
  then have st: "mem_step New (RecoverySet 1) ?s1" "mem_step ?s1 (RecoveryUsed 1 ''h'') ?s2"
    using p by (auto simp: mem_step_def intro: tfa_step.ReplaceRecoveryCodes tfa_step.ConsumeRecoveryCode_True)
  from mem_trace.extend [OF mem_trace.extend [OF mem_trace.start st(1)] st(2)]
  have t: "mem_trace New [RecoverySet 1, RecoveryUsed 1 ''h''] ?s2" by simp
  from t recovery_code_single_use [OF t, of 1 "''h''"] show ?thesis
    by (intro exI [of _ "[RecoverySet 1, RecoveryUsed 1 ''h'']"] exI [of _ ?s2]) simp
qed

end
