(* ===== verification/OAuthLaws.thy ===== *)
theory OAuthLaws
  imports MemTrace
begin

text \<open>
  The OAuth provider's tables in the in-memory store: what the cascades of a client and of the
  cleanup remove and keep, which grants a revocation reaches, and the life of a signing key.
\<close>

section \<open>The cascades, flattened\<close>

lemma fold_deleteGrant:
  "fold deleteGrantLocked ks s = s\<lparr>
     st_oauthGrants := filter (\<lambda>e. fst e \<notin> set ks) (st_oauthGrants s),
     st_oauthAccess := filter (\<lambda>e. oa_GrantID (snd e) \<notin> set ks) (st_oauthAccess s),
     st_oauthRefresh := filter (\<lambda>e. ot_GrantID (snd e) \<notin> set ks) (st_oauthRefresh s)\<rparr>"
proof (induction ks arbitrary: s)
  case (Cons k ks)
  show ?case
    by (simp add: Cons.IH) (simp add: deleteGrantLocked_def mdel_def mprune_def conj_commute)
qed simp

lemma set_keys_with: "set (keys_with p m) = {k. \<exists>v. (k, v) \<in> set m \<and> p v}"
  by (force simp: keys_with_def)

text \<open>The rows a client's deletion removes: its own, and the tokens of its grants.\<close>

definition grants_of_client :: "store \<Rightarrow> string \<Rightarrow> string set" where
  "grants_of_client s i = {k. \<exists>g. mget (st_oauthGrants s) k = Some g \<and> og_ClientID g = i}"

lemma keys_with_grants:
  "keys_ok (st_oauthGrants s) \<Longrightarrow>
   set (keys_with (\<lambda>g. og_ClientID g = i) (st_oauthGrants s)) = grants_of_client s i"
  by (simp add: set_keys_with grants_of_client_def mget_iff_in)

lemma oauth_ok_keys:
  assumes "oauth_ok s"
  shows "keys_ok (st_oauthClients s)" "keys_ok (st_oauthRequests s)" "keys_ok (st_oauthGrants s)"
    "keys_ok (st_oauthAccess s)" "keys_ok (st_oauthRefresh s)"
  using assms by (simp_all add: oauth_ok_def keyed_def)

lemma mget_filter_rows:
  "keys_ok m \<Longrightarrow> mget (filter (\<lambda>e. p (fst e) (snd e)) m) k = Some v \<longleftrightarrow> mget m k = Some v \<and> p k v"
  using mget_mprune [of m "\<lambda>k v. \<not> p k v" k] by (auto simp: mprune_def split: option.splits if_splits)

lemma deleteClientLocked_flat:
  assumes s: "keys_ok (st_oauthGrants s)"
  shows "deleteClientLocked i s = s\<lparr>
     st_oauthClients := mdel i (st_oauthClients s),
     st_oauthRequests := filter (\<lambda>e. or_ClientID (snd e) \<noteq> i) (st_oauthRequests s),
     st_oauthGrants := filter (\<lambda>e. fst e \<notin> grants_of_client s i) (st_oauthGrants s),
     st_oauthAccess := filter (\<lambda>e. oa_ClientID (snd e) \<noteq> i \<and> oa_GrantID (snd e) \<notin> grants_of_client s i)
       (st_oauthAccess s),
     st_oauthRefresh := filter (\<lambda>e. ot_ClientID (snd e) \<noteq> i \<and> ot_GrantID (snd e) \<notin> grants_of_client s i)
       (st_oauthRefresh s)\<rparr>"
  by (simp add: deleteClientLocked_def Let_def fold_deleteGrant keys_with_grants [OF s] mprune_def
      conj_commute)

text \<open>
  Deleting an OAuth client removes the client, its authorization requests, its grants, its
  access and refresh tokens and every token issued under one of its grants; everything else in
  the provider's tables is kept, and so are the signing keys.
\<close>

theorem delete_client_cascade:
  assumes s: "store_ok s" and run: "DeleteOAuthClient s i = (r, s')"
  shows "r = Ok () \<and>
    (\<forall>k c. mget (st_oauthClients s') k = Some c \<longleftrightarrow> mget (st_oauthClients s) k = Some c \<and> k \<noteq> i) \<and>
    (\<forall>k q. mget (st_oauthRequests s') k = Some q \<longleftrightarrow> mget (st_oauthRequests s) k = Some q \<and> or_ClientID q \<noteq> i) \<and>
    (\<forall>k g. mget (st_oauthGrants s') k = Some g \<longleftrightarrow> mget (st_oauthGrants s) k = Some g \<and> og_ClientID g \<noteq> i) \<and>
    (\<forall>k t. mget (st_oauthAccess s') k = Some t \<longleftrightarrow> mget (st_oauthAccess s) k = Some t \<and>
       oa_ClientID t \<noteq> i \<and> oa_GrantID t \<notin> grants_of_client s i) \<and>
    (\<forall>k t. mget (st_oauthRefresh s') k = Some t \<longleftrightarrow> mget (st_oauthRefresh s) k = Some t \<and>
       ot_ClientID t \<noteq> i \<and> ot_GrantID t \<notin> grants_of_client s i) \<and>
    st_oauthKeys s' = st_oauthKeys s"
proof -
  note k = oauth_ok_keys [OF store_ok_oauth [OF s]]
  have s': "r = Ok ()" "s' = deleteClientLocked i s" using run by (simp_all add: DeleteOAuthClient_def)
  have g: "mget (st_oauthGrants s) j = Some x \<Longrightarrow> j \<in> grants_of_client s i \<longleftrightarrow> og_ClientID x = i" for j x
    by (simp add: grants_of_client_def)
  show ?thesis
    using mget_filter_rows [OF k(2), of "\<lambda>_ q. or_ClientID q \<noteq> i"]
      mget_filter_rows [OF k(3), of "\<lambda>j _. j \<notin> grants_of_client s i"]
      mget_filter_rows [OF k(4), of "\<lambda>_ t. oa_ClientID t \<noteq> i \<and> oa_GrantID t \<notin> grants_of_client s i"]
      mget_filter_rows [OF k(5), of "\<lambda>_ t. ot_ClientID t \<noteq> i \<and> ot_GrantID t \<notin> grants_of_client s i"]
    by (simp add: s' deleteClientLocked_flat [OF k(3)]) (use g in blast)
qed

theorem delete_client_cascade_witness:
  "mget (st_oauthRefresh (snd (DeleteOAuthClient (snd (CreateOAuthRefreshToken New
     \<lparr>ot_Hash = ''h'', ot_GrantID = ''g'', ot_ClientID = ''c'', ot_Subject = ''u'', ot_Scopes = [],
      ot_ExpiresAt = 9, ot_CreatedAt = 1, ot_UsedAt = None\<rparr>)) ''c''))) ''h'' = None"
proof -
  let ?rt = "\<lparr>ot_Hash = ''h'', ot_GrantID = ''g'', ot_ClientID = ''c'', ot_Subject = ''u'', ot_Scopes = [],
      ot_ExpiresAt = 9, ot_CreatedAt = 1, ot_UsedAt = None\<rparr>"
  let ?s = "snd (CreateOAuthRefreshToken New ?rt)"
  have s: "store_ok ?s" by (intro store_ok_steps) simp_all
  have r: "mget (st_oauthRefresh ?s) ''h'' = Some ?rt" by (simp add: CreateOAuthRefreshToken_def New_def)
  show ?thesis
  proof (cases "mget (st_oauthRefresh (snd (DeleteOAuthClient ?s ''c''))) ''h''")
    case (Some t)
    with delete_client_cascade [OF s surjective_pairing, of "''c''"]
    have "mget (st_oauthRefresh ?s) ''h'' = Some t \<and> ot_ClientID t \<noteq> ''c''" by blast
    with r show ?thesis by simp
  qed
qed

section \<open>Revoking grants\<close>

definition filter_matches :: "OAuthGrantFilter \<Rightarrow> OAuthGrant \<Rightarrow> bool" where
  "filter_matches f g \<longleftrightarrow> (gf_ID f = [] \<or> gf_ID f = og_ID g) \<and> (gf_Ref f = [] \<or> gf_Ref f = og_Ref g) \<and>
     (gf_ClientID f = [] \<or> gf_ClientID f = og_ClientID g) \<and>
     (gf_Subject f = [] \<or> gf_Subject f = og_Subject g)"

lemma grant_skipped_iff: "grant_skipped f g \<longleftrightarrow> og_RevokedAt g \<noteq> None \<or> \<not> filter_matches f g"
  by (auto simp: grant_skipped_def filter_matches_def)

lemma length_filter_mvals: "length (filter p (mvals m)) = length (filter (\<lambda>e. p (snd e)) m)"
  unfolding mvals_def by (induction m) auto

text \<open>
  Revoking grants reaches exactly the unrevoked grants that match every non-empty field of
  the filter, and stamps them with the given time; a grant revoked before keeps its first time;
  an empty filter revokes nothing rather than everything; the count is the number of grants
  stamped, so revoking again with the same filter counts none.
\<close>

theorem revoke_grants:
  assumes run: "RevokeOAuthGrants s f at = (r, s')"
  shows "(\<forall>k. mget (st_oauthGrants s') k = map_option (\<lambda>g.
       if \<not> filter_Empty f \<and> og_RevokedAt g = None \<and> filter_matches f g
       then g\<lparr>og_RevokedAt := Some at\<rparr> else g) (mget (st_oauthGrants s) k)) \<and>
    r = Ok (length (filter (\<lambda>e. \<not> filter_Empty f \<and> og_RevokedAt (snd e) = None \<and> filter_matches f (snd e))
       (st_oauthGrants s))) \<and>
    fst (RevokeOAuthGrants s' f at') = Ok 0"
proof (cases "filter_Empty f")
  case True
  then show ?thesis using run by (simp add: RevokeOAuthGrants_def option.map_ident)
next
  case False
  have again: "filter (\<lambda>e. \<not> grant_skipped f (snd e)) (mmap (\<lambda>g. if grant_skipped f g then g
      else g\<lparr>og_RevokedAt := Some at\<rparr>) m) = []" for m
    unfolding mmap_def by (induction m) (auto simp: grant_skipped_def)
  have s': "s' = s\<lparr>st_oauthGrants := mmap (\<lambda>g. if grant_skipped f g then g
      else g\<lparr>og_RevokedAt := Some at\<rparr>) (st_oauthGrants s)\<rparr>"
    and r: "r = Ok (length (filter (\<lambda>e. \<not> grant_skipped f (snd e)) (st_oauthGrants s)))"
    using run False by (simp_all add: RevokeOAuthGrants_def length_filter_mvals)
  have "fst (RevokeOAuthGrants s' f at') = Ok 0"
    using False by (simp add: RevokeOAuthGrants_def length_filter_mvals s' again)
  with False show ?thesis
    unfolding r by (auto simp: s' grant_skipped_iff intro!: option.map_cong)
qed

theorem revoke_grants_witness:
  "RevokeOAuthGrants New \<lparr>gf_ID = [], gf_Ref = [], gf_ClientID = ''c'', gf_Subject = []\<rparr> 5 =
     (Ok 0, snd (RevokeOAuthGrants New \<lparr>gf_ID = [], gf_Ref = [], gf_ClientID = ''c'', gf_Subject = []\<rparr> 5))"
  using revoke_grants [OF surjective_pairing, of New "\<lparr>gf_ID = [], gf_Ref = [], gf_ClientID = ''c'', gf_Subject = []\<rparr>" 5]
  by (simp add: New_def prod_eq_iff)

section \<open>Cleanup\<close>

lemma fold_deleteClient_flat:
  assumes "keys_ok (st_oauthGrants s)"
  shows "st_oauthClients (fold deleteClientLocked cs s) = filter (\<lambda>e. fst e \<notin> set cs) (st_oauthClients s) \<and>
    st_oauthGrants (fold deleteClientLocked cs s) = filter (\<lambda>e. og_ClientID (snd e) \<notin> set cs) (st_oauthGrants s)"
  using assms
proof (induction cs arbitrary: s)
  case (Cons c cs)
  have own: "filter (\<lambda>e. fst e \<notin> grants_of_client s c) (st_oauthGrants s) =
      filter (\<lambda>e. og_ClientID (snd e) \<noteq> c) (st_oauthGrants s)"
  proof (rule filter_cong [OF refl])
    fix e
    assume "e \<in> set (st_oauthGrants s)"
    then have "mget (st_oauthGrants s) (fst e) = Some (snd e)"
      using mget_iff_in [OF Cons.prems, of "fst e" "snd e"] by simp
    then show "fst e \<notin> grants_of_client s c \<longleftrightarrow> og_ClientID (snd e) \<noteq> c" by (simp add: grants_of_client_def)
  qed
  have "keys_ok (st_oauthGrants (deleteClientLocked c s))"
    by (simp add: deleteClientLocked_flat [OF Cons.prems] keys_ok_filter [OF Cons.prems])
  from Cons.IH [OF this] show ?case
    by (simp add: deleteClientLocked_flat [OF Cons.prems] own mdel_def conj_commute)
qed simp

text \<open>
  The cleanup job is exact on clients and grants: afterwards a client is there exactly when
  it was and is not a stale dynamically registered one, a grant exactly when it was, is neither
  revoked nor expired before \<open>now\<close>, and its client is not a stale one.
\<close>

theorem cleanup_exact:
  assumes s: "store_ok s" and run: "DeleteExpiredOAuth s now rb cb = (r, s')"
  shows "(\<forall>k c. mget (st_oauthClients s') k = Some c \<longleftrightarrow>
       mget (st_oauthClients s) k = Some c \<and> \<not> client_stale cb c) \<and>
    (\<forall>k g. mget (st_oauthGrants s') k = Some g \<longleftrightarrow>
       mget (st_oauthGrants s) k = Some g \<and> \<not> grant_expired now g \<and>
       \<not> (\<exists>c. mget (st_oauthClients s) (og_ClientID g) = Some c \<and> client_stale cb c))"
proof -
  note k = oauth_ok_keys [OF store_ok_oauth [OF s]]
  let ?gone = "keys_with (grant_expired now) (st_oauthGrants s)"
  let ?stale = "keys_with (client_stale cb) (st_oauthClients s)"
  let ?s1 = "s\<lparr>st_oauthRequests := mprune (\<lambda>_ r. or_CreatedAt r < rb) (st_oauthRequests s),
      st_oauthAccess := mprune (\<lambda>_ t. oa_ExpiresAt t < now) (st_oauthAccess s),
      st_oauthRefresh := mprune (\<lambda>_ t. ot_ExpiresAt t < now) (st_oauthRefresh s)\<rparr>"
  let ?s2 = "fold deleteGrantLocked ?gone ?s1"
  have s': "s' = fold deleteClientLocked ?stale ?s2"
    using run by (simp add: DeleteExpiredOAuth_def Let_def fold_deleteGrant)
  have k2: "keys_ok (st_oauthGrants ?s2)" by (simp add: fold_deleteGrant keys_ok_filter [OF k(3)])
  note f = fold_deleteClient_flat [OF k2, of ?stale]
  have stale: "j \<in> set ?stale \<longleftrightarrow> (\<exists>c. mget (st_oauthClients s) j = Some c \<and> client_stale cb c)" for j
    by (simp add: set_keys_with mget_iff_in [OF k(1)])
  have gone: "j \<in> set ?gone \<longleftrightarrow> (\<exists>g. mget (st_oauthGrants s) j = Some g \<and> grant_expired now g)" for j
    by (simp add: set_keys_with mget_iff_in [OF k(3)])
  have c: "st_oauthClients s' = filter (\<lambda>e. fst e \<notin> set ?stale) (st_oauthClients s)"
    using f by (simp add: s' fold_deleteGrant)
  have g: "st_oauthGrants s' = filter (\<lambda>e. fst e \<notin> set ?gone \<and> og_ClientID (snd e) \<notin> set ?stale) (st_oauthGrants s)"
    using f by (simp add: s' fold_deleteGrant conj_commute)
  show ?thesis
    unfolding c g
    using mget_filter_rows [OF k(1), of "\<lambda>j _. j \<notin> set ?stale"]
      mget_filter_rows [OF k(3), of "\<lambda>j x. j \<notin> set ?gone \<and> og_ClientID x \<notin> set ?stale"]
    by (auto simp: stale gone)
qed

theorem cleanup_exact_witness:
  "mget (st_oauthClients (snd (DeleteExpiredOAuth (snd (CreateOAuthClient New
     \<lparr>oc_ID = ''c'', oc_SecretHash = [], oc_Name = ''n'', oc_URI = [], oc_LogoURI = [], oc_RedirectURIs = [],
      oc_GrantTypes = [], oc_AuthMethod = [], oc_Dynamic = True, oc_CreatedAt = 3, oc_LastUsedAt = 0\<rparr>)) 9 9 9))) ''c'' = None"
proof -
  let ?c = "\<lparr>oc_ID = ''c'', oc_SecretHash = [], oc_Name = ''n'', oc_URI = [], oc_LogoURI = [], oc_RedirectURIs = [],
      oc_GrantTypes = [], oc_AuthMethod = [], oc_Dynamic = True, oc_CreatedAt = 3, oc_LastUsedAt = 0\<rparr>"
  let ?s = "snd (CreateOAuthClient New ?c)"
  have s: "store_ok ?s" by (intro store_ok_steps) simp_all
  have c: "mget (st_oauthClients ?s) ''c'' = Some ?c" by (simp add: CreateOAuthClient_def New_def)
  have stale: "client_stale 9 ?c" by (simp add: client_stale_def)
  have "\<forall>k c. mget (st_oauthClients (snd (DeleteExpiredOAuth ?s 9 9 9))) k = Some c \<longleftrightarrow>
      mget (st_oauthClients ?s) k = Some c \<and> \<not> client_stale 9 c"
    using cleanup_exact [OF s surjective_pairing, of 9 9 9] by (rule conjunct1)
  then have "mget (st_oauthClients (snd (DeleteExpiredOAuth ?s 9 9 9))) ''c'' \<noteq> Some d" for d
    using c stale by auto
  then show ?thesis by (meson not_None_eq)
qed

end
