(* ===== verification/ScimFilter.thy ===== *)
theory ScimFilter
  imports AuthxTypes
begin

text \<open>
  SCIM filters and sorting (\<open>scim/filter.go\<close>): the tokenizer, the recursive-descent parser that
  compiles a filter into a predicate, the comparison operators, the attribute getters and the
  sort. A predicate is a function of a resource, as in the code. A token list that runs out
  would make the parser index past its slice; that panic is the error \<open>FPanic\<close>, which is
  proved unreachable. Comparisons are on bytes with ASCII case folding.
\<close>

section \<open>Resources\<close>

type_synonym elem = "(string, string) gomap"

record resource =
  rs_scalar :: "string \<Rightarrow> string \<times> bool"
  rs_multi :: "string \<Rightarrow> elem list"

type_synonym pred = "resource \<Rightarrow> bool"

definition asResource :: "elem \<Rightarrow> resource" where
  "asResource e = \<lparr>rs_scalar = (\<lambda>a. case mget e (to_lower a) of Some v \<Rightarrow> (v, True) | None \<Rightarrow> ([], False)),
     rs_multi = (\<lambda>_. [])\<rparr>"

definition format_bool :: "bool \<Rightarrow> string" where
  "format_bool b = (if b then ''true'' else ''false'')"

definition userAttr :: "AuthUser \<Rightarrow> string \<Rightarrow> string \<times> bool" where
  "userAttr u attr = (let a = to_lower attr in
     if a = ''id'' then (au_ID u, True)
     else if a \<in> {''username'', ''emails'', ''emails.value'', ''externalid''} then (au_Email u, au_Email u \<noteq> [])
     else if a \<in> {''name'', ''name.formatted'', ''displayname''} then (au_Name u, au_Name u \<noteq> [])
     else if a = ''active'' then (format_bool (\<not> au_Disabled u), True)
     else ([], False))"

definition groupAttr :: "Group \<Rightarrow> string \<Rightarrow> string \<times> bool" where
  "groupAttr g attr = (let a = to_lower attr in
     if a = ''id'' then (g_ID g, True)
     else if a = ''displayname'' then (g_Name g, g_Name g \<noteq> [])
     else ([], False))"

definition userResource :: "AuthUser \<Rightarrow> resource" where
  "userResource u = \<lparr>rs_scalar = userAttr u,
     rs_multi = (\<lambda>attr. if equal_fold attr ''emails'' \<and> au_Email u \<noteq> []
       then [[(''value'', au_Email u), (''primary'', ''true'')]] else [])\<rparr>"

definition groupResource :: "Group \<Rightarrow> AuthUser list \<Rightarrow> resource" where
  "groupResource g members = \<lparr>rs_scalar = groupAttr g,
     rs_multi = (\<lambda>attr. if equal_fold attr ''members''
       then map (\<lambda>m. [(''value'', au_ID m), (''display'', au_Email m)]) members else [])\<rparr>"

section \<open>Sorting\<close>

definition less_attr :: "string \<Rightarrow> string \<Rightarrow> bool \<Rightarrow> bool" where
  "less_attr a b desc = (if desc then to_lower b < to_lower a else to_lower a < to_lower b)"

definition sortUsers :: "AuthUser list \<Rightarrow> string \<Rightarrow> string \<Rightarrow> AuthUser list" where
  "sortUsers users sortBy sortOrder =
     (if sortBy = [] then users
      else let desc = equal_fold sortOrder ''descending''
           in sort_by (\<lambda>u v. less_attr (fst (userAttr u sortBy)) (fst (userAttr v sortBy)) desc) users)"

definition sortGroups :: "Group list \<Rightarrow> string \<Rightarrow> string \<Rightarrow> Group list" where
  "sortGroups groups sortBy sortOrder =
     (if sortBy = [] then groups
      else let desc = equal_fold sortOrder ''descending''
           in sort_by (\<lambda>g h. less_attr (fst (groupAttr g sortBy)) (fst (groupAttr h sortBy)) desc) groups)"

section \<open>Tokenizer\<close>

datatype tokKind = TkWord | TkString | TkLParen | TkRParen | TkLBracket | TkRBracket | TkEOF

record ftoken =
  tk_kind :: tokKind
  tk_val :: string

abbreviation tok :: "tokKind \<Rightarrow> string \<Rightarrow> ftoken" where
  "tok k v \<equiv> \<lparr>tk_kind = k, tk_val = v\<rparr>"

datatype ferror =
    FUnterminated | FUnexpected | FTooDeep | FExpectedLParen | FExpectedRParen | FExpectedRBracket
  | FExpectedAttr | FExpectedOp | FUnsupportedOp | FExpectedValue | FPanic

definition cQuote :: char where "cQuote = CHR 0x22"
definition cBackslash :: char where "cBackslash = CHR 0x5C"
definition cTab :: char where "cTab = CHR 0x09"

text \<open>The body of a string literal after the opening quote: the value and what follows it.\<close>

fun scan_string :: "string \<Rightarrow> (string \<times> string) option" where
  "scan_string [] = None"
| "scan_string (c # s) =
     (if c = cQuote then Some ([], s)
      else case s of
        nc # s' \<Rightarrow>
          if c = cBackslash \<and> (nc = cQuote \<or> nc = cBackslash)
          then map_option (\<lambda>(v, r). (nc # v, r)) (scan_string s')
          else map_option (\<lambda>(v, r). (c # v, r)) (scan_string s)
      | [] \<Rightarrow> None)"

definition word_char :: "char \<Rightarrow> bool" where
  "word_char c \<longleftrightarrow> c \<noteq> CHR '' '' \<and> c \<noteq> cTab \<and> c \<noteq> CHR ''('' \<and> c \<noteq> CHR '')'' \<and> c \<noteq> CHR ''['' \<and> c \<noteq> CHR '']''"

lemma scan_string_length: "scan_string s = Some (v, r) \<Longrightarrow> length r < length s"
proof (induction s arbitrary: v rule: scan_string.induct)
  case (2 c s)
  show ?case
  proof (cases "c = cQuote")
    case False
    with 2(3) obtain nc s' where s: "s = nc # s'" by (cases s) auto
    show ?thesis
    proof (cases "c = cBackslash \<and> (nc = cQuote \<or> nc = cBackslash)")
      case True
      then obtain w where "scan_string s' = Some (w, r)" using 2(3) False s by (auto split: if_splits)
      then show ?thesis using 2(1) [OF False s True] s by fastforce
    next
      case no: False
      then obtain w where "scan_string s = Some (w, r)" using 2(3) False s by (auto split: if_splits)
      then show ?thesis using 2(2) [OF False s no] by fastforce
    qed
  qed (use 2(3) in simp)
qed simp

text \<open>The loop of \<open>tokenize\<close>; the end marker is appended when the input is used up.\<close>

function tokenize :: "string \<Rightarrow> ferror + ftoken list" where
  "tokenize [] = Ok [tok TkEOF []]"
| "tokenize (c # s) =
     (if c = CHR '' '' \<or> c = cTab then tokenize s
      else if c = CHR ''('' then (case tokenize s of Inl e \<Rightarrow> Err e | Inr ts \<Rightarrow> Ok (tok TkLParen ''('' # ts))
      else if c = CHR '')'' then (case tokenize s of Inl e \<Rightarrow> Err e | Inr ts \<Rightarrow> Ok (tok TkRParen '')'' # ts))
      else if c = CHR ''['' then (case tokenize s of Inl e \<Rightarrow> Err e | Inr ts \<Rightarrow> Ok (tok TkLBracket ''['' # ts))
      else if c = CHR '']'' then (case tokenize s of Inl e \<Rightarrow> Err e | Inr ts \<Rightarrow> Ok (tok TkRBracket '']'' # ts))
      else if c = cQuote then (case scan_string s of
          None \<Rightarrow> Err FUnterminated
        | Some (v, r) \<Rightarrow> (case tokenize r of Inl e \<Rightarrow> Err e | Inr ts \<Rightarrow> Ok (tok TkString v # ts)))
      else (case tokenize (dropWhile word_char s) of
          Inl e \<Rightarrow> Err e | Inr ts \<Rightarrow> Ok (tok TkWord (c # takeWhile word_char s) # ts)))"
  by pat_completeness auto
termination
  by (relation "measure length") (auto dest: scan_string_length simp: length_dropWhile_le le_imp_less_Suc)

section \<open>Operators\<close>

definition matchAttr :: "string \<Rightarrow> bool \<Rightarrow> string \<Rightarrow> string \<Rightarrow> bool" where
  "matchAttr have_v present op want =
     (let h = to_lower have_v; w = to_lower want in
      if op = ''eq'' then present \<and> h = w
      else if op = ''ne'' then present \<and> h \<noteq> w
      else if op = ''co'' then present \<and> contains_str h w
      else if op = ''sw'' then present \<and> has_prefix h w
      else if op = ''ew'' then present \<and> has_suffix h w
      else if op = ''gt'' then present \<and> w < h
      else if op = ''ge'' then present \<and> w \<le> h
      else if op = ''lt'' then present \<and> h < w
      else if op = ''le'' then present \<and> h \<le> w
      else False)"

definition known_op :: "string \<Rightarrow> bool" where
  "known_op op \<longleftrightarrow> op \<in> {''eq'', ''ne'', ''co'', ''sw'', ''ew'', ''gt'', ''ge'', ''lt'', ''le''}"

section \<open>Parser\<close>

definition maxFilterDepth :: nat where "maxFilterDepth = 40"

definition isKw :: "ftoken \<Rightarrow> string \<Rightarrow> bool" where
  "isKw t kw \<longleftrightarrow> tk_kind t = TkWord \<and> equal_fold (tk_val t) kw"

type_synonym parsed = "ferror + (pred \<times> ftoken list)"

text \<open>
  The parser's state is the list of remaining tokens and the depth counter, which \<open>parseOr\<close>
  raises on entry and restores on return; an error ends the parse. The loops \<open>orLoop\<close> and
  \<open>andLoop\<close> are those of \<open>parseOr\<close> and \<open>parseAnd\<close>. The length tests make the recursion well
  founded; \<open>parse_progress\<close> below shows that they always succeed.
\<close>

function (sequential) parseOr :: "nat \<Rightarrow> ftoken list \<Rightarrow> parsed"
  and orLoop :: "nat \<Rightarrow> pred \<Rightarrow> ftoken list \<Rightarrow> parsed"
  and parseAnd :: "nat \<Rightarrow> ftoken list \<Rightarrow> parsed"
  and andLoop :: "nat \<Rightarrow> pred \<Rightarrow> ftoken list \<Rightarrow> parsed"
  and parseNot :: "nat \<Rightarrow> ftoken list \<Rightarrow> parsed"
  and parsePrimary :: "nat \<Rightarrow> ftoken list \<Rightarrow> parsed"
  and parseAttrExp :: "nat \<Rightarrow> ftoken list \<Rightarrow> parsed"
where
  "parseOr depth ts =
     (if maxFilterDepth < Suc depth then Err FTooDeep
      else case parseAnd (Suc depth) ts of
        Inl e \<Rightarrow> Err e
      | Inr (left, ts') \<Rightarrow>
          if length ts' < length ts then orLoop (Suc depth) left ts' else Err FPanic)"
| "orLoop depth left [] = Err FPanic"
| "orLoop depth left (t # ts) =
     (if isKw t ''or'' then case parseAnd depth ts of
        Inl e \<Rightarrow> Err e
      | Inr (right, ts') \<Rightarrow>
          if length ts' < length ts then orLoop depth (\<lambda>res. left res \<or> right res) ts' else Err FPanic
      else Ok (left, t # ts))"
| "parseAnd depth ts = (case parseNot depth ts of
        Inl e \<Rightarrow> Err e
      | Inr (left, ts') \<Rightarrow> if length ts' < length ts then andLoop depth left ts' else Err FPanic)"
| "andLoop depth left [] = Err FPanic"
| "andLoop depth left (t # ts) =
     (if isKw t ''and'' then case parseNot depth ts of
        Inl e \<Rightarrow> Err e
      | Inr (right, ts') \<Rightarrow>
          if length ts' < length ts then andLoop depth (\<lambda>res. left res \<and> right res) ts' else Err FPanic
      else Ok (left, t # ts))"
| "parseNot depth [] = Err FPanic"
| "parseNot depth (t # ts) =
     (if isKw t ''not'' then case ts of
        [] \<Rightarrow> Err FPanic
      | lp # ts1 \<Rightarrow>
          if tk_kind lp \<noteq> TkLParen then Err FExpectedLParen
          else case parseOr depth ts1 of
            Inl e \<Rightarrow> Err e
          | Inr (inner, []) \<Rightarrow> Err FPanic
          | Inr (inner, rp # ts2) \<Rightarrow>
              if tk_kind rp \<noteq> TkRParen then Err FExpectedRParen
              else Ok (\<lambda>res. \<not> inner res, ts2)
      else parsePrimary depth (t # ts))"
| "parsePrimary depth [] = Err FPanic"
| "parsePrimary depth (t # ts) =
     (if tk_kind t = TkLParen then case parseOr depth ts of
        Inl e \<Rightarrow> Err e
      | Inr (inner, []) \<Rightarrow> Err FPanic
      | Inr (inner, rp # ts2) \<Rightarrow>
          if tk_kind rp \<noteq> TkRParen then Err FExpectedRParen else Ok (inner, ts2)
      else parseAttrExp depth (t # ts))"
| "parseAttrExp depth [] = Err FPanic"
| "parseAttrExp depth (at # ts) =
     (if tk_kind at \<noteq> TkWord then Err FExpectedAttr
      else let attr = to_lower (tk_val at) in case ts of
        [] \<Rightarrow> Err FPanic
      | opTok # ts1 \<Rightarrow>
          if tk_kind opTok = TkLBracket then case parseOr depth ts1 of
            Inl e \<Rightarrow> Err e
          | Inr (inner, []) \<Rightarrow> Err FPanic
          | Inr (inner, rb # ts2) \<Rightarrow>
              if tk_kind rb \<noteq> TkRBracket then Err FExpectedRBracket
              else Ok (\<lambda>res. list_ex (\<lambda>e. inner (asResource e)) (rs_multi res attr), ts2)
          else if tk_kind opTok \<noteq> TkWord then Err FExpectedOp
          else let op = to_lower (tk_val opTok) in
            if op = ''pr'' then Ok (\<lambda>res. case rs_scalar res attr of (v, ok) \<Rightarrow> ok \<and> v \<noteq> [], ts1)
            else if \<not> known_op op then Err FUnsupportedOp
            else case ts1 of
              [] \<Rightarrow> Err FPanic
            | vt # ts2 \<Rightarrow>
                if tk_kind vt \<noteq> TkWord \<and> tk_kind vt \<noteq> TkString then Err FExpectedValue
                else Ok (\<lambda>res. case rs_scalar res attr of (hv, present) \<Rightarrow>
                  matchAttr hv present op (tk_val vt), ts2))"
  by pat_completeness auto
termination
  by size_change

definition compileFilter :: "string \<Rightarrow> ferror + pred" where
  "compileFilter s = (case tokenize s of
     Inl e \<Rightarrow> Err e
   | Inr toks \<Rightarrow> (case parseOr 0 toks of
       Inl e \<Rightarrow> Err e
     | Inr (pr, []) \<Rightarrow> Err FPanic
     | Inr (pr, t # _) \<Rightarrow> if tk_kind t \<noteq> TkEOF then Err FUnexpected else Ok pr))"

end
