(* ===== verification/FilterLaws.thy ===== *)
theory FilterLaws
  imports ScimFilter
begin

text \<open>
  What the filter parser guarantees: it never runs past its tokens, it accepts exactly the
  language of a syntax of expressions with the usual precedence, compiling each to its meaning,
  and its operators and sort behave on present and absent attributes as the comments say.
\<close>

section \<open>The parser stays within its tokens\<close>

text \<open>A token list that ends in the only end marker, as \<open>tokenize\<close> returns it.\<close>

definition eof_ok :: "ftoken list \<Rightarrow> bool" where
  "eof_ok ts \<longleftrightarrow> ts \<noteq> [] \<and> tk_kind (last ts) = TkEOF \<and> (\<forall>t \<in> set (butlast ts). tk_kind t \<noteq> TkEOF)"

lemma eof_ok_Nil [simp]: "\<not> eof_ok []"
  by (simp add: eof_ok_def)

lemma eof_ok_Cons: "eof_ok (t # ts) \<longleftrightarrow> (if tk_kind t = TkEOF then ts = [] else eof_ok ts)"
  by (cases ts) (auto simp: eof_ok_def)

definition good :: "ftoken list \<Rightarrow> parsed \<Rightarrow> bool" where
  "good ts r \<longleftrightarrow> r \<noteq> Err FPanic \<and> (\<forall>p ts'. r = Ok (p, ts') \<longrightarrow> eof_ok ts' \<and> length ts' < length ts)"

lemma good_simps [simp]:
  "good ts (Err e) \<longleftrightarrow> e \<noteq> FPanic"
  "good ts (Ok (p, ts')) \<longleftrightarrow> eof_ok ts' \<and> length ts' < length ts"
  by (auto simp: good_def)

lemma good_mono: "good ts r \<Longrightarrow> length ts \<le> length us \<Longrightarrow> good us r"
  by (fastforce simp: good_def)

lemma isKw_word: "isKw t kw \<Longrightarrow> tk_kind t = TkWord"
  by (simp add: isKw_def)

lemma eof_ok_tl: "eof_ok (t # ts) \<Longrightarrow> tk_kind t \<noteq> TkEOF \<Longrightarrow> eof_ok ts"
  by (simp add: eof_ok_Cons)

lemma goodE:
  assumes "good ts r"
  obtains (err) e where "r = Err e" "e \<noteq> FPanic"
  | (ok) p t ts' where "r = Ok (p, t # ts')" "eof_ok (t # ts')" "length (t # ts') < length ts"
proof (cases r)
  case (Inr x)
  then obtain p us where "r = Ok (p, us)" by (cases x) auto
  with assms show ?thesis using ok by (cases us) auto
qed (use assms err in auto)

lemma parse_good:
  shows "eof_ok ts1 \<Longrightarrow> good ts1 (parseOr d1 ts1)"
    and "eof_ok ts2 \<Longrightarrow> good (x # ts2) (orLoop d2 p2 ts2)"
    and "eof_ok ts3 \<Longrightarrow> good ts3 (parseAnd d3 ts3)"
    and "eof_ok ts4 \<Longrightarrow> good (x # ts4) (andLoop d4 p4 ts4)"
    and "eof_ok ts5 \<Longrightarrow> good ts5 (parseNot d5 ts5)"
    and "eof_ok ts6 \<Longrightarrow> good ts6 (parsePrimary d6 ts6)"
    and "eof_ok ts7 \<Longrightarrow> good ts7 (parseAttrExp d7 ts7)"
proof (induction d1 ts1 and d2 p2 ts2 and d3 ts3 and d4 p4 ts4 and d5 ts5 and d6 ts6 and d7 ts7
    rule: parseOr_orLoop_parseAnd_andLoop_parseNot_parsePrimary_parseAttrExp.induct)
  case (1 depth ts)
  show ?case
  proof (cases "maxFilterDepth < Suc depth")
    case False
    from 1(1) [OF False 1(3)] show ?thesis
    proof (cases rule: goodE)
      case (ok p t ts')
      then show ?thesis using 1(2) [OF False ok(1) refl] False
        by (auto intro: good_mono)
    qed (use False in auto)
  qed simp
next
  case (3 depth left t ts)
  show ?case
  proof (cases "isKw t ''or''")
    case True
    then have e: "eof_ok ts" using 3(3) eof_ok_tl [OF 3(3)] by (simp add: isKw_word)
    from 3(1) [OF True e] show ?thesis
    proof (cases rule: goodE)
      case (ok p t' ts')
      then show ?thesis using 3(2) [OF True ok(1) refl] True
        by (auto intro: good_mono)
    qed (use True in auto)
  qed (use 3(3) in auto)
next
  case (4 depth ts)
  from 4(1) [OF 4(3)] show ?case
  proof (cases rule: goodE)
    case (ok p t ts')
    then show ?thesis using 4(2) [OF ok(1) refl] by (auto intro: good_mono)
  qed auto
next
  case (6 depth left t ts)
  show ?case
  proof (cases "isKw t ''and''")
    case True
    then have e: "eof_ok ts" using 6(3) eof_ok_tl [OF 6(3)] by (simp add: isKw_word)
    from 6(1) [OF True e] show ?thesis
    proof (cases rule: goodE)
      case (ok p t' ts')
      then show ?thesis using 6(2) [OF True ok(1) refl] True
        by (auto intro: good_mono)
    qed (use True in auto)
  qed (use 6(3) in auto)
next
  case (8 depth t ts)
  show ?case
  proof (cases "isKw t ''not''")
    case True
    then have e: "eof_ok ts" using eof_ok_tl [OF 8(3)] by (simp add: isKw_word)
    then obtain lp ts1 where ts: "ts = lp # ts1" by (cases ts) auto
    show ?thesis
    proof (cases "tk_kind lp = TkLParen")
      case lp: True
      then have e1: "eof_ok ts1" using e ts by (simp add: eof_ok_Cons)
      from 8(1) [OF True ts _ e1] lp have "good ts1 (parseOr depth ts1)" by simp
      then show ?thesis
        by (cases rule: goodE) (use True ts lp in \<open>auto simp: eof_ok_Cons split: if_splits\<close>)
    qed (use True ts in simp)
  next
    case False
    with 8(2) [OF False 8(3)] show ?thesis by simp
  qed
next
  case (10 depth t ts)
  show ?case
  proof (cases "tk_kind t = TkLParen")
    case True
    then have e: "eof_ok ts" using 10(3) by (simp add: eof_ok_Cons)
    from 10(1) [OF True e] show ?thesis
      by (cases rule: goodE) (use True in \<open>auto simp: eof_ok_Cons split: if_splits\<close>)
  next
    case False
    with 10(2) [OF False 10(3)] show ?thesis by simp
  qed
next
  case (12 depth at ts)
  show ?case
  proof (cases "tk_kind at = TkWord")
    case True
    then have e: "eof_ok ts" using 12(2) by (simp add: eof_ok_Cons)
    then obtain o' ts1 where ts: "ts = o' # ts1" by (cases ts) auto
    consider "tk_kind o' = TkLBracket" | "tk_kind o' = TkWord" | "tk_kind o' \<noteq> TkLBracket" "tk_kind o' \<noteq> TkWord"
      by blast
    then show ?thesis
    proof cases
      case 1
      then have e1: "eof_ok ts1" using e ts by (simp add: eof_ok_Cons)
      have "good ts1 (parseOr depth ts1)" using 12(1) [OF _ refl ts 1 e1] True by simp
      then show ?thesis
        by (cases rule: goodE) (use True ts 1 in \<open>auto simp: eof_ok_Cons Let_def split: if_splits\<close>)
    next
      case 2
      then have e1: "eof_ok ts1" using e ts by (simp add: eof_ok_Cons)
      then obtain v ts2 where ts1: "ts1 = v # ts2" by (cases ts1) auto
      then show ?thesis using True ts 2 e1 by (auto simp: eof_ok_Cons Let_def split: if_splits)
    qed (use True ts in \<open>simp add: Let_def\<close>)
  qed simp
qed auto

section \<open>The tokenizer ends its list with the end marker\<close>

lemma tokenize_eof: "tokenize s = Ok ts \<Longrightarrow> eof_ok ts"
proof (induction s arbitrary: ts rule: tokenize.induct)
  case 1
  then show ?case by (auto simp: eof_ok_Cons)
next
  case (2 c s)
  consider "c = CHR '' '' \<or> c = cTab"
    | k v where "c \<noteq> cTab" "tokenize (c # s) = (case tokenize s of Inl e \<Rightarrow> Err e | Inr ts \<Rightarrow> Ok (tok k v # ts))"
        "k \<noteq> TkEOF" "c = CHR ''('' \<or> c = CHR '')'' \<or> c = CHR ''['' \<or> c = CHR '']''"
    | "c = cQuote" "\<not> (c = CHR '' '' \<or> c = cTab)" "c \<noteq> CHR ''(''" "c \<noteq> CHR '')''" "c \<noteq> CHR ''[''" "c \<noteq> CHR '']''"
    | "c \<noteq> cQuote" "\<not> (c = CHR '' '' \<or> c = cTab)" "c \<noteq> CHR ''(''" "c \<noteq> CHR '')''" "c \<noteq> CHR ''[''" "c \<noteq> CHR '']''"
    by (cases "c = CHR ''('' \<or> c = CHR '')'' \<or> c = CHR ''['' \<or> c = CHR '']''") (auto simp: cTab_def)
  then show ?case
  proof cases
    case 1
    then show ?thesis using 2 by simp
  next
    case (2 k v)
    then obtain us where "tokenize s = Ok us" "ts = tok k v # us"
      using \<open>tokenize (c # s) = Ok ts\<close> by (auto split: sum.splits)
    moreover have "eof_ok us"
      using 2 "2.IH"(2-5) calculation(1) by (auto simp: cTab_def)
    ultimately show ?thesis using 2(3) by (simp add: eof_ok_Cons)
  next
    case 3
    then obtain v r us where "scan_string s = Some (v, r)" "tokenize r = Ok us" "ts = tok TkString v # us"
      using \<open>tokenize (c # s) = Ok ts\<close> by (auto split: option.splits sum.splits)
    then show ?thesis using "2.IH"(6) 3 by (simp add: eof_ok_Cons)
  next
    case 4
    then obtain us where "tokenize (dropWhile word_char s) = Ok us" "ts = tok TkWord (c # takeWhile word_char s) # us"
      using \<open>tokenize (c # s) = Ok ts\<close> by (auto split: sum.splits)
    then show ?thesis using "2.IH"(7) 4 by (simp add: eof_ok_Cons)
  qed
qed

lemma tokenize_error: "tokenize s = Err e \<Longrightarrow> e = FUnterminated"
  by (induction s rule: tokenize.induct) (auto split: if_splits sum.splits option.splits)

text \<open>
  Compiling a filter always returns, with a predicate or one of the parser's own errors: no
  input, however malformed or nested, makes it read past its tokens or recurse without bound
  (nesting deeper than 40 is the error \<open>FTooDeep\<close>).
\<close>

theorem compile_never_panics:
  "(\<exists>p. compileFilter s = Ok p) \<or> (\<exists>e. compileFilter s = Err e \<and> e \<noteq> FPanic)"
proof (cases "tokenize s")
  case (Inl e)
  then show ?thesis using tokenize_error [of s e] by (simp add: compileFilter_def)
next
  case (Inr ts)
  from parse_good(1) [OF tokenize_eof [OF Inr], of 0] show ?thesis
    by (cases rule: goodE) (auto simp: compileFilter_def Inr)
qed

section \<open>The language\<close>

datatype fexpr =
    FOr fexpr fexpr
  | FAnd fexpr fexpr
  | FNot fexpr
  | FPath string fexpr
  | FPr string
  | FCmp string string string

primrec feval :: "fexpr \<Rightarrow> pred" where
  "feval (FOr a b) = (\<lambda>res. feval a res \<or> feval b res)"
| "feval (FAnd a b) = (\<lambda>res. feval a res \<and> feval b res)"
| "feval (FNot a) = (\<lambda>res. \<not> feval a res)"
| "feval (FPath at a) = (\<lambda>res. list_ex (\<lambda>e. feval a (asResource e)) (rs_multi res at))"
| "feval (FPr at) = (\<lambda>res. case rs_scalar res at of (v, ok) \<Rightarrow> ok \<and> v \<noteq> [])"
| "feval (FCmp at op v) = (\<lambda>res. case rs_scalar res at of (hv, present) \<Rightarrow> matchAttr hv present op v)"

text \<open>
  The tokens of an expression, with the fewest parentheses: level 0 is a disjunction, level 1 a
  conjunction, level 2 a negation or a primary; both connectives associate to the left.
\<close>

abbreviation W :: "string \<Rightarrow> ftoken" where "W v \<equiv> tok TkWord v"

definition parens :: "bool \<Rightarrow> ftoken list \<Rightarrow> ftoken list" where
  "parens b ts = (if b then [tok TkLParen ''(''] @ ts @ [tok TkRParen '')''] else ts)"

primrec tokens_of :: "nat \<Rightarrow> fexpr \<Rightarrow> ftoken list" where
  "tokens_of l (FOr a b) = parens (0 < l) (tokens_of 0 a @ W ''or'' # tokens_of 1 b)"
| "tokens_of l (FAnd a b) = parens (1 < l) (tokens_of 1 a @ W ''and'' # tokens_of 2 b)"
| "tokens_of l (FNot a) = W ''not'' # tok TkLParen ''('' # tokens_of 0 a @ [tok TkRParen '')'']"
| "tokens_of l (FPath at a) = W at # tok TkLBracket ''['' # tokens_of 0 a @ [tok TkRBracket '']'']"
| "tokens_of l (FPr at) = [W at, W ''pr'']"
| "tokens_of l (FCmp at op v) = [W at, W op, tok TkString v]"

primrec nesting :: "nat \<Rightarrow> fexpr \<Rightarrow> nat" where
  "nesting l (FOr a b) = (if 0 < l then 1 else 0) + max (nesting 0 a) (nesting 1 b)"
| "nesting l (FAnd a b) = (if 1 < l then 1 else 0) + max (nesting 1 a) (nesting 2 b)"
| "nesting l (FNot a) = Suc (nesting 0 a)"
| "nesting l (FPath at a) = Suc (nesting 0 a)"
| "nesting l (FPr at) = 0"
| "nesting l (FCmp at op v) = 0"

text \<open>Attribute names in lower case that a word token can carry and that are not the keyword \<open>not\<close>.\<close>

definition attr_name :: "string \<Rightarrow> bool" where
  "attr_name at \<longleftrightarrow> at \<noteq> [] \<and> to_lower at = at \<and> list_all word_char at \<and> hd at \<noteq> cQuote \<and> at \<noteq> ''not''"

primrec wf_filter :: "fexpr \<Rightarrow> bool" where
  "wf_filter (FOr a b) = (wf_filter a \<and> wf_filter b)"
| "wf_filter (FAnd a b) = (wf_filter a \<and> wf_filter b)"
| "wf_filter (FNot a) = wf_filter a"
| "wf_filter (FPath at a) = (attr_name at \<and> wf_filter a)"
| "wf_filter (FPr at) = attr_name at"
| "wf_filter (FCmp at op v) = (attr_name at \<and> known_op op)"

lemma tokens_no_eof: "t \<in> set (tokens_of l e) \<Longrightarrow> tk_kind t \<noteq> TkEOF"
  by (induction e arbitrary: l) (auto simp: parens_def split: if_splits)

lemma eof_ok_append: "(\<And>t. t \<in> set us \<Longrightarrow> tk_kind t \<noteq> TkEOF) \<Longrightarrow> eof_ok (us @ ts) \<longleftrightarrow> eof_ok ts"
  by (induction us) (auto simp: eof_ok_Cons)

lemma eof_ok_tokens [simp]: "eof_ok (tokens_of l e @ ts) \<longleftrightarrow> eof_ok ts"
  by (rule eof_ok_append) (rule tokens_no_eof)

text \<open>The parser's equations without the length tests, on token lists that end in the marker.\<close>

definition pbind :: "parsed \<Rightarrow> (pred \<Rightarrow> ftoken list \<Rightarrow> parsed) \<Rightarrow> parsed" where
  "pbind r f = (case r of Inl e \<Rightarrow> Err e | Inr (p, ts) \<Rightarrow> f p ts)"

lemma pbind_simps [simp]: "pbind (Err e) f = Err e" "pbind (Ok (p, ts)) f = f p ts"
  by (simp_all add: pbind_def)

lemma parseOr_eq:
  assumes "eof_ok ts" and "Suc d \<le> maxFilterDepth"
  shows "parseOr d ts = pbind (parseAnd (Suc d) ts) (orLoop (Suc d))"
  using parse_good(3) [OF assms(1), of "Suc d"] assms(2) by (cases rule: goodE) auto

lemma orLoop_eq:
  assumes "eof_ok ts"
  shows "orLoop d p (W ''or'' # ts) = pbind (parseAnd d ts) (\<lambda>q. orLoop d (\<lambda>res. p res \<or> q res))"
  using parse_good(3) [OF assms, of d] by (cases rule: goodE) (auto simp: isKw_def equal_fold_def)

lemma parseAnd_eq:
  assumes "eof_ok ts"
  shows "parseAnd d ts = pbind (parseNot d ts) (andLoop d)"
  using parse_good(5) [OF assms, of d] by (cases rule: goodE) auto

lemma andLoop_eq:
  assumes "eof_ok ts"
  shows "andLoop d p (W ''and'' # ts) = pbind (parseNot d ts) (\<lambda>q. andLoop d (\<lambda>res. p res \<and> q res))"
  using parse_good(5) [OF assms, of d] by (cases rule: goodE) (auto simp: isKw_def equal_fold_def)

lemma loops_stop:
  "\<not> isKw t ''and'' \<Longrightarrow> andLoop d p (t # ts) = Ok (p, t # ts)"
  "\<not> isKw t ''or'' \<Longrightarrow> orLoop d p (t # ts) = Ok (p, t # ts)"
  by simp_all

lemma lower_kw [simp]:
  "to_lower ''or'' = ''or''" "to_lower ''and'' = ''and''" "to_lower ''not'' = ''not''" "to_lower ''pr'' = ''pr''"
  by code_simp+

lemma kw_simps [simp]:
  "isKw (tok k v) kw \<longleftrightarrow> k = TkWord \<and> to_lower v = to_lower kw"
  by (simp add: isKw_def equal_fold_def)

lemma attr_not_kw: "attr_name at \<Longrightarrow> \<not> isKw (W at) ''not''"
  unfolding attr_name_def by simp

lemma known_op_lower: "known_op op \<Longrightarrow> to_lower op = op \<and> op \<noteq> ''pr''"
proof -
  assume "known_op op"
  moreover have "\<forall>op \<in> {''eq'', ''ne'', ''co'', ''sw'', ''ew'', ''gt'', ''ge'', ''lt'', ''le''}. to_lower op = op \<and> op \<noteq> ''pr''"
    unfolding ball_simps by (intro conjI TrueI; code_simp)
  ultimately show ?thesis unfolding known_op_def by (rule bspec [rotated])
qed

declare parseOr.simps [simp del] parseAnd.simps [simp del]

text \<open>What each level of the parser does on the tokens of an expression.\<close>

definition parses_not :: "fexpr \<Rightarrow> bool" where
  "parses_not e \<longleftrightarrow> (\<forall>d rest. eof_ok rest \<longrightarrow> d + nesting 2 e \<le> maxFilterDepth \<longrightarrow>
     parseNot d (tokens_of 2 e @ rest) = Ok (feval e, rest))"

definition parses_and :: "fexpr \<Rightarrow> bool" where
  "parses_and e \<longleftrightarrow> (\<forall>d rest. eof_ok rest \<longrightarrow> d + nesting 1 e \<le> maxFilterDepth \<longrightarrow>
     parseAnd d (tokens_of 1 e @ rest) = andLoop d (feval e) rest)"

definition parses_or :: "fexpr \<Rightarrow> bool" where
  "parses_or e \<longleftrightarrow> (\<forall>d t rest. eof_ok (t # rest) \<longrightarrow> \<not> isKw t ''and'' \<longrightarrow> d + nesting 0 e \<le> maxFilterDepth \<longrightarrow>
     pbind (parseAnd d (tokens_of 0 e @ t # rest)) (orLoop d) = orLoop d (feval e) (t # rest))"

lemma parses_or_full:
  assumes "parses_or e" and "eof_ok (t # rest)" and "\<not> isKw t ''and''" and "\<not> isKw t ''or''"
    and "Suc d + nesting 0 e \<le> maxFilterDepth"
  shows "parseOr d (tokens_of 0 e @ t # rest) = Ok (feval e, t # rest)"
  using assms parseOr_eq [of "tokens_of 0 e @ t # rest" d] loops_stop(2) [of t "Suc d" "feval e" rest]
  unfolding parses_or_def by auto

lemma parses_and_of_not:
  assumes "parses_not e" and "tokens_of 1 e = tokens_of 2 e" and "nesting 1 e = nesting 2 e"
  shows "parses_and e"
  using assms parseAnd_eq unfolding parses_and_def parses_not_def by simp

lemma parses_or_of_and:
  assumes "parses_and e" and "tokens_of 0 e = tokens_of 1 e" and "nesting 0 e = nesting 1 e"
  shows "parses_or e"
  unfolding parses_or_def
proof (intro allI impI)
  fix d t rest
  assume "eof_ok (t # rest)" "\<not> isKw t ''and''" "d + nesting 0 e \<le> maxFilterDepth"
  then show "pbind (parseAnd d (tokens_of 0 e @ t # rest)) (orLoop d) = orLoop d (feval e) (t # rest)"
    using assms loops_stop(1) [of t d "feval e" rest] unfolding parses_and_def by simp
qed

lemma parses_not_of_or:
  assumes o: "parses_or e" and t: "tokens_of 2 e = parens True (tokens_of 0 e)" and n: "nesting 2 e = Suc (nesting 0 e)"
  shows "parses_not e"
  unfolding parses_not_def
proof (intro allI impI)
  fix d rest
  assume "eof_ok rest" "d + nesting 2 e \<le> maxFilterDepth"
  then have "parseOr d (tokens_of 0 e @ tok TkRParen '')'' # rest) = Ok (feval e, tok TkRParen '')'' # rest)"
    by (intro parses_or_full [OF o]) (auto simp: eof_ok_Cons n)
  then show "parseNot d (tokens_of 2 e @ rest) = Ok (feval e, rest)"
    by (simp add: t parens_def)
qed

lemma parses_all:
  "wf_filter e \<Longrightarrow> parses_not e \<and> parses_and e \<and> parses_or e"
proof (induction e)
  case (FOr a b)
  have o: "parses_or (FOr a b)"
    unfolding parses_or_def
  proof (intro allI impI)
    fix d t rest
    assume h: "eof_ok (t # rest)" "\<not> isKw t ''and''" "d + nesting 0 (FOr a b) \<le> maxFilterDepth"
    have a: "pbind (parseAnd d (tokens_of 0 a @ W ''or'' # tokens_of 1 b @ t # rest)) (orLoop d) =
        orLoop d (feval a) (W ''or'' # tokens_of 1 b @ t # rest)"
      using FOr h unfolding parses_or_def by (simp add: eof_ok_Cons)
    have b: "parseAnd d (tokens_of 1 b @ t # rest) = Ok (feval b, t # rest)"
      using FOr h loops_stop(1) [of t d "feval b" rest] unfolding parses_and_def by simp
    show "pbind (parseAnd d (tokens_of 0 (FOr a b) @ t # rest)) (orLoop d) = orLoop d (feval (FOr a b)) (t # rest)"
      using a b h(1) orLoop_eq [of "tokens_of 1 b @ t # rest" d "feval a"] by (simp add: parens_def)
  qed
  moreover have n: "parses_not (FOr a b)" by (rule parses_not_of_or [OF o]) (simp_all add: parens_def)
  moreover have "parses_and (FOr a b)" by (rule parses_and_of_not [OF n]) simp_all
  ultimately show ?case by blast
next
  case (FAnd a b)
  have c: "parses_and (FAnd a b)"
    unfolding parses_and_def
  proof (intro allI impI)
    fix d rest
    assume h: "eof_ok rest" "d + nesting 1 (FAnd a b) \<le> maxFilterDepth"
    have a: "parseAnd d (tokens_of 1 a @ W ''and'' # tokens_of 2 b @ rest) =
        andLoop d (feval a) (W ''and'' # tokens_of 2 b @ rest)"
      using FAnd h unfolding parses_and_def by (simp add: eof_ok_Cons)
    have b: "parseNot d (tokens_of 2 b @ rest) = Ok (feval b, rest)"
      using FAnd h unfolding parses_not_def by simp
    show "parseAnd d (tokens_of 1 (FAnd a b) @ rest) = andLoop d (feval (FAnd a b)) rest"
      using a b h(1) andLoop_eq [of "tokens_of 2 b @ rest" d "feval a"] by (simp add: parens_def)
  qed
  moreover have o: "parses_or (FAnd a b)" by (rule parses_or_of_and [OF c]) (simp_all add: parens_def)
  moreover have "parses_not (FAnd a b)" by (rule parses_not_of_or [OF o]) (simp_all add: parens_def)
  ultimately show ?case by blast
next
  case (FNot a)
  have n: "parses_not (FNot a)"
    unfolding parses_not_def
  proof (intro allI impI)
    fix d rest
    assume h: "eof_ok rest" "d + nesting 2 (FNot a) \<le> maxFilterDepth"
    have "parseOr d (tokens_of 0 a @ tok TkRParen '')'' # rest) = Ok (feval a, tok TkRParen '')'' # rest)"
      using FNot h by (intro parses_or_full) (auto simp: eof_ok_Cons)
    then show "parseNot d (tokens_of 2 (FNot a) @ rest) = Ok (feval (FNot a), rest)" by simp
  qed
  moreover have c: "parses_and (FNot a)" by (rule parses_and_of_not [OF n]) simp_all
  moreover have "parses_or (FNot a)" by (rule parses_or_of_and [OF c]) simp_all
  ultimately show ?case by blast
next
  case (FPath at a)
  have n: "parses_not (FPath at a)"
    unfolding parses_not_def
  proof (intro allI impI)
    fix d rest
    assume h: "eof_ok rest" "d + nesting 2 (FPath at a) \<le> maxFilterDepth"
    have "parseOr d (tokens_of 0 a @ tok TkRBracket '']'' # rest) = Ok (feval a, tok TkRBracket '']'' # rest)"
      using FPath h by (intro parses_or_full) (auto simp: eof_ok_Cons)
    then show "parseNot d (tokens_of 2 (FPath at a) @ rest) = Ok (feval (FPath at a), rest)"
      using FPath.prems attr_not_kw [of at] by (simp add: attr_name_def Let_def)
  qed
  moreover have c: "parses_and (FPath at a)" by (rule parses_and_of_not [OF n]) simp_all
  moreover have "parses_or (FPath at a)" by (rule parses_or_of_and [OF c]) simp_all
  ultimately show ?case by blast
next
  case (FPr at)
  have n: "parses_not (FPr at)"
    unfolding parses_not_def using FPr attr_not_kw [of at] by (simp add: attr_name_def Let_def)
  moreover have c: "parses_and (FPr at)" by (rule parses_and_of_not [OF n]) simp_all
  moreover have "parses_or (FPr at)" by (rule parses_or_of_and [OF c]) simp_all
  ultimately show ?case by blast
next
  case (FCmp at op v)
  have n: "parses_not (FCmp at op v)"
    unfolding parses_not_def
    using FCmp attr_not_kw [of at] known_op_lower [of op] by (simp add: attr_name_def Let_def)
  moreover have c: "parses_and (FCmp at op v)" by (rule parses_and_of_not [OF n]) simp_all
  moreover have "parses_or (FCmp at op v)" by (rule parses_or_of_and [OF c]) simp_all
  ultimately show ?case by blast
qed

section \<open>Printing\<close>

definition escape :: "string \<Rightarrow> string" where
  "escape v = concat (map (\<lambda>c. if c = cQuote \<or> c = cBackslash then [cBackslash, c] else [c]) v)"

definition show_tok :: "ftoken \<Rightarrow> string" where
  "show_tok t = (case tk_kind t of
     TkString \<Rightarrow> cQuote # escape (tk_val t) @ [cQuote]
   | _ \<Rightarrow> tk_val t @ '' '')"

definition show_filter :: "fexpr \<Rightarrow> string" where
  "show_filter e = concat (map show_tok (tokens_of 0 e))"

text \<open>Tokens the tokenizer reads back: words of word characters, the brackets, any string.\<close>

definition printable_tok :: "ftoken \<Rightarrow> bool" where
  "printable_tok t \<longleftrightarrow> (case tk_kind t of
     TkWord \<Rightarrow> tk_val t \<noteq> [] \<and> list_all word_char (tk_val t) \<and> hd (tk_val t) \<noteq> cQuote
   | TkString \<Rightarrow> True
   | TkLParen \<Rightarrow> tk_val t = ''('' | TkRParen \<Rightarrow> tk_val t = '')''
   | TkLBracket \<Rightarrow> tk_val t = ''['' | TkRBracket \<Rightarrow> tk_val t = '']''
   | TkEOF \<Rightarrow> False)"

lemma scan_escape: "scan_string (escape v @ cQuote # r) = Some (v, r)"
proof (induction v)
  case (Cons c v)
  consider "c = cQuote \<or> c = cBackslash" | "c \<noteq> cQuote" "c \<noteq> cBackslash" by blast
  then show ?case
  proof cases
    case 1
    then show ?thesis using Cons by (auto simp: escape_def cQuote_def cBackslash_def)
  next
    case 2
    obtain x y where xy: "escape v @ cQuote # r = x # y" by (cases "escape v") auto
    have "escape (c # v) = c # escape v" using 2 by (simp add: escape_def)
    then show ?thesis using 2 Cons xy by simp
  qed
qed (simp add: escape_def)

lemma tokenize_show_tok:
  assumes "printable_tok t"
  shows "tokenize (show_tok t @ s) = (case tokenize s of Inl e \<Rightarrow> Err e | Inr ts \<Rightarrow> Ok (t # ts))"
proof (cases "tk_kind t")
  case TkWord
  then obtain c v where v: "tk_val t = c # v" "word_char c" "list_all word_char v" "c \<noteq> cQuote"
    using assms by (cases "tk_val t") (auto simp: printable_tok_def)
  have t: "t = W (c # v)" using TkWord v by simp
  have tw: "takeWhile word_char (v @ '' '' @ s) = v" "dropWhile word_char (v @ '' '' @ s) = '' '' @ s"
    using v(3) by (auto simp: takeWhile_append2 dropWhile_append2 list_all_iff word_char_def)
  have "tokenize (c # v @ '' '' @ s) =
      (case tokenize ('' '' @ s) of Inl e \<Rightarrow> Err e | Inr ts \<Rightarrow> Ok (W (c # v) # ts))"
    using v(2,4) unfolding tokenize.simps tw by (simp add: word_char_def)
  then have "tokenize (show_tok (W (c # v)) @ s) = (case tokenize s of Inl e \<Rightarrow> Err e | Inr ts \<Rightarrow> Ok (W (c # v) # ts))"
    by (simp add: show_tok_def del: tokenize.simps(2)) simp
  then show ?thesis unfolding t .
next
  case TkString
  then have t: "t = tok TkString (tk_val t)" by simp
  show ?thesis
    using scan_escape [of "tk_val t" s]
    by (subst t) (simp add: show_tok_def TkString cQuote_def cTab_def)
qed (use assms in \<open>auto simp: printable_tok_def show_tok_def cTab_def intro!: arg_cong [where f = "\<lambda>t. case_sum _ (\<lambda>ts. Ok (t # ts)) _"]\<close>)

lemma show_filter_toks:
  assumes "\<forall>t \<in> set ts. printable_tok t"
  shows "tokenize (concat (map show_tok ts)) = Ok (ts @ [tok TkEOF []])"
  using assms by (induction ts) (simp_all add: tokenize_show_tok)

lemma printable_fixed:
  "printable_tok (W ''or'')" "printable_tok (W ''and'')" "printable_tok (W ''not'')" "printable_tok (W ''pr'')"
  "printable_tok (tok TkLParen ''('')" "printable_tok (tok TkRParen '')'')"
  "printable_tok (tok TkLBracket ''['')" "printable_tok (tok TkRBracket '']'')" "printable_tok (tok TkString v)"
  by (simp_all add: printable_tok_def word_char_def cTab_def cQuote_def)

lemma printable_op: "known_op op \<Longrightarrow> printable_tok (W op)"
  unfolding known_op_def by (elim insertE) (simp_all add: printable_tok_def word_char_def cTab_def cQuote_def)

lemma printable_attr: "attr_name at \<Longrightarrow> printable_tok (W at)"
  by (simp add: attr_name_def printable_tok_def)

lemma printable_tokens_of: "wf_filter e \<Longrightarrow> \<forall>t \<in> set (tokens_of l e). printable_tok t"
  by (induction e arbitrary: l) (simp_all add: parens_def printable_fixed printable_op printable_attr ball_Un)

text \<open>
  C37: Completeness and precedence: the printed form of a filter expression, with as few
  parentheses as the precedence of \<open>or\<close>, \<open>and\<close> and \<open>not\<close> allows and string values escaped,
  compiles to the predicate that the expression denotes, up to the depth the parser allows.
\<close>

theorem filter_roundtrip:
  assumes "wf_filter e" and "Suc (nesting 0 e) \<le> maxFilterDepth"
  shows "compileFilter (show_filter e) = Ok (feval e)"
proof -
  have "tokenize (show_filter e) = Ok (tokens_of 0 e @ [tok TkEOF []])"
    unfolding show_filter_def by (rule show_filter_toks) (rule printable_tokens_of [OF assms(1)])
  moreover have "parseOr 0 (tokens_of 0 e @ [tok TkEOF []]) = Ok (feval e, [tok TkEOF []])"
    by (rule parses_or_full) (use parses_all [OF assms(1)] assms(2) in \<open>simp_all add: eof_ok_Cons\<close>)
  ultimately show ?thesis by (simp add: compileFilter_def)
qed

definition sample_filter :: fexpr where
  "sample_filter = FOr (FAnd (FPr ''title'') (FNot (FCmp ''username'' ''sw'' ''j'')))
     (FPath ''emails'' (FOr (FCmp ''value'' ''co'' ''a'') (FPr ''type'')))"

lemma filter_roundtrip_witness:
  "compileFilter ''title pr and not ( username sw \"j\") or emails [ value co \"a\"or type pr ] '' = Ok (feval sample_filter)"
proof -
  have "show_filter sample_filter = ''title pr and not ( username sw \"j\") or emails [ value co \"a\"or type pr ] ''"
    by code_simp
  moreover have "wf_filter sample_filter" by code_simp
  moreover have "Suc (nesting 0 sample_filter) \<le> maxFilterDepth" by code_simp
  ultimately show ?thesis using filter_roundtrip [of sample_filter] by (simp only:)
qed

section \<open>Comparisons\<close>

lemma matchAttr_absent: "\<not> matchAttr v False op w"
  by (simp add: matchAttr_def Let_def)

text \<open>
  The operators of a comparison: on an absent attribute each of them is false; on a present
  one they are, on the strings in lower case, equality and its negation, infix, prefix and
  suffix, and the four lexicographic orders; an operator outside the language matches nothing.
\<close>

theorem filter_operators:
  "\<not> matchAttr v False op w \<and>
   (matchAttr v True ''eq'' w \<longleftrightarrow> to_lower v = to_lower w) \<and>
   (matchAttr v True ''ne'' w \<longleftrightarrow> to_lower v \<noteq> to_lower w) \<and>
   (matchAttr v True ''co'' w \<longleftrightarrow> (\<exists>x y. to_lower v = x @ to_lower w @ y)) \<and>
   (matchAttr v True ''sw'' w \<longleftrightarrow> (\<exists>y. to_lower v = to_lower w @ y)) \<and>
   (matchAttr v True ''ew'' w \<longleftrightarrow> (\<exists>x. to_lower v = x @ to_lower w)) \<and>
   (matchAttr v True ''le'' w \<longleftrightarrow> matchAttr v True ''lt'' w \<or> matchAttr v True ''eq'' w) \<and>
   (matchAttr v True ''gt'' w \<longleftrightarrow> \<not> matchAttr v True ''le'' w) \<and>
   (matchAttr v True ''ge'' w \<longleftrightarrow> \<not> matchAttr v True ''lt'' w) \<and>
   matchAttr v p op w \<le> known_op op"
  by (intro conjI) (auto simp: matchAttr_def Let_def known_op_def contains_str_iff has_prefix_iff has_suffix_iff)

section \<open>Sorting\<close>

definition userKey :: "string \<Rightarrow> AuthUser \<Rightarrow> string" where
  "userKey sortBy u = to_lower (fst (userAttr u sortBy))"

text \<open>
  Sorting a list of users permutes it, orders it by the attribute in lower case in the
  direction asked for, and is stable: users with equal keys keep their order, so that sorting
  and then paging never loses or repeats a user. Without a sort attribute the list is unchanged.
\<close>

theorem sort_users:
  assumes "sortBy \<noteq> []"
  shows "mset (sortUsers us sortBy order) = mset us \<and>
    sorted ((if equal_fold order ''descending'' then rev else id) (map (userKey sortBy) (sortUsers us sortBy order))) \<and>
    filter (\<lambda>u. userKey sortBy u = k) (sortUsers us sortBy order) = filter (\<lambda>u. userKey sortBy u = k) us"
proof (intro conjI)
  let ?lt = "\<lambda>d u v. less_attr (fst (userAttr u sortBy)) (fst (userAttr v sortBy)) d"
  have sorts: "sortUsers us sortBy order = sort_by (?lt (equal_fold order ''descending'')) us"
    using assms by (simp add: sortUsers_def Let_def)
  have up: "?lt False = (\<lambda>u v. userKey sortBy u < userKey sortBy v)"
    and down: "?lt True = (\<lambda>u v. userKey sortBy v < userKey sortBy u)"
    by (simp_all add: less_attr_def userKey_def)
  show "mset (sortUsers us sortBy order) = mset us"
    by (simp add: sorts)
  have "sorted_wrt (\<lambda>u v. \<not> userKey sortBy u < userKey sortBy v) (sort_by (?lt True) us)"
    unfolding down by (rule sorted_sort_by) simp_all
  then have "sorted (rev (map (userKey sortBy) (sort_by (?lt True) us)))"
    by (simp only: sorted_wrt_rev sorted_wrt_map not_less)
  moreover have "sorted (map (userKey sortBy) (sort_by (?lt False) us))"
    unfolding up by (rule sorted_sort_by_key)
  ultimately show "sorted ((if equal_fold order ''descending'' then rev else id) (map (userKey sortBy) (sortUsers us sortBy order)))"
    unfolding sorts by (cases "equal_fold order ''descending''") (simp_all only: if_True if_False id_apply)
  have "\<not> ?lt d v u" if "userKey sortBy u = k" "userKey sortBy v = k" for u v d
    using that by (simp add: less_attr_def userKey_def)
  then show "filter (\<lambda>u. userKey sortBy u = k) (sortUsers us sortBy order) = filter (\<lambda>u. userKey sortBy u = k) us"
    unfolding sorts by (rule filter_sort_by)
qed

definition sample_users :: "AuthUser list" where
  "sample_users = map (\<lambda>(i, n). \<lparr>au_ID = i, au_Sub = i, au_Email = [], au_Name = n, au_EmailVerified = False,
     au_Disabled = False, au_Banned = False, au_BannedUntil = 0, au_BanReason = [], au_CreatedAt = 0, au_UpdatedAt = 0\<rparr>)
     [(''1'', ''Bo''), (''2'', ''ann''), (''3'', ''Ann'')]"

lemma sort_users_witness:
  "map au_ID (filter (\<lambda>u. userKey ''displayName'' u = ''ann'') (sortUsers sample_users ''displayName'' ''Descending'')) =
   [''2'', ''3'']"
proof -
  have "filter (\<lambda>u. userKey ''displayName'' u = ''ann'') (sortUsers sample_users ''displayName'' ''Descending'') =
      filter (\<lambda>u. userKey ''displayName'' u = ''ann'') sample_users"
    using sort_users [of "''displayName''" sample_users "''Descending''" "''ann''"] by blast
  moreover have "map au_ID (filter (\<lambda>u. userKey ''displayName'' u = ''ann'') sample_users) = [''2'', ''3'']"
    by code_simp
  ultimately show ?thesis by (simp only:)
qed

end
