(* ===== verification/RateLimit.thy ===== *)
theory RateLimit
  imports Prelude
begin

text \<open>
  The sliding-window rate limiter (\<open>ratelimit.go\<close>): a map from a key to the instants of the
  attempts it let through. \<open>Allow\<close> drops the instants that left the window, refuses when the
  limit is reached and records the attempt otherwise; a background job drops stale buckets.
  The log of all granted attempts is the abstract limiter it is compared with.
\<close>

section \<open>The limiter\<close>

record rateLimiter =
  rl_hits :: "(string, time list) gomap"
  rl_window :: int
  rl_limit :: nat

definition newRateLimiter :: "nat \<Rightarrow> int \<Rightarrow> rateLimiter" where
  "newRateLimiter limit window = \<lparr>rl_hits = [], rl_window = window, rl_limit = limit\<rparr>"

definition bucket :: "rateLimiter \<Rightarrow> string \<Rightarrow> time list" where
  "bucket r key = (case mget (rl_hits r) key of None \<Rightarrow> [] | Some ts \<Rightarrow> ts)"

definition kept :: "int \<Rightarrow> time \<Rightarrow> time list \<Rightarrow> time list" where
  "kept window now = filter (\<lambda>t. now - window < t)"

definition Allow :: "time \<Rightarrow> rateLimiter \<Rightarrow> string \<Rightarrow> bool \<times> rateLimiter" where
  "Allow now r key =
     (let ks = kept (rl_window r) now (bucket r key) in
      if rl_limit r \<le> length ks then (False, r\<lparr>rl_hits := mput key ks (rl_hits r)\<rparr>)
      else (True, r\<lparr>rl_hits := mput key (ks @ [now]) (rl_hits r)\<rparr>))"

definition gc :: "time \<Rightarrow> rateLimiter \<Rightarrow> rateLimiter" where
  "gc now r = r\<lparr>rl_hits := mprune (\<lambda>_ ts. ts = []) (mmap (kept (rl_window r) now) (rl_hits r))\<rparr>"

definition minute_ns :: int where "minute_ns = 60 * second_ns"

text \<open>The budgets \<open>enableLimiters\<close> installs: per address and per account.\<close>

definition ipLimiter0 :: rateLimiter where "ipLimiter0 = newRateLimiter 20 (5 * minute_ns)"
definition acctLimiter0 :: rateLimiter where "acctLimiter0 = newRateLimiter 10 (15 * minute_ns)"

lemma kept_kept: "now \<le> now' \<Longrightarrow> kept w now' (kept w now ts) = kept w now' ts"
  unfolding kept_def by (induction ts) auto

lemma kept_app: "kept w now (xs @ ys) = kept w now xs @ kept w now ys"
  by (simp add: kept_def)

lemma gc_fields [simp]: "rl_window (gc now r) = rl_window r" "rl_limit (gc now r) = rl_limit r"
  by (simp_all add: gc_def)

lemma Allow_fields [simp]:
  "rl_window (snd (Allow now r key)) = rl_window r" "rl_limit (snd (Allow now r key)) = rl_limit r"
  by (simp_all add: Allow_def Let_def)

lemma bucket_gc: "keys_ok (rl_hits r) \<Longrightarrow> bucket (gc now r) key = kept (rl_window r) now (bucket r key)"
  by (simp add: bucket_def gc_def mget_mprune kept_def split: option.split)

lemma bucket_Allow:
  "bucket (snd (Allow now r key)) k =
     (if k = key then kept (rl_window r) now (bucket r key) @ (if fst (Allow now r key) then [now] else [])
      else bucket r k)"
  by (simp add: Allow_def Let_def bucket_def)

lemma keys_ok_limiter:
  "keys_ok (rl_hits r) \<Longrightarrow> keys_ok (rl_hits (snd (Allow now r key)))"
  "keys_ok (rl_hits r) \<Longrightarrow> keys_ok (rl_hits (gc now r))"
  by (simp_all add: Allow_def Let_def gc_def keys_ok_mput keys_ok_mprune)

section \<open>Histories\<close>

datatype call = Attempt time string | Gc time

primrec call_time :: "call \<Rightarrow> time" where
  "call_time (Attempt t k) = t"
| "call_time (Gc t) = t"

fun run_limiter :: "rateLimiter \<Rightarrow> call list \<Rightarrow> bool list" where
  "run_limiter r [] = []"
| "run_limiter r (Attempt t k # cs) = (case Allow t r k of (ok, r') \<Rightarrow> ok # run_limiter r' cs)"
| "run_limiter r (Gc t # cs) = run_limiter (gc t r) cs"

text \<open>The abstract limiter keeps every attempt it granted and counts those in the window.\<close>

definition in_window :: "int \<Rightarrow> time \<Rightarrow> string \<Rightarrow> (time \<times> string) list \<Rightarrow> time list" where
  "in_window w now key log = kept w now (map fst (filter (\<lambda>e. snd e = key) log))"

fun run_log :: "nat \<Rightarrow> int \<Rightarrow> (time \<times> string) list \<Rightarrow> call list \<Rightarrow> bool list" where
  "run_log l w log [] = []"
| "run_log l w log (Attempt t k # cs) =
     (if length (in_window w t k log) < l then True # run_log l w (log @ [(t, k)]) cs
      else False # run_log l w log cs)"
| "run_log l w log (Gc t # cs) = run_log l w log cs"

fun granted :: "nat \<Rightarrow> int \<Rightarrow> (time \<times> string) list \<Rightarrow> call list \<Rightarrow> (time \<times> string) list" where
  "granted l w log [] = log"
| "granted l w log (Attempt t k # cs) =
     (if length (in_window w t k log) < l then granted l w (log @ [(t, k)]) cs else granted l w log cs)"
| "granted l w log (Gc t # cs) = granted l w log cs"

text \<open>The concrete buckets and the log agree on every instant that can still count.\<close>

definition agrees :: "time \<Rightarrow> rateLimiter \<Rightarrow> (time \<times> string) list \<Rightarrow> bool" where
  "agrees now r log \<longleftrightarrow> keys_ok (rl_hits r) \<and>
     (\<forall>key. \<forall>t \<ge> now. kept (rl_window r) t (bucket r key) = in_window (rl_window r) t key log)"

lemma in_window_append:
  "in_window w t key (log @ [(u, k)]) = in_window w t key log @ (if k = key \<and> t - w < u then [u] else [])"
  by (simp add: in_window_def kept_def)

lemma kept_in_window: "t \<le> u \<Longrightarrow> kept w u (in_window w t key log) = in_window w u key log"
  by (simp add: in_window_def kept_kept)

lemma agrees_mono: "agrees now r log \<Longrightarrow> now \<le> t \<Longrightarrow> agrees t r log"
  by (auto simp: agrees_def)

lemma agrees_Allow:
  assumes a: "agrees t r log" and w: "0 < rl_window r"
  shows "fst (Allow t r k) = (length (in_window (rl_window r) t k log) < rl_limit r)"
    and "agrees t (snd (Allow t r k)) (if fst (Allow t r k) then log @ [(t, k)] else log)"
proof -
  have now: "kept (rl_window r) t (bucket r k) = in_window (rl_window r) t k log"
    using a by (simp add: agrees_def)
  then show "fst (Allow t r k) = (length (in_window (rl_window r) t k log) < rl_limit r)"
    by (auto simp: Allow_def Let_def)
  have "kept (rl_window r) u (bucket (snd (Allow t r k)) key) =
      in_window (rl_window r) u key (if fst (Allow t r k) then log @ [(t, k)] else log)" if "t \<le> u" for u key
  proof -
    have k: "kept (rl_window r) u (bucket r key) = in_window (rl_window r) u key log"
      using a that by (simp add: agrees_def)
    show ?thesis
      by (simp add: bucket_Allow now kept_app kept_in_window [OF that] in_window_append k) (simp add: kept_def)
  qed
  then show "agrees t (snd (Allow t r k)) (if fst (Allow t r k) then log @ [(t, k)] else log)"
    using a by (simp add: agrees_def keys_ok_limiter(1))
qed

lemma agrees_gc: "agrees t r log \<Longrightarrow> agrees t (gc t r) log"
  unfolding agrees_def by (simp add: bucket_gc kept_in_window keys_ok_limiter(2))

lemma run_limiter_log:
  assumes "agrees now r log" and "0 < rl_window r" and "sorted (now # map call_time cs)"
  shows "run_limiter r cs = run_log (rl_limit r) (rl_window r) log cs"
  using assms
proof (induction cs arbitrary: now r log)
  case (Cons c cs)
  have t: "agrees (call_time c) r log" using Cons.prems agrees_mono by simp
  have srt: "sorted (call_time c # map call_time cs)" using Cons.prems(3) by simp
  show ?case
  proof (cases c)
    case (Attempt t k)
    note step = agrees_Allow [OF t [unfolded Attempt call_time.simps] Cons.prems(2), of k]
    obtain ok r' where r': "Allow t r k = (ok, r')" by fastforce
    then have f: "rl_window r' = rl_window r" "rl_limit r' = rl_limit r"
      using Allow_fields [of t r k] by simp_all
    have "run_limiter r' cs = run_log (rl_limit r) (rl_window r) (if ok then log @ [(t, k)] else log) cs"
      using Cons.IH [OF step(2)] Cons.prems(2) srt by (simp add: r' f Attempt)
    then show ?thesis using step(1) by (auto simp: Attempt r')
  next
    case (Gc t)
    then show ?thesis using Cons.IH [of t "gc t r" log] agrees_gc t Cons.prems(2) srt by simp
  qed
qed simp

text \<open>
  C33: The limiter with its buckets and its background cleanup gives, on every history of calls
  in the order of time, exactly the answers of a limiter that never forgets an attempt: an
  attempt is refused just when the limit of granted attempts lies in the window before it.
\<close>

theorem limiter_refines_log:
  assumes "0 < window" and "sorted (map call_time cs)"
  shows "run_limiter (newRateLimiter limit window) cs = run_log limit window [] cs"
proof (cases cs)
  case (Cons c cs')
  have "agrees (call_time c) (newRateLimiter limit window) []"
    by (simp add: agrees_def newRateLimiter_def bucket_def in_window_def kept_def)
  from run_limiter_log [OF this, of cs] assms Cons show ?thesis
    by (simp add: newRateLimiter_def)
qed simp

theorem limiter_refines_log_witness:
  "run_limiter (newRateLimiter 2 10) [Attempt 1 ''ip'', Attempt 3 ''ip'', Attempt 5 ''ip'', Gc 6, Attempt 11 ''ip''] =
     [True, True, False, True]"
  by (subst limiter_refines_log) (simp_all add: in_window_def kept_def)

text \<open>The granted attempts of one key that lie in the window ending at \<open>u\<close>.\<close>

definition window_at :: "int \<Rightarrow> time \<Rightarrow> string \<Rightarrow> (time \<times> string) list \<Rightarrow> (time \<times> string) list" where
  "window_at w u key = filter (\<lambda>e. snd e = key \<and> u - w < fst e \<and> fst e \<le> u)"

lemma in_window_length:
  "length (in_window w t key log) = length (filter (\<lambda>e. snd e = key \<and> t - w < fst e) log)"
  by (simp add: in_window_def kept_def filter_map comp_def conj_commute)

lemma window_at_snoc:
  assumes "length (window_at w u key log) \<le> l" and "length (in_window w t k log) < l"
    and "\<forall>e \<in> set log. fst e \<le> t"
  shows "length (window_at w u key (log @ [(t, k)])) \<le> l"
proof (cases "key = k \<and> u - w < t \<and> t \<le> u")
  case True
  then have "window_at w u key log = filter (\<lambda>e. u - w < fst e \<and> fst e \<le> u) (filter (\<lambda>e. snd e = k \<and> t - w < fst e) log)"
    by (auto simp: window_at_def intro!: filter_cong)
  then have "length (window_at w u key log) \<le> length (in_window w t k log)"
    by (simp only: in_window_length length_filter_le)
  with assms(2) True show ?thesis by (simp add: window_at_def)
qed (use assms(1) in \<open>auto simp: window_at_def\<close>)

lemma granted_bound:
  assumes "length (window_at w u key log) \<le> l" and "\<forall>e \<in> set log. fst e \<le> now"
    and "sorted (now # map call_time cs)"
  shows "length (window_at w u key (granted l w log cs)) \<le> l"
  using assms
proof (induction cs arbitrary: log now)
  case (Cons c cs)
  have le: "\<forall>e \<in> set log. fst e \<le> call_time c" using Cons.prems(2,3) by auto
  have srt: "sorted (call_time c # map call_time cs)" using Cons.prems(3) by simp
  show ?case
  proof (cases c)
    case (Attempt t k)
    then show ?thesis
      using Cons.IH [OF window_at_snoc [OF Cons.prems(1)], of t k t] Cons.IH [OF Cons.prems(1) le srt] le srt
      by auto
  next
    case (Gc t)
    then show ?thesis using Cons.IH [OF Cons.prems(1) le srt] by simp
  qed
qed simp

text \<open>
  In every history of calls in the order of time, at most \<open>limit\<close> attempts of a key are
  granted within any stretch of time as long as the window.
\<close>

theorem limiter_bound:
  assumes "sorted (map call_time cs)"
  shows "length (window_at window u key (granted limit window [] cs)) \<le> limit"
proof (cases cs)
  case (Cons c cs')
  then show ?thesis
    using granted_bound [of window u key "[]" limit "call_time c" cs] assms by (simp add: window_at_def)
qed (simp add: window_at_def)

theorem limiter_bound_witness:
  "length (window_at 10 6 ''ip'' (granted 2 10 [] [Attempt 1 ''ip'', Attempt 3 ''ip'', Attempt 5 ''ip''])) \<le> 2"
  by (rule limiter_bound) simp

end
