(* ===== verification/Tokens.thy ===== *)
theory Tokens
  imports AuthxTypes
begin

text \<open>
  The signed cookies and one-time secrets of the engine: \<open>session.go\<close> (minting and parsing the
  session and login-flow cookies), the pending-login cookie of \<open>twofactor.go\<close>, the step-up
  cookie of \<open>stepup.go\<close>, \<open>tokens.go\<close>, the codes of \<open>totp.go\<close>, \<open>twofactor.go\<close> and
  \<open>emailotp.go\<close>. The cryptography is a parameter: the record \<open>crypto\<close> holds the JWT library,
  SHA-256, HMAC-SHA1, bcrypt, the base encodings and the random source. \<open>jwt_ok\<close> and
  \<open>bcrypt_ok\<close> state what the code relies on; they are hypotheses of the properties that need
  them, and \<open>TokenLaws\<close> gives an instance.
\<close>

section \<open>Libraries\<close>

text \<open>
  The claims of all cookies on the wire: the registered claims and the union of the private
  ones (\<open>SessionClaims\<close>, \<open>flowClaims\<close>, \<open>pendingClaims\<close>, \<open>webauthnFlowClaims\<close>), each absent when empty.
\<close>

record jwt_claims =
  jw_sub :: string
  jw_aud :: "string list"
  jw_iat :: "time option"
  jw_exp :: "time option"
  jw_email :: string
  jw_name :: string
  jw_groups :: "string list"
  jw_role :: string
  jw_idt :: string
  jw_sid :: string
  jw_imp :: string
  jw_org :: string
  jw_orgRole :: string
  jw_st :: string
  jw_no :: string
  jw_ve :: string
  jw_nx :: string
  jw_rm :: bool
  jw_ffc :: bytes
  jw_s :: bytes

text \<open>
  \<open>c_jwtSign secret claims\<close> is an HS256 token. \<open>c_jwtParse secret token audience now\<close> is
  \<open>jwt.ParseWithClaims\<close> with \<open>WithValidMethods(["HS256"])\<close>, \<open>WithAudience(audience)\<close> and
  \<open>WithExpirationRequired()\<close> at the instant \<open>now\<close>. \<open>c_rand i n\<close> are the \<open>n\<close> bytes of the
  \<open>i\<close>-th read of the random source, \<open>c_randInt i m\<close> a number below \<open>m\<close> drawn from it; \<open>c_bcrypt i pw\<close> hashes at cost 12 with the \<open>i\<close>-th salt and
  fails on passwords over 72 bytes. \<open>c_setQuery url k v\<close> parses a URL, sets a query parameter and
  prints it again (the URL itself when it does not parse). \<open>c_parseTime\<close> reads an RFC 3339 instant.
\<close>

record crypto =
  c_jwtSign :: "bytes \<Rightarrow> jwt_claims \<Rightarrow> string"
  c_jwtParse :: "bytes \<Rightarrow> string \<Rightarrow> string \<Rightarrow> time \<Rightarrow> jwt_claims option"
  c_sha256 :: "bytes \<Rightarrow> bytes"
  c_hmacSHA1 :: "bytes \<Rightarrow> bytes \<Rightarrow> bytes"
  c_bcrypt :: "nat \<Rightarrow> string \<Rightarrow> string option"
  c_bcryptCheck :: "string \<Rightarrow> string \<Rightarrow> bool"
  c_bcryptCost :: "string \<Rightarrow> nat option"
  c_rand :: "nat \<Rightarrow> nat \<Rightarrow> bytes"
  c_randInt :: "nat \<Rightarrow> nat \<Rightarrow> nat"
  c_b64url :: "bytes \<Rightarrow> string"
  c_b32 :: "bytes \<Rightarrow> string"
  c_b32dec :: "string \<Rightarrow> bytes option"
  c_setQuery :: "string \<Rightarrow> string \<Rightarrow> string \<Rightarrow> string"
  c_parseTime :: "string \<Rightarrow> time option"

text \<open>A token verifies under its own key exactly for its audience and before its expiry.\<close>

definition jwt_ok :: "crypto \<Rightarrow> bool" where
  "jwt_ok C \<longleftrightarrow> (\<forall>k c aud now. c_jwtParse C k (c_jwtSign C k c) aud now =
     (if aud \<in> set (jw_aud c) \<and> (\<exists>e. jw_exp c = Some e \<and> now < e) then Some c else None)) \<and>
     (\<forall>k c. c_jwtSign C k c \<noteq> [])"

text \<open>No key of the list verifies a token signed under \<open>k\<close>.\<close>

definition keys_separate :: "crypto \<Rightarrow> bytes list \<Rightarrow> bytes \<Rightarrow> bool" where
  "keys_separate C ks k \<longleftrightarrow> (\<forall>k' \<in> set ks. \<forall>c aud now. c_jwtParse C k' (c_jwtSign C k c) aud now = None)"

definition bcrypt_ok :: "crypto \<Rightarrow> bool" where
  "bcrypt_ok C \<longleftrightarrow> (\<forall>i p h q. c_bcrypt C i p = Some h \<longrightarrow> c_bcryptCheck C h q = (q = p))"

section \<open>Durations, dates, audiences\<close>

definition minute :: int where "minute = 60 * second_ns"
definition hour :: int where "hour = 60 * minute"

definition sessionTTL :: int where "sessionTTL = 12 * hour"
definition rememberTTL :: int where "rememberTTL = 30 * 24 * hour"
definition flowTTL :: int where "flowTTL = 10 * minute"
definition twoFactorPendingTTL :: int where "twoFactorPendingTTL = 5 * minute"
definition stepUpCookieTTL :: int where "stepUpCookieTTL = 30 * minute"

definition audSession :: string where "audSession = ''authx:session''"
definition audFlow :: string where "audFlow = ''authx:oauth-flow''"
definition audWebauthn :: string where "audWebauthn = ''authx:webauthn-flow''"
definition audPending :: string where "audPending = ''authx:2fa-pending''"
definition audStepUp :: string where "audStepUp = ''authx:stepup''"

text \<open>\<open>jwt.NewNumericDate\<close> cuts an instant to the second.\<close>

definition numeric_date :: "time \<Rightarrow> time" where
  "numeric_date t = t div second_ns * second_ns"

definition zero_claims :: jwt_claims where
  "zero_claims = \<lparr>jw_sub = [], jw_aud = [], jw_iat = None, jw_exp = None, jw_email = [], jw_name = [],
     jw_groups = [], jw_role = [], jw_idt = [], jw_sid = [], jw_imp = [], jw_org = [], jw_orgRole = [],
     jw_st = [], jw_no = [], jw_ve = [], jw_nx = [], jw_rm = False, jw_ffc = [], jw_s = []\<rparr>"

section \<open>Signing and parsing\<close>

definition minSessionSecret :: nat where "minSessionSecret = 32"

definition verifySecrets :: "bytes \<Rightarrow> bytes list \<Rightarrow> bytes list" where
  "verifySecrets current previous =
     (if minSessionSecret \<le> length current then [current] else []) @
     filter (\<lambda>s. minSessionSecret \<le> length s) previous"

definition signJWT :: "crypto \<Rightarrow> bytes \<Rightarrow> jwt_claims \<Rightarrow> string option" where
  "signJWT C secret claims = (if length secret < minSessionSecret then None else Some (c_jwtSign C secret claims))"

definition parseJWT :: "crypto \<Rightarrow> time \<Rightarrow> bytes \<Rightarrow> string \<Rightarrow> string \<Rightarrow> jwt_claims option" where
  "parseJWT C now secret token audience =
     (if length secret < minSessionSecret then None else c_jwtParse C secret token audience now)"

fun parseJWTMulti :: "crypto \<Rightarrow> time \<Rightarrow> bytes list \<Rightarrow> string \<Rightarrow> string \<Rightarrow> jwt_claims option" where
  "parseJWTMulti C now [] token audience = None"
| "parseJWTMulti C now (secret # secrets) token audience =
     (case parseJWT C now secret token audience of
        Some c \<Rightarrow> Some c
      | None \<Rightarrow> parseJWTMulti C now secrets token audience)"

section \<open>The session cookie\<close>

record SessionClaims =
  sc_Email :: string
  sc_Name :: string
  sc_Groups :: "string list"
  sc_Role :: string
  sc_IDToken :: string
  sc_SID :: string
  sc_ImpersonatedBy :: string
  sc_Org :: string
  sc_OrgRole :: string
  sc_Subject :: string
  sc_ExpiresAt :: "time option"

definition session_wire :: "SessionClaims \<Rightarrow> jwt_claims" where
  "session_wire b = zero_claims\<lparr>jw_email := sc_Email b, jw_name := sc_Name b, jw_groups := sc_Groups b,
     jw_role := sc_Role b, jw_idt := sc_IDToken b, jw_sid := sc_SID b, jw_imp := sc_ImpersonatedBy b,
     jw_org := sc_Org b, jw_orgRole := sc_OrgRole b\<rparr>"

definition session_dest :: "jwt_claims \<Rightarrow> SessionClaims" where
  "session_dest c = \<lparr>sc_Email = jw_email c, sc_Name = jw_name c, sc_Groups = jw_groups c, sc_Role = jw_role c,
     sc_IDToken = jw_idt c, sc_SID = jw_sid c, sc_ImpersonatedBy = jw_imp c, sc_Org = jw_org c,
     sc_OrgRole = jw_orgRole c, sc_Subject = jw_sub c, sc_ExpiresAt = jw_exp c\<rparr>"

definition mintSessionWith ::
  "crypto \<Rightarrow> bytes \<Rightarrow> SessionClaims \<Rightarrow> string \<Rightarrow> time \<Rightarrow> int \<Rightarrow> string option" where
  "mintSessionWith C secret base sub now ttl = signJWT C secret ((session_wire base)\<lparr>jw_sub := sub,
     jw_aud := [audSession], jw_iat := Some (numeric_date now), jw_exp := Some (numeric_date (now + ttl))\<rparr>)"

definition parseSessionMulti :: "crypto \<Rightarrow> time \<Rightarrow> bytes list \<Rightarrow> string \<Rightarrow> SessionClaims option" where
  "parseSessionMulti C now secrets token =
     (if token = [] then None
      else case parseJWTMulti C now secrets token audSession of
        None \<Rightarrow> None
      | Some c \<Rightarrow> if jw_sub c = [] then None else Some (session_dest c))"

section \<open>The login-flow, pending-login and step-up cookies\<close>

record flowClaims =
  fc_State :: string
  fc_Nonce :: string
  fc_Verifier :: string
  fc_Next :: string

definition mintFlow :: "crypto \<Rightarrow> bytes \<Rightarrow> flowClaims \<Rightarrow> time \<Rightarrow> string option" where
  "mintFlow C secret fc now = signJWT C secret (zero_claims\<lparr>jw_st := fc_State fc, jw_no := fc_Nonce fc,
     jw_ve := fc_Verifier fc, jw_nx := fc_Next fc, jw_aud := [audFlow],
     jw_iat := Some (numeric_date now), jw_exp := Some (numeric_date (now + flowTTL))\<rparr>)"

definition parseFlowMulti :: "crypto \<Rightarrow> time \<Rightarrow> bytes list \<Rightarrow> string \<Rightarrow> flowClaims option" where
  "parseFlowMulti C now secrets token =
     (if token = [] then None
      else map_option (\<lambda>c. \<lparr>fc_State = jw_st c, fc_Nonce = jw_no c, fc_Verifier = jw_ve c, fc_Next = jw_nx c\<rparr>)
        (parseJWTMulti C now secrets token audFlow))"

record pendingClaims =
  pc_Email :: string
  pc_Name :: string
  pc_Groups :: "string list"
  pc_Role :: string
  pc_Remember :: bool
  pc_FirstFactorCred :: bytes
  pc_Subject :: string

definition mintPending ::
  "crypto \<Rightarrow> bytes \<Rightarrow> time \<Rightarrow> Identity \<Rightarrow> string \<Rightarrow> bool \<Rightarrow> bytes \<Rightarrow> string option" where
  "mintPending C secret now i role remember firstFactorCred = signJWT C secret (zero_claims\<lparr>jw_email := id_Email i,
     jw_name := id_Name i, jw_groups := id_Groups i, jw_role := role, jw_rm := remember, jw_ffc := firstFactorCred,
     jw_sub := id_Subject i, jw_aud := [audPending],
     jw_iat := Some (numeric_date now), jw_exp := Some (numeric_date (now + twoFactorPendingTTL))\<rparr>)"

definition parsePending :: "crypto \<Rightarrow> time \<Rightarrow> bytes list \<Rightarrow> string \<Rightarrow> pendingClaims option" where
  "parsePending C now secrets token =
     (if token = [] then None
      else case parseJWTMulti C now secrets token audPending of
        None \<Rightarrow> None
      | Some c \<Rightarrow> if jw_sub c = [] then None
          else Some \<lparr>pc_Email = jw_email c, pc_Name = jw_name c, pc_Groups = jw_groups c, pc_Role = jw_role c,
            pc_Remember = jw_rm c, pc_FirstFactorCred = jw_ffc c, pc_Subject = jw_sub c\<rparr>)"

definition mintStepUp :: "crypto \<Rightarrow> bytes \<Rightarrow> time \<Rightarrow> string \<Rightarrow> string option" where
  "mintStepUp C secret now sub = signJWT C secret (zero_claims\<lparr>jw_sub := sub, jw_aud := [audStepUp],
     jw_iat := Some (numeric_date now), jw_exp := Some (numeric_date (now + stepUpCookieTTL))\<rparr>)"

section \<open>One-time secrets\<close>

definition randToken :: "crypto \<Rightarrow> nat \<Rightarrow> string" where
  "randToken C i = c_b64url C (c_rand C i 32)"

definition hashToken :: "crypto \<Rightarrow> string \<Rightarrow> bytes" where
  "hashToken C raw = c_sha256 C raw"

definition purposeMagicLogin :: string where "purposeMagicLogin = ''magic_login''"
definition purposeVerifyEmail :: string where "purposeVerifyEmail = ''verify_email''"
definition purposePasswordReset :: string where "purposePasswordReset = ''password_reset''"
definition purposeChangeEmail :: string where "purposeChangeEmail = ''change_email''"
definition purposeEmailOTP :: string where "purposeEmailOTP = ''email_otp''"

definition ttlMagicLogin :: int where "ttlMagicLogin = 15 * minute"
definition ttlVerifyEmail :: int where "ttlVerifyEmail = 24 * hour"
definition ttlPasswordReset :: int where "ttlPasswordReset = hour"
definition ttlChangeEmail :: int where "ttlChangeEmail = hour"
definition ttlEmailOTP :: int where "ttlEmailOTP = 10 * minute"
definition maxOTPAttempts :: nat where "maxOTPAttempts = 5"

definition otpHash :: "crypto \<Rightarrow> string \<Rightarrow> string \<Rightarrow> bytes" where
  "otpHash C email code = c_sha256 C (norm email @ '':'' @ trim_space code)"

text \<open>\<open>fmt.Sprintf("%0*d", w, n)\<close>\<close>

definition zero_pad :: "nat \<Rightarrow> nat \<Rightarrow> string" where
  "zero_pad w n = replicate (w - length (format_uint n)) CHR ''0'' @ format_uint n"

definition recoveryHash :: "crypto \<Rightarrow> string \<Rightarrow> bytes" where
  "recoveryHash C code = c_sha256 C (filter (\<lambda>c. c \<noteq> CHR '' '' \<and> c \<noteq> CHR ''-'') (to_lower (trim_space code)))"

definition recoveryCodeCount :: nat where "recoveryCodeCount = 10"

definition newRecoveryCodes :: "crypto \<Rightarrow> nat \<Rightarrow> nat \<Rightarrow> string list \<times> bytes list" where
  "newRecoveryCodes C i n = (let codes = map (\<lambda>j. hex_encode (c_rand C j 10)) [i..<i + n]
     in (codes, map (recoveryHash C) codes))"

section \<open>Time-based one-time passwords\<close>

definition totpDigits :: nat where "totpDigits = 6"
definition totpPeriod :: "64 word" where "totpPeriod = 30"

definition byte_at :: "bytes \<Rightarrow> nat \<Rightarrow> nat" where
  "byte_at bs i = (if i < length bs then of_char (bs ! i) else 0)"

definition be64 :: "64 word \<Rightarrow> bytes" where
  "be64 w = map (\<lambda>i. char_of (unat (drop_bit (56 - 8 * i) w) mod 256)) [0..<8]"

definition be32 :: "bytes \<Rightarrow> nat \<Rightarrow> 32 word" where
  "be32 bs off = word_of_nat (((byte_at bs off * 256 + byte_at bs (off + 1)) * 256 + byte_at bs (off + 2)) * 256
     + byte_at bs (off + 3))"

definition hotp :: "crypto \<Rightarrow> bytes \<Rightarrow> 64 word \<Rightarrow> string" where
  "hotp C secret counter =
     (let sum = c_hmacSHA1 C secret (be64 counter);
          off = byte_at sum (length sum - 1) mod 16;
          code = take_bit 31 (be32 sum off) mod 1000000
      in zero_pad totpDigits (unat code))"

text \<open>\<open>t.Unix()\<close>: seconds since 1970, which is 62135596800 seconds after the zero time.\<close>

definition unix_seconds :: "time \<Rightarrow> int" where
  "unix_seconds t = t div second_ns - 62135596800"

definition totpStep :: "time \<Rightarrow> 64 word" where
  "totpStep t = word_of_int (unix_seconds t) div totpPeriod"

definition totpValidate :: "crypto \<Rightarrow> string \<Rightarrow> string \<Rightarrow> time \<Rightarrow> (64 word) option" where
  "totpValidate C secretB32 code0 t =
     (let code = trim_space code0 in
      if length code \<noteq> totpDigits then None
      else case c_b32dec C (to_upper (trim_space secretB32)) of
        None \<Rightarrow> None
      | Some secret \<Rightarrow> find (\<lambda>c. hotp C secret c = code) [totpStep t, totpStep t - 1])"

definition newTOTPSecret :: "crypto \<Rightarrow> nat \<Rightarrow> string" where
  "newTOTPSecret C i = c_b32 C (c_rand C i 20)"

end
