(* ===== verification/Engine.thy ===== *)
theory Engine
  imports Tokens RateLimit MemDirectory MemOrgs MemSessions
begin

text \<open>
  The request engine: configuration and wiring of an \<open>Authenticator\<close> (\<open>authenticator.go\<close>,
  \<open>config.go\<close>), what a handler reads of a request and writes to a response
  (\<open>webctx.go\<close>, \<open>middleware.go\<close>, \<open>httpadapter.go\<close>), the session registry
  (\<open>sessions.go\<close>), and the two ways a login completes (\<open>login.go\<close>, \<open>twofactor.go\<close>). The
  stores are the in-memory ones. A handler is a function of the configuration, the request and
  the environment: the clock, the random source, the stores, the limiters, and the cookies, mails
  and background jobs it has issued. One handler runs at one instant.
\<close>

section \<open>Configuration and environment\<close>

datatype lerror = LStore error | LDenied | LSecret

record idtoken =
  it_Subject :: string
  it_Nonce :: string
  it_Audience :: "string list"
  it_Email :: string
  it_EmailVerified :: bool
  it_Name :: string
  it_PreferredUsername :: string
  it_Groups :: "string list"
  it_AZP :: string

record authn =
  a_lib :: crypto
  a_SessionSecret :: bytes
  a_PreviousSessionSecrets :: "bytes list"
  a_AllowedGroups :: "string list"
  a_TrustedOrigins :: "string list"
  a_AppURL :: string
  a_AppHost :: string
  a_RedirectOrigin :: string
  a_OwnerEmail :: string
  a_OIDCAssumeVerified :: bool
  a_ClientID :: string
  a_PublicPath :: "(string \<Rightarrow> bool) option"
  a_enabled :: bool
  a_localEnabled :: bool
  a_social :: bool
  a_creds :: bool
  a_dir :: bool
  a_orgs :: bool
  a_twoFactor :: bool
  a_sessions :: bool
  a_passkeys :: bool
  a_mailer :: bool
  a_endSession :: string
  a_authorizer :: "(time \<Rightarrow> store \<Rightarrow> Identity \<Rightarrow> (lerror + string) \<times> store) option"
  a_breach :: "(string \<Rightarrow> bool option) option"
  a_originOf :: "string \<Rightarrow> string"
  a_authCodeURL :: "string \<Rightarrow> string \<Rightarrow> string \<Rightarrow> string"
  a_exchange :: "string \<Rightarrow> string \<Rightarrow> string option option"
  a_verifyID :: "time \<Rightarrow> string \<Rightarrow> idtoken option"

text \<open>
  The wired fields of \<open>Authenticator\<close>: a store that may be nil is a flag, \<open>a_RedirectOrigin\<close>
  is the origin of \<open>RedirectURL\<close> and \<open>a_AppHost\<close> the host of \<open>AppURL\<close> (empty when it does not parse), \<open>a_breach\<close> the breach
  checker, \<open>None\<close> being its error, \<open>a_originOf\<close> the scheme and host of a URL. The identity provider of an OIDC deployment is three functions:
  the authorization URL for a state, a nonce and a verifier; the exchange of a code and a verifier
  (\<open>None\<close>: it fails; \<open>Some None\<close>: the answer has no ID token); the verification of a raw ID token.
\<close>

definition memAuthorizer :: "time \<Rightarrow> store \<Rightarrow> Identity \<Rightarrow> (lerror + string) \<times> store" where
  "memAuthorizer now s i = (case Authorize now s i of
     (Inl e, s') \<Rightarrow> (Err (LStore e), s') | (Inr role, s') \<Rightarrow> (Ok role, s'))"

definition LocalEnabled :: "authn \<Rightarrow> bool" where
  "LocalEnabled A \<longleftrightarrow> a_localEnabled A \<and> a_creds A"

definition OrgsEnabled :: "authn \<Rightarrow> bool" where
  "OrgsEnabled A \<longleftrightarrow> a_orgs A \<and> a_creds A"

definition enforcing :: "authn \<Rightarrow> bool" where
  "enforcing A \<longleftrightarrow> a_enabled A \<or> LocalEnabled A \<or> a_social A"

definition baseURL :: "authn \<Rightarrow> string" where
  "baseURL A = (if a_AppURL A \<noteq> [] then a_AppURL A else a_RedirectOrigin A)"

definition secrets :: "authn \<Rightarrow> bytes list" where
  "secrets A = verifySecrets (a_SessionSecret A) (a_PreviousSessionSecrets A)"

definition isOwnerEmail :: "authn \<Rightarrow> string \<Rightarrow> bool" where
  "isOwnerEmail A email \<longleftrightarrow> a_OwnerEmail A \<noteq> [] \<and> norm email = a_OwnerEmail A"

text \<open>
  A cookie of a response, cleared when its maximal age is negative, and a mail: of its fixed wording
  the subject, and in \<open>ml_link\<close> the link (or the sign-in code) that varies.
\<close>

record setcookie =
  ck_name :: string
  ck_value :: string
  ck_maxAge :: int

record mail =
  ml_to :: string
  ml_subject :: string
  ml_link :: string

datatype job =
    MagicJob string string bool
  | CodeJob string
  | ResetJob string

record env =
  e_now :: time
  e_rand :: nat
  e_store :: store
  e_ip :: rateLimiter
  e_acct :: rateLimiter
  e_cookies :: "setcookie list"
  e_mail :: "mail list"
  e_jobs :: "job list"

record request =
  rq_method :: string
  rq_path :: string
  rq_uri :: string
  rq_cookies :: "(string \<times> string) list"
  rq_headers :: "(string \<times> string) list"
  rq_query :: "(string \<times> string) list"
  rq_params :: "(string \<times> string) list"
  rq_body :: "(string \<times> string) list option"
  rq_flags :: "(string \<times> bool) list"
  rq_lists :: "(string \<times> string list) list"
  rq_nums :: "(string \<times> int) list"
  rq_ip :: string
  rq_rateIP :: string
  rq_session :: "SessionClaims option"

text \<open>
  \<open>rq_body\<close> holds the string members of the JSON body (\<open>None\<close> when it does not decode),
  \<open>rq_flags\<close>, \<open>rq_lists\<close> and \<open>rq_nums\<close> its Boolean, array and numeric ones; \<open>rq_session\<close> is
  the session the gate attached to the request's context. Absent entries read as the zero value.
\<close>

definition attr :: "(string \<times> string) list \<Rightarrow> string \<Rightarrow> string" where
  "attr m k = (case map_of m k of None \<Rightarrow> [] | Some v \<Rightarrow> v)"

definition field :: "request \<Rightarrow> string \<Rightarrow> string" where
  "field r k = (case rq_body r of None \<Rightarrow> [] | Some b \<Rightarrow> attr b k)"

definition flag :: "request \<Rightarrow> string \<Rightarrow> bool" where
  "flag r k \<longleftrightarrow> rq_body r \<noteq> None \<and> map_of (rq_flags r) k = Some True"

definition cookieValue :: "request \<Rightarrow> string \<Rightarrow> string" where
  "cookieValue r name = attr (rq_cookies r) name"

definition header :: "request \<Rightarrow> string \<Rightarrow> string" where
  "header r k = attr (rq_headers r) k"

datatype jval = JBool bool | JStr string | JNum int | JNull | JList "jval list" | JObj "(string \<times> jval) list"

datatype reply =
    JSON nat "(string \<times> jval) list"
  | Redirect string

definition jerr :: "nat \<Rightarrow> string \<Rightarrow> reply" where
  "jerr code msg = JSON code [(''error'', JStr msg)]"

abbreviation jok :: "(string \<times> jval) list \<Rightarrow> reply" where
  "jok fs \<equiv> JSON 200 ((''ok'', JBool True) # fs)"

definition tooManyWait :: reply where
  "tooManyWait = jerr 429 (''too many attempts '' @ em_dash @ '' wait and try again'')"

section \<open>Effects\<close>

definition sessionCookie :: string where "sessionCookie = ''sweep_session''"
definition flowCookie :: string where "flowCookie = ''sweep_oidc_flow''"
definition csrfCookie :: string where "csrfCookie = ''sweep_csrf''"
definition stepUpCookie :: string where "stepUpCookie = ''sweep_stepup''"
definition twoFactorPendingCookie :: string where "twoFactorPendingCookie = ''sweep_2fa_pending''"

definition setCookie :: "string \<Rightarrow> string \<Rightarrow> int \<Rightarrow> env \<Rightarrow> env" where
  "setCookie name value maxAge e = e\<lparr>e_cookies := e_cookies e @
     [\<lparr>ck_name = name, ck_value = value, ck_maxAge = maxAge\<rparr>]\<rparr>"

definition clearCookie :: "string \<Rightarrow> env \<Rightarrow> env" where
  "clearCookie name e = setCookie name [] (-1) e"

definition freshToken :: "authn \<Rightarrow> env \<Rightarrow> string \<times> env" where
  "freshToken A e = (randToken (a_lib A) (e_rand e), e\<lparr>e_rand := Suc (e_rand e)\<rparr>)"

definition issueCSRF :: "authn \<Rightarrow> env \<Rightarrow> env" where
  "issueCSRF A e = (case freshToken A e of
     (t, e) \<Rightarrow> setCookie csrfCookie t (rememberTTL div second_ns) e)"

definition allowIP :: "string \<Rightarrow> env \<Rightarrow> bool \<times> env" where
  "allowIP key e = (case Allow (e_now e) (e_ip e) key of (ok, l) \<Rightarrow> (ok, e\<lparr>e_ip := l\<rparr>))"

definition allowAcct :: "string \<Rightarrow> env \<Rightarrow> bool \<times> env" where
  "allowAcct key e = (case Allow (e_now e) (e_acct e) key of (ok, l) \<Rightarrow> (ok, e\<lparr>e_acct := l\<rparr>))"

text \<open>An operation of the stores run inside a handler.\<close>

definition op :: "(store \<Rightarrow> 'a \<times> store) \<Rightarrow> env \<Rightarrow> 'a \<times> env" where
  "op f e = (case f (e_store e) of (x, s) \<Rightarrow> (x, e\<lparr>e_store := s\<rparr>))"

definition doAudit :: "string \<Rightarrow> string \<Rightarrow> bool \<Rightarrow> env \<Rightarrow> env" where
  "doAudit userID email ok e = e\<lparr>e_store := RecordAudit (e_now e) (e_store e) userID email ok\<rparr>"

definition sendAuthEmail :: "authn \<Rightarrow> string \<Rightarrow> string \<Rightarrow> string \<Rightarrow> env \<Rightarrow> env" where
  "sendAuthEmail A to subject link e =
     (if a_mailer A then e\<lparr>e_mail := e_mail e @ [\<lparr>ml_to = to, ml_subject = subject, ml_link = link\<rparr>]\<rparr> else e)"

section \<open>Sessions\<close>

definition newSessionID :: "authn \<Rightarrow> env \<Rightarrow> string \<times> env" where
  "newSessionID A e = (if \<not> a_sessions A then ([], e) else freshToken A e)"

definition truncate :: "string \<Rightarrow> nat \<Rightarrow> string" where
  "truncate s n = (if n < length s then take n s else s)"

definition recordSession ::
  "authn \<Rightarrow> request \<Rightarrow> string \<Rightarrow> string \<Rightarrow> string \<Rightarrow> int \<Rightarrow> env \<Rightarrow> unit result \<times> env" where
  "recordSession A r sid subject userID ttl e =
     (if \<not> a_sessions A \<or> sid = [] then (Ok (), e)
      else op (\<lambda>s. RecordSession (e_now e) s \<lparr>sr_SID = sid, sr_Subject = subject, sr_UserID = userID,
        sr_UserAgent = truncate (header r ''User-Agent'') 400, sr_IP = rq_ip r,
        sr_CreatedAt = e_now e, sr_ExpiresAt = e_now e + ttl, sr_Current = False\<rparr>) e)"

definition sessionRevoked :: "authn \<Rightarrow> SessionClaims \<Rightarrow> env \<Rightarrow> bool" where
  "sessionRevoked A sc e =
     (if \<not> a_sessions A \<or> sc_SID sc = [] then False
      else case IsRevoked (e_store e) (sc_SID sc) of Inl _ \<Rightarrow> False | Inr revoked \<Rightarrow> revoked)"

definition sessionOf :: "authn \<Rightarrow> request \<Rightarrow> env \<Rightarrow> SessionClaims option" where
  "sessionOf A r e = (case parseSessionMulti (a_lib A) (e_now e) (secrets A) (cookieValue r sessionCookie) of
     None \<Rightarrow> None
   | Some sc \<Rightarrow> if sessionRevoked A sc e then None else Some sc)"

definition currentAuthUser :: "authn \<Rightarrow> request \<Rightarrow> env \<Rightarrow> AuthUser option" where
  "currentAuthUser A r e = (case parseSessionMulti (a_lib A) (e_now e) (secrets A) (cookieValue r sessionCookie) of
     None \<Rightarrow> None
   | Some sc \<Rightarrow>
       if sessionRevoked A sc e then None
       else case UserBySub (e_store e) (sc_Subject sc) of Inl _ \<Rightarrow> None | Inr u \<Rightarrow> Some u)"

definition groupAllowed :: "authn \<Rightarrow> string list \<Rightarrow> bool" where
  "groupAllowed A groups = (if a_AllowedGroups A = [] then True
     else list_ex (\<lambda>g. List.member groups g) (a_AllowedGroups A))"

section \<open>Second factor\<close>

definition userHasTOTP :: "authn \<Rightarrow> string \<Rightarrow> env \<Rightarrow> bool" where
  "userHasTOTP A userID e = (if \<not> a_twoFactor A then False
     else case TOTP (e_store e) userID of Inl _ \<Rightarrow> False | Inr info \<Rightarrow> ti_Enabled info)"

definition verifySecondFactor :: "authn \<Rightarrow> string \<Rightarrow> TOTPInfo \<Rightarrow> string \<Rightarrow> env \<Rightarrow> bool \<times> env" where
  "verifySecondFactor A userID info code e =
     (case totpValidate (a_lib A) (ti_Secret info) code (e_now e) of
        Some step \<Rightarrow> (case op (\<lambda>s. ClaimTOTPStep s userID step) e of
            (Inr claimed, e) \<Rightarrow> (claimed, e) | (Inl _, e) \<Rightarrow> (False, e))
      | None \<Rightarrow> (case op (\<lambda>s. ConsumeRecoveryCode s userID (recoveryHash (a_lib A) code)) e of
            (Inr used, e) \<Rightarrow> (used, e) | (Inl _, e) \<Rightarrow> (False, e)))"

section \<open>Completing a login\<close>

definition defaultOrgClaims :: "authn \<Rightarrow> string \<Rightarrow> env \<Rightarrow> string \<times> string" where
  "defaultOrgClaims A userID e =
     (if \<not> a_orgs A then ([], [])
      else case UserOrgs (e_store e) userID of
        Inr [m] \<Rightarrow> (o_ID (uo_Org m), uo_Role m)
      | _ \<Rightarrow> ([], []))"

definition defaultOrgClaimsForSub :: "authn \<Rightarrow> string \<Rightarrow> env \<Rightarrow> string \<times> string" where
  "defaultOrgClaimsForSub A sub e =
     (if \<not> OrgsEnabled A then ([], [])
      else case UserBySub (e_store e) sub of
        Inl _ \<Rightarrow> ([], []) | Inr u \<Rightarrow> defaultOrgClaims A (au_ID u) e)"

text \<open>The tail shared by \<open>completeLogin\<close> and \<open>completePendingLogin\<close>: mint, record, set the cookies.\<close>

definition openSession ::
  "authn \<Rightarrow> request \<Rightarrow> SessionClaims \<Rightarrow> string \<Rightarrow> string \<Rightarrow> int \<Rightarrow> env \<Rightarrow> (lerror + unit) \<times> env" where
  "openSession A r base subject uid ttl e =
     (case newSessionID A e of (sid, e) \<Rightarrow>
      case mintSessionWith (a_lib A) (a_SessionSecret A) (base\<lparr>sc_SID := sid\<rparr>) subject (e_now e) ttl of
        None \<Rightarrow> (Err LSecret, e)
      | Some session \<Rightarrow> (case recordSession A r sid subject uid ttl e of
          (Inl err, e) \<Rightarrow> (Err (LStore err), e)
        | (Inr _, e) \<Rightarrow>
            (Ok (), issueCSRF A (setCookie sessionCookie session (ttl div second_ns) e))))"

definition base_claims ::
  "string \<Rightarrow> string \<Rightarrow> string list \<Rightarrow> string \<Rightarrow> string \<Rightarrow> string \<times> string \<Rightarrow> SessionClaims" where
  "base_claims email name groups role idt org = \<lparr>sc_Email = email, sc_Name = name, sc_Groups = groups,
     sc_Role = role, sc_IDToken = idt, sc_SID = [], sc_ImpersonatedBy = [], sc_Org = fst org,
     sc_OrgRole = snd org, sc_Subject = [], sc_ExpiresAt = None\<rparr>"

definition authorizeLogin :: "authn \<Rightarrow> Identity \<Rightarrow> env \<Rightarrow> (lerror + string) \<times> env" where
  "authorizeLogin A i e = (case a_authorizer A of
     None \<Rightarrow> (Ok [], e) | Some z \<Rightarrow> op (\<lambda>s. z (e_now e) s i) e)"

definition storedUser :: "authn \<Rightarrow> string \<Rightarrow> env \<Rightarrow> AuthUser option" where
  "storedUser A sub e = (if \<not> a_creds A then None
     else case UserBySub (e_store e) sub of Inl _ \<Rightarrow> None | Inr u \<Rightarrow> Some u)"

definition loginGroups :: "authn \<Rightarrow> AuthUser option \<Rightarrow> Identity \<Rightarrow> env \<Rightarrow> Identity" where
  "loginGroups A ou i e = (case ou of
     None \<Rightarrow> i
   | Some u \<Rightarrow>
       if a_dir A \<and> id_Groups i = [] then
         (case UserGroups (e_store e) (au_ID u) of
            Inl _ \<Rightarrow> i | Inr gs \<Rightarrow> i\<lparr>id_Groups := groupNames (globalGroups gs)\<rparr>)
       else i)"

definition loginTTL :: "bool \<Rightarrow> int" where
  "loginTTL remember = (if remember then rememberTTL else sessionTTL)"

definition completeLogin ::
  "authn \<Rightarrow> request \<Rightarrow> Identity \<Rightarrow> bool \<Rightarrow> bytes \<Rightarrow> env \<Rightarrow> (lerror + bool) \<times> env" where
  "completeLogin A r i0 remember firstFactorCred e =
     (case authorizeLogin A i0 e of
        (Inl err, e) \<Rightarrow> (Err err, e)
      | (Inr role, e) \<Rightarrow>
          let ou = storedUser A (id_Subject i0) e;
              i = loginGroups A ou i0 e
          in if (case ou of None \<Rightarrow> False | Some u \<Rightarrow> userHasTOTP A (au_ID u) e) then
               (case mintPending (a_lib A) (a_SessionSecret A) (e_now e) i role remember firstFactorCred of
                  None \<Rightarrow> (Err LSecret, e)
                | Some pending \<Rightarrow> (Ok True, clearCookie flowCookie
                    (setCookie twoFactorPendingCookie pending (twoFactorPendingTTL div second_ns) e)))
             else
               let org = (case ou of None \<Rightarrow> ([], []) | Some u \<Rightarrow> defaultOrgClaims A (au_ID u) e);
                   uid = (case ou of None \<Rightarrow> [] | Some u \<Rightarrow> au_ID u)
               in case openSession A r (base_claims (id_Email i) (id_Name i) (id_Groups i) role [] org)
                         (id_Subject i) uid (loginTTL remember) e of
                    (Inl err, e) \<Rightarrow> (Err err, e)
                  | (Inr _, e) \<Rightarrow> (Ok False, clearCookie flowCookie e))"

definition completePendingLogin :: "authn \<Rightarrow> request \<Rightarrow> pendingClaims \<Rightarrow> env \<Rightarrow> (lerror + unit) \<times> env" where
  "completePendingLogin A r pc e0 =
     (let e = clearCookie twoFactorPendingCookie e0;
          uid = (case storedUser A (pc_Subject pc) e of None \<Rightarrow> [] | Some u \<Rightarrow> au_ID u);
          org = (if uid \<noteq> [] then defaultOrgClaims A uid e else ([], []))
      in openSession A r (base_claims (pc_Email pc) (pc_Name pc) (pc_Groups pc) (pc_Role pc) [] org)
           (pc_Subject pc) uid (loginTTL (pc_Remember pc)) e)"

section \<open>Step-up\<close>

definition setStepUpCookie :: "authn \<Rightarrow> string \<Rightarrow> env \<Rightarrow> env" where
  "setStepUpCookie A sub e = (case mintStepUp (a_lib A) (a_SessionSecret A) (e_now e) sub of
     None \<Rightarrow> e
   | Some tok \<Rightarrow> setCookie stepUpCookie tok (stepUpCookieTTL div second_ns) e)"

definition StepUpFresh :: "authn \<Rightarrow> request \<Rightarrow> int \<Rightarrow> env \<Rightarrow> bool" where
  "StepUpFresh A r maxAge e =
     (case parseSessionMulti (a_lib A) (e_now e) (secrets A) (cookieValue r sessionCookie) of
        None \<Rightarrow> False
      | Some sc \<Rightarrow>
          if sessionRevoked A sc e then False
          else case parseJWTMulti (a_lib A) (e_now e) (secrets A) (cookieValue r stepUpCookie) audStepUp of
            None \<Rightarrow> False
          | Some c \<Rightarrow> (case jw_iat c of
              None \<Rightarrow> False
            | Some iat \<Rightarrow> if jw_sub c \<noteq> sc_Subject sc then False else e_now e - iat \<le> maxAge))"

end
