(* ===== verification/SessionFlows.thy ===== *)
theory SessionFlows
  imports Engine
begin

text \<open>
  The handlers on an established or pending session: the device list of \<open>sessions.go\<close>, the
  second factor of \<open>twofactor_handlers.go\<close>, re-authentication of \<open>stepup.go\<close>, and logout and
  \<open>/auth/me\<close> of \<open>handlers.go\<close>. Each early return of the code is a branch.
\<close>

section \<open>Signed-in devices\<close>

definition unauthenticated :: reply where "unauthenticated = jerr 401 ''unauthenticated''"

definition session_json :: "SessionRecord \<Rightarrow> jval" where
  "session_json s = JObj [(''id'', JStr (sr_SID s)), (''userAgent'', JStr (sr_UserAgent s)), (''ip'', JStr (sr_IP s)),
     (''createdAt'', JNum (sr_CreatedAt s)), (''expiresAt'', JNum (sr_ExpiresAt s)), (''current'', JBool (sr_Current s))]"

definition SessionList :: "authn \<Rightarrow> request \<Rightarrow> env \<Rightarrow> reply \<times> env" where
  "SessionList A r e = (case sessionOf A r e of
     None \<Rightarrow> (unauthenticated, e)
   | Some sc \<Rightarrow>
       if \<not> a_sessions A then (jerr 501 ''session management not available'', e)
       else case ListSessionsForUser (e_now e) (e_store e) (sc_Subject sc) of
         Inl _ \<Rightarrow> (jerr 500 ''could not list sessions'', e)
       | Inr recs \<Rightarrow> (JSON 200 [(''sessions'',
           JList (map (\<lambda>s. session_json (s\<lparr>sr_Current := (sr_SID s = sc_SID sc)\<rparr>)) recs))], e))"

definition SessionRevoke :: "authn \<Rightarrow> request \<Rightarrow> env \<Rightarrow> reply \<times> env" where
  "SessionRevoke A r e = (case sessionOf A r e of
     None \<Rightarrow> (unauthenticated, e)
   | Some sc \<Rightarrow>
       if \<not> a_sessions A then (jerr 501 ''session management not available'', e)
       else let target = attr (rq_params r) ''sid'' in
         case ListSessionsForUser (e_now e) (e_store e) (sc_Subject sc) of
           Inl _ \<Rightarrow> (jerr 500 ''could not revoke session'', e)
         | Inr recs \<Rightarrow>
             if \<not> list_ex (\<lambda>s. sr_SID s = target) recs then (jerr 404 ''no such session'', e)
             else case op (\<lambda>s. RevokeSession s target) e of
               (Inl _, e) \<Rightarrow> (jerr 500 ''could not revoke session'', e)
             | (Inr _, e) \<Rightarrow> (jok [],
                 if target = sc_SID sc then clearCookie csrfCookie (clearCookie sessionCookie e) else e))"

fun revoke_others :: "string \<Rightarrow> SessionRecord list \<Rightarrow> env \<Rightarrow> nat \<times> env" where
  "revoke_others cur [] e = (0, e)"
| "revoke_others cur (s # ss) e =
     (if sr_SID s = cur then revoke_others cur ss e
      else case op (\<lambda>st. RevokeSession st (sr_SID s)) e of
        (Inr _, e) \<Rightarrow> (case revoke_others cur ss e of (n, e) \<Rightarrow> (Suc n, e))
      | (Inl _, e) \<Rightarrow> revoke_others cur ss e)"

definition SessionRevokeOthers :: "authn \<Rightarrow> request \<Rightarrow> env \<Rightarrow> reply \<times> env" where
  "SessionRevokeOthers A r e = (case sessionOf A r e of
     None \<Rightarrow> (unauthenticated, e)
   | Some sc \<Rightarrow>
       if \<not> a_sessions A then (jerr 501 ''session management not available'', e)
       else case ListSessionsForUser (e_now e) (e_store e) (sc_Subject sc) of
         Inl _ \<Rightarrow> (jerr 500 ''could not revoke sessions'', e)
       | Inr recs \<Rightarrow> (case revoke_others (sc_SID sc) recs e of
           (n, e) \<Rightarrow> (jok [(''revoked'', JNum (int n))], e)))"

section \<open>Logout and the current user\<close>

definition postLogoutURL :: "authn \<Rightarrow> string" where
  "postLogoutURL A = (if a_RedirectOrigin A \<noteq> [] then a_RedirectOrigin A @ ''/welcome'' else ''/welcome'')"

definition Logout :: "authn \<Rightarrow> request \<Rightarrow> env \<Rightarrow> reply \<times> env" where
  "Logout A r e0 =
     (let sc = (if cookieValue r sessionCookie = [] then None
                else parseSessionMulti (a_lib A) (e_now e0) (secrets A) (cookieValue r sessionCookie));
          idHint = (case sc of None \<Rightarrow> [] | Some c \<Rightarrow> sc_IDToken c);
          sid = (case sc of None \<Rightarrow> [] | Some c \<Rightarrow> sc_SID c);
          e1 = (if sid \<noteq> [] \<and> a_sessions A then snd (op (\<lambda>s. RevokeSession s sid) e0) else e0);
          e = clearCookie csrfCookie (clearCookie sessionCookie e1)
      in if idHint \<noteq> [] \<and> a_enabled A \<and> a_endSession A \<noteq> []
         then (Redirect (a_endSession A @ ''?client_id='' @ query_escape (a_ClientID A) @
                 ''&id_token_hint='' @ query_escape idHint @
                 ''&post_logout_redirect_uri='' @ query_escape (postLogoutURL A)), e)
         else if LocalEnabled A then (Redirect ''/login'', e)
         else (Redirect ''/welcome'', e))"

definition org_json :: "UserOrg \<Rightarrow> jval" where
  "org_json m = JObj [(''id'', JStr (o_ID (uo_Org m))), (''slug'', JStr (o_Slug (uo_Org m))),
     (''name'', JStr (o_Name (uo_Org m))), (''role'', JStr (uo_Role m))]"

text \<open>The active organization of \<open>meOrgs\<close> is the one of the cookie, if the user is still in it.\<close>

definition meOrgs :: "SessionClaims \<Rightarrow> env \<Rightarrow> (jval \<times> string \<times> jval list) result" where
  "meOrgs sc e = (case UserBySub (e_store e) (sc_Subject sc) of
     Inl err \<Rightarrow> if err = ErrNoUser then Ok (JNull, [], []) else Err err
   | Inr u \<Rightarrow> (case UserOrgs (e_store e) (au_ID u) of
       Inl err \<Rightarrow> Err err
     | Inr ms \<Rightarrow> (case filter (\<lambda>m. sc_Org sc \<noteq> [] \<and> o_ID (uo_Org m) = sc_Org sc) ms of
         [] \<Rightarrow> Ok (JNull, [], map org_json ms)
       | act \<Rightarrow> Ok (org_json (last act), uo_Role (last act), map org_json ms))))"

definition Me :: "authn \<Rightarrow> request \<Rightarrow> env \<Rightarrow> reply \<times> env" where
  "Me A r e =
     (if \<not> enforcing A then (JSON 200 [(''authEnabled'', JBool False), (''authenticated'', JBool False)], e)
      else case sessionOf A r e of
        None \<Rightarrow> (JSON 200 [(''authEnabled'', JBool True), (''authenticated'', JBool False)], e)
      | Some sc \<Rightarrow>
          let resp = [(''authEnabled'', JBool True), (''authenticated'', JBool True), (''sub'', JStr (sc_Subject sc)),
                (''email'', JStr (sc_Email sc)), (''name'', JStr (sc_Name sc)), (''groups'', JList (map JStr (sc_Groups sc))),
                (''role'', JStr (sc_Role sc)), (''impersonatedBy'', JStr (sc_ImpersonatedBy sc))]
          in if OrgsEnabled A then (case meOrgs sc e of
               Inr (org, role, orgs) \<Rightarrow>
                 (JSON 200 (resp @ [(''org'', org), (''orgRole'', JStr role), (''orgs'', JList orgs)]), e)
             | Inl _ \<Rightarrow> (JSON 200 resp, e))
             else (JSON 200 resp, e))"

section \<open>Enrolling a second factor\<close>

definition two2FAUser :: "authn \<Rightarrow> request \<Rightarrow> env \<Rightarrow> AuthUser option" where
  "two2FAUser A r e = (if \<not> a_twoFactor A then None else currentAuthUser A r e)"

definition enabledTOTP :: "env \<Rightarrow> string \<Rightarrow> TOTPInfo option" where
  "enabledTOTP e userID = (case TOTP (e_store e) userID of
     Inl _ \<Rightarrow> None | Inr info \<Rightarrow> if ti_Enabled info then Some info else None)"

definition issuerName :: "authn \<Rightarrow> string" where
  "issuerName A = (if a_AppURL A \<noteq> [] \<and> a_AppHost A \<noteq> [] then a_AppHost A else ''go-auth-x'')"

text \<open>The parameters of the URI are printed in the order of their names.\<close>

definition totpURI :: "string \<Rightarrow> string \<Rightarrow> string \<Rightarrow> string" where
  "totpURI secretB32 issuer account = ''otpauth://totp/'' @ path_escape (issuer @ '':'' @ account) @
     ''?algorithm=SHA1&digits='' @ format_uint totpDigits @ ''&issuer='' @ query_escape issuer @
     ''&period='' @ format_uint (unat totpPeriod) @ ''&secret='' @ query_escape secretB32"

definition TOTPBegin :: "authn \<Rightarrow> request \<Rightarrow> env \<Rightarrow> reply \<times> env" where
  "TOTPBegin A r e = (case two2FAUser A r e of
     None \<Rightarrow> (unauthenticated, e)
   | Some au \<Rightarrow>
       if enabledTOTP e (au_ID au) \<noteq> None then (jerr 409 ''two-factor auth is already enabled'', e)
       else let secret = newTOTPSecret (a_lib A) (e_rand e);
                e = e\<lparr>e_rand := Suc (e_rand e)\<rparr>
            in case op (\<lambda>s. SetTOTPSecret s (au_ID au) secret) e of
                 (Inl _, e) \<Rightarrow> (jerr 500 ''could not start enrollment'', e)
               | (Inr _, e) \<Rightarrow> (JSON 200 [(''secret'', JStr secret),
                   (''uri'', JStr (totpURI secret (issuerName A) (au_Email au)))], e))"

definition TOTPConfirm :: "authn \<Rightarrow> request \<Rightarrow> env \<Rightarrow> reply \<times> env" where
  "TOTPConfirm A r e = (case two2FAUser A r e of
     None \<Rightarrow> (unauthenticated, e)
   | Some au \<Rightarrow>
       if rq_body r = None then (jerr 400 ''invalid request'', e)
       else case TOTP (e_store e) (au_ID au) of
         Inl _ \<Rightarrow> (jerr 400 ''start enrollment first'', e)
       | Inr info \<Rightarrow>
           if ti_Secret info = [] then (jerr 400 ''start enrollment first'', e)
           else case totpValidate (a_lib A) (ti_Secret info) (field r ''Code'') (e_now e) of
             None \<Rightarrow> (jerr 400 ''that code is not valid'', e)
           | Some step \<Rightarrow> (case newRecoveryCodes (a_lib A) (e_rand e) recoveryCodeCount of (codes, hashes) \<Rightarrow>
               let e = e\<lparr>e_rand := e_rand e + recoveryCodeCount\<rparr> in
               case op (\<lambda>s. EnableTOTP s (au_ID au)) e of
                 (Inl _, e) \<Rightarrow> (jerr 500 ''could not enable 2fa'', e)
               | (Inr _, e) \<Rightarrow> (case op (\<lambda>s. ReplaceRecoveryCodes s (au_ID au) hashes) e of
                   (Inl _, e) \<Rightarrow> (jerr 500 ''could not enable 2fa'', e)
                 | (Inr _, e) \<Rightarrow>
                     let e = snd (op (\<lambda>s. SetTOTPLastStep s (au_ID au) step) e);
                         e = doAudit (au_ID au) (au_Email au) True e
                     in (jok [(''recoveryCodes'', JList (map JStr codes))], e))))"

definition TOTPDisable :: "authn \<Rightarrow> request \<Rightarrow> env \<Rightarrow> reply \<times> env" where
  "TOTPDisable A r e = (case two2FAUser A r e of
     None \<Rightarrow> (unauthenticated, e)
   | Some au \<Rightarrow> (case allowIP (''2fa:'' @ rq_rateIP r) e of
       (False, e) \<Rightarrow> (tooManyWait, e)
     | (True, e) \<Rightarrow> (case enabledTOTP e (au_ID au) of
         None \<Rightarrow> (jerr 400 ''two-factor auth is not enabled'', e)
       | Some info \<Rightarrow> (case verifySecondFactor A (au_ID au) info (field r ''Code'') e of
           (False, e) \<Rightarrow> (jerr 403 ''a valid code is required to disable 2fa'', e)
         | (True, e) \<Rightarrow> (case op (\<lambda>s. DisableTOTP s (au_ID au)) e of
             (Inl _, e) \<Rightarrow> (jerr 500 ''could not disable 2fa'', e)
           | (Inr _, e) \<Rightarrow> (jok [], doAudit (au_ID au) (au_Email au) True e))))))"

section \<open>Finishing a challenged login\<close>

definition TwoFactorVerify :: "authn \<Rightarrow> request \<Rightarrow> env \<Rightarrow> reply \<times> env" where
  "TwoFactorVerify A r e =
     (if \<not> a_twoFactor A then (jerr 404 ''2fa not enabled'', e)
      else case allowIP (''2fa:'' @ rq_rateIP r) e of
        (False, e) \<Rightarrow> (tooManyWait, e)
      | (True, e) \<Rightarrow>
        (case parsePending (a_lib A) (e_now e) (secrets A) (cookieValue r twoFactorPendingCookie) of
          None \<Rightarrow> (jerr 401 (''your login session expired '' @ em_dash @ '' sign in again''), e)
        | Some pc \<Rightarrow> (case allowAcct (''2fa:'' @ pc_Subject pc) e of
            (False, e) \<Rightarrow> (tooManyWait, e)
          | (True, e) \<Rightarrow> (case UserBySub (e_store e) (pc_Subject pc) of
              Inl _ \<Rightarrow> (jerr 401 ''sign in again'', e)
            | Inr u \<Rightarrow>
                if fst (loginBlocked (e_now e) (Some u)) then (jerr 403 (snd (loginBlocked (e_now e) (Some u))), e)
                else if rq_body r = None then (jerr 400 ''invalid request'', e)
                else case enabledTOTP e (au_ID u) of
                  None \<Rightarrow> (jerr 400 ''two-factor auth is not enabled'', e)
                | Some info \<Rightarrow> (case verifySecondFactor A (au_ID u) info (field r ''Code'') e of
                    (False, e) \<Rightarrow> (jerr 401 ''that code is not valid'', doAudit (au_ID u) (au_Email u) False e)
                  | (True, e) \<Rightarrow> (case completePendingLogin A r pc e of
                      (Inl _, e) \<Rightarrow> (jerr 500 ''sign-in failed'', e)
                    | (Inr _, e) \<Rightarrow> (jok [], doAudit (au_ID u) (au_Email u) True e)))))))"

definition TwoFactorPending :: "authn \<Rightarrow> request \<Rightarrow> env \<Rightarrow> reply \<times> env" where
  "TwoFactorPending A r e = (JSON 200 [(''pending'',
     JBool (parsePending (a_lib A) (e_now e) (secrets A) (cookieValue r twoFactorPendingCookie) \<noteq> None))], e)"

section \<open>Re-authentication\<close>

definition checkPassword :: "authn \<Rightarrow> string \<Rightarrow> string \<Rightarrow> env \<Rightarrow> bool" where
  "checkPassword A userID pw e = (case PasswordHash (e_store e) userID of
     Inl _ \<Rightarrow> False | Inr (hash, _) \<Rightarrow> c_bcryptCheck (a_lib A) hash pw)"

definition ReAuth :: "authn \<Rightarrow> request \<Rightarrow> env \<Rightarrow> reply \<times> env" where
  "ReAuth A r e = (case currentAuthUser A r e of
     None \<Rightarrow> (unauthenticated, e)
   | Some au \<Rightarrow> (case allowIP (''reauth:'' @ rq_rateIP r) e of
       (False, e) \<Rightarrow> (tooManyWait, e)
     | (True, e) \<Rightarrow> (case allowAcct (''reauth:'' @ au_Sub au) e of
         (False, e) \<Rightarrow> (tooManyWait, e)
       | (True, e) \<Rightarrow>
           let ok = field r ''Password'' \<noteq> [] \<and> checkPassword A (au_ID au) (field r ''Password'') e in
           case (if \<not> ok \<and> field r ''Code'' \<noteq> [] \<and> a_twoFactor A then
                   (case enabledTOTP e (au_ID au) of
                      None \<Rightarrow> (False, e)
                    | Some info \<Rightarrow> verifySecondFactor A (au_ID au) info (field r ''Code'') e)
                 else (ok, e)) of
             (False, e) \<Rightarrow> (jerr 403 ''re-authentication failed'', doAudit (au_ID au) (au_Email au) False e)
           | (True, e) \<Rightarrow> (jok [], doAudit (au_ID au) (au_Email au) True (setStepUpCookie A (au_Sub au) e)))))"

end
