(* ===== verification/LoginFlows.thy ===== *)
theory LoginFlows
  imports SessionFlows
begin

text \<open>
  The in-app sign-in flows: passwords (\<open>password.go\<close>, with the policy of \<open>breach.go\<close>), e-mailed
  links (\<open>magic.go\<close>) and codes (\<open>emailotp.go\<close>). Work the code starts on a goroutine is a job in
  the environment's queue, run by \<open>runJob\<close> at its own instant.
\<close>

definition tooManyShortly :: reply where
  "tooManyShortly = jerr 429 (''too many attempts '' @ em_dash @ '' try again shortly'')"

definition tooManyLink :: reply where
  "tooManyLink = jerr 429 (''too many attempts '' @ em_dash @ '' use '' @ [CHR 0xE2, CHR 0x80, CHR 0x9C] @
     ''email me a sign-in link'' @ [CHR 0xE2, CHR 0x80, CHR 0x9D] @ '' instead'')"

section \<open>Checks on the input\<close>

definition count_char :: "char \<Rightarrow> string \<Rightarrow> nat" where
  "count_char c s = length (filter ((=) c) s)"

definition at_sign :: char where "at_sign = CHR 0x40"

definition validEmail :: "string \<Rightarrow> bool" where
  "validEmail e =
     (if length e = 0 \<or> 254 < length e \<or> list_ex (\<lambda>c. c \<in> {CHR '' '', CHR 0x09, CHR 0x0D, CHR 0x0A}) e then False
      else case index_byte e at_sign of
        None \<Rightarrow> False
      | Some at \<Rightarrow> 0 < at \<and> at < length e - 1 \<and> count_char at_sign e = 1 \<and> CHR ''.'' \<in> set (drop at e))"

definition sanitizeNext :: "string \<Rightarrow> string" where
  "sanitizeNext nxt =
     (if nxt = [] \<or> \<not> has_prefix nxt ''/'' then ''/''
      else if list_ex (\<lambda>c. (of_char c :: nat) < 32 \<or> (of_char c :: nat) = 127) nxt then ''/''
      else if 1 < length nxt \<and> (nxt ! 1 = CHR ''/'' \<or> nxt ! 1 = CHR 0x5C) then ''/''
      else nxt)"

definition commonPasswords :: "string list" where
  "commonPasswords = [''1234567890'', ''12345678901'', ''123456789012'', ''qwertyuiop'', ''password123'',
     ''password1234'', ''qwerty12345'', ''1q2w3e4r5t'', ''1qaz2wsx3edc'', ''iloveyou123'', ''welcome123'',
     ''administrator'', ''passw0rd123'', ''letmein123'', ''trustno1234'']"

definition emailLocalPart :: "string \<Rightarrow> string" where
  "emailLocalPart email = (case index_byte email at_sign of
     None \<Rightarrow> email | Some i \<Rightarrow> if 0 < i then take i email else email)"

text \<open>The empty string is the absence of an error.\<close>

definition passwordStrengthError :: "string \<Rightarrow> string \<Rightarrow> string" where
  "passwordStrengthError pw email =
     (if length pw < 10 then ''password must be at least 10 characters''
      else if 72 < length pw then ''password must be at most 72 characters''
      else let lower = to_lower pw; local = emailLocalPart email in
        if List.member commonPasswords lower then ''that password is too common '' @ em_dash @ '' choose another''
        else if 4 \<le> length local \<and> contains_str lower (to_lower local)
        then ''password must not contain your email address''
        else [])"

definition passwordPolicyError :: "authn \<Rightarrow> string \<Rightarrow> string \<Rightarrow> string" where
  "passwordPolicyError A pw email =
     (let msg = passwordStrengthError pw email in
      if msg \<noteq> [] then msg
      else case a_breach A of
        None \<Rightarrow> []
      | Some pwned \<Rightarrow> (case pwned pw of
          None \<Rightarrow> ''we couldn'' @ [CHR 0x27] @ ''t verify your password right now '' @ em_dash @ '' please try again''
        | Some True \<Rightarrow> ''that password has appeared in a data breach '' @ em_dash @ '' choose a different one''
        | Some False \<Rightarrow> []))"

definition hashPassword :: "authn \<Rightarrow> string \<Rightarrow> env \<Rightarrow> string option \<times> env" where
  "hashPassword A pw e = (c_bcrypt (a_lib A) (e_rand e) pw, e\<lparr>e_rand := Suc (e_rand e)\<rparr>)"

section \<open>Mailed tokens\<close>

text \<open>Mint a token for a user and an address, store its hash, mail the link that carries it.\<close>

definition mailToken ::
  "authn \<Rightarrow> string \<Rightarrow> int \<Rightarrow> string \<Rightarrow> string \<Rightarrow> string \<Rightarrow> (string \<Rightarrow> string) \<Rightarrow> env \<Rightarrow> env" where
  "mailToken A purpose ttl userID email subject link e =
     (case freshToken A e of (raw, e) \<Rightarrow>
      case op (\<lambda>s. CreateToken s purpose userID email (hashToken (a_lib A) raw) (e_now e + ttl)) e of
        (Inl _, e) \<Rightarrow> e
      | (Inr _, e) \<Rightarrow> sendAuthEmail A email subject (link raw) e)"

definition sendVerifyEmail :: "authn \<Rightarrow> string \<Rightarrow> string \<Rightarrow> env \<Rightarrow> env" where
  "sendVerifyEmail A userID email e = mailToken A purposeVerifyEmail ttlVerifyEmail userID email
     ''Confirm your email'' (\<lambda>raw. baseURL A @ ''/auth/email/verify?token='' @ raw) e"

text \<open>The address of a user who may sign in: the check the background jobs share.\<close>

definition mailable :: "string \<Rightarrow> env \<Rightarrow> AuthUser option" where
  "mailable email e = (case UserByEmail (e_store e) email of
     Inl _ \<Rightarrow> None
   | Inr u \<Rightarrow> if fst (loginBlocked (e_now e) (Some u)) then None else Some u)"

fun runJob :: "authn \<Rightarrow> job \<Rightarrow> env \<Rightarrow> env" where
  "runJob A (MagicJob email nxt remember) e = (case mailable email e of
     None \<Rightarrow> e
   | Some u \<Rightarrow> mailToken A purposeMagicLogin ttlMagicLogin (au_ID u) email ''Your sign-in link''
       (\<lambda>raw. baseURL A @ ''/auth/email/login?token='' @ raw @
          (if nxt \<noteq> ''/'' then ''&next='' @ query_escape nxt else []) @
          (if remember then ''&remember=true'' else [])) e)"
| "runJob A (CodeJob email) e = (case mailable email e of
     None \<Rightarrow> e
   | Some u \<Rightarrow>
       let code = zero_pad 6 (c_randInt (a_lib A) (e_rand e) (10 ^ 6));
           e = e\<lparr>e_rand := Suc (e_rand e)\<rparr>
       in case op (\<lambda>s. CreateEmailOTP s purposeEmailOTP email (otpHash (a_lib A) email code)
             (e_now e + ttlEmailOTP) (int maxOTPAttempts)) e of
            (Inl _, e) \<Rightarrow> e
          | (Inr _, e) \<Rightarrow> sendAuthEmail A email ''Your sign-in code'' code e)"
| "runJob A (ResetJob email) e = (case mailable email e of
     None \<Rightarrow> e
   | Some u \<Rightarrow> mailToken A purposePasswordReset ttlPasswordReset (au_ID u) email ''Reset your password''
       (\<lambda>raw. baseURL A @ ''/reset?token='' @ raw) e)"

section \<open>Passwords\<close>

definition signup_message :: reply where
  "signup_message = jok [(''message'', JStr ''Check your email to finish creating your account.'')]"

definition setNewPassword :: "authn \<Rightarrow> string \<Rightarrow> string \<Rightarrow> env \<Rightarrow> bool \<times> env" where
  "setNewPassword A userID pw e = (case hashPassword A pw e of
     (None, e) \<Rightarrow> (False, e)
   | (Some hash, e) \<Rightarrow> (case op (\<lambda>s. SetPasswordHash s userID hash ''bcrypt'') e of
       (Inl _, e) \<Rightarrow> (False, e) | (Inr _, e) \<Rightarrow> (True, e)))"

definition signupFinish :: "authn \<Rightarrow> request \<Rightarrow> string \<Rightarrow> AuthUser \<Rightarrow> env \<Rightarrow> reply \<times> env" where
  "signupFinish A r email u e = (case setNewPassword A (au_ID u) (field r ''Password'') e of
     (False, e) \<Rightarrow> (jerr 500 ''could not create account'', e)
   | (True, e) \<Rightarrow> (signup_message,
       doAudit (au_ID u) email True (sendVerifyEmail A (au_ID u) email e)))"

definition PasswordSignup :: "authn \<Rightarrow> request \<Rightarrow> env \<Rightarrow> reply \<times> env" where
  "PasswordSignup A r e =
     (if rq_body r = None then (jerr 400 ''invalid request'', e)
      else let email = norm (field r ''Email'') in
      if \<not> validEmail email then (jerr 400 ''enter a valid email address'', e)
      else case allowIP (''signup:'' @ rq_rateIP r) e of
        (False, e) \<Rightarrow> (tooManyShortly, e)
      | (True, e) \<Rightarrow>
          let msg = passwordPolicyError A (field r ''Password'') email in
          if msg \<noteq> [] then (jerr 400 msg, e)
          else case UserByEmail (e_store e) email of
            Inl err \<Rightarrow>
              if err = ErrNoUser then
                (case freshToken A e of (sub, e) \<Rightarrow>
                 case op (\<lambda>s. CreateLocalUser (e_now e) sub s email (trim_space (field r ''Name''))) e of
                   (Inl _, e) \<Rightarrow> (jerr 500 ''could not create account'', e)
                 | (Inr nu, e) \<Rightarrow> signupFinish A r email nu e)
              else (jerr 500 ''could not create account'', e)
          | Inr u \<Rightarrow>
              if au_EmailVerified u then
                (signup_message, doAudit (au_ID u) email False
                   (sendAuthEmail A email ''You already have an account'' (baseURL A @ ''/login'')
                     (e\<lparr>e_rand := Suc (e_rand e)\<rparr>)))
              else signupFinish A r email u e)"

definition bcryptCost :: nat where "bcryptCost = 12"

text \<open>A hash of lower cost is replaced by a fresh one; a failure to hash keeps the old one.\<close>

definition rehash :: "authn \<Rightarrow> string \<Rightarrow> string \<Rightarrow> string \<Rightarrow> env \<Rightarrow> env" where
  "rehash A userID hash pw e = (case c_bcryptCost (a_lib A) hash of
     None \<Rightarrow> e
   | Some cost \<Rightarrow> if cost < bcryptCost then
       (case hashPassword A pw e of
          (None, e) \<Rightarrow> e
        | (Some nh, e) \<Rightarrow> snd (op (\<lambda>s. SetPasswordHash s userID nh ''bcrypt'') e))
       else e)"

definition signedIn :: "string \<Rightarrow> request \<Rightarrow> lerror + bool \<Rightarrow> env \<Rightarrow> reply \<times> env" where
  "signedIn failure r res e = (case res of
     Inl _ \<Rightarrow> (jerr 500 failure, e)
   | Inr True \<Rightarrow> (JSON 200 [(''twoFactorRequired'', JBool True)], e)
   | Inr False \<Rightarrow> (jok [(''next'', JStr (sanitizeNext (field r ''Next'')))], e))"

definition identity_of :: "AuthUser \<Rightarrow> Identity" where
  "identity_of u = \<lparr>id_Subject = au_Sub u, id_Email = au_Email u, id_Name = au_Name u,
     id_EmailVerified = True, id_Groups = []\<rparr>"

definition lockoutFailures :: nat where "lockoutFailures = 5"

definition lockedOut :: "authn \<Rightarrow> string \<Rightarrow> env \<Rightarrow> bool" where
  "lockedOut A email e =
     (if isOwnerEmail A email then False
      else case RecentFailures (e_store e) email (e_now e - 15 * minute) of
        Inl _ \<Rightarrow> False | Inr fails \<Rightarrow> lockoutFailures \<le> fails)"

definition PasswordLogin :: "authn \<Rightarrow> request \<Rightarrow> env \<Rightarrow> reply \<times> env" where
  "PasswordLogin A r e =
     (if rq_body r = None then (jerr 400 ''invalid request'', e)
      else let email = norm (field r ''Email''); pw = field r ''Password'' in
      case allowIP (''login:'' @ rq_rateIP r) e of
        (False, e) \<Rightarrow> (tooManyShortly, e)
      | (True, e) \<Rightarrow>
          if lockedOut A email e then (tooManyLink, e)
          else case UserByEmail (e_store e) email of
            Inl err \<Rightarrow>
              if err = ErrNoUser then (jerr 401 ''incorrect email or password'', doAudit [] email False e)
              else (jerr 500 ''login failed'', e)
          | Inr u \<Rightarrow> (case PasswordHash (e_store e) (au_ID u) of
              Inl err \<Rightarrow>
                if err = ErrNoCredential
                then (jerr 401 ''incorrect email or password'', doAudit (au_ID u) email False e)
                else (jerr 500 ''login failed'', e)
            | Inr (hash, _) \<Rightarrow>
                if \<not> c_bcryptCheck (a_lib A) hash pw
                then (jerr 401 ''incorrect email or password'', doAudit (au_ID u) email False e)
                else
                  let e = rehash A (au_ID u) hash pw e in
                  if fst (loginBlocked (e_now e) (Some u)) then (jerr 403 (snd (loginBlocked (e_now e) (Some u))), e)
                  else if \<not> au_EmailVerified u then
                    (case allowAcct (''verify:'' @ email) e of (ok, e) \<Rightarrow>
                      (JSON 403 [(''error'', JStr (''Please confirm your email '' @ em_dash @ '' we'' @ [CHR 0x27] @ ''ve sent a fresh confirmation link to your inbox.'')), (''needsVerify'', JBool True)],
                       if ok then sendVerifyEmail A (au_ID u) email e else e))
                  else
                    (case completeLogin A r (identity_of u) (flag r ''Remember'') []
                        (doAudit (au_ID u) email True e) of
                      (res, e) \<Rightarrow> signedIn ''login failed'' r res e)))"

definition generic_sent :: "string \<Rightarrow> reply" where
  "generic_sent what = jok [(''message'', JStr (''If an account exists for that address, we'' @ [CHR 0x27] @
     ''ve sent a '' @ what @ ''.''))]"

definition PasswordResetRequest :: "authn \<Rightarrow> request \<Rightarrow> env \<Rightarrow> reply \<times> env" where
  "PasswordResetRequest A r e =
     (let email = norm (field r ''Email'') in
      if \<not> validEmail email then (generic_sent ''reset link'', e)
      else case allowIP (''reset:'' @ rq_rateIP r) e of
        (False, e) \<Rightarrow> (generic_sent ''reset link'', e)
      | (True, e) \<Rightarrow> (case allowAcct (''reset:'' @ email) e of
          (False, e) \<Rightarrow> (generic_sent ''reset link'', e)
        | (True, e) \<Rightarrow> (generic_sent ''reset link'', e\<lparr>e_jobs := e_jobs e @ [ResetJob email]\<rparr>)))"

definition PasswordResetConfirm :: "authn \<Rightarrow> request \<Rightarrow> env \<Rightarrow> reply \<times> env" where
  "PasswordResetConfirm A r e =
     (if rq_body r = None \<or> field r ''Token'' = [] then (jerr 400 ''invalid request'', e)
      else let h = hashToken (a_lib A) (field r ''Token'') in
      case PeekToken (e_now e) (e_store e) purposePasswordReset h of
        Inl _ \<Rightarrow> (jerr 400 ''this reset link is invalid or has expired'', e)
      | Inr claim \<Rightarrow>
          let msg = passwordPolicyError A (field r ''Password'') (tc_Email claim) in
          if msg \<noteq> [] then (jerr 400 msg, e)
          else case op (\<lambda>s. ConsumeToken (e_now e) s purposePasswordReset h) e of
            (Inl _, e) \<Rightarrow> (jerr 400 ''this reset link is invalid or has expired'', e)
          | (Inr _, e) \<Rightarrow> (case setNewPassword A (tc_UserID claim) (field r ''Password'') e of
              (False, e) \<Rightarrow> (jerr 500 ''could not update password'', e)
            | (True, e) \<Rightarrow>
                let e = snd (op (\<lambda>s. SetEmailVerified (e_now e) s (tc_UserID claim) True) e)
                in (jok [(''message'', JStr ''Your password has been updated. You can now sign in.'')],
                    doAudit (tc_UserID claim) (tc_Email claim) True e)))"

section \<open>E-mailed links\<close>

definition EmailRequest :: "authn \<Rightarrow> request \<Rightarrow> env \<Rightarrow> reply \<times> env" where
  "EmailRequest A r e =
     (let email = norm (field r ''Email'') in
      if \<not> validEmail email then (generic_sent ''sign-in link'', e)
      else case allowIP (''magic:'' @ rq_rateIP r) e of
        (False, e) \<Rightarrow> (generic_sent ''sign-in link'', e)
      | (True, e) \<Rightarrow> (case allowAcct (''magic:'' @ email) e of
          (False, e) \<Rightarrow> (generic_sent ''sign-in link'', e)
        | (True, e) \<Rightarrow> (generic_sent ''sign-in link'', e\<lparr>e_jobs := e_jobs e @
            [MagicJob email (sanitizeNext (field r ''Next'')) (flag r ''Remember'')]\<rparr>)))"

definition loginError :: "authn \<Rightarrow> string \<Rightarrow> reply" where
  "loginError A msg = Redirect (baseURL A @ ''/login?error='' @ query_escape msg)"

definition redeemAndLogin :: "authn \<Rightarrow> request \<Rightarrow> string \<Rightarrow> bool \<Rightarrow> env \<Rightarrow> reply \<times> env" where
  "redeemAndLogin A r purpose markVerified e =
     (let token = attr (rq_query r) ''token'' in
      if token = [] then (loginError A ''missing token'', e)
      else case op (\<lambda>s. ConsumeToken (e_now e) s purpose (hashToken (a_lib A) token)) e of
        (Inl _, e) \<Rightarrow> (loginError A ''this link is invalid or has expired'', e)
      | (Inr claim, e) \<Rightarrow>
          let e = (if markVerified then snd (op (\<lambda>s. SetEmailVerified (e_now e) s (tc_UserID claim) True) e) else e) in
          case UserByEmail (e_store e) (tc_Email claim) of
            Inl _ \<Rightarrow> (loginError A ''account not found'', e)
          | Inr u \<Rightarrow>
              if fst (loginBlocked (e_now e) (Some u)) then (loginError A (snd (loginBlocked (e_now e) (Some u))), e)
              else case completeLogin A r (identity_of u) (attr (rq_query r) ''remember'' = ''true'') []
                     (doAudit (au_ID u) (au_Email u) True e) of
                (Inl _, e) \<Rightarrow> (loginError A ''sign-in failed'', e)
              | (Inr tfr, e) \<Rightarrow>
                  (let nxt = sanitizeNext (attr (rq_query r) ''next'')
                   in Redirect (if tfr then c_setQuery (a_lib A) nxt ''mfa'' ''required'' else nxt), e))"

definition EmailLogin :: "authn \<Rightarrow> request \<Rightarrow> env \<Rightarrow> reply \<times> env" where
  "EmailLogin A r e = redeemAndLogin A r purposeMagicLogin True e"

definition EmailVerify :: "authn \<Rightarrow> request \<Rightarrow> env \<Rightarrow> reply \<times> env" where
  "EmailVerify A r e = redeemAndLogin A r purposeVerifyEmail True e"

section \<open>E-mailed codes\<close>

definition EmailOTPSend :: "authn \<Rightarrow> request \<Rightarrow> env \<Rightarrow> reply \<times> env" where
  "EmailOTPSend A r e =
     (let email = norm (field r ''Email'') in
      if \<not> validEmail email \<or> \<not> a_mailer A then (generic_sent ''sign-in code'', e)
      else case allowIP (''emailotp:'' @ rq_rateIP r) e of
        (False, e) \<Rightarrow> (generic_sent ''sign-in code'', e)
      | (True, e) \<Rightarrow> (case allowAcct (''emailotp:'' @ email) e of
          (False, e) \<Rightarrow> (generic_sent ''sign-in code'', e)
        | (True, e) \<Rightarrow> (generic_sent ''sign-in code'', e\<lparr>e_jobs := e_jobs e @ [CodeJob email]\<rparr>)))"

definition EmailOTPVerify :: "authn \<Rightarrow> request \<Rightarrow> env \<Rightarrow> reply \<times> env" where
  "EmailOTPVerify A r e =
     (if rq_body r = None then (jerr 400 ''invalid request'', e)
      else let email = norm (field r ''Email'') in
      case allowIP (''emailotp:'' @ rq_rateIP r) e of
        (False, e) \<Rightarrow> (tooManyWait, e)
      | (True, e) \<Rightarrow>
          if \<not> validEmail email \<or> trim_space (field r ''Code'') = [] then (jerr 400 ''enter the code we emailed you'', e)
          else case op (\<lambda>s. VerifyEmailOTP (e_now e) s purposeEmailOTP email
                (otpHash (a_lib A) email (field r ''Code''))) e of
            (Inl _, e) \<Rightarrow> (jerr 401 ''that code is invalid or has expired'', e)
          | (Inr claim, e) \<Rightarrow> (case UserByEmail (e_store e) (tc_Email claim) of
              Inl _ \<Rightarrow> (jerr 401 ''sign-in failed'', e)
            | Inr u \<Rightarrow>
                if fst (loginBlocked (e_now e) (Some u)) then (jerr 403 (snd (loginBlocked (e_now e) (Some u))), e)
                else
                  let e = snd (op (\<lambda>s. SetEmailVerified (e_now e) s (au_ID u) True) e);
                      e = doAudit (au_ID u) (au_Email u) True e
                  in case completeLogin A r (identity_of u) (flag r ''Remember'') [] e of
                       (res, e) \<Rightarrow> signedIn ''sign-in failed'' r res e))"

end
