(* ===== verification/OidcFlows.thy ===== *)
theory OidcFlows
  imports LoginFlows
begin

text \<open>
  The primary OIDC login: \<open>Login\<close> and \<open>Callback\<close> of \<open>handlers.go\<close>. The identity provider is a
  parameter of the configuration. The constant-time comparisons are equalities.
\<close>

definition Login :: "authn \<Rightarrow> request \<Rightarrow> env \<Rightarrow> reply \<times> env" where
  "Login A r e =
     (if \<not> a_enabled A then (Redirect ''/'', e)
      else case freshToken A e of (state, e) \<Rightarrow>
           case freshToken A e of (nonce, e) \<Rightarrow>
           case freshToken A e of (verifier, e) \<Rightarrow>
           (case mintFlow (a_lib A) (a_SessionSecret A) \<lparr>fc_State = state, fc_Nonce = nonce, fc_Verifier = verifier,
                fc_Next = sanitizeNext (attr (rq_query r) ''next'')\<rparr> (e_now e) of
              None \<Rightarrow> (jerr 500 ''login init failed'', e)
            | Some flow \<Rightarrow> (Redirect (a_authCodeURL A state nonce verifier),
                setCookie flowCookie flow (flowTTL div second_ns) e)))"

definition verifyAZP :: "string list \<Rightarrow> string \<Rightarrow> string \<Rightarrow> bool" where
  "verifyAZP aud azp clientID =
     (if 1 < length aud \<and> azp = [] then False
      else if azp \<noteq> [] \<and> azp \<noteq> clientID then False
      else True)"

text \<open>What follows the verification of the ID token.\<close>

definition oidcSession :: "authn \<Rightarrow> request \<Rightarrow> flowClaims \<Rightarrow> string \<Rightarrow> idtoken \<Rightarrow> env \<Rightarrow> reply \<times> env" where
  "oidcSession A r fc rawID tok e =
     (let verified = it_EmailVerified tok \<or> a_OIDCAssumeVerified A;
          name = (if it_Name tok = [] then it_PreferredUsername tok else it_Name tok)
      in case authorizeLogin A \<lparr>id_Subject = it_Subject tok, id_Email = it_Email tok, id_Name = name,
             id_EmailVerified = verified, id_Groups = it_Groups tok\<rparr> e of
           (Inl err, e) \<Rightarrow>
             (if err = LDenied then jerr 403 ''your account is not authorized''
              else jerr 500 ''authorization failed'', e)
         | (Inr role, e) \<Rightarrow>
             (case openSession A r (base_claims (it_Email tok) name (it_Groups tok) role rawID
                  (defaultOrgClaimsForSub A (it_Subject tok) e)) (it_Subject tok) [] sessionTTL e of
                (Inl _, e) \<Rightarrow> (jerr 500 ''session creation failed'', e)
              | (Inr _, e) \<Rightarrow> (Redirect (fc_Next fc), e)))"

definition Callback :: "authn \<Rightarrow> request \<Rightarrow> env \<Rightarrow> reply \<times> env" where
  "Callback A r e =
     (if \<not> a_enabled A then (Redirect ''/'', e)
      else case parseFlowMulti (a_lib A) (e_now e) (secrets A) (cookieValue r flowCookie) of
        None \<Rightarrow> (jerr 400 (''login session expired '' @ em_dash @ '' try again''), e)
      | Some fc \<Rightarrow>
          let e = clearCookie flowCookie e in
          if attr (rq_query r) ''error'' \<noteq> []
          then (jerr 401 (''identity provider: '' @ attr (rq_query r) ''error''), e)
          else if attr (rq_query r) ''state'' \<noteq> fc_State fc then (jerr 400 ''state mismatch'', e)
          else case a_exchange A (attr (rq_query r) ''code'') (fc_Verifier fc) of
            None \<Rightarrow> (jerr 502 ''token exchange failed'', e)
          | Some None \<Rightarrow> (jerr 502 ''no id_token in response'', e)
          | Some (Some rawID) \<Rightarrow> (case a_verifyID A (e_now e) rawID of
              None \<Rightarrow> (jerr 401 ''id_token verification failed'', e)
            | Some tok \<Rightarrow>
                if it_Nonce tok \<noteq> fc_Nonce fc then (jerr 401 ''nonce mismatch'', e)
                else if \<not> verifyAZP (it_Audience tok) (it_AZP tok) (a_ClientID A)
                then (jerr 401 ''id_token not authorized for this client'', e)
                else if it_Email tok \<noteq> [] \<and> \<not> (it_EmailVerified tok \<or> a_OIDCAssumeVerified A)
                then (jerr 401 ''your email is not verified with this provider'', e)
                else if \<not> groupAllowed A (it_Groups tok)
                then (jerr 403 ''your account is not in an allowed group'', e)
                else oidcSession A r fc rawID tok e))"

end
