(* ===== verification/AccountFlows.thy ===== *)
theory AccountFlows
  imports LoginFlows
begin

text \<open>
  Self-service on the signed-in account: \<open>account.go\<close> (password, passkeys, linked identities) and
  \<open>account_lifecycle.go\<close> (deletion, change of address). \<open>credMu\<close> makes the last-method check and the removal one step, as here.
\<close>

definition passkey_json :: "Passkey \<Rightarrow> jval" where
  "passkey_json p = JObj [(''id'', JStr (pk_ID p)), (''name'', JStr (pk_Name p)),
     (''createdAt'', JNum (pk_CreatedAt p)), (''lastUsedAt'', JNum (pk_LastUsedAt p))]"

definition listed :: "'a list result \<Rightarrow> 'a list" where
  "listed x = (case x of Inl _ \<Rightarrow> [] | Inr l \<Rightarrow> l)"

definition hasPassword :: "env \<Rightarrow> string \<Rightarrow> bool" where
  "hasPassword e userID \<longleftrightarrow> (case PasswordHash (e_store e) userID of Inl _ \<Rightarrow> False | Inr _ \<Rightarrow> True)"

definition AccountInfo :: "authn \<Rightarrow> request \<Rightarrow> env \<Rightarrow> reply \<times> env" where
  "AccountInfo A r e = (case currentAuthUser A r e of
     None \<Rightarrow> (unauthenticated, e)
   | Some au \<Rightarrow> (JSON 200 [(''email'', JStr (au_Email au)), (''name'', JStr (au_Name au)),
       (''emailVerified'', JBool (au_EmailVerified au)), (''hasPassword'', JBool (hasPassword e (au_ID au))),
       (''passkeysEnabled'', JBool (a_passkeys A)),
       (''passkeys'', JList (map passkey_json (listed (Passkeys (e_store e) (au_ID au))))),
       (''oauth'', JList (map JStr (listed (OAuthIdentities (e_store e) (au_ID au))))),
       (''sessionsEnabled'', JBool (a_sessions A))], e))"

definition signInMethods :: "string \<Rightarrow> env \<Rightarrow> nat" where
  "signInMethods userID e =
     (if hasPassword e userID then 1 else 0) +
     length (listed (Passkeys (e_store e) userID)) + length (listed (OAuthIdentities (e_store e) userID))"

definition AccountSetPassword :: "authn \<Rightarrow> request \<Rightarrow> env \<Rightarrow> reply \<times> env" where
  "AccountSetPassword A r e = (case currentAuthUser A r e of
     None \<Rightarrow> (unauthenticated, e)
   | Some au \<Rightarrow>
       if rq_body r = None then (jerr 400 ''invalid request'', e)
       else if hasPassword e (au_ID au) \<and> \<not> checkPassword A (au_ID au) (field r ''Current'') e
       then (jerr 403 ''current password is incorrect'', e)
       else let msg = passwordPolicyError A (field r ''New'') (au_Email au) in
         if msg \<noteq> [] then (jerr 400 msg, e)
         else case setNewPassword A (au_ID au) (field r ''New'') e of
           (False, e) \<Rightarrow> (jerr 500 ''could not update password'', e)
         | (True, e) \<Rightarrow> (jok [], doAudit (au_ID au) (au_Email au) True e))"

definition paramID :: "request \<Rightarrow> string \<Rightarrow> string option" where
  "paramID r name = (let i = trim_space (attr (rq_params r) name) in if i = [] then None else Some i)"

definition lastMethod :: reply where
  "lastMethod = jerr 409 ''add a password or another sign-in method before removing your last one''"

definition PasskeyRemove :: "authn \<Rightarrow> request \<Rightarrow> env \<Rightarrow> reply \<times> env" where
  "PasskeyRemove A r e = (case currentAuthUser A r e of
     None \<Rightarrow> (unauthenticated, e)
   | Some au \<Rightarrow> (case paramID r ''id'' of
       None \<Rightarrow> (jerr 400 ''invalid id'', e)
     | Some i \<Rightarrow>
         if signInMethods (au_ID au) e \<le> 1 then (lastMethod, e)
         else case op (\<lambda>s. RemovePasskey s (au_ID au) i) e of
           (Inl _, e) \<Rightarrow> (jerr 500 ''could not remove passkey'', e)
         | (Inr _, e) \<Rightarrow> (jok [], doAudit (au_ID au) (au_Email au) True e)))"

definition PasskeyRename :: "authn \<Rightarrow> request \<Rightarrow> env \<Rightarrow> reply \<times> env" where
  "PasskeyRename A r e = (case currentAuthUser A r e of
     None \<Rightarrow> (unauthenticated, e)
   | Some au \<Rightarrow> (case paramID r ''id'' of
       None \<Rightarrow> (jerr 400 ''invalid id'', e)
     | Some i \<Rightarrow>
         if rq_body r = None then (jerr 400 ''invalid request'', e)
         else let name = trim_space (field r ''Name'') in
           if name = [] \<or> 64 < length name then (jerr 400 (''name must be 1'' @ en_dash @ ''64 characters''), e)
           else case op (\<lambda>s. RenamePasskey s (au_ID au) i name) e of
             (Inl _, e) \<Rightarrow> (jerr 500 ''could not rename passkey'', e)
           | (Inr _, e) \<Rightarrow> (jok [], e)))"

definition lastMethodUnlink :: reply where
  "lastMethodUnlink = jerr 409 ''add a password or another sign-in method before unlinking your last one''"

definition OAuthUnlink :: "authn \<Rightarrow> request \<Rightarrow> env \<Rightarrow> reply \<times> env" where
  "OAuthUnlink A r e = (case currentAuthUser A r e of
     None \<Rightarrow> (unauthenticated, e)
   | Some au \<Rightarrow>
       let provider = attr (rq_params r) ''provider'' in
       if \<not> List.member (listed (OAuthIdentities (e_store e) (au_ID au))) provider
       then (jerr 404 ''no such linked account'', e)
       else if signInMethods (au_ID au) e \<le> 1 then (lastMethodUnlink, e)
       else case op (\<lambda>s. UnlinkOAuth s (au_ID au) provider) e of
         (Inl _, e) \<Rightarrow> (jerr 500 ''could not unlink account'', e)
       | (Inr _, e) \<Rightarrow> (jok [], doAudit (au_ID au) (au_Email au) True e))"

definition accountStepUpMaxAge :: int where "accountStepUpMaxAge = 10 * minute"

definition hasReauthFactor :: "authn \<Rightarrow> string \<Rightarrow> env \<Rightarrow> bool" where
  "hasReauthFactor A userID e \<longleftrightarrow> hasPassword e userID \<or> userHasTOTP A userID e"

definition AccountDelete :: "authn \<Rightarrow> request \<Rightarrow> env \<Rightarrow> reply \<times> env" where
  "AccountDelete A r e = (case currentAuthUser A r e of
     None \<Rightarrow> (unauthenticated, e)
   | Some au \<Rightarrow>
       if hasReauthFactor A (au_ID au) e \<and> \<not> StepUpFresh A r accountStepUpMaxAge e
       then (jerr 403 ''reauth_required'', e)
       else let e = doAudit (au_ID au) (au_Email au) True e in
         case op (\<lambda>s. DeleteUser s (au_ID au)) e of
           (Inl _, e) \<Rightarrow> (jerr 500 ''could not delete your account'', e)
         | (Inr _, e) \<Rightarrow>
             let e = (if a_sessions A then snd (op (\<lambda>s. RevokeAllForUser s (au_Sub au)) e) else e)
             in (jok [], clearCookie stepUpCookie (clearCookie csrfCookie (clearCookie sessionCookie e))))"

definition AccountChangeEmailRequest :: "authn \<Rightarrow> request \<Rightarrow> env \<Rightarrow> reply \<times> env" where
  "AccountChangeEmailRequest A r e = (case currentAuthUser A r e of
     None \<Rightarrow> (unauthenticated, e)
   | Some au \<Rightarrow>
       if hasReauthFactor A (au_ID au) e \<and> \<not> StepUpFresh A r accountStepUpMaxAge e
       then (jerr 403 ''reauth_required'', e)
       else if \<not> a_mailer A then (jerr 501 ''email is not configured'', e)
       else case allowIP (''changeemail:'' @ rq_rateIP r) e of
         (False, e) \<Rightarrow> (tooManyWait, e)
       | (True, e) \<Rightarrow> (case allowAcct (''changeemail:'' @ au_Sub au) e of
           (False, e) \<Rightarrow> (tooManyWait, e)
         | (True, e) \<Rightarrow>
             let newEmail = norm (field r ''NewEmail'') in
             if \<not> validEmail newEmail then (jerr 400 ''enter a valid email address'', e)
             else if newEmail = norm (au_Email au) then (jerr 400 (''that'' @ [CHR 0x27] @ ''s already your email address''), e)
             else case UserByEmail (e_store e) newEmail of
               Inr _ \<Rightarrow> (jerr 409 ''that email is already in use'', e)
             | Inl _ \<Rightarrow> (case freshToken A e of (raw, e) \<Rightarrow>
                 case op (\<lambda>s. CreateToken s purposeChangeEmail (au_ID au) newEmail
                     (hashToken (a_lib A) raw) (e_now e + ttlChangeEmail)) e of
                   (Inl _, e) \<Rightarrow> (jerr 500 ''could not start the email change'', e)
                 | (Inr _, e) \<Rightarrow>
                     let e = sendAuthEmail A newEmail ''Confirm your new email''
                           (baseURL A @ ''/auth/email/change?token='' @ raw) e;
                         e = sendAuthEmail A (au_Email au) ''Email change requested'' (baseURL A @ ''/login'') e
                     in (jok [(''message'', JStr ''Check your new inbox to confirm the change.'')],
                         doAudit (au_ID au) (au_Email au) True e))))"

definition EmailChangeConfirm :: "authn \<Rightarrow> request \<Rightarrow> env \<Rightarrow> reply \<times> env" where
  "EmailChangeConfirm A r e =
     (let token = attr (rq_query r) ''token'' in
      if token = [] then (loginError A ''missing token'', e)
      else case op (\<lambda>s. ConsumeToken (e_now e) s purposeChangeEmail (hashToken (a_lib A) token)) e of
        (Inl _, e) \<Rightarrow> (loginError A ''this link is invalid or has expired'', e)
      | (Inr claim, e) \<Rightarrow> (case op (\<lambda>s. SetEmail (e_now e) s (tc_UserID claim) (tc_Email claim)) e of
          (Inl err, e) \<Rightarrow>
            (loginError A (if err = ErrEmailConflict then ''that email is now in use by another account''
                           else ''could not update your email''), e)
        | (Inr _, e) \<Rightarrow> (Redirect (baseURL A @ ''/login?message=''
              @ query_escape (''Your email has been updated '' @ em_dash @ '' please sign in.'')),
            doAudit (tc_UserID claim) (tc_Email claim) True e)))"

end
