(* ===== verification/Gates.thy ===== *)
theory Gates
  imports Engine
begin

text \<open>
  The gates in front of an application: \<open>GateHTTP\<close> and \<open>CSRFHTTP\<close> of \<open>httpadapter.go\<close> with the
  origin check of \<open>csrf.go\<close>, the group and API-key gates of \<open>admin.go\<close> and
  \<open>orgdirectory.go\<close>, the organization gate of \<open>orgs.go\<close>, the step-up gate of \<open>stepup.go\<close>.
  A gate either passes the request to the next handler, with the session it attached, or refuses it.
\<close>

datatype verdict = Pass request | Refuse reply

section \<open>API keys\<close>

definition bearerToken :: "string \<Rightarrow> string" where
  "bearerToken h = (if has_prefix h ''Bearer '' then trim_space (drop (length ''Bearer '') h) else [])"

definition ValidateAPIKey :: "authn \<Rightarrow> string \<Rightarrow> env \<Rightarrow> APIKeyInfo option \<times> env" where
  "ValidateAPIKey A raw e =
     (if \<not> a_dir A \<or> raw = [] then (None, e)
      else case APIKeyByHash (e_store e) (hashToken (a_lib A) raw) of
        Inl _ \<Rightarrow> (None, e)
      | Inr info \<Rightarrow>
          if (case ak_ExpiresAt info of None \<Rightarrow> False | Some t \<Rightarrow> t < e_now e) then (None, e)
          else (Some info, snd (op (\<lambda>s. TouchAPIKey (e_now e) s (ak_ID info)) e)))"

definition ValidateAPIKeyScope :: "authn \<Rightarrow> string \<Rightarrow> string \<Rightarrow> env \<Rightarrow> bool \<times> env" where
  "ValidateAPIKeyScope A raw scope e = (case ValidateAPIKey A raw e of
     (None, e) \<Rightarrow> (False, e)
   | (Some info, e) \<Rightarrow> (KeyHasScope (Some info) scope \<and> ak_OrgID info = [], e))"

definition ValidateOrgAPIKeyScope :: "authn \<Rightarrow> string \<Rightarrow> string \<Rightarrow> string \<Rightarrow> env \<Rightarrow> bool \<times> env" where
  "ValidateOrgAPIKeyScope A raw scope orgID e = (case ValidateAPIKey A raw e of
     (None, e) \<Rightarrow> (False, e)
   | (Some info, e) \<Rightarrow>
       if \<not> KeyHasScope (Some info) scope then (False, e)
       else (ak_OrgID info = [] \<or> ak_OrgID info = orgID, e))"

text \<open>The global key of a request, if it carries one: not bound to an organization.\<close>

definition globalKey :: "authn \<Rightarrow> request \<Rightarrow> env \<Rightarrow> APIKeyInfo option \<times> env" where
  "globalKey A r e =
     (let key = bearerToken (header r ''Authorization'') in
      if key = [] then (None, e)
      else case ValidateAPIKey A key e of
        (Some info, e) \<Rightarrow> ((if ak_OrgID info = [] then Some info else None), e)
      | (None, e) \<Rightarrow> (None, e))"

section \<open>The session gate\<close>

definition publicPath :: "authn \<Rightarrow> string \<Rightarrow> bool" where
  "publicPath A p =
     (if has_prefix p ''/_next/'' \<or> has_prefix p ''/auth/'' \<or> p = ''/api/health'' \<or> p = ''/favicon.ico'' then True
      else case a_PublicPath A of
        Some f \<Rightarrow> f p
      | None \<Rightarrow> p \<in> {''/signup'', ''/welcome'', ''/restore'', ''/login'', ''/register'', ''/recover'', ''/reset'', ''/verify''})"

definition writeCSRFCookie :: "authn \<Rightarrow> env \<Rightarrow> env" where
  "writeCSRFCookie A e = issueCSRF A e"

definition ensureCSRF :: "authn \<Rightarrow> request \<Rightarrow> env \<Rightarrow> env" where
  "ensureCSRF A r e = (if cookieValue r csrfCookie \<noteq> [] then e else writeCSRFCookie A e)"

definition GateHTTP :: "authn \<Rightarrow> request \<Rightarrow> env \<Rightarrow> verdict \<times> env" where
  "GateHTTP A r e =
     (let p = rq_path r in
      if \<not> enforcing A then (Pass r, e)
      else if publicPath A p then (Pass r, e)
      else case sessionOf A r e of
        Some sc \<Rightarrow> (Pass (r\<lparr>rq_session := Some sc\<rparr>), ensureCSRF A r e)
      | None \<Rightarrow> (case globalKey A r e of
          (Some _, e) \<Rightarrow> (Pass r, e)
        | (None, e) \<Rightarrow>
            if p = ''/api'' \<or> p = ''/ws'' \<or> has_prefix p ''/api/'' \<or> has_prefix p ''/ws/''
            then (Refuse (jerr 401 ''unauthenticated''), e)
            else (Refuse (Redirect (''/welcome?next='' @ query_escape (rq_uri r))), e)))"

section \<open>Cross-site requests\<close>

definition isSocialCallback :: "string \<Rightarrow> bool" where
  "isSocialCallback p \<longleftrightarrow> has_prefix p ''/auth/social/'' \<and> has_suffix p ''/callback''"

definition csrfExempt :: "string list" where
  "csrfExempt = [''/auth/callback'', ''/auth/password/signup'', ''/auth/password/login'',
     ''/auth/password/reset/request'', ''/auth/password/reset/confirm'', ''/auth/email/request'',
     ''/auth/email-otp/send'', ''/auth/email-otp/verify'', ''/auth/webauthn/login/begin'',
     ''/auth/webauthn/login/finish'', ''/auth/2fa/verify'', ''/auth/2fa/webauthn/begin'', ''/auth/2fa/webauthn/finish'']"

definition trustedOrigins :: "authn \<Rightarrow> string list" where
  "trustedOrigins A = (if baseURL A \<noteq> [] then [baseURL A] else []) @ a_TrustedOrigins A"

text \<open>
  The origin of the \<open>Referer\<close> is the library's reading of that URL (\<open>a_originOf\<close>): scheme and host
  joined, or nothing when it does not parse or has none.
\<close>

definition requestOrigin :: "authn \<Rightarrow> request \<Rightarrow> string" where
  "requestOrigin A r = (if header r ''Origin'' \<noteq> [] then header r ''Origin''
     else if header r ''Referer'' \<noteq> [] then a_originOf A (header r ''Referer'') else [])"

definition originAllowed :: "authn \<Rightarrow> request \<Rightarrow> bool" where
  "originAllowed A r =
     (if header r ''Sec-Fetch-Site'' = ''cross-site'' then False
      else let origin = requestOrigin A r in
        if origin = [] then True
        else if trustedOrigins A = [] then True
        else list_ex (\<lambda>o'. o' \<noteq> [] \<and> equal_fold o' origin) (trustedOrigins A))"

definition csrfValid :: "authn \<Rightarrow> request \<Rightarrow> bool" where
  "csrfValid A r =
     (let cookie = cookieValue r csrfCookie; h = header r ''X-CSRF-Token'' in
      if cookie = [] \<or> h = [] then False
      else if cookie \<noteq> h then False
      else originAllowed A r)"

definition CSRFHTTP :: "authn \<Rightarrow> request \<Rightarrow> verdict" where
  "CSRFHTTP A r =
     (let p = rq_path r in
      if \<not> enforcing A then Pass r
      else if rq_method r \<in> {''GET'', ''HEAD'', ''OPTIONS''} then Pass r
      else if \<not> has_prefix p ''/api/'' \<and> \<not> has_prefix p ''/auth/'' then Pass r
      else if isSocialCallback p then Pass r
      else if bearerToken (header r ''Authorization'') \<noteq> [] then Pass r
      else if List.member csrfExempt p then
        (if \<not> originAllowed A r then Refuse (jerr 403 ''cross-origin request refused'') else Pass r)
      else if \<not> csrfValid A r then Refuse (jerr 403 ''invalid or missing CSRF token'')
      else Pass r)"

section \<open>Group gates\<close>

definition GroupsFromRequest :: "request \<Rightarrow> string list" where
  "GroupsFromRequest r = (case rq_session r of None \<Rightarrow> [] | Some sc \<Rightarrow> sc_Groups sc)"

definition requestGroups :: "authn \<Rightarrow> request \<Rightarrow> env \<Rightarrow> string list \<times> env" where
  "requestGroups A r e = (case globalKey A r e of
     (None, e) \<Rightarrow> (GroupsFromRequest r, e)
   | (Some info, e) \<Rightarrow> (GroupsFromRequest r @ ak_Groups info, e))"

definition authenticated :: "authn \<Rightarrow> request \<Rightarrow> env \<Rightarrow> bool \<times> env" where
  "authenticated A r e =
     (if rq_session r \<noteq> None then (True, e)
      else case globalKey A r e of (k, e) \<Rightarrow> (k \<noteq> None, e))"

definition RequireGroupsHTTP :: "authn \<Rightarrow> string list \<Rightarrow> request \<Rightarrow> env \<Rightarrow> verdict \<times> env" where
  "RequireGroupsHTTP A groups r e =
     (if groups = [] then
        (case authenticated A r e of
           (False, e) \<Rightarrow> (Refuse (jerr 403 ''forbidden: authentication required''), e)
         | (True, e) \<Rightarrow> (Pass r, e))
      else case requestGroups A r e of (have', e) \<Rightarrow>
        if \<not> hasAnyGroup have' groups then (Refuse (jerr 403 ''forbidden: requires group membership''), e)
        else (Pass r, e))"

section \<open>Organization gates\<close>

definition liveOrgMember :: "SessionClaims option \<Rightarrow> env \<Rightarrow> (AuthUser \<times> string) result" where
  "liveOrgMember osc e = (case osc of
     None \<Rightarrow> Err ErrNotOrgMember
   | Some sc \<Rightarrow>
       if sc_Org sc = [] then Err ErrNotOrgMember
       else case UserBySub (e_store e) (sc_Subject sc) of
         Inl err \<Rightarrow> Err err
       | Inr u \<Rightarrow> (case OrgRole (e_store e) (sc_Org sc) (au_ID u) of
           Inl err \<Rightarrow> Err err | Inr role \<Rightarrow> Ok (u, role)))"

definition liveOrgRole :: "SessionClaims option \<Rightarrow> env \<Rightarrow> string result" where
  "liveOrgRole osc e = map_sum id snd (liveOrgMember osc e)"

definition resolveOrg :: "env \<Rightarrow> string \<Rightarrow> Org result" where
  "resolveOrg e idOrSlug = (case OrgByID (e_store e) idOrSlug of
     Inl err \<Rightarrow> if err = ErrNoOrg then OrgBySlug (e_store e) idOrSlug else Err err
   | Inr org \<Rightarrow> Ok org)"

definition orgRefusal :: "error \<Rightarrow> reply" where
  "orgRefusal err = (if err \<in> {ErrNotOrgMember, ErrNoOrg, ErrNoUser}
     then jerr 403 ''forbidden: not a member of this organization''
     else jerr 500 ''organization check failed'')"

definition RequireOrgHTTP :: "authn \<Rightarrow> string list \<Rightarrow> request \<Rightarrow> env \<Rightarrow> verdict" where
  "RequireOrgHTTP A roles r e =
     (if \<not> OrgsEnabled A then Refuse (jerr 501 ''organizations not available'')
      else if (case rq_session r of None \<Rightarrow> True | Some sc \<Rightarrow> sc_Org sc = [])
      then Refuse (jerr 403 ''forbidden: no active organization'')
      else case liveOrgRole (rq_session r) e of
        Inl err \<Rightarrow> Refuse (orgRefusal err)
      | Inr role \<Rightarrow>
          if roles \<noteq> [] \<and> \<not> hasAnyGroup [role] roles
          then Refuse (jerr 403 ''forbidden: requires organization role'')
          else Pass r)"

definition RequireOrgGroupsHTTP :: "authn \<Rightarrow> string list \<Rightarrow> request \<Rightarrow> env \<Rightarrow> verdict" where
  "RequireOrgGroupsHTTP A groups r e =
     (if \<not> OrgsEnabled A \<or> \<not> a_dir A then Refuse (jerr 501 ''organization groups not available'')
      else if (case rq_session r of None \<Rightarrow> True | Some sc \<Rightarrow> sc_Org sc = [])
      then Refuse (jerr 403 ''forbidden: no active organization'')
      else case liveOrgMember (rq_session r) e of
        Inl err \<Rightarrow> Refuse (orgRefusal err)
      | Inr (u, _) \<Rightarrow>
          if groups = [] then Pass r
          else case UserOrgGroups (e_store e) (case rq_session r of None \<Rightarrow> [] | Some sc \<Rightarrow> sc_Org sc) (au_ID u) of
            Inl _ \<Rightarrow> Refuse (jerr 500 ''organization check failed'')
          | Inr gs \<Rightarrow>
              if \<not> hasAnyGroup (groupNames gs) groups
              then Refuse (jerr 403 ''forbidden: requires organization group membership'')
              else Pass r)"

definition RequireStepUpHTTP :: "authn \<Rightarrow> int \<Rightarrow> request \<Rightarrow> env \<Rightarrow> verdict" where
  "RequireStepUpHTTP A maxAge r e =
     (if \<not> StepUpFresh A r maxAge e then Refuse (jerr 403 ''reauth_required'') else Pass r)"

end
