(* ===== verification/OrgFlows.thy ===== *)
theory OrgFlows
  imports AccountFlows Gates
begin

text \<open>
  Self-service on organizations (\<open>orgs_handlers.go\<close>): the picker and the switch of the active
  organization, members and their roles with the last-owner guard, invitations. \<open>orgMu\<close> makes
  the reads and the write of a role change one step, as here.
\<close>

section \<open>The actor\<close>

definition orgActor :: "authn \<Rightarrow> request \<Rightarrow> env \<Rightarrow> (SessionClaims \<times> AuthUser) option" where
  "orgActor A r e = (case sessionOf A r e of
     None \<Rightarrow> None
   | Some sc \<Rightarrow> (case UserBySub (e_store e) (sc_Subject sc) of Inl _ \<Rightarrow> None | Inr u \<Rightarrow> Some (sc, u)))"

text \<open>A new cookie for the same session: other claims, instant of expiry and session id are kept.\<close>

definition remintWithOrg :: "authn \<Rightarrow> SessionClaims \<Rightarrow> string \<Rightarrow> string \<Rightarrow> env \<Rightarrow> bool \<times> env" where
  "remintWithOrg A sc orgID orgRole e = (case sc_ExpiresAt sc of
     None \<Rightarrow> (False, e)
   | Some t \<Rightarrow>
       let ttl = t - e_now e in
       if ttl \<le> 0 then (False, e)
       else case mintSessionWith (a_lib A) (a_SessionSecret A) (sc\<lparr>sc_Org := orgID, sc_OrgRole := orgRole\<rparr>)
                   (sc_Subject sc) (e_now e) ttl of
         None \<Rightarrow> (False, e)
       | Some session \<Rightarrow> (True, setCookie sessionCookie session (ttl div second_ns) e))"

definition orgView :: "Org \<Rightarrow> (string \<times> jval) list" where
  "orgView o' = [(''id'', JStr (o_ID o')), (''slug'', JStr (o_Slug o')), (''name'', JStr (o_Name o'))]"

definition quote :: string where "quote = [CHR 0x27]"

definition badRole :: reply where
  "badRole = jerr 400 (''role must be 1'' @ en_dash @ ''32 chars of a-z, 0-9, '' @ quote @ ''-'' @ quote @
     '' or '' @ quote @ ''_'' @ quote)"

definition normOrgRole :: "string \<Rightarrow> string \<Rightarrow> string option" where
  "normOrgRole raw def =
     (let role = trim_space raw; role = (if role = [] then def else role)
      in if \<not> validOrgRole role then None else Some role)"

definition orgMemberView :: "OrgMember \<Rightarrow> jval" where
  "orgMemberView m = JObj [(''id'', JStr (au_ID (om_User m))), (''email'', JStr (au_Email (om_User m))),
     (''name'', JStr (au_Name (om_User m))), (''role'', JStr (om_Role m))]"

section \<open>The picker and the switch\<close>

definition OrgList :: "authn \<Rightarrow> request \<Rightarrow> env \<Rightarrow> reply \<times> env" where
  "OrgList A r e = (case orgActor A r e of
     None \<Rightarrow> (unauthenticated, e)
   | Some (sc, u) \<Rightarrow> (case UserOrgs (e_store e) (au_ID u) of
       Inl _ \<Rightarrow> (jerr 500 ''could not list organizations'', e)
     | Inr ms \<Rightarrow> (JSON 200 [(''orgs'', JList (map org_json ms)), (''active'', JStr (sc_Org sc))], e)))"

definition notInThatOrg :: reply where "notInThatOrg = jerr 403 ''not a member of that organization''"

definition OrgSwitch :: "authn \<Rightarrow> request \<Rightarrow> env \<Rightarrow> reply \<times> env" where
  "OrgSwitch A r e = (case orgActor A r e of
     None \<Rightarrow> (unauthenticated, e)
   | Some (sc, u) \<Rightarrow>
       let target = trim_space (field r ''Org''); slug = trim_space (field r ''Slug'') in
       if target = [] \<and> slug = [] then
         (case remintWithOrg A sc [] [] e of
            (False, e) \<Rightarrow> (jerr 401 ''session expired'', e)
          | (True, e) \<Rightarrow> (jok [(''org'', JNull)], e))
       else case (if slug \<noteq> [] then OrgBySlug (e_store e) slug else resolveOrg e target) of
         Inl err \<Rightarrow> (if err = ErrNoOrg then notInThatOrg else jerr 500 ''could not switch organization'', e)
       | Inr org \<Rightarrow> (case OrgRole (e_store e) (o_ID org) (au_ID u) of
           Inl err \<Rightarrow> (if err = ErrNotOrgMember \<or> err = ErrNoOrg then notInThatOrg
                     else jerr 500 ''could not switch organization'', e)
         | Inr role \<Rightarrow> (case remintWithOrg A sc (o_ID org) role e of
             (False, e) \<Rightarrow> (jerr 401 ''session expired'', e)
           | (True, e) \<Rightarrow> (jok [(''org'', JObj (orgView org @ [(''role'', JStr role)]))], e))))"

section \<open>Members\<close>

definition activeOrgRole :: "authn \<Rightarrow> request \<Rightarrow> env \<Rightarrow> reply + (SessionClaims \<times> AuthUser \<times> string)" where
  "activeOrgRole A r e = (case orgActor A r e of
     None \<Rightarrow> Inl unauthenticated
   | Some (sc, u) \<Rightarrow>
       if sc_Org sc = [] then Inl (jerr 403 ''no active organization'')
       else case OrgRole (e_store e) (sc_Org sc) (au_ID u) of
         Inl err \<Rightarrow> Inl (if err = ErrNotOrgMember \<or> err = ErrNoOrg
                       then jerr 403 ''not a member of this organization''
                       else jerr 500 ''organization check failed'')
       | Inr role \<Rightarrow> Inr (sc, u, role))"

definition activeOrgManager :: "authn \<Rightarrow> request \<Rightarrow> env \<Rightarrow> reply + (SessionClaims \<times> AuthUser \<times> string)" where
  "activeOrgManager A r e = (case activeOrgRole A r e of
     Inl rep \<Rightarrow> Inl rep
   | Inr (sc, u, role) \<Rightarrow>
       if \<not> orgRoleIsManager role then Inl (jerr 403 ''requires an organization owner or admin'')
       else Inr (sc, u, role))"

definition OrgMemberList :: "authn \<Rightarrow> request \<Rightarrow> env \<Rightarrow> reply \<times> env" where
  "OrgMemberList A r e = (case activeOrgRole A r e of
     Inl rep \<Rightarrow> (rep, e)
   | Inr (sc, u, role) \<Rightarrow> (case OrgMembers (e_store e) (sc_Org sc) of
       Inl _ \<Rightarrow> (jerr 500 ''could not list members'', e)
     | Inr ms \<Rightarrow> (JSON 200 [(''members'', JList (map orgMemberView ms))], e)))"

definition soleOwner :: "env \<Rightarrow> string \<Rightarrow> string \<Rightarrow> bool result" where
  "soleOwner e orgID userID = (case OrgMembers (e_store e) orgID of
     Inl err \<Rightarrow> Err err
   | Inr ms \<Rightarrow>
       let owners = filter (\<lambda>m. om_Role m = OrgRoleOwner) ms
       in Ok (list_ex (\<lambda>m. au_ID (om_User m) = userID) owners \<and> length owners = 1))"

definition orgAudit :: "string \<Rightarrow> env \<Rightarrow> env" where
  "orgAudit userID e = doAudit userID [] True e"

definition OrgMemberSetRole :: "authn \<Rightarrow> request \<Rightarrow> env \<Rightarrow> reply \<times> env" where
  "OrgMemberSetRole A r e = (case activeOrgManager A r e of
     Inl rep \<Rightarrow> (rep, e)
   | Inr (sc, u, actorRole) \<Rightarrow> (case paramID r ''userId'' of
       None \<Rightarrow> (jerr 400 ''invalid userId'', e)
     | Some uid \<Rightarrow> (case normOrgRole (field r ''Role'') [] of
         None \<Rightarrow> (badRole, e)
       | Some newRole \<Rightarrow> (case OrgRole (e_store e) (sc_Org sc) uid of
           Inl err \<Rightarrow> (if err = ErrNotOrgMember \<or> err = ErrNoOrg then jerr 404 ''no such member''
                     else jerr 500 ''could not update member'', e)
         | Inr targetRole \<Rightarrow>
             if (newRole = OrgRoleOwner \<or> targetRole = OrgRoleOwner) \<and> actorRole \<noteq> OrgRoleOwner
             then (jerr 403 ''only an owner may grant or change the owner role'', e)
             else case (if targetRole = OrgRoleOwner \<and> newRole \<noteq> OrgRoleOwner
                        then soleOwner e (sc_Org sc) uid else Ok False) of
               Inl _ \<Rightarrow> (jerr 500 ''could not update member'', e)
             | Inr sole \<Rightarrow>
                 if sole then (jerr 409 ''promote another owner before demoting the last one'', e)
                 else case op (\<lambda>s. SetOrgMember s (sc_Org sc) uid newRole) e of
                   (Inl _, e) \<Rightarrow> (jerr 500 ''could not update member'', e)
                 | (Inr _, e) \<Rightarrow> (jok [(''role'', JStr newRole)], orgAudit uid e)))))"

definition OrgMemberRemove :: "authn \<Rightarrow> request \<Rightarrow> env \<Rightarrow> reply \<times> env" where
  "OrgMemberRemove A r e = (case activeOrgRole A r e of
     Inl rep \<Rightarrow> (rep, e)
   | Inr (sc, u, actorRole) \<Rightarrow> (case paramID r ''userId'' of
       None \<Rightarrow> (jerr 400 ''invalid userId'', e)
     | Some uid \<Rightarrow>
         let leaving = (uid = au_ID u) in
         if \<not> leaving \<and> \<not> orgRoleIsManager actorRole
         then (jerr 403 ''requires an organization owner or admin'', e)
         else case OrgRole (e_store e) (sc_Org sc) uid of
           Inl err \<Rightarrow> (if err = ErrNotOrgMember \<or> err = ErrNoOrg then jerr 404 ''no such member''
                     else jerr 500 ''could not remove member'', e)
         | Inr targetRole \<Rightarrow>
             if targetRole = OrgRoleOwner \<and> actorRole \<noteq> OrgRoleOwner
             then (jerr 403 ''only an owner may remove an owner'', e)
             else case (if targetRole = OrgRoleOwner then soleOwner e (sc_Org sc) uid else Ok False) of
               Inl _ \<Rightarrow> (jerr 500 ''could not remove member'', e)
             | Inr sole \<Rightarrow>
                 if sole then (jerr 409 ''promote another owner before removing the last one'', e)
                 else case op (\<lambda>s. RemoveOrgMember s (sc_Org sc) uid) e of
                   (Inl _, e) \<Rightarrow> (jerr 500 ''could not remove member'', e)
                 | (Inr _, e) \<Rightarrow>
                     let e = orgAudit uid e
                     in (jok [], if leaving then snd (remintWithOrg A sc [] [] e) else e)))"

section \<open>Invitations\<close>

definition ttlInvite :: int where "ttlInvite = 7 * 24 * hour"

definition invite_json :: "OrgInvite \<Rightarrow> jval" where
  "invite_json i = JObj ([(''id'', JStr (oi_ID i)), (''orgId'', JStr (oi_OrgID i)), (''email'', JStr (oi_Email i)),
     (''role'', JStr (oi_Role i))] @ (if oi_InvitedBy i = [] then [] else [(''invitedBy'', JStr (oi_InvitedBy i))]) @
     [(''expiresAt'', JNum (oi_ExpiresAt i)), (''createdAt'', JNum (oi_CreatedAt i))])"

definition OrgInviteCreate :: "authn \<Rightarrow> request \<Rightarrow> env \<Rightarrow> reply \<times> env" where
  "OrgInviteCreate A r e = (case activeOrgManager A r e of
     Inl rep \<Rightarrow> (rep, e)
   | Inr (sc, u, actorRole) \<Rightarrow>
       if \<not> a_mailer A then (jerr 501 ''email is not configured'', e)
       else let email = norm (field r ''Email'') in
       if \<not> validEmail email then (jerr 400 ''a valid email is required'', e)
       else case normOrgRole (field r ''Role'') OrgRoleMember of
         None \<Rightarrow> (badRole, e)
       | Some role \<Rightarrow>
           if role = OrgRoleOwner \<and> actorRole \<noteq> OrgRoleOwner
           then (jerr 403 ''only an owner may invite an owner'', e)
           else case allowAcct (''orginvite:'' @ sc_Subject sc) e of
             (False, e) \<Rightarrow> (jerr 429 (''too many invitations '' @ em_dash @ '' try again later''), e)
           | (True, e) \<Rightarrow>
               if (case UserByEmail (e_store e) email of
                     Inl _ \<Rightarrow> False
                   | Inr existing \<Rightarrow> (case OrgRole (e_store e) (sc_Org sc) (au_ID existing) of
                       Inl _ \<Rightarrow> False | Inr _ \<Rightarrow> True))
               then (jerr 409 ''that user is already a member'', e)
               else case OrgByID (e_store e) (sc_Org sc) of
                 Inl _ \<Rightarrow> (jerr 500 ''could not create invitation'', e)
               | Inr org \<Rightarrow> (case freshToken A e of (raw, e) \<Rightarrow>
                   case op (\<lambda>s. CreateOrgInvite (e_now e) s (o_ID org) email role (au_Email u)
                       (hashToken (a_lib A) raw) (e_now e + ttlInvite)) e of
                     (Inl _, e) \<Rightarrow> (jerr 500 ''could not create invitation'', e)
                   | (Inr ivt, e) \<Rightarrow>
                       (jok [(''invite'', invite_json ivt)],
                        orgAudit (au_ID u) (sendAuthEmail A email
                          (''You'' @ quote @ ''re invited to join '' @ o_Name org)
                          (baseURL A @ ''/auth/org/invite/accept?token='' @ raw) e))))"

definition OrgInviteList :: "authn \<Rightarrow> request \<Rightarrow> env \<Rightarrow> reply \<times> env" where
  "OrgInviteList A r e = (case activeOrgManager A r e of
     Inl rep \<Rightarrow> (rep, e)
   | Inr (sc, u, role) \<Rightarrow> (case OrgInvites (e_now e) (e_store e) (sc_Org sc) of
       Inl _ \<Rightarrow> (jerr 500 ''could not list invitations'', e)
     | Inr invs \<Rightarrow> (JSON 200 [(''invites'', JList (map invite_json invs))], e)))"

definition OrgInviteRevoke :: "authn \<Rightarrow> request \<Rightarrow> env \<Rightarrow> reply \<times> env" where
  "OrgInviteRevoke A r e = (case activeOrgManager A r e of
     Inl rep \<Rightarrow> (rep, e)
   | Inr (sc, u, role) \<Rightarrow> (case paramID r ''id'' of
       None \<Rightarrow> (jerr 400 ''invalid id'', e)
     | Some i \<Rightarrow> (case op (\<lambda>s. RevokeOrgInvite s (sc_Org sc) i) e of
         (Inl _, e) \<Rightarrow> (jerr 500 ''could not revoke invitation'', e)
       | (Inr _, e) \<Rightarrow> (jok [], orgAudit (au_ID u) e))))"

text \<open>The role an accepted invite leaves the user with: an existing one is kept.\<close>

definition grantInvited :: "string \<Rightarrow> string \<Rightarrow> string \<Rightarrow> env \<Rightarrow> string result \<times> env" where
  "grantInvited orgID userID role e = (case OrgRole (e_store e) orgID userID of
     Inr cur \<Rightarrow> (Ok cur, e)
   | Inl err \<Rightarrow>
       if err = ErrNotOrgMember then
         (case op (\<lambda>s. SetOrgMember s orgID userID role) e of
            (Inl err, e) \<Rightarrow> (Err err, e) | (Inr _, e) \<Rightarrow> (Ok role, e))
       else (Err err, e))"

definition OrgInviteAccept :: "authn \<Rightarrow> request \<Rightarrow> env \<Rightarrow> reply \<times> env" where
  "OrgInviteAccept A r e =
     (let token = attr (rq_query r) ''token''; h = hashToken (a_lib A) token in
      if token = [] then (loginError A ''this invitation link is invalid'', e)
      else case sessionOf A r e of
        None \<Rightarrow> (Redirect (baseURL A @ ''/login?next='' @ query_escape (rq_uri r)), e)
      | Some sc \<Rightarrow> (case UserBySub (e_store e) (sc_Subject sc) of
          Inl _ \<Rightarrow> (loginError A ''account not found'', e)
        | Inr u \<Rightarrow> (case PeekOrgInvite (e_now e) (e_store e) h of
            Inl _ \<Rightarrow> (loginError A ''this invitation is invalid or has expired'', e)
          | Inr ivt \<Rightarrow>
              if norm (au_Email u) \<noteq> norm (oi_Email ivt)
              then (loginError A (''this invitation was sent to a different email address '' @ em_dash @
                      '' sign in with that account''), e)
              else case OrgByID (e_store e) (oi_OrgID ivt) of
                Inl _ \<Rightarrow> (loginError A ''this organization no longer exists'', e)
              | Inr org \<Rightarrow> (case op (\<lambda>s. ConsumeOrgInvite (e_now e) s h) e of
                  (Inl _, e) \<Rightarrow> (loginError A ''this invitation is invalid or has expired'', e)
                | (Inr _, e) \<Rightarrow> (case grantInvited (o_ID org) (au_ID u) (oi_Role ivt) e of
                    (Inl _, e) \<Rightarrow> (loginError A (''could not join the organization '' @ em_dash @
                        '' ask for a new invitation''), doAudit (au_ID u) (au_Email u) False e)
                  | (Inr finalRole, e) \<Rightarrow>
                      let e = snd (op (\<lambda>s. SetEmailVerified (e_now e) s (au_ID u) True) e);
                          e = orgAudit (au_ID u) e;
                          e = snd (remintWithOrg A sc (o_ID org) finalRole e)
                      in (Redirect (sanitizeNext (attr (rq_query r) ''next'')), e))))))"

end
