(* ===== verification/AdminFlows.thy ===== *)
theory AdminFlows
  imports OrgFlows
begin

text \<open>
  The admin REST API: the guard and the group and API-key verbs of \<open>admin.go\<close>, the user verbs of
  \<open>admin_users.go\<close> with impersonation, the organization verbs of \<open>admin_orgs.go\<close>. The guard's
  \<open>WWW-Authenticate\<close> headers and the operator's log are left out. Of two identifiers missing from a
  path the first one read is reported.
\<close>

section \<open>The guard\<close>

definition ownerSession :: "authn \<Rightarrow> request \<Rightarrow> env \<Rightarrow> bool" where
  "ownerSession A r e = (case sessionOf A r e of
     None \<Rightarrow> False
   | Some sc \<Rightarrow> sc_ImpersonatedBy sc = [] \<and> a_OwnerEmail A \<noteq> [] \<and>
       equal_fold (trim_space (sc_Email sc)) (a_OwnerEmail A))"

text \<open>\<open>None\<close> permits; otherwise the refusal.\<close>

definition adminGuard :: "authn \<Rightarrow> request \<Rightarrow> env \<Rightarrow> reply option \<times> env" where
  "adminGuard A r e =
     (let key = bearerToken (header r ''Authorization'') in
      case (if key = [] then (None, e) else ValidateAPIKey A key e) of (oinfo, e) \<Rightarrow>
        if (case oinfo of None \<Rightarrow> False | Some info \<Rightarrow> KeyHasScope (Some info) ''admin'' \<and> ak_OrgID info = [])
        then (None, e)
        else if ownerSession A r e then (None, e)
        else (Some (if oinfo \<noteq> None
                    then jerr 403 (''insufficient_scope: the '' @ quote @ ''admin'' @ quote @ '' scope is required'')
                    else if key \<noteq> [] then jerr 401 ''API key is invalid or expired''
                    else jerr 401 (''owner session or API key with '' @ quote @ ''admin'' @ quote @ '' scope required'')), e))"

definition guarded :: "authn \<Rightarrow> request \<Rightarrow> (env \<Rightarrow> reply \<times> env) \<Rightarrow> env \<Rightarrow> reply \<times> env" where
  "guarded A r k e = (case adminGuard A r e of (refusal, e) \<Rightarrow>
     (case refusal of None \<Rightarrow> k e | Some rep \<Rightarrow> (rep, e)))"

definition withParam :: "request \<Rightarrow> string \<Rightarrow> (string \<Rightarrow> env \<Rightarrow> reply \<times> env) \<Rightarrow> env \<Rightarrow> reply \<times> env" where
  "withParam r name k e = (case paramID r name of
     None \<Rightarrow> (jerr 400 (''invalid '' @ name), e) | Some i \<Rightarrow> k i e)"

text \<open>A verb that is one store operation: its failure is a 500, its result a reply.\<close>

definition storeVerb ::
  "string \<Rightarrow> (store \<Rightarrow> 'a result \<times> store) \<Rightarrow> ('a \<Rightarrow> reply) \<Rightarrow> env \<Rightarrow> reply \<times> env" where
  "storeVerb failure f answer e = (case op f e of
     (Inl _, e) \<Rightarrow> (jerr 500 failure, e) | (Inr x, e) \<Rightarrow> (answer x, e))"

definition storeList :: "string \<Rightarrow> (store \<Rightarrow> 'a result) \<Rightarrow> ('a \<Rightarrow> reply) \<Rightarrow> env \<Rightarrow> reply \<times> env" where
  "storeList failure f answer e = (case f (e_store e) of
     Inl _ \<Rightarrow> (jerr 500 failure, e) | Inr x \<Rightarrow> (answer x, e))"

section \<open>Views\<close>

definition user_json :: "AuthUser \<Rightarrow> jval" where
  "user_json u = JObj [(''ID'', JStr (au_ID u)), (''Sub'', JStr (au_Sub u)), (''Email'', JStr (au_Email u)),
     (''Name'', JStr (au_Name u)), (''EmailVerified'', JBool (au_EmailVerified u)), (''Disabled'', JBool (au_Disabled u)),
     (''Banned'', JBool (au_Banned u)), (''BannedUntil'', JNum (au_BannedUntil u)), (''BanReason'', JStr (au_BanReason u)),
     (''CreatedAt'', JNum (au_CreatedAt u)), (''UpdatedAt'', JNum (au_UpdatedAt u))]"

definition omitEmpty :: "string \<Rightarrow> string \<Rightarrow> (string \<times> jval) list" where
  "omitEmpty k v = (if v = [] then [] else [(k, JStr v)])"

definition omitNone :: "string \<Rightarrow> time option \<Rightarrow> (string \<times> jval) list" where
  "omitNone k t = (case t of None \<Rightarrow> [] | Some i \<Rightarrow> [(k, JNum i)])"

definition group_fields :: "Group \<Rightarrow> (string \<times> jval) list" where
  "group_fields g = [(''id'', JStr (g_ID g)), (''name'', JStr (g_Name g)), (''description'', JStr (g_Description g)),
     (''createdAt'', JNum (g_CreatedAt g)), (''updatedAt'', JNum (g_UpdatedAt g))] @ omitEmpty ''orgId'' (g_OrgID g)"

definition key_json :: "APIKeyInfo \<Rightarrow> jval" where
  "key_json k = JObj ([(''id'', JStr (ak_ID k)), (''name'', JStr (ak_Name k)), (''prefix'', JStr (ak_Prefix k)),
     (''groups'', JList (map JStr (ak_Groups k)))] @
     (if ak_Scopes k = [] then [] else [(''scopes'', JList (map JStr (ak_Scopes k)))]) @
     omitNone ''expiresAt'' (ak_ExpiresAt k) @ [(''createdAt'', JNum (ak_CreatedAt k))] @
     omitNone ''lastUsedAt'' (ak_LastUsedAt k) @ omitEmpty ''orgId'' (ak_OrgID k))"

definition org_fields :: "Org \<Rightarrow> (string \<times> jval) list" where
  "org_fields o' = [(''id'', JStr (o_ID o')), (''slug'', JStr (o_Slug o')), (''name'', JStr (o_Name o')),
     (''createdAt'', JNum (o_CreatedAt o')), (''updatedAt'', JNum (o_UpdatedAt o'))]"

definition member_json :: "OrgMember \<Rightarrow> jval" where
  "member_json m = JObj [(''user'', user_json (om_User m)), (''role'', JStr (om_Role m))]"

definition listing :: "string \<Rightarrow> jval list \<Rightarrow> reply" where
  "listing k vs = JSON 200 [(k, JList vs)]"

section \<open>Groups and members\<close>

definition adminListGroups :: "authn \<Rightarrow> request \<Rightarrow> env \<Rightarrow> reply \<times> env" where
  "adminListGroups A r = guarded A r (storeList ''could not list groups'' Groups
     (\<lambda>gs. listing ''groups'' (map (\<lambda>g. JObj (group_fields g)) gs)))"

definition adminCreateGroup :: "authn \<Rightarrow> request \<Rightarrow> env \<Rightarrow> reply \<times> env" where
  "adminCreateGroup A r = guarded A r (\<lambda>e.
     if rq_body r = None \<or> trim_space (field r ''Name'') = [] then (jerr 400 ''name required'', e)
     else case GroupByName (e_store e) (trim_space (field r ''Name'')) of
       Inr _ \<Rightarrow> (jerr 409 ''a group with that name already exists'', e)
     | Inl _ \<Rightarrow> storeVerb ''could not create group''
         (\<lambda>s. CreateGroup (e_now e) s (field r ''Name'') (field r ''Description'')) (\<lambda>g. JSON 200 (group_fields g)) e)"

definition adminDeleteGroup :: "authn \<Rightarrow> request \<Rightarrow> env \<Rightarrow> reply \<times> env" where
  "adminDeleteGroup A r = guarded A r (withParam r ''id'' (\<lambda>i.
     storeVerb ''could not delete group'' (\<lambda>s. DeleteGroup s i) (\<lambda>_. jok [])))"

definition adminAddMember :: "authn \<Rightarrow> request \<Rightarrow> env \<Rightarrow> reply \<times> env" where
  "adminAddMember A r = guarded A r (withParam r ''userId'' (\<lambda>u. withParam r ''id'' (\<lambda>g.
     storeVerb ''could not add member'' (\<lambda>s. AddUserToGroup s u g) (\<lambda>_. jok []))))"

definition adminRemoveMember :: "authn \<Rightarrow> request \<Rightarrow> env \<Rightarrow> reply \<times> env" where
  "adminRemoveMember A r = guarded A r (withParam r ''userId'' (\<lambda>u. withParam r ''id'' (\<lambda>g.
     storeVerb ''could not remove member'' (\<lambda>s. RemoveUserFromGroup s u g) (\<lambda>_. jok []))))"

definition adminGroupMembers :: "authn \<Rightarrow> request \<Rightarrow> env \<Rightarrow> reply \<times> env" where
  "adminGroupMembers A r = guarded A r (withParam r ''id'' (\<lambda>i.
     storeList ''could not list members'' (\<lambda>s. GroupMembers s i) (\<lambda>us. listing ''members'' (map user_json us))))"

definition adminListUsers :: "authn \<Rightarrow> request \<Rightarrow> env \<Rightarrow> reply \<times> env" where
  "adminListUsers A r = guarded A r (storeList ''could not list users'' ListUsers
     (\<lambda>us. listing ''users'' (map user_json us)))"

text \<open>Sign a user out everywhere, when sessions are tracked and the user is known.\<close>

definition cutSessions :: "authn \<Rightarrow> AuthUser result \<Rightarrow> env \<Rightarrow> env" where
  "cutSessions A ru e = (case ru of
     Inl _ \<Rightarrow> e
   | Inr u \<Rightarrow> if a_sessions A then snd (op (\<lambda>s. RevokeAllForUser s (au_Sub u)) e) else e)"

definition adminSetDisabled :: "authn \<Rightarrow> request \<Rightarrow> env \<Rightarrow> reply \<times> env" where
  "adminSetDisabled A r = guarded A r (withParam r ''id'' (\<lambda>i e.
     let disabled = flag r ''Disabled'' in
     case op (\<lambda>s. SetUserDisabled s i disabled) e of
       (Inl _, e) \<Rightarrow> (jerr 500 ''could not update user'', e)
     | (Inr _, e) \<Rightarrow> (jok [(''disabled'', JBool disabled)],
         if disabled then cutSessions A (UserByID (e_store e) i) e else e)))"

section \<open>API keys\<close>

definition adminListKeys :: "authn \<Rightarrow> request \<Rightarrow> env \<Rightarrow> reply \<times> env" where
  "adminListKeys A r = guarded A r (storeList ''could not list API keys'' ListAPIKeys
     (\<lambda>ks. listing ''apiKeys'' (map key_json ks)))"

definition apiKeyPrefix :: string where "apiKeyPrefix = ''axk_''"

text \<open>The raw key, its shown prefix and its stored hash.\<close>

definition generateAPIKey :: "authn \<Rightarrow> env \<Rightarrow> (string \<times> string \<times> bytes) \<times> env" where
  "generateAPIKey A e = (case freshToken A e of (t, e) \<Rightarrow>
     let raw = apiKeyPrefix @ t
     in ((raw, if 12 < length raw then take 12 raw else raw, hashToken (a_lib A) raw), e))"

definition listField :: "request \<Rightarrow> string \<Rightarrow> string list" where
  "listField r k = (if rq_body r = None then [] else case map_of (rq_lists r) k of None \<Rightarrow> [] | Some l \<Rightarrow> l)"

definition adminCreateKey :: "authn \<Rightarrow> request \<Rightarrow> env \<Rightarrow> reply \<times> env" where
  "adminCreateKey A r = guarded A r (\<lambda>e.
     let name = field r ''Name''; groups = listField r ''Groups''; scopes = listField r ''Scopes'';
         exp = field r ''ExpiresAt''; target = trim_space (field r ''Org'') in
     if rq_body r = None \<or> trim_space name = [] then (jerr 400 ''name required'', e)
     else if exp \<noteq> [] \<and> c_parseTime (a_lib A) exp = None then (jerr 400 ''expiresAt must be RFC3339'', e)
     else
       let expires = (if exp = [] then None else c_parseTime (a_lib A) exp) in
       case generateAPIKey A e of (k, e) \<Rightarrow>
       let answer = (\<lambda>info. JSON 200 [(''key'', JStr (fst k)), (''apiKey'', key_json info)]) in
       if target \<noteq> [] then
         (if \<not> a_dir A \<or> \<not> a_orgs A
          then (jerr 501 (''org-bound API keys are not available (the stores don'' @ quote @ ''t support organizations)''), e)
          else case resolveOrg e target of
            Inl err \<Rightarrow> (if err = ErrNoOrg then jerr 404 ''no such organization''
                      else jerr 500 ''could not resolve organization'', e)
          | Inr org \<Rightarrow> storeVerb ''could not create API key''
              (\<lambda>s. CreateOrgAPIKey (e_now e) s (o_ID org) name groups scopes (fst (snd k)) (snd (snd k)) expires) answer e)
       else storeVerb ''could not create API key''
              (\<lambda>s. CreateAPIKey (e_now e) s name groups scopes (fst (snd k)) (snd (snd k)) expires) answer e)"

definition adminRevokeKey :: "authn \<Rightarrow> request \<Rightarrow> env \<Rightarrow> reply \<times> env" where
  "adminRevokeKey A r = guarded A r (withParam r ''id'' (\<lambda>i.
     storeVerb ''could not revoke API key'' (\<lambda>s. RevokeAPIKey s i) (\<lambda>_. jok [])))"

section \<open>Users\<close>

definition noCreds :: reply where "noCreds = jerr 501 ''local credential store not configured''"

text \<open>A password that cannot be set rolls the new account back.\<close>

definition createUserRest :: "authn \<Rightarrow> request \<Rightarrow> AuthUser \<Rightarrow> env \<Rightarrow> reply \<times> env" where
  "createUserRest A r u e =
     (case (if field r ''Password'' \<noteq> [] then setNewPassword A (au_ID u) (field r ''Password'') e else (True, e)) of
        (False, e) \<Rightarrow> (jerr 500 (''could not set the user'' @ quote @ ''s password''), snd (op (\<lambda>s. DeleteUser s (au_ID u)) e))
      | (True, e) \<Rightarrow>
          if flag r ''EmailVerified'' then
            (case op (\<lambda>s. SetEmailVerified (e_now e) s (au_ID u) True) e of
               (Inl _, e) \<Rightarrow> (jerr 500 ''user created but could not be verified'', e)
             | (Inr _, e) \<Rightarrow> (jok [(''user'', user_json (u\<lparr>au_EmailVerified := True\<rparr>))], e))
          else (jok [(''user'', user_json u)], e))"

definition adminCreateUser :: "authn \<Rightarrow> request \<Rightarrow> env \<Rightarrow> reply \<times> env" where
  "adminCreateUser A r = guarded A r (\<lambda>e.
     if \<not> a_creds A then (noCreds, e)
     else let email = norm (field r ''Email'') in
     if rq_body r = None \<or> \<not> validEmail email then (jerr 400 ''a valid email is required'', e)
     else let msg = (if field r ''Password'' \<noteq> [] then passwordPolicyError A (field r ''Password'') email else []) in
     if msg \<noteq> [] then (jerr 400 msg, e)
     else case freshToken A e of (sub, e) \<Rightarrow>
       case op (\<lambda>s. CreateLocalUser (e_now e) sub s email (trim_space (field r ''Name''))) e of
         (Inl err, e) \<Rightarrow> (if err = ErrEmailConflict then jerr 409 ''an account already exists for this email''
                        else jerr 500 ''could not create user'', e)
       | (Inr u, e) \<Rightarrow> createUserRest A r u e)"

definition adminSetPassword :: "authn \<Rightarrow> request \<Rightarrow> env \<Rightarrow> reply \<times> env" where
  "adminSetPassword A r = guarded A r (\<lambda>e.
     if \<not> a_creds A then (noCreds, e)
     else withParam r ''id'' (\<lambda>i e. case UserByID (e_store e) i of
         Inl _ \<Rightarrow> (jerr 404 ''no such user'', e)
       | Inr u \<Rightarrow>
           let msg = passwordPolicyError A (field r ''Password'') (au_Email u) in
           if msg \<noteq> [] then (jerr 400 msg, e)
           else case setNewPassword A i (field r ''Password'') e of
             (False, e) \<Rightarrow> (jerr 500 ''could not set password'', e)
           | (True, e) \<Rightarrow> (jok [], doAudit i (au_Email u) True e)) e)"

definition adminDeleteUser :: "authn \<Rightarrow> request \<Rightarrow> env \<Rightarrow> reply \<times> env" where
  "adminDeleteUser A r = guarded A r (\<lambda>e.
     if \<not> a_creds A then (noCreds, e)
     else withParam r ''id'' (\<lambda>i e.
       let ru = UserByID (e_store e) i in
       case op (\<lambda>s. DeleteUser s i) e of
         (Inl _, e) \<Rightarrow> (jerr 500 ''could not delete user'', e)
       | (Inr _, e) \<Rightarrow> (jok [], cutSessions A ru e)) e)"

definition adminSetBan :: "authn \<Rightarrow> request \<Rightarrow> env \<Rightarrow> reply \<times> env" where
  "adminSetBan A r = guarded A r (withParam r ''id'' (\<lambda>i e.
     let banned = flag r ''Banned''; reason = trim_space (field r ''Reason''); un = field r ''Until'' in
     if un \<noteq> [] \<and> c_parseTime (a_lib A) un = None then (jerr 400 ''until must be RFC3339'', e)
     else case op (\<lambda>s. SetUserBan s i banned (if un = [] then None else c_parseTime (a_lib A) un) reason) e of
       (Inl _, e) \<Rightarrow> (jerr 500 ''could not update ban'', e)
     | (Inr _, e) \<Rightarrow>
         let ru = UserByID (e_store e) i;
             e = (if a_creds A then doAudit i (case ru of Inl _ \<Rightarrow> [] | Inr u \<Rightarrow> au_Email u) True e else e)
         in (jok [(''banned'', JBool banned)], if banned then cutSessions A ru e else e)))"

definition impersonationTTL :: int where "impersonationTTL = 30 * minute"

text \<open>The actor an impersonation is charged to: the session's subject, or the API key.\<close>

definition impersonator :: "authn \<Rightarrow> request \<Rightarrow> env \<Rightarrow> string \<times> env" where
  "impersonator A r e = (case sessionOf A r e of
     Some sc \<Rightarrow> (sc_Subject sc, e)
   | None \<Rightarrow>
       let key = bearerToken (header r ''Authorization'') in
       if key = [] then ([], e)
       else case ValidateAPIKey A key e of (oinfo, e) \<Rightarrow>
         (case oinfo of None \<Rightarrow> [] | Some info \<Rightarrow> ''apikey:'' @ ak_ID info, e))"

definition adminImpersonate :: "authn \<Rightarrow> request \<Rightarrow> env \<Rightarrow> reply \<times> env" where
  "adminImpersonate A r = guarded A r (withParam r ''id'' (\<lambda>i e. case UserByID (e_store e) i of
       Inl _ \<Rightarrow> (jerr 404 ''no such user'', e)
     | Inr target \<Rightarrow> (case impersonator A r e of (adminSub, e) \<Rightarrow>
         if adminSub = [] then (jerr 403 ''impersonation requires an identifiable admin actor'', e)
         else
           let groups = (case UserGroups (e_store e) i of Inl _ \<Rightarrow> [] | Inr gs \<Rightarrow> groupNames (globalGroups gs));
               org = (if a_orgs A then defaultOrgClaims A i e else ([], []))
           in case openSession A r ((base_claims (au_Email target) (au_Name target) groups [] [] org)
                       \<lparr>sc_ImpersonatedBy := adminSub\<rparr>) (au_Sub target) i impersonationTTL e of
                (Inl _, e) \<Rightarrow> (jerr 500 ''could not impersonate'', e)
              | (Inr _, e) \<Rightarrow> (jok [(''impersonating'', JStr (au_Email target))],
                  if a_creds A then doAudit i (au_Email target) True e else e))))"

definition StopImpersonating :: "authn \<Rightarrow> request \<Rightarrow> env \<Rightarrow> reply \<times> env" where
  "StopImpersonating A r e = (case sessionOf A r e of
     None \<Rightarrow> (jerr 400 ''not impersonating'', e)
   | Some sc \<Rightarrow>
       if sc_ImpersonatedBy sc = [] then (jerr 400 ''not impersonating'', e)
       else
         let e = (if sc_SID sc \<noteq> [] \<and> a_sessions A then snd (op (\<lambda>s. RevokeSession s (sc_SID sc)) e) else e);
             e = (if a_creds A then doAudit [] (sc_Email sc) True e else e)
         in (jok [], clearCookie csrfCookie (clearCookie sessionCookie e)))"

definition noSessions :: reply where "noSessions = jerr 501 ''session management not available''"

definition adminListUserSessions :: "authn \<Rightarrow> request \<Rightarrow> env \<Rightarrow> reply \<times> env" where
  "adminListUserSessions A r = guarded A r (\<lambda>e.
     if \<not> a_sessions A then (noSessions, e)
     else withParam r ''id'' (\<lambda>i e. case UserByID (e_store e) i of
         Inl _ \<Rightarrow> (jerr 404 ''no such user'', e)
       | Inr u \<Rightarrow> storeList ''could not list sessions'' (\<lambda>s. ListSessionsForUser (e_now e) s (au_Sub u))
           (\<lambda>recs. listing ''sessions'' (map session_json recs)) e) e)"

definition adminRevokeUserSessions :: "authn \<Rightarrow> request \<Rightarrow> env \<Rightarrow> reply \<times> env" where
  "adminRevokeUserSessions A r = guarded A r (\<lambda>e.
     if \<not> a_sessions A then (noSessions, e)
     else withParam r ''id'' (\<lambda>i e. case UserByID (e_store e) i of
         Inl _ \<Rightarrow> (jerr 404 ''no such user'', e)
       | Inr u \<Rightarrow> storeVerb ''could not revoke sessions'' (\<lambda>s. RevokeAllForUser s (au_Sub u)) (\<lambda>_. jok []) e) e)"

section \<open>Organizations\<close>

definition noSuchOrg :: reply where "noSuchOrg = jerr 404 ''no such organization''"

definition orgNotFoundOr :: "string \<Rightarrow> error \<Rightarrow> reply" where
  "orgNotFoundOr failure err = (if err = ErrNoOrg then noSuchOrg else jerr 500 failure)"

definition badOrgName :: reply where
  "badOrgName = jerr 400 (''name must be 1'' @ en_dash @ ''128 characters'')"

definition adminListOrgs :: "authn \<Rightarrow> request \<Rightarrow> env \<Rightarrow> reply \<times> env" where
  "adminListOrgs A r = guarded A r (storeList ''could not list organizations'' Orgs
     (\<lambda>os. listing ''orgs'' (map (\<lambda>o'. JObj (org_fields o')) os)))"

definition adminCreateOrg :: "authn \<Rightarrow> request \<Rightarrow> env \<Rightarrow> reply \<times> env" where
  "adminCreateOrg A r = guarded A r (\<lambda>e.
     let slug = to_lower (trim_space (field r ''Slug'')); name = trim_space (field r ''Name'') in
     if rq_body r = None then (jerr 400 ''invalid request'', e)
     else if \<not> validOrgSlug slug
     then (jerr 400 (''slug must be 1'' @ en_dash @ ''63 chars of a-z, 0-9 or '' @ quote @ ''-'' @ quote @
             '', not starting/ending with '' @ quote @ ''-'' @ quote), e)
     else if name = [] \<or> 128 < length name then (badOrgName, e)
     else case OrgBySlug (e_store e) slug of
       Inr _ \<Rightarrow> (jerr 409 ''an organization with that slug already exists'', e)
     | Inl _ \<Rightarrow> storeVerb ''could not create organization'' (\<lambda>s. CreateOrg (e_now e) s slug name)
         (\<lambda>o'. JSON 200 (org_fields o')) e)"

definition adminRenameOrg :: "authn \<Rightarrow> request \<Rightarrow> env \<Rightarrow> reply \<times> env" where
  "adminRenameOrg A r = guarded A r (withParam r ''id'' (\<lambda>i e.
     let name = trim_space (field r ''Name'') in
     if name = [] \<or> 128 < length name then (badOrgName, e)
     else case op (\<lambda>s. RenameOrg (e_now e) s i name) e of
       (Inl err, e) \<Rightarrow> (orgNotFoundOr ''could not rename organization'' err, e)
     | (Inr _, e) \<Rightarrow> (jok [(''name'', JStr name)], e)))"

definition adminDeleteOrg :: "authn \<Rightarrow> request \<Rightarrow> env \<Rightarrow> reply \<times> env" where
  "adminDeleteOrg A r = guarded A r (withParam r ''id'' (\<lambda>i.
     storeVerb ''could not delete organization'' (\<lambda>s. DeleteOrg s i) (\<lambda>_. jok [])))"

definition adminOrgMembers :: "authn \<Rightarrow> request \<Rightarrow> env \<Rightarrow> reply \<times> env" where
  "adminOrgMembers A r = guarded A r (withParam r ''id'' (\<lambda>i e. case OrgMembers (e_store e) i of
       Inl err \<Rightarrow> (orgNotFoundOr ''could not list members'' err, e)
     | Inr ms \<Rightarrow> (listing ''members'' (map member_json ms), e)))"

definition adminSetOrgMember :: "authn \<Rightarrow> request \<Rightarrow> env \<Rightarrow> reply \<times> env" where
  "adminSetOrgMember A r = guarded A r (withParam r ''id'' (\<lambda>i. withParam r ''userId'' (\<lambda>u e.
     case normOrgRole (field r ''Role'') OrgRoleMember of
       None \<Rightarrow> (badRole, e)
     | Some role \<Rightarrow> (case op (\<lambda>s. SetOrgMember s i u role) e of
         (Inl err, e) \<Rightarrow> (if err = ErrNoUser then jerr 404 ''no such user''
                        else orgNotFoundOr ''could not set member'' err, e)
       | (Inr _, e) \<Rightarrow> (jok [(''role'', JStr role)], e)))))"

definition adminRemoveOrgMember :: "authn \<Rightarrow> request \<Rightarrow> env \<Rightarrow> reply \<times> env" where
  "adminRemoveOrgMember A r = guarded A r (withParam r ''id'' (\<lambda>i. withParam r ''userId'' (\<lambda>u.
     storeVerb ''could not remove member'' (\<lambda>s. RemoveOrgMember s i u) (\<lambda>_. jok []))))"

section \<open>Groups of an organization\<close>

definition adminOrgDir :: "authn \<Rightarrow> (env \<Rightarrow> reply \<times> env) \<Rightarrow> env \<Rightarrow> reply \<times> env" where
  "adminOrgDir A k e =
     (if \<not> a_dir A then (jerr 501 (''org-scoped groups are not available (the directory store doesn'' @ quote @
        ''t support them)''), e) else k e)"

definition orgGroupInOrg :: "request \<Rightarrow> string \<Rightarrow> (string \<Rightarrow> env \<Rightarrow> reply \<times> env) \<Rightarrow> env \<Rightarrow> reply \<times> env" where
  "orgGroupInOrg r orgID k = withParam r ''groupId'' (\<lambda>gid e. case OrgOfGroup (e_store e) gid of
       Inl err \<Rightarrow> (if err = ErrNoGroup then jerr 404 ''no such group in this organization''
                 else jerr 500 ''could not resolve group'', e)
     | Inr owner \<Rightarrow>
         if owner \<noteq> orgID then (jerr 404 ''no such group in this organization'', e) else k gid e)"

definition adminOrgGroups :: "authn \<Rightarrow> request \<Rightarrow> env \<Rightarrow> reply \<times> env" where
  "adminOrgGroups A r = guarded A r (adminOrgDir A (withParam r ''id'' (\<lambda>i.
     storeList ''could not list groups'' (\<lambda>s. OrgGroups s i)
       (\<lambda>gs. listing ''groups'' (map (\<lambda>g. JObj (group_fields g)) gs)))))"

definition adminCreateOrgGroup :: "authn \<Rightarrow> request \<Rightarrow> env \<Rightarrow> reply \<times> env" where
  "adminCreateOrgGroup A r = guarded A r (adminOrgDir A (withParam r ''id'' (\<lambda>i e.
     let name = trim_space (field r ''Name'') in
     if a_orgs A \<and> (case OrgByID (e_store e) i of Inl _ \<Rightarrow> True | Inr _ \<Rightarrow> False) then (noSuchOrg, e)
     else if rq_body r = None \<or> name = [] then (jerr 400 ''name required'', e)
     else case OrgGroupByName (e_store e) i name of
       Inr _ \<Rightarrow> (jerr 409 ''a group with that name already exists in this organization'', e)
     | Inl _ \<Rightarrow> storeVerb ''could not create group''
         (\<lambda>s. CreateOrgGroup (e_now e) s i name (field r ''Description'')) (\<lambda>g. JSON 200 (group_fields g)) e)))"

definition adminDeleteOrgGroup :: "authn \<Rightarrow> request \<Rightarrow> env \<Rightarrow> reply \<times> env" where
  "adminDeleteOrgGroup A r = guarded A r (adminOrgDir A (withParam r ''id'' (\<lambda>i. orgGroupInOrg r i (\<lambda>g.
     storeVerb ''could not delete group'' (\<lambda>s. DeleteGroup s g) (\<lambda>_. jok [])))))"

definition adminOrgGroupMembers :: "authn \<Rightarrow> request \<Rightarrow> env \<Rightarrow> reply \<times> env" where
  "adminOrgGroupMembers A r = guarded A r (adminOrgDir A (withParam r ''id'' (\<lambda>i. orgGroupInOrg r i (\<lambda>g.
     storeList ''could not list members'' (\<lambda>s. GroupMembers s g) (\<lambda>us. listing ''members'' (map user_json us))))))"

definition adminAddOrgGroupMember :: "authn \<Rightarrow> request \<Rightarrow> env \<Rightarrow> reply \<times> env" where
  "adminAddOrgGroupMember A r = guarded A r (adminOrgDir A (withParam r ''id'' (\<lambda>i. orgGroupInOrg r i (\<lambda>g.
     withParam r ''userId'' (\<lambda>u e.
       if a_orgs A \<and> (case OrgRole (e_store e) i u of Inl _ \<Rightarrow> True | Inr _ \<Rightarrow> False)
       then (jerr 409 ''that user is not a member of this organization'', e)
       else storeVerb ''could not add member'' (\<lambda>s. AddUserToGroup s u g) (\<lambda>_. jok []) e)))))"

definition adminRemoveOrgGroupMember :: "authn \<Rightarrow> request \<Rightarrow> env \<Rightarrow> reply \<times> env" where
  "adminRemoveOrgGroupMember A r = guarded A r (adminOrgDir A (withParam r ''id'' (\<lambda>i. orgGroupInOrg r i (\<lambda>g.
     withParam r ''userId'' (\<lambda>u.
       storeVerb ''could not remove member'' (\<lambda>s. RemoveUserFromGroup s u g) (\<lambda>_. jok []))))))"

end
