(* ===== verification/EngineLaws.thy ===== *)
theory EngineLaws
  imports OidcFlows AdminFlows SessionLaws
begin

text \<open>
  What every handler keeps: an invariant of the environment that survives the methods of the
  stores survives the handlers, which reach the stores only through those methods. The locale
  \<open>env_invariant\<close> holds one rule per effect, so the proof for a handler follows its text; it is
  interpreted on the total invariant of the stores, and on being reached by a trace of the stores'
  methods, which carries the laws over all histories to the handlers.
\<close>

section \<open>Fields\<close>

text \<open>The session cookies a response carries, clearings apart.\<close>

definition sess_cookies :: "env \<Rightarrow> setcookie list" where
  "sess_cookies e = filter (\<lambda>c. ck_name c = sessionCookie \<and> 0 \<le> ck_maxAge c) (e_cookies e)"

lemma cookie_names [simp]:
  "flowCookie \<noteq> sessionCookie" "csrfCookie \<noteq> sessionCookie" "stepUpCookie \<noteq> sessionCookie"
  "twoFactorPendingCookie \<noteq> sessionCookie"
  by (simp_all add: sessionCookie_def flowCookie_def csrfCookie_def stepUpCookie_def twoFactorPendingCookie_def)

lemma sess_cookies_cong [simp]:
  "sess_cookies (e\<lparr>e_store := s\<rparr>) = sess_cookies e" "sess_cookies (e\<lparr>e_rand := n\<rparr>) = sess_cookies e"
  "sess_cookies (e\<lparr>e_jobs := js\<rparr>) = sess_cookies e" "sess_cookies (e\<lparr>e_ip := l\<rparr>) = sess_cookies e"
  "sess_cookies (e\<lparr>e_acct := l\<rparr>) = sess_cookies e" "sess_cookies (e\<lparr>e_mail := ms\<rparr>) = sess_cookies e"
  "sess_cookies (e\<lparr>e_now := t\<rparr>) = sess_cookies e" "sess_cookies (e\<lparr>e_cookies := []\<rparr>) = []"
  by (simp_all add: sess_cookies_def)

lemma sess_cookies_setCookie:
  "sess_cookies (setCookie n v a e) = sess_cookies e @
     (if n = sessionCookie \<and> 0 \<le> a then [\<lparr>ck_name = n, ck_value = v, ck_maxAge = a\<rparr>] else [])"
  by (simp add: setCookie_def sess_cookies_def)

text \<open>What the effects other than the stores' methods change: nothing an invariant sees.\<close>

definition quiet :: "env \<Rightarrow> env \<Rightarrow> bool" where
  "quiet e e' \<longleftrightarrow> e_store e' = e_store e \<and> e_now e' = e_now e \<and> e_rand e \<le> e_rand e' \<and> sess_cookies e' = sess_cookies e"

lemma quiet_effects:
  "n \<noteq> sessionCookie \<or> a < 0 \<Longrightarrow> quiet e (setCookie n v a e)" "quiet e (clearCookie n e)" "quiet e (issueCSRF A e)"
  "quiet e (snd (freshToken A e))" "quiet e (snd (allowIP k e))" "quiet e (snd (allowAcct k e))"
  "quiet e (sendAuthEmail A t m l e)" "quiet e (setStepUpCookie A sub e)" "quiet e (snd (hashPassword A pw e))"
  "quiet e (snd (newSessionID A e))" "quiet e (e\<lparr>e_rand := Suc (e_rand e)\<rparr>)" "quiet e (e\<lparr>e_rand := e_rand e + k'\<rparr>)"
  "quiet e (e\<lparr>e_jobs := js\<rparr>)"
  by (auto simp: quiet_def clearCookie_def issueCSRF_def freshToken_def allowIP_def allowAcct_def
      sendAuthEmail_def setStepUpCookie_def hashPassword_def newSessionID_def sess_cookies_setCookie setCookie_def
      split: prod.split option.split)
    (auto simp: sess_cookies_def)

lemma quiet_fields:
  "quiet e e' \<Longrightarrow> e_store e' = e_store e" "quiet e e' \<Longrightarrow> e_now e' = e_now e"
  by (simp_all add: quiet_def)

lemma env_fields [simp]:
  "e_store (setCookie n v a e) = e_store e" "e_now (setCookie n v a e) = e_now e" "e_rand (setCookie n v a e) = e_rand e"
  "e_store (clearCookie n e) = e_store e" "e_now (clearCookie n e) = e_now e" "e_rand (clearCookie n e) = e_rand e"
  "e_store (issueCSRF A e) = e_store e" "e_now (issueCSRF A e) = e_now e" "e_rand (issueCSRF A e) = Suc (e_rand e)"
  "e_store (snd (freshToken A e)) = e_store e" "e_now (snd (freshToken A e)) = e_now e"
  "e_store (snd (allowIP k e)) = e_store e" "e_now (snd (allowIP k e)) = e_now e"
  "e_store (snd (allowAcct k e)) = e_store e" "e_now (snd (allowAcct k e)) = e_now e"
  "e_store (sendAuthEmail A t m l e) = e_store e" "e_now (sendAuthEmail A t m l e) = e_now e"
  "e_store (setStepUpCookie A sub e) = e_store e" "e_now (setStepUpCookie A sub e) = e_now e"
  "e_store (snd (hashPassword A pw e)) = e_store e" "e_now (snd (hashPassword A pw e)) = e_now e"
  "e_store (snd (newSessionID A e)) = e_store e" "e_now (snd (newSessionID A e)) = e_now e"
  by (simp_all add: setCookie_def clearCookie_def issueCSRF_def freshToken_def allowIP_def allowAcct_def
      sendAuthEmail_def setStepUpCookie_def hashPassword_def newSessionID_def split: prod.split option.split)

lemma env_op [simp]:
  "e_store (snd (op f e)) = snd (f (e_store e))" "fst (op f e) = fst (f (e_store e))"
  "e_now (snd (op f e)) = e_now e" "e_cookies (snd (op f e)) = e_cookies e" "e_rand (snd (op f e)) = e_rand e"
  "sess_cookies (snd (op f e)) = sess_cookies e"
  by (simp_all add: op_def split: prod.split)

lemma env_audit [simp]:
  "e_store (doAudit u m b e) = RecordAudit (e_now e) (e_store e) u m b" "e_now (doAudit u m b e) = e_now e"
  "e_cookies (doAudit u m b e) = e_cookies e" "e_rand (doAudit u m b e) = e_rand e"
  "sess_cookies (doAudit u m b e) = sess_cookies e"
  by (simp_all add: doAudit_def)

lemma allow_same:
  "allowIP k e = (ok, e') \<Longrightarrow> e_store e' = e_store e \<and> e_now e' = e_now e \<and> e_rand e' = e_rand e"
  "allowAcct k e = (ok, e') \<Longrightarrow> e_store e' = e_store e \<and> e_now e' = e_now e \<and> e_rand e' = e_rand e"
  by (auto simp: allowIP_def allowAcct_def split: prod.splits)

section \<open>The methods the handlers call are steps of the stores\<close>

text \<open>A call that records no session; recording one is the matter of \<open>openSession\<close> alone.\<close>

definition steps_to :: "store \<Rightarrow> store \<Rightarrow> bool" where
  "steps_to s s' \<longleftrightarrow> (\<exists>ev. mem_step s ev s' \<and> (\<forall>sid. ev \<noteq> SessionRecorded sid))"

lemma steps_to_parts:
  "cred_step s ev s' \<Longrightarrow> steps_to s s'" "dir_step s ev s' \<Longrightarrow> steps_to s s'"
  "tfa_step s ev s' \<Longrightarrow> (\<And>sid. ev \<noteq> SessionRecorded sid) \<Longrightarrow> steps_to s s'"
  using cred_step_events dir_step_events unfolding steps_to_def mem_step_def by blast+

named_theorems store_calls \<open>a method of the stores is a step\<close>

lemma cred_calls [store_calls]:
  "findBySub s (''local:'' @ rid) = None \<Longrightarrow> steps_to s (snd (CreateLocalUser now rid s e nm))"
  "steps_to s (snd (SetEmailVerified now s u v))" "steps_to s (snd (SetEmail now s u e))"
  "steps_to s (snd (RemovePasskey s u i))" "steps_to s (snd (RenamePasskey s u i nm))"
  "steps_to s (snd (SetPasswordHash s u h a))" "steps_to s (snd (UnlinkOAuth s u prov))"
  "steps_to s (snd (CreateToken s p u e h t))" "steps_to s (snd (CreateEmailOTP s p e h t m))"
  "steps_to s (RecordAudit now s u e b)" "steps_to s (snd (DeleteUser s u))"
  "steps_to s (snd (Authorize now s idn))"
  by (blast intro: steps_to_parts(1) cred_step.intros)+

lemma dir_calls [store_calls]:
  "steps_to s (snd (TouchAPIKey now s i))" "steps_to s (snd (CreateGroup now s nm d))" "steps_to s (snd (DeleteGroup s i))"
  "steps_to s (snd (AddUserToGroup s u g))" "steps_to s (snd (RemoveUserFromGroup s u g))"
  "steps_to s (snd (SetUserDisabled s u b))" "steps_to s (snd (SetUserBan s u b un rs))"
  "steps_to s (snd (CreateAPIKey now s nm gs sc p h t))" "steps_to s (snd (RevokeAPIKey s i))"
  "steps_to s (snd (CreateOrg now s sl nm))" "steps_to s (snd (RenameOrg now s i nm))" "steps_to s (snd (DeleteOrg s i))"
  "steps_to s (snd (SetOrgMember s i u ro))" "steps_to s (snd (RemoveOrgMember s i u))"
  "steps_to s (snd (CreateOrgInvite now s i e ro by1 h t2))" "steps_to s (snd (RevokeOrgInvite s i j))"
  "steps_to s (snd (CreateOrgGroup now s i nm d))" "steps_to s (snd (CreateOrgAPIKey now s i nm gs sc p h t))"
  by (blast intro: steps_to_parts(2) dir_step.intros)+

lemma tfa_calls [store_calls]:
  "steps_to s (snd (RevokeSession s sid))" "steps_to s (snd (RevokeAllForUser s sub))" "steps_to s (snd (EnableTOTP s u))"
  "steps_to s (snd (DisableTOTP s u))"
  by (blast intro: steps_to_parts(3) tfa_step.intros)+

lemma branching_calls [store_calls]:
  "steps_to s (snd (ConsumeToken now s p h))" "steps_to s (snd (VerifyEmailOTP now s p e h))"
  "steps_to s (snd (SetTOTPSecret s u sec))" "steps_to s (snd (SetTOTPLastStep s u w))"
  "steps_to s (snd (ClaimTOTPStep s u w))" "steps_to s (snd (ReplaceRecoveryCodes s u hs))"
  "steps_to s (snd (ConsumeRecoveryCode s u h))" "steps_to s (snd (ConsumeOrgInvite now s h))"
proof -
  show "steps_to s (snd (ConsumeToken now s p h))"
    by (cases "fst (ConsumeToken now s p h)")
      (metis steps_to_parts(1) cred_step.ConsumeToken_Err prod.collapse,
       metis steps_to_parts(1) cred_step.ConsumeToken_Ok prod.collapse)
  show "steps_to s (snd (ConsumeOrgInvite now s h))"
    by (cases "fst (ConsumeOrgInvite now s h)")
      (metis steps_to_parts(2) dir_step.ConsumeOrgInvite_Err prod.collapse,
       metis steps_to_parts(2) dir_step.ConsumeOrgInvite_Ok prod.collapse)
  show "steps_to s (snd (VerifyEmailOTP now s p e h))"
  proof (cases "case mget (st_otps s) (otp_key p e) of None \<Rightarrow> True | Some oo \<Rightarrow> e_expiresAt oo < now")
    case True
    then show ?thesis by (blast intro: steps_to_parts(1) cred_step.VerifyEmailOTP_dead)
  next
    case False
    then obtain oo where "mget (st_otps s) (otp_key p e) = Some oo" "now \<le> e_expiresAt oo"
      by (auto split: option.splits)
    then show ?thesis by (blast intro: steps_to_parts(1) cred_step.VerifyEmailOTP [OF _ _ surjective_pairing])
  qed
  show "steps_to s (snd (SetTOTPSecret s u sec))" "steps_to s (snd (SetTOTPLastStep s u w))"
    "steps_to s (snd (ReplaceRecoveryCodes s u hs))"
    by (cases "parseID u"; blast intro: steps_to_parts(3) tfa_step.intros)+
  show "steps_to s (snd (ClaimTOTPStep s u w))"
  proof (cases "fst (ClaimTOTPStep s u w) = Ok True")
    case True
    then obtain n where "parseID u = Some n" by (auto simp: ClaimTOTPStep_def split: option.splits if_splits)
    with True have "tfa_step s (StepClaimed n w) (snd (ClaimTOTPStep s u w))"
      by (metis tfa_step.ClaimTOTPStep_True prod.collapse)
    then show ?thesis by (rule steps_to_parts(3)) simp
  next
    case False
    then have "tfa_step s Silent (snd (ClaimTOTPStep s u w))" by (metis tfa_step.ClaimTOTPStep_False prod.collapse)
    then show ?thesis by (rule steps_to_parts(3)) simp
  qed
  show "steps_to s (snd (ConsumeRecoveryCode s u h))"
  proof (cases "fst (ConsumeRecoveryCode s u h) = Ok True")
    case True
    then obtain n where "parseID u = Some n" by (auto simp: ConsumeRecoveryCode_def Let_def split: option.splits if_splits)
    with True have "tfa_step s (RecoveryUsed n h) (snd (ConsumeRecoveryCode s u h))"
      by (metis tfa_step.ConsumeRecoveryCode_True prod.collapse)
    then show ?thesis by (rule steps_to_parts(3)) simp
  next
    case False
    then have "tfa_step s Silent (snd (ConsumeRecoveryCode s u h))" by (metis tfa_step.ConsumeRecoveryCode_False prod.collapse)
    then show ?thesis by (rule steps_to_parts(3)) simp
  qed
qed

text \<open>The authorizers the laws cover: none, or the reference one of the stores.\<close>

definition store_authorizer :: "authn \<Rightarrow> bool" where
  "store_authorizer A \<longleftrightarrow> (case a_authorizer A of None \<Rightarrow> True | Some z \<Rightarrow> z = memAuthorizer)"

lemma memAuthorizer_call [store_calls]: "steps_to s (snd (memAuthorizer now s i))"
proof -
  have "snd (memAuthorizer now s i) = snd (Authorize now s i)"
    by (simp add: memAuthorizer_def split: prod.split sum.split)
  then show ?thesis using cred_calls(12) by simp
qed

text \<open>The random subject of a new local account is unused: it is 128 random bits.\<close>

definition fresh_subject :: "authn \<Rightarrow> env \<Rightarrow> bool" where
  "fresh_subject A e \<longleftrightarrow> (\<forall>k \<ge> e_rand e. findBySub (e_store e) (''local:'' @ randToken (a_lib A) k) = None)"

section \<open>Invariants of the environment\<close>

text \<open>
  \<open>env_effects\<close> is an invariant that survives everything but the opening of a session; all handlers
  that open none keep it. \<open>env_invariant\<close> survives the opening of sessions too.
\<close>

locale env_effects =
  fixes P :: "env \<Rightarrow> bool"
  assumes step: "P e \<Longrightarrow> steps_to (e_store e) (e_store e') \<Longrightarrow> e_now e' = e_now e \<Longrightarrow> e_rand e \<le> e_rand e' \<Longrightarrow>
      sess_cookies e' = sess_cookies e \<Longrightarrow> P e'"
    and same: "P e \<Longrightarrow> quiet e e' \<Longrightarrow> P e'"
begin

text \<open>\<open>keeps p\<close>: the environment in the outcome of a handler satisfies the invariant.\<close>

definition keeps :: "'x \<times> env \<Rightarrow> bool" where "keeps p \<longleftrightarrow> P (snd p)"

lemma keeps_ret: "P e \<Longrightarrow> keeps (x, e)"
  by (simp add: keeps_def)

lemma keeps_bind: "keeps p \<Longrightarrow> (\<And>x e. P e \<Longrightarrow> keeps (f x e)) \<Longrightarrow> keeps (case p of (x, e) \<Rightarrow> f x e)"
  by (cases p) (simp add: keeps_def)

lemma keeps_cases:
  "(\<And>x. keeps (f x)) \<Longrightarrow> (\<And>y. keeps (g y)) \<Longrightarrow> keeps (case z of Inl x \<Rightarrow> f x | Inr y \<Rightarrow> g y)"
  "keeps p \<Longrightarrow> (\<And>x. keeps (h x)) \<Longrightarrow> keeps (case oo of None \<Rightarrow> p | Some x \<Rightarrow> h x)"
  "keeps p \<Longrightarrow> keeps q \<Longrightarrow> keeps (if b then p else q)"
  "keeps p \<Longrightarrow> keeps q \<Longrightarrow> keeps (case b of True \<Rightarrow> p | False \<Rightarrow> q)"
  by (simp_all split: sum.split option.split bool.split)

text \<open>Pairs that carry no environment.\<close>

lemma keeps_pairs:
  fixes p :: "string \<times> string" and q :: "string list \<times> bytes list" and o1 :: "jval \<times> string \<times> jval list"
    and o2 :: "string \<times> jval list" and p3 :: "SessionClaims \<times> AuthUser" and p4 :: "SessionClaims \<times> AuthUser \<times> string"
    and p5 :: "AuthUser \<times> string"
  shows "(\<And>x y. keeps (f x y)) \<Longrightarrow> keeps (case p of (x, y) \<Rightarrow> f x y)"
    and "(\<And>x y. keeps (g x y)) \<Longrightarrow> keeps (case q of (x, y) \<Rightarrow> g x y)"
    and "(\<And>x y. keeps (h x y)) \<Longrightarrow> keeps (case o1 of (x, y) \<Rightarrow> h x y)"
    and "(\<And>x y. keeps (k x y)) \<Longrightarrow> keeps (case o2 of (x, y) \<Rightarrow> k x y)"
    and "(\<And>x y. keeps (k3 x y)) \<Longrightarrow> keeps (case p3 of (x, y) \<Rightarrow> k3 x y)"
    and "(\<And>x y. keeps (k4 x y)) \<Longrightarrow> keeps (case p4 of (x, y) \<Rightarrow> k4 x y)"
    and "(\<And>x y. keeps (k5 x y)) \<Longrightarrow> keeps (case p5 of (x, y) \<Rightarrow> k5 x y)"
  by (simp_all split: prod.split)

lemma keeps_let: "keeps (f a) \<Longrightarrow> keeps (let x = a in f x)"
  by simp

lemma keeps_op: "P e \<Longrightarrow> (\<And>s. steps_to s (snd (f s))) \<Longrightarrow> keeps (op f e)"
  unfolding keeps_def by (rule step [of e]) simp_all

lemma keeps_effects:
  "P e \<Longrightarrow> keeps (freshToken A e)" "P e \<Longrightarrow> keeps (allowIP k e)" "P e \<Longrightarrow> keeps (allowAcct k e)"
  "P e \<Longrightarrow> keeps (hashPassword A pw e)"
  unfolding keeps_def by (erule same, rule quiet_effects)+

lemma P_effects:
  "P e \<Longrightarrow> P (setCookie flowCookie v a e)" "P e \<Longrightarrow> P (setCookie twoFactorPendingCookie v a e)"
  "P e \<Longrightarrow> P (clearCookie n e)" "P e \<Longrightarrow> P (issueCSRF A e)"
  "P e \<Longrightarrow> P (sendAuthEmail A t m l e)" "P e \<Longrightarrow> P (setStepUpCookie A sub e)"
  "P e \<Longrightarrow> P (e\<lparr>e_rand := Suc (e_rand e)\<rparr>)" "P e \<Longrightarrow> P (e\<lparr>e_rand := e_rand e + k'\<rparr>)" "P e \<Longrightarrow> P (e\<lparr>e_jobs := js\<rparr>)"
  by (erule same, rule quiet_effects, simp?)+

lemma P_audit: "P e \<Longrightarrow> P (doAudit u m b e)"
  by (rule step [of e]) (simp_all add: store_calls)

lemma P_op: "P e \<Longrightarrow> (\<And>s. steps_to s (snd (f s))) \<Longrightarrow> P (snd (op f e))"
  by (rule step [of e]) simp_all

lemma P_if: "(b \<Longrightarrow> P e) \<Longrightarrow> (\<not> b \<Longrightarrow> P e') \<Longrightarrow> P (if b then e else e')"
  by simp

text \<open>The helpers that return the environment alone.\<close>

lemma P_mailToken: "P e \<Longrightarrow> P (mailToken A p t u m sj l e)"
proof -
  assume e: "P e"
  have "keeps (case freshToken A e of (raw, e) \<Rightarrow>
      case op (\<lambda>s. CreateToken s p u m (hashToken (a_lib A) raw) (e_now e + t)) e of
        (Inl _, e) \<Rightarrow> ((), e) | (Inr _, e) \<Rightarrow> ((), sendAuthEmail A m sj (l raw) e))"
    using e by (intro keeps_bind keeps_cases keeps_ret keeps_op keeps_effects P_effects store_calls)
  then show ?thesis
    by (simp add: keeps_def mailToken_def split: prod.splits sum.splits)
qed

lemma P_rehash: "P e \<Longrightarrow> P (rehash A u h pw e)"
proof -
  assume e: "P e"
  have h: "keeps (hashPassword A pw e)" using e by (rule keeps_effects)
  then show ?thesis
    using e unfolding rehash_def keeps_def
    by (auto split: prod.split option.split intro!: P_op store_calls)
qed

lemma P_cutSessions: "P e \<Longrightarrow> P (cutSessions A ru e)"
  unfolding cutSessions_def by (auto split: sum.split intro!: P_op store_calls)

lemma P_orgAudit: "P e \<Longrightarrow> P (orgAudit u e)"
  unfolding orgAudit_def by (rule P_audit)

lemmas keeps_rules = keeps_ret keeps_bind keeps_cases keeps_pairs keeps_let keeps_op keeps_effects P_effects P_audit
  P_op P_if P_mailToken P_rehash P_cutSessions P_orgAudit store_calls

end

section \<open>The handlers that open no session\<close>

context env_effects
begin

lemma keeps_parts:
  "P e \<Longrightarrow> keeps (verifySecondFactor A u info code e)"
  "P e \<Longrightarrow> keeps (setNewPassword A u pw e)"
  "P e \<Longrightarrow> keeps (signedIn fl r res e)"
  "P e \<Longrightarrow> keeps (ValidateAPIKey A raw e)"
  "P e \<Longrightarrow> keeps (grantInvited oid u role e)"
  unfolding verifySecondFactor_def setNewPassword_def signedIn_def ValidateAPIKey_def grantInvited_def
  by (intro keeps_rules; assumption)+

lemma P_verifyMail: "P e \<Longrightarrow> P (sendVerifyEmail A u m e)"
  unfolding sendVerifyEmail_def by (rule P_mailToken)

lemma keeps_signupFinish: "P e \<Longrightarrow> keeps (signupFinish A r m u e)"
  unfolding signupFinish_def by (intro keeps_rules keeps_parts P_verifyMail)

lemma keeps_revoke_others: "P e \<Longrightarrow> keeps (revoke_others cur ss e)"
proof (induction ss arbitrary: e)
  case (Cons s ss)
  then show ?case
    unfolding revoke_others.simps by (intro keeps_rules Cons.IH)
qed (simp add: keeps_def)

lemma keeps_SessionList: "P e \<Longrightarrow> keeps (SessionList A r e)"
  unfolding SessionList_def by (intro keeps_rules keeps_parts keeps_revoke_others P_verifyMail)

lemma keeps_SessionRevoke: "P e \<Longrightarrow> keeps (SessionRevoke A r e)"
  unfolding SessionRevoke_def by (intro keeps_rules keeps_parts keeps_revoke_others P_verifyMail)

lemma keeps_SessionRevokeOthers: "P e \<Longrightarrow> keeps (SessionRevokeOthers A r e)"
  unfolding SessionRevokeOthers_def by (intro keeps_rules keeps_parts keeps_revoke_others P_verifyMail)

lemma keeps_Logout: "P e \<Longrightarrow> keeps (Logout A r e)"
  unfolding Logout_def by (intro keeps_rules keeps_parts keeps_revoke_others P_verifyMail)

lemma keeps_Me: "P e \<Longrightarrow> keeps (Me A r e)"
  unfolding Me_def by (intro keeps_rules keeps_parts keeps_revoke_others P_verifyMail)

lemma keeps_TOTPBegin: "P e \<Longrightarrow> keeps (TOTPBegin A r e)"
  unfolding TOTPBegin_def by (intro keeps_rules keeps_parts keeps_revoke_others P_verifyMail)

lemma keeps_TOTPConfirm: "P e \<Longrightarrow> keeps (TOTPConfirm A r e)"
  unfolding TOTPConfirm_def by (intro keeps_rules keeps_parts keeps_revoke_others P_verifyMail)

lemma keeps_TOTPDisable: "P e \<Longrightarrow> keeps (TOTPDisable A r e)"
  unfolding TOTPDisable_def by (intro keeps_rules keeps_parts keeps_revoke_others P_verifyMail)

lemma keeps_TwoFactorPending: "P e \<Longrightarrow> keeps (TwoFactorPending A r e)"
  unfolding TwoFactorPending_def by (intro keeps_rules keeps_parts keeps_revoke_others P_verifyMail)

lemma keeps_ReAuth: "P e \<Longrightarrow> keeps (ReAuth A r e)"
  unfolding ReAuth_def by (intro keeps_rules keeps_parts keeps_revoke_others P_verifyMail)

lemma keeps_PasswordResetRequest: "P e \<Longrightarrow> keeps (PasswordResetRequest A r e)"
  unfolding PasswordResetRequest_def by (intro keeps_rules keeps_parts keeps_revoke_others P_verifyMail)

lemma keeps_PasswordResetConfirm: "P e \<Longrightarrow> keeps (PasswordResetConfirm A r e)"
  unfolding PasswordResetConfirm_def by (intro keeps_rules keeps_parts keeps_revoke_others P_verifyMail)

lemma keeps_EmailRequest: "P e \<Longrightarrow> keeps (EmailRequest A r e)"
  unfolding EmailRequest_def by (intro keeps_rules keeps_parts keeps_revoke_others P_verifyMail)

lemma keeps_EmailOTPSend: "P e \<Longrightarrow> keeps (EmailOTPSend A r e)"
  unfolding EmailOTPSend_def by (intro keeps_rules keeps_parts keeps_revoke_others P_verifyMail)

lemma keeps_AccountInfo: "P e \<Longrightarrow> keeps (AccountInfo A r e)"
  unfolding AccountInfo_def by (intro keeps_rules keeps_parts keeps_revoke_others P_verifyMail)

lemma keeps_AccountSetPassword: "P e \<Longrightarrow> keeps (AccountSetPassword A r e)"
  unfolding AccountSetPassword_def by (intro keeps_rules keeps_parts keeps_revoke_others P_verifyMail)

lemma keeps_PasskeyRemove: "P e \<Longrightarrow> keeps (PasskeyRemove A r e)"
  unfolding PasskeyRemove_def by (intro keeps_rules keeps_parts keeps_revoke_others P_verifyMail)

lemma keeps_PasskeyRename: "P e \<Longrightarrow> keeps (PasskeyRename A r e)"
  unfolding PasskeyRename_def by (intro keeps_rules keeps_parts keeps_revoke_others P_verifyMail)

lemma keeps_OAuthUnlink: "P e \<Longrightarrow> keeps (OAuthUnlink A r e)"
  unfolding OAuthUnlink_def by (intro keeps_rules keeps_parts keeps_revoke_others P_verifyMail)

lemma keeps_AccountDelete: "P e \<Longrightarrow> keeps (AccountDelete A r e)"
  unfolding AccountDelete_def by (intro keeps_rules keeps_parts keeps_revoke_others P_verifyMail)

lemma keeps_AccountChangeEmailRequest: "P e \<Longrightarrow> keeps (AccountChangeEmailRequest A r e)"
  unfolding AccountChangeEmailRequest_def by (intro keeps_rules keeps_parts keeps_revoke_others P_verifyMail)

lemma keeps_EmailChangeConfirm: "P e \<Longrightarrow> keeps (EmailChangeConfirm A r e)"
  unfolding EmailChangeConfirm_def by (intro keeps_rules keeps_parts keeps_revoke_others P_verifyMail)

lemma keeps_Login: "P e \<Longrightarrow> keeps (Login A r e)"
  unfolding Login_def by (intro keeps_rules keeps_parts keeps_revoke_others P_verifyMail)

lemma keeps_OrgList: "P e \<Longrightarrow> keeps (OrgList A r e)"
  unfolding OrgList_def by (intro keeps_rules keeps_parts keeps_revoke_others P_verifyMail)

lemma keeps_OrgMemberList: "P e \<Longrightarrow> keeps (OrgMemberList A r e)"
  unfolding OrgMemberList_def by (intro keeps_rules keeps_parts keeps_revoke_others P_verifyMail)

lemma keeps_OrgMemberSetRole: "P e \<Longrightarrow> keeps (OrgMemberSetRole A r e)"
  unfolding OrgMemberSetRole_def by (intro keeps_rules keeps_parts keeps_revoke_others P_verifyMail)

lemma keeps_OrgInviteCreate: "P e \<Longrightarrow> keeps (OrgInviteCreate A r e)"
  unfolding OrgInviteCreate_def by (intro keeps_rules keeps_parts keeps_revoke_others P_verifyMail)

lemma keeps_OrgInviteList: "P e \<Longrightarrow> keeps (OrgInviteList A r e)"
  unfolding OrgInviteList_def by (intro keeps_rules keeps_parts keeps_revoke_others P_verifyMail)

lemma keeps_OrgInviteRevoke: "P e \<Longrightarrow> keeps (OrgInviteRevoke A r e)"
  unfolding OrgInviteRevoke_def by (intro keeps_rules keeps_parts keeps_revoke_others P_verifyMail)

lemma keeps_StopImpersonating: "P e \<Longrightarrow> keeps (StopImpersonating A r e)"
  unfolding StopImpersonating_def by (intro keeps_rules keeps_parts keeps_revoke_others P_verifyMail)

text \<open>The combinators of the admin verbs.\<close>

lemma keeps_adminGuard: "P e \<Longrightarrow> keeps (adminGuard A r e)"
  unfolding adminGuard_def by (intro keeps_rules keeps_parts)

lemma keeps_admin:
  "P e \<Longrightarrow> (\<And>e. P e \<Longrightarrow> keeps (k e)) \<Longrightarrow> keeps (guarded A r k e)"
  "P e \<Longrightarrow> (\<And>i e. P e \<Longrightarrow> keeps (k' i e)) \<Longrightarrow> keeps (withParam r n k' e)"
  "P e \<Longrightarrow> (\<And>e. P e \<Longrightarrow> keeps (k e)) \<Longrightarrow> keeps (adminOrgDir A k e)"
  unfolding guarded_def withParam_def adminOrgDir_def by (intro keeps_rules keeps_adminGuard; simp)+

lemma keeps_groupIn: "P e \<Longrightarrow> (\<And>i e. P e \<Longrightarrow> keeps (k' i e)) \<Longrightarrow> keeps (orgGroupInOrg r oid k' e)"
  unfolding orgGroupInOrg_def by (intro keeps_rules keeps_admin; simp)

lemma keeps_store:
  "P e \<Longrightarrow> (\<And>s. steps_to s (snd (f s))) \<Longrightarrow> keeps (storeVerb fl f an e)"
  "P e \<Longrightarrow> keeps (storeList fl f' an' e)"
  unfolding storeVerb_def storeList_def by (intro keeps_rules; simp)+

lemma keeps_generate: "P e \<Longrightarrow> keeps (generateAPIKey A e)" "P e \<Longrightarrow> keeps (impersonator A r e)"
  unfolding generateAPIKey_def impersonator_def by (intro keeps_rules keeps_parts; assumption)+

lemma keeps_adminListGroups: "P e \<Longrightarrow> keeps (adminListGroups A r e)"
  unfolding adminListGroups_def by (intro keeps_admin keeps_groupIn keeps_store keeps_rules keeps_parts keeps_generate)

lemma keeps_adminCreateGroup: "P e \<Longrightarrow> keeps (adminCreateGroup A r e)"
  unfolding adminCreateGroup_def by (intro keeps_admin keeps_groupIn keeps_store keeps_rules keeps_parts keeps_generate)

lemma keeps_adminDeleteGroup: "P e \<Longrightarrow> keeps (adminDeleteGroup A r e)"
  unfolding adminDeleteGroup_def by (intro keeps_admin keeps_groupIn keeps_store keeps_rules keeps_parts keeps_generate)

lemma keeps_adminAddMember: "P e \<Longrightarrow> keeps (adminAddMember A r e)"
  unfolding adminAddMember_def by (intro keeps_admin keeps_groupIn keeps_store keeps_rules keeps_parts keeps_generate)

lemma keeps_adminRemoveMember: "P e \<Longrightarrow> keeps (adminRemoveMember A r e)"
  unfolding adminRemoveMember_def by (intro keeps_admin keeps_groupIn keeps_store keeps_rules keeps_parts keeps_generate)

lemma keeps_adminGroupMembers: "P e \<Longrightarrow> keeps (adminGroupMembers A r e)"
  unfolding adminGroupMembers_def by (intro keeps_admin keeps_groupIn keeps_store keeps_rules keeps_parts keeps_generate)

lemma keeps_adminListUsers: "P e \<Longrightarrow> keeps (adminListUsers A r e)"
  unfolding adminListUsers_def by (intro keeps_admin keeps_groupIn keeps_store keeps_rules keeps_parts keeps_generate)

lemma keeps_adminSetDisabled: "P e \<Longrightarrow> keeps (adminSetDisabled A r e)"
  unfolding adminSetDisabled_def by (intro keeps_admin keeps_groupIn keeps_store keeps_rules keeps_parts keeps_generate)

lemma keeps_adminListKeys: "P e \<Longrightarrow> keeps (adminListKeys A r e)"
  unfolding adminListKeys_def by (intro keeps_admin keeps_groupIn keeps_store keeps_rules keeps_parts keeps_generate)

lemma keeps_adminCreateKey: "P e \<Longrightarrow> keeps (adminCreateKey A r e)"
  unfolding adminCreateKey_def by (intro keeps_admin keeps_groupIn keeps_store keeps_rules keeps_parts keeps_generate)

lemma keeps_adminRevokeKey: "P e \<Longrightarrow> keeps (adminRevokeKey A r e)"
  unfolding adminRevokeKey_def by (intro keeps_admin keeps_groupIn keeps_store keeps_rules keeps_parts keeps_generate)

lemma keeps_adminSetPassword: "P e \<Longrightarrow> keeps (adminSetPassword A r e)"
  unfolding adminSetPassword_def by (intro keeps_admin keeps_groupIn keeps_store keeps_rules keeps_parts keeps_generate)

lemma keeps_adminDeleteUser: "P e \<Longrightarrow> keeps (adminDeleteUser A r e)"
  unfolding adminDeleteUser_def by (intro keeps_admin keeps_groupIn keeps_store keeps_rules keeps_parts keeps_generate)

lemma keeps_adminSetBan: "P e \<Longrightarrow> keeps (adminSetBan A r e)"
  unfolding adminSetBan_def by (intro keeps_admin keeps_groupIn keeps_store keeps_rules keeps_parts keeps_generate)

lemma keeps_adminListUserSessions: "P e \<Longrightarrow> keeps (adminListUserSessions A r e)"
  unfolding adminListUserSessions_def by (intro keeps_admin keeps_groupIn keeps_store keeps_rules keeps_parts keeps_generate)

lemma keeps_adminRevokeUserSessions: "P e \<Longrightarrow> keeps (adminRevokeUserSessions A r e)"
  unfolding adminRevokeUserSessions_def by (intro keeps_admin keeps_groupIn keeps_store keeps_rules keeps_parts keeps_generate)

lemma keeps_adminListOrgs: "P e \<Longrightarrow> keeps (adminListOrgs A r e)"
  unfolding adminListOrgs_def by (intro keeps_admin keeps_groupIn keeps_store keeps_rules keeps_parts keeps_generate)

lemma keeps_adminCreateOrg: "P e \<Longrightarrow> keeps (adminCreateOrg A r e)"
  unfolding adminCreateOrg_def by (intro keeps_admin keeps_groupIn keeps_store keeps_rules keeps_parts keeps_generate)

lemma keeps_adminRenameOrg: "P e \<Longrightarrow> keeps (adminRenameOrg A r e)"
  unfolding adminRenameOrg_def by (intro keeps_admin keeps_groupIn keeps_store keeps_rules keeps_parts keeps_generate)

lemma keeps_adminDeleteOrg: "P e \<Longrightarrow> keeps (adminDeleteOrg A r e)"
  unfolding adminDeleteOrg_def by (intro keeps_admin keeps_groupIn keeps_store keeps_rules keeps_parts keeps_generate)

lemma keeps_adminOrgMembers: "P e \<Longrightarrow> keeps (adminOrgMembers A r e)"
  unfolding adminOrgMembers_def by (intro keeps_admin keeps_groupIn keeps_store keeps_rules keeps_parts keeps_generate)

lemma keeps_adminSetOrgMember: "P e \<Longrightarrow> keeps (adminSetOrgMember A r e)"
  unfolding adminSetOrgMember_def by (intro keeps_admin keeps_groupIn keeps_store keeps_rules keeps_parts keeps_generate)

lemma keeps_adminRemoveOrgMember: "P e \<Longrightarrow> keeps (adminRemoveOrgMember A r e)"
  unfolding adminRemoveOrgMember_def by (intro keeps_admin keeps_groupIn keeps_store keeps_rules keeps_parts keeps_generate)

lemma keeps_adminOrgGroups: "P e \<Longrightarrow> keeps (adminOrgGroups A r e)"
  unfolding adminOrgGroups_def by (intro keeps_admin keeps_groupIn keeps_store keeps_rules keeps_parts keeps_generate)

lemma keeps_adminCreateOrgGroup: "P e \<Longrightarrow> keeps (adminCreateOrgGroup A r e)"
  unfolding adminCreateOrgGroup_def by (intro keeps_admin keeps_groupIn keeps_store keeps_rules keeps_parts keeps_generate)

lemma keeps_adminDeleteOrgGroup: "P e \<Longrightarrow> keeps (adminDeleteOrgGroup A r e)"
  unfolding adminDeleteOrgGroup_def by (intro keeps_admin keeps_groupIn keeps_store keeps_rules keeps_parts keeps_generate)

lemma keeps_adminOrgGroupMembers: "P e \<Longrightarrow> keeps (adminOrgGroupMembers A r e)"
  unfolding adminOrgGroupMembers_def by (intro keeps_admin keeps_groupIn keeps_store keeps_rules keeps_parts keeps_generate)

lemma keeps_adminAddOrgGroupMember: "P e \<Longrightarrow> keeps (adminAddOrgGroupMember A r e)"
  unfolding adminAddOrgGroupMember_def by (intro keeps_admin keeps_groupIn keeps_store keeps_rules keeps_parts keeps_generate)

lemma keeps_adminRemoveOrgGroupMember: "P e \<Longrightarrow> keeps (adminRemoveOrgGroupMember A r e)"
  unfolding adminRemoveOrgGroupMember_def by (intro keeps_admin keeps_groupIn keeps_store keeps_rules keeps_parts keeps_generate)

lemma keeps_created:
  assumes "fresh_subject A e" and "P e"
  shows "keeps (case freshToken A e of (sub, e) \<Rightarrow> op (\<lambda>s. CreateLocalUser (e_now e) sub s m nm) e)"
proof -
  obtain sub e1 where f: "freshToken A e = (sub, e1)" by fastforce
  then have e1: "e_store e1 = e_store e" "e_now e1 = e_now e" "findBySub (e_store e) (''local:'' @ sub) = None"
    using assms(1) by (auto simp: freshToken_def fresh_subject_def)
  have q: "quiet e e1" using quiet_effects(4) [of e A] f by simp
  have "P (snd (op (\<lambda>s. CreateLocalUser (e_now e1) sub s m nm) e1))"
    by (rule step [OF assms(2)]) (use q in \<open>simp_all add: quiet_def cred_calls(1) [OF e1(3)]\<close>)
  then show ?thesis by (simp add: f keeps_def)
qed

lemma keeps_after:
  assumes "keeps (case p of (x, e) \<Rightarrow> q x e)" and "\<And>y e. P e \<Longrightarrow> keeps (f y e)"
  shows "keeps (case p of (x, e) \<Rightarrow> case q x e of (y, e) \<Rightarrow> f y e)"
  using assms by (cases p) (auto simp: keeps_def split: prod.split)

lemma keeps_create:
  assumes "fresh_subject A e" and "P e"
  shows "keeps (case freshToken A e of (sub, e) \<Rightarrow>
     case op (\<lambda>s. CreateLocalUser (e_now e) sub s m nm) e of
       (Inl _, e) \<Rightarrow> (jerr 500 msg, e) | (Inr nu, e) \<Rightarrow> signupFinish A r m nu e)"
  by (rule keeps_after [OF keeps_created [OF assms]], intro keeps_rules keeps_signupFinish)

lemma keeps_PasswordSignup:
  assumes "fresh_subject A e" and "P e"
  shows "keeps (PasswordSignup A r e)"
proof -
  obtain ok e1 where a: "allowIP (''signup:'' @ rq_rateIP r) e = (ok, e1)" by fastforce
  note e1 = allow_same(1) [OF a]
  have f: "fresh_subject A e1" using assms(1) e1 by (simp add: fresh_subject_def)
  have P: "P e1" by (rule same [OF assms(2)]) (use quiet_effects(5) [of e "''signup:'' @ rq_rateIP r"] a in simp)
  show ?thesis
    unfolding PasswordSignup_def a prod.case
    using assms(2) f P by (intro keeps_let keeps_create keeps_rules keeps_signupFinish; assumption?)
qed

lemma fresh_subject_guard:
  assumes "fresh_subject A e" and "adminGuard A r e = (x, e1)"
  shows "fresh_subject A e1"
proof -
  have touch: "st_users (snd (TouchAPIKey now s i)) = st_users s" for now s i
    by (simp add: TouchAPIKey_def split: option.split)
  have "st_users (e_store e1) = st_users (e_store e) \<and> e_rand e1 = e_rand e"
    using assms(2)
    by (auto simp: adminGuard_def ValidateAPIKey_def Let_def touch split: option.splits sum.splits if_splits prod.splits)
  then show ?thesis using assms(1) by (simp add: fresh_subject_def findBySub_def)
qed

lemma keeps_createUserRest: "P e \<Longrightarrow> keeps (createUserRest A r u e)"
  unfolding createUserRest_def by (intro keeps_rules keeps_parts)

lemma keeps_adminCreate:
  assumes "fresh_subject A e" and "P e"
  shows "keeps (case freshToken A e of (sub, e) \<Rightarrow>
     case op (\<lambda>s. CreateLocalUser (e_now e) sub s m nm) e of
       (Inl err, e) \<Rightarrow> (g err, e) | (Inr u, e) \<Rightarrow> createUserRest A r u e)"
  by (rule keeps_after [OF keeps_created [OF assms]], intro keeps_rules keeps_createUserRest)

lemma keeps_adminCreateUser:
  assumes "fresh_subject A e" and "P e"
  shows "keeps (adminCreateUser A r e)"
proof -
  obtain x e1 where g: "adminGuard A r e = (x, e1)" by fastforce
  have f: "fresh_subject A e1" using fresh_subject_guard [OF assms(1) g] .
  have P: "P e1" using keeps_adminGuard [OF assms(2), of A r] by (simp add: g keeps_def)
  show ?thesis
    unfolding adminCreateUser_def guarded_def g prod.case
    using f P by (intro keeps_let keeps_adminCreate keeps_rules; assumption?)
qed

lemma P_mailCode: "P e \<Longrightarrow> P (case op (\<lambda>s. CreateEmailOTP s p m h t n) e of
    (Inl _, e) \<Rightarrow> e | (Inr _, e) \<Rightarrow> sendAuthEmail A m sj c e)"
proof -
  assume "P e"
  then have "keeps (case op (\<lambda>s. CreateEmailOTP s p m h t n) e of
      (Inl _, e) \<Rightarrow> ((), e) | (Inr _, e) \<Rightarrow> ((), sendAuthEmail A m sj c e))"
    by (intro keeps_rules)
  then show ?thesis by (simp add: keeps_def split: prod.splits sum.splits)
qed

lemma P_runJob: "P e \<Longrightarrow> P (runJob A j e)"
  by (cases "(A, j, e)" rule: runJob.cases)
    (auto simp: Let_def split: option.split intro!: P_mailToken P_mailCode P_effects)

lemma keeps_gate: "P e \<Longrightarrow> keeps (GateHTTP A r e)"
  unfolding GateHTTP_def globalKey_def ensureCSRF_def writeCSRFCookie_def
  by (intro keeps_rules keeps_parts)

lemma keeps_RequireGroups: "P e \<Longrightarrow> keeps (RequireGroupsHTTP A gs r e)"
  unfolding RequireGroupsHTTP_def authenticated_def requestGroups_def globalKey_def
  by (intro keeps_rules keeps_parts)

end

section \<open>The handlers that open sessions\<close>

locale env_invariant = env_effects +
  fixes A :: authn
  assumes opened: "P e \<Longrightarrow> P (snd (openSession A r base sub uid ttl e))"
    and recookie: "P e \<Longrightarrow> P (setCookie n v a e)"
begin

lemma keeps_open: "P e \<Longrightarrow> keeps (openSession A r base sub uid ttl e)"
  by (simp add: keeps_def opened)

lemma keeps_remint: "P e \<Longrightarrow> keeps (remintWithOrg A sc oid role e)"
  unfolding remintWithOrg_def by (intro keeps_rules recookie)

lemma P_remint: "P e \<Longrightarrow> P (snd (remintWithOrg A sc oid role e))"
  using keeps_remint by (simp add: keeps_def)

lemma keeps_authorize:
  assumes "store_authorizer A" and "P e"
  shows "keeps (authorizeLogin A i e)"
  using assms unfolding authorizeLogin_def store_authorizer_def
  by (cases "a_authorizer A") (auto intro!: keeps_rules)

lemma keeps_login: "store_authorizer A \<Longrightarrow> P e \<Longrightarrow> keeps (completeLogin A r i rm ff e)"
  unfolding completeLogin_def by (intro keeps_rules keeps_authorize keeps_open)

lemma keeps_pending: "P e \<Longrightarrow> keeps (completePendingLogin A r pc e)"
  unfolding completePendingLogin_def by (intro keeps_rules keeps_open)

lemmas keeps_opening = keeps_rules keeps_parts keeps_open keeps_remint P_remint keeps_pending keeps_login keeps_authorize
  P_verifyMail keeps_admin keeps_generate

lemma keeps_TwoFactorVerify: "P e \<Longrightarrow> keeps (TwoFactorVerify A r e)"
  unfolding TwoFactorVerify_def by (intro keeps_opening)

lemma keeps_OrgSwitch: "P e \<Longrightarrow> keeps (OrgSwitch A r e)"
  unfolding OrgSwitch_def by (intro keeps_opening)

lemma keeps_OrgMemberRemove: "P e \<Longrightarrow> keeps (OrgMemberRemove A r e)"
  unfolding OrgMemberRemove_def by (intro keeps_opening)

lemma keeps_OrgInviteAccept: "P e \<Longrightarrow> keeps (OrgInviteAccept A r e)"
  unfolding OrgInviteAccept_def by (intro keeps_opening)

lemma keeps_adminImpersonate: "P e \<Longrightarrow> keeps (adminImpersonate A r e)"
  unfolding adminImpersonate_def by (intro keeps_opening)

lemma keeps_oidcSession: "store_authorizer A \<Longrightarrow> P e \<Longrightarrow> keeps (oidcSession A r fc raw tok e)"
  unfolding oidcSession_def by (intro keeps_opening; assumption?)

lemma keeps_PasswordLogin: "store_authorizer A \<Longrightarrow> P e \<Longrightarrow> keeps (PasswordLogin A r e)"
  unfolding PasswordLogin_def by (intro keeps_opening; assumption?)

lemma keeps_EmailOTPVerify: "store_authorizer A \<Longrightarrow> P e \<Longrightarrow> keeps (EmailOTPVerify A r e)"
  unfolding EmailOTPVerify_def by (intro keeps_opening; assumption?)

lemma keeps_Callback: "store_authorizer A \<Longrightarrow> P e \<Longrightarrow> keeps (Callback A r e)"
  unfolding Callback_def by (intro keeps_opening keeps_oidcSession; assumption?)

lemma keeps_redeem: "store_authorizer A \<Longrightarrow> P e \<Longrightarrow> keeps (redeemAndLogin A r p mv e)"
  unfolding redeemAndLogin_def by (intro keeps_opening; assumption?)

lemma keeps_EmailLogin: "store_authorizer A \<Longrightarrow> P e \<Longrightarrow> keeps (EmailLogin A r e)"
  unfolding EmailLogin_def by (rule keeps_redeem)

lemma keeps_EmailVerify: "store_authorizer A \<Longrightarrow> P e \<Longrightarrow> keeps (EmailVerify A r e)"
  unfolding EmailVerify_def by (rule keeps_redeem)

end

end
