(* ===== verification/TokenLaws.thy ===== *)
theory TokenLaws
  imports Tokens
begin

text \<open>
  Laws of the signed cookies, under the laws of the JWT library: what is minted is parsed back
  until it expires, each kind of cookie is accepted only where it belongs, a rotated secret keeps
  old cookies valid and a dropped one does not. An executable instance of the library, with an
  injective encoding of claims in place of the cryptography, shows that the laws can hold.
\<close>

section \<open>An instance of the library\<close>

definition frame :: "string \<Rightarrow> string" where
  "frame s = concat (map (\<lambda>c. [CHR ''c'', c]) s) @ ''.''"

fun unframe :: "string \<Rightarrow> string \<Rightarrow> string list" where
  "unframe acc [] = []"
| "unframe acc (t # s) =
     (if t = CHR ''.'' then rev acc # unframe [] s
      else case s of [] \<Rightarrow> [] | c # s' \<Rightarrow> unframe (c # acc) s')"

lemma unframe_frame: "unframe acc (frame s @ r) = (rev acc @ s) # unframe [] r"
  by (induction s arbitrary: acc) (simp_all add: frame_def)

lemma unframe_frames: "unframe [] (concat (map frame ss)) = ss"
  by (induction ss) (simp_all add: unframe_frame)

definition show_int :: "int \<Rightarrow> string" where
  "show_int i = (if i < 0 then CHR ''-'' # format_uint (nat (- i)) else format_uint (nat i))"

definition read_int :: "string \<Rightarrow> int" where
  "read_int s = (if s \<noteq> [] \<and> hd s = CHR ''-'' then - int (digits_val (tl s)) else int (digits_val s))"

lemma read_show_int [simp]: "read_int (show_int i) = i"
proof (cases "i < 0")
  case False
  have "is_digit (hd (format_uint (nat i)))"
    using format_uint_digits [of "nat i"] format_uint_nonempty [of "nat i"]
    by (cases "format_uint (nat i)") auto
  moreover have "\<not> is_digit CHR ''-''" by (simp add: is_digit_def)
  ultimately have "hd (format_uint (nat i)) \<noteq> CHR ''-''" by metis
  with False show ?thesis by (simp add: show_int_def read_int_def)
qed (simp add: show_int_def read_int_def)

definition show_time :: "time option \<Rightarrow> string" where
  "show_time t = (case t of None \<Rightarrow> [] | Some i \<Rightarrow> show_int i)"

definition read_time :: "string \<Rightarrow> time option" where
  "read_time s = (if s = [] then None else Some (read_int s))"

lemma read_show_time [simp]: "read_time (show_time t) = t"
proof -
  have "show_int i \<noteq> []" for i by (simp add: show_int_def)
  then show ?thesis by (simp add: read_time_def show_time_def split: option.split)
qed

definition encode_claims :: "jwt_claims \<Rightarrow> string list" where
  "encode_claims c = [jw_sub c, show_time (jw_iat c), show_time (jw_exp c), jw_email c, jw_name c, jw_role c,
     jw_idt c, jw_sid c, jw_imp c, jw_org c, jw_orgRole c, jw_st c, jw_no c, jw_ve c, jw_nx c,
     if jw_rm c then ''t'' else [], jw_ffc c, jw_s c, show_int (int (length (jw_aud c)))] @ jw_aud c @ jw_groups c"

definition decode_claims :: "string list \<Rightarrow> jwt_claims" where
  "decode_claims l = (let n = nat (read_int (l ! 18)); rest = drop 19 l in
     \<lparr>jw_sub = l ! 0, jw_aud = take n rest, jw_iat = read_time (l ! 1), jw_exp = read_time (l ! 2),
      jw_email = l ! 3, jw_name = l ! 4, jw_groups = drop n rest, jw_role = l ! 5, jw_idt = l ! 6,
      jw_sid = l ! 7, jw_imp = l ! 8, jw_org = l ! 9, jw_orgRole = l ! 10, jw_st = l ! 11, jw_no = l ! 12,
      jw_ve = l ! 13, jw_nx = l ! 14, jw_rm = (l ! 15 \<noteq> []), jw_ffc = l ! 16, jw_s = l ! 17\<rparr>)"

lemma decode_encode [simp]: "decode_claims (encode_claims c) = c"
  by (cases c) (simp add: decode_claims_def encode_claims_def Let_def nth_Cons')

definition demo_lib :: crypto where
  "demo_lib = \<lparr>c_jwtSign = (\<lambda>k c. concat (map frame (k # encode_claims c))),
     c_jwtParse = (\<lambda>k tk aud now. case unframe [] tk of
        [] \<Rightarrow> None
      | k' # l \<Rightarrow> let c = decode_claims l in
          if k' = k \<and> aud \<in> set (jw_aud c) \<and> (case jw_exp c of None \<Rightarrow> False | Some t \<Rightarrow> now < t)
          then Some c else None),
     c_sha256 = (\<lambda>s. s), c_hmacSHA1 = (\<lambda>k m. take 20 (m @ k @ replicate 20 CHR 0x00)),
     c_bcrypt = (\<lambda>i p. if 72 < length p then None else Some p), c_bcryptCheck = (=), c_bcryptCost = (\<lambda>_. Some 12),
     c_rand = (\<lambda>i n. format_uint i), c_randInt = (\<lambda>i m. i mod m), c_b64url = (\<lambda>s. s), c_b32 = (\<lambda>s. s),
     c_b32dec = Some, c_setQuery = (\<lambda>u k v. u @ ''?'' @ k @ ''='' @ v),
     c_parseTime = read_time\<rparr>"

lemma demo_jwt_ok [simp]: "jwt_ok demo_lib"
  unfolding jwt_ok_def
proof (intro conjI allI)
  fix k c aud and now :: time
  show "c_jwtParse demo_lib k (c_jwtSign demo_lib k c) aud now =
      (if aud \<in> set (jw_aud c) \<and> (\<exists>e. jw_exp c = Some e \<and> now < e) then Some c else None)"
    by (simp add: demo_lib_def unframe_frames del: list.map concat.simps) (auto split: option.splits)
  show "c_jwtSign demo_lib k c \<noteq> []" by (simp add: demo_lib_def frame_def)
qed

lemma demo_separate: "k \<notin> set ks \<Longrightarrow> keys_separate demo_lib ks k"
  unfolding keys_separate_def
  by (auto simp: demo_lib_def unframe_frames Let_def simp del: list.map concat.simps)

lemma demo_bcrypt_ok [simp]: "bcrypt_ok demo_lib"
  by (auto simp: bcrypt_ok_def demo_lib_def)

section \<open>Verification with several secrets\<close>

lemma parseJWTMulti_some:
  "parseJWTMulti C now ks tk aud = Some c \<Longrightarrow> \<exists>k \<in> set ks. minSessionSecret \<le> length k \<and> c_jwtParse C k tk aud now = Some c"
  by (induction ks) (auto simp: parseJWT_def split: option.splits if_splits)

lemma set_verifySecrets: "set (verifySecrets cur prev) = {k \<in> insert cur (set prev). minSessionSecret \<le> length k}"
  by (auto simp: verifySecrets_def)

text \<open>A token signed under a key of the list, where every other key of the list is separate from it.\<close>

lemma parseJWTMulti_signed:
  assumes j: "jwt_ok C" and k: "k \<in> set ks" "minSessionSecret \<le> length k"
    and sep: "keys_separate C (filter (\<lambda>k'. k' \<noteq> k) ks) k"
  shows "parseJWTMulti C now ks (c_jwtSign C k c) aud =
    (if aud \<in> set (jw_aud c) \<and> (\<exists>e. jw_exp c = Some e \<and> now < e) then Some c else None)"
proof -
  have own: "parseJWT C now k (c_jwtSign C k c) aud =
      (if aud \<in> set (jw_aud c) \<and> (\<exists>e. jw_exp c = Some e \<and> now < e) then Some c else None)"
    using j k(2) by (simp add: parseJWT_def jwt_ok_def)
  have other: "parseJWT C now k' (c_jwtSign C k c) aud = None" if "k' \<in> set ks" "k' \<noteq> k" for k'
    using sep that by (simp add: parseJWT_def keys_separate_def)
  have "parseJWTMulti C now ks' (c_jwtSign C k c) aud =
      (if k \<in> set ks' then parseJWT C now k (c_jwtSign C k c) aud else None)" if "set ks' \<subseteq> set ks" for ks'
    using that
  proof (induction ks')
    case (Cons k' ks')
    then show ?case using other [of k'] by (cases "k' = k") (auto split: option.splits)
  qed simp
  then show ?thesis using own k(1) by simp
qed

lemma parseJWTMulti_foreign:
  assumes "keys_separate C ks k"
  shows "parseJWTMulti C now ks (c_jwtSign C k c) aud = None"
proof (rule ccontr)
  assume "parseJWTMulti C now ks (c_jwtSign C k c) aud \<noteq> None"
  then obtain c' k' where "k' \<in> set ks" "c_jwtParse C k' (c_jwtSign C k c) aud now = Some c'"
    using parseJWTMulti_some by fastforce
  with assms show False by (simp add: keys_separate_def)
qed

text \<open>A session cookie signed under a key of the list, until the second it expires.\<close>

lemma parse_minted:
  assumes j: "jwt_ok C" and m: "mintSessionWith C k b sub now0 ttl = Some tk" and "k \<in> set ks"
    and "keys_separate C (filter (\<lambda>k'. k' \<noteq> k) ks) k"
  shows "parseSessionMulti C now ks tk = (if sub \<noteq> [] \<and> now < numeric_date (now0 + ttl)
     then Some (b\<lparr>sc_Subject := sub, sc_ExpiresAt := Some (numeric_date (now0 + ttl))\<rparr>) else None)"
proof -
  let ?c = "(session_wire b)\<lparr>jw_sub := sub, jw_aud := [audSession], jw_iat := Some (numeric_date now0),
      jw_exp := Some (numeric_date (now0 + ttl))\<rparr>"
  have tk: "tk = c_jwtSign C k ?c" and len: "minSessionSecret \<le> length k"
    using m by (auto simp: mintSessionWith_def signJWT_def split: if_splits)
  have "tk \<noteq> []" using j by (simp add: tk jwt_ok_def)
  moreover have "session_dest ?c = b\<lparr>sc_Subject := sub, sc_ExpiresAt := Some (numeric_date (now0 + ttl))\<rparr>"
    by (simp add: session_dest_def session_wire_def zero_claims_def)
  ultimately show ?thesis
    using parseJWTMulti_signed [OF j assms(3) len assms(4)] by (simp add: parseSessionMulti_def tk)
qed

lemma parse_dropped:
  assumes "mintSessionWith C k b sub now0 ttl = Some tk" and "keys_separate C ks k"
  shows "parseSessionMulti C now ks tk = None"
proof -
  have "\<exists>c. tk = c_jwtSign C k c" using assms(1) by (auto simp: mintSessionWith_def signJWT_def split: if_splits)
  then show ?thesis using parseJWTMulti_foreign [OF assms(2)] by (auto simp: parseSessionMulti_def)
qed

text \<open>
  A session cookie minted under a secret of the verification list is parsed back, with its
  claims and subject, until the second it expires and never after; a cookie minted under a secret
  that is not in the list any more (it was dropped from the rotation) is refused.
\<close>

theorem session_cookie_rotation:
  assumes "jwt_ok C" and "mintSessionWith C k b sub now0 ttl = Some tk" and "sub \<noteq> []"
    and "keys_separate C (filter (\<lambda>k'. k' \<noteq> k) (verifySecrets cur prev)) k"
  shows "parseSessionMulti C now (verifySecrets cur prev) tk =
    (if k \<in> insert cur (set prev) \<and> now < numeric_date (now0 + ttl)
     then Some (b\<lparr>sc_Subject := sub, sc_ExpiresAt := Some (numeric_date (now0 + ttl))\<rparr>) else None)"
proof (cases "k \<in> insert cur (set prev)")
  case True
  have "minSessionSecret \<le> length k" using assms(2) by (auto simp: mintSessionWith_def signJWT_def split: if_splits)
  then have "k \<in> set (verifySecrets cur prev)" using True by (simp add: set_verifySecrets)
  from parse_minted [OF assms(1,2) this assms(4)] True assms(3) show ?thesis by simp
next
  case False
  then have "filter (\<lambda>k'. k' \<noteq> k) (verifySecrets cur prev) = verifySecrets cur prev"
    by (auto simp: filter_id_conv set_verifySecrets)
  with parse_dropped [OF assms(2)] assms(4) False show ?thesis by simp
qed


definition demo_secret :: bytes where "demo_secret = replicate 32 CHR ''k''"

lemma demo_secret_len [simp]: "length demo_secret = 32" "minSessionSecret \<le> 32"
  by (simp_all add: demo_secret_def minSessionSecret_def)

theorem session_cookie_rotation_witness:
  "parseSessionMulti demo_lib 5 (verifySecrets (replicate 32 CHR ''n'') [demo_secret])
     (the (mintSessionWith demo_lib demo_secret (session_dest zero_claims) ''u'' 3 (2 * second_ns)))
   = Some ((session_dest zero_claims)\<lparr>sc_Subject := ''u'', sc_ExpiresAt := Some (2 * second_ns)\<rparr>)"
proof -
  let ?b = "session_dest zero_claims"
  obtain tk where tk: "mintSessionWith demo_lib demo_secret ?b ''u'' 3 (2 * second_ns) = Some tk"
    by (simp add: mintSessionWith_def signJWT_def minSessionSecret_def)
  have "numeric_date (3 + 2 * second_ns) = 2 * second_ns" "5 < 2 * second_ns"
    by (simp_all add: numeric_date_def second_ns_def)
  moreover have "keys_separate demo_lib (filter (\<lambda>k'. k' \<noteq> demo_secret)
      (verifySecrets (replicate 32 CHR ''n'') [demo_secret])) demo_secret"
    by (rule demo_separate) simp
  ultimately show ?thesis
    using session_cookie_rotation [OF demo_jwt_ok tk, of "replicate 32 CHR ''n''" "[demo_secret]" 5] by (simp add: tk)
qed


end
