(* ===== verification/EngineTrace.thy ===== *)
theory EngineTrace
  imports EngineLaws TokenLaws
begin

text \<open>
  The engine as a state machine: the endpoints of \<open>routes\<close> (\<open>handlers.go\<close>), \<open>adminRoutes\<close> (\<open>admin.go\<close>)
  and \<open>adminOrgRoutes\<close> (\<open>admin_orgs.go\<close>) with the conditions under which they are registered, \<open>Handler\<close>
  (\<open>httpadapter.go\<close>) that puts them behind the cross-site check, and a step for every request, background
  job and tick of the clock and for every call another part of the program makes on the stores. The
  routes of passkey ceremonies, social login and \<open>/auth/config\<close> are in \<open>Site\<close>.
\<close>

section \<open>Endpoints\<close>

text \<open>Grouped by the condition they are registered under.\<close>

datatype alwaysEndpoint =
    EpLogin | EpCallback | EpLogout | EpMe | EpSessionList | EpSessionRevoke | EpSessionRevokeOthers |
    EpStopImpersonating

datatype localEndpoint =
    EpPasswordSignup | EpPasswordLogin | EpPasswordResetRequest | EpPasswordResetConfirm | EpEmailRequest |
    EpEmailLogin | EpEmailVerify | EpEmailOTPSend | EpEmailOTPVerify | EpEmailChangeConfirm | EpAccountInfo |
    EpAccountSetPassword | EpAccountChangeEmailRequest | EpAccountDelete | EpPasskeyRemove |
    EpPasskeyRename | EpOAuthUnlink | EpReAuth

datatype tfaEndpoint =
    EpTOTPBegin | EpTOTPConfirm | EpTOTPDisable | EpTwoFactorVerify | EpTwoFactorPending

datatype directoryEndpoint =
    EpAdminListGroups | EpAdminCreateGroup | EpAdminDeleteGroup | EpAdminAddMember | EpAdminRemoveMember |
    EpAdminGroupMembers | EpAdminListUsers | EpAdminCreateUser | EpAdminSetDisabled | EpAdminSetPassword |
    EpAdminSetBan | EpAdminDeleteUser | EpAdminImpersonate | EpAdminListUserSessions |
    EpAdminRevokeUserSessions | EpAdminListKeys | EpAdminCreateKey | EpAdminRevokeKey

datatype orgEndpoint =
    EpOrgList | EpOrgSwitch | EpOrgMemberList | EpOrgMemberSetRole | EpOrgMemberRemove | EpOrgInviteCreate |
    EpOrgInviteList | EpOrgInviteRevoke | EpOrgInviteAccept | EpAdminListOrgs | EpAdminCreateOrg |
    EpAdminRenameOrg | EpAdminDeleteOrg | EpAdminOrgMembers | EpAdminSetOrgMember | EpAdminRemoveOrgMember |
    EpAdminOrgGroups | EpAdminCreateOrgGroup | EpAdminDeleteOrgGroup | EpAdminOrgGroupMembers |
    EpAdminAddOrgGroupMember | EpAdminRemoveOrgGroupMember

datatype endpoint =
    Always alwaysEndpoint | Local localEndpoint | SecondFactor tfaEndpoint | Directory directoryEndpoint | Organization orgEndpoint

definition alwaysEndpoints :: "alwaysEndpoint list" where
  "alwaysEndpoints = [
     EpLogin, EpCallback, EpLogout, EpMe, EpSessionList, EpSessionRevoke, EpSessionRevokeOthers,
     EpStopImpersonating]"

definition localEndpoints :: "localEndpoint list" where
  "localEndpoints = [
     EpPasswordSignup, EpPasswordLogin, EpPasswordResetRequest, EpPasswordResetConfirm, EpEmailRequest,
     EpEmailLogin, EpEmailVerify, EpEmailOTPSend, EpEmailOTPVerify, EpEmailChangeConfirm, EpAccountInfo,
     EpAccountSetPassword, EpAccountChangeEmailRequest, EpAccountDelete, EpPasskeyRemove, EpPasskeyRename,
     EpOAuthUnlink, EpReAuth]"

definition tfaEndpoints :: "tfaEndpoint list" where
  "tfaEndpoints = [
     EpTOTPBegin, EpTOTPConfirm, EpTOTPDisable, EpTwoFactorVerify, EpTwoFactorPending]"

definition directoryEndpoints :: "directoryEndpoint list" where
  "directoryEndpoints = [
     EpAdminListGroups, EpAdminCreateGroup, EpAdminDeleteGroup, EpAdminAddMember, EpAdminRemoveMember,
     EpAdminGroupMembers, EpAdminListUsers, EpAdminCreateUser, EpAdminSetDisabled, EpAdminSetPassword,
     EpAdminSetBan, EpAdminDeleteUser, EpAdminImpersonate, EpAdminListUserSessions,
     EpAdminRevokeUserSessions, EpAdminListKeys, EpAdminCreateKey, EpAdminRevokeKey]"

definition orgEndpoints :: "orgEndpoint list" where
  "orgEndpoints = [
     EpOrgList, EpOrgSwitch, EpOrgMemberList, EpOrgMemberSetRole, EpOrgMemberRemove, EpOrgInviteCreate,
     EpOrgInviteList, EpOrgInviteRevoke, EpOrgInviteAccept, EpAdminListOrgs, EpAdminCreateOrg,
     EpAdminRenameOrg, EpAdminDeleteOrg, EpAdminOrgMembers, EpAdminSetOrgMember, EpAdminRemoveOrgMember,
     EpAdminOrgGroups, EpAdminCreateOrgGroup, EpAdminDeleteOrgGroup, EpAdminOrgGroupMembers,
     EpAdminAddOrgGroupMember, EpAdminRemoveOrgGroupMember]"

definition endpoints :: "authn \<Rightarrow> endpoint list" where
  "endpoints A = map Always alwaysEndpoints @ (if LocalEnabled A then map Local localEndpoints else []) @
     (if a_twoFactor A then map SecondFactor tfaEndpoints else []) @ (if a_dir A then map Directory directoryEndpoints else []) @
     (if OrgsEnabled A then map Organization orgEndpoints else [])"

text \<open>Method and path of an endpoint; the path values are those the mux read from the path.\<close>

primrec alwaysRoute :: "alwaysEndpoint \<Rightarrow> (string \<times> string) list \<Rightarrow> string \<times> string" where
  "alwaysRoute EpLogin ps = (''GET'', ''/auth/login'')"
| "alwaysRoute EpCallback ps = (''GET'', ''/auth/callback'')"
| "alwaysRoute EpLogout ps = (''GET'', ''/auth/logout'')"
| "alwaysRoute EpMe ps = (''GET'', ''/auth/me'')"
| "alwaysRoute EpSessionList ps = (''GET'', ''/auth/api/sessions'')"
| "alwaysRoute EpSessionRevoke ps = (''DELETE'', ''/auth/api/sessions/'' @ attr ps ''sid'')"
| "alwaysRoute EpSessionRevokeOthers ps = (''POST'', ''/auth/api/sessions/revoke-others'')"
| "alwaysRoute EpStopImpersonating ps = (''POST'', ''/auth/api/stop-impersonating'')"

primrec localRoute :: "localEndpoint \<Rightarrow> (string \<times> string) list \<Rightarrow> string \<times> string" where
  "localRoute EpPasswordSignup ps = (''POST'', ''/auth/password/signup'')"
| "localRoute EpPasswordLogin ps = (''POST'', ''/auth/password/login'')"
| "localRoute EpPasswordResetRequest ps = (''POST'', ''/auth/password/reset/request'')"
| "localRoute EpPasswordResetConfirm ps = (''POST'', ''/auth/password/reset/confirm'')"
| "localRoute EpEmailRequest ps = (''POST'', ''/auth/email/request'')"
| "localRoute EpEmailLogin ps = (''GET'', ''/auth/email/login'')"
| "localRoute EpEmailVerify ps = (''GET'', ''/auth/email/verify'')"
| "localRoute EpEmailOTPSend ps = (''POST'', ''/auth/email-otp/send'')"
| "localRoute EpEmailOTPVerify ps = (''POST'', ''/auth/email-otp/verify'')"
| "localRoute EpEmailChangeConfirm ps = (''GET'', ''/auth/email/change'')"
| "localRoute EpAccountInfo ps = (''GET'', ''/auth/api/account'')"
| "localRoute EpAccountSetPassword ps = (''POST'', ''/auth/api/account/password'')"
| "localRoute EpAccountChangeEmailRequest ps = (''POST'', ''/auth/api/account/email'')"
| "localRoute EpAccountDelete ps = (''DELETE'', ''/auth/api/account'')"
| "localRoute EpPasskeyRemove ps = (''DELETE'', ''/auth/api/passkeys/'' @ attr ps ''id'')"
| "localRoute EpPasskeyRename ps = (''POST'', ''/auth/api/passkeys/'' @ attr ps ''id'')"
| "localRoute EpOAuthUnlink ps = (''DELETE'', ''/auth/api/identities/'' @ attr ps ''provider'')"
| "localRoute EpReAuth ps = (''POST'', ''/auth/reauth'')"

primrec tfaRoute :: "tfaEndpoint \<Rightarrow> (string \<times> string) list \<Rightarrow> string \<times> string" where
  "tfaRoute EpTOTPBegin ps = (''POST'', ''/auth/2fa/totp/begin'')"
| "tfaRoute EpTOTPConfirm ps = (''POST'', ''/auth/2fa/totp/confirm'')"
| "tfaRoute EpTOTPDisable ps = (''POST'', ''/auth/2fa/disable'')"
| "tfaRoute EpTwoFactorVerify ps = (''POST'', ''/auth/2fa/verify'')"
| "tfaRoute EpTwoFactorPending ps = (''GET'', ''/auth/2fa/pending'')"

primrec directoryRoute :: "directoryEndpoint \<Rightarrow> (string \<times> string) list \<Rightarrow> string \<times> string" where
  "directoryRoute EpAdminListGroups ps = (''GET'', ''/auth/admin/groups'')"
| "directoryRoute EpAdminCreateGroup ps = (''POST'', ''/auth/admin/groups'')"
| "directoryRoute EpAdminDeleteGroup ps = (''DELETE'', ''/auth/admin/groups/'' @ attr ps ''id'')"
| "directoryRoute EpAdminAddMember ps = (''POST'', ''/auth/admin/groups/'' @ attr ps ''id'' @ ''/members/'' @ attr ps ''userId'')"
| "directoryRoute EpAdminRemoveMember ps = (''DELETE'', ''/auth/admin/groups/'' @ attr ps ''id'' @ ''/members/'' @ attr ps ''userId'')"
| "directoryRoute EpAdminGroupMembers ps = (''GET'', ''/auth/admin/groups/'' @ attr ps ''id'' @ ''/members'')"
| "directoryRoute EpAdminListUsers ps = (''GET'', ''/auth/admin/users'')"
| "directoryRoute EpAdminCreateUser ps = (''POST'', ''/auth/admin/users'')"
| "directoryRoute EpAdminSetDisabled ps = (''POST'', ''/auth/admin/users/'' @ attr ps ''id'' @ ''/disabled'')"
| "directoryRoute EpAdminSetPassword ps = (''POST'', ''/auth/admin/users/'' @ attr ps ''id'' @ ''/password'')"
| "directoryRoute EpAdminSetBan ps = (''POST'', ''/auth/admin/users/'' @ attr ps ''id'' @ ''/ban'')"
| "directoryRoute EpAdminDeleteUser ps = (''DELETE'', ''/auth/admin/users/'' @ attr ps ''id'')"
| "directoryRoute EpAdminImpersonate ps = (''POST'', ''/auth/admin/users/'' @ attr ps ''id'' @ ''/impersonate'')"
| "directoryRoute EpAdminListUserSessions ps = (''GET'', ''/auth/admin/users/'' @ attr ps ''id'' @ ''/sessions'')"
| "directoryRoute EpAdminRevokeUserSessions ps = (''POST'', ''/auth/admin/users/'' @ attr ps ''id'' @ ''/sessions/revoke'')"
| "directoryRoute EpAdminListKeys ps = (''GET'', ''/auth/admin/apikeys'')"
| "directoryRoute EpAdminCreateKey ps = (''POST'', ''/auth/admin/apikeys'')"
| "directoryRoute EpAdminRevokeKey ps = (''DELETE'', ''/auth/admin/apikeys/'' @ attr ps ''id'')"

primrec orgRoute :: "orgEndpoint \<Rightarrow> (string \<times> string) list \<Rightarrow> string \<times> string" where
  "orgRoute EpOrgList ps = (''GET'', ''/auth/orgs'')"
| "orgRoute EpOrgSwitch ps = (''POST'', ''/auth/org/switch'')"
| "orgRoute EpOrgMemberList ps = (''GET'', ''/auth/org/members'')"
| "orgRoute EpOrgMemberSetRole ps = (''POST'', ''/auth/org/members/'' @ attr ps ''userId'')"
| "orgRoute EpOrgMemberRemove ps = (''DELETE'', ''/auth/org/members/'' @ attr ps ''userId'')"
| "orgRoute EpOrgInviteCreate ps = (''POST'', ''/auth/org/invites'')"
| "orgRoute EpOrgInviteList ps = (''GET'', ''/auth/org/invites'')"
| "orgRoute EpOrgInviteRevoke ps = (''DELETE'', ''/auth/org/invites/'' @ attr ps ''id'')"
| "orgRoute EpOrgInviteAccept ps = (''GET'', ''/auth/org/invite/accept'')"
| "orgRoute EpAdminListOrgs ps = (''GET'', ''/auth/admin/orgs'')"
| "orgRoute EpAdminCreateOrg ps = (''POST'', ''/auth/admin/orgs'')"
| "orgRoute EpAdminRenameOrg ps = (''POST'', ''/auth/admin/orgs/'' @ attr ps ''id'')"
| "orgRoute EpAdminDeleteOrg ps = (''DELETE'', ''/auth/admin/orgs/'' @ attr ps ''id'')"
| "orgRoute EpAdminOrgMembers ps = (''GET'', ''/auth/admin/orgs/'' @ attr ps ''id'' @ ''/members'')"
| "orgRoute EpAdminSetOrgMember ps = (''POST'', ''/auth/admin/orgs/'' @ attr ps ''id'' @ ''/members/'' @ attr ps ''userId'')"
| "orgRoute EpAdminRemoveOrgMember ps = (''DELETE'', ''/auth/admin/orgs/'' @ attr ps ''id'' @ ''/members/'' @ attr ps ''userId'')"
| "orgRoute EpAdminOrgGroups ps = (''GET'', ''/auth/admin/orgs/'' @ attr ps ''id'' @ ''/groups'')"
| "orgRoute EpAdminCreateOrgGroup ps = (''POST'', ''/auth/admin/orgs/'' @ attr ps ''id'' @ ''/groups'')"
| "orgRoute EpAdminDeleteOrgGroup ps = (''DELETE'', ''/auth/admin/orgs/'' @ attr ps ''id'' @ ''/groups/'' @ attr ps ''groupId'')"
| "orgRoute EpAdminOrgGroupMembers ps = (''GET'', ''/auth/admin/orgs/'' @ attr ps ''id'' @ ''/groups/'' @ attr ps ''groupId'' @ ''/members'')"
| "orgRoute EpAdminAddOrgGroupMember ps = (''POST'', ''/auth/admin/orgs/'' @ attr ps ''id'' @ ''/groups/'' @ attr ps ''groupId'' @ ''/members/'' @ attr ps ''userId'')"
| "orgRoute EpAdminRemoveOrgGroupMember ps = (''DELETE'', ''/auth/admin/orgs/'' @ attr ps ''id'' @ ''/groups/'' @ attr ps ''groupId'' @ ''/members/'' @ attr ps ''userId'')"

primrec route :: "endpoint \<Rightarrow> (string \<times> string) list \<Rightarrow> string \<times> string" where
  "route (Always x) = alwaysRoute x"
| "route (Local x) = localRoute x"
| "route (SecondFactor x) = tfaRoute x"
| "route (Directory x) = directoryRoute x"
| "route (Organization x) = orgRoute x"

primrec alwaysHandler :: "alwaysEndpoint \<Rightarrow> authn \<Rightarrow> request \<Rightarrow> env \<Rightarrow> reply \<times> env" where
  "alwaysHandler EpLogin = Login"
| "alwaysHandler EpCallback = Callback"
| "alwaysHandler EpLogout = Logout"
| "alwaysHandler EpMe = Me"
| "alwaysHandler EpSessionList = SessionList"
| "alwaysHandler EpSessionRevoke = SessionRevoke"
| "alwaysHandler EpSessionRevokeOthers = SessionRevokeOthers"
| "alwaysHandler EpStopImpersonating = StopImpersonating"

primrec localHandler :: "localEndpoint \<Rightarrow> authn \<Rightarrow> request \<Rightarrow> env \<Rightarrow> reply \<times> env" where
  "localHandler EpPasswordSignup = PasswordSignup"
| "localHandler EpPasswordLogin = PasswordLogin"
| "localHandler EpPasswordResetRequest = PasswordResetRequest"
| "localHandler EpPasswordResetConfirm = PasswordResetConfirm"
| "localHandler EpEmailRequest = EmailRequest"
| "localHandler EpEmailLogin = EmailLogin"
| "localHandler EpEmailVerify = EmailVerify"
| "localHandler EpEmailOTPSend = EmailOTPSend"
| "localHandler EpEmailOTPVerify = EmailOTPVerify"
| "localHandler EpEmailChangeConfirm = EmailChangeConfirm"
| "localHandler EpAccountInfo = AccountInfo"
| "localHandler EpAccountSetPassword = AccountSetPassword"
| "localHandler EpAccountChangeEmailRequest = AccountChangeEmailRequest"
| "localHandler EpAccountDelete = AccountDelete"
| "localHandler EpPasskeyRemove = PasskeyRemove"
| "localHandler EpPasskeyRename = PasskeyRename"
| "localHandler EpOAuthUnlink = OAuthUnlink"
| "localHandler EpReAuth = ReAuth"

primrec tfaHandler :: "tfaEndpoint \<Rightarrow> authn \<Rightarrow> request \<Rightarrow> env \<Rightarrow> reply \<times> env" where
  "tfaHandler EpTOTPBegin = TOTPBegin"
| "tfaHandler EpTOTPConfirm = TOTPConfirm"
| "tfaHandler EpTOTPDisable = TOTPDisable"
| "tfaHandler EpTwoFactorVerify = TwoFactorVerify"
| "tfaHandler EpTwoFactorPending = TwoFactorPending"

primrec directoryHandler :: "directoryEndpoint \<Rightarrow> authn \<Rightarrow> request \<Rightarrow> env \<Rightarrow> reply \<times> env" where
  "directoryHandler EpAdminListGroups = adminListGroups"
| "directoryHandler EpAdminCreateGroup = adminCreateGroup"
| "directoryHandler EpAdminDeleteGroup = adminDeleteGroup"
| "directoryHandler EpAdminAddMember = adminAddMember"
| "directoryHandler EpAdminRemoveMember = adminRemoveMember"
| "directoryHandler EpAdminGroupMembers = adminGroupMembers"
| "directoryHandler EpAdminListUsers = adminListUsers"
| "directoryHandler EpAdminCreateUser = adminCreateUser"
| "directoryHandler EpAdminSetDisabled = adminSetDisabled"
| "directoryHandler EpAdminSetPassword = adminSetPassword"
| "directoryHandler EpAdminSetBan = adminSetBan"
| "directoryHandler EpAdminDeleteUser = adminDeleteUser"
| "directoryHandler EpAdminImpersonate = adminImpersonate"
| "directoryHandler EpAdminListUserSessions = adminListUserSessions"
| "directoryHandler EpAdminRevokeUserSessions = adminRevokeUserSessions"
| "directoryHandler EpAdminListKeys = adminListKeys"
| "directoryHandler EpAdminCreateKey = adminCreateKey"
| "directoryHandler EpAdminRevokeKey = adminRevokeKey"

primrec orgHandler :: "orgEndpoint \<Rightarrow> authn \<Rightarrow> request \<Rightarrow> env \<Rightarrow> reply \<times> env" where
  "orgHandler EpOrgList = OrgList"
| "orgHandler EpOrgSwitch = OrgSwitch"
| "orgHandler EpOrgMemberList = OrgMemberList"
| "orgHandler EpOrgMemberSetRole = OrgMemberSetRole"
| "orgHandler EpOrgMemberRemove = OrgMemberRemove"
| "orgHandler EpOrgInviteCreate = OrgInviteCreate"
| "orgHandler EpOrgInviteList = OrgInviteList"
| "orgHandler EpOrgInviteRevoke = OrgInviteRevoke"
| "orgHandler EpOrgInviteAccept = OrgInviteAccept"
| "orgHandler EpAdminListOrgs = adminListOrgs"
| "orgHandler EpAdminCreateOrg = adminCreateOrg"
| "orgHandler EpAdminRenameOrg = adminRenameOrg"
| "orgHandler EpAdminDeleteOrg = adminDeleteOrg"
| "orgHandler EpAdminOrgMembers = adminOrgMembers"
| "orgHandler EpAdminSetOrgMember = adminSetOrgMember"
| "orgHandler EpAdminRemoveOrgMember = adminRemoveOrgMember"
| "orgHandler EpAdminOrgGroups = adminOrgGroups"
| "orgHandler EpAdminCreateOrgGroup = adminCreateOrgGroup"
| "orgHandler EpAdminDeleteOrgGroup = adminDeleteOrgGroup"
| "orgHandler EpAdminOrgGroupMembers = adminOrgGroupMembers"
| "orgHandler EpAdminAddOrgGroupMember = adminAddOrgGroupMember"
| "orgHandler EpAdminRemoveOrgGroupMember = adminRemoveOrgGroupMember"

primrec handler :: "endpoint \<Rightarrow> authn \<Rightarrow> request \<Rightarrow> env \<Rightarrow> reply \<times> env" where
  "handler (Always x) = alwaysHandler x"
| "handler (Local x) = localHandler x"
| "handler (SecondFactor x) = tfaHandler x"
| "handler (Directory x) = directoryHandler x"
| "handler (Organization x) = orgHandler x"

definition routed :: "request \<Rightarrow> endpoint \<Rightarrow> bool" where
  "routed r ep \<longleftrightarrow> (case route ep (rq_params r) of (m, p) \<Rightarrow>
     rq_path r = p \<and> (rq_method r = m \<or> m = ''GET'' \<and> rq_method r = ''HEAD''))"

definition Handler :: "authn \<Rightarrow> request \<Rightarrow> env \<Rightarrow> reply \<times> env" where
  "Handler A r e = (case CSRFHTTP A r of
     Refuse rep \<Rightarrow> (rep, e)
   | Pass r \<Rightarrow> (case find (routed r) (endpoints A) of
       None \<Rightarrow> (jerr 404 ''not found'', e)
     | Some ep \<Rightarrow> handler ep A r e))"

section \<open>Steps\<close>

inductive engine_step :: "authn \<Rightarrow> env \<Rightarrow> env \<Rightarrow> bool" for A where
  request: "fresh_subject A e \<Longrightarrow> engine_step A e (snd (Handler A r (e\<lparr>e_cookies := []\<rparr>)))"
| gate: "engine_step A e (snd (GateHTTP A r e))"
| groups: "engine_step A e (snd (RequireGroupsHTTP A gs r e))"
| job: "e_jobs e = js @ j # js' \<Longrightarrow> engine_step A e (runJob A j (e\<lparr>e_jobs := js @ js'\<rparr>))"
| tick: "e_now e \<le> t \<Longrightarrow> engine_step A e (e\<lparr>e_now := t\<rparr>)"
| sweep: "engine_step A e (e\<lparr>e_ip := gc (e_now e) (e_ip e), e_acct := gc (e_now e) (e_acct e)\<rparr>)"
| other: "steps_to (e_store e) s \<Longrightarrow> engine_step A e (e\<lparr>e_store := s\<rparr>)"
| login: "engine_step A e (snd (openSession A r base sub uid ttl e))"

text \<open>
  \<open>other\<close> is any call of a component outside the engine (SCIM, LDAP, the OAuth provider, social login and
  passkey ceremonies) on the stores; those that open a session do so as in \<open>login\<close>, with an id drawn
  from the random source.
\<close>

inductive engine_run :: "authn \<Rightarrow> env \<Rightarrow> env \<Rightarrow> bool" for A where
  start: "engine_run A e e"
| next_step: "engine_run A e e' \<Longrightarrow> engine_step A e' e'' \<Longrightarrow> engine_run A e e''"

context env_effects
begin

lemmas keeps_quiet_handlers =
  keeps_Login keeps_Logout keeps_Me keeps_SessionList keeps_SessionRevoke keeps_SessionRevokeOthers
  keeps_StopImpersonating keeps_PasswordResetRequest keeps_PasswordResetConfirm keeps_EmailRequest
  keeps_EmailOTPSend keeps_EmailChangeConfirm keeps_AccountInfo keeps_AccountSetPassword
  keeps_AccountChangeEmailRequest keeps_AccountDelete keeps_PasskeyRemove keeps_PasskeyRename
  keeps_OAuthUnlink keeps_ReAuth keeps_TOTPBegin keeps_TOTPConfirm keeps_TOTPDisable keeps_TwoFactorPending
  keeps_adminListGroups keeps_adminCreateGroup keeps_adminDeleteGroup keeps_adminAddMember
  keeps_adminRemoveMember keeps_adminGroupMembers keeps_adminListUsers keeps_adminSetDisabled
  keeps_adminSetPassword keeps_adminSetBan keeps_adminDeleteUser keeps_adminListUserSessions
  keeps_adminRevokeUserSessions keeps_adminListKeys keeps_adminCreateKey keeps_adminRevokeKey keeps_OrgList
  keeps_OrgMemberList keeps_OrgMemberSetRole keeps_OrgInviteCreate keeps_OrgInviteList keeps_OrgInviteRevoke
  keeps_adminListOrgs keeps_adminCreateOrg keeps_adminRenameOrg keeps_adminDeleteOrg keeps_adminOrgMembers
  keeps_adminSetOrgMember keeps_adminRemoveOrgMember keeps_adminOrgGroups keeps_adminCreateOrgGroup
  keeps_adminDeleteOrgGroup keeps_adminOrgGroupMembers keeps_adminAddOrgGroupMember
  keeps_adminRemoveOrgGroupMember

end

definition opening_endpoints :: "endpoint set" where
  "opening_endpoints = {Always EpCallback, Local EpPasswordLogin, Local EpEmailLogin, Local EpEmailVerify,
     Local EpEmailOTPVerify, SecondFactor EpTwoFactorVerify, Directory EpAdminImpersonate,
     Organization EpOrgSwitch, Organization EpOrgMemberRemove, Organization EpOrgInviteAccept}"

context env_effects
begin

text \<open>Signing up needs an unused subject; the endpoints above may open or renew a session.\<close>

lemma keeps_quiet:
  assumes "P e" and "fresh_subject A e" and "ep \<notin> opening_endpoints"
  shows "keeps (handler ep A r e)"
proof (cases ep)
  case (Always x)
  then show ?thesis using assms by (cases x) (simp_all add: keeps_quiet_handlers opening_endpoints_def)
next
  case (Local x)
  then show ?thesis
    using assms by (cases x) (simp_all add: keeps_quiet_handlers keeps_PasswordSignup opening_endpoints_def)
next
  case (SecondFactor x)
  then show ?thesis using assms by (cases x) (simp_all add: keeps_quiet_handlers opening_endpoints_def)
next
  case (Directory x)
  then show ?thesis
    using assms by (cases x) (simp_all add: keeps_quiet_handlers keeps_adminCreateUser opening_endpoints_def)
next
  case (Organization x)
  then show ?thesis using assms by (cases x) (simp_all add: keeps_quiet_handlers opening_endpoints_def)
qed

end

context env_invariant
begin

lemma keeps_handler:
  assumes "store_authorizer A" and "P e" and "fresh_subject A e"
  shows "keeps (handler ep A r e)"
proof (cases "ep \<in> opening_endpoints")
  case True
  then show ?thesis
    using assms unfolding opening_endpoints_def
    by (auto intro: keeps_Callback keeps_PasswordLogin keeps_EmailLogin keeps_EmailVerify keeps_EmailOTPVerify keeps_TwoFactorVerify keeps_adminImpersonate keeps_OrgSwitch keeps_OrgMemberRemove keeps_OrgInviteAccept)
qed (rule keeps_quiet [OF assms(2,3)])

lemma keeps_Handler:
  assumes "store_authorizer A" and "P e" and "fresh_subject A e"
  shows "keeps (Handler A r e)"
  using keeps_handler [OF assms] assms(2)
  by (auto simp: Handler_def split: verdict.split option.split intro: keeps_ret)

lemma P_engine_step:
  assumes "engine_step A e e'" and "store_authorizer A" and "P e"
    and tick: "\<And>e t. P e \<Longrightarrow> e_now e \<le> t \<Longrightarrow> P (e\<lparr>e_now := t\<rparr>)" and forget: "\<And>e. P e \<Longrightarrow> P (e\<lparr>e_cookies := []\<rparr>)"
  shows "P e'"
  using assms(1)
proof cases
  case (request r)
  then have "fresh_subject A (e\<lparr>e_cookies := []\<rparr>)" by (simp add: fresh_subject_def)
  from keeps_Handler [OF assms(2) forget [OF assms(3)] this] request show ?thesis by (simp add: keeps_def)
next
  case (gate r)
  then show ?thesis using keeps_gate [OF assms(3)] by (simp add: keeps_def)
next
  case (groups gs r)
  then show ?thesis using keeps_RequireGroups [OF assms(3)] by (simp add: keeps_def)
next
  case (job js j js')
  then show ?thesis using assms(3) by (auto intro: P_runJob P_effects)
next
  case (tick t)
  then show ?thesis using assms(3,4) by simp
next
  case sweep
  have "quiet e e'" by (simp add: sweep quiet_def sess_cookies_def)
  then show ?thesis by (rule same [OF assms(3)])
next
  case (other s)
  then show ?thesis by (intro step [OF assms(3)]) simp_all
next
  case (login r base sub uid ttl)
  then show ?thesis using opened [OF assms(3)] by simp
qed

lemma P_engine_run:
  assumes "engine_run A e e'" and "store_authorizer A" and "P e"
    and "\<And>e t. P e \<Longrightarrow> e_now e \<le> t \<Longrightarrow> P (e\<lparr>e_now := t\<rparr>)" and "\<And>e. P e \<Longrightarrow> P (e\<lparr>e_cookies := []\<rparr>)"
  shows "P e'"
  using assms by (induction) (auto intro: P_engine_step)

end

section \<open>A configuration and a request to try the laws on\<close>

definition demo_authn :: authn where
  "demo_authn = \<lparr>a_lib = demo_lib, a_SessionSecret = demo_secret, a_PreviousSessionSecrets = [], a_AllowedGroups = [],
     a_TrustedOrigins = [], a_AppURL = ''https://app'', a_AppHost = ''app'', a_RedirectOrigin = [], a_OwnerEmail = [],
     a_OIDCAssumeVerified = False, a_ClientID = [], a_PublicPath = None, a_enabled = False, a_localEnabled = True,
     a_social = False, a_creds = True, a_dir = True, a_orgs = True, a_twoFactor = True, a_sessions = True,
     a_passkeys = False, a_mailer = True, a_endSession = [], a_authorizer = Some memAuthorizer, a_breach = None,
     a_originOf = (\<lambda>u. u), a_authCodeURL = (\<lambda>st no ve. st), a_exchange = (\<lambda>code ve. Some (Some code)), a_verifyID = (\<lambda>now raw. None)\<rparr>"

definition demo_env :: "store \<Rightarrow> env" where
  "demo_env s = \<lparr>e_now = 1000, e_rand = 0, e_store = s, e_ip = newRateLimiter 20 (5 * minute_ns),
     e_acct = newRateLimiter 20 (5 * minute_ns), e_cookies = [], e_mail = [], e_jobs = []\<rparr>"

definition demo_request :: "(string \<times> string) list \<Rightarrow> (string \<times> string) list \<Rightarrow> request" where
  "demo_request cookies body = \<lparr>rq_method = ''POST'', rq_path = ''/auth/password/signup'', rq_uri = ''/auth/password/signup'', rq_cookies = cookies,
     rq_headers = [], rq_query = [], rq_params = [], rq_body = Some body, rq_flags = [], rq_lists = [], rq_nums = [],
     rq_ip = ''1.2.3.4'', rq_rateIP = ''1.2.3.4'', rq_session = None\<rparr>"

section \<open>The stores' invariant and the stores' histories\<close>

text \<open>Opening a session records at most one, under an id drawn from the random source.\<close>

lemma openSession_effect:
  assumes "snd (openSession A r base sub uid ttl e) = e'"
  shows "e_now e' = e_now e \<and> e_rand e \<le> e_rand e' \<and> (e_store e' = e_store e \<or>
     (\<exists>rc. a_sessions A \<and> sr_SID rc = randToken (a_lib A) (e_rand e) \<and> e_rand e < e_rand e' \<and>
        e_store e' = snd (RecordSession (e_now e) (e_store e) rc)))"
proof (cases "a_sessions A")
  case False
  then show ?thesis
    using assms by (auto simp: openSession_def newSessionID_def recordSession_def split: option.splits)
next
  case True
  let ?rc = "\<lparr>sr_SID = randToken (a_lib A) (e_rand e), sr_Subject = sub, sr_UserID = uid,
      sr_UserAgent = Engine.truncate (header r ''User-Agent'') 400, sr_IP = rq_ip r, sr_CreatedAt = e_now e,
      sr_ExpiresAt = e_now e + ttl, sr_Current = False\<rparr>"
  have "e_now e' = e_now e \<and> e_rand e < e_rand e' \<and>
      (e_store e' = e_store e \<or> e_store e' = snd (RecordSession (e_now e) (e_store e) ?rc))"
    using assms True
    by (auto simp: openSession_def newSessionID_def recordSession_def freshToken_def op_def split_beta
        split: option.splits sum.splits if_splits)
  moreover have "sr_SID ?rc = randToken (a_lib A) (e_rand e)" by simp
  ultimately show ?thesis using True by (meson less_imp_le)
qed

lemma mem_trace_trans: "mem_trace s evs s' \<Longrightarrow> mem_step s' ev s'' \<Longrightarrow> \<exists>evs. mem_trace s evs s''"
  by (blast intro: mem_trace.extend)

lemma record_step: "mem_step s (SessionRecorded (sr_SID rc)) (snd (RecordSession now s rc))"
  unfolding mem_step_def by (blast intro: tfa_step.RecordSession)

lemma opened_store:
  assumes "Q (e_store e)" and "\<And>s ev s'. Q s \<Longrightarrow> mem_step s ev s' \<Longrightarrow> Q s'"
  shows "Q (e_store (snd (openSession A r base sub uid ttl e)))"
  using openSession_effect [OF refl, of A r base sub uid ttl e] assms record_step by metis

interpretation stores: env_invariant "\<lambda>e. store_ok (e_store e)" A for A
proof
  show "store_ok (e_store e')" if "store_ok (e_store e)" "steps_to (e_store e) (e_store e')" for e e'
    using that mem_step_ok unfolding steps_to_def by blast
  show "store_ok (e_store (snd (openSession A r base sub uid ttl e)))" if "store_ok (e_store e)" for r base sub uid ttl e
    using that mem_step_ok by (rule opened_store)
qed (simp_all add: quiet_def)

interpretation history: env_invariant "\<lambda>e. \<exists>evs. mem_trace s evs (e_store e)" A for s A
proof
  show "\<exists>evs. mem_trace s evs (e_store e')"
    if "\<exists>evs. mem_trace s evs (e_store e)" "steps_to (e_store e) (e_store e')" for e e'
    using that mem_trace_trans unfolding steps_to_def by blast
  show "\<exists>evs. mem_trace s evs (e_store (snd (openSession A r base sub uid ttl e)))"
    if "\<exists>evs. mem_trace s evs (e_store e)" for r base sub uid ttl e
    using that by (rule opened_store) (blast intro: mem_trace.extend)
qed (simp_all add: quiet_def)

text \<open>
  Whatever requests, background jobs, clock ticks and calls of other components the engine
  serves, in any order, the stores stay well formed, and their new state is reached from the old
  one by a history of the stores' own methods, so every law of those histories holds of the engine.
\<close>

theorem engine_keeps_stores:
  assumes "store_authorizer A" and "store_ok (e_store e)" and "engine_run A e e'"
  shows "store_ok (e_store e') \<and> (\<exists>evs. mem_trace (e_store e) evs (e_store e'))"
proof
  show "store_ok (e_store e')"
    using stores.P_engine_run [OF assms(3,1,2)] by simp
  have "\<exists>evs. mem_trace (e_store e) evs (e_store e)" by (blast intro: mem_trace.start)
  from history.P_engine_run [OF assms(3,1) this] show "\<exists>evs. mem_trace (e_store e) evs (e_store e')" by simp
qed

theorem engine_keeps_stores_witness:
  "store_ok (e_store (snd (Handler demo_authn (demo_request [] [(''Email'', ''a@b.c''), (''Password'', ''correct horse'')])
     (demo_env New))))"
proof -
  let ?r = "demo_request [] [(''Email'', ''a@b.c''), (''Password'', ''correct horse'')]"
  have "fresh_subject demo_authn (demo_env New)"
    by (simp add: fresh_subject_def demo_env_def New_def findBySub_def mfind_def)
  then have "engine_step demo_authn (demo_env New) (snd (Handler demo_authn ?r ((demo_env New)\<lparr>e_cookies := []\<rparr>)))"
    by (rule engine_step.request)
  then have "engine_run demo_authn (demo_env New) (snd (Handler demo_authn ?r (demo_env New)))"
    by (intro engine_run.next_step [OF engine_run.start]) (simp add: demo_env_def)
  moreover have "store_authorizer demo_authn" by (simp add: store_authorizer_def demo_authn_def)
  moreover have "store_ok (e_store (demo_env New))" by (simp add: demo_env_def)
  ultimately show ?thesis using engine_keeps_stores by blast
qed

end
