(* ===== verification/GateLaws.thy ===== *)
theory GateLaws
  imports EngineTrace OrgLaws
begin

text \<open>
  Laws of the gates: a session that was opened is admitted until it expires or is revoked, and once
  revoked never again, whatever the engine serves in between; the cross-site check covers every
  endpoint that acts on the caller's session; the organization gates follow the memberships of the
  moment; a key bound to an organization opens nothing else.
\<close>

section \<open>Sessions at the gate\<close>

text \<open>What the laws ask of the configuration: a JWT library, and an own secret apart from the old ones.\<close>

definition signing_ok :: "authn \<Rightarrow> bool" where
  "signing_ok A \<longleftrightarrow> jwt_ok (a_lib A) \<and>
     keys_separate (a_lib A) (filter (\<lambda>k. k \<noteq> a_SessionSecret A) (secrets A)) (a_SessionSecret A)"

lemma own_session:
  assumes "signing_ok A" and "mintSessionWith (a_lib A) (a_SessionSecret A) b sub now0 ttl = Some tk"
  shows "parseSessionMulti (a_lib A) now (secrets A) tk = (if sub \<noteq> [] \<and> now < numeric_date (now0 + ttl)
     then Some (b\<lparr>sc_Subject := sub, sc_ExpiresAt := Some (numeric_date (now0 + ttl))\<rparr>) else None)"
proof (rule parse_minted)
  have "minSessionSecret \<le> length (a_SessionSecret A)"
    using assms(2) by (auto simp: mintSessionWith_def signJWT_def split: if_splits)
  then show "a_SessionSecret A \<in> set (secrets A)" by (simp add: secrets_def set_verifySecrets)
qed (use assms in \<open>auto simp: signing_ok_def\<close>)

lemma sess_cookies_effects [simp]:
  "sess_cookies (issueCSRF A e) = sess_cookies e" "sess_cookies (clearCookie n e) = sess_cookies e"
  "sess_cookies (snd (freshToken A e)) = sess_cookies e" "sess_cookies (snd (newSessionID A e)) = sess_cookies e"
  by (auto simp: issueCSRF_def freshToken_def clearCookie_def newSessionID_def sess_cookies_setCookie)

text \<open>What opening a session does when it succeeds.\<close>

lemma openSession_ok:
  assumes "openSession A r base sub uid ttl e = (Ok (), e1)"
  obtains sid rec tk where "sid = fst (newSessionID A e)" and "sr_SID rec = sid" and "sr_Subject rec = sub" and "sr_UserID rec = uid"
    and "sr_ExpiresAt rec = e_now e + ttl"
    and "mintSessionWith (a_lib A) (a_SessionSecret A) (base\<lparr>sc_SID := sid\<rparr>) sub (e_now e) ttl = Some tk"
    and "e_store e1 = (if a_sessions A \<and> sid \<noteq> [] then snd (RecordSession (e_now e) (e_store e) rec) else e_store e)"
    and "e_now e1 = e_now e"
    and "sess_cookies e1 = sess_cookies e @ (if 0 \<le> ttl div second_ns
         then [\<lparr>ck_name = sessionCookie, ck_value = tk, ck_maxAge = ttl div second_ns\<rparr>] else [])"
proof -
  obtain sid e' where n: "newSessionID A e = (sid, e')" by fastforce
  then have "e' = snd (newSessionID A e)" by simp
  then have e': "e_store e' = e_store e" "e_now e' = e_now e" "sess_cookies e' = sess_cookies e" by simp_all
  let ?rec = "\<lparr>sr_SID = sid, sr_Subject = sub, sr_UserID = uid,
      sr_UserAgent = Engine.truncate (header r ''User-Agent'') 400, sr_IP = rq_ip r, sr_CreatedAt = e_now e,
      sr_ExpiresAt = e_now e + ttl, sr_Current = False\<rparr>"
  from assms obtain tk where tk: "mintSessionWith (a_lib A) (a_SessionSecret A) (base\<lparr>sc_SID := sid\<rparr>) sub (e_now e) ttl = Some tk"
    by (auto simp: openSession_def n e' split: option.splits)
  show thesis
  proof (rule that [of sid ?rec tk])
    show "e_store e1 = (if a_sessions A \<and> sid \<noteq> [] then snd (RecordSession (e_now e) (e_store e) ?rec) else e_store e)"
      "e_now e1 = e_now e"
      "sess_cookies e1 = sess_cookies e @ (if 0 \<le> ttl div second_ns
         then [\<lparr>ck_name = sessionCookie, ck_value = tk, ck_maxAge = ttl div second_ns\<rparr>] else [])"
      using assms by (auto simp: openSession_def n e' tk recordSession_def sess_cookies_setCookie op_def split_beta
          split: if_splits sum.splits)
  qed (simp_all add: n tk)
qed

lemma numeric_date_later: "second_ns \<le> ttl \<Longrightarrow> now < numeric_date (now + ttl)"
proof -
  assume "second_ns \<le> ttl"
  moreover have "x < (x div second_ns) * second_ns + second_ns" for x
    by (simp add: second_ns_def)
  ultimately show ?thesis by (simp add: numeric_date_def) (smt (verit))
qed

lemma recorded_not_revoked:
  "IsRevoked (snd (RecordSession now s rc)) (sr_SID rc) = Ok False"
  by (simp add: RecordSession_def IsRevoked_def Let_def)

text \<open>
  C14: The cookie of a session that was opened carries the claims, the subject and the expiry it was
  opened with: it is a session at once, and in any later state until the second it expires or its
  record is revoked or gone, and the gate attaches it to a request of the application.
\<close>

theorem opened_session_admitted:
  assumes "signing_ok A" and "sub \<noteq> []" and "second_ns \<le> ttl" and "sess_cookies e = []"
    and "openSession A r0 base sub uid ttl e = (Ok (), e1)"
  shows "\<exists>c. sess_cookies e1 = [c] \<and> ck_maxAge c = ttl div second_ns \<and>
    (\<forall>r. cookieValue r sessionCookie = ck_value c \<longrightarrow>
      (let sc = base\<lparr>sc_SID := fst (newSessionID A e), sc_Subject := sub, sc_ExpiresAt := Some (numeric_date (e_now e + ttl))\<rparr>
       in sessionOf A r e1 = Some sc \<and>
          (\<forall>e2. sessionOf A r e2 =
             (if e_now e2 < numeric_date (e_now e + ttl) \<and> \<not> sessionRevoked A sc e2 then Some sc else None)) \<and>
          (enforcing A \<and> \<not> publicPath A (rq_path r) \<longrightarrow> fst (GateHTTP A r e1) = Pass (r\<lparr>rq_session := Some sc\<rparr>))))"
proof -
  let ?sid = "fst (newSessionID A e)" and ?x = "numeric_date (e_now e + ttl)"
  let ?sc = "base\<lparr>sc_SID := ?sid, sc_Subject := sub, sc_ExpiresAt := Some ?x\<rparr>"
  obtain rec tk where o: "sr_SID rec = ?sid"
      "mintSessionWith (a_lib A) (a_SessionSecret A) (base\<lparr>sc_SID := ?sid\<rparr>) sub (e_now e) ttl = Some tk"
      "e_store e1 = (if a_sessions A \<and> ?sid \<noteq> [] then snd (RecordSession (e_now e) (e_store e) rec) else e_store e)"
      "e_now e1 = e_now e"
      "sess_cookies e1 = (if 0 \<le> ttl div second_ns
         then [\<lparr>ck_name = sessionCookie, ck_value = tk, ck_maxAge = ttl div second_ns\<rparr>] else [])"
    by (rule openSession_ok [OF assms(5)]) (use assms(4) in simp)
  have pos: "0 \<le> ttl div second_ns" using assms(3) by (simp add: second_ns_def)
  have all: "sessionOf A r e2 = (if e_now e2 < ?x \<and> \<not> sessionRevoked A ?sc e2 then Some ?sc else None)"
    if "cookieValue r sessionCookie = tk" for r e2
    using own_session [OF assms(1) o(2)] assms(2) that by (simp add: sessionOf_def)
  have "\<not> sessionRevoked A ?sc e1"
    using recorded_not_revoked [of "e_now e" "e_store e" rec] o(1) by (simp add: sessionRevoked_def o(3))
  then have now: "sessionOf A r e1 = Some ?sc" if "cookieValue r sessionCookie = tk" for r
    using all [OF that, of e1] numeric_date_later [OF assms(3), of "e_now e"] by (simp add: o(4))
  show ?thesis
    using pos all now by (intro exI [of _ "\<lparr>ck_name = sessionCookie, ck_value = tk, ck_maxAge = ttl div second_ns\<rparr>"])
      (simp add: o(5) Let_def GateHTTP_def)
qed

text \<open>No cookie of a revoked session is a session, and the id is never recorded again.\<close>

definition dead_session :: "authn \<Rightarrow> string \<Rightarrow> env \<Rightarrow> bool" where
  "dead_session A sid e \<longleftrightarrow> store_ok (e_store e) \<and> IsRevoked (e_store e) sid = Ok True \<and>
     (\<forall>k \<ge> e_rand e. randToken (a_lib A) k \<noteq> sid)"

interpretation dead: env_invariant "dead_session A sid" A for A sid
proof
  have ev: "dead_session A sid e'"
    if "dead_session A sid e" "mem_step (e_store e) ev (e_store e')" "ev \<noteq> SessionRecorded sid" "e_rand e \<le> e_rand e'" for e e' ev
    using that refused_step [of "e_store e" ev "e_store e'" sid] mem_step_ok [of "e_store e" ev "e_store e'"]
    by (auto simp: dead_session_def refused_def)
  show "dead_session A sid e'" if "dead_session A sid e" "steps_to (e_store e) (e_store e')" "e_rand e \<le> e_rand e'" for e e'
    using that ev unfolding steps_to_def by blast
  show "dead_session A sid (snd (openSession A r base sub uid ttl e))" if d: "dead_session A sid e" for r base sub uid ttl e
  proof -
    let ?e = "snd (openSession A r base sub uid ttl e)"
    from openSession_effect [OF refl, of A r base sub uid ttl e]
    consider "e_store ?e = e_store e" "e_rand e \<le> e_rand ?e"
      | rc where "sr_SID rc = randToken (a_lib A) (e_rand e)" "e_rand e \<le> e_rand ?e"
        "e_store ?e = snd (RecordSession (e_now e) (e_store e) rc)" by blast
    then show ?thesis
    proof cases
      case (2 rc)
      have "sr_SID rc \<noteq> sid" using d 2(1) by (simp add: dead_session_def)
      then show ?thesis using ev [OF d, of "SessionRecorded (sr_SID rc)" ?e] record_step [of "e_store e" rc "e_now e"] 2 by simp
    qed (use d in \<open>auto simp: dead_session_def\<close>)
  qed
qed (auto simp: quiet_def dead_session_def)

lemma dead_forever: "store_authorizer A \<Longrightarrow> engine_run A e e' \<Longrightarrow> dead_session A sid e \<Longrightarrow> dead_session A sid e'"
  by (rule dead.P_engine_run) (simp_all add: dead_session_def)

lemma dead_sessionOf:
  assumes "dead_session A sid e" and "a_sessions A" and "sid \<noteq> []"
    and "parseSessionMulti (a_lib A) (e_now e) (secrets A) (cookieValue r sessionCookie) = Some sc" and "sc_SID sc = sid"
  shows "sessionOf A r e = None" and "currentAuthUser A r e = None" and "\<not> StepUpFresh A r m e"
  using assms by (simp_all add: sessionOf_def currentAuthUser_def StepUpFresh_def sessionRevoked_def dead_session_def)

text \<open>Signing out kills the session on the server, not only the cookie in the browser.\<close>

lemma revoked_now:
  "IsRevoked (snd (RevokeSession s sid)) sid = Ok True"
  by (simp add: RevokeSession_def IsRevoked_def split: option.split)

lemma Logout_store:
  assumes "parseSessionMulti (a_lib A) (e_now e) (secrets A) (cookieValue r sessionCookie) = Some sc"
    and "sc_SID sc \<noteq> []" and "a_sessions A"
  shows "e_store (snd (Logout A r e)) = snd (RevokeSession (e_store e) (sc_SID sc))"
    and "e_rand (snd (Logout A r e)) = e_rand e"
proof -
  have "cookieValue r sessionCookie \<noteq> []" using assms(1) by (auto simp: parseSessionMulti_def)
  then show "e_store (snd (Logout A r e)) = snd (RevokeSession (e_store e) (sc_SID sc))"
    "e_rand (snd (Logout A r e)) = e_rand e"
    using assms by (simp_all add: Logout_def Let_def)
qed


lemma demo_signing: "signing_ok demo_authn"
  unfolding signing_ok_def secrets_def
  by (simp add: demo_authn_def verifySecrets_def demo_separate keys_separate_def)

definition demo_base :: SessionClaims where
  "demo_base = base_claims ''a@b.c'' ''Ann'' [] [] [] ([], [])"

lemma demo_open:
  "\<exists>e1. openSession demo_authn r demo_base ''u'' ''1'' sessionTTL (demo_env New) = (Ok (), e1)"
  by (simp add: openSession_def newSessionID_def freshToken_def demo_authn_def demo_env_def mintSessionWith_def signJWT_def
      minSessionSecret_def recordSession_def op_def RecordSession_def Let_def)

theorem opened_session_admitted_witness:
  "\<exists>c. sess_cookies (snd (openSession demo_authn (demo_request [] []) demo_base ''u'' ''1'' sessionTTL (demo_env New))) = [c] \<and>
     ck_maxAge c = sessionTTL div second_ns"
proof -
  obtain e1 where o: "openSession demo_authn (demo_request [] []) demo_base ''u'' ''1'' sessionTTL (demo_env New) = (Ok (), e1)"
    using demo_open by blast
  have "sess_cookies (demo_env New) = []" "second_ns \<le> sessionTTL"
    by (simp_all add: sess_cookies_def demo_env_def second_ns_def sessionTTL_def hour_def minute_def)
  from opened_session_admitted [OF demo_signing _ this(2,1) o] show ?thesis by (simp add: o) blast
qed

text \<open>A signed-in caller of the demonstration configuration, over any stores.\<close>

definition demo_cookie :: string where
  "demo_cookie = the (mintSessionWith demo_lib demo_secret (demo_base\<lparr>sc_SID := ''0''\<rparr>) ''u'' 1000 sessionTTL)"

definition demo_claims :: SessionClaims where
  "demo_claims = demo_base\<lparr>sc_SID := ''0'', sc_Subject := ''u'', sc_ExpiresAt := Some (numeric_date (1000 + sessionTTL))\<rparr>"

definition demo_signed_in :: "store \<Rightarrow> env" where
  "demo_signed_in s = snd (openSession demo_authn (demo_request [] []) demo_base ''u'' ''1'' sessionTTL (demo_env s))"

lemma demo_authn_simps [simp]:
  "a_lib demo_authn = demo_lib" "a_SessionSecret demo_authn = demo_secret" "a_sessions demo_authn" "enforcing demo_authn"
  "a_creds demo_authn" "a_dir demo_authn" "a_orgs demo_authn" "a_twoFactor demo_authn" "a_mailer demo_authn"
  "secrets demo_authn = [demo_secret]" "store_authorizer demo_authn" "LocalEnabled demo_authn" "OrgsEnabled demo_authn"
  by (simp_all add: demo_authn_def enforcing_def LocalEnabled_def OrgsEnabled_def secrets_def verifySecrets_def store_authorizer_def)

lemma demo_rand [simp]: "randToken demo_lib k = format_uint k"
  by (simp add: randToken_def demo_lib_def)

lemma demo_parse:
  "parseSessionMulti demo_lib now [demo_secret] demo_cookie =
     (if now < numeric_date (1000 + sessionTTL) then Some demo_claims else None)"
proof -
  have m: "mintSessionWith demo_lib demo_secret (demo_base\<lparr>sc_SID := ''0''\<rparr>) ''u'' 1000 sessionTTL = Some demo_cookie"
    by (simp add: demo_cookie_def mintSessionWith_def signJWT_def minSessionSecret_def)
  show ?thesis
    using own_session [OF demo_signing, of "demo_base\<lparr>sc_SID := ''0''\<rparr>" "''u''" 1000 sessionTTL demo_cookie now] m
    by (simp add: demo_claims_def)
qed

lemma demo_later: "1000 < numeric_date (1000 + sessionTTL)"
  by (rule numeric_date_later) (simp add: second_ns_def sessionTTL_def hour_def minute_def)

lemma demo_signed_in:
  "e_store (demo_signed_in s) = snd (RecordSession 1000 s \<lparr>sr_SID = ''0'', sr_Subject = ''u'', sr_UserID = ''1'',
     sr_UserAgent = [], sr_IP = ''1.2.3.4'', sr_CreatedAt = 1000, sr_ExpiresAt = 1000 + sessionTTL, sr_Current = False\<rparr>)"
  "e_now (demo_signed_in s) = 1000" "e_rand (demo_signed_in s) = 2" "e_jobs (demo_signed_in s) = []"
  by (simp_all add: demo_signed_in_def openSession_def newSessionID_def freshToken_def demo_env_def mintSessionWith_def signJWT_def
      minSessionSecret_def recordSession_def op_def split_beta RecordSession_def Let_def issueCSRF_def setCookie_def
      Engine.truncate_def header_def attr_def demo_request_def format_uint.simps)

lemma demo_fresh_sid: "2 \<le> k \<Longrightarrow> format_uint k \<noteq> ''0''"
proof -
  have "format_uint 0 = ''0''" by code_simp
  then show "2 \<le> k \<Longrightarrow> format_uint k \<noteq> ''0''" by (metis format_uint_inj not_numeral_le_zero)
qed


section \<open>Cross-site requests\<close>

definition exempt_endpoints :: "localEndpoint list" where
  "exempt_endpoints = [EpPasswordSignup, EpPasswordLogin, EpPasswordResetRequest, EpPasswordResetConfirm, EpEmailRequest,
     EpEmailOTPSend, EpEmailOTPVerify]"

definition path_checked :: "string \<Rightarrow> bool" where
  "path_checked p \<longleftrightarrow> has_prefix p ''/auth/'' \<and> \<not> isSocialCallback p \<and> \<not> List.member csrfExempt p"

lemmas path_simps = path_checked_def has_prefix_def isSocialCallback_def csrfExempt_def

lemma always_checked: "fst (alwaysRoute x ps) \<noteq> ''GET'' \<Longrightarrow> path_checked (snd (alwaysRoute x ps))"
  by (cases x) (simp_all add: path_simps)

lemma local_checked:
  "fst (localRoute x ps) \<noteq> ''GET'' \<Longrightarrow> x \<notin> set exempt_endpoints \<Longrightarrow> path_checked (snd (localRoute x ps))"
  by (cases x) (simp_all add: path_simps exempt_endpoints_def)

lemma tfa_checked: "fst (tfaRoute x ps) \<noteq> ''GET'' \<Longrightarrow> x \<noteq> EpTwoFactorVerify \<Longrightarrow> path_checked (snd (tfaRoute x ps))"
  by (cases x) (simp_all add: path_simps)

lemma directory_checked: "path_checked (snd (directoryRoute x ps))"
  by (cases x) (simp_all add: path_simps)

lemma org_checked: "path_checked (snd (orgRoute x ps))"
  by (cases x) (simp_all add: path_simps)

text \<open>The handlers that answer without a token read no cookie of an established session.\<close>

lemma reads_of_body:
  "rq_body (r\<lparr>rq_cookies := cs\<rparr>) = rq_body r" "field (r\<lparr>rq_cookies := cs\<rparr>) k = field r k"
  "flag (r\<lparr>rq_cookies := cs\<rparr>) k = flag r k" "header (r\<lparr>rq_cookies := cs\<rparr>) k = header r k"
  "rq_ip (r\<lparr>rq_cookies := cs\<rparr>) = rq_ip r" "rq_rateIP (r\<lparr>rq_cookies := cs\<rparr>) = rq_rateIP r"
  by (simp_all add: field_def flag_def header_def)

lemma login_cookieless:
  "openSession A (r\<lparr>rq_cookies := cs\<rparr>) base sub uid ttl e = openSession A r base sub uid ttl e"
  "signedIn m (r\<lparr>rq_cookies := cs\<rparr>) res e = signedIn m r res e"
  "signupFinish A (r\<lparr>rq_cookies := cs\<rparr>) em u e = signupFinish A r em u e"
  unfolding openSession_def recordSession_def signedIn_def signupFinish_def reads_of_body by (rule refl)+

lemma complete_cookieless:
  "completeLogin A (r\<lparr>rq_cookies := cs\<rparr>) i rm ff e = completeLogin A r i rm ff e"
  "completePendingLogin A (r\<lparr>rq_cookies := cs\<rparr>) pc e = completePendingLogin A r pc e"
  unfolding completeLogin_def completePendingLogin_def login_cookieless by (rule refl)+

lemma exempt_cookieless:
  assumes "x \<in> set exempt_endpoints"
  shows "localHandler x A (r\<lparr>rq_cookies := cs\<rparr>) e = localHandler x A r e"
proof -
  have "PasswordSignup A (r\<lparr>rq_cookies := cs\<rparr>) e = PasswordSignup A r e"
    "PasswordLogin A (r\<lparr>rq_cookies := cs\<rparr>) e = PasswordLogin A r e"
    "PasswordResetRequest A (r\<lparr>rq_cookies := cs\<rparr>) e = PasswordResetRequest A r e"
    "PasswordResetConfirm A (r\<lparr>rq_cookies := cs\<rparr>) e = PasswordResetConfirm A r e"
    "EmailRequest A (r\<lparr>rq_cookies := cs\<rparr>) e = EmailRequest A r e"
    "EmailOTPSend A (r\<lparr>rq_cookies := cs\<rparr>) e = EmailOTPSend A r e"
    "EmailOTPVerify A (r\<lparr>rq_cookies := cs\<rparr>) e = EmailOTPVerify A r e"
    unfolding PasswordSignup_def PasswordLogin_def PasswordResetRequest_def PasswordResetConfirm_def EmailRequest_def
      EmailOTPSend_def EmailOTPVerify_def login_cookieless complete_cookieless reads_of_body by (rule refl)+
  with assms show ?thesis by (auto simp: exempt_endpoints_def)
qed

lemma verify_cookieless:
  assumes "attr cs twoFactorPendingCookie = cookieValue r twoFactorPendingCookie"
  shows "TwoFactorVerify A (r\<lparr>rq_cookies := cs\<rparr>) e = TwoFactorVerify A r e"
proof -
  have "cookieValue (r\<lparr>rq_cookies := cs\<rparr>) twoFactorPendingCookie = cookieValue r twoFactorPendingCookie"
    using assms by (simp add: cookieValue_def)
  note same = this
  show ?thesis unfolding TwoFactorVerify_def complete_cookieless reads_of_body same by (rule refl)
qed

lemma methods:
  "fst (alwaysRoute a ps) \<in> {''GET'', ''POST'', ''DELETE''}" "fst (localRoute l ps) \<in> {''GET'', ''POST'', ''DELETE''}"
  "fst (tfaRoute t ps) \<in> {''GET'', ''POST'', ''DELETE''}" "fst (directoryRoute d ps) \<in> {''GET'', ''POST'', ''DELETE''}"
  "fst (orgRoute u ps) \<in> {''GET'', ''POST'', ''DELETE''}"
proof -
  show "fst (alwaysRoute a ps) \<in> {''GET'', ''POST'', ''DELETE''}" by (cases a) simp_all
  show "fst (localRoute l ps) \<in> {''GET'', ''POST'', ''DELETE''}" by (cases l) simp_all
  show "fst (tfaRoute t ps) \<in> {''GET'', ''POST'', ''DELETE''}" by (cases t) simp_all
  show "fst (directoryRoute d ps) \<in> {''GET'', ''POST'', ''DELETE''}" by (cases d) simp_all
  show "fst (orgRoute u ps) \<in> {''GET'', ''POST'', ''DELETE''}" by (cases u) simp_all
qed



section \<open>Organizations at the gate\<close>

text \<open>
  C20: Offboarding takes effect at once: when a user is removed from an organization, under any
  spelling of the two ids, a session in which that organization is still the active one passes
  neither the role gate nor the group gate of the organization and may no longer act in it, although
  its cookie still names the organization and a role.
\<close>

theorem offboarding_immediate:
  assumes "UserBySub (e_store e) (sc_Subject sc) = Ok u"
    and "parseID i = Some n" and "parseID (sc_Org sc) = Some n"
    and "parseID userID = Some m" and "parseID (au_ID u) = Some m"
    and "e' = e\<lparr>e_store := snd (RemoveOrgMember (e_store e) i userID)\<rparr>"
  shows "(rq_session r = Some sc \<longrightarrow> (\<exists>rep rep'. RequireOrgHTTP A roles r e' = Refuse rep \<and>
      RequireOrgGroupsHTTP A groups r e' = Refuse rep')) \<and>
    (sessionOf A r' e' = Some sc \<longrightarrow> (\<exists>rep. activeOrgRole A r' e' = Inl rep \<and> OrgMemberRemove A r' e' = (rep, e')))"
proof -
  have users: "UserBySub (e_store e') (sc_Subject sc) = Ok u"
    using assms(1) by (simp add: assms(2,4,6) RemoveOrgMember_def Let_def UserBySub_def findBySub_def)
  have "role_of (e_store e') n m = None"
    using remove_org_member_effect(1) [OF assms(2,4), of "e_store e"] by (simp add: assms(6))
  then have role: "OrgRole (e_store e') (sc_Org sc) (au_ID u) \<in> {Err ErrNoOrg, Err ErrNotOrgMember}"
    using assms(3,5) by (simp add: OrgRole_def org_key_def role_of_def)
  then have "liveOrgMember (Some sc) e' \<in> {Err ErrNoOrg, Err ErrNotOrgMember}"
    using users by (auto simp: liveOrgMember_def)
  then have "\<exists>rep rep'. RequireOrgHTTP A roles r e' = Refuse rep \<and> RequireOrgGroupsHTTP A groups r e' = Refuse rep'"
    if "rq_session r = Some sc"
    using that by (auto simp: RequireOrgHTTP_def RequireOrgGroupsHTTP_def liveOrgRole_def)
  moreover have "\<exists>rep. activeOrgRole A r' e' = Inl rep \<and> OrgMemberRemove A r' e' = (rep, e')"
    if "sessionOf A r' e' = Some sc"
  proof -
    have "orgActor A r' e' = Some (sc, u)" using that users by (simp add: orgActor_def)
    then have "\<exists>rep. activeOrgRole A r' e' = Inl rep" using role by (auto simp: activeOrgRole_def)
    then show ?thesis by (auto simp: OrgMemberRemove_def)
  qed
  ultimately show ?thesis by blast
qed

section \<open>Keys bound to an organization\<close>

lemma ValidateAPIKey_Some:
  "ValidateAPIKey A raw e = (Some info, e') \<Longrightarrow> APIKeyByHash (e_store e) (hashToken (a_lib A) raw) = Ok info \<and>
     a_dir A \<and> raw \<noteq> [] \<and> (\<forall>t. ak_ExpiresAt info = Some t \<longrightarrow> e_now e \<le> t)"
  by (auto simp: ValidateAPIKey_def split: if_splits sum.splits option.splits)

lemma ValidateAPIKey_sessions:
  "ValidateAPIKey A raw e = (k, e') \<Longrightarrow> sessionOf A r e' = sessionOf A r e"
proof -
  assume "ValidateAPIKey A raw e = (k, e')"
  then have "st_sessions (e_store e') = st_sessions (e_store e) \<and> e_now e' = e_now e"
    by (auto simp: ValidateAPIKey_def TouchAPIKey_def split: if_splits sum.splits option.splits)
  then show ?thesis by (simp add: sessionOf_def sessionRevoked_def IsRevoked_def split: option.split)
qed

text \<open>
  An API key bound to an organization opens that organization and nothing else: it is no
  credential at the session gate or at the admin API, it lends its groups to no request, it carries
  no global scope, and it has a scope in an organization only when that is its own, the key has the
  scope and has not expired.
\<close>

theorem org_key_confined:
  assumes "bearerToken (header r ''Authorization'') = key" and "key \<noteq> []"
    and "\<forall>info. APIKeyByHash (e_store e) (hashToken (a_lib A) key) = Ok info \<longrightarrow> ak_OrgID info \<noteq> []"
  shows "fst (requestGroups A r e) = GroupsFromRequest r \<and> \<not> fst (ValidateAPIKeyScope A key scope e) \<and>
    (sessionOf A r e = None \<longrightarrow> fst (adminGuard A r e) \<noteq> None) \<and>
    (sessionOf A r e = None \<and> enforcing A \<and> \<not> publicPath A (rq_path r) \<longrightarrow> (\<exists>rep. fst (GateHTTP A r e) = Refuse rep)) \<and>
    (\<forall>org. fst (ValidateOrgAPIKeyScope A key scope org e) \<longrightarrow> (\<exists>info.
       APIKeyByHash (e_store e) (hashToken (a_lib A) key) = Ok info \<and> ak_OrgID info = org \<and>
       KeyHasScope (Some info) scope \<and> (\<forall>t. ak_ExpiresAt info = Some t \<longrightarrow> e_now e \<le> t)))"
proof -
  obtain k e' where v: "ValidateAPIKey A key e = (k, e')" by fastforce
  have org: "ak_OrgID info \<noteq> []" if "k = Some info" for info
    using ValidateAPIKey_Some [of A key e info e'] v that assms(3) by auto
  then have "fst (globalKey A r e) = None"
    by (simp add: globalKey_def assms(1,2) v split: option.split)
  then have g: "globalKey A r e = (None, snd (globalKey A r e))" by (metis prod.collapse)
  have "fst (requestGroups A r e) = GroupsFromRequest r" by (subst requestGroups_def, subst g) simp
  moreover have "\<not> fst (ValidateAPIKeyScope A key scope e)"
    using org by (auto simp: ValidateAPIKeyScope_def v split: option.split)
  moreover have "fst (adminGuard A r e) \<noteq> None" if "sessionOf A r e = None"
    using org ValidateAPIKey_sessions [OF v, of r] that
    by (auto simp: adminGuard_def ownerSession_def assms(1,2) v split: option.split)
  moreover have "\<exists>rep. fst (GateHTTP A r e) = Refuse rep"
    if "sessionOf A r e = None" "enforcing A" "\<not> publicPath A (rq_path r)"
    unfolding GateHTTP_def Let_def by (subst g) (simp add: that)
  moreover have "\<exists>info. APIKeyByHash (e_store e) (hashToken (a_lib A) key) = Ok info \<and> ak_OrgID info = org \<and>
       KeyHasScope (Some info) scope \<and> (\<forall>t. ak_ExpiresAt info = Some t \<longrightarrow> e_now e \<le> t)"
    if "fst (ValidateOrgAPIKeyScope A key scope org e)" for org
    using that org ValidateAPIKey_Some [of A key e _ e'] v
    by (auto simp: ValidateOrgAPIKeyScope_def split: option.splits if_splits)
  ultimately show ?thesis by blast
qed

definition demo_store :: store where
  "demo_store = snd (SetOrgMember (snd (CreateOrg 4 (snd (CreateLocalUser 3 ''r'' New ''a@x'' ''A'')) ''acme'' ''Acme'')) ''1'' ''1'' ''owner'')"

definition demo_user :: AuthUser where
  "demo_user = \<lparr>au_ID = ''1'', au_Sub = ''local:r'', au_Email = ''a@x'', au_Name = ''A'', au_EmailVerified = False,
     au_Disabled = False, au_Banned = False, au_BannedUntil = 0, au_BanReason = [], au_CreatedAt = 3, au_UpdatedAt = 3\<rparr>"

lemma demo_store: "UserBySub demo_store ''local:r'' = Ok demo_user"
  unfolding demo_store_def demo_user_def by code_simp

theorem offboarding_immediate_witness:
  "\<exists>rep. RequireOrgHTTP demo_authn []
     ((demo_request [] [])\<lparr>rq_session := Some (demo_claims\<lparr>sc_Subject := ''local:r'', sc_Org := ''1''\<rparr>)\<rparr>)
     ((demo_env demo_store)\<lparr>e_store := snd (RemoveOrgMember demo_store ''01'' ''1'')\<rparr>) = Refuse rep"
proof -
  let ?sc = "demo_claims\<lparr>sc_Subject := ''local:r'', sc_Org := ''1''\<rparr>"
  have "parseID ''01'' = Some 1" "parseID ''1'' = Some 1" by code_simp+
  moreover have "UserBySub (e_store (demo_env demo_store)) (sc_Subject ?sc) = Ok demo_user"
    by (simp add: demo_env_def demo_store)
  moreover have "e_store (demo_env demo_store) = demo_store" by (simp add: demo_env_def)
  ultimately show ?thesis
    using offboarding_immediate [of "demo_env demo_store" ?sc demo_user "''01''" 1 "''1''" 1 _
        "(demo_request [] [])\<lparr>rq_session := Some ?sc\<rparr>" demo_authn "[]" "[]"]
    by (auto simp: demo_user_def)
qed

theorem org_key_confined_witness:
  "\<not> fst (ValidateAPIKeyScope demo_authn ''axk'' ''admin'' (demo_env (snd (CreateOrgAPIKey 5 demo_store ''1'' ''k'' [] [''admin''] ''axk'' ''axk'' None))))"
proof -
  let ?e = "demo_env (snd (CreateOrgAPIKey 5 demo_store ''1'' ''k'' [] [''admin''] ''axk'' ''axk'' None))"
  let ?r = "(demo_request [] [])\<lparr>rq_headers := [(''Authorization'', ''Bearer axk'')]\<rparr>"
  have "APIKeyByHash (e_store ?e) ''axk'' = Ok \<lparr>ak_ID = ''1'', ak_Name = ''k'', ak_Prefix = ''axk'', ak_Groups = [], ak_Scopes = [''admin''],
      ak_ExpiresAt = None, ak_CreatedAt = 5, ak_LastUsedAt = None, ak_OrgID = ''1''\<rparr>"
    unfolding demo_store_def demo_env_def by code_simp
  moreover have "bearerToken (header ?r ''Authorization'') = ''axk''" by code_simp
  moreover have "hashToken (a_lib demo_authn) ''axk'' = ''axk''" by (simp add: hashToken_def demo_lib_def)
  ultimately show ?thesis using org_key_confined [of ?r "''axk''" ?e demo_authn "''admin''"] by simp
qed

end
