(* ===== verification/LoginLaws.thy ===== *)
theory LoginLaws
  imports GateLaws
begin

text \<open>
  Where sessions come from: every session cookie a handler sends is justified by a proof of identity.
  The handlers that open no session send none; each that does sends one only after its factors were
  proven, and the five kinds of justification are put together for the whole engine.
\<close>

section \<open>Completing a login\<close>

text \<open>The cookie holds a session of the subject, minted now with the site's secret.\<close>

definition holds :: "authn \<Rightarrow> env \<Rightarrow> setcookie \<Rightarrow> SessionClaims \<Rightarrow> string \<Rightarrow> int \<Rightarrow> bool" where
  "holds A e c base sub ttl \<longleftrightarrow> ck_maxAge c = ttl div second_ns \<and>
     mintSessionWith (a_lib A) (a_SessionSecret A) base sub (e_now e) ttl = Some (ck_value c)"

text \<open>The account of the subject, if it has one, has no enabled second factor.\<close>

definition no_second_factor :: "authn \<Rightarrow> string \<Rightarrow> env \<Rightarrow> bool" where
  "no_second_factor A sub e \<longleftrightarrow>
     (\<forall>u. storedUser A sub e = Some u \<longrightarrow> \<not> userHasTOTP A (au_ID u) e)"

interpretation no_cookie: env_effects "\<lambda>e. sess_cookies e = []"
  by unfold_locales (simp_all add: quiet_def)

lemma openSession_now [simp]: "e_now (snd (openSession A r base sub uid ttl e)) = e_now e"
  using openSession_effect [OF refl, of A r base sub uid ttl e] by simp

text \<open>Recording a session changes no account and no second factor.\<close>

lemma openSession_accounts:
  "storedUser A sub' (snd (openSession A r base sub uid ttl e)) = storedUser A sub' e"
  "userHasTOTP A u (snd (openSession A r base sub uid ttl e)) = userHasTOTP A u e"
proof -
  let ?e = "snd (openSession A r base sub uid ttl e)"
  have eqs: "st_users (e_store ?e) = st_users (e_store e)" "st_totp (e_store ?e) = st_totp (e_store e)"
    using openSession_effect [OF refl, of A r base sub uid ttl e]
    by (auto simp: RecordSession_def Let_def pruneSessionsLocked_def)
  show "storedUser A sub' ?e = storedUser A sub' e" "userHasTOTP A u ?e = userHasTOTP A u e"
    unfolding storedUser_def userHasTOTP_def UserBySub_def findBySub_def TOTP_def eqs by (rule refl)+
qed

lemma openSession_cookie:
  assumes "sess_cookies e = []" and "c \<in> set (sess_cookies (snd (openSession A r base sub uid ttl e)))"
  shows "sess_cookies (snd (openSession A r base sub uid ttl e)) = [c] \<and>
    holds A e c (base\<lparr>sc_SID := fst (newSessionID A e)\<rparr>) sub ttl"
proof -
  obtain res e1 where o: "openSession A r base sub uid ttl e = (res, e1)" by fastforce
  show ?thesis
  proof (cases res)
    case (Inr u)
    then have ok: "openSession A r base sub uid ttl e = (Ok (), e1)" using o by simp
    show ?thesis
      by (rule openSession_ok [OF ok]) (use assms o in \<open>auto simp: holds_def split: if_splits\<close>)
  next
    case (Inl err)
    have "sess_cookies (snd (newSessionID A e)) = []" using assms(1) by simp
    then have "sess_cookies e1 = []"
      using o Inl by (auto simp: openSession_def recordSession_def split_beta split: option.splits sum.splits if_splits)
    with assms(2) o show ?thesis by simp
  qed
qed

lemma loginGroups_subject [simp]: "id_Subject (loginGroups A ou i e) = id_Subject i"
  by (simp add: loginGroups_def split: option.split sum.split)

lemma clearFlow_accounts [simp]:
  "storedUser A sub (clearCookie n e) = storedUser A sub e" "userHasTOTP A u (clearCookie n e) = userHasTOTP A u e"
  by (simp_all add: storedUser_def userHasTOTP_def)

lemma completeLogin_cookie:
  assumes "sess_cookies e = []" and "c \<in> set (sess_cookies (snd (completeLogin A r i rm ff e)))"
  shows "sess_cookies (snd (completeLogin A r i rm ff e)) = [c] \<and>
    (\<exists>base. holds A e c base (id_Subject i) (loginTTL rm) \<and> sc_ImpersonatedBy base = []) \<and>
    no_second_factor A (id_Subject i) (snd (completeLogin A r i rm ff e))"
proof -
  obtain res e1 where a: "authorizeLogin A i e = (res, e1)" by fastforce
  have e1: "sess_cookies e1 = []" "e_now e1 = e_now e"
    using a assms(1) by (auto simp: authorizeLogin_def op_def split: option.splits prod.splits)
  let ?ou = "storedUser A (id_Subject i) e1"
  let ?org = "case ?ou of None \<Rightarrow> ([], []) | Some u \<Rightarrow> defaultOrgClaims A (au_ID u) e1"
  let ?i = "loginGroups A ?ou i e1"
  show ?thesis
  proof (cases res)
    case (Inl err)
    then show ?thesis using assms(2) e1 by (simp add: completeLogin_def a)
  next
    case (Inr role)
    show ?thesis
    proof (cases "case ?ou of None \<Rightarrow> False | Some u \<Rightarrow> userHasTOTP A (au_ID u) e1")
      case True
      then have "sess_cookies (snd (completeLogin A r i rm ff e)) = []"
        using e1 by (simp add: completeLogin_def a Inr Let_def sess_cookies_setCookie split: option.split)
      with assms(2) show ?thesis by simp
    next
      case False
      let ?o = "openSession A r (base_claims (id_Email ?i) (id_Name ?i) (id_Groups ?i) role [] ?org)
          (id_Subject ?i) (case ?ou of None \<Rightarrow> [] | Some u \<Rightarrow> au_ID u) (loginTTL rm) e1"
      have env: "snd (completeLogin A r i rm ff e) = (case fst ?o of Inl err \<Rightarrow> snd ?o | Inr x \<Rightarrow> clearCookie flowCookie (snd ?o))"
        using False by (simp add: completeLogin_def a Inr Let_def split_beta split: sum.split)
      then have same: "sess_cookies (snd (completeLogin A r i rm ff e)) = sess_cookies (snd ?o)"
        "storedUser A (id_Subject i) (snd (completeLogin A r i rm ff e)) = ?ou"
        "userHasTOTP A u (snd (completeLogin A r i rm ff e)) = userHasTOTP A u e1" for u
        by (simp_all add: openSession_accounts split: sum.split)
      have "c \<in> set (sess_cookies (snd ?o))" using assms(2) same(1) by simp
      note o = openSession_cookie [OF e1(1) this]
      then have "\<exists>base. holds A e c base (id_Subject i) (loginTTL rm) \<and> sc_ImpersonatedBy base = []"
        by (intro exI [of _ "(base_claims (id_Email ?i) (id_Name ?i) (id_Groups ?i) role [] ?org)\<lparr>sc_SID := fst (newSessionID A e1)\<rparr>"])
          (simp add: holds_def e1 base_claims_def)
      moreover have "no_second_factor A (id_Subject i) (snd (completeLogin A r i rm ff e))"
        using False by (auto simp: no_second_factor_def same split: option.splits)
      ultimately show ?thesis using o same(1) by simp
    qed
  qed
qed

section \<open>The first factor\<close>

text \<open>The account of the address, its password given, its address confirmed and not locked out.\<close>

definition password_proven :: "authn \<Rightarrow> request \<Rightarrow> env \<Rightarrow> AuthUser \<Rightarrow> bool" where
  "password_proven A r e u \<longleftrightarrow> UserByEmail (e_store e) (norm (field r ''Email'')) = Ok u \<and> au_EmailVerified u \<and>
     \<not> lockedOut A (norm (field r ''Email'')) e \<and>
     (\<exists>hash algo. PasswordHash (e_store e) (au_ID u) = Ok (hash, algo) \<and> c_bcryptCheck (a_lib A) hash (field r ''Password''))"

text \<open>The account of the address an unused, unexpired mailed token was made for.\<close>

definition link_proven :: "authn \<Rightarrow> string \<Rightarrow> request \<Rightarrow> env \<Rightarrow> AuthUser \<Rightarrow> bool" where
  "link_proven A purpose r e u \<longleftrightarrow>
     (let t = ConsumeToken (e_now e) (e_store e) purpose (hashToken (a_lib A) (attr (rq_query r) ''token''))
      in \<exists>claim. fst t = Ok claim \<and>
        UserByEmail (snd (SetEmailVerified (e_now e) (snd t) (tc_UserID claim) True)) (tc_Email claim) = Ok u)"

text \<open>The account of the address a mailed code was made for, the code given.\<close>

definition code_proven :: "authn \<Rightarrow> request \<Rightarrow> env \<Rightarrow> AuthUser \<Rightarrow> bool" where
  "code_proven A r e u \<longleftrightarrow>
     (let email = norm (field r ''Email'');
          v = VerifyEmailOTP (e_now e) (e_store e) purposeEmailOTP email (otpHash (a_lib A) email (field r ''Code''))
      in \<exists>claim. fst v = Ok claim \<and> UserByEmail (snd v) (tc_Email claim) = Ok u)"

text \<open>The only session cookie of the answer is one of the user, who is not blocked and has no second factor.\<close>

definition signs_in :: "authn \<Rightarrow> env \<Rightarrow> env \<Rightarrow> setcookie \<Rightarrow> AuthUser \<Rightarrow> bool" where
  "signs_in A e e' c u \<longleftrightarrow> sess_cookies e' = [c] \<and> \<not> fst (loginBlocked (e_now e) (Some u)) \<and>
     no_second_factor A (au_Sub u) e' \<and>
     (\<exists>base remember. holds A e c base (au_Sub u) (loginTTL remember) \<and> sc_ImpersonatedBy base = [])"

lemma completed_signs_in:
  assumes "sess_cookies e1 = []" and "e_now e1 = e_now e" and "\<not> fst (loginBlocked (e_now e) (Some u))"
    and "c \<in> set (sess_cookies (snd (completeLogin A r (identity_of u) rm ff e1)))"
  shows "signs_in A e (snd (completeLogin A r (identity_of u) rm ff e1)) c u"
  using completeLogin_cookie [OF assms(1,4)] assms(2,3) unfolding signs_in_def
  by (auto simp: identity_of_def holds_def)

lemma signedIn_env [simp]: "snd (signedIn m r res e) = e"
  by (simp add: signedIn_def split: sum.split bool.split)

lemma snd_case_pair: "snd (case p of (x, e) \<Rightarrow> f x e) = snd (f (fst p) (snd p))"
  by (simp add: split_beta)

lemma allow_cookies:
  "allowIP k e = (ok, e') \<Longrightarrow> sess_cookies e' = sess_cookies e" "allowAcct k e = (ok, e') \<Longrightarrow> sess_cookies e' = sess_cookies e"
  by (auto simp: allowIP_def allowAcct_def sess_cookies_def split: prod.splits)

lemma PasswordLogin_cookie:
  assumes "sess_cookies e = []" and "c \<in> set (sess_cookies (snd (PasswordLogin A r e)))"
  shows "\<exists>u. password_proven A r e u \<and> signs_in A e (snd (PasswordLogin A r e)) c u"
proof -
  obtain ok e1 where a: "allowIP (''login:'' @ rq_rateIP r) e = (ok, e1)" by fastforce
  have e1: "e_store e1 = e_store e" "e_now e1 = e_now e" "sess_cookies e1 = []"
    using allow_same(1) [OF a] allow_cookies(1) [OF a] assms(1) by simp_all
  have lock: "lockedOut A em e1 = lockedOut A em e" for em by (simp add: lockedOut_def e1)
  have rh: "sess_cookies (rehash A i h pw e1) = []" for i h pw using no_cookie.P_rehash [OF e1(3)] .
  have rn: "e_now (rehash A i h pw e1) = e_now e" for i h pw
    by (simp add: rehash_def hashPassword_def e1 split: option.split)
  have vm: "sess_cookies (sendVerifyEmail A i m e2) = []" if "sess_cookies e2 = []" for i m e2
    using no_cookie.P_verifyMail [OF that] .
  have al: "sess_cookies (snd (allowAcct k e2)) = sess_cookies e2" for k e2
    using quiet_effects(6) [of e2 k] by (simp add: quiet_def)
  let ?em = "norm (field r ''Email'')" and ?pw = "field r ''Password''"
  let ?done = "\<lambda>u hash. completeLogin A r (identity_of u) (flag r ''Remember'') []
      (doAudit (au_ID u) ?em True (rehash A (au_ID u) hash ?pw e1))"
  obtain u hash algo where u: "UserByEmail (e_store e) ?em = Ok u" "PasswordHash (e_store e) (au_ID u) = Ok (hash, algo)"
      "c_bcryptCheck (a_lib A) hash ?pw" "\<not> lockedOut A ?em e" "au_EmailVerified u"
      "\<not> fst (loginBlocked (e_now e) (Some u))" "snd (PasswordLogin A r e) = snd (?done u hash)"
    using assms unfolding PasswordLogin_def a prod.case Let_def
    by (auto simp: e1 lock rh rn vm al Let_def snd_case_pair split_beta split: if_splits sum.splits bool.splits)
  have "c \<in> set (sess_cookies (snd (?done u hash)))" using assms(2) u(7) by simp
  then have "signs_in A e (snd (?done u hash)) c u"
    by (intro completed_signs_in) (simp_all add: rh rn u(6))
  then show ?thesis using u unfolding password_proven_def by (intro exI [of _ u]) simp
qed

lemma redeem_cookie:
  assumes "sess_cookies e = []" and "c \<in> set (sess_cookies (snd (redeemAndLogin A r p True e)))"
  shows "\<exists>u. link_proven A p r e u \<and> signs_in A e (snd (redeemAndLogin A r p True e)) c u"
proof -
  let ?t = "ConsumeToken (e_now e) (e_store e) p (hashToken (a_lib A) (attr (rq_query r) ''token''))"
  let ?s = "\<lambda>claim. snd (SetEmailVerified (e_now e) (snd ?t) (tc_UserID claim) True)"
  let ?done = "\<lambda>u claim. completeLogin A r (identity_of u) (attr (rq_query r) ''remember'' = ''true'') []
      (doAudit (au_ID u) (au_Email u) True (e\<lparr>e_store := ?s claim\<rparr>))"
  obtain claim u where u: "fst ?t = Ok claim" "UserByEmail (?s claim) (tc_Email claim) = Ok u"
      "\<not> fst (loginBlocked (e_now e) (Some u))" "snd (redeemAndLogin A r p True e) = snd (?done u claim)"
    using assms by (auto simp: redeemAndLogin_def op_def Let_def split_beta snd_case_pair split: if_splits sum.splits)
  have "c \<in> set (sess_cookies (snd (?done u claim)))" using assms(2) u(4) by simp
  then have "signs_in A e (snd (?done u claim)) c u"
    by (intro completed_signs_in) (simp_all add: assms(1) u(3))
  then show ?thesis using u unfolding link_proven_def Let_def by (intro exI [of _ u]) auto
qed

lemma EmailOTPVerify_cookie:
  assumes "sess_cookies e = []" and "c \<in> set (sess_cookies (snd (EmailOTPVerify A r e)))"
  shows "\<exists>u. code_proven A r e u \<and> signs_in A e (snd (EmailOTPVerify A r e)) c u"
proof -
  obtain ok e1 where a: "allowIP (''emailotp:'' @ rq_rateIP r) e = (ok, e1)" by fastforce
  have e1: "e_store e1 = e_store e" "e_now e1 = e_now e" "sess_cookies e1 = []"
    using allow_same(1) [OF a] allow_cookies(1) [OF a] assms(1) by simp_all
  let ?em = "norm (field r ''Email'')"
  let ?v = "VerifyEmailOTP (e_now e) (e_store e) purposeEmailOTP ?em (otpHash (a_lib A) ?em (field r ''Code''))"
  let ?done = "\<lambda>u. completeLogin A r (identity_of u) (flag r ''Remember'') [] (doAudit (au_ID u) (au_Email u) True
      (e1\<lparr>e_store := snd (SetEmailVerified (e_now e) (snd ?v) (au_ID u) True)\<rparr>))"
  obtain claim u where u: "fst ?v = Ok claim" "UserByEmail (snd ?v) (tc_Email claim) = Ok u"
      "\<not> fst (loginBlocked (e_now e) (Some u))" "snd (EmailOTPVerify A r e) = snd (?done u)"
    using assms unfolding EmailOTPVerify_def a prod.case
    by (auto simp: e1 op_def Let_def split_beta snd_case_pair split: if_splits sum.splits bool.splits)
  have "c \<in> set (sess_cookies (snd (?done u)))" using assms(2) u(4) by simp
  then have "signs_in A e (snd (?done u)) c u"
    by (intro completed_signs_in) (simp_all add: e1 u(3))
  then show ?thesis using u unfolding code_proven_def Let_def by (intro exI [of _ u]) auto
qed

section \<open>The second factor\<close>

text \<open>A code of the enrolled authenticator, of a time step not claimed before, or an unused recovery code.\<close>

definition second_factor_proven :: "authn \<Rightarrow> request \<Rightarrow> env \<Rightarrow> AuthUser \<Rightarrow> bool" where
  "second_factor_proven A r e u \<longleftrightarrow> (\<exists>info. enabledTOTP e (au_ID u) = Some info \<and>
     (case totpValidate (a_lib A) (ti_Secret info) (field r ''Code'') (e_now e) of
        Some step \<Rightarrow> fst (ClaimTOTPStep (e_store e) (au_ID u) step) = Ok True
      | None \<Rightarrow> fst (ConsumeRecoveryCode (e_store e) (au_ID u) (recoveryHash (a_lib A) (field r ''Code''))) = Ok True))"

lemma verifySecondFactor_fst:
  "fst (verifySecondFactor A i info code e) = (case totpValidate (a_lib A) (ti_Secret info) code (e_now e) of
     Some step \<Rightarrow> fst (ClaimTOTPStep (e_store e) i step) = Ok True
   | None \<Rightarrow> fst (ConsumeRecoveryCode (e_store e) i (recoveryHash (a_lib A) code)) = Ok True)"
  by (auto simp: verifySecondFactor_def op_def split_beta split: option.split sum.split)

lemma verifySecondFactor_env:
  "sess_cookies (snd (verifySecondFactor A i info code e)) = sess_cookies e" "e_now (snd (verifySecondFactor A i info code e)) = e_now e"
  by (auto simp: verifySecondFactor_def op_def split_beta split: option.split sum.split)

definition by_second_factor :: "authn \<Rightarrow> request \<Rightarrow> env \<Rightarrow> env \<Rightarrow> setcookie \<Rightarrow> bool" where
  "by_second_factor A r e e' c \<longleftrightarrow> (\<exists>pc u base.
     parsePending (a_lib A) (e_now e) (secrets A) (cookieValue r twoFactorPendingCookie) = Some pc \<and>
     UserBySub (e_store e) (pc_Subject pc) = Ok u \<and> \<not> fst (loginBlocked (e_now e) (Some u)) \<and>
     second_factor_proven A r e u \<and> sess_cookies e' = [c] \<and>
     holds A e c base (pc_Subject pc) (loginTTL (pc_Remember pc)) \<and> sc_ImpersonatedBy base = [])"

lemma completePending_cookie:
  assumes "sess_cookies e = []" and "c \<in> set (sess_cookies (snd (completePendingLogin A r pc e)))"
  shows "sess_cookies (snd (completePendingLogin A r pc e)) = [c] \<and>
    (\<exists>base. holds A e c base (pc_Subject pc) (loginTTL (pc_Remember pc)) \<and> sc_ImpersonatedBy base = [])"
proof -
  let ?e = "clearCookie twoFactorPendingCookie e"
  obtain base uid where o: "completePendingLogin A r pc e = openSession A r base (pc_Subject pc) uid (loginTTL (pc_Remember pc)) ?e"
      "sc_ImpersonatedBy base = []"
    by (simp add: completePendingLogin_def Let_def base_claims_def)
  have "sess_cookies ?e = []" using assms(1) by simp
  from openSession_cookie [OF this] assms(2) o show ?thesis
    by (auto simp: holds_def intro!: exI [of _ "base\<lparr>sc_SID := fst (newSessionID A ?e)\<rparr>"])
qed

lemma TwoFactorVerify_cookie:
  assumes "sess_cookies e = []" and "c \<in> set (sess_cookies (snd (TwoFactorVerify A r e)))"
  shows "by_second_factor A r e (snd (TwoFactorVerify A r e)) c"
proof -
  obtain ok e1 where a: "allowIP (''2fa:'' @ rq_rateIP r) e = (ok, e1)" by fastforce
  have e1: "e_store e1 = e_store e" "e_now e1 = e_now e" "sess_cookies e1 = []"
    using allow_same(1) [OF a] allow_cookies(1) [OF a] assms(1) by simp_all
  have ac: "sess_cookies (snd (allowAcct k e1)) = []" for k
    using allow_cookies(2) [OF surjective_pairing [of "allowAcct k e1"]] e1 by simp
  have tt: "enabledTOTP (snd (allowAcct k e1)) i = enabledTOTP e i" for k i by (simp add: enabledTOTP_def e1)
  let ?v = "\<lambda>u pc info. verifySecondFactor A (au_ID u) info (field r ''Code'') (snd (allowAcct (''2fa:'' @ pc_Subject pc) e1))"
  obtain pc u info where u: "parsePending (a_lib A) (e_now e) (secrets A) (cookieValue r twoFactorPendingCookie) = Some pc"
      "UserBySub (e_store e) (pc_Subject pc) = Ok u" "\<not> fst (loginBlocked (e_now e) (Some u))"
      "enabledTOTP e (au_ID u) = Some info" "fst (?v u pc info)"
      "c \<in> set (sess_cookies (snd (completePendingLogin A r pc (snd (?v u pc info)))))"
      "sess_cookies (snd (TwoFactorVerify A r e)) = sess_cookies (snd (completePendingLogin A r pc (snd (?v u pc info))))"
    using assms unfolding TwoFactorVerify_def a prod.case
    by (auto simp: e1 ac tt verifySecondFactor_env split_beta split: if_splits sum.splits option.splits bool.splits)
  have "sess_cookies (snd (?v u pc info)) = []" by (simp add: verifySecondFactor_env ac)
  from completePending_cookie [OF this u(6)] obtain base where
    "sess_cookies (snd (TwoFactorVerify A r e)) = [c]" "holds A e c base (pc_Subject pc) (loginTTL (pc_Remember pc))"
    "sc_ImpersonatedBy base = []"
    by (auto simp: u(7) holds_def verifySecondFactor_env e1)
  moreover have "second_factor_proven A r e u"
    using u(4,5) by (auto simp: second_factor_proven_def verifySecondFactor_fst e1 split: option.splits)
  ultimately show ?thesis using u unfolding by_second_factor_def by blast
qed

section \<open>The identity provider, the administrator and the session itself\<close>

definition by_provider :: "authn \<Rightarrow> request \<Rightarrow> env \<Rightarrow> env \<Rightarrow> setcookie \<Rightarrow> bool" where
  "by_provider A r e e' c \<longleftrightarrow> (\<exists>fc raw tok base. a_enabled A \<and>
     parseFlowMulti (a_lib A) (e_now e) (secrets A) (cookieValue r flowCookie) = Some fc \<and>
     attr (rq_query r) ''state'' = fc_State fc \<and>
     a_exchange A (attr (rq_query r) ''code'') (fc_Verifier fc) = Some (Some raw) \<and> a_verifyID A (e_now e) raw = Some tok \<and>
     it_Nonce tok = fc_Nonce fc \<and> verifyAZP (it_Audience tok) (it_AZP tok) (a_ClientID A) \<and>
     (it_Email tok \<noteq> [] \<longrightarrow> it_EmailVerified tok \<or> a_OIDCAssumeVerified A) \<and> groupAllowed A (it_Groups tok) \<and>
     sess_cookies e' = [c] \<and> holds A e c base (it_Subject tok) sessionTTL \<and> sc_ImpersonatedBy base = [])"

lemma oidcSession_cookie:
  assumes "sess_cookies e = []" and "c \<in> set (sess_cookies (snd (oidcSession A r fc raw tok e)))"
  shows "sess_cookies (snd (oidcSession A r fc raw tok e)) = [c] \<and>
    (\<exists>base. holds A e c base (it_Subject tok) sessionTTL \<and> sc_ImpersonatedBy base = [])"
proof -
  let ?name = "if it_Name tok = [] then it_PreferredUsername tok else it_Name tok"
  let ?i = "\<lparr>id_Subject = it_Subject tok, id_Email = it_Email tok, id_Name = ?name,
      id_EmailVerified = it_EmailVerified tok \<or> a_OIDCAssumeVerified A, id_Groups = it_Groups tok\<rparr>"
  obtain res e1 where a: "authorizeLogin A ?i e = (res, e1)" by fastforce
  have e1: "sess_cookies e1 = []" "e_now e1 = e_now e"
    using a assms(1) by (auto simp: authorizeLogin_def op_def split: option.splits prod.splits)
  show ?thesis
  proof (cases res)
    case (Inl err)
    then show ?thesis using assms(2) a e1 by (simp add: oidcSession_def)
  next
    case (Inr role)
    let ?b = "base_claims (it_Email tok) ?name (it_Groups tok) role raw (defaultOrgClaimsForSub A (it_Subject tok) e1)"
    have env: "snd (oidcSession A r fc raw tok e) = snd (openSession A r ?b (it_Subject tok) [] sessionTTL e1)"
      by (simp only: oidcSession_def Let_def a Inr prod.case sum.case) (simp add: split_beta split: sum.split)
    with assms(2) openSession_cookie [OF e1(1), of c A r ?b "it_Subject tok" "[]" sessionTTL] show ?thesis
      by (auto simp: holds_def e1 base_claims_def intro!: exI [of _ "?b\<lparr>sc_SID := fst (newSessionID A e1)\<rparr>"])
  qed
qed

lemma Callback_cookie:
  assumes "sess_cookies e = []" and "c \<in> set (sess_cookies (snd (Callback A r e)))"
  shows "by_provider A r e (snd (Callback A r e)) c"
proof -
  let ?e = "clearCookie flowCookie e"
  obtain fc raw tok where f: "a_enabled A" "parseFlowMulti (a_lib A) (e_now e) (secrets A) (cookieValue r flowCookie) = Some fc"
      "attr (rq_query r) ''state'' = fc_State fc"
      "a_exchange A (attr (rq_query r) ''code'') (fc_Verifier fc) = Some (Some raw)" "a_verifyID A (e_now e) raw = Some tok"
      "it_Nonce tok = fc_Nonce fc" "verifyAZP (it_Audience tok) (it_AZP tok) (a_ClientID A)"
      "it_Email tok \<noteq> [] \<longrightarrow> it_EmailVerified tok \<or> a_OIDCAssumeVerified A" "groupAllowed A (it_Groups tok)"
      "Callback A r e = oidcSession A r fc raw tok ?e"
    using assms by (auto simp: Callback_def Let_def split: if_splits option.splits)
  have "sess_cookies ?e = []" using assms(1) by simp
  from oidcSession_cookie [OF this, of c A r fc raw tok] assms(2) f(10) obtain base
    where "sess_cookies (snd (Callback A r e)) = [c]" "holds A e c base (it_Subject tok) sessionTTL" "sc_ImpersonatedBy base = []"
    by (auto simp: holds_def)
  with f show ?thesis unfolding by_provider_def by blast
qed

definition by_admin :: "authn \<Rightarrow> request \<Rightarrow> env \<Rightarrow> env \<Rightarrow> setcookie \<Rightarrow> bool" where
  "by_admin A r e e' c \<longleftrightarrow> (\<exists>e1 i target base. adminGuard A r e = (None, e1) \<and> UserByID (e_store e1) i = Ok target \<and>
     sess_cookies e' = [c] \<and> holds A e c base (au_Sub target) impersonationTTL \<and> sc_ImpersonatedBy base \<noteq> [])"

lemma adminGuard_effect:
  assumes "adminGuard A r e = (x, e1)"
  shows "e_now e1 = e_now e" and "sess_cookies e1 = sess_cookies e"
  using assms
  by (auto simp: adminGuard_def ValidateAPIKey_def op_def Let_def split: option.splits sum.splits if_splits prod.splits)

lemma impersonator_effect:
  assumes "impersonator A r e = (x, e1)"
  shows "e_now e1 = e_now e" and "sess_cookies e1 = sess_cookies e"
  using assms
  by (auto simp: impersonator_def ValidateAPIKey_def op_def Let_def split: option.splits sum.splits if_splits prod.splits)

lemma adminImpersonate_cookie:
  assumes "sess_cookies e = []" and "c \<in> set (sess_cookies (snd (adminImpersonate A r e)))"
  shows "by_admin A r e (snd (adminImpersonate A r e)) c"
proof -
  obtain x e1 where g: "adminGuard A r e = (x, e1)" by fastforce
  obtain admin e2 where m: "impersonator A r e1 = (admin, e2)" by fastforce
  note eff = adminGuard_effect [OF g] impersonator_effect [OF m]
  let ?base = "\<lambda>i t. (base_claims (au_Email t) (au_Name t) (case UserGroups (e_store e2) i of Inl _ \<Rightarrow> [] | Inr gs \<Rightarrow> groupNames (globalGroups gs))
      [] [] (if a_orgs A then defaultOrgClaims A i e2 else ([], [])))\<lparr>sc_ImpersonatedBy := admin\<rparr>"
  let ?o = "\<lambda>i t. openSession A r (?base i t) (au_Sub t) i impersonationTTL e2"
  obtain i t where o: "x = None" "UserByID (e_store e1) i = Ok t" "admin \<noteq> []"
      "sess_cookies (snd (adminImpersonate A r e)) = sess_cookies (snd (?o i t))"
    using assms
    by (auto simp: adminImpersonate_def guarded_def g withParam_def m eff split_beta Let_def
        split: option.splits sum.splits if_splits)
  have "sess_cookies e2 = []" by (simp add: eff assms(1))
  from openSession_cookie [OF this, of c A r "?base i t" "au_Sub t" i impersonationTTL] assms(2) o(4)
  have c: "sess_cookies (snd (adminImpersonate A r e)) = [c]"
    "holds A e c ((?base i t)\<lparr>sc_SID := fst (newSessionID A e2)\<rparr>) (au_Sub t) impersonationTTL"
    by (simp_all add: holds_def eff)
  moreover have "sc_ImpersonatedBy ((?base i t)\<lparr>sc_SID := fst (newSessionID A e2)\<rparr>) \<noteq> []" using o(3) by simp
  ultimately show ?thesis unfolding by_admin_def using g o(1,2) by blast
qed

text \<open>A new cookie for the caller's own session: only the active organization and the role in it change.\<close>

definition by_own_session :: "authn \<Rightarrow> request \<Rightarrow> env \<Rightarrow> env \<Rightarrow> setcookie \<Rightarrow> bool" where
  "by_own_session A r e e' c \<longleftrightarrow> (\<exists>sc t org role. sessionOf A r e = Some sc \<and> sc_ExpiresAt sc = Some t \<and> e_now e < t \<and>
     sess_cookies e' = [c] \<and> holds A e c (sc\<lparr>sc_Org := org, sc_OrgRole := role\<rparr>) (sc_Subject sc) (t - e_now e))"

lemma remint_cookie:
  assumes "sess_cookies e = []" and "c \<in> set (sess_cookies (snd (remintWithOrg A sc org role e)))"
  shows "\<exists>t. sc_ExpiresAt sc = Some t \<and> e_now e < t \<and> sess_cookies (snd (remintWithOrg A sc org role e)) = [c] \<and>
    holds A e c (sc\<lparr>sc_Org := org, sc_OrgRole := role\<rparr>) (sc_Subject sc) (t - e_now e)"
  using assms
  by (auto simp: remintWithOrg_def holds_def sess_cookies_setCookie Let_def split: option.splits if_splits)

lemma reminted:
  assumes "sessionOf A r e = Some sc" and "sess_cookies e1 = []" and "e_now e1 = e_now e"
    and "c \<in> set (sess_cookies (snd (remintWithOrg A sc org role e1)))"
  shows "by_own_session A r e (snd (remintWithOrg A sc org role e1)) c"
  using remint_cookie [OF assms(2,4)] assms(1,3) unfolding by_own_session_def holds_def by auto

lemma OrgSwitch_cookie:
  assumes "sess_cookies e = []" and "c \<in> set (sess_cookies (snd (OrgSwitch A r e)))"
  shows "by_own_session A r e (snd (OrgSwitch A r e)) c"
proof -
  obtain sc u org role where "orgActor A r e = Some (sc, u)"
      "sess_cookies (snd (OrgSwitch A r e)) = sess_cookies (snd (remintWithOrg A sc org role e))"
    using assms by (auto simp: OrgSwitch_def Let_def split_beta split: option.splits sum.splits if_splits bool.splits)
  moreover then have "sessionOf A r e = Some sc" by (auto simp: orgActor_def split: option.splits sum.splits)
  ultimately show ?thesis
    using reminted [of A r e sc e c org role] assms by (simp add: by_own_session_def)
qed

lemma removed_cookie:
  assumes "sessionOf A r e = Some sc" and "sess_cookies e = []"
    and p: "p = (case op (\<lambda>s. RemoveOrgMember s (sc_Org sc) uid) e of
      (Inl _, e) \<Rightarrow> (rep, e)
    | (Inr _, e) \<Rightarrow> let e = orgAudit uid e in (rep', if leaving then snd (remintWithOrg A sc [] [] e) else e))"
    and c: "c \<in> set (sess_cookies (snd p))"
  shows "by_own_session A r e (snd p) c"
  using c reminted [OF assms(1), of "orgAudit uid (snd (op (\<lambda>s. RemoveOrgMember s (sc_Org sc) uid) e))" c "[]" "[]"] assms(2)
  by (auto simp: p orgAudit_def split_beta Let_def split: sum.splits if_splits)

lemma OrgMemberRemove_cookie:
  assumes "sess_cookies e = []" and "c \<in> set (sess_cookies (snd (OrgMemberRemove A r e)))"
  shows "by_own_session A r e (snd (OrgMemberRemove A r e)) c"
proof -
  obtain sc u role uid where a: "activeOrgRole A r e = Inr (sc, u, role)" "paramID r ''userId'' = Some uid"
    using assms by (auto simp: OrgMemberRemove_def split: option.splits sum.splits)
  then have sc: "sessionOf A r e = Some sc" by (auto simp: activeOrgRole_def orgActor_def split: option.splits sum.splits if_splits)
  let ?p = "case op (\<lambda>s. RemoveOrgMember s (sc_Org sc) uid) e of
      (Inl _, e) \<Rightarrow> (jerr 500 ''could not remove member'', e)
    | (Inr _, e) \<Rightarrow> let e = orgAudit uid e in (jok [], if uid = au_ID u then snd (remintWithOrg A sc [] [] e) else e)"
  obtain p where p: "p = ?p" by simp
  have "sess_cookies (snd (OrgMemberRemove A r e)) = [] \<or> snd (OrgMemberRemove A r e) = snd p"
    unfolding OrgMemberRemove_def a sum.case prod.case option.case Let_def p [unfolded Let_def, symmetric]
    using assms(1) by (simp split: sum.split)
  with removed_cookie [OF sc assms(1) p] assms(2) show ?thesis by auto
qed

lemma accepted_cookie:
  assumes "sessionOf A r e = Some sc" and "sess_cookies e1 = []" and "e_now e1 = e_now e"
    and p: "p = (case grantInvited oid uid role e1 of
      (Inl _, e) \<Rightarrow> (rep, doAudit uid m False e)
    | (Inr finalRole, e) \<Rightarrow>
        let e = snd (op (\<lambda>s. SetEmailVerified (e_now e) s uid True) e);
            e = orgAudit uid e;
            e = snd (remintWithOrg A sc oid finalRole e)
        in (rep', e))"
    and c: "c \<in> set (sess_cookies (snd p))"
  shows "by_own_session A r e (snd p) c"
proof -
  obtain res e2 where g: "grantInvited oid uid role e1 = (res, e2)" by fastforce
  then have e2: "sess_cookies e2 = []" "e_now e2 = e_now e"
    using assms(2,3) by (auto simp: grantInvited_def op_def split_beta split: sum.splits if_splits)
  show ?thesis
  proof (cases res)
    case (Inl err)
    then show ?thesis using c e2 by (simp add: p g)
  next
    case (Inr fr)
    then show ?thesis
      using c reminted [OF assms(1), of "orgAudit uid (snd (op (\<lambda>s. SetEmailVerified (e_now e2) s uid True) e2))" c oid fr] e2
      by (simp add: p g orgAudit_def)
  qed
qed

lemma OrgInviteAccept_cookie:
  assumes "sess_cookies e = []" and "c \<in> set (sess_cookies (snd (OrgInviteAccept A r e)))"
  shows "by_own_session A r e (snd (OrgInviteAccept A r e)) c"
proof -
  let ?h = "hashToken (a_lib A) (attr (rq_query r) ''token'')"
  let ?p = "OrgInviteAccept A r e"
  obtain sc u ivt org where a: "attr (rq_query r) ''token'' \<noteq> []" "sessionOf A r e = Some sc" "UserBySub (e_store e) (sc_Subject sc) = Ok u"
      "PeekOrgInvite (e_now e) (e_store e) ?h = Ok ivt" "norm (au_Email u) = norm (oi_Email ivt)" "OrgByID (e_store e) (oi_OrgID ivt) = Ok org"
    using assms by (auto simp: OrgInviteAccept_def Let_def split: option.splits sum.splits if_splits)
  obtain res e1 where o: "op (\<lambda>s. ConsumeOrgInvite (e_now e) s ?h) e = (res, e1)" by fastforce
  then have e1: "sess_cookies e1 = []" "e_now e1 = e_now e"
    using assms(1) env_op(3,6) [of "\<lambda>s. ConsumeOrgInvite (e_now e) s ?h" e] by simp_all
  show ?thesis
  proof (cases res)
    case (Inl err)
    then show ?thesis using assms(2) e1 by (simp add: OrgInviteAccept_def a o)
  next
    case (Inr x)
    show ?thesis
      by (rule accepted_cookie [OF a(2) e1 _ assms(2)])
        (simp only: OrgInviteAccept_def a o Inr Let_def option.case sum.case prod.case if_False simp_thms)
  qed
qed

section \<open>Every session is earned\<close>

definition by_first_factor :: "authn \<Rightarrow> request \<Rightarrow> env \<Rightarrow> env \<Rightarrow> setcookie \<Rightarrow> bool" where
  "by_first_factor A r e e' c \<longleftrightarrow> (\<exists>u. signs_in A e e' c u \<and>
     (routed r (Local EpPasswordLogin) \<and> password_proven A r e u \<or>
      routed r (Local EpEmailLogin) \<and> link_proven A purposeMagicLogin r e u \<or>
      routed r (Local EpEmailVerify) \<and> link_proven A purposeVerifyEmail r e u \<or>
      routed r (Local EpEmailOTPVerify) \<and> code_proven A r e u))"

lemma opening_cookie:
  assumes "sess_cookies e = []" and "ep \<in> opening_endpoints" and "routed r ep" and "c \<in> set (sess_cookies (snd (handler ep A r e)))"
  defines "e' \<equiv> snd (handler ep A r e)"
  shows "by_first_factor A r e e' c \<or> by_second_factor A r e e' c \<or> by_provider A r e e' c \<or> by_admin A r e e' c \<or> by_own_session A r e e' c"
  using assms(2)
proof (auto simp only: opening_endpoints_def insert_iff empty_iff)
qed (use assms in \<open>auto simp: e'_def by_first_factor_def EmailLogin_def EmailVerify_def
      dest: Callback_cookie PasswordLogin_cookie redeem_cookie EmailOTPVerify_cookie TwoFactorVerify_cookie adminImpersonate_cookie
      OrgSwitch_cookie OrgMemberRemove_cookie OrgInviteAccept_cookie\<close>)

text \<open>
  Every session is earned. If the answer to a request carries a session cookie, it is the only one
  and was justified by that very request: by a first factor (the password of a confirmed, not locked
  out address, an unused mailed link or a mailed code) of an account that is neither disabled nor
  banned and has no second factor enabled; by the pending login of a first factor and a fresh code of
  the second; by an ID token of the provider bound to the caller's own login flow; by an administrator
  impersonating the account, and marked as such; or by the caller's own live session, whose id, subject
  and expiry the new cookie keeps.
\<close>

theorem every_session_is_earned:
  assumes "fresh_subject A e" and "sess_cookies e = []" and "e' = snd (Handler A r e)" and "c \<in> set (sess_cookies e')"
  shows "by_first_factor A r e e' c \<or> by_second_factor A r e e' c \<or> by_provider A r e e' c \<or> by_admin A r e e' c \<or>
    by_own_session A r e e' c"
proof -
  have pass: "p = r" if "CSRFHTTP A r = Pass p" for p
    using that by (auto simp: CSRFHTTP_def Let_def split: if_splits)
  obtain ep where ep: "routed r ep" "e' = snd (handler ep A r e)"
    using assms(2-4) pass
    by (auto simp: Handler_def find_Some_iff split: verdict.splits option.splits)
  have "ep \<in> opening_endpoints"
    using no_cookie.keeps_quiet [OF assms(2,1), of ep r] assms(4) ep(2) by (rule_tac ccontr) (simp add: no_cookie.keeps_def)
  from opening_cookie [OF assms(2) this ep(1)] assms(4) ep(2) show ?thesis by simp
qed

definition demo_login_store :: store where
  "demo_login_store = snd (SetPasswordHash (snd (SetEmailVerified 4 (snd (CreateLocalUser 3 ''r'' New ''a@x.y'' ''A'')) ''1'' True))
     ''1'' ''correct horse'' ''bcrypt'')"

definition demo_login :: request where
  "demo_login = (demo_request [] [(''Email'', ''a@x.y''), (''Password'', ''correct horse'')])\<lparr>rq_path := ''/auth/password/login''\<rparr>"

lemma demo_opens:
  assumes "0 \<le> ttl"
  shows "sess_cookies (snd (openSession demo_authn r base sub uid ttl e)) \<noteq> []"
proof -
  have s: "0 \<le> second_ns" "0 \<le> ttl div second_ns" using assms by (simp_all add: second_ns_def)
  show ?thesis
    by (simp add: s openSession_def newSessionID_def freshToken_def mintSessionWith_def signJWT_def
        minSessionSecret_def recordSession_def op_def split_beta RecordSession_def Let_def sess_cookies_setCookie)
qed

lemma demo_completes:
  assumes "authorizeLogin demo_authn i e = (Ok role, e1)"
    and "case storedUser demo_authn (id_Subject i) e1 of None \<Rightarrow> True | Some u \<Rightarrow> \<not> userHasTOTP demo_authn (au_ID u) e1"
  shows "sess_cookies (snd (completeLogin demo_authn r i rm ff e)) \<noteq> []"
proof -
  have "0 \<le> loginTTL rm" by (simp add: loginTTL_def rememberTTL_def sessionTTL_def hour_def minute_def second_ns_def)
  note o = demo_opens [OF this]
  show ?thesis
    using assms(2) o
    by (cases "storedUser demo_authn (id_Subject i) e1")
      (simp_all add: completeLogin_def assms(1) Let_def split_beta split: sum.split)
qed

text \<open>The user as stored, and the environment after the limiter has counted the attempt.\<close>

definition demo_login_user :: AuthUser where
  "demo_login_user = \<lparr>au_ID = ''1'', au_Sub = ''local:r'', au_Email = ''a@x.y'', au_Name = ''A'', au_EmailVerified = True,
     au_Disabled = False, au_Banned = False, au_BannedUntil = 0, au_BanReason = [], au_CreatedAt = 3, au_UpdatedAt = 4\<rparr>"

definition demo_counted :: env where
  "demo_counted = snd (allowIP ''login:1.2.3.4'' (demo_env demo_login_store))"

definition demo_audited :: env where
  "demo_audited = doAudit ''1'' ''a@x.y'' True demo_counted"

lemma demo_login_steps:
  "allowIP ''login:1.2.3.4'' (demo_env demo_login_store) = (True, demo_counted)"
  "norm ''a@x.y'' = ''a@x.y''" "lockedOut demo_authn ''a@x.y'' demo_counted = False"
  "UserByEmail (e_store demo_counted) ''a@x.y'' = Ok demo_login_user"
  "PasswordHash (e_store demo_counted) ''1'' = Ok (''correct horse'', ''bcrypt'')"
  "loginBlocked n (Some demo_login_user) = (False, [])"
  "au_ID demo_login_user = ''1''" "au_EmailVerified demo_login_user"
proof -
  show "allowIP ''login:1.2.3.4'' (demo_env demo_login_store) = (True, demo_counted)"
    by (rule prod_eqI) (simp_all add: demo_counted_def, code_simp)
  show "norm ''a@x.y'' = ''a@x.y''" "lockedOut demo_authn ''a@x.y'' demo_counted = False" by code_simp+
  show "UserByEmail (e_store demo_counted) ''a@x.y'' = Ok demo_login_user" by code_simp
  show "PasswordHash (e_store demo_counted) ''1'' = Ok (''correct horse'', ''bcrypt'')" by code_simp
qed (simp_all add: loginBlocked_def demo_login_user_def)

lemma demo_authorized:
  "fst (authorizeLogin demo_authn (identity_of demo_login_user) demo_audited) = Ok []"
  "storedUser demo_authn ''local:r'' (snd (authorizeLogin demo_authn (identity_of demo_login_user) demo_audited)) \<noteq> None"
  "\<not> userHasTOTP demo_authn ''1'' (snd (authorizeLogin demo_authn (identity_of demo_login_user) demo_audited))"
  "au_ID (the (storedUser demo_authn ''local:r'' (snd (authorizeLogin demo_authn (identity_of demo_login_user) demo_audited)))) = ''1''"
  by code_simp+

lemma demo_login_opens: "sess_cookies (snd (Handler demo_authn demo_login (demo_env demo_login_store))) \<noteq> []"
proof -
  have f: "CSRFHTTP demo_authn demo_login = Pass demo_login"
    "find (routed demo_login) (endpoints demo_authn) = Some (Local EpPasswordLogin)" by code_simp+
  have r: "rq_body demo_login \<noteq> None" "field demo_login ''Email'' = ''a@x.y''" "field demo_login ''Password'' = ''correct horse''"
    "rq_rateIP demo_login = ''1.2.3.4''" "flag demo_login ''Remember'' = False" by code_simp+
  have rh: "rehash demo_authn i h pw e = e" for i h pw e by (simp add: rehash_def demo_lib_def bcryptCost_def)
  have b: "c_bcryptCheck demo_lib h h" for h by (simp add: demo_lib_def)
  obtain role e1 where a: "authorizeLogin demo_authn (identity_of demo_login_user) demo_audited = (Ok role, e1)"
    using demo_authorized(1) by (metis prod.collapse)
  have k: "''login:'' @ ''1.2.3.4'' = ''login:1.2.3.4''" by simp
  obtain v where v: "storedUser demo_authn ''local:r'' e1 = Some v" using demo_authorized(2) a by auto
  have "au_ID v = ''1''"
    using demo_authorized(4) a v by simp
  then have "sess_cookies (snd (completeLogin demo_authn demo_login (identity_of demo_login_user) False [] demo_audited)) \<noteq> []"
    using demo_completes [OF a, of demo_login False "[]"] demo_authorized(3) a v by (simp add: identity_of_def demo_login_user_def)
  moreover have "snd (PasswordLogin demo_authn demo_login (demo_env demo_login_store)) =
      snd (completeLogin demo_authn demo_login (identity_of demo_login_user) False [] demo_audited)"
    unfolding PasswordLogin_def r(2-5) k demo_login_steps Let_def prod.case sum.case
    using r(1) by (cases "rq_body demo_login") (simp_all add: rh b demo_login_steps demo_audited_def snd_case_pair)
  ultimately show ?thesis by (simp add: Handler_def f)
qed

theorem every_session_is_earned_witness:
  "\<exists>c. let e = demo_env demo_login_store; e' = snd (Handler demo_authn demo_login e) in c \<in> set (sess_cookies e') \<and>
     (by_first_factor demo_authn demo_login e e' c \<or> by_second_factor demo_authn demo_login e e' c \<or>
      by_provider demo_authn demo_login e e' c \<or> by_admin demo_authn demo_login e e' c \<or> by_own_session demo_authn demo_login e e' c)"
proof -
  let ?e = "demo_env demo_login_store"
  obtain c where c: "c \<in> set (sess_cookies (snd (Handler demo_authn demo_login ?e)))"
    using demo_login_opens list.set_intros(1) by (metis neq_Nil_conv)
  have "findBySub demo_login_store sub = None" if "sub \<noteq> ''local:r''" for sub
  proof -
    have "mvals (st_users demo_login_store) = [\<lparr>u_id = 1, u_sub = ''local:r'', u_email = ''a@x.y'', u_name = ''A'',
        u_emailVerified = True, u_disabled = False, u_banned = False, u_bannedUntil = 0, u_banReason = [],
        u_webauthnHandle = [], u_createdAt = 3, u_updatedAt = 4\<rparr>]" by code_simp
    with that show ?thesis by (simp add: findBySub_def mfind_None)
  qed
  moreover have "format_uint k \<noteq> ''r''" for k
    using format_uint_digits [of k] by (auto simp: is_digit_def)
  ultimately have "fresh_subject demo_authn ?e" by (simp add: fresh_subject_def demo_env_def)
  moreover have "sess_cookies ?e = []" by (simp add: sess_cookies_def demo_env_def)
  ultimately show ?thesis
    using every_session_is_earned [OF _ _ refl c] c by (auto simp: Let_def)
qed

end
