(* ===== verification/AccountLaws.thy ===== *)
theory AccountLaws
  imports LoginLaws
begin

text \<open>
  Laws of the accounts behind the sessions: how often a password can be guessed, what a switch of
  organization and an impersonation leave of a session, that a last way to sign in and a last owner
  stay, and where the code falls short of its own rules.
\<close>

section \<open>Guessing a password\<close>

text \<open>Failed logins recorded for an address since an instant.\<close>

definition failures :: "string \<Rightarrow> time \<Rightarrow> env \<Rightarrow> nat" where
  "failures email since e = (case RecentFailures (e_store e) email since of Inl _ \<Rightarrow> 0 | Inr n \<Rightarrow> n)"

definition incorrect :: reply where "incorrect = jerr 401 ''incorrect email or password''"

text \<open>
  A history of the engine from \<open>e0\<close> in which the password form answered \<open>n\<close> times that the password
  for an address is wrong. Everything else the engine does goes on in between, except what erases
  failures of the address from the audit trail (the deletion of the account).
\<close>

inductive guessing :: "authn \<Rightarrow> string \<Rightarrow> env \<Rightarrow> nat \<Rightarrow> env \<Rightarrow> bool" for A email e0 where
  start: "guessing A email e0 0 e0"
| wrong: "guessing A email e0 n e \<Longrightarrow> norm (field r ''Email'') = email \<Longrightarrow> PasswordLogin A r e = (incorrect, e') \<Longrightarrow>
    guessing A email e0 (Suc n) e'"
| other: "guessing A email e0 n e \<Longrightarrow> engine_step A e e' \<Longrightarrow> failures email (e_now e0) e \<le> failures email (e_now e0) e' \<Longrightarrow>
    guessing A email e0 n e'"

interpretation clock: env_invariant "\<lambda>e. t \<le> e_now e" A for t A
  by unfold_locales (simp_all add: quiet_def setCookie_def)

lemma failures_audit:
  "since \<le> e_now e \<Longrightarrow> failures email since (doAudit u email False e) = Suc (failures email since e)"
  by (simp add: failures_def RecentFailures_def doAudit_def RecordAudit_def)

lemma failures_antimono: "t \<le> t' \<Longrightarrow> failures email t' e \<le> failures email t e"
proof -
  assume "t \<le> t'"
  then have "length (filter (\<lambda>a. a_email a = norm email \<and> \<not> a_success a \<and> \<not> a_createdAt a < t') xs) \<le>
      length (filter (\<lambda>a. a_email a = norm email \<and> \<not> a_success a \<and> \<not> a_createdAt a < t) xs)" for xs
    by (induction xs) auto
  then show ?thesis by (simp add: failures_def RecentFailures_def)
qed

text \<open>A wrong guess is answered only while the address is not locked out, and is recorded.\<close>

lemma wrong_guess:
  assumes "PasswordLogin A r e = (incorrect, e')" and "norm (field r ''Email'') = email"
  shows "\<not> lockedOut A email e" and "e_now e' = e_now e"
    and "since \<le> e_now e \<Longrightarrow> failures email since e' = Suc (failures email since e)"
proof -
  obtain ok e1 where a: "allowIP (''login:'' @ rq_rateIP r) e = (ok, e1)" by fastforce
  note e1 = allow_same(1) [OF a]
  have lock: "lockedOut A em e1 = lockedOut A em e" for em by (simp add: lockedOut_def e1)
  have fail: "failures em t e1 = failures em t e" for em t by (simp add: failures_def e1)
  have other: "signedIn m r res e2 \<noteq> (incorrect, e')" for m res e2
    by (simp add: signedIn_def incorrect_def jerr_def split: sum.split bool.split)
  have code: "jerr c m = incorrect \<Longrightarrow> c = 401" "JSON c fs = incorrect \<Longrightarrow> c = 401" for c m fs
    by (simp_all add: incorrect_def jerr_def)
  have "\<not> lockedOut A email e \<and> (\<exists>u. e' = doAudit u email False e1)"
    using assms(1) unfolding PasswordLogin_def a prod.case Let_def assms(2)
    by (auto simp: e1 lock other incorrect_def [symmetric] tooManyLink_def tooManyShortly_def split_beta dest: code
        split: if_splits sum.splits bool.splits)
  then show "\<not> lockedOut A email e" "e_now e' = e_now e"
    "since \<le> e_now e \<Longrightarrow> failures email since e' = Suc (failures email since e)"
    using failures_audit [of since e1 email] e1 fail by auto
qed


lemma guess_demo: "fst (PasswordLogin demo_authn demo_login (demo_env New)) = incorrect"
  by code_simp


text \<open>Recording a session does not fail with these stores, and signing does not with a secret of full length.\<close>

lemma openSession_succeeds:
  "minSessionSecret \<le> length (a_SessionSecret A) \<Longrightarrow> fst (openSession A r base sub uid ttl e) = Ok ()"
  by (simp add: openSession_def newSessionID_def freshToken_def mintSessionWith_def signJWT_def recordSession_def op_def
      RecordSession_def Let_def split_beta)

lemma completeLogin_succeeds:
  assumes "minSessionSecret \<le> length (a_SessionSecret A)" and "fst (authorizeLogin A i e) = Ok role"
  shows "\<exists>b. fst (completeLogin A r i rm ff e) = Ok b"
proof -
  obtain e1 where a: "authorizeLogin A i e = (Ok role, e1)" using assms(2) by (metis prod.collapse)
  obtain t where t: "mintPending (a_lib A) (a_SessionSecret A) (e_now e1) j role rm ff = Some (t j)" for j
    using assms(1) by (simp add: mintPending_def signJWT_def)
  show ?thesis
    using openSession_succeeds [OF assms(1)] t
    by (auto simp: completeLogin_def a Let_def split_beta split: sum.split option.split)
qed



section \<open>What a new cookie keeps of a session\<close>

lemma own_session_some:
  assumes "signing_ok A" and "holds A e c b sub ttl" and "cookieValue r sessionCookie = ck_value c" and "sessionOf A r e2 = Some sc"
  shows "sc = b\<lparr>sc_Subject := sub, sc_ExpiresAt := Some (numeric_date (e_now e + ttl))\<rparr>" and "e_now e2 < e_now e + ttl"
proof -
  have "mintSessionWith (a_lib A) (a_SessionSecret A) b sub (e_now e) ttl = Some (ck_value c)"
    using assms(2) by (simp add: holds_def)
  from own_session [OF assms(1) this] assms(3,4)
  have "sc = b\<lparr>sc_Subject := sub, sc_ExpiresAt := Some (numeric_date (e_now e + ttl))\<rparr> \<and> e_now e2 < numeric_date (e_now e + ttl)"
    by (auto simp: sessionOf_def split: option.splits if_splits)
  moreover have "numeric_date t \<le> t" for t by (simp add: numeric_date_def second_ns_def)
  ultimately show "sc = b\<lparr>sc_Subject := sub, sc_ExpiresAt := Some (numeric_date (e_now e + ttl))\<rparr>" "e_now e2 < e_now e + ttl"
    by (auto intro: less_le_trans)
qed

text \<open>
  Changing the active organization is not a way to keep a session alive or to become somebody
  else: a cookie sent when switching, leaving or joining an organization is a session only while the
  one it replaces would have been, under the same session id (so that revoking it revokes both), for
  the same subject with the same global groups and the same impersonation mark.
\<close>

theorem organization_switch_keeps_session:
  assumes "signing_ok A" and "sess_cookies e = []"
    and "h = OrgSwitch \<or> h = OrgMemberRemove \<or> h = OrgInviteAccept"
    and "c \<in> set (sess_cookies (snd (h A r e)))" and "cookieValue r' sessionCookie = ck_value c" and "sessionOf A r' e2 = Some sc'"
  shows "\<exists>sc t. sessionOf A r e = Some sc \<and> sc_ExpiresAt sc = Some t \<and> e_now e2 < t \<and> sc_SID sc' = sc_SID sc \<and>
    sc_Subject sc' = sc_Subject sc \<and> sc_Groups sc' = sc_Groups sc \<and> sc_ImpersonatedBy sc' = sc_ImpersonatedBy sc"
proof -
  have "by_own_session A r e (snd (h A r e)) c"
    using assms(3) OrgSwitch_cookie OrgMemberRemove_cookie OrgInviteAccept_cookie assms(2,4) by blast
  then obtain sc t org role where o: "sessionOf A r e = Some sc" "sc_ExpiresAt sc = Some t"
      "holds A e c (sc\<lparr>sc_Org := org, sc_OrgRole := role\<rparr>) (sc_Subject sc) (t - e_now e)"
    unfolding by_own_session_def by blast
  with own_session_some [OF assms(1) o(3) assms(5,6)] show ?thesis by auto
qed

text \<open>
  C18: An impersonation stays one: a session opened by the admin API for a user is marked with the
  administrator, ends within its fixed time, and never opens the admin API, not even when the
  impersonated account is the owner's.
\<close>

theorem impersonation_contained:
  assumes "signing_ok A" and "sess_cookies e = []" and "c \<in> set (sess_cookies (snd (adminImpersonate A r e)))"
    and "cookieValue r' sessionCookie = ck_value c"
  shows "\<not> ownerSession A r' e2 \<and> (bearerToken (header r' ''Authorization'') = [] \<longrightarrow> fst (adminGuard A r' e2) \<noteq> None) \<and>
    (\<forall>sc. sessionOf A r' e2 = Some sc \<longrightarrow> sc_ImpersonatedBy sc \<noteq> [] \<and> e_now e2 < e_now e + impersonationTTL)"
proof -
  obtain base and target :: AuthUser where b: "holds A e c base (au_Sub target) impersonationTTL" "sc_ImpersonatedBy base \<noteq> []"
    using adminImpersonate_cookie [OF assms(2,3)] unfolding by_admin_def by auto
  then have s: "sc_ImpersonatedBy sc \<noteq> [] \<and> e_now e2 < e_now e + impersonationTTL" if "sessionOf A r' e2 = Some sc" for sc
    using own_session_some [OF assms(1) b(1) assms(4) that] by simp
  then have o: "\<not> ownerSession A r' e2" by (auto simp: ownerSession_def split: option.split)
  then show ?thesis using s by (auto simp: adminGuard_def)
qed

section \<open>Redirects after signing in\<close>


text \<open>The demonstration caller signed in to an account of the stores.\<close>

definition demo_account :: store where
  "demo_account = snd (UpsertUserOnLogin 3 New ''u'' ''a@b.c'' ''Ann'' True)"

definition demo_home :: env where
  "demo_home = (demo_signed_in demo_account)\<lparr>e_cookies := []\<rparr>"

abbreviation demo_caller :: "string \<Rightarrow> request" where
  "demo_caller tk \<equiv> demo_request [(sessionCookie, tk)] []"

lemma demo_caller_cookie [simp]: "cookieValue (demo_caller tk) sessionCookie = tk"
  by (simp add: demo_request_def cookieValue_def attr_def)

lemma demo_caller_fields [simp]: "trim_space (field (demo_caller tk) k) = []"
proof -
  have "trim_space [] = []" by code_simp
  then show ?thesis by (simp add: demo_request_def field_def attr_def)
qed

lemma demo_home:
  "e_now demo_home = 1000" "sess_cookies demo_home = []" "sessionOf demo_authn (demo_caller demo_cookie) demo_home = Some demo_claims"
  "\<exists>u. UserBySub (e_store demo_home) ''u'' = Ok u \<and> au_ID u = ''1''"
proof -
  let ?rec = "\<lparr>sr_SID = ''0'', sr_Subject = ''u'', sr_UserID = ''1'', sr_UserAgent = [], sr_IP = ''1.2.3.4'',
      sr_CreatedAt = 1000, sr_ExpiresAt = 1000 + sessionTTL, sr_Current = False\<rparr>"
  have st: "e_store demo_home = snd (RecordSession 1000 demo_account ?rec)" by (simp add: demo_home_def demo_signed_in)
  show now: "e_now demo_home = 1000" and "sess_cookies demo_home = []" by (simp_all add: demo_home_def demo_signed_in)
  have "IsRevoked (e_store demo_home) ''0'' = Ok False" using recorded_not_revoked [of 1000 demo_account ?rec] st by simp
  then show "sessionOf demo_authn (demo_caller demo_cookie) demo_home = Some demo_claims"
    using demo_parse [of 1000] demo_later by (simp add: sessionOf_def sessionRevoked_def now demo_claims_def)
  have "\<exists>u. UserBySub demo_account ''u'' = Ok u \<and> au_ID u = ''1''"
  proof -
    have "au_ID (projr (UserBySub demo_account ''u'')) = ''1'' \<and> isl (UserBySub demo_account ''u'') = False" by code_simp
    then show ?thesis by (metis sum.collapse(2))
  qed
  then show "\<exists>u. UserBySub (e_store demo_home) ''u'' = Ok u \<and> au_ID u = ''1''"
    by (simp add: st RecordSession_def Let_def pruneSessionsLocked_def UserBySub_def findBySub_def)
qed

lemma demo_switch:
  "\<exists>c sc'. sess_cookies (snd (OrgSwitch demo_authn (demo_caller demo_cookie) demo_home)) = [c] \<and>
     sessionOf demo_authn (demo_caller (ck_value c)) demo_home = Some sc'"
proof -
  let ?t = "numeric_date (1000 + sessionTTL)"
  let ?b = "demo_claims\<lparr>sc_Org := [], sc_OrgRole := []\<rparr>"
  have f: "sc_Subject demo_claims = ''u''" "sc_ExpiresAt demo_claims = Some ?t" "sc_SID demo_claims = ''0''"
    by (simp_all add: demo_claims_def)
  obtain u where u: "orgActor demo_authn (demo_caller demo_cookie) demo_home = Some (demo_claims, u)"
    using demo_home(3,4) by (auto simp: orgActor_def f)
  obtain tk where tk: "mintSessionWith demo_lib demo_secret ?b ''u'' 1000 (?t - 1000) = Some tk"
    by (simp add: mintSessionWith_def signJWT_def minSessionSecret_def)
  have s: "0 \<le> (?t - 1000) div second_ns" using demo_later by (simp add: second_ns_def)
  have "sess_cookies (snd (OrgSwitch demo_authn (demo_caller demo_cookie) demo_home)) =
      [\<lparr>ck_name = sessionCookie, ck_value = tk, ck_maxAge = (?t - 1000) div second_ns\<rparr>]"
    using demo_later s tk
    by (simp add: OrgSwitch_def u remintWithOrg_def f demo_home Let_def sess_cookies_setCookie)
  moreover have "\<exists>sc'. sessionOf demo_authn (demo_caller tk) demo_home = Some sc'"
    using own_session [OF demo_signing, of ?b "''u''" 1000 "?t - 1000" tk 1000] tk demo_later demo_home(3)
    by (auto simp: sessionOf_def demo_home sessionRevoked_def numeric_date_def f split: option.splits if_splits)
  ultimately show ?thesis by simp
qed

theorem organization_switch_keeps_session_witness:
  "\<exists>(c::setcookie) sc'. sessionOf demo_authn (demo_caller (ck_value c)) demo_home = Some sc' \<and> sc_SID sc' = sc_SID demo_claims"
proof -
  obtain c sc' where c: "sess_cookies (snd (OrgSwitch demo_authn (demo_caller demo_cookie) demo_home)) = [c]"
      "sessionOf demo_authn (demo_caller (ck_value c)) demo_home = Some sc'"
    using demo_switch by blast
  then show ?thesis
    using organization_switch_keeps_session [OF demo_signing demo_home(2), of OrgSwitch c "demo_caller demo_cookie"
        "demo_caller (ck_value c)" demo_home sc'] demo_home(3)
    by (intro exI [of _ c] exI [of _ sc']) auto
qed

definition demo_admin_store :: store where
  "demo_admin_store = snd (CreateAPIKey 5 demo_account ''k'' [] [''admin''] ''axk'' ''axk'' None)"

definition demo_admin :: request where
  "demo_admin = (demo_request [] [])\<lparr>rq_headers := [(''Authorization'', ''Bearer axk'')], rq_params := [(''id'', ''1'')]\<rparr>"

lemma demo_impersonates: "sess_cookies (snd (adminImpersonate demo_authn demo_admin (demo_env demo_admin_store))) \<noteq> []"
proof -
  obtain e1 where g: "adminGuard demo_authn demo_admin (demo_env demo_admin_store) = (None, e1)"
    and e1: "e1 = snd (adminGuard demo_authn demo_admin (demo_env demo_admin_store))"
  proof -
    have "fst (adminGuard demo_authn demo_admin (demo_env demo_admin_store)) = None" by code_simp
    then show thesis using that by (metis prod.collapse)
  qed
  have p: "paramID demo_admin ''id'' = Some ''1''" by code_simp
  have "isl (UserByID (e_store e1) ''1'') = False" unfolding e1 by code_simp
  then obtain t where t: "UserByID (e_store e1) ''1'' = Ok t" by (metis sum.collapse(2))
  have "fst (impersonator demo_authn demo_admin e1) = ''apikey:1''" unfolding e1 by code_simp
  then obtain e2 where i: "impersonator demo_authn demo_admin e1 = (''apikey:1'', e2)" by (metis prod.collapse)
  have "0 \<le> impersonationTTL" by (simp add: impersonationTTL_def hour_def minute_def second_ns_def)
  from demo_opens [OF this] show ?thesis
    by (simp add: adminImpersonate_def guarded_def g withParam_def p t i Let_def split_beta split: sum.split)
qed

theorem impersonation_contained_witness:
  "\<exists>c. c \<in> set (sess_cookies (snd (adminImpersonate demo_authn demo_admin (demo_env demo_admin_store)))) \<and>
     \<not> ownerSession demo_authn (demo_caller (ck_value c)) demo_home"
proof -
  obtain c where c: "c \<in> set (sess_cookies (snd (adminImpersonate demo_authn demo_admin (demo_env demo_admin_store))))"
    using demo_impersonates by (metis list.set_intros(1) neq_Nil_conv)
  have "sess_cookies (demo_env demo_admin_store) = []" by (simp add: sess_cookies_def demo_env_def)
  from impersonation_contained [OF demo_signing this c] c show ?thesis by (metis demo_caller_cookie)
qed

end
