(* ===== verification/SafeguardLaws.thy ===== *)
theory SafeguardLaws
  imports AccountLaws
begin

text \<open>
  The safeguards of an account and of an organization: the last way to sign in and the last owner stay,
  sensitive changes need a recent proof of identity; and the two places where the code lets a
  safeguard be passed by.
\<close>

section \<open>The last way to sign in\<close>

lemma mdel_loses_one:
  "keys_ok m \<Longrightarrow> length (filter P (mvals m)) \<le> Suc (length (filter P (mvals (mdel k m))))"
proof (induction m)
  case (Cons e m)
  then have "fst x \<noteq> fst e" if "x \<in> set m" for x using that by (auto simp: keys_ok_def) (metis imageI)
  then have "filter (\<lambda>x. fst x \<noteq> fst e \<and> P (snd x)) m = filter (P \<circ> snd) m"
    by (intro filter_cong) auto
  with Cons show ?case by (auto simp: mvals_def mdel_def keys_ok_def filter_map)
qed (simp add: mvals_def)

lemma RemovePasskey_loses_one:
  assumes "keys_ok (st_passkeys s)"
  shows "length (listed (Passkeys s u)) \<le> Suc (length (listed (Passkeys (snd (RemovePasskey s u i)) u)))"
  using mdel_loses_one [OF assms]
  by (auto simp: listed_def Passkeys_def RemovePasskey_def split: option.splits)

text \<open>The slugs the links of a user list are those before the first bar of each of its keys, each once.\<close>

definition slugs :: "nat \<Rightarrow> (string \<times> nat) list \<Rightarrow> string set" where
  "slugs n m = {take i k | i k. (k, n) \<in> set m \<and> index_byte k CHR ''|'' = Some i \<and> 0 < i}"

lemma slugs_Cons:
  "slugs n ((k, u) # m) = (case index_byte k CHR ''|'' of
     Some i \<Rightarrow> if u = n \<and> 0 < i then {take i k} else {} | None \<Rightarrow> {}) \<union> slugs n m"
  by (auto simp: slugs_def split: option.split)

lemma linked_slugs_set: "set (linked_slugs n seen m) = slugs n m - set seen \<and> distinct (linked_slugs n seen m)"
  by (induction n seen m rule: linked_slugs.induct) (auto simp: slugs_Cons slugs_def split: option.split)

lemma finite_slugs: "finite (slugs n m)"
  using linked_slugs_set [of n "[]" m] by (metis Diff_empty List.finite_set empty_set)

lemma length_linked: "length (linked_slugs n [] m) = card (slugs n m)"
  using linked_slugs_set [of n "[]" m] by (metis Diff_empty distinct_card empty_set)

lemma index_byte_take: "index_byte k c = Some i \<Longrightarrow> i < length k \<and> k ! i = c \<and> c \<notin> set (take i k)"
  by (induction k arbitrary: i) (auto split: if_splits)

lemma index_byte_unique: "c \<notin> set p \<Longrightarrow> index_byte (p @ c # q) c = Some (length p)"
  by (induction p) auto

text \<open>Unlinking a provider takes its slug away and no other.\<close>

lemma slugs_pruned:
  assumes "p \<in> slugs n m"
  shows "slugs n (mprune (\<lambda>k u. u = n \<and> has_prefix k (p @ ''|'')) m) = slugs n m - {p}"
proof -
  have bar: "CHR ''|'' \<notin> set p"
    using assms index_byte_take by (fastforce simp: slugs_def)
  have "has_prefix k (p @ ''|'') \<longleftrightarrow> take i k = p" if "index_byte k CHR ''|'' = Some i" for k i
  proof
    assume "has_prefix k (p @ ''|'')"
    then have "k = p @ CHR ''|'' # drop (Suc (length p)) k"
      by (metis append_take_drop_id has_prefix_def append.assoc append_Cons append_Nil length_append_singleton)
    then have "i = length p" using index_byte_unique [OF bar] that by (metis option.inject)
    then show "take i k = p" using \<open>k = _\<close> by (metis append_eq_conv_conj)
  next
    assume "take i k = p"
    then have "take (Suc i) k = p @ ''|''"
      using index_byte_take [OF that] by (simp add: take_Suc_conv_app_nth)
    moreover have "length p = i" using index_byte_take [OF that] \<open>take i k = p\<close> by auto
    ultimately show "has_prefix k (p @ ''|'')" by (simp add: has_prefix_def)
  qed
  then show ?thesis by (auto simp: slugs_def)
qed

lemma UnlinkOAuth_loses_one:
  assumes "p \<in> set (listed (OAuthIdentities s u))"
  shows "length (listed (OAuthIdentities s u)) = Suc (length (listed (OAuthIdentities (snd (UnlinkOAuth s u p)) u)))"
proof -
  obtain n where n: "parseID u = Some n" "p \<in> slugs n (st_oauth s)"
    using assms linked_slugs_set by (fastforce simp: listed_def OAuthIdentities_def split: option.splits)
  then show ?thesis
    using finite_slugs [of n "st_oauth s"] card_Suc_Diff1 [of "slugs n (st_oauth s)" p]
    by (simp add: listed_def OAuthIdentities_def UnlinkOAuth_def length_linked slugs_pruned)
qed

lemma methods_audit [simp]: "signInMethods u (doAudit v m b e) = signInMethods u e"
proof -
  have f: "st_passwords (RecordAudit now s v m b) = st_passwords s" "st_passkeys (RecordAudit now s v m b) = st_passkeys s"
    "st_oauth (RecordAudit now s v m b) = st_oauth s" for now s
    by (simp_all add: RecordAudit_def)
  show ?thesis
    unfolding signInMethods_def hasPassword_def PasswordHash_def Passkeys_def OAuthIdentities_def env_audit f by (rule refl)
qed

text \<open>
  C24: Nobody removes the last way into their account: an account that can be signed in to with a
  password, a passkey or a linked provider still can after its owner removed a passkey or unlinked a
  provider, whichever it was and whatever the outcome of the request.
\<close>

theorem last_method_kept:
  assumes "store_ok (e_store e)" and "currentAuthUser A r e = Some u" and "1 \<le> signInMethods (au_ID u) e"
  shows "1 \<le> signInMethods (au_ID u) (snd (PasskeyRemove A r e)) \<and> 1 \<le> signInMethods (au_ID u) (snd (OAuthUnlink A r e))"
proof
  let ?i = "au_ID u"
  have "keys_ok (st_passkeys (e_store e))"
    using store_ok_cred [OF assms(1)] by (auto simp: cred_ok_def passkeys_ok_def dest: table_ok_keys)
  note one = RemovePasskey_loses_one [OF this, of ?i]
  have "signInMethods ?i e \<le> Suc (signInMethods ?i (e\<lparr>e_store := snd (RemovePasskey (e_store e) ?i pid)\<rparr>))" for pid
  proof -
    let ?s = "snd (RemovePasskey (e_store e) ?i pid)"
    have "PasswordHash ?s ?i = PasswordHash (e_store e) ?i" "OAuthIdentities ?s ?i = OAuthIdentities (e_store e) ?i"
      by (auto simp: RemovePasskey_def PasswordHash_def OAuthIdentities_def split: option.split)
    then show ?thesis using one [of pid] by (simp add: signInMethods_def hasPassword_def)
  qed
  then have "1 \<le> signInMethods ?i (e\<lparr>e_store := snd (RemovePasskey (e_store e) ?i pid)\<rparr>)" if "1 < signInMethods ?i e" for pid
    using that by (metis Suc_leI Suc_le_mono le_trans One_nat_def)
  then show "1 \<le> signInMethods ?i (snd (PasskeyRemove A r e))"
    using assms(2,3) by (auto simp: PasskeyRemove_def op_def split_beta not_le split: option.split sum.split)
  have "signInMethods ?i e = Suc (signInMethods ?i (e\<lparr>e_store := snd (UnlinkOAuth (e_store e) ?i p)\<rparr>))"
    if "p \<in> set (listed (OAuthIdentities (e_store e) ?i))" for p
  proof -
    let ?s = "snd (UnlinkOAuth (e_store e) ?i p)"
    have "PasswordHash ?s ?i = PasswordHash (e_store e) ?i" "Passkeys ?s ?i = Passkeys (e_store e) ?i"
      by (auto simp: UnlinkOAuth_def PasswordHash_def Passkeys_def split: option.split)
    then show ?thesis using UnlinkOAuth_loses_one [OF that] by (simp add: signInMethods_def hasPassword_def)
  qed
  then show "1 \<le> signInMethods ?i (snd (OAuthUnlink A r e))"
    using assms(2,3) by (auto simp: OAuthUnlink_def op_def Let_def split_beta not_le split: sum.split)
qed

section \<open>The last owner\<close>

text \<open>The owners of the organization \<open>n\<close> by number.\<close>

definition owners :: "nat \<Rightarrow> store \<Rightarrow> nat set" where
  "owners n s = {m. role_of s n m = Some OrgRoleOwner}"

lemma filter_map_filter:
  "filter P (List.map_filter f xs) = List.map_filter f (filter (\<lambda>x. case f x of None \<Rightarrow> False | Some y \<Rightarrow> P y) xs)"
  by (induction xs) (auto simp: List.map_filter_def)

lemma distinct_single: "set xs = {x} \<Longrightarrow> distinct xs \<Longrightarrow> xs = [x]"
proof (cases xs)
  case (Cons y ys)
  assume "set xs = {x}" "distinct xs"
  then show ?thesis using Cons by (cases ys) auto
qed simp

lemma single_entry:
  assumes "keys_ok m" and "mget m k = Some v" and "P v" and "\<And>k'. k' \<noteq> k \<Longrightarrow> mget m k' \<noteq> None \<Longrightarrow> \<not> P (the (mget m k'))"
  shows "filter (\<lambda>x. P (snd x)) m = [(k, v)]"
proof -
  have "set (filter (\<lambda>x. P (snd x)) m) = {(k, v)}"
    using assms(2,3) assms(4) by (auto simp flip: mget_iff_in [OF assms(1)]) (metis option.distinct(1) option.sel)+
  moreover have "distinct (filter (\<lambda>x. P (snd x)) m)"
    using assms(1) by (simp add: keys_ok_def distinct_map)
  ultimately show ?thesis by (intro distinct_single)
qed

text \<open>The only owner is reported as such under the spelling of the id that the store itself uses, and under no other.\<close>

lemma sole_owner:
  assumes s: "store_ok (e_store e)" and n: "parseID oid = Some n" "org_key (e_store e) oid \<noteq> None" and o: "owners n (e_store e) = {m}"
  shows "soleOwner e oid uid = Ok (uid = idStr m)"
proof -
  let ?s = "e_store e" and ?L = "sget (st_orgMembers (e_store e)) n"
  have mem: "members_ok (st_users ?s) (st_orgs ?s) (st_orgMembers ?s)" using store_ok_org [OF s] by (simp add: org_ok_def)
  have o': "mget ?L k = Some OrgRoleOwner \<longleftrightarrow> k = m" for k using o unfolding owners_def role_of_def set_eq_iff by simp
  then have m: "mget ?L m = Some OrgRoleOwner" by simp
  have "mget (st_users ?s) m \<noteq> None" using mem m unfolding members_ok_def by blast
  then obtain u where u: "mget (st_users ?s) m = Some u" by blast
  have "table_ok (st_seq ?s) (\<lambda>k u. u_id u = k) u_email (st_users ?s)"
    using store_ok_cred [OF s] by (simp add: cred_ok_def users_ok_def)
  then have id: "u_id u = m" using table_ok_entry [OF _ u] by blast
  have L: "filter (\<lambda>x. snd x = OrgRoleOwner) ?L = [(m, OrgRoleOwner)]"
  proof (rule single_entry)
    show "keys_ok ?L" using mem by (simp add: members_ok_def)
    show "the (mget ?L k) \<noteq> OrgRoleOwner" if "k \<noteq> m" "mget ?L k \<noteq> None" for k
      using o' [of k] that by (cases "mget ?L k") simp_all
  qed (use m in simp_all)
  let ?f = "\<lambda>(uid, role). map_option (\<lambda>u. \<lparr>om_User = view u, om_Role = role\<rparr>) (mget (st_users ?s) uid)"
  have ex: "mget (st_users ?s) k \<noteq> None" if "(k, r) \<in> set ?L" for k r
  proof -
    have "keys_ok ?L" "mget ?L k = Some r \<longrightarrow> mget (st_users ?s) k \<noteq> None" using mem unfolding members_ok_def by blast+
    then show ?thesis using mget_iff_in [of ?L k r] that by blast
  qed
  have P: "filter (\<lambda>mm. om_Role mm = OrgRoleOwner) (List.map_filter ?f ?L) = [\<lparr>om_User = view u, om_Role = OrgRoleOwner\<rparr>]"
  proof -
    have "filter (\<lambda>x. case ?f x of None \<Rightarrow> False | Some y \<Rightarrow> om_Role y = OrgRoleOwner) ?L = filter (\<lambda>x. snd x = OrgRoleOwner) ?L"
      by (intro filter_cong) (auto dest: ex split: option.split)
    then show ?thesis unfolding filter_map_filter L by (simp add: List.map_filter_def u)
  qed
  have "mset (filter (\<lambda>mm. om_Role mm = OrgRoleOwner) (sort_by lt (List.map_filter ?f ?L))) =
      {#\<lparr>om_User = view u, om_Role = OrgRoleOwner\<rparr>#}" for lt
    unfolding mset_filter mset_sort_by by (simp flip: mset_filter add: P)
  then have "filter (\<lambda>mm. om_Role mm = OrgRoleOwner) (sort_by lt (List.map_filter ?f ?L)) = [\<lparr>om_User = view u, om_Role = OrgRoleOwner\<rparr>]" for lt
    by (metis mset_single_iff_right)
  moreover have "org_key ?s oid = Some n" using n by (auto simp: org_key_def split: if_splits)
  ultimately show ?thesis by (auto simp: soleOwner_def OrgMembers_def Let_def view_def id)
qed

lemma role_of_SetOrgMember:
  "parseID i = Some n \<Longrightarrow> parseID u = Some m \<Longrightarrow> fst (SetOrgMember s i u role) = Ok () \<Longrightarrow>
   role_of (snd (SetOrgMember s i u role)) k v = (if k = n \<and> v = m then Some role else role_of s k v)"
  by (auto simp: SetOrgMember_def role_of_def org_key_def split: option.splits if_splits)

lemma SetOrgMember_refused: "fst (SetOrgMember s i u ro) = Err err \<Longrightarrow> snd (SetOrgMember s i u ro) = s"
  by (cases "org_key s i"; cases "parseID u"; cases "mget (st_users s) (the (parseID u))"; simp add: SetOrgMember_def)

lemma owners_audit [simp]: "owners n (e_store (orgAudit u e)) = owners n (e_store e)"
  by (simp add: owners_def role_of_def orgAudit_def RecordAudit_def)

lemma owners_remint [simp]: "owners n (e_store (snd (remintWithOrg A sc oid role e))) = owners n (e_store e)"
  by (simp add: remintWithOrg_def Let_def split: option.split)

text \<open>
  C23: An organization does not lose its last owner through the member endpoints: if it has an owner
  before a request to change a member's role or to remove a member, it has one after it, provided the
  member is named by the id the listings give (see the next property).
\<close>

theorem last_owner_kept:
  assumes s: "store_ok (e_store e)" and act: "activeOrgRole A r e = Inr (sc, u, actorRole)" and n: "parseID (sc_Org sc) = Some n"
    and uid: "paramID r ''userId'' = Some (idStr m)" and m: "parseID (idStr m) = Some m" and o: "owners n (e_store e) \<noteq> {}"
  shows "owners n (e_store (snd (OrgMemberSetRole A r e))) \<noteq> {} \<and> owners n (e_store (snd (OrgMemberRemove A r e))) \<noteq> {}"
proof
  let ?s = "e_store e"
  have org: "org_key ?s (sc_Org sc) \<noteq> None"
    using act by (auto simp: activeOrgRole_def OrgRole_def split: option.splits sum.splits if_splits)
  then have k: "org_key ?s (sc_Org sc) = Some n" using n by (auto simp: org_key_def split: if_splits)
  have other: "\<exists>m'. m' \<noteq> m \<and> m' \<in> owners n ?s"
    if "soleOwner e (sc_Org sc) (idStr m) \<noteq> Ok True \<or> role_of ?s n m \<noteq> Some OrgRoleOwner"
  proof (rule ccontr)
    assume "\<not> ?thesis"
    then have "x = m" if "x \<in> owners n ?s" for x using that by metis
    then have "owners n ?s = {m}" using o by auto
    moreover from this have "role_of ?s n m = Some OrgRoleOwner" by (auto simp: owners_def)
    ultimately show False using that sole_owner [OF s n org, of m "idStr m"] by simp
  qed
  have role: "OrgRole ?s (sc_Org sc) (idStr m) = (case role_of ?s n m of Some ro \<Rightarrow> Ok ro | None \<Rightarrow> Err ErrNotOrgMember)"
    by (simp add: OrgRole_def k m role_of_def)
  have set_keeps: "owners n (snd (SetOrgMember ?s (sc_Org sc) (idStr m) ro)) \<noteq> {}"
    if "fst (SetOrgMember ?s (sc_Org sc) (idStr m) ro) = Ok ()" "ro = OrgRoleOwner \<or> (\<exists>m'. m' \<noteq> m \<and> m' \<in> owners n ?s)" for ro
    using that role_of_SetOrgMember [OF n m that(1)] by (auto simp: owners_def)
  have remove_keeps: "owners n (snd (RemoveOrgMember ?s (sc_Org sc) (idStr m))) \<noteq> {}" if "\<exists>m'. m' \<noteq> m \<and> m' \<in> owners n ?s"
    using that remove_org_member_effect(1) [OF n m, of ?s] by (auto simp: owners_def)
  show "owners n (e_store (snd (OrgMemberRemove A r e))) \<noteq> {}"
  proof (cases "owners n (e_store (snd (OrgMemberRemove A r e))) = owners n ?s")
    case False
    then have "soleOwner e (sc_Org sc) (idStr m) \<noteq> Ok True \<or> role_of ?s n m \<noteq> Some OrgRoleOwner"
      "owners n (e_store (snd (OrgMemberRemove A r e))) = owners n (snd (RemoveOrgMember ?s (sc_Org sc) (idStr m)))"
      by (auto simp: OrgMemberRemove_def act uid role op_def split_beta Let_def split: option.splits sum.splits if_splits)
    with remove_keeps other show ?thesis by simp
  qed (use o in simp)
  show "owners n (e_store (snd (OrgMemberSetRole A r e))) \<noteq> {}"
  proof (cases "normOrgRole (field r ''Role'') []")
    case None
    then show ?thesis using o by (simp add: OrgMemberSetRole_def activeOrgManager_def act uid)
  next
    case (Some ro)
    let ?set = "SetOrgMember ?s (sc_Org sc) (idStr m) ro"
    have "owners n (e_store (snd (OrgMemberSetRole A r e))) = owners n ?s \<or>
        (ro = OrgRoleOwner \<or> soleOwner e (sc_Org sc) (idStr m) \<noteq> Ok True \<or> role_of ?s n m \<noteq> Some OrgRoleOwner) \<and>
        owners n (e_store (snd (OrgMemberSetRole A r e))) = owners n (snd ?set) \<and> fst ?set = Ok ()"
      using SetOrgMember_refused [of ?s "sc_Org sc" "idStr m" ro]
      by (cases "role_of ?s n m"; cases "soleOwner e (sc_Org sc) (idStr m)")
        (simp_all add: OrgMemberSetRole_def activeOrgManager_def act uid role op_def split_beta Some split: sum.split, blast)
    with set_keeps [of ro] other o show ?thesis by metis
  qed
qed

text \<open>
  The safeguard of the last owner can be passed by: it compares the member's id with the path as
  spelled, while the stores read the path as a number. Under any other spelling of the number (with
  leading zeros) the only owner removes themself, and the organization is left without one.
\<close>

theorem last_owner_lost_by_spelling:
  assumes "store_ok (e_store e)" and "activeOrgRole A r e = Inr (sc, u, OrgRoleOwner)" and "parseID (sc_Org sc) = Some n"
    and "paramID r ''userId'' = Some uid" and "parseID uid = Some m" and "uid \<noteq> idStr m" and "owners n (e_store e) = {m}"
  shows "fst (OrgMemberRemove A r e) = jok [] \<and> owners n (e_store (snd (OrgMemberRemove A r e))) = {}"
proof -
  let ?s = "e_store e"
  have org: "org_key ?s (sc_Org sc) \<noteq> None"
    using assms(2) by (auto simp: activeOrgRole_def OrgRole_def split: option.splits sum.splits if_splits)
  have sole: "soleOwner e (sc_Org sc) uid = Ok False" using sole_owner [OF assms(1,3) org assms(7), of uid] assms(6) by simp
  have "role_of ?s n m = Some OrgRoleOwner" using assms(7) by (auto simp: owners_def)
  then have role: "OrgRole ?s (sc_Org sc) uid = Ok OrgRoleOwner"
    using org assms(3,5) by (auto simp: OrgRole_def role_of_def org_key_def split: if_splits)
  have removed: "owners n (snd (RemoveOrgMember ?s (sc_Org sc) uid)) = {}" "fst (RemoveOrgMember ?s (sc_Org sc) uid) = Ok ()"
    using remove_org_member_effect(1) [OF assms(3,5), of ?s] assms(3,5,7)
    by (auto simp: owners_def RemoveOrgMember_def Let_def)
  show ?thesis
    using removed role sole
    by (cases "uid = au_ID u") (simp_all add: OrgMemberRemove_def assms(2,4) orgRoleIsManager_def op_def split_beta Let_def)
qed

text \<open>The only owner of an organization, signed in with it as the active one.\<close>

definition demo_owner_claims :: SessionClaims where
  "demo_owner_claims = base_claims ''a@x'' ''A'' [] [] [] (''1'', ''owner'')"

definition demo_owner :: "string \<Rightarrow> request" where
  "demo_owner uid = (demo_caller (the (mintSessionWith demo_lib demo_secret demo_owner_claims ''local:r'' 1000 sessionTTL)))
     \<lparr>rq_params := [(''userId'', uid)]\<rparr>"

abbreviation demo_owner_session :: SessionClaims where
  "demo_owner_session \<equiv> demo_owner_claims\<lparr>sc_Subject := ''local:r'', sc_ExpiresAt := Some (numeric_date (1000 + sessionTTL))\<rparr>"

lemma demo_owner_session: "sessionOf demo_authn (demo_owner uid) (demo_env s) = Some demo_owner_session"
proof -
  obtain tk where tk: "mintSessionWith demo_lib demo_secret demo_owner_claims ''local:r'' 1000 sessionTTL = Some tk"
    by (simp add: mintSessionWith_def signJWT_def minSessionSecret_def)
  have c: "cookieValue (demo_owner uid) sessionCookie = tk"
    by (simp add: demo_owner_def demo_request_def cookieValue_def attr_def tk)
  show ?thesis
    using own_session [OF demo_signing, of demo_owner_claims "''local:r''" 1000 sessionTTL tk 1000] demo_later tk
    by (simp add: sessionOf_def c demo_env_def sessionRevoked_def demo_owner_claims_def base_claims_def)
qed

lemma demo_owner:
  "activeOrgRole demo_authn (demo_owner uid) (demo_env demo_store) = Inr (demo_owner_session, demo_user, OrgRoleOwner)"
proof -
  have "OrgRole demo_store ''1'' ''1'' = Ok OrgRoleOwner" unfolding demo_store_def by code_simp
  then show ?thesis
    using demo_store demo_owner_session [of uid demo_store]
    by (simp add: activeOrgRole_def orgActor_def demo_env_def demo_owner_claims_def base_claims_def demo_user_def)
qed

lemma demo_owners: "owners 1 demo_store = {1}" "store_ok demo_store" "parseID ''1'' = Some 1"
proof -
  have "st_orgMembers demo_store = [(1, [(1, ''owner'')])]" unfolding demo_store_def by code_simp
  then show "owners 1 demo_store = {1}" by (auto simp: owners_def role_of_def sget_def OrgRoleOwner_def split: if_splits)
  show "store_ok demo_store" unfolding demo_store_def by (intro store_ok_steps) simp_all
  show "parseID ''1'' = Some 1" by code_simp
qed

theorem last_owner_lost_by_spelling_witness:
  "owners 1 (e_store (snd (OrgMemberRemove demo_authn (demo_owner ''01'') (demo_env demo_store)))) = {}"
proof -
  have "paramID (demo_owner ''01'') ''userId'' = Some ''01''" "parseID ''01'' = Some 1" "''01'' \<noteq> idStr 1"
    by (simp add: paramID_def demo_owner_def attr_def Let_def, code_simp) code_simp+
  with last_owner_lost_by_spelling [OF _ demo_owner] demo_owners show ?thesis
    by (simp add: demo_env_def demo_owner_claims_def base_claims_def)
qed

theorem last_owner_kept_witness:
  "owners 1 (e_store (snd (OrgMemberRemove demo_authn (demo_owner ''1'') (demo_env demo_store)))) \<noteq> {}"
proof -
  have "paramID (demo_owner ''1'') ''userId'' = Some (idStr 1)" "parseID (idStr 1) = Some 1"
    by (simp add: paramID_def demo_owner_def attr_def Let_def, code_simp) code_simp
  with last_owner_kept [OF _ demo_owner] demo_owners show ?thesis
    by (simp add: demo_env_def demo_owner_claims_def base_claims_def)
qed


lemma e_store_demo_env: "e_store (demo_env s) = s"
  by (simp add: demo_env_def)

theorem last_method_kept_witness:
  "1 \<le> signInMethods ''1'' (snd (PasskeyRemove demo_authn (demo_owner ''1'') (demo_env demo_login_store)))"
proof -
  have "store_ok demo_login_store" unfolding demo_login_store_def by (intro store_ok_steps cred_step_ok [OF cred_step.SetEmailVerified]) simp_all
  moreover have "UserBySub demo_login_store ''local:r'' = Ok demo_login_user" by code_simp
  then have "currentAuthUser demo_authn (demo_owner ''1'') (demo_env demo_login_store) = Some demo_login_user"
    using demo_owner_session [of "''1''" demo_login_store]
    by (auto simp: currentAuthUser_def sessionOf_def e_store_demo_env split: option.splits if_splits)
  moreover have "1 \<le> signInMethods (au_ID demo_login_user) (demo_env demo_login_store)" by code_simp
  ultimately show ?thesis
    using last_method_kept [of "demo_env demo_login_store" demo_authn "demo_owner ''1''" demo_login_user]
    by (simp add: demo_env_def demo_login_user_def)
qed

section \<open>The provider's callback and the second factor\<close>

lemma opens:
  assumes "minSessionSecret \<le> length (a_SessionSecret A)" and "0 \<le> ttl"
  shows "length (sess_cookies (snd (openSession A r base sub uid ttl e))) = Suc (length (sess_cookies e))"
proof -
  have s: "0 \<le> ttl div second_ns" using assms(2) by (simp add: second_ns_def)
  have "fst (RecordSession now st rec) = Ok ()" for now st rec by (simp add: RecordSession_def Let_def)
  then show ?thesis
    using assms(1) s by (simp add: openSession_def newSessionID_def freshToken_def mintSessionWith_def signJWT_def not_less
        recordSession_def op_def split_beta Let_def sess_cookies_setCookie split: sum.split)
qed

text \<open>
  C26: The callback of the identity provider does not ask for a second factor. Where the shared tail of
  the logins holds an account with two-step verification back, with a pending login and without a
  session, the callback signs the same account in at once.
\<close>

theorem callback_skips_second_factor:
  assumes "minSessionSecret \<le> length (a_SessionSecret A)" and "a_enabled A" and "a_authorizer A = None"
    and "parseFlowMulti (a_lib A) (e_now e) (secrets A) (cookieValue r flowCookie) = Some fc"
    and "attr (rq_query r) ''error'' = []" and "attr (rq_query r) ''state'' = fc_State fc"
    and "a_exchange A (attr (rq_query r) ''code'') (fc_Verifier fc) = Some (Some raw)" and "a_verifyID A (e_now e) raw = Some tok"
    and "it_Nonce tok = fc_Nonce fc" and "verifyAZP (it_Audience tok) (it_AZP tok) (a_ClientID A)"
    and "it_Email tok = [] \<or> it_EmailVerified tok \<or> a_OIDCAssumeVerified A" and "groupAllowed A (it_Groups tok)"
    and "storedUser A (it_Subject tok) e = Some u" and "userHasTOTP A (au_ID u) e"
  shows "length (sess_cookies (snd (Callback A r e))) = Suc (length (sess_cookies e)) \<and>
    (\<forall>i rm ff. id_Subject i = it_Subject tok \<longrightarrow> fst (completeLogin A r i rm ff e) \<noteq> Ok False \<and>
       sess_cookies (snd (completeLogin A r i rm ff e)) = sess_cookies e)"
proof (intro conjI allI impI)
  have t: "0 \<le> sessionTTL" by (simp add: sessionTTL_def hour_def minute_def second_ns_def)
  have "length (sess_cookies (snd (oidcSession A r fc raw tok (clearCookie flowCookie e)))) = Suc (length (sess_cookies e))"
    using opens [OF assms(1) t] assms(3)
    by (simp add: oidcSession_def authorizeLogin_def split_beta Let_def split: sum.split)
  moreover have "Callback A r e = oidcSession A r fc raw tok (clearCookie flowCookie e)"
    using assms(4-12) by (simp add: Callback_def assms(2) Let_def) auto
  ultimately show "length (sess_cookies (snd (Callback A r e))) = Suc (length (sess_cookies e))" by simp
next
  fix i :: Identity and rm ff
  assume "id_Subject i = it_Subject tok"
  then show "fst (completeLogin A r i rm ff e) \<noteq> Ok False" "sess_cookies (snd (completeLogin A r i rm ff e)) = sess_cookies e"
    using assms(13,14)
    by (simp_all add: completeLogin_def authorizeLogin_def assms(3) Let_def sess_cookies_setCookie twoFactorPendingCookie_def
        sessionCookie_def split: option.split)
qed

text \<open>A login-flow cookie signed under the current secret, until the second it expires.\<close>

lemma own_flow:
  assumes "signing_ok A" and "mintFlow (a_lib A) (a_SessionSecret A) fc now0 = Some tk"
  shows "parseFlowMulti (a_lib A) now (secrets A) tk = (if now < numeric_date (now0 + flowTTL) then Some fc else None)"
proof -
  have len: "minSessionSecret \<le> length (a_SessionSecret A)" using assms(2) by (auto simp: mintFlow_def signJWT_def split: if_splits)
  then have k: "a_SessionSecret A \<in> set (secrets A)" by (simp add: secrets_def set_verifySecrets)
  have j: "jwt_ok (a_lib A)" using assms(1) by (simp add: signing_ok_def)
  then have "c_jwtSign (a_lib A) k c \<noteq> []" for k c by (simp add: jwt_ok_def)
  moreover have "keys_separate (a_lib A) (filter (\<lambda>k. k \<noteq> a_SessionSecret A) (secrets A)) (a_SessionSecret A)"
    using assms(1) by (simp add: signing_ok_def)
  ultimately show ?thesis
    using parseJWTMulti_signed [OF j k len] assms(2) len by (auto simp: parseFlowMulti_def mintFlow_def signJWT_def)
qed


text \<open>A provider whose ID tokens name the account of the demonstration, with two-step verification turned on.\<close>

definition demo_oidc :: authn where
  "demo_oidc = demo_authn\<lparr>a_enabled := True, a_authorizer := None, a_verifyID := (\<lambda>now raw. Some
     \<lparr>it_Subject = ''local:r'', it_Nonce = ''n'', it_Audience = [], it_Email = ''a@x.y'', it_EmailVerified = True, it_Name = ''A'',
      it_PreferredUsername = [], it_Groups = [], it_AZP = []\<rparr>)\<rparr>"

definition demo_enrolled :: env where
  "demo_enrolled = demo_env (snd (EnableTOTP (snd (SetTOTPSecret demo_login_store ''1'' ''S'')) ''1''))"

abbreviation demo_flow :: flowClaims where
  "demo_flow \<equiv> \<lparr>fc_State = ''s'', fc_Nonce = ''n'', fc_Verifier = ''v'', fc_Next = ''/''\<rparr>"

definition demo_callback :: "string \<Rightarrow> request" where
  "demo_callback tk = (demo_request [(flowCookie, tk)] [])\<lparr>rq_query := [(''state'', ''s''), (''code'', ''c'')]\<rparr>"

lemma demo_oidc [simp]:
  "a_lib demo_oidc = demo_lib" "a_SessionSecret demo_oidc = demo_secret" "secrets demo_oidc = secrets demo_authn"
  "a_enabled demo_oidc" "a_authorizer demo_oidc = None" "signing_ok demo_oidc"
  using demo_signing by (simp_all add: demo_oidc_def secrets_def signing_ok_def)

theorem callback_skips_second_factor_witness:
  "\<exists>tk. length (sess_cookies (snd (Callback demo_oidc (demo_callback tk) demo_enrolled))) = 1"
proof -
  obtain tk where tk: "mintFlow demo_lib demo_secret demo_flow 1000 = Some tk"
    by (simp add: mintFlow_def signJWT_def not_less)
  let ?r = "demo_callback tk"
  have now: "e_now demo_enrolled = 1000" "sess_cookies demo_enrolled = []"
    by (simp_all add: demo_enrolled_def demo_env_def sess_cookies_def)
  have "1000 < numeric_date (1000 + flowTTL)"
    by (rule numeric_date_later) (simp add: second_ns_def flowTTL_def minute_def)
  then have f: "parseFlowMulti (a_lib demo_oidc) (e_now demo_enrolled) (secrets demo_oidc) (cookieValue ?r flowCookie) = Some demo_flow"
    using own_flow [of demo_oidc demo_flow 1000 tk 1000] tk by (simp add: now demo_callback_def demo_request_def cookieValue_def attr_def)
  have u: "storedUser demo_oidc ''local:r'' demo_enrolled = Some demo_login_user" "userHasTOTP demo_oidc (au_ID demo_login_user) demo_enrolled"
    by code_simp+
  have p: "a_exchange demo_oidc (attr (rq_query ?r) ''code'') (fc_Verifier demo_flow) = Some (Some ''c'')"
    "attr (rq_query ?r) ''state'' = fc_State demo_flow" "attr (rq_query ?r) ''error'' = []" "a_ClientID demo_oidc = []"
    "groupAllowed demo_oidc []"
    by (simp_all add: demo_oidc_def demo_authn_def demo_callback_def attr_def groupAllowed_def)
  let ?tok = "\<lparr>it_Subject = ''local:r'', it_Nonce = ''n'', it_Audience = [], it_Email = ''a@x.y'', it_EmailVerified = True, it_Name = ''A'',
      it_PreferredUsername = [], it_Groups = [], it_AZP = []\<rparr>"
  have v: "a_verifyID demo_oidc (e_now demo_enrolled) ''c'' = Some ?tok" by (simp add: demo_oidc_def)
  have "length (sess_cookies (snd (Callback demo_oidc ?r demo_enrolled))) = Suc (length (sess_cookies demo_enrolled))"
    using callback_skips_second_factor [of demo_oidc demo_enrolled ?r demo_flow "''c''" ?tok demo_login_user, OF _ _ _ f p(3,2,1) v] u p(4,5)
    by (simp add: verifyAZP_def)
  then show ?thesis by (simp add: now exI [of _ tk])
qed


end
