(* ===== verification/Json.thy ===== *)
theory Json
  imports GoStrings
begin

text \<open>
  JSON bodies as \<open>encoding/json\<close> reads them: the value of a body that parses, and decoding into a Go
  struct, slice, string or bool. A decoder takes the value and what the target held before, because a
  JSON \<open>null\<close> leaves a target as it is, and fails on a value of another kind; the members of an object are
  taken in order, a key matches a field whatever its case, and members without a field are skipped.
  Every caller drops the target when decoding fails, so the failure carries nothing.
\<close>

datatype json =
    VNull | VBool bool | VNum string | VStr string
  | VArr "json list" | VObj "(string \<times> json) list"

type_synonym 'a decoder = "json \<Rightarrow> 'a \<Rightarrow> 'a option"

definition j_string :: "string decoder" where
  "j_string j old = (case j of VStr s \<Rightarrow> Some s | VNull \<Rightarrow> Some old | _ \<Rightarrow> None)"

definition j_bool :: "bool decoder" where
  "j_bool j old = (case j of VBool b \<Rightarrow> Some b | VNull \<Rightarrow> Some old | _ \<Rightarrow> None)"

text \<open>The elements of a slice start from the zero value; \<open>null\<close> makes the slice nil.\<close>

fun j_elems :: "'a decoder \<Rightarrow> 'a \<Rightarrow> json list \<Rightarrow> 'a list option" where
  "j_elems d z [] = Some []"
| "j_elems d z (j # js) = (case d j z of
     None \<Rightarrow> None
   | Some x \<Rightarrow> (case j_elems d z js of None \<Rightarrow> None | Some xs \<Rightarrow> Some (x # xs)))"

definition j_slice :: "'a decoder \<Rightarrow> 'a \<Rightarrow> 'a list decoder" where
  "j_slice d z j old = (case j of VNull \<Rightarrow> Some [] | VArr js \<Rightarrow> j_elems d z js | _ \<Rightarrow> None)"

text \<open>A pointer to a struct: \<open>null\<close> makes it nil, an object decodes into what it points to or into a new one.\<close>

definition j_pointer :: "'a decoder \<Rightarrow> 'a \<Rightarrow> 'a option decoder" where
  "j_pointer d z j old = (if j = VNull then Some None
     else map_option Some (d j (case old of None \<Rightarrow> z | Some x \<Rightarrow> x)))"

fun j_members :: "(string \<Rightarrow> 'a decoder) \<Rightarrow> (string \<times> json) list \<Rightarrow> 'a \<Rightarrow> 'a option" where
  "j_members f [] x = Some x"
| "j_members f ((k, j) # kvs) x = (case f k j x of None \<Rightarrow> None | Some y \<Rightarrow> j_members f kvs y)"

definition j_struct :: "(string \<Rightarrow> 'a decoder) \<Rightarrow> 'a decoder" where
  "j_struct f j x = (case j of VNull \<Rightarrow> Some x | VObj kvs \<Rightarrow> j_members f kvs x | _ \<Rightarrow> None)"

text \<open>A member into a field of the struct: the getter and the setter of the field.\<close>

definition into :: "'b decoder \<Rightarrow> ('a \<Rightarrow> 'b) \<Rightarrow> ('b \<Rightarrow> 'a \<Rightarrow> 'a) \<Rightarrow> 'a decoder" where
  "into d get put j x = (case d j (get x) of None \<Rightarrow> None | Some y \<Rightarrow> Some (put y x))"

text \<open>\<open>json.RawMessage\<close> keeps the value as it stands; absent, it is empty.\<close>

definition j_raw :: "json option decoder" where
  "j_raw j old = Some (Some j)"

definition unmarshal :: "'a decoder \<Rightarrow> 'a \<Rightarrow> json option \<Rightarrow> 'a option" where
  "unmarshal d z body = (case body of None \<Rightarrow> None | Some j \<Rightarrow> d j z)"

lemma j_elems_length: "j_elems d z js = Some xs \<Longrightarrow> length xs = length js"
  by (induction js arbitrary: xs) (auto split: option.splits)

lemma j_elems_pointwise:
  "j_elems d z js = Some xs \<Longrightarrow> list_all2 (\<lambda>j x. d j z = Some x) js xs"
  by (induction js arbitrary: xs) (auto split: option.splits)

end
