(* ===== verification/Scim.thy ===== *)
theory Scim
  imports Json OrgView ScimFilter Gates
begin

text \<open>
  The SCIM 2.0 server (\<open>scim/scim.go\<close>, \<open>scim/etag.go\<close>). It serves a directory, an interface with two
  implementations in the repository: the in-memory store as a whole, and the view of one
  organization. A handler maps the time, a request and the store to a response and the new store.

  A request carries the decoded segments of its path, its query and headers, and its body twice: as a
  whole (\<open>json.Unmarshal\<close>) and its first value (\<open>Decoder.Decode\<close>); both are absent when it does not parse or is
  too long. Parameters of the server: the hash, the rendering of a timestamp and of a number, the
  validation of a bearer token, and the reading of a method and target as a request line, which has no
  result where \<open>httptest.NewRequest\<close> panics.
\<close>

section \<open>The directory\<close>

record directory =
  d_ListUsers :: "store \<Rightarrow> AuthUser list result"
  d_UserByID :: "store \<Rightarrow> string \<Rightarrow> AuthUser result"
  d_UserByEmail :: "store \<Rightarrow> string \<Rightarrow> AuthUser result"
  d_UpsertExternalUser :: "time \<Rightarrow> store \<Rightarrow> string \<Rightarrow> string \<Rightarrow> string \<Rightarrow> bool \<Rightarrow> AuthUser result \<times> store"
  d_SetUserDisabled :: "store \<Rightarrow> string \<Rightarrow> bool \<Rightarrow> unit result \<times> store"
  d_CreateGroup :: "time \<Rightarrow> store \<Rightarrow> string \<Rightarrow> string \<Rightarrow> Group result \<times> store"
  d_Groups :: "store \<Rightarrow> Group list result"
  d_GroupByName :: "store \<Rightarrow> string \<Rightarrow> Group result"
  d_DeleteGroup :: "store \<Rightarrow> string \<Rightarrow> unit result \<times> store"
  d_AddUsersToGroup :: "store \<Rightarrow> string list \<Rightarrow> string \<Rightarrow> unit result \<times> store"
  d_RemoveUsersFromGroup :: "store \<Rightarrow> string list \<Rightarrow> string \<Rightarrow> unit result \<times> store"
  d_GroupMembers :: "store \<Rightarrow> string \<Rightarrow> AuthUser list result"

definition memDirectory :: directory where
  "memDirectory = \<lparr>d_ListUsers = MemDirectory.ListUsers, d_UserByID = MemDirectory.UserByID,
     d_UserByEmail = MemIdentity.UserByEmail, d_UpsertExternalUser = MemDirectory.UpsertExternalUser,
     d_SetUserDisabled = MemDirectory.SetUserDisabled, d_CreateGroup = MemDirectory.CreateGroup,
     d_Groups = MemDirectory.Groups, d_GroupByName = MemDirectory.GroupByName,
     d_DeleteGroup = MemDirectory.DeleteGroup, d_AddUsersToGroup = MemDirectory.AddUsersToGroup,
     d_RemoveUsersFromGroup = MemDirectory.RemoveUsersFromGroup, d_GroupMembers = MemDirectory.GroupMembers\<rparr>"

definition orgDirectory :: "string \<Rightarrow> directory" where
  "orgDirectory orgID = \<lparr>d_ListUsers = view_ListUsers orgID, d_UserByID = view_UserByID orgID,
     d_UserByEmail = view_UserByEmail orgID, d_UpsertExternalUser = (\<lambda>now. view_UpsertExternalUser now orgID),
     d_SetUserDisabled = view_SetUserDisabled orgID, d_CreateGroup = (\<lambda>now. view_CreateGroup now orgID),
     d_Groups = view_Groups orgID, d_GroupByName = view_GroupByName orgID,
     d_DeleteGroup = view_DeleteGroup orgID, d_AddUsersToGroup = view_AddUsersToGroup orgID,
     d_RemoveUsersFromGroup = view_RemoveUsersFromGroup orgID, d_GroupMembers = view_GroupMembers orgID\<rparr>"

text \<open>What the callers do with a reading that failed: \<open>x, _ := ...\<close>.\<close>

definition or_nil :: "'a list result \<Rightarrow> 'a list" where
  "or_nil r = (case r of Inl _ \<Rightarrow> [] | Inr xs \<Rightarrow> xs)"

record scim_server =
  sv_dir :: directory
  sv_baseURL :: string
  sv_sha256 :: "bytes \<Rightarrow> bytes"
  sv_RFC3339 :: "time \<Rightarrow> string"
  sv_target :: "string \<Rightarrow> string \<Rightarrow> (string list \<times> (string \<times> string) list) option"

record scim_request =
  sq_method :: string
  sq_path :: "string list"
  sq_query :: "(string \<times> string) list"
  sq_headers :: "(string \<times> string) list"
  sq_body :: "json option"
  sq_first :: "json option"

section \<open>The resources\<close>

definition schemaUser :: string where "schemaUser = ''urn:ietf:params:scim:schemas:core:2.0:User''"
definition schemaGroup :: string where "schemaGroup = ''urn:ietf:params:scim:schemas:core:2.0:Group''"
definition maxBulkOperations :: nat where "maxBulkOperations = 100"

record scimName =
  sn_Formatted :: string
  sn_GivenName :: string
  sn_FamilyName :: string

record scimEmail =
  se_Value :: string
  se_Primary :: bool

record scimMeta =
  sm_ResourceType :: string
  sm_Created :: string
  sm_LastModified :: string
  sm_Location :: string
  sm_Version :: string

record scimUser =
  su_Schemas :: "string list"
  su_ID :: string
  su_UserName :: string
  su_Name :: "scimName option"
  su_Emails :: "scimEmail list"
  su_Active :: bool
  su_Meta :: scimMeta

record scimMember =
  sb_Value :: string
  sb_Display :: string

record scimGroup =
  sg_Schemas :: "string list"
  sg_ID :: string
  sg_DisplayName :: string
  sg_Members :: "scimMember list"
  sg_Meta :: scimMeta

record patch_operation =
  po_Op :: string
  po_Path :: string
  po_Value :: "json option"

record bulk_operation =
  bo_Method :: string
  bo_Path :: string
  bo_BulkID :: string
  bo_Data :: "json option"

definition zero_meta :: scimMeta where
  "zero_meta = \<lparr>sm_ResourceType = [], sm_Created = [], sm_LastModified = [], sm_Location = [], sm_Version = []\<rparr>"

definition zero_user :: scimUser where
  "zero_user = \<lparr>su_Schemas = [], su_ID = [], su_UserName = [], su_Name = None, su_Emails = [],
     su_Active = False, su_Meta = zero_meta\<rparr>"

definition zero_group :: scimGroup where
  "zero_group = \<lparr>sg_Schemas = [], sg_ID = [], sg_DisplayName = [], sg_Members = [], sg_Meta = zero_meta\<rparr>"

text \<open>The struct tags: which member decodes into which field.\<close>

definition d_name :: "scimName decoder" where
  "d_name = j_struct (\<lambda>k.
     if equal_fold k ''formatted'' then into j_string sn_Formatted (\<lambda>v. sn_Formatted_update (\<lambda>_. v))
     else if equal_fold k ''givenName'' then into j_string sn_GivenName (\<lambda>v. sn_GivenName_update (\<lambda>_. v))
     else if equal_fold k ''familyName'' then into j_string sn_FamilyName (\<lambda>v. sn_FamilyName_update (\<lambda>_. v))
     else (\<lambda>_. Some))"

definition d_email :: "scimEmail decoder" where
  "d_email = j_struct (\<lambda>k.
     if equal_fold k ''value'' then into j_string se_Value (\<lambda>v. se_Value_update (\<lambda>_. v))
     else if equal_fold k ''primary'' then into j_bool se_Primary (\<lambda>v. se_Primary_update (\<lambda>_. v))
     else (\<lambda>_. Some))"

definition d_meta :: "scimMeta decoder" where
  "d_meta = j_struct (\<lambda>k.
     if equal_fold k ''resourceType'' then into j_string sm_ResourceType (\<lambda>v. sm_ResourceType_update (\<lambda>_. v))
     else if equal_fold k ''created'' then into j_string sm_Created (\<lambda>v. sm_Created_update (\<lambda>_. v))
     else if equal_fold k ''lastModified'' then into j_string sm_LastModified (\<lambda>v. sm_LastModified_update (\<lambda>_. v))
     else if equal_fold k ''location'' then into j_string sm_Location (\<lambda>v. sm_Location_update (\<lambda>_. v))
     else if equal_fold k ''version'' then into j_string sm_Version (\<lambda>v. sm_Version_update (\<lambda>_. v))
     else (\<lambda>_. Some))"

definition d_user :: "scimUser decoder" where
  "d_user = j_struct (\<lambda>k.
     if equal_fold k ''schemas'' then into (j_slice j_string []) su_Schemas (\<lambda>v. su_Schemas_update (\<lambda>_. v))
     else if equal_fold k ''id'' then into j_string su_ID (\<lambda>v. su_ID_update (\<lambda>_. v))
     else if equal_fold k ''userName'' then into j_string su_UserName (\<lambda>v. su_UserName_update (\<lambda>_. v))
     else if equal_fold k ''name'' then into
       (j_pointer d_name \<lparr>sn_Formatted = [], sn_GivenName = [], sn_FamilyName = []\<rparr>) su_Name (\<lambda>v. su_Name_update (\<lambda>_. v))
     else if equal_fold k ''emails'' then into
       (j_slice d_email \<lparr>se_Value = [], se_Primary = False\<rparr>) su_Emails (\<lambda>v. su_Emails_update (\<lambda>_. v))
     else if equal_fold k ''active'' then into j_bool su_Active (\<lambda>v. su_Active_update (\<lambda>_. v))
     else if equal_fold k ''meta'' then into d_meta su_Meta (\<lambda>v. su_Meta_update (\<lambda>_. v))
     else (\<lambda>_. Some))"

definition d_member :: "scimMember decoder" where
  "d_member = j_struct (\<lambda>k.
     if equal_fold k ''value'' then into j_string sb_Value (\<lambda>v. sb_Value_update (\<lambda>_. v))
     else if equal_fold k ''display'' then into j_string sb_Display (\<lambda>v. sb_Display_update (\<lambda>_. v))
     else (\<lambda>_. Some))"

abbreviation zero_member :: scimMember where
  "zero_member \<equiv> \<lparr>sb_Value = [], sb_Display = []\<rparr>"

definition d_group :: "scimGroup decoder" where
  "d_group = j_struct (\<lambda>k.
     if equal_fold k ''schemas'' then into (j_slice j_string []) sg_Schemas (\<lambda>v. sg_Schemas_update (\<lambda>_. v))
     else if equal_fold k ''id'' then into j_string sg_ID (\<lambda>v. sg_ID_update (\<lambda>_. v))
     else if equal_fold k ''displayName'' then into j_string sg_DisplayName (\<lambda>v. sg_DisplayName_update (\<lambda>_. v))
     else if equal_fold k ''members'' then into (j_slice d_member zero_member) sg_Members (\<lambda>v. sg_Members_update (\<lambda>_. v))
     else if equal_fold k ''meta'' then into d_meta sg_Meta (\<lambda>v. sg_Meta_update (\<lambda>_. v))
     else (\<lambda>_. Some))"

definition d_patchOp :: "patch_operation list decoder" where
  "d_patchOp = j_struct (\<lambda>k. if equal_fold k ''Operations'' then
     j_slice (j_struct (\<lambda>k.
       if equal_fold k ''op'' then into j_string po_Op (\<lambda>v. po_Op_update (\<lambda>_. v))
       else if equal_fold k ''path'' then into j_string po_Path (\<lambda>v. po_Path_update (\<lambda>_. v))
       else if equal_fold k ''value'' then into j_raw po_Value (\<lambda>v. po_Value_update (\<lambda>_. v))
       else (\<lambda>_. Some))) \<lparr>po_Op = [], po_Path = [], po_Value = None\<rparr>
     else (\<lambda>_. Some))"

text \<open>\<open>activeWithDefault\<close>: the optional member \<open>active\<close>, true when it is absent.\<close>

definition activeWithDefault :: "json option \<Rightarrow> bool" where
  "activeWithDefault raw =
     (case unmarshal (j_struct (\<lambda>k. if equal_fold k ''active'' then j_pointer j_bool False else (\<lambda>_. Some))) None raw of
        Some (Some b) \<Rightarrow> b | _ \<Rightarrow> True)"

section \<open>Responses\<close>

datatype raw_body = RawJson json | RawText string

record bulk_result =
  br_Method :: string
  br_Status :: nat
  br_BulkID :: string
  br_Location :: string
  br_Response :: "raw_body option"

datatype scim_body =
    NoBody | PlainBody string | ErrorBody string string
  | UserBody scimUser | GroupBody scimGroup
  | UserList "scimUser list" nat nat | GroupList "scimGroup list" nat nat
  | BulkBody "bulk_result list" | JsonBody json

record scim_response =
  sp_Code :: nat
  sp_ETag :: string
  sp_Location :: string
  sp_Body :: scim_body

definition respond :: "nat \<Rightarrow> scim_body \<Rightarrow> scim_response" where
  "respond code body = \<lparr>sp_Code = code, sp_ETag = [], sp_Location = [], sp_Body = body\<rparr>"

definition scimErrorType :: "nat \<Rightarrow> string \<Rightarrow> string \<Rightarrow> scim_response" where
  "scimErrorType code scimType detail = respond code (ErrorBody scimType detail)"

definition scimError :: "nat \<Rightarrow> string \<Rightarrow> scim_response" where
  "scimError code detail = scimErrorType code [] detail"

definition scimInternal :: scim_response where
  "scimInternal = scimError 500 ''internal error''"

text \<open>\<open>writeResource\<close>: a resource under its version, which is never empty.\<close>

definition writeResource :: "nat \<Rightarrow> scim_body \<Rightarrow> string \<Rightarrow> scim_response" where
  "writeResource code obj version = (respond code obj)\<lparr>sp_ETag := version\<rparr>"

section \<open>Versions and preconditions\<close>

definition cComma :: char where "cComma = CHR 0x2C"

definition trim_chars :: "char \<Rightarrow> string \<Rightarrow> string" where
  "trim_chars c s = rev (dropWhile (\<lambda>x. x = c) (rev (dropWhile (\<lambda>x. x = c) s)))"

definition trim_prefix :: "string \<Rightarrow> string \<Rightarrow> string" where
  "trim_prefix s p = (if has_prefix s p then drop (length p) s else s)"

fun join_nul :: "string list \<Rightarrow> string" where
  "join_nul [] = []"
| "join_nul [s] = s"
| "join_nul (s # ss) = s @ CHR 0x00 # join_nul ss"

definition resourceETag :: "scim_server \<Rightarrow> string list \<Rightarrow> string" where
  "resourceETag S parts = cQuote # hex_encode (take 8 (sv_sha256 S (join_nul parts))) @ [cQuote]"

definition userVersion :: "scim_server \<Rightarrow> AuthUser \<Rightarrow> string" where
  "userVersion S u = resourceETag S [''user'', au_ID u, au_Email u, au_Name u, format_bool (\<not> au_Disabled u)]"

definition groupVersion :: "scim_server \<Rightarrow> Group \<Rightarrow> AuthUser list \<Rightarrow> string" where
  "groupVersion S g members = resourceETag S (''group'' # g_ID g # g_Name g # map au_ID members)"

definition etagCore :: "string \<Rightarrow> string" where
  "etagCore tag = trim_chars cQuote (trim_prefix tag ''W/'')"

definition etagListHas :: "string \<Rightarrow> string \<Rightarrow> bool" where
  "etagListHas h version =
     list_ex (\<lambda>tag. etagCore (trim_space tag) = etagCore version) (split_on cComma h)"

definition etagListHasStrong :: "string \<Rightarrow> string \<Rightarrow> bool" where
  "etagListHasStrong h version =
     list_ex (\<lambda>tag. let tag = trim_space tag in \<not> has_prefix tag ''W/'' \<and> etagCore tag = etagCore version)
       (split_on cComma h)"

definition ifNoneMatchSatisfied :: "scim_request \<Rightarrow> string \<Rightarrow> bool" where
  "ifNoneMatchSatisfied r version =
     (let h = attr (sq_headers r) ''If-None-Match'' in h \<noteq> [] \<and> (h = ''*'' \<or> etagListHas h version))"

definition ifMatchFails :: "scim_request \<Rightarrow> string \<Rightarrow> bool" where
  "ifMatchFails r version =
     (let h = attr (sq_headers r) ''If-Match'' in
      if h = [] \<or> h = ''*'' then False else \<not> etagListHasStrong h version)"

section \<open>Rendering and paging\<close>

definition loc :: "scim_server \<Rightarrow> string \<Rightarrow> string \<Rightarrow> string" where
  "loc S kind i = (if sv_baseURL S = [] then [] else sv_baseURL S @ ''/'' @ kind @ ''/'' @ i)"

definition scimTime :: "scim_server \<Rightarrow> time \<Rightarrow> string" where
  "scimTime S t = (if t = 0 then [] else sv_RFC3339 S t)"

definition lastModified :: "time \<Rightarrow> time \<Rightarrow> time" where
  "lastModified created updated = (if updated = 0 then created else updated)"

definition toSCIMUser :: "scim_server \<Rightarrow> AuthUser \<Rightarrow> scimUser" where
  "toSCIMUser S u = \<lparr>su_Schemas = [schemaUser], su_ID = au_ID u, su_UserName = au_Email u,
     su_Name = Some \<lparr>sn_Formatted = au_Name u, sn_GivenName = [], sn_FamilyName = []\<rparr>,
     su_Emails = [\<lparr>se_Value = au_Email u, se_Primary = True\<rparr>], su_Active = (\<not> au_Disabled u),
     su_Meta = \<lparr>sm_ResourceType = ''User'', sm_Created = scimTime S (au_CreatedAt u),
       sm_LastModified = scimTime S (lastModified (au_CreatedAt u) (au_UpdatedAt u)),
       sm_Location = loc S ''Users'' (au_ID u), sm_Version = userVersion S u\<rparr>\<rparr>"

definition toSCIMGroup :: "scim_server \<Rightarrow> Group \<Rightarrow> AuthUser list \<Rightarrow> scimGroup" where
  "toSCIMGroup S g members = \<lparr>sg_Schemas = [schemaGroup], sg_ID = g_ID g, sg_DisplayName = g_Name g,
     sg_Members = map (\<lambda>m. \<lparr>sb_Value = au_ID m, sb_Display = au_Email m\<rparr>) members,
     sg_Meta = \<lparr>sm_ResourceType = ''Group'', sm_Created = scimTime S (g_CreatedAt g),
       sm_LastModified = scimTime S (lastModified (g_CreatedAt g) (g_UpdatedAt g)),
       sm_Location = loc S ''Groups'' (g_ID g), sm_Version = groupVersion S g members\<rparr>\<rparr>"

text \<open>\<open>strconv.Atoi\<close>: an optional sign and decimal digits, in the range of a 64-bit \<open>int\<close>.\<close>

definition atoi :: "string \<Rightarrow> int option" where
  "atoi s = (let neg = (s \<noteq> [] \<and> hd s = CHR ''-'');
                 ds = (if s \<noteq> [] \<and> (hd s = CHR ''-'' \<or> hd s = CHR ''+'') then tl s else s) in
     if ds = [] \<or> \<not> list_all is_digit ds then None
     else let n = (if neg then - int (digits_val ds) else int (digits_val ds)) in
          if - (2 ^ 63) \<le> n \<and> n < 2 ^ 63 then Some n else None)"

text \<open>\<open>parsePaging\<close>: the 1-based start and the count, \<open>-1\<close> when there is none.\<close>

definition parsePaging :: "string \<Rightarrow> string \<Rightarrow> int \<times> int" where
  "parsePaging startIndexRaw countRaw =
     ((case atoi startIndexRaw of Some n \<Rightarrow> if 1 < n then n else 1 | None \<Rightarrow> 1),
      (if countRaw \<noteq> [] then (case atoi countRaw of Some n \<Rightarrow> if n < 0 then 0 else n | None \<Rightarrow> -1) else -1))"

definition paginate :: "'a list \<Rightarrow> int \<Rightarrow> int \<Rightarrow> 'a list \<times> int" where
  "paginate xs startIndex0 cnt =
     (let startIndex = (if startIndex0 < 1 then 1 else startIndex0);
          lo = startIndex - 1;
          lo = (if int (length xs) < lo then int (length xs) else lo);
          rest = drop (nat lo) xs
      in if cnt < 0 \<or> int (length rest) < cnt then (rest, startIndex)
         else (take (nat cnt) rest, startIndex))"

section \<open>Users\<close>

definition listUsers :: "scim_server \<Rightarrow> scim_request \<Rightarrow> store \<Rightarrow> scim_response" where
  "listUsers S r s = (case d_ListUsers (sv_dir S) s of
     Inl _ \<Rightarrow> scimInternal
   | Inr users \<Rightarrow>
       let q = attr (sq_query r);
           page = (\<lambda>users.
             let users = sortUsers users (q ''sortBy'') (q ''sortOrder'');
                 (si, cnt) = parsePaging (q ''startIndex'') (q ''count'');
                 (pageUsers, start) = paginate users si cnt
             in respond 200 (UserList (map (toSCIMUser S) pageUsers) (length users) (nat start)))
       in if q ''filter'' \<noteq> []
          then (case compileFilter (q ''filter'') of
                  Inl _ \<Rightarrow> scimErrorType 400 ''invalidFilter'' ''invalid filter''
                | Inr p \<Rightarrow> page (filter (\<lambda>u. p (userResource u)) users))
          else page users)"

text \<open>The address and the name that a create or a replace asks for.\<close>

definition wanted_email :: "scimUser \<Rightarrow> string" where
  "wanted_email u = (case su_Emails u of [] \<Rightarrow> su_UserName u
     | e # _ \<Rightarrow> if se_Value e \<noteq> [] then se_Value e else su_UserName u)"

definition wanted_name :: "scimUser \<Rightarrow> string" where
  "wanted_name u = (case su_Name u of None \<Rightarrow> su_UserName u
     | Some n \<Rightarrow> if sn_Formatted n \<noteq> [] then sn_Formatted n else su_UserName u)"

definition createUser :: "scim_server \<Rightarrow> scim_request \<Rightarrow> time \<Rightarrow> store \<Rightarrow> scim_response \<times> store" where
  "createUser S r now s = (let D = sv_dir S in
     case unmarshal d_user zero_user (sq_body r) of
       None \<Rightarrow> (scimError 400 ''userName required'', s)
     | Some u0 \<Rightarrow>
         if su_UserName u0 = [] then (scimError 400 ''userName required'', s)
         else let email = wanted_email u0; name = wanted_name u0;
                  taken = scimErrorType 409 ''uniqueness'' ''a user with this email already exists'' in
         case d_UserByEmail D s email of
           Inr _ \<Rightarrow> (taken, s)
         | Inl e \<Rightarrow>
             if e \<noteq> ErrNoUser then (scimInternal, s)
             else case d_UpsertExternalUser D now s (''scim:'' @ su_UserName u0) email name True of
               (Inl e, s) \<Rightarrow> (if e = ErrEmailConflict then taken else scimInternal, s)
             | (Inr u, s) \<Rightarrow>
                 let active = activeWithDefault (sq_body r);
                     s = (if active \<noteq> (\<not> au_Disabled u) then snd (d_SetUserDisabled D s (au_ID u) (\<not> active)) else s);
                     u = u\<lparr>au_Disabled := \<not> active\<rparr>
                 in ((writeResource 201 (UserBody (toSCIMUser S u)) (userVersion S u))
                       \<lparr>sp_Location := sm_Location (su_Meta (toSCIMUser S u))\<rparr>, s))"

definition getUser :: "scim_server \<Rightarrow> string \<Rightarrow> scim_request \<Rightarrow> store \<Rightarrow> scim_response" where
  "getUser S i r s = (case d_UserByID (sv_dir S) s i of
     Inl _ \<Rightarrow> scimError 404 ''user not found''
   | Inr u \<Rightarrow>
       let v = userVersion S u in
       if ifNoneMatchSatisfied r v then writeResource 304 NoBody v
       else writeResource 200 (UserBody (toSCIMUser S u)) v)"

fun validatePatchOps :: "patch_operation list \<Rightarrow> (string \<times> string) option" where
  "validatePatchOps [] = None"
| "validatePatchOps (p # ps) =
     (let opl = to_lower (po_Op p) in
      if opl = ''add'' \<or> opl = ''replace'' then validatePatchOps ps
      else if opl = ''remove'' then
        (if trim_space (po_Path p) = [] then Some (''noTarget'', ''a 'remove' operation requires a path'')
         else validatePatchOps ps)
      else Some (''invalidValue'', ''unsupported PATCH op: '' @ po_Op p))"

text \<open>\<open>activeFromOp\<close>: the value of a path \<open>active\<close>, or the member of that exact name of an object.\<close>

definition activeFromOp :: "string \<Rightarrow> json option \<Rightarrow> bool option" where
  "activeFromOp path val =
     (case (if equal_fold path ''active'' then unmarshal j_bool False val else None) of
        Some b \<Rightarrow> Some b
      | None \<Rightarrow> (case val of
          Some (VObj kvs) \<Rightarrow> (case map_of (rev kvs) ''active'' of Some (VBool b) \<Rightarrow> Some b | _ \<Rightarrow> None)
        | _ \<Rightarrow> None))"

fun applyActive :: "directory \<Rightarrow> string \<Rightarrow> patch_operation list \<Rightarrow> store \<Rightarrow> bool \<times> store" where
  "applyActive D i [] s = (True, s)"
| "applyActive D i (p # ps) s = (case activeFromOp (po_Path p) (po_Value p) of
     None \<Rightarrow> applyActive D i ps s
   | Some active \<Rightarrow> (case d_SetUserDisabled D s i (\<not> active) of
       (Inl e, s) \<Rightarrow> if e = ErrOrgOwnerDeprovision then (False, s) else applyActive D i ps s
     | (Inr _, s) \<Rightarrow> applyActive D i ps s))"

fun lastActive :: "patch_operation list \<Rightarrow> bool option" where
  "lastActive [] = None"
| "lastActive (p # ps) = (case lastActive ps of
     Some b \<Rightarrow> Some b | None \<Rightarrow> activeFromOp (po_Path p) (po_Value p))"

definition owner_kept :: string where
  "owner_kept = ''authx: cannot deprovision an organization owner via SCIM '' @ em_dash @ '' manage owners in-app''"

text \<open>A user whom the directory does not show any more is rendered as it was, with the state applied.\<close>

definition render_after :: "scim_server \<Rightarrow> string \<Rightarrow> AuthUser \<Rightarrow> bool option \<Rightarrow> store \<Rightarrow> scim_response" where
  "render_after S i cur active s =
     (let u = (case d_UserByID (sv_dir S) s i of
         Inr u \<Rightarrow> u
       | Inl _ \<Rightarrow> (case active of None \<Rightarrow> cur | Some b \<Rightarrow> cur\<lparr>au_Disabled := \<not> b\<rparr>))
      in writeResource 200 (UserBody (toSCIMUser S u)) (userVersion S u))"

definition patchUser :: "scim_server \<Rightarrow> string \<Rightarrow> scim_request \<Rightarrow> store \<Rightarrow> scim_response \<times> store" where
  "patchUser S i r s = (case d_UserByID (sv_dir S) s i of
     Inl _ \<Rightarrow> (scimError 404 ''user not found'', s)
   | Inr cur \<Rightarrow>
       if ifMatchFails r (userVersion S cur) then (scimError 412 ''ETag precondition failed'', s)
       else case unmarshal d_patchOp [] (sq_first r) of
         None \<Rightarrow> (scimError 400 ''invalid PatchOp'', s)
       | Some ops \<Rightarrow> (case validatePatchOps ops of
           Some (st, detail) \<Rightarrow> (scimErrorType 400 st detail, s)
         | None \<Rightarrow> (case applyActive (sv_dir S) i ops s of
             (False, s) \<Rightarrow> (scimError 403 owner_kept, s)
           | (True, s) \<Rightarrow> (render_after S i cur (lastActive ops) s, s))))"

definition putUser :: "scim_server \<Rightarrow> string \<Rightarrow> scim_request \<Rightarrow> time \<Rightarrow> store \<Rightarrow> scim_response \<times> store" where
  "putUser S i r now s = (let D = sv_dir S in case d_UserByID D s i of
     Inl _ \<Rightarrow> (scimError 404 ''user not found'', s)
   | Inr cur \<Rightarrow>
       if ifMatchFails r (userVersion S cur) then (scimError 412 ''ETag precondition failed'', s)
       else case unmarshal d_user zero_user (sq_body r) of
         None \<Rightarrow> (scimError 400 ''userName required'', s)
       | Some u0 \<Rightarrow>
           if su_UserName u0 = [] then (scimError 400 ''userName required'', s)
           else case d_UpsertExternalUser D now s (au_Sub cur) (wanted_email u0) (wanted_name u0) True of
             (Inl e, s) \<Rightarrow> (if e = ErrEmailConflict
                then scimErrorType 409 ''uniqueness'' ''a user with this email already exists'' else scimInternal, s)
           | (Inr _, s) \<Rightarrow>
               let active = activeWithDefault (sq_body r) in
               (case d_SetUserDisabled D s (au_ID cur) (\<not> active) of (res, s) \<Rightarrow>
                  if res = Err ErrOrgOwnerDeprovision then (scimError 403 owner_kept, s)
                  else (render_after S (au_ID cur) cur (Some active) s, s)))"

definition deleteUser :: "scim_server \<Rightarrow> string \<Rightarrow> scim_request \<Rightarrow> store \<Rightarrow> scim_response \<times> store" where
  "deleteUser S i r s = (let D = sv_dir S in
     if attr (sq_headers r) ''If-Match'' \<noteq> [] \<and>
        (case d_UserByID D s i of Inl _ \<Rightarrow> False | Inr cur \<Rightarrow> ifMatchFails r (userVersion S cur))
     then (scimError 412 ''ETag precondition failed'', s)
     else case d_SetUserDisabled D s i True of
       (Inl e, s) \<Rightarrow> (if e = ErrOrgOwnerDeprovision then scimError 403 owner_kept else scimInternal, s)
     | (Inr _, s) \<Rightarrow> (respond 204 NoBody, s))"

section \<open>Groups\<close>

definition listGroups :: "scim_server \<Rightarrow> scim_request \<Rightarrow> store \<Rightarrow> scim_response" where
  "listGroups S r s = (let D = sv_dir S in case d_Groups D s of
     Inl _ \<Rightarrow> scimInternal
   | Inr gs \<Rightarrow>
       let q = attr (sq_query r);
           page = (\<lambda>gs.
             let gs = sortGroups gs (q ''sortBy'') (q ''sortOrder'');
                 (si, cnt) = parsePaging (q ''startIndex'') (q ''count'');
                 (pageGroups, start) = paginate gs si cnt
             in respond 200 (GroupList (map (\<lambda>g. toSCIMGroup S g (or_nil (d_GroupMembers D s (g_ID g)))) pageGroups)
                  (length gs) (nat start)))
       in if q ''filter'' \<noteq> []
          then (case compileFilter (q ''filter'') of
                  Inl _ \<Rightarrow> scimErrorType 400 ''invalidFilter'' ''invalid filter''
                | Inr p \<Rightarrow> page (filter (\<lambda>g. p (groupResource g (or_nil (d_GroupMembers D s (g_ID g))))) gs))
          else page gs)"

text \<open>
  The membership writes go through \<open>AddGroupMembers\<close> and \<open>RemoveGroupMembers\<close> of \<open>directory.go\<close>, and both
  directories offer the batch forms; an error is logged only.
\<close>

definition addMembers :: "directory \<Rightarrow> string \<Rightarrow> string list \<Rightarrow> store \<Rightarrow> store" where
  "addMembers D groupID userIDs s = (if userIDs = [] then s else snd (d_AddUsersToGroup D s userIDs groupID))"

definition removeMembers :: "directory \<Rightarrow> string \<Rightarrow> string list \<Rightarrow> store \<Rightarrow> store" where
  "removeMembers D groupID userIDs s = (if userIDs = [] then s else snd (d_RemoveUsersFromGroup D s userIDs groupID))"

definition idsOf :: "scimMember list \<Rightarrow> string list" where
  "idsOf ms = filter (\<lambda>v. v \<noteq> []) (map sb_Value ms)"

text \<open>
  Making the members of a group those of a set, as \<open>putGroup\<close> and the \<open>replace\<close> of \<open>patchGroup\<close> do: the set
  is a Go map, added in an order that it leaves open (here that of the first mention).
\<close>

definition replaceMembers :: "directory \<Rightarrow> string \<Rightarrow> string list \<Rightarrow> store \<Rightarrow> store" where
  "replaceMembers D i want s =
     (let current = or_nil (d_GroupMembers D s i);
          s = removeMembers D i (filter (\<lambda>u. u \<notin> set want) (map au_ID current)) s
      in addMembers D i (remdups want) s)"

definition createGroup :: "scim_server \<Rightarrow> scim_request \<Rightarrow> time \<Rightarrow> store \<Rightarrow> scim_response \<times> store" where
  "createGroup S r now s = (let D = sv_dir S in
     case unmarshal d_group zero_group (sq_body r) of
       None \<Rightarrow> (scimError 400 ''displayName required'', s)
     | Some g0 \<Rightarrow>
         if sg_DisplayName g0 = [] then (scimError 400 ''displayName required'', s)
         else case d_GroupByName D s (sg_DisplayName g0) of
           Inr _ \<Rightarrow> (scimErrorType 409 ''uniqueness'' ''a group with this displayName already exists'', s)
         | Inl e \<Rightarrow>
             if e \<noteq> ErrNoGroup then (scimInternal, s)
             else case d_CreateGroup D now s (sg_DisplayName g0) ''provisioned via SCIM'' of
               (Inl _, s) \<Rightarrow> (scimInternal, s)
             | (Inr g, s) \<Rightarrow>
                 let s = addMembers D (g_ID g) (idsOf (sg_Members g0)) s;
                     members = or_nil (d_GroupMembers D s (g_ID g));
                     res = toSCIMGroup S g members
                 in ((writeResource 201 (GroupBody res) (groupVersion S g members))
                       \<lparr>sp_Location := sm_Location (sg_Meta res)\<rparr>, s))"

definition groupByID :: "directory \<Rightarrow> store \<Rightarrow> string \<Rightarrow> (Group \<times> AuthUser list) option" where
  "groupByID D s i = (case find (\<lambda>g. g_ID g = i) (or_nil (d_Groups D s)) of
     None \<Rightarrow> None | Some g \<Rightarrow> Some (g, or_nil (d_GroupMembers D s i)))"

definition getGroup :: "scim_server \<Rightarrow> string \<Rightarrow> scim_request \<Rightarrow> store \<Rightarrow> scim_response" where
  "getGroup S i r s = (case groupByID (sv_dir S) s i of
     None \<Rightarrow> scimError 404 ''group not found''
   | Some (g, members) \<Rightarrow>
       let v = groupVersion S g members in
       if ifNoneMatchSatisfied r v then writeResource 304 NoBody v
       else writeResource 200 (GroupBody (toSCIMGroup S g members)) v)"

text \<open>The end of \<open>putGroup\<close> and \<open>patchGroup\<close>; a group that is gone is rendered from its zero value.\<close>

definition renderGroup :: "scim_server \<Rightarrow> string \<Rightarrow> store \<Rightarrow> scim_response" where
  "renderGroup S i s = (case groupByID (sv_dir S) s i of
     Some (g, members) \<Rightarrow> writeResource 200 (GroupBody (toSCIMGroup S g members)) (groupVersion S g members)
   | None \<Rightarrow> (let g = \<lparr>g_ID = [], g_Name = [], g_Description = [], g_CreatedAt = 0, g_UpdatedAt = 0, g_OrgID = []\<rparr>
       in writeResource 200 (GroupBody (toSCIMGroup S g [])) (groupVersion S g [])))"

definition groupMatchFails :: "scim_server \<Rightarrow> scim_request \<Rightarrow> Group \<times> AuthUser list \<Rightarrow> bool" where
  "groupMatchFails S r gm \<longleftrightarrow> attr (sq_headers r) ''If-Match'' \<noteq> [] \<and> ifMatchFails r (groupVersion S (fst gm) (snd gm))"

definition putGroup :: "scim_server \<Rightarrow> string \<Rightarrow> scim_request \<Rightarrow> store \<Rightarrow> scim_response \<times> store" where
  "putGroup S i r s = (case groupByID (sv_dir S) s i of
     None \<Rightarrow> (scimError 404 ''group not found'', s)
   | Some gm \<Rightarrow>
       if groupMatchFails S r gm then (scimError 412 ''ETag precondition failed'', s)
       else case unmarshal d_group zero_group (sq_first r) of
         None \<Rightarrow> (scimError 400 ''invalid Group'', s)
       | Some g0 \<Rightarrow> (let s = replaceMembers (sv_dir S) i (idsOf (sg_Members g0)) s in (renderGroup S i s, s)))"

definition cLBracket :: char where "cLBracket = CHR 0x5B"
definition cRBracket :: char where "cRBracket = CHR 0x5D"

definition last_index :: "string \<Rightarrow> char \<Rightarrow> nat option" where
  "last_index s c = map_option (\<lambda>i. length s - Suc i) (index_byte (rev s) c)"

text \<open>\<open>memberIDFromValuePath\<close>: the first quoted value between the first bracket and the last.\<close>

definition memberIDFromValuePath :: "string \<Rightarrow> string option" where
  "memberIDFromValuePath path = (case (index_byte path cLBracket, last_index path cRBracket) of
     (Some l, Some r) \<Rightarrow>
       if r \<le> l then None
       else let inner = take (r - Suc l) (drop (Suc l) path) in
         (case index_byte inner cQuote of
            None \<Rightarrow> None
          | Some q1 \<Rightarrow> (case index_byte (drop (Suc q1) inner) cQuote of
              None \<Rightarrow> None
            | Some q2 \<Rightarrow> let v = take q2 (drop (Suc q1) inner) in if v \<noteq> [] then Some v else None))
   | _ \<Rightarrow> None)"

definition memberValues :: "json option \<Rightarrow> string list" where
  "memberValues val = (case unmarshal (j_slice d_member zero_member) [] val of
     Some (m # ms) \<Rightarrow> idsOf (m # ms)
   | _ \<Rightarrow> (case unmarshal d_member zero_member val of
       Some one \<Rightarrow> if sb_Value one \<noteq> [] then idsOf [one] else [] | None \<Rightarrow> []))"

definition patchOne :: "directory \<Rightarrow> string \<Rightarrow> patch_operation \<Rightarrow> store \<Rightarrow> store" where
  "patchOne D i p s =
     (let opl = to_lower (po_Op p); pathl = to_lower (trim_space (po_Path p)) in
      if has_prefix pathl (''members'' @ [cLBracket]) then
        (if opl = ''remove'' then
           (case memberIDFromValuePath (po_Path p) of Some uid \<Rightarrow> removeMembers D i [uid] s | None \<Rightarrow> s)
         else s)
      else if pathl \<noteq> ''members'' then s
      else if opl = ''add'' then addMembers D i (memberValues (po_Value p)) s
      else if opl = ''replace'' then replaceMembers D i (memberValues (po_Value p)) s
      else if opl = ''remove'' then
        (if po_Value p = None \<or> po_Value p = Some VNull
         then removeMembers D i (map au_ID (or_nil (d_GroupMembers D s i))) s
         else removeMembers D i (memberValues (po_Value p)) s)
      else s)"

definition patchGroup :: "scim_server \<Rightarrow> string \<Rightarrow> scim_request \<Rightarrow> store \<Rightarrow> scim_response \<times> store" where
  "patchGroup S i r s = (case groupByID (sv_dir S) s i of
     None \<Rightarrow> (scimError 404 ''group not found'', s)
   | Some gm \<Rightarrow>
       if groupMatchFails S r gm then (scimError 412 ''ETag precondition failed'', s)
       else case unmarshal d_patchOp [] (sq_first r) of
         None \<Rightarrow> (scimError 400 ''invalid PatchOp'', s)
       | Some ops \<Rightarrow> (case validatePatchOps ops of
           Some (st, detail) \<Rightarrow> (scimErrorType 400 st detail, s)
         | None \<Rightarrow> (let s = fold (patchOne (sv_dir S) i) ops s in (renderGroup S i s, s))))"

definition deleteGroup :: "scim_server \<Rightarrow> string \<Rightarrow> scim_request \<Rightarrow> store \<Rightarrow> scim_response \<times> store" where
  "deleteGroup S i r s = (case groupByID (sv_dir S) s i of
     None \<Rightarrow> (scimError 404 ''group not found'', s)
   | Some gm \<Rightarrow>
       if groupMatchFails S r gm then (scimError 412 ''ETag precondition failed'', s)
       else case d_DeleteGroup (sv_dir S) s i of
         (Inl _, s) \<Rightarrow> (scimInternal, s)
       | (Inr _, s) \<Rightarrow> (respond 204 NoBody, s))"

section \<open>Discovery\<close>

definition jstr :: "string \<Rightarrow> json" where "jstr s = VStr s"

definition supported :: "bool \<Rightarrow> json" where
  "supported b = VObj [(''supported'', VBool b)]"

definition serviceProviderConfig :: scim_response where
  "serviceProviderConfig = respond 200 (JsonBody (VObj [
     (''schemas'', VArr [jstr ''urn:ietf:params:scim:schemas:core:2.0:ServiceProviderConfig'']),
     (''patch'', supported True),
     (''bulk'', VObj [(''supported'', VBool True), (''maxOperations'', VNum (format_uint maxBulkOperations)),
        (''maxPayloadSize'', VNum ''1048576'')]),
     (''filter'', VObj [(''supported'', VBool True), (''maxResults'', VNum ''200'')]),
     (''changePassword'', supported False), (''sort'', supported True), (''etag'', supported True),
     (''authenticationSchemes'', VArr [VObj [(''type'', jstr ''oauthbearertoken''), (''name'', jstr ''Bearer Token'')]])]))"

definition resourceTypes :: scim_response where
  "resourceTypes = respond 200 (JsonBody (VArr [
     VObj [(''schemas'', VArr [jstr ''urn:ietf:params:scim:schemas:core:2.0:ResourceType'']), (''id'', jstr ''User''),
       (''name'', jstr ''User''), (''endpoint'', jstr ''/Users''), (''schema'', jstr schemaUser)],
     VObj [(''schemas'', VArr [jstr ''urn:ietf:params:scim:schemas:core:2.0:ResourceType'']), (''id'', jstr ''Group''),
       (''name'', jstr ''Group''), (''endpoint'', jstr ''/Groups''), (''schema'', jstr schemaGroup)]]))"

definition scimAttr :: "string \<Rightarrow> string \<Rightarrow> bool \<Rightarrow> bool \<Rightarrow> bool \<Rightarrow> string \<Rightarrow> string \<Rightarrow> string \<Rightarrow> json" where
  "scimAttr name typ multi required caseExact mutability returned uniqueness = VObj [
     (''name'', jstr name), (''type'', jstr typ), (''multiValued'', VBool multi), (''required'', VBool required),
     (''caseExact'', VBool caseExact), (''mutability'', jstr mutability), (''returned'', jstr returned), (''uniqueness'', jstr uniqueness)]"

definition complexAttr :: "string \<Rightarrow> bool \<Rightarrow> json list \<Rightarrow> json" where
  "complexAttr name multi subs = VObj [
     (''name'', jstr name), (''type'', jstr ''complex''), (''multiValued'', VBool multi), (''required'', VBool False),
     (''mutability'', jstr ''readWrite''), (''returned'', jstr ''default''), (''uniqueness'', jstr ''none''), (''subAttributes'', VArr subs)]"

definition schemaDoc :: "string \<Rightarrow> string \<Rightarrow> string \<Rightarrow> json list \<Rightarrow> json" where
  "schemaDoc i name description attrs = VObj [
     (''schemas'', VArr [jstr ''urn:ietf:params:scim:schemas:core:2.0:Schema'']), (''id'', jstr i), (''name'', jstr name),
     (''description'', jstr description), (''attributes'', VArr attrs),
     (''meta'', VObj [(''resourceType'', jstr ''Schema''), (''location'', jstr (''/Schemas/'' @ i))])]"

text \<open>The schema documents, each under its id.\<close>

definition schemaDocs :: "(string \<times> json) list" where
  "schemaDocs = [
     (schemaUser, schemaDoc schemaUser ''User'' ''User Account'' [
        scimAttr ''userName'' ''string'' False True False ''readWrite'' ''default'' ''server'',
        complexAttr ''name'' False [scimAttr ''formatted'' ''string'' False False False ''readWrite'' ''default'' ''none''],
        complexAttr ''emails'' True [scimAttr ''value'' ''string'' False False False ''readWrite'' ''default'' ''none'',
          scimAttr ''primary'' ''boolean'' False False False ''readWrite'' ''default'' ''none''],
        scimAttr ''active'' ''boolean'' False False False ''readWrite'' ''default'' ''none'']),
     (schemaGroup, schemaDoc schemaGroup ''Group'' ''Group'' [
        scimAttr ''displayName'' ''string'' False True False ''readWrite'' ''default'' ''none'',
        complexAttr ''members'' True [scimAttr ''value'' ''string'' False False False ''immutable'' ''default'' ''none'',
          scimAttr ''display'' ''string'' False False False ''immutable'' ''default'' ''none'']])]"

definition schemasEndpoint :: scim_response where
  "schemasEndpoint = respond 200 (JsonBody (VObj [
     (''schemas'', VArr [jstr ''urn:ietf:params:scim:api:messages:2.0:ListResponse'']),
     (''totalResults'', VNum (format_uint (length schemaDocs))), (''startIndex'', VNum ''1''),
     (''itemsPerPage'', VNum (format_uint (length schemaDocs))), (''Resources'', VArr (map snd schemaDocs))]))"

definition schemaByID :: "string \<Rightarrow> scim_response" where
  "schemaByID i = (case map_of schemaDocs i of
     Some doc \<Rightarrow> respond 200 (JsonBody doc)
   | None \<Rightarrow> scimError 404 (''no such schema: '' @ i))"

section \<open>Routes\<close>

text \<open>What the router itself answers: a text, not JSON.\<close>

definition notFound :: scim_response where "notFound = respond 404 (PlainBody ''404 page not found'')"
definition notAllowed :: scim_response where "notAllowed = respond 405 (PlainBody ''Method Not Allowed'')"

definition is_get :: "scim_request \<Rightarrow> bool" where
  "is_get r \<longleftrightarrow> sq_method r = ''GET'' \<or> sq_method r = ''HEAD''"

definition usersRoute :: "scim_server \<Rightarrow> time \<Rightarrow> scim_request \<Rightarrow> store \<Rightarrow> scim_response \<times> store" where
  "usersRoute S now r s =
     (if is_get r then (listUsers S r s, s)
      else if sq_method r = ''POST'' then createUser S r now s
      else (notAllowed, s))"

definition userRoute :: "scim_server \<Rightarrow> time \<Rightarrow> string \<Rightarrow> scim_request \<Rightarrow> store \<Rightarrow> scim_response \<times> store" where
  "userRoute S now i r s =
     (if is_get r then (getUser S i r s, s)
      else if sq_method r = ''PUT'' then putUser S i r now s
      else if sq_method r = ''PATCH'' then patchUser S i r s
      else if sq_method r = ''DELETE'' then deleteUser S i r s
      else (notAllowed, s))"

definition groupsRoute :: "scim_server \<Rightarrow> time \<Rightarrow> scim_request \<Rightarrow> store \<Rightarrow> scim_response \<times> store" where
  "groupsRoute S now r s =
     (if is_get r then (listGroups S r s, s)
      else if sq_method r = ''POST'' then createGroup S r now s
      else (notAllowed, s))"

definition groupRoute :: "scim_server \<Rightarrow> string \<Rightarrow> scim_request \<Rightarrow> store \<Rightarrow> scim_response \<times> store" where
  "groupRoute S i r s =
     (if is_get r then (getGroup S i r s, s)
      else if sq_method r = ''PUT'' then putGroup S i r s
      else if sq_method r = ''PATCH'' then patchGroup S i r s
      else if sq_method r = ''DELETE'' then deleteGroup S i r s
      else (notAllowed, s))"

definition discovery :: "scim_request \<Rightarrow> scim_response \<Rightarrow> scim_response" where
  "discovery r resp = (if is_get r then resp else notAllowed)"

text \<open>Every route but \<open>/Bulk\<close>.\<close>

definition plainRoutes :: "scim_server \<Rightarrow> time \<Rightarrow> scim_request \<Rightarrow> store \<Rightarrow> scim_response \<times> store" where
  "plainRoutes S now r s = (case sq_path r of
     [x] \<Rightarrow>
       if x = ''Users'' then usersRoute S now r s
       else if x = ''Groups'' then groupsRoute S now r s
       else if x = ''ServiceProviderConfig'' then (discovery r serviceProviderConfig, s)
       else if x = ''ResourceTypes'' then (discovery r resourceTypes, s)
       else if x = ''Schemas'' then (discovery r schemasEndpoint, s)
       else if x = ''Bulk'' then (notAllowed, s)
       else (notFound, s)
   | [x, i] \<Rightarrow>
       if i = [] then (notFound, s)
       else if x = ''Users'' then userRoute S now i r s
       else if x = ''Groups'' then groupRoute S i r s
       else if x = ''Schemas'' then (discovery r (schemaByID i), s)
       else (notFound, s)
   | _ \<Rightarrow> (notFound, s))"

section \<open>Bulk requests\<close>

text \<open>
  A bulk request applies its operations through the same routes, the bulk route included: only an operation
  whose path spells \<open>Bulk\<close> is rejected. The payload of an operation is a part of the body, so the
  nesting ends; this is the measure of the recursion.
\<close>

definition osize :: "json option \<Rightarrow> nat" where
  "osize b = (case b of None \<Rightarrow> 0 | Some j \<Rightarrow> Suc (size j))"

lemma osize_simps [simp]: "osize None = 0" "osize (Some j) = Suc (size j)"
  by (simp_all add: osize_def)

lemma members_data_size:
  assumes "\<And>k j x y. f k j x = Some y \<Longrightarrow> osize (g y) \<le> max (osize (g x)) (Suc (size j))"
    and "j_members f kvs x = Some y"
  shows "osize (g y) \<le> max (osize (g x)) (size_list (size_prod (\<lambda>_. 0) size) kvs)"
  using assms(2)
proof (induction kvs arbitrary: x)
  case (Cons kv kvs)
  obtain k j where kv: "kv = (k, j)" by fastforce
  with Cons.prems obtain z where z: "f k j x = Some z" "j_members f kvs z = Some y" by (auto split: option.splits)
  show ?case using assms(1) [OF z(1)] Cons.IH [OF z(2)] kv by auto
qed simp

definition bulk_member :: "string \<Rightarrow> bulk_operation decoder" where
  "bulk_member k = (
     if equal_fold k ''method'' then into j_string bo_Method (\<lambda>v. bo_Method_update (\<lambda>_. v))
     else if equal_fold k ''path'' then into j_string bo_Path (\<lambda>v. bo_Path_update (\<lambda>_. v))
     else if equal_fold k ''bulkId'' then into j_string bo_BulkID (\<lambda>v. bo_BulkID_update (\<lambda>_. v))
     else if equal_fold k ''data'' then into j_raw bo_Data (\<lambda>v. bo_Data_update (\<lambda>_. v))
     else (\<lambda>_. Some))"

definition d_bulk :: "bulk_operation list decoder" where
  "d_bulk = j_struct (\<lambda>k. if equal_fold k ''Operations'' then
     j_slice (j_struct bulk_member) \<lparr>bo_Method = [], bo_Path = [], bo_BulkID = [], bo_Data = None\<rparr>
     else (\<lambda>_. Some))"

lemma bulk_member_size: "bulk_member k j x = Some y \<Longrightarrow> osize (bo_Data y) \<le> max (osize (bo_Data x)) (Suc (size j))"
  by (auto simp: bulk_member_def into_def j_raw_def split: if_splits option.splits)

definition load :: "bulk_operation list \<Rightarrow> nat" where
  "load ops = sum_list (map (\<lambda>b. Suc (osize (bo_Data b))) ops)"

lemma load_simps [simp]: "load [] = 0" "load (b # bs) = Suc (osize (bo_Data b)) + load bs"
  by (simp_all add: load_def)

lemma elems_load:
  assumes "\<And>j x. d j z = Some x \<Longrightarrow> osize (bo_Data x) \<le> size j"
  shows "j_elems d z js = Some xs \<Longrightarrow> load xs \<le> size_list size js"
proof (induction js arbitrary: xs)
  case (Cons j js)
  then obtain x ys where x: "d j z = Some x" "j_elems d z js = Some ys" "xs = x # ys" by (auto split: option.splits)
  then show ?case using assms [OF x(1)] Cons.IH [OF x(2)] by simp
qed simp

lemma bulk_load:
  assumes "unmarshal d_bulk [] body = Some ops"
  shows "load ops \<le> osize body"
proof -
  let ?z = "\<lparr>bo_Method = [], bo_Path = [], bo_BulkID = [], bo_Data = None\<rparr>"
  have one: "osize (bo_Data x) \<le> size j" if "j_struct bulk_member j ?z = Some x" for j x
  proof (cases j)
    case (VObj kvs)
    with that have m: "j_members bulk_member kvs ?z = Some x" by (simp add: j_struct_def)
    have "osize (bo_Data x) \<le> max (osize (bo_Data ?z)) (size_list (size_prod (\<lambda>_. 0) size) kvs)"
      by (rule members_data_size [OF _ m]) (rule bulk_member_size)
    with VObj show ?thesis by simp
  qed (use that in \<open>auto simp: j_struct_def\<close>)
  have slice: "load xs \<le> size j" if "j_slice (j_struct bulk_member) ?z j old = Some xs" for j old xs
    using that elems_load [of "j_struct bulk_member" ?z, OF one] by (cases j) (auto simp: j_slice_def intro: le_SucI)
  let ?f = "\<lambda>k. if equal_fold k ''Operations'' then j_slice (j_struct bulk_member) ?z else (\<lambda>_. Some)"
  have members: "load ys \<le> max (load xs) (size_list (size_prod (\<lambda>_. 0) size) kvs)"
    if "j_members ?f kvs xs = Some ys" for kvs xs ys
    using that
  proof (induction kvs arbitrary: xs)
    case (Cons kv kvs)
    obtain k j where kv: "kv = (k, j)" by fastforce
    with Cons.prems obtain zs where z: "?f k j xs = Some zs" "j_members ?f kvs zs = Some ys" by (auto split: option.splits)
    have "load zs \<le> max (load xs) (size j)" using z(1) slice [of j xs zs] by (auto split: if_splits)
    with Cons.IH [OF z(2)] kv show ?case by auto
  qed simp
  from assms obtain j where j: "body = Some j" "j_struct ?f j [] = Some ops" by (auto simp: unmarshal_def d_bulk_def split: option.splits)
  then show ?thesis
  proof (cases j)
    case (VObj kvs)
    then show ?thesis using members [of kvs "[]" ops] j by (simp add: j_struct_def)
  qed (use j in \<open>auto simp: j_struct_def\<close>)
qed

text \<open>The error body of a sub-response as JSON, or the router's text, which is none.\<close>

definition error_json :: "scim_response \<Rightarrow> raw_body" where
  "error_json res = (case sp_Body res of
     ErrorBody scimType detail \<Rightarrow> RawJson (VObj ([(''schemas'', VArr [jstr ''urn:ietf:params:scim:api:messages:2.0:Error''])] @
       (if scimType = [] then [] else [(''scimType'', jstr scimType)]) @
       [(''status'', jstr (format_uint (sp_Code res))), (''detail'', jstr detail)]))
   | PlainBody t \<Rightarrow> RawText t
   | _ \<Rightarrow> RawText [])"

definition unsupported :: "bulk_operation \<Rightarrow> bool" where
  "unsupported b \<longleftrightarrow> bo_Method b = [] \<or> bo_Path b = [] \<or> equal_fold (trim_chars CHR ''/'' (bo_Path b)) ''Bulk''"

definition rejected :: "bulk_operation \<Rightarrow> bulk_result" where
  "rejected b = \<lparr>br_Method = bo_Method b, br_Status = 400, br_BulkID = [], br_Location = [],
     br_Response = Some (RawJson (VObj [(''detail'', jstr ''unsupported bulk operation'')]))\<rparr>"

definition trim_right :: "char \<Rightarrow> string \<Rightarrow> string" where
  "trim_right c s = rev (dropWhile (\<lambda>x. x = c) (rev s))"

definition created_id :: "scim_response \<Rightarrow> string" where
  "created_id res = (case sp_Body res of UserBody u \<Rightarrow> su_ID u | GroupBody g \<Rightarrow> sg_ID g | _ \<Rightarrow> [])"

definition bulkResult :: "bulk_operation \<Rightarrow> scim_response \<Rightarrow> bulk_result" where
  "bulkResult b res = \<lparr>br_Method = to_upper (bo_Method b), br_Status = sp_Code res, br_BulkID = bo_BulkID b,
     br_Location = (if sp_Location res \<noteq> [] then sp_Location res
       else if sp_Code res = 201 \<and> created_id res \<noteq> [] then trim_right CHR ''/'' (bo_Path b) @ ''/'' @ created_id res
       else []),
     br_Response = (if 400 \<le> sp_Code res then Some (error_json res) else None)\<rparr>"

text \<open>
  The response is encoded as one JSON document. A result holding a text that is not JSON makes the
  encoder fail, and its error is dropped: the status is sent with no body at all.
\<close>

definition encodable :: "bulk_result \<Rightarrow> bool" where
  "encodable b = (case br_Response b of Some (RawText _) \<Rightarrow> False | _ \<Rightarrow> True)"

definition bulkResponse :: "bulk_result list \<Rightarrow> scim_response" where
  "bulkResponse results = respond 200 (if list_all encodable results then BulkBody results else NoBody)"

definition subrequest :: "bulk_operation \<Rightarrow> string list \<Rightarrow> (string \<times> string) list \<Rightarrow> scim_request" where
  "subrequest b path query = \<lparr>sq_method = to_upper (bo_Method b), sq_path = path, sq_query = query,
     sq_headers = [(''Content-Type'', ''application/scim+json'')], sq_body = bo_Data b, sq_first = bo_Data b\<rparr>"

text \<open>No response where the goroutine panics; the changes made until then stay.\<close>

function serveMux :: "scim_server \<Rightarrow> time \<Rightarrow> scim_request \<Rightarrow> store \<Rightarrow> scim_response option \<times> store"
  and bulkOps :: "scim_server \<Rightarrow> time \<Rightarrow> bulk_operation list \<Rightarrow> store \<Rightarrow> bulk_result list option \<times> store"
where
  "serveMux S now r s =
     (if sq_path r = [''Bulk''] \<and> sq_method r = ''POST'' then
        (case unmarshal d_bulk [] (sq_first r) of
           None \<Rightarrow> (Some (scimError 400 ''invalid BulkRequest''), s)
         | Some ops \<Rightarrow>
             if maxBulkOperations < length ops then (Some (scimError 413 ''too many bulk operations''), s)
             else case bulkOps S now ops s of (rs, s) \<Rightarrow> (map_option bulkResponse rs, s))
      else case plainRoutes S now r s of (res, s) \<Rightarrow> (Some res, s))"
| "bulkOps S now [] s = (Some [], s)"
| "bulkOps S now (b # bs) s =
     (if unsupported b then (case bulkOps S now bs s of (rs, s) \<Rightarrow> (map_option (\<lambda>rs. rejected b # rs) rs, s))
      else case sv_target S (to_upper (bo_Method b)) (bo_Path b) of
        None \<Rightarrow> (None, s)
      | Some (path, query) \<Rightarrow> (case serveMux S now (subrequest b path query) s of
          (None, s) \<Rightarrow> (None, s)
        | (Some res, s) \<Rightarrow> (case bulkOps S now bs s of (rs, s) \<Rightarrow> (map_option (\<lambda>rs. bulkResult b res # rs) rs, s))))"
  by pat_completeness auto

termination
proof (relation "measure (\<lambda>x. case x of Inl (S, now, r, s) \<Rightarrow> Suc (2 * osize (sq_first r)) | Inr (S, now, ops, s) \<Rightarrow> 2 * load ops)",
    goal_cases)
  case (2 S now r s ops)
  then show ?case using bulk_load [of "sq_first r" ops] by (simp add: less_Suc_eq_le)
qed (simp_all add: subrequest_def)

declare serveMux.simps [simp del] bulkOps.simps(2) [simp del]

section \<open>The mounted server\<close>

text \<open>\<open>authMiddleware\<close> around the routes; a server without a validator refuses everything.\<close>

definition serveSCIM ::
  "scim_server \<Rightarrow> (string \<Rightarrow> env \<Rightarrow> bool \<times> env) option \<Rightarrow> scim_request \<Rightarrow> env \<Rightarrow> scim_response option \<times> env" where
  "serveSCIM S auth r e =
     (let tok = trim_space (trim_prefix (attr (sq_headers r) ''Authorization'') ''Bearer '');
          refuse = Some (scimError 401 ''invalid or missing bearer token'')
      in case auth of
           None \<Rightarrow> (refuse, e)
         | Some f \<Rightarrow> (case f tok e of
             (False, e) \<Rightarrow> (refuse, e)
           | (True, e) \<Rightarrow> op (serveMux S (e_now e) r) e))"

definition newServer :: "directory \<Rightarrow> string \<Rightarrow> (bytes \<Rightarrow> bytes) \<Rightarrow> (time \<Rightarrow> string) \<Rightarrow>
  (string \<Rightarrow> string \<Rightarrow> (string list \<times> (string \<times> string) list) option) \<Rightarrow> scim_server" where
  "newServer D u sha fmt target =
     \<lparr>sv_dir = D, sv_baseURL = trim_right CHR ''/'' u, sv_sha256 = sha, sv_RFC3339 = fmt, sv_target = target\<rparr>"

end
