(* ===== verification/ScimLaws.thy ===== *)
theory ScimLaws
  imports Scim DirectoryLaws GateLaws
begin

text \<open>
  Laws of the SCIM server: it moves the stores only by the calls of the directory it was given, so a server
  over the view of an organization keeps to that organization; versions guard against lost updates;
  pages partition a listing; what a replace of a group and a create of a user do; and the bulk endpoint.
\<close>

section \<open>The directory as an interface\<close>

text \<open>The calls of a directory that change the store, each a step of whatever relation the provider has.\<close>

locale provisioning =
  fixes D :: directory and step :: "store \<Rightarrow> store \<Rightarrow> bool"
  assumes upsert: "step s (snd (d_UpsertExternalUser D now s sub em nm v))"
    and disable: "step s (snd (d_SetUserDisabled D s u b))"
    and create_group: "step s (snd (d_CreateGroup D now s nm d))"
    and delete_group: "step s (snd (d_DeleteGroup D s i))"
    and add_users: "step s (snd (d_AddUsersToGroup D s us i))"
    and remove_users: "step s (snd (d_RemoveUsersFromGroup D s us i))"
begin

lemmas calls = upsert disable create_group delete_group add_users remove_users

lemma call_steps:
  "step\<^sup>*\<^sup>* t s \<Longrightarrow> step\<^sup>*\<^sup>* t (snd (d_UpsertExternalUser D now s sub em nm v))"
  "step\<^sup>*\<^sup>* t s \<Longrightarrow> step\<^sup>*\<^sup>* t (snd (d_SetUserDisabled D s u b))"
  "step\<^sup>*\<^sup>* t s \<Longrightarrow> step\<^sup>*\<^sup>* t (snd (d_CreateGroup D now s nm d))"
  "step\<^sup>*\<^sup>* t s \<Longrightarrow> step\<^sup>*\<^sup>* t (snd (d_DeleteGroup D s i))"
  "step\<^sup>*\<^sup>* t s \<Longrightarrow> step\<^sup>*\<^sup>* t (addMembers D i us s)"
  "step\<^sup>*\<^sup>* t s \<Longrightarrow> step\<^sup>*\<^sup>* t (removeMembers D i us s)"
  using calls by (auto simp: addMembers_def removeMembers_def intro: rtranclp.rtrancl_into_rtrancl)

lemma replace_steps: "step\<^sup>*\<^sup>* t s \<Longrightarrow> step\<^sup>*\<^sup>* t (replaceMembers D i want s)"
  by (simp add: replaceMembers_def Let_def call_steps)

lemma patchOne_steps: "step\<^sup>*\<^sup>* t s \<Longrightarrow> step\<^sup>*\<^sup>* t (patchOne D i p s)"
  by (simp add: patchOne_def Let_def call_steps replace_steps split: option.split)

lemma fold_steps: "(\<And>x s. step\<^sup>*\<^sup>* t s \<Longrightarrow> step\<^sup>*\<^sup>* t (f x s)) \<Longrightarrow> step\<^sup>*\<^sup>* t s \<Longrightarrow> step\<^sup>*\<^sup>* t (fold f xs s)"
  by (induction xs arbitrary: s) simp_all

lemma applyActive_steps: "step\<^sup>*\<^sup>* t s \<Longrightarrow> step\<^sup>*\<^sup>* t (snd (applyActive D i ps s))"
proof (induction ps arbitrary: s)
  case (Cons p ps)
  have d: "step\<^sup>*\<^sup>* t (snd (d_SetUserDisabled D s i b))" for b using Cons.prems by (rule call_steps)
  show ?case
  proof (cases "activeFromOp (po_Path p) (po_Value p)")
    case (Some b)
    obtain res s' where r: "d_SetUserDisabled D s i (\<not> b) = (res, s')" by fastforce
    with d [of "\<not> b"] have "step\<^sup>*\<^sup>* t s'" by simp
    with Cons.IH [OF this] show ?thesis by (simp add: Some r split: sum.split)
  qed (use Cons in simp)
qed simp

lemma handler_steps:
  assumes "sv_dir S = D"
  shows "step\<^sup>*\<^sup>* s (snd (createUser S r now s))" and "step\<^sup>*\<^sup>* s (snd (putUser S i r now s))"
    and "step\<^sup>*\<^sup>* s (snd (patchUser S i r s))" and "step\<^sup>*\<^sup>* s (snd (deleteUser S i r s))"
    and "step\<^sup>*\<^sup>* s (snd (createGroup S r now s))" and "step\<^sup>*\<^sup>* s (snd (putGroup S i r s))"
    and "step\<^sup>*\<^sup>* s (snd (patchGroup S i r s))" and "step\<^sup>*\<^sup>* s (snd (deleteGroup S i r s))"
proof -
  have pair: "step\<^sup>*\<^sup>* s s'" if "d_UpsertExternalUser D now s sub em nm v = (x, s')" for sub em nm v x s'
    using call_steps(1) [of s s now sub em nm v] that by simp
  have pair': "step\<^sup>*\<^sup>* t s'" if "d_SetUserDisabled D t' u b = (x, s')" "step\<^sup>*\<^sup>* t t'" for t t' u b x s'
    using call_steps(2) [OF that(2), of u b] that(1) by simp
  have group: "step\<^sup>*\<^sup>* s s'" if "d_CreateGroup D now s nm d = (x, s')" for nm d x s'
    using call_steps(3) [of s s now nm d] that by simp
  have del: "step\<^sup>*\<^sup>* s s'" if "d_DeleteGroup D s i = (x, s')" for x s'
    using call_steps(4) [of s s i] that by simp
  show "step\<^sup>*\<^sup>* s (snd (createUser S r now s))"
    by (auto simp: createUser_def Let_def assms call_steps dest!: pair split: option.split sum.split prod.split)
  show "step\<^sup>*\<^sup>* s (snd (putUser S i r now s))"
    by (auto simp: putUser_def Let_def assms dest!: pair split: option.split sum.split prod.split intro: pair')
  show "step\<^sup>*\<^sup>* s (snd (patchUser S i r s))"
    using applyActive_steps [of s s i]
    by (auto simp: patchUser_def assms split: option.split sum.split prod.split bool.split) (metis snd_conv)+
  show "step\<^sup>*\<^sup>* s (snd (deleteUser S i r s))"
    by (auto simp: deleteUser_def Let_def assms split: sum.split prod.split intro: pair' [OF _ rtranclp.rtrancl_refl])
  show "step\<^sup>*\<^sup>* s (snd (createGroup S r now s))"
    by (auto simp: createGroup_def Let_def assms dest!: group split: option.split sum.split prod.split intro!: call_steps)
  show "step\<^sup>*\<^sup>* s (snd (putGroup S i r s))"
    by (auto simp: putGroup_def Let_def assms replace_steps split: option.split)
  show "step\<^sup>*\<^sup>* s (snd (patchGroup S i r s))"
    using fold_steps [of s "patchOne D i", OF patchOne_steps]
    by (auto simp: patchGroup_def Let_def assms split: option.split)
  show "step\<^sup>*\<^sup>* s (snd (deleteGroup S i r s))"
    by (auto simp: deleteGroup_def assms dest!: del split: option.split sum.split prod.split)
qed

lemma plain_steps: "sv_dir S = D \<Longrightarrow> step\<^sup>*\<^sup>* s (snd (plainRoutes S now r s))"
  by (auto simp: plainRoutes_def usersRoute_def userRoute_def groupsRoute_def groupRoute_def handler_steps split: list.split)

lemma serve_steps:
  "sv_dir S = D \<Longrightarrow> step\<^sup>*\<^sup>* s (snd (serveMux S now r s))"
  "sv_dir S = D \<Longrightarrow> step\<^sup>*\<^sup>* s (snd (bulkOps S now ops s))"
proof (induction S now r s and S now ops s rule: serveMux_bulkOps.induct)
  case (1 S now r s)
  show ?case
  proof (cases "sq_path r = [''Bulk''] \<and> sq_method r = ''POST''")
    case True
    then show ?thesis
      using 1 by (subst serveMux.simps) (simp add: split_beta split: option.split)
  next
    case False
    then show ?thesis using plain_steps [OF 1(2), of s now r] by (subst serveMux.simps) (auto simp: split_beta)
  qed
next
  case (3 S now b bs s)
  show ?case
  proof (cases "unsupported b")
    case True
    then show ?thesis using 3 by (subst bulkOps.simps) (simp add: split_beta)
  next
    case False
    show ?thesis
    proof (cases "sv_target S (to_upper (bo_Method b)) (bo_Path b)")
      case (Some pq)
      obtain path query where pq: "pq = (path, query)" by fastforce
      obtain res s1 where m: "serveMux S now (subrequest b path query) s = (res, s1)" by fastforce
      have "step\<^sup>*\<^sup>* s (snd (serveMux S now (subrequest b path query) s))"
        by (rule 3(2) [OF False Some pq [symmetric] 3(4)])
      moreover have "step\<^sup>*\<^sup>* s1 (snd (bulkOps S now bs s1))" if "res = Some x" for x
        by (rule 3(3) [OF False Some pq [symmetric] m [symmetric] that 3(4)])
      moreover have "snd (bulkOps S now (b # bs) s) = (case res of None \<Rightarrow> s1 | Some _ \<Rightarrow> snd (bulkOps S now bs s1))"
        by (subst bulkOps.simps) (simp add: False Some pq m split_beta split: option.split)
      ultimately show ?thesis using m by (cases res) (auto intro: rtranclp_trans)
    qed (use False in \<open>simp add: bulkOps.simps\<close>)
  qed
qed simp

end


interpretation mem: provisioning memDirectory steps_to
  by unfold_locales
    (auto simp: memDirectory_def UpsertExternalUser_def intro: steps_to_parts cred_step.intros dir_step.intros)

interpretation org: provisioning "orgDirectory orgID" "view_step orgID" for orgID
  by unfold_locales (simp_all add: orgDirectory_def view_step.intros)

section \<open>Runs of the server\<close>

text \<open>Any number of requests, answered one after the other at any times.\<close>

inductive scim_run :: "scim_server \<Rightarrow> store \<Rightarrow> store \<Rightarrow> bool" for S where
  idle: "scim_run S s s"
| serve: "scim_run S s s' \<Longrightarrow> scim_run S s (snd (serveMux S now r s'))"

lemma view_run_steps: "view_run orgID s s' \<longleftrightarrow> (view_step orgID)\<^sup>*\<^sup>* s s'"
proof
  show "view_run orgID s s' \<Longrightarrow> (view_step orgID)\<^sup>*\<^sup>* s s'"
    by (induction rule: view_run.induct) (auto intro: rtranclp.rtrancl_into_rtrancl)
  show "(view_step orgID)\<^sup>*\<^sup>* s s' \<Longrightarrow> view_run orgID s s'"
    by (induction rule: rtranclp.induct) (auto intro: view_run.intros)
qed

lemma scim_run_view: "scim_run S s s' \<Longrightarrow> sv_dir S = orgDirectory orgID \<Longrightarrow> view_run orgID s s'"
  unfolding view_run_steps
  by (induction rule: scim_run.induct) (auto dest: org.serve_steps(1) intro: rtranclp_trans)

lemma views_isolate:
  assumes "view_run (idStr n) s s'" and "store_ok s" and "parseID (idStr n) = Some n"
  shows "others_untouched n s s' \<and> store_ok s'"
  using assms
proof (induction rule: view_run.induct)
  case (step s s1 s2)
  then have "others_untouched n s1 s2" using view_step_others by simp
  with step show ?case using others_untouched_trans view_step_ok by blast
qed simp

text \<open>
  C21: A customer's identity provider cannot leave its organization. Whatever requests it sends to a
  SCIM server over the view of its organization, bulk requests included, the accounts outside its own
  namespace, every credential, session, invite and key, the other organizations and their groups, and the owners of
  its own stay as they are, and the stores stay well formed.
\<close>

theorem scim_tenant_isolation:
  assumes "scim_run S s s'" and "sv_dir S = orgDirectory (idStr n)" and "store_ok s" and "1 \<le> n" and "n < 2 ^ 64"
  shows "others_untouched n s s' \<and> store_ok s'"
  using views_isolate [OF scim_run_view [OF assms(1,2)] assms(3)] assms(4,5) by simp

definition demo_scim :: "directory \<Rightarrow> scim_server" where
  "demo_scim D = newServer D ''https://app/scim/'' (\<lambda>b. b) (\<lambda>_. ''t'') (\<lambda>m p. Some ([p], []))"

definition demo_scim_request :: "string \<Rightarrow> string list \<Rightarrow> json \<Rightarrow> scim_request" where
  "demo_scim_request m path body = \<lparr>sq_method = m, sq_path = path, sq_query = [], sq_headers = [],
     sq_body = Some body, sq_first = Some body\<rparr>"

theorem scim_tenant_isolation_witness:
  "others_untouched 1 (snd (CreateOrg 4 (snd (CreateLocalUser 3 ''r'' New ''a@x'' ''A'')) ''acme'' ''Acme''))
     (snd (serveMux (demo_scim (orgDirectory (idStr 1))) 5
        (demo_scim_request ''POST'' [''Users''] (VObj [(''userName'', VStr ''bob@x'')]))
        (snd (CreateOrg 4 (snd (CreateLocalUser 3 ''r'' New ''a@x'' ''A'')) ''acme'' ''Acme''))))"
proof -
  let ?s = "snd (CreateOrg 4 (snd (CreateLocalUser 3 ''r'' New ''a@x'' ''A'')) ''acme'' ''Acme'')"
  have s: "store_ok ?s" by (intro store_ok_steps) simp_all
  have d: "sv_dir (demo_scim (orgDirectory (idStr 1))) = orgDirectory (idStr 1)" by (simp add: demo_scim_def newServer_def)
  from scim_tenant_isolation [OF scim_run.serve [OF scim_run.idle] d s] show ?thesis by simp
qed

section \<open>Lost updates\<close>

lemma comma_no_hex: "cComma \<notin> set (hex_encode bs)"
proof -
  have lt: "of_char c div 16 < (16 :: nat)" for c :: char
    using nat_of_char_less_256 [of c] by (simp only: less_mult_imp_div_less)
  have "hex_digit d \<noteq> cComma" if "d < 16" for d
  proof -
    have "(of_char (hex_digit d) :: nat) = (if d < 10 then 48 + d else 87 + d)" using that by (simp add: hex_digit_def)
    then have "(of_char (hex_digit d) :: nat) \<noteq> of_char cComma" by (simp add: cComma_def)
    then show ?thesis by metis
  qed
  then show ?thesis using lt by (auto simp: hex_encode_def) (metis mod_less_divisor zero_less_numeral)+
qed

lemma own_version: "etagListHasStrong (resourceETag S ps) (resourceETag S ps)"
proof -
  let ?h = "hex_encode (take 8 (sv_sha256 S (join_nul ps)))"
  have "cComma \<notin> set ?h" by (rule comma_no_hex)
  then have "split_on cComma (resourceETag S ps) = [resourceETag S ps]"
    by (intro split_on_single) (simp add: resourceETag_def cComma_def cQuote_def)
  moreover have "trim_space (resourceETag S ps) = resourceETag S ps"
    by (simp add: trim_space_def resourceETag_def cQuote_def is_space_def)
  moreover have "\<not> has_prefix (resourceETag S ps) ''W/''" by (simp add: has_prefix_def resourceETag_def cQuote_def)
  ultimately show ?thesis by (simp add: etagListHasStrong_def Let_def)
qed


section \<open>Pages\<close>

lemma paginate_slice:
  assumes "0 \<le> cnt"
  shows "fst (paginate xs (int k + 1) cnt) = take (nat cnt) (drop k xs)"
proof -
  have "drop (nat (if int (length xs) < int k then int (length xs) else int k)) xs = drop k xs"
    by auto
  then show ?thesis
    using assms by (auto simp: paginate_def Let_def)
qed

lemma pages_join: "concat (map (\<lambda>p. take c (drop (p * c) xs)) [0..<n]) = take (n * c) xs"
proof (induction n)
  case (Suc n)
  then show ?case using take_add [of "n * c" c xs] by (simp add: add.commute [of c])
qed simp

text \<open>
  The pages of a listing partition it: reading page after page of any positive size, each beginning
  where the one before ended, yields every resource once and in order; a count of zero yields none, and no
  count all that remain.
\<close>

theorem pages_partition:
  fixes xs :: "'a list"
  assumes "0 < c" and "length xs \<le> n * c"
  shows "concat (map (\<lambda>p. fst (paginate xs (int (p * c) + 1) (int c))) [0..<n]) = xs \<and>
    fst (paginate xs (int k + 1) 0) = [] \<and> fst (paginate xs (int k + 1) (-1)) = drop k xs"
proof -
  have "fst (paginate xs (int k + 1) (-1)) = drop k xs" by (auto simp: paginate_def Let_def)
  then show ?thesis using assms pages_join [of c xs n] paginate_slice [of "int c" xs] paginate_slice [of 0 xs k] by (simp del: of_nat_mult)
qed

theorem pages_partition_witness:
  "concat (map (\<lambda>p. fst (paginate [''a'', ''b'', ''c''] (int (p * 2) + 1) (int 2))) [0..<2]) = [''a'', ''b'', ''c'']"
  using pages_partition [of 2 "[''a'', ''b'', ''c'']" 2 0] by simp

section \<open>Groups\<close>

lemma mem_dir [simp]:
  "d_UserByID memDirectory = MemDirectory.UserByID" "d_SetUserDisabled memDirectory = MemDirectory.SetUserDisabled"
  "d_GroupMembers memDirectory = MemDirectory.GroupMembers" "d_Groups memDirectory = MemDirectory.Groups"
  "d_AddUsersToGroup memDirectory = MemDirectory.AddUsersToGroup"
  "d_RemoveUsersFromGroup memDirectory = MemDirectory.RemoveUsersFromGroup"
  "d_UserByEmail memDirectory = MemIdentity.UserByEmail" "d_UpsertExternalUser memDirectory = MemDirectory.UpsertExternalUser"
  by (simp_all add: memDirectory_def)

lemma member_add: "parseID i = Some n \<Longrightarrow>
  member (addMembers memDirectory i us s) u h \<longleftrightarrow> member s u h \<or> h = n \<and> (\<exists>w \<in> set us. parseID w = Some u)"
  by (auto simp: addMembers_def AddUsersToGroup_def member_def set_add_members)

lemma member_remove: "parseID i = Some n \<Longrightarrow>
  member (removeMembers memDirectory i us s) u h \<longleftrightarrow> member s u h \<and> \<not> (h = n \<and> (\<exists>w \<in> set us. parseID w = Some u))"
  by (auto simp: removeMembers_def RemoveUsersFromGroup_def member_def set_remove_members)

lemma members_frame [simp]:
  "st_users (addMembers memDirectory i us s) = st_users s" "st_users (removeMembers memDirectory i us s) = st_users s"
  "st_groups (addMembers memDirectory i us s) = st_groups s" "st_groups (removeMembers memDirectory i us s) = st_groups s"
  by (auto simp: addMembers_def removeMembers_def AddUsersToGroup_def RemoveUsersFromGroup_def split: option.split)

lemma members_store_ok:
  "store_ok s \<Longrightarrow> store_ok (addMembers memDirectory i us s)" "store_ok s \<Longrightarrow> store_ok (removeMembers memDirectory i us s)"
  by (auto simp: addMembers_def removeMembers_def intro: dir_step_ok dir_step.intros)

lemma listed_members:
  assumes s: "store_ok s" and n: "parseID i = Some n"
  shows "set (or_nil (GroupMembers s i)) = {view x | x k. mget (st_users s) k = Some x \<and> member s k n} \<and>
    distinct (or_nil (GroupMembers s i))"
proof -
  obtain us where "GroupMembers s i = Ok us" "set us = {view x | x k. mget (st_users s) k = Some x \<and> member s k n}" "distinct us"
    using membership_listings [OF s n n] by blast
  then show ?thesis by (simp add: or_nil_def)
qed

lemma member_replace:
  assumes s: "store_ok s" and n: "parseID i = Some n" and q: "st_seq s < 2 ^ 64"
  shows "mget (st_users s) k = Some x \<Longrightarrow>
      member (replaceMembers memDirectory i want s) k n \<longleftrightarrow> (\<exists>w \<in> set want. parseID w = Some k)"
    and "h \<noteq> n \<Longrightarrow> member (replaceMembers memDirectory i want s) u h \<longleftrightarrow> member s u h"
proof -
  show "h \<noteq> n \<Longrightarrow> member (replaceMembers memDirectory i want s) u h \<longleftrightarrow> member s u h"
    by (simp add: replaceMembers_def Let_def member_add [OF n] member_remove [OF n])
  assume x: "mget (st_users s) k = Some x"
  note us = cred_ok_users [OF store_ok_cred [OF s]]
  have k: "u_id x = k" "parseID (idStr k) = Some k"
    using x q users_ok_row [OF us x] table_ok_entry [OF users_ok_email [OF us] x] by simp_all
  have "idStr k \<in> au_ID ` set (or_nil (GroupMembers s i))" if "member s k n"
  proof (rule image_eqI)
    show "view x \<in> set (or_nil (GroupMembers s i))" using x that listed_members [OF s n] by blast
    show "idStr k = au_ID (view x)" using k(1) by (simp add: view_def)
  qed
  then show "member (replaceMembers memDirectory i want s) k n \<longleftrightarrow> (\<exists>w \<in> set want. parseID w = Some k)"
    using k(2) by (simp add: replaceMembers_def Let_def member_add [OF n] member_remove [OF n]) (metis imageE)
qed

text \<open>
  A replace of a group makes its members the users named in the request, each once, and no other: ids
  that name no user are passed over, members that are not named leave, and the membership of every
  other group and the users themselves stay as they are. The response shows the new membership.
\<close>

theorem put_group_replaces:
  assumes s: "store_ok s" and n: "parseID i = Some n" and q: "st_seq s < 2 ^ 64" and D: "sv_dir S = memDirectory"
    and g: "groupByID memDirectory s i = Some (g, old)" and m: "\<not> groupMatchFails S r (g, old)"
    and b: "unmarshal d_group zero_group (sq_first r) = Some g0"
  shows "\<exists>ms. fst (putGroup S i r s) = writeResource 200 (GroupBody (toSCIMGroup S g ms)) (groupVersion S g ms) \<and> distinct ms \<and>
      set ms = {view x | x k. mget (st_users s) k = Some x \<and> (\<exists>w \<in> set (idsOf (sg_Members g0)). parseID w = Some k)} \<and>
      st_users (snd (putGroup S i r s)) = st_users s \<and>
      (\<forall>u h. h \<noteq> n \<longrightarrow> (member (snd (putGroup S i r s)) u h \<longleftrightarrow> member s u h))"
proof -
  let ?want = "idsOf (sg_Members g0)"
  let ?s = "replaceMembers memDirectory i ?want s"
  have put: "putGroup S i r s = (renderGroup S i ?s, ?s)" using D g m b by (simp add: putGroup_def Let_def)
  have f: "st_users ?s = st_users s" "st_groups ?s = st_groups s" by (simp_all add: replaceMembers_def Let_def)
  have ok: "store_ok ?s" using s by (simp add: replaceMembers_def Let_def members_store_ok)
  let ?ms = "or_nil (GroupMembers ?s i)"
  have "groupByID memDirectory ?s i = Some (g, ?ms)"
    using g by (auto simp: groupByID_def Groups_def f split: option.splits)
  then have "renderGroup S i ?s = writeResource 200 (GroupBody (toSCIMGroup S g ?ms)) (groupVersion S g ?ms)"
    by (simp add: renderGroup_def D)
  moreover have "set ?ms = {view x | x k. mget (st_users s) k = Some x \<and> (\<exists>w \<in> set ?want. parseID w = Some k)}"
  proof -
    have "set ?ms = {view x | x k. mget (st_users s) k = Some x \<and> member ?s k n}"
      using listed_members [OF ok n] f by simp
    also have "\<dots> = {view x | x k. mget (st_users s) k = Some x \<and> (\<exists>w \<in> set ?want. parseID w = Some k)}"
      using member_replace(1) [OF s n q, of _ _ ?want] by blast
    finally show ?thesis .
  qed
  ultimately show ?thesis
    using listed_members [OF ok n] member_replace(2) [OF s n q] f put by (intro exI [of _ ?ms]) simp
qed

section \<open>Users\<close>

lemma disabled_row: "parseID i = Some n \<Longrightarrow> snd (SetUserDisabled s i b) = s\<lparr>st_users := mmod n (\<lambda>u. u\<lparr>u_disabled := b\<rparr>) (st_users s)\<rparr>"
  by (simp add: SetUserDisabled_def)

lemma mmod_twice: "mmod k f (mmod k g m) = mmod k (f \<circ> g) m"
  by (auto simp: mmod_def)

lemma applyActive_mem:
  "parseID i = Some n \<Longrightarrow> applyActive memDirectory i ps s = (True, case lastActive ps of
     None \<Rightarrow> s | Some b \<Rightarrow> s\<lparr>st_users := mmod n (\<lambda>u. u\<lparr>u_disabled := \<not> b\<rparr>) (st_users s)\<rparr>)"
proof (induction ps arbitrary: s)
  case (Cons p ps)
  have e: "SetUserDisabled t i b = (Ok (), t\<lparr>st_users := mmod n (\<lambda>u. u\<lparr>u_disabled := b\<rparr>) (st_users t)\<rparr>)" for t b
    using Cons.prems by (simp add: SetUserDisabled_def)
  have c: "(\<lambda>u. u\<lparr>u_disabled := a\<rparr>) \<circ> (\<lambda>u. u\<lparr>u_disabled := b\<rparr>) = (\<lambda>u. u\<lparr>u_disabled := a\<rparr>)" for a b by auto
  show ?case
    by (cases "activeFromOp (po_Path p) (po_Value p)"; cases "lastActive ps")
      (simp_all add: Cons e mmod_twice c)
qed simp

text \<open>
  Deprovisioning and reactivating. A patch that sets \<open>active\<close> leaves the account in the last state it
  names, answers with that state, and changes nothing else of the account or of the stores; a patch that does not
  mention \<open>active\<close> changes nothing; and an account whose last state is inactive is refused at the login.
\<close>

theorem patch_sets_active:
  assumes n: "parseID i = Some n" and x: "mget (st_users s) n = Some x" and D: "sv_dir S = memDirectory"
    and m: "\<not> ifMatchFails r (userVersion S (view x))"
    and b: "unmarshal d_patchOp [] (sq_first r) = Some ops" and v: "validatePatchOps ops = None"
  shows "\<exists>u. patchUser S i r s = (writeResource 200 (UserBody (toSCIMUser S u)) (userVersion S u),
      case lastActive ops of None \<Rightarrow> s | Some b \<Rightarrow> s\<lparr>st_users := mmod n (\<lambda>u. u\<lparr>u_disabled := \<not> b\<rparr>) (st_users s)\<rparr>) \<and>
    UserByID (snd (patchUser S i r s)) i = Ok u \<and>
    u = (case lastActive ops of None \<Rightarrow> view x | Some b \<Rightarrow> (view x)\<lparr>au_Disabled := \<not> b\<rparr>) \<and>
    (lastActive ops = Some False \<longrightarrow> fst (loginBlocked now (Some u)))"
proof -
  have u: "UserByID s i = Ok (view x)" using n x by (simp add: UserByID_def)
  have p: "patchUser S i r s = (let s' = snd (applyActive memDirectory i ops s) in (render_after S i (view x) (lastActive ops) s', s'))"
    using m b v by (simp add: patchUser_def D u applyActive_mem [OF n] Let_def)
  show ?thesis
    unfolding p using n x
    by (cases "lastActive ops")
      (simp_all add: applyActive_mem [OF n] Let_def render_after_def D UserByID_def view_def loginBlocked_def)
qed

text \<open>What the upsert of a create does where the address is free: the row of the subject, or a new one.\<close>

lemma free_upsert:
  assumes "findByEmail s em = None"
  shows "UpsertExternalUser now s sub em nm True = (case findBySub s sub of
      Some u \<Rightarrow> (Ok (view (u\<lparr>u_email := norm em, u_name := nm, u_emailVerified := True\<rparr>)),
        s\<lparr>st_users := mmod (u_id u) (\<lambda>u. u\<lparr>u_email := norm em, u_name := nm, u_emailVerified := True\<rparr>) (st_users s)\<rparr>)
    | None \<Rightarrow> insert_user now sub (norm em) nm True s)"
proof -
  have "findByEmail s (norm em) = None" using assms by (simp add: findByEmail_def)
  then show ?thesis
    by (simp add: UpsertExternalUser_def UpsertUserOnLogin_def Let_def rebind_user_def mark_verified_def split: option.split)
qed

lemma create_decoded:
  assumes "unmarshal d_user zero_user (sq_body r) = Some u0" and "su_UserName u0 \<noteq> []" and "sv_dir S = memDirectory"
    and "findByEmail s (wanted_email u0) = None"
    and "UpsertExternalUser now s (''scim:'' @ su_UserName u0) (wanted_email u0) (wanted_name u0) True = (Ok u, s1)"
    and "parseID (au_ID u) = Some k"
  shows "\<exists>res. createUser S r now s = (res, if activeWithDefault (sq_body r) = au_Disabled u
       then s1\<lparr>st_users := mmod k (\<lambda>x. x\<lparr>u_disabled := \<not> activeWithDefault (sq_body r)\<rparr>) (st_users s1)\<rparr> else s1) \<and>
     sp_Code res = 201 \<and> sp_Body res = UserBody (toSCIMUser S (u\<lparr>au_Disabled := \<not> activeWithDefault (sq_body r)\<rparr>))"
  using assms
  by (simp add: createUser_def Let_def UserByEmail_def writeResource_def respond_def disabled_row [OF assms(6)])

lemma two_writes:
  "(if c then (s\<lparr>st_users := mmod k g (st_users s)\<rparr>)\<lparr>st_users := mmod k h (st_users (s\<lparr>st_users := mmod k g (st_users s)\<rparr>))\<rparr>
    else s\<lparr>st_users := mmod k g (st_users s)\<rparr>) = s\<lparr>st_users := mmod k (if c then h \<circ> g else g) (st_users s)\<rparr>"
  by (simp add: mmod_twice)

lemma insert_writes:
  "(if c then (s\<lparr>st_seq := q, st_users := mput k x (st_users s)\<rparr>)\<lparr>st_users := mmod k h (st_users (s\<lparr>st_seq := q, st_users := mput k x (st_users s)\<rparr>))\<rparr>
    else s\<lparr>st_seq := q, st_users := mput k x (st_users s)\<rparr>) =
   s\<lparr>st_seq := q, st_users := (if c then mmod k h (mput k x (st_users s)) else mput k x (st_users s))\<rparr>"
  by simp

text \<open>
  A create never takes over an account by its address: where the address belongs to anyone it is
  refused with a conflict and nothing changes, and otherwise every account whose subject is not that of the
  new user, and every table but the users', stay as they are.
\<close>

theorem create_spares_others:
  assumes s: "store_ok s" and D: "sv_dir S = memDirectory" and q: "Suc (st_seq s) < 2 ^ 64"
    and b: "unmarshal d_user zero_user (sq_body r) = Some u0" "su_UserName u0 \<noteq> []"
  shows "(findByEmail s (wanted_email u0) \<noteq> None \<longrightarrow> sp_Code (fst (createUser S r now s)) = 409 \<and> snd (createUser S r now s) = s) \<and>
    (\<forall>k x. mget (st_users s) k = Some x \<longrightarrow> u_sub x \<noteq> ''scim:'' @ su_UserName u0 \<longrightarrow>
       mget (st_users (snd (createUser S r now s))) k = Some x) \<and>
    (\<exists>n us. snd (createUser S r now s) = s\<lparr>st_seq := n, st_users := us\<rparr>)"
proof (cases "findByEmail s (wanted_email u0)")
  case (Some x)
  then have "createUser S r now s = (scimErrorType 409 ''uniqueness'' ''a user with this email already exists'', s)"
    using b D by (simp add: createUser_def Let_def UserByEmail_def)
  moreover have "\<exists>n us. s = s\<lparr>st_seq := n, st_users := us\<rparr>" by (intro exI [of _ "st_seq s"] exI [of _ "st_users s"]) simp
  ultimately show ?thesis using Some by (simp add: scimErrorType_def respond_def)
next
  case None
  note us = cred_ok_users [OF store_ok_cred [OF s]]
  let ?sub = "''scim:'' @ su_UserName u0"
  show ?thesis
  proof (cases "findBySub s ?sub")
    case (Some x)
    then obtain k where k: "mget (st_users s) k = Some x" "u_sub x = ?sub" "u_id x = k" "1 \<le> k" "k \<le> st_seq s"
      using findBySub_Some [OF us] users_ok_row [OF us] by metis
    then have p: "parseID (au_ID (view y)) = Some k" if "u_id y = k" for y using that q by (simp add: view_def)
    have p': "parseID (au_ID (view (x\<lparr>u_email := norm (wanted_email u0), u_name := wanted_name u0, u_emailVerified := True\<rparr>))) = Some k"
      using p k(3) by simp
    have "UpsertExternalUser now s ?sub (wanted_email u0) (wanted_name u0) True =
        (Ok (view (x\<lparr>u_email := norm (wanted_email u0), u_name := wanted_name u0, u_emailVerified := True\<rparr>)),
         s\<lparr>st_users := mmod k (\<lambda>u. u\<lparr>u_email := norm (wanted_email u0), u_name := wanted_name u0, u_emailVerified := True\<rparr>) (st_users s)\<rparr>)"
      using free_upsert [OF None] Some k(3) by simp
    from create_decoded [OF b D None this p', unfolded two_writes] obtain res f where
      "createUser S r now s = (res, s\<lparr>st_users := mmod k f (st_users s)\<rparr>)" by blast
    then show ?thesis using None k by (auto intro!: exI [of _ "st_seq s"])
  next
    case None': None
    let ?k = "Suc (st_seq s)"
    have p: "parseID (au_ID (view (new_user now ?k ?sub (norm (wanted_email u0)) (wanted_name u0) True))) = Some ?k"
      using q by (simp add: view_def new_user_def)
    have up: "UpsertExternalUser now s ?sub (wanted_email u0) (wanted_name u0) True =
        (Ok (view (new_user now ?k ?sub (norm (wanted_email u0)) (wanted_name u0) True)),
         s\<lparr>st_seq := ?k, st_users := mput ?k (new_user now ?k ?sub (norm (wanted_email u0)) (wanted_name u0) True) (st_users s)\<rparr>)"
      using free_upsert [OF None] None' by (simp add: insert_user_def Let_def)
    let ?x = "new_user now ?k ?sub (norm (wanted_email u0)) (wanted_name u0) True"
    let ?us = "if activeWithDefault (sq_body r) = au_Disabled (view ?x)
      then mmod ?k (\<lambda>x. x\<lparr>u_disabled := \<not> activeWithDefault (sq_body r)\<rparr>) (mput ?k ?x (st_users s)) else mput ?k ?x (st_users s)"
    from create_decoded [OF b D None up p, unfolded insert_writes] obtain res where
      "createUser S r now s = (res, s\<lparr>st_seq := ?k, st_users := ?us\<rparr>)" by blast
    moreover have "\<forall>j. j \<noteq> ?k \<longrightarrow> mget ?us j = mget (st_users s) j" by simp
    ultimately obtain us' where u: "snd (createUser S r now s) = s\<lparr>st_seq := ?k, st_users := us'\<rparr>"
      "\<forall>j. j \<noteq> ?k \<longrightarrow> mget us' j = mget (st_users s) j" by (metis snd_conv)
    have "mget (st_users s) ?k = None" using table_ok_fresh [OF users_ok_email [OF us]] by blast
    then have "mget us' j = Some x" if "mget (st_users s) j = Some x" for j x using that u(2) by (metis option.distinct(1))
    with u(1) None show ?thesis by auto
  qed
qed

text \<open>
  C38: A create is not always one: where a user of the same name was provisioned before and the address
  is a new one, the request answers 201 with the id of that user, whose address and name it replaces, and
  adds no user; the address is marked verified.
\<close>

theorem create_overwrites:
  assumes s: "store_ok s" and D: "sv_dir S = memDirectory" and q: "st_seq s < 2 ^ 64"
    and b: "unmarshal d_user zero_user (sq_body r) = Some u0" "su_UserName u0 \<noteq> []"
    and f: "findByEmail s (wanted_email u0) = None"
    and x: "mget (st_users s) k = Some x" "u_sub x = ''scim:'' @ su_UserName u0"
  shows "\<exists>u' y. sp_Code (fst (createUser S r now s)) = 201 \<and> sp_Body (fst (createUser S r now s)) = UserBody u' \<and> su_ID u' = idStr k \<and>
    mget (st_users (snd (createUser S r now s))) k = Some y \<and> u_email y = norm (wanted_email u0) \<and> u_email y \<noteq> u_email x \<and>
    u_name y = wanted_name u0 \<and> u_emailVerified y \<and>
    (\<forall>j. mget (st_users (snd (createUser S r now s))) j = None \<longleftrightarrow> mget (st_users s) j = None)"
proof -
  note us = cred_ok_users [OF store_ok_cred [OF s]]
  have k: "u_id x = k" "1 \<le> k" "k \<le> st_seq s" using users_ok_row [OF us x(1)] by simp_all
  have "findBySub s (''scim:'' @ su_UserName u0) = Some x" using findBySub_Some [OF us] x by blast
  then have up: "UpsertExternalUser now s (''scim:'' @ su_UserName u0) (wanted_email u0) (wanted_name u0) True =
      (Ok (view (x\<lparr>u_email := norm (wanted_email u0), u_name := wanted_name u0, u_emailVerified := True\<rparr>)),
       s\<lparr>st_users := mmod k (\<lambda>u. u\<lparr>u_email := norm (wanted_email u0), u_name := wanted_name u0, u_emailVerified := True\<rparr>) (st_users s)\<rparr>)"
    using free_upsert [OF f] k(1) by simp
  have p: "parseID (au_ID (view (x\<lparr>u_email := norm (wanted_email u0), u_name := wanted_name u0, u_emailVerified := True\<rparr>))) = Some k"
    using k q by (simp add: view_def)
  have "u_email x \<noteq> norm (wanted_email u0)" using f x(1) findByEmail_None [OF us] by blast
  with create_decoded [OF b D f up p] x k(1) show ?thesis
    by (auto simp: toSCIMUser_def view_def)
qed


section \<open>Bulk requests\<close>

lemma bulkOps_length: "fst (bulkOps S now bs s) = Some rs \<Longrightarrow> length rs = length bs"
proof (induction bs arbitrary: s rs)
  case (Cons b bs)
  then show ?case
    by (subst (asm) bulkOps.simps) (auto split: if_splits option.splits prod.splits, (metis fst_conv)+)
qed simp

lemma bulkOps_append:
  "bulkOps S now (bs @ cs) s = (case bulkOps S now bs s of
     (None, s1) \<Rightarrow> (None, s1)
   | (Some rs, s1) \<Rightarrow> (case bulkOps S now cs s1 of (qs, s2) \<Rightarrow> (map_option ((@) rs) qs, s2)))"
proof (induction bs arbitrary: s)
  case Nil
  have "(@) [] = (id :: bulk_result list \<Rightarrow> _)" by auto
  then show ?case by (simp add: split_beta option.map_id)
next
  case (Cons b bs)
  have e: "map_option ((#) x) (map_option ((@) rs) qs) = map_option ((@) (x # rs)) qs" for x and rs :: "bulk_result list" and qs
    by (cases qs) auto
  show ?case
    by (simp add: bulkOps.simps(2)) (auto simp: Cons.IH e split: option.split prod.split)
qed


text \<open>
  One unknown path in a bulk request loses the answers to all its operations. The router's own
  not-found text is no JSON, so the response with it cannot be encoded and the client is sent a 200 without a
  body, although the other operations were applied.
\<close>

theorem bulk_answers_lost:
  assumes "sq_path r = [''Bulk'']" and "sq_method r = ''POST''"
    and "unmarshal d_bulk [] (sq_first r) = Some (bs @ b # cs)" and "length (bs @ b # cs) \<le> maxBulkOperations"
    and "\<not> unsupported b" and "sv_target S (to_upper (bo_Method b)) (bo_Path b) = Some ([x], q)"
    and "x \<notin> {''Users'', ''Groups'', ''ServiceProviderConfig'', ''ResourceTypes'', ''Schemas'', ''Bulk''}"
    and "fst (serveMux S now r s) = Some res"
  shows "res = respond 200 NoBody \<and> snd (serveMux S now r s) = snd (bulkOps S now (bs @ cs) s)"
proof -
  have nf: "serveMux S now (subrequest b [x] q) t = (Some notFound, t)" for t
    using assms(7) by (subst serveMux.simps) (simp add: subrequest_def plainRoutes_def)
  have one: "bulkOps S now (b # cs) t = (case bulkOps S now cs t of (rs, t) \<Rightarrow> (map_option ((#) (bulkResult b notFound)) rs, t))" for t
    by (simp add: bulkOps.simps(2) assms(5,6) nf)
  have lost: "\<not> encodable (bulkResult b notFound)"
    by (simp add: bulkResult_def notFound_def respond_def error_json_def encodable_def)
  have serve: "serveMux S now r s = (case bulkOps S now (bs @ b # cs) s of (rs, s) \<Rightarrow> (map_option bulkResponse rs, s))"
    using assms(1-4) by (subst serveMux.simps) (simp add: not_less)
  show ?thesis
    using assms(8) lost
    by (auto simp: serve bulkOps_append one bulkResponse_def split: option.splits prod.splits)
qed

section \<open>Examples\<close>

text \<open>A user that was provisioned before, and a group without members.\<close>

definition demo_scim_store :: store where
  "demo_scim_store = snd (CreateGroup 4 (snd (UpsertExternalUser 3 New ''scim:bob'' ''b@x'' ''Bob'' True)) ''eng'' [])"

definition demo_row :: user where
  "demo_row = new_user 3 1 ''scim:bob'' ''b@x'' ''Bob'' True"

definition demo_group :: Group where
  "demo_group = \<lparr>g_ID = ''1'', g_Name = ''eng'', g_Description = [], g_CreatedAt = 4, g_UpdatedAt = 4, g_OrgID = []\<rparr>"

abbreviation demo_server :: scim_server where
  "demo_server \<equiv> demo_scim memDirectory"

lemma demo_server [simp]: "sv_dir demo_server = memDirectory" "sv_target demo_server m p = Some ([p], [])"
  by (simp_all add: demo_scim_def newServer_def)

lemma demo_scim_store:
  "store_ok demo_scim_store" "mget (st_users demo_scim_store) 1 = Some demo_row" "parseID ''1'' = Some 1"
  "groupByID memDirectory demo_scim_store ''1'' = Some (demo_group, [])" "st_seq demo_scim_store = 1"
proof -
  show "store_ok demo_scim_store"
    unfolding demo_scim_store_def UpsertExternalUser_def by (intro store_ok_steps) simp_all
qed code_simp+

abbreviation demo_body :: "json \<Rightarrow> scim_request" where
  "demo_body \<equiv> demo_scim_request [] []"

lemma demo_body [simp]:
  "sq_body (demo_scim_request m p j) = Some j" "sq_first (demo_scim_request m p j) = Some j" "sq_headers (demo_scim_request m p j) = []"
  "sq_path (demo_scim_request m p j) = p" "sq_method (demo_scim_request m p j) = m"
  by (simp_all add: demo_scim_request_def)

lemma no_precondition [simp]: "\<not> ifMatchFails (demo_scim_request m p j) v" "\<not> groupMatchFails S (demo_scim_request m p j) gm"
  by (simp_all add: ifMatchFails_def groupMatchFails_def attr_def)


theorem put_group_replaces_witness:
  "member (snd (putGroup demo_server ''1'' (demo_body (VObj [(''members'', VArr [VObj [(''value'', VStr ''1'')]])])) demo_scim_store)) 1 2
     \<longleftrightarrow> member demo_scim_store 1 2"
proof -
  let ?j = "VObj [(''members'', VArr [VObj [(''value'', VStr ''1'')]])]"
  have d: "unmarshal d_group zero_group (sq_first (demo_body ?j)) = Some (zero_group\<lparr>sg_Members := [\<lparr>sb_Value = ''1'', sb_Display = []\<rparr>]\<rparr>)"
    unfolding demo_body by code_simp
  show ?thesis
    using put_group_replaces [OF demo_scim_store(1,3) _ demo_server(1) demo_scim_store(4) no_precondition(2) d] demo_scim_store(5) by auto
qed

theorem patch_sets_active_witness:
  "\<exists>u. UserByID (snd (patchUser demo_server ''1'' (demo_body (VObj [(''Operations'', VArr [VObj [(''op'', VStr ''replace''),
     (''path'', VStr ''active''), (''value'', VBool False)]])])) demo_scim_store)) ''1'' = Ok u \<and> fst (loginBlocked 9 (Some u))"
proof -
  let ?j = "VObj [(''Operations'', VArr [VObj [(''op'', VStr ''replace''), (''path'', VStr ''active''), (''value'', VBool False)]])]"
  let ?ops = "[\<lparr>po_Op = ''replace'', po_Path = ''active'', po_Value = Some (VBool False)\<rparr>]"
  have d: "unmarshal d_patchOp [] (sq_first (demo_body ?j)) = Some ?ops" unfolding demo_body by code_simp
  have "validatePatchOps ?ops = None" "lastActive ?ops = Some False" by code_simp+
  with patch_sets_active [OF demo_scim_store(3,2) demo_server(1) no_precondition(1) d, of 9] show ?thesis by auto
qed

theorem create_spares_others_witness:
  "mget (st_users (snd (createUser demo_server (demo_body (VObj [(''userName'', VStr ''amy'')])) 7 demo_scim_store))) 1 = Some demo_row"
proof -
  have d: "unmarshal d_user zero_user (sq_body (demo_body (VObj [(''userName'', VStr ''amy'')]))) = Some (zero_user\<lparr>su_UserName := ''amy''\<rparr>)"
    unfolding demo_body by code_simp
  have "u_sub demo_row \<noteq> ''scim:amy''" by code_simp
  with create_spares_others [OF demo_scim_store(1) demo_server(1) _ d, of 7] demo_scim_store(2,5) show ?thesis by simp
qed

theorem create_overwrites_witness:
  "\<exists>y. mget (st_users (snd (createUser demo_server (demo_body (VObj [(''userName'', VStr ''bob''),
     (''emails'', VArr [VObj [(''value'', VStr ''new@x'')]])])) 7 demo_scim_store))) 1 = Some y \<and> u_email y \<noteq> u_email demo_row"
proof -
  let ?j = "VObj [(''userName'', VStr ''bob''), (''emails'', VArr [VObj [(''value'', VStr ''new@x'')]])]"
  have d: "unmarshal d_user zero_user (sq_body (demo_body ?j)) =
      Some (zero_user\<lparr>su_UserName := ''bob'', su_Emails := [\<lparr>se_Value = ''new@x'', se_Primary = False\<rparr>]\<rparr>)"
    unfolding demo_body by code_simp
  have f: "findByEmail demo_scim_store (wanted_email (zero_user\<lparr>su_UserName := ''bob'', su_Emails := [\<lparr>se_Value = ''new@x'', se_Primary = False\<rparr>]\<rparr>)) = None"
    by code_simp
  have x: "u_sub demo_row = ''scim:'' @ ''bob''" by code_simp
  show ?thesis
    using create_overwrites [OF demo_scim_store(1) demo_server(1) _ d _ f demo_scim_store(2), of 7] x demo_scim_store(5) by auto
qed


theorem bulk_answers_lost_witness:
  "fst (serveMux demo_server 7 (demo_scim_request ''POST'' [''Bulk''] (VObj [(''Operations'', VArr [VObj [(''method'', VStr ''GET''),
     (''path'', VStr ''/Foo'')]])])) demo_scim_store) = Some (respond 200 NoBody)"
proof -
  let ?r = "demo_scim_request ''POST'' [''Bulk''] (VObj [(''Operations'', VArr [VObj [(''method'', VStr ''GET''), (''path'', VStr ''/Foo'')]])])"
  let ?b = "\<lparr>bo_Method = ''GET'', bo_Path = ''/Foo'', bo_BulkID = [], bo_Data = None\<rparr>"
  have d: "unmarshal d_bulk [] (sq_first ?r) = Some ([] @ ?b # [])" unfolding demo_body by code_simp
  have b: "\<not> unsupported ?b" by code_simp
  have "serveMux demo_server 7 (subrequest ?b [''/Foo''] []) demo_scim_store = (Some notFound, demo_scim_store)"
    by (subst serveMux.simps) (simp add: subrequest_def plainRoutes_def)
  then have "fst (serveMux demo_server 7 ?r demo_scim_store) \<noteq> None"
    using d b by (subst serveMux.simps) (simp add: bulkOps.simps maxBulkOperations_def)
  then obtain res where res: "fst (serveMux demo_server 7 ?r demo_scim_store) = Some res" by blast
  from bulk_answers_lost [OF _ _ d _ b _ _ res, of "''/Foo''" "[]"] res show ?thesis by (simp add: maxBulkOperations_def)
qed

section \<open>The key\<close>

definition provisioning_key :: "authn \<Rightarrow> string \<Rightarrow> env \<Rightarrow> bool" where
  "provisioning_key A key e \<longleftrightarrow> a_dir A \<and> key \<noteq> [] \<and> (case APIKeyByHash (e_store e) (hashToken (a_lib A) key) of
     Inl _ \<Rightarrow> False
   | Inr info \<Rightarrow> KeyHasScope (Some info) ''scim'' \<and> ak_OrgID info = [] \<and>
       (case ak_ExpiresAt info of None \<Rightarrow> True | Some t \<Rightarrow> e_now e \<le> t))"

abbreviation scim_key :: "scim_request \<Rightarrow> string" where
  "scim_key r \<equiv> trim_space (trim_prefix (attr (sq_headers r) ''Authorization'') ''Bearer '')"

text \<open>
  Only a provisioning key opens the server: unless the bearer token is that of a live key with the scope
  \<open>scim\<close> that is bound to no organization, the request is refused with 401 and changes nothing but the
  last use of the key presented; with such a key it is served, on the stores as they are.
\<close>

theorem scim_requires_key:
  shows "if provisioning_key A (scim_key r) e
    then \<exists>i. serveSCIM S (Some (\<lambda>t. ValidateAPIKeyScope A t ''scim'')) r e =
        op (serveMux S (e_now e) r) (snd (op (\<lambda>s. TouchAPIKey (e_now e) s i) e))
    else \<exists>e'. serveSCIM S (Some (\<lambda>t. ValidateAPIKeyScope A t ''scim'')) r e =
        (Some (scimError 401 ''invalid or missing bearer token''), e') \<and>
        (e' = e \<or> (\<exists>i. e' = snd (op (\<lambda>s. TouchAPIKey (e_now e) s i) e)))"
proof (cases "a_dir A \<and> scim_key r \<noteq> []")
  case False
  then have "ValidateAPIKeyScope A (scim_key r) ''scim'' e = (False, e)" by (auto simp: ValidateAPIKeyScope_def ValidateAPIKey_def)
  moreover have "\<not> provisioning_key A (scim_key r) e" using False by (auto simp: provisioning_key_def)
  ultimately show ?thesis by (simp add: serveSCIM_def Let_def)
next
  case True
  show ?thesis
  proof (cases "APIKeyByHash (e_store e) (hashToken (a_lib A) (scim_key r))")
    case (Inl err)
    with True have "ValidateAPIKeyScope A (scim_key r) ''scim'' e = (False, e)" by (simp add: ValidateAPIKeyScope_def ValidateAPIKey_def)
    then show ?thesis using Inl by (simp add: serveSCIM_def provisioning_key_def Let_def)
  next
    case (Inr info)
    let ?dead = "case ak_ExpiresAt info of None \<Rightarrow> False | Some t \<Rightarrow> t < e_now e"
    have live: "(case ak_ExpiresAt info of None \<Rightarrow> True | Some t \<Rightarrow> e_now e \<le> t) \<longleftrightarrow> \<not> ?dead"
      by (cases "ak_ExpiresAt info") auto
    show ?thesis
    proof (cases ?dead)
      case d: True
      with True Inr have "ValidateAPIKeyScope A (scim_key r) ''scim'' e = (False, e)" by (simp add: ValidateAPIKeyScope_def ValidateAPIKey_def)
      then show ?thesis using Inr live d by (simp add: serveSCIM_def provisioning_key_def Let_def)
    next
      case False
      let ?e = "snd (op (\<lambda>s. TouchAPIKey (e_now e) s (ak_ID info)) e)"
      have v: "ValidateAPIKeyScope A (scim_key r) ''scim'' e = (KeyHasScope (Some info) ''scim'' \<and> ak_OrgID info = [], ?e)"
        using True Inr False by (simp add: ValidateAPIKeyScope_def ValidateAPIKey_def)
      have "e_now ?e = e_now e" by (simp add: op_def split_beta)
      then show ?thesis
        using v True Inr live False
        by (cases "KeyHasScope (Some info) ''scim'' \<and> ak_OrgID info = []")
          (auto simp: serveSCIM_def provisioning_key_def Let_def)
    qed
  qed
qed

end
