(* ===== verification/Social.thy ===== *)
theory Social
  imports Json OidcFlows
begin

text \<open>
  Social login: the providers and the flow of \<open>social.go\<close>, the generic OpenID providers and Discord of
  \<open>social_oidc.go\<close>, and Apple (\<open>social_apple.go\<close>). What happens outside the process is a parameter
  (\<open>social_lib\<close>): discovery, the token exchange, the verification of an ID token, HTTP requests, and the
  signing of Apple's client secret. The claims of an ID token are read leniently, as the code drops the
  error: a member of the wrong type leaves its field as it was.
\<close>

section \<open>Configuration\<close>

record SocialOIDCProvider =
  pr_Name :: string
  pr_Issuer :: string
  pr_ClientID :: string
  pr_ClientSecret :: string
  pr_Scopes :: "string list"
  pr_AssumeVerified :: bool

record social_config =
  cf_GoogleClientID :: string
  cf_GoogleClientSecret :: string
  cf_GitHubClientID :: string
  cf_GitHubClientSecret :: string
  cf_FacebookClientID :: string
  cf_FacebookClientSecret :: string
  cf_AppleClientID :: string
  cf_AppleTeamID :: string
  cf_AppleKeyID :: string
  cf_ApplePrivateKey :: string
  cf_MicrosoftClientID :: string
  cf_MicrosoftClientSecret :: string
  cf_MicrosoftTenant :: string
  cf_MicrosoftStrictEmailVerified :: bool
  cf_DiscordClientID :: string
  cf_DiscordClientSecret :: string
  cf_SocialOIDC :: "SocialOIDCProvider list"

record oauth_config =
  oc_ClientID :: string
  oc_ClientSecret :: string
  oc_Endpoint :: string
  oc_RedirectURL :: string
  oc_Scopes :: "string list"

record oidcProvider =
  ip_oauth :: oauth_config
  ip_issuer :: string
  ip_clientID :: string
  ip_assumeVerified :: bool

record social_token =
  st_AccessToken :: string
  st_IDToken :: "string option"

record social_idtoken =
  vt_Subject :: string
  vt_Nonce :: string
  vt_Audience :: "string list"
  vt_Claims :: json

record social_lib =
  sl_discover :: "string \<Rightarrow> bool"
  sl_parseKey :: "string \<Rightarrow> bytes option"
  sl_signSecret :: "bytes \<Rightarrow> string \<Rightarrow> string \<Rightarrow> string \<Rightarrow> time \<Rightarrow> string option"
  sl_authURL :: "oauth_config \<Rightarrow> string \<Rightarrow> string \<Rightarrow> string option \<Rightarrow> bool \<Rightarrow> string"
  sl_exchange :: "oauth_config \<Rightarrow> string \<Rightarrow> string \<Rightarrow> social_token option"
  sl_verify :: "string \<Rightarrow> string \<Rightarrow> time \<Rightarrow> string \<Rightarrow> social_idtoken option"
  sl_get :: "string \<Rightarrow> string \<Rightarrow> string \<Rightarrow> (nat \<times> json option) option"
  sl_hmac :: "bytes \<Rightarrow> bytes \<Rightarrow> bytes"
  sl_parse :: "string \<Rightarrow> json option"

record social =
  so_cfg :: social_config
  so_lib :: social_lib
  so_google :: "oauth_config option"
  so_github :: "oauth_config option"
  so_facebook :: "oauth_config option"
  so_apple :: "oauth_config option"
  so_appleKey :: "bytes option"
  so_discord :: "oauth_config option"
  so_oidc :: "(string, oidcProvider) gomap"

definition socialRedirect :: "authn \<Rightarrow> string \<Rightarrow> string" where
  "socialRedirect A provider = baseURL A @ ''/auth/social/'' @ provider @ ''/callback''"

definition socialOAuth :: "social \<Rightarrow> string \<Rightarrow> oauth_config option" where
  "socialOAuth G provider =
     (if provider = ''google'' then so_google G
      else if provider = ''github'' then so_github G
      else if provider = ''facebook'' then so_facebook G
      else if provider = ''apple'' then so_apple G
      else if provider = ''discord'' then so_discord G
      else map_option ip_oauth (mget (so_oidc G) provider))"

definition socialConfigured :: "social \<Rightarrow> string \<Rightarrow> bool" where
  "socialConfigured G provider \<longleftrightarrow> socialOAuth G provider \<noteq> None"

definition googleIssuer :: string where "googleIssuer = ''https://accounts.google.com''"
definition appleIssuer :: string where "appleIssuer = ''https://appleid.apple.com''"

definition appleConfigured :: "social_config \<Rightarrow> bool" where
  "appleConfigured c \<longleftrightarrow> cf_AppleClientID c \<noteq> [] \<and> cf_AppleTeamID c \<noteq> [] \<and> cf_AppleKeyID c \<noteq> [] \<and> cf_ApplePrivateKey c \<noteq> []"

definition enableApple :: "authn \<Rightarrow> social \<Rightarrow> social" where
  "enableApple A G = (let c = so_cfg G in
     if \<not> appleConfigured c then G
     else case sl_parseKey (so_lib G) (cf_ApplePrivateKey c) of
       None \<Rightarrow> G
     | Some key \<Rightarrow>
         if \<not> sl_discover (so_lib G) appleIssuer then G
         else G\<lparr>so_appleKey := Some key, so_apple := Some \<lparr>oc_ClientID = cf_AppleClientID c, oc_ClientSecret = [],
           oc_Endpoint = appleIssuer, oc_RedirectURL = socialRedirect A ''apple'', oc_Scopes = [''openid'', ''email'']\<rparr>\<rparr>)"

definition enableDiscord :: "authn \<Rightarrow> social \<Rightarrow> social" where
  "enableDiscord A G = (let c = so_cfg G in
     if cf_DiscordClientID c = [] \<or> cf_DiscordClientSecret c = [] then G
     else G\<lparr>so_discord := Some \<lparr>oc_ClientID = cf_DiscordClientID c, oc_ClientSecret = cf_DiscordClientSecret c,
       oc_Endpoint = ''https://discord.com/api/oauth2'', oc_RedirectURL = socialRedirect A ''discord'',
       oc_Scopes = [''identify'', ''email'']\<rparr>\<rparr>)"

definition isMultiTenantMicrosoft :: "string \<Rightarrow> bool" where
  "isMultiTenantMicrosoft tenant \<longleftrightarrow> to_lower (trim_space tenant) \<in> {[], ''common'', ''organizations'', ''consumers''}"

definition microsoftPreset :: "social_config \<Rightarrow> SocialOIDCProvider" where
  "microsoftPreset c = (let tenant = (if cf_MicrosoftTenant c = [] then ''common'' else cf_MicrosoftTenant c) in
     \<lparr>pr_Name = ''microsoft'', pr_Issuer = ''https://login.microsoftonline.com/'' @ tenant @ ''/v2.0'',
      pr_ClientID = cf_MicrosoftClientID c, pr_ClientSecret = cf_MicrosoftClientSecret c, pr_Scopes = [],
      pr_AssumeVerified = (\<not> cf_MicrosoftStrictEmailVerified c \<and> \<not> isMultiTenantMicrosoft tenant)\<rparr>)"

text \<open>One turn of the loop over the configured OpenID providers; it never shadows a slug that is taken.\<close>

definition trim_slashes :: "string \<Rightarrow> string" where
  "trim_slashes s = rev (dropWhile (\<lambda>x. x = CHR ''/'') (rev s))"

definition addProvider :: "authn \<Rightarrow> SocialOIDCProvider \<Rightarrow> social \<Rightarrow> social" where
  "addProvider A sp G =
     (let name = to_lower (trim_space (pr_Name sp)); issuer = trim_slashes (pr_Issuer sp) in
      if name = [] \<or> pr_Issuer sp = [] \<or> pr_ClientID sp = [] \<or> pr_ClientSecret sp = [] then G
      else if socialOAuth G name \<noteq> None then G
      else if \<not> sl_discover (so_lib G) issuer then G
      else G\<lparr>so_oidc := mput name \<lparr>ip_oauth = \<lparr>oc_ClientID = pr_ClientID sp, oc_ClientSecret = pr_ClientSecret sp,
            oc_Endpoint = issuer, oc_RedirectURL = socialRedirect A name,
            oc_Scopes = (if pr_Scopes sp = [] then [''openid'', ''email'', ''profile''] else pr_Scopes sp)\<rparr>,
          ip_issuer = issuer, ip_clientID = pr_ClientID sp, ip_assumeVerified = pr_AssumeVerified sp\<rparr> (so_oidc G)\<rparr>)"

definition enableOIDCSocial :: "authn \<Rightarrow> social \<Rightarrow> social" where
  "enableOIDCSocial A G = (let c = so_cfg G;
      providers = cf_SocialOIDC c @ (if cf_MicrosoftClientID c \<noteq> [] \<and> cf_MicrosoftClientSecret c \<noteq> [] then [microsoftPreset c] else [])
    in fold (addProvider A) providers G)"

definition oauth_of :: "authn \<Rightarrow> string \<Rightarrow> string \<Rightarrow> string \<Rightarrow> string \<Rightarrow> string list \<Rightarrow> oauth_config option" where
  "oauth_of A provider cid csecret endpoint scopes =
     (if cid \<noteq> [] \<and> csecret \<noteq> [] then Some \<lparr>oc_ClientID = cid, oc_ClientSecret = csecret, oc_Endpoint = endpoint,
        oc_RedirectURL = socialRedirect A provider, oc_Scopes = scopes\<rparr> else None)"

definition enableSocial :: "authn \<Rightarrow> social_config \<Rightarrow> social_lib \<Rightarrow> social" where
  "enableSocial A c lib =
     (let google = oauth_of A ''google'' (cf_GoogleClientID c) (cf_GoogleClientSecret c) googleIssuer [''openid'', ''email'', ''profile''];
          G = \<lparr>so_cfg = c, so_lib = lib, so_google = (if sl_discover lib googleIssuer then google else None),
            so_github = oauth_of A ''github'' (cf_GitHubClientID c) (cf_GitHubClientSecret c) ''github'' [''read:user'', ''user:email''],
            so_facebook = oauth_of A ''facebook'' (cf_FacebookClientID c) (cf_FacebookClientSecret c) ''facebook'' [''email'', ''public_profile''],
            so_apple = None, so_appleKey = None, so_discord = None, so_oidc = []\<rparr>
      in enableOIDCSocial A (enableDiscord A (enableApple A G)))"

definition anySocialConfigured :: "social \<Rightarrow> bool" where
  "anySocialConfigured G \<longleftrightarrow> list_ex (socialConfigured G) [''google'', ''github'', ''facebook'', ''apple'', ''discord''] \<or> so_oidc G \<noteq> []"

definition enabledSocialProviders :: "social \<Rightarrow> string list" where
  "enabledSocialProviders G = sort_by (\<lambda>a b. a < b)
     (filter (socialConfigured G) [''google'', ''github'', ''facebook'', ''apple'', ''discord''] @ map fst (so_oidc G))"

section \<open>Beginning a login\<close>

definition isOIDC :: "social \<Rightarrow> string \<Rightarrow> bool" where
  "isOIDC G provider \<longleftrightarrow> provider = ''google'' \<or> provider = ''apple'' \<or> mget (so_oidc G) provider \<noteq> None"

text \<open>The flow cookie; Apple's differs only in its \<open>SameSite\<close> attribute, which is not modelled.\<close>

definition SocialLogin :: "authn \<Rightarrow> social \<Rightarrow> request \<Rightarrow> env \<Rightarrow> reply \<times> env" where
  "SocialLogin A G r e = (let provider = attr (rq_params r) ''provider'' in
     case socialOAuth G provider of
       None \<Rightarrow> (jerr 404 ''provider not enabled'', e)
     | Some oc \<Rightarrow>
         case freshToken A e of (state, e) \<Rightarrow>
         case freshToken A e of (nonce, e) \<Rightarrow>
         case freshToken A e of (verifier, e) \<Rightarrow>
         (case mintFlow (a_lib A) (a_SessionSecret A) \<lparr>fc_State = state, fc_Nonce = nonce, fc_Verifier = verifier,
              fc_Next = sanitizeNext (attr (rq_query r) ''next'')\<rparr> (e_now e) of
            None \<Rightarrow> (jerr 500 ''login init failed'', e)
          | Some flow \<Rightarrow> (Redirect (sl_authURL (so_lib G) oc state verifier
              (if isOIDC G provider then Some nonce else None) (provider = ''apple'')),
              setCookie flowCookie flow (flowTTL div second_ns) e)))"

section \<open>Reading the identity\<close>

text \<open>Claims read with errors dropped: the last well-typed member of a name, whatever its case.\<close>

definition claim_members :: "json \<Rightarrow> string \<Rightarrow> json list" where
  "claim_members j k = (case j of VObj kvs \<Rightarrow> map snd (filter (\<lambda>kv. equal_fold (fst kv) k) kvs) | _ \<Rightarrow> [])"

definition claim_string :: "json \<Rightarrow> string \<Rightarrow> string" where
  "claim_string j k = fold (\<lambda>v old. case v of VStr s \<Rightarrow> s | _ \<Rightarrow> old) (claim_members j k) []"

definition claim_bool :: "json \<Rightarrow> string \<Rightarrow> bool" where
  "claim_bool j k = fold (\<lambda>v old. case v of VBool b \<Rightarrow> b | _ \<Rightarrow> old) (claim_members j k) False"

text \<open>A pointer to a bool is nil until a member sets it; one of another type leaves it pointing to a bool.\<close>

definition claim_bool_ptr :: "json \<Rightarrow> string \<Rightarrow> bool option" where
  "claim_bool_ptr j k = fold (\<lambda>v old. case v of VBool b \<Rightarrow> Some b | VNull \<Rightarrow> None
      | _ \<Rightarrow> (case old of None \<Rightarrow> Some False | Some b \<Rightarrow> Some b)) (claim_members j k) None"

definition claim_any :: "json \<Rightarrow> string \<Rightarrow> json" where
  "claim_any j k = fold (\<lambda>v old. v) (claim_members j k) VNull"

type_synonym identity_result = "(nat \<times> string) + (string \<times> string \<times> string)"

definition social_refused :: "string \<Rightarrow> identity_result" where
  "social_refused msg = Inl (403, msg)"

definition googleIdentity :: "social \<Rightarrow> time \<Rightarrow> social_token \<Rightarrow> string \<Rightarrow> identity_result" where
  "googleIdentity G now tok wantNonce = (let clientID = cf_GoogleClientID (so_cfg G) in case st_IDToken tok of
     None \<Rightarrow> Inl (502, ''no id_token in response'')
   | Some rawID \<Rightarrow> (case sl_verify (so_lib G) googleIssuer clientID now rawID of
       None \<Rightarrow> Inl (401, ''id_token verification failed'')
     | Some idt \<Rightarrow> let cl = vt_Claims idt in
         if vt_Nonce idt \<noteq> wantNonce then Inl (401, ''nonce mismatch'')
         else if \<not> verifyAZP (vt_Audience idt) (claim_string cl ''azp'') clientID
         then Inl (401, ''id_token not authorized for this client'')
         else if \<not> claim_bool cl ''email_verified'' \<or> claim_string cl ''email'' = []
         then social_refused ''your Google email is not verified''
         else Inr (vt_Subject idt, claim_string cl ''email'', claim_string cl ''name'')))"

text \<open>\<open>getJSONWithAccept\<close>: the decoded body of a 200 answer.\<close>

definition getJSON :: "social \<Rightarrow> string \<Rightarrow> string \<Rightarrow> string \<Rightarrow> 'a decoder \<Rightarrow> 'a \<Rightarrow> 'a option" where
  "getJSON G accept url access d z = (case sl_get (so_lib G) accept url access of
     None \<Rightarrow> None
   | Some (status, body) \<Rightarrow> if status \<noteq> 200 then None else unmarshal d z body)"

definition githubAccept :: string where "githubAccept = ''application/vnd.github+json''"

record github_profile =
  gp_ID :: int
  gp_Name :: string
  gp_Login :: string

record github_email =
  ge_Email :: string
  ge_Primary :: bool
  ge_Verified :: bool

text \<open>A number into an \<open>int64\<close>: an integer in its range, without fraction or exponent.\<close>

definition j_int64 :: "int decoder" where
  "j_int64 j old = (case j of
     VNum s \<Rightarrow> (let neg = (s \<noteq> [] \<and> hd s = CHR ''-''); ds = (if neg then tl s else s) in
       if ds = [] \<or> \<not> list_all is_digit ds then None
       else let n = (if neg then - int (digits_val ds) else int (digits_val ds)) in
            if - (2 ^ 63) \<le> n \<and> n < 2 ^ 63 then Some n else None)
   | VNull \<Rightarrow> Some old | _ \<Rightarrow> None)"

definition d_githubProfile :: "github_profile decoder" where
  "d_githubProfile = j_struct (\<lambda>k.
     if equal_fold k ''id'' then into j_int64 gp_ID (\<lambda>v. gp_ID_update (\<lambda>_. v))
     else if equal_fold k ''name'' then into j_string gp_Name (\<lambda>v. gp_Name_update (\<lambda>_. v))
     else if equal_fold k ''login'' then into j_string gp_Login (\<lambda>v. gp_Login_update (\<lambda>_. v))
     else (\<lambda>_. Some))"

definition d_githubEmail :: "github_email decoder" where
  "d_githubEmail = j_struct (\<lambda>k.
     if equal_fold k ''email'' then into j_string ge_Email (\<lambda>v. ge_Email_update (\<lambda>_. v))
     else if equal_fold k ''primary'' then into j_bool ge_Primary (\<lambda>v. ge_Primary_update (\<lambda>_. v))
     else if equal_fold k ''verified'' then into j_bool ge_Verified (\<lambda>v. ge_Verified_update (\<lambda>_. v))
     else (\<lambda>_. Some))"

definition format_int :: "int \<Rightarrow> string" where
  "format_int n = (if n < 0 then CHR ''-'' # format_uint (nat (- n)) else format_uint (nat n))"

definition githubIdentity :: "social \<Rightarrow> social_token \<Rightarrow> identity_result" where
  "githubIdentity G tok =
     (case getJSON G githubAccept ''https://api.github.com/user'' (st_AccessToken tok) d_githubProfile
         \<lparr>gp_ID = 0, gp_Name = [], gp_Login = []\<rparr> of
        None \<Rightarrow> social_refused ''could not read your GitHub profile''
      | Some profile \<Rightarrow>
          (case getJSON G githubAccept ''https://api.github.com/user/emails'' (st_AccessToken tok)
              (j_slice d_githubEmail \<lparr>ge_Email = [], ge_Primary = False, ge_Verified = False\<rparr>) [] of
             None \<Rightarrow> social_refused ''could not read your GitHub emails''
           | Some emails \<Rightarrow> (case find (\<lambda>m. ge_Primary m \<and> ge_Verified m) emails of
               None \<Rightarrow> social_refused ''your GitHub account has no primary, verified email''
             | Some m \<Rightarrow> Inr (format_int (gp_ID profile), ge_Email m,
                 if gp_Name profile = [] then gp_Login profile else gp_Name profile))))"

record profile =
  me_ID :: string
  me_Name :: string
  me_GlobalName :: string
  me_Email :: string
  me_Verified :: bool

abbreviation zero_profile :: profile where
  "zero_profile \<equiv> \<lparr>me_ID = [], me_Name = [], me_GlobalName = [], me_Email = [], me_Verified = False\<rparr>"

definition d_facebook :: "profile decoder" where
  "d_facebook = j_struct (\<lambda>k.
     if equal_fold k ''id'' then into j_string me_ID (\<lambda>v. me_ID_update (\<lambda>_. v))
     else if equal_fold k ''name'' then into j_string me_Name (\<lambda>v. me_Name_update (\<lambda>_. v))
     else if equal_fold k ''email'' then into j_string me_Email (\<lambda>v. me_Email_update (\<lambda>_. v))
     else (\<lambda>_. Some))"

definition facebookIdentity :: "social \<Rightarrow> oauth_config \<Rightarrow> social_token \<Rightarrow> identity_result" where
  "facebookIdentity G oc tok =
     (let proof = hex_encode (sl_hmac (so_lib G) (oc_ClientSecret oc) (st_AccessToken tok));
          url = ''https://graph.facebook.com/v19.0/me?fields=id,name,email&appsecret_proof='' @ proof
      in case getJSON G [] url (st_AccessToken tok) d_facebook zero_profile of
           None \<Rightarrow> social_refused ''could not read your Facebook profile''
         | Some me \<Rightarrow>
             if me_ID me = [] then social_refused ''could not read your Facebook profile''
             else if me_Email me = []
             then social_refused (''your Facebook account has no email '' @ em_dash @ '' grant email access when signing in'')
             else Inr (me_ID me, me_Email me, me_Name me))"

definition d_discord :: "profile decoder" where
  "d_discord = j_struct (\<lambda>k.
     if equal_fold k ''id'' then into j_string me_ID (\<lambda>v. me_ID_update (\<lambda>_. v))
     else if equal_fold k ''username'' then into j_string me_Name (\<lambda>v. me_Name_update (\<lambda>_. v))
     else if equal_fold k ''global_name'' then into j_string me_GlobalName (\<lambda>v. me_GlobalName_update (\<lambda>_. v))
     else if equal_fold k ''email'' then into j_string me_Email (\<lambda>v. me_Email_update (\<lambda>_. v))
     else if equal_fold k ''verified'' then into j_bool me_Verified (\<lambda>v. me_Verified_update (\<lambda>_. v))
     else (\<lambda>_. Some))"

definition discordIdentity :: "social \<Rightarrow> social_token \<Rightarrow> identity_result" where
  "discordIdentity G tok = (case getJSON G [] ''https://discord.com/api/users/@me'' (st_AccessToken tok) d_discord zero_profile of
     None \<Rightarrow> social_refused ''could not read your Discord profile''
   | Some me \<Rightarrow>
       if me_ID me = [] then social_refused ''could not read your Discord profile''
       else if me_Email me = [] \<or> \<not> me_Verified me then social_refused ''your Discord account has no verified email''
       else Inr (me_ID me, me_Email me, if me_GlobalName me = [] then me_Name me else me_GlobalName me))"

text \<open>A generic OpenID provider: only an absent claim may be assumed, and only where the provider is trusted for it.\<close>

definition oidcSocialIdentity :: "social \<Rightarrow> time \<Rightarrow> oidcProvider \<Rightarrow> social_token \<Rightarrow> string \<Rightarrow> identity_result" where
  "oidcSocialIdentity G now p tok wantNonce = (case st_IDToken tok of
     None \<Rightarrow> social_refused ''no id_token in the provider response''
   | Some rawID \<Rightarrow> (case sl_verify (so_lib G) (ip_issuer p) (ip_clientID p) now rawID of
       None \<Rightarrow> social_refused ''id_token verification failed''
     | Some idt \<Rightarrow> let cl = vt_Claims idt; preferred = claim_string cl ''preferred_username'' in
         if vt_Nonce idt \<noteq> wantNonce then social_refused ''nonce mismatch''
         else if \<not> verifyAZP (vt_Audience idt) (claim_string cl ''azp'') (ip_clientID p)
         then social_refused ''id_token not authorized for this client''
         else
           let assumed = (claim_bool_ptr cl ''email_verified'' = None \<and> ip_assumeVerified p);
               email0 = claim_string cl ''email'';
               email = (if assumed \<and> email0 = [] \<and> contains_str preferred ''@'' then preferred else email0);
               verified = (if assumed then email \<noteq> [] else claim_bool_ptr cl ''email_verified'' = Some True)
           in if email = [] \<or> \<not> verified then social_refused ''your email is not verified with this provider''
              else Inr (vt_Subject idt, email, if claim_string cl ''name'' = [] then preferred else claim_string cl ''name'')))"

definition appleNameFromUser :: "social \<Rightarrow> string \<Rightarrow> string" where
  "appleNameFromUser G userJSON =
     (if userJSON = [] then []
      else case unmarshal (j_struct (\<lambda>k. if equal_fold k ''name'' then j_struct (\<lambda>k.
             if equal_fold k ''firstName'' then into j_string fst (\<lambda>v p. (v, snd p))
             else if equal_fold k ''lastName'' then into j_string snd (\<lambda>v p. (fst p, v))
             else (\<lambda>_. Some)) else (\<lambda>_. Some))) ([], []) (sl_parse (so_lib G) userJSON) of
           None \<Rightarrow> []
         | Some (firstName, lastName) \<Rightarrow> trim_space (firstName @ '' '' @ lastName))"

definition appleIdentity :: "social \<Rightarrow> time \<Rightarrow> social_token \<Rightarrow> string \<Rightarrow> string \<Rightarrow> identity_result" where
  "appleIdentity G now tok wantNonce userJSON = (let clientID = cf_AppleClientID (so_cfg G) in
     if so_apple G = None then social_refused ''apple sign-in is not configured''
     else case st_IDToken tok of
       None \<Rightarrow> social_refused (''no id_token in Apple'' @ [CHR 0x27] @ ''s response'')
     | Some rawID \<Rightarrow> (case sl_verify (so_lib G) appleIssuer clientID now rawID of
         None \<Rightarrow> social_refused ''apple id_token verification failed''
       | Some idt \<Rightarrow> let cl = vt_Claims idt in
           if vt_Nonce idt \<noteq> wantNonce then social_refused ''nonce mismatch''
           else if \<not> verifyAZP (vt_Audience idt) (claim_string cl ''azp'') clientID
           then social_refused ''id_token not authorized for this client''
           else if claim_string cl ''email'' = [] \<or> claim_any cl ''email_verified'' \<notin> {VBool True, VStr ''true''}
           then social_refused ''your Apple ID email is not verified''
           else Inr (vt_Subject idt, claim_string cl ''email'', appleNameFromUser G userJSON)))"

text \<open>\<open>exchangeConfig\<close>: Apple's client secret is signed for each exchange.\<close>

definition appleClientSecret :: "social \<Rightarrow> time \<Rightarrow> string option" where
  "appleClientSecret G now = (let c = so_cfg G in case so_appleKey G of
     None \<Rightarrow> None
   | Some key \<Rightarrow> sl_signSecret (so_lib G) key (cf_AppleTeamID c) (cf_AppleClientID c) (cf_AppleKeyID c) now)"

definition exchangeConfig :: "social \<Rightarrow> time \<Rightarrow> string \<Rightarrow> oauth_config \<Rightarrow> oauth_config option" where
  "exchangeConfig G now provider oc =
     (if provider \<noteq> ''apple'' then Some oc
      else map_option (\<lambda>s. oc\<lparr>oc_ClientSecret := s\<rparr>) (appleClientSecret G now))"

text \<open>The switch over the providers in \<open>SocialCallback\<close>.\<close>

definition socialIdentity :: "social \<Rightarrow> time \<Rightarrow> string \<Rightarrow> oauth_config \<Rightarrow> social_token \<Rightarrow> string \<Rightarrow> string \<Rightarrow> identity_result" where
  "socialIdentity G now provider oc tok wantNonce userJSON =
     (if provider = ''google'' then googleIdentity G now tok wantNonce
      else if provider = ''github'' then githubIdentity G tok
      else if provider = ''facebook'' then facebookIdentity G oc tok
      else if provider = ''apple'' then appleIdentity G now tok wantNonce userJSON
      else if provider = ''discord'' then discordIdentity G tok
      else case mget (so_oidc G) provider of
        None \<Rightarrow> Inl (404, ''provider not enabled'')
      | Some p \<Rightarrow> oidcSocialIdentity G now p tok wantNonce)"

section \<open>The local account\<close>

definition social_sub :: "string \<Rightarrow> string \<Rightarrow> string" where
  "social_sub provider subject = ''social:'' @ provider @ '':'' @ subject"

text \<open>\<open>resolveSocialUser\<close>; \<open>rid\<close> is the random part of a new local subject.\<close>

definition resolveSocialUser ::
  "authn \<Rightarrow> time \<Rightarrow> string \<Rightarrow> string \<Rightarrow> string \<Rightarrow> string \<Rightarrow> string \<Rightarrow> store \<Rightarrow> AuthUser result \<times> store" where
  "resolveSocialUser A now rid provider subject email name s = (case UserByOAuth s provider subject of
     Inr u \<Rightarrow> (Ok u, s)
   | Inl err \<Rightarrow>
       if err \<noteq> ErrNoUser then (Err err, s)
       else case UserByEmail s email of
         Inr u \<Rightarrow>
           if au_EmailVerified u then
             (case LinkOAuth s (au_ID u) provider subject email of
                (Inl err, s) \<Rightarrow> (Err err, s) | (Inr _, s) \<Rightarrow> (Ok u, s))
           else if \<not> a_dir A then (Err ErrEmailConflict, s)
           else (case UpsertExternalUser now s (social_sub provider subject) email name True of
               (Inl err, s) \<Rightarrow> (Err err, s)
             | (Inr nu, s) \<Rightarrow> (Ok nu, snd (LinkOAuth s (au_ID nu) provider subject email)))
       | Inl err \<Rightarrow>
           if err \<noteq> ErrNoUser then (Err err, s)
           else case CreateLocalUser now rid s email name of
             (Inl err, s) \<Rightarrow> (Err err, s)
           | (Inr u, s) \<Rightarrow> (case LinkOAuth s (au_ID u) provider subject email of
               (Inl err, s) \<Rightarrow> (Err err, s)
             | (Inr _, s) \<Rightarrow> (Ok u, snd (SetEmailVerified now s (au_ID u) True))))"

text \<open>\<open>Request.FormValue\<close>: a posted form before the query.\<close>

definition formValue :: "request \<Rightarrow> string \<Rightarrow> string" where
  "formValue r k = attr ((case rq_body r of None \<Rightarrow> [] | Some b \<Rightarrow> if rq_method r = ''POST'' then b else []) @ rq_query r) k"

text \<open>What follows the provider's answer.\<close>

definition socialSignIn :: "authn \<Rightarrow> request \<Rightarrow> flowClaims \<Rightarrow> string \<Rightarrow> string \<times> string \<times> string \<Rightarrow> env \<Rightarrow> reply \<times> env" where
  "socialSignIn A r fc provider i e = (case i of (subject, email, name) \<Rightarrow>
     case freshToken A e of (rid, e) \<Rightarrow>
     case op (resolveSocialUser A (e_now e) rid provider subject email name) e of
       (Inl err, e) \<Rightarrow>
         (if err = ErrEmailConflict
          then jerr 409 (''an account already exists for this email '' @ em_dash @
            '' sign in with your existing method first, then link '' @ provider)
          else jerr 500 ''sign-in failed'', e)
     | (Inr au, e) \<Rightarrow>
         if fst (loginBlocked (e_now e) (Some au)) then (jerr 403 (snd (loginBlocked (e_now e) (Some au))), e)
         else (case completeLogin A r \<lparr>id_Subject = au_Sub au, id_Email = au_Email au, id_Name = au_Name au,
             id_EmailVerified = True, id_Groups = []\<rparr> False [] (doAudit (au_ID au) (au_Email au) True e) of
             (Inl _, e) \<Rightarrow> (jerr 500 ''sign-in failed'', e)
           | (Inr tfr, e) \<Rightarrow>
               (Redirect (if tfr then c_setQuery (a_lib A) (fc_Next fc) ''mfa'' ''required'' else fc_Next fc), e)))"

definition SocialCallback :: "authn \<Rightarrow> social \<Rightarrow> request \<Rightarrow> env \<Rightarrow> reply \<times> env" where
  "SocialCallback A G r e = (let provider = attr (rq_params r) ''provider'' in
     case socialOAuth G provider of
       None \<Rightarrow> (jerr 404 ''provider not enabled'', e)
     | Some oc \<Rightarrow>
         if \<not> a_creds A then (jerr 500 ''sign-in unavailable'', e)
         else case parseFlowMulti (a_lib A) (e_now e) (secrets A) (cookieValue r flowCookie) of
           None \<Rightarrow> (jerr 400 (''login session expired '' @ em_dash @ '' try again''), e)
         | Some fc \<Rightarrow>
             let e = clearCookie flowCookie e in
             if formValue r ''error'' \<noteq> [] then (jerr 401 (''identity provider: '' @ formValue r ''error''), e)
             else if formValue r ''state'' \<noteq> fc_State fc then (jerr 400 ''state mismatch'', e)
             else case exchangeConfig G (e_now e) provider oc of
               None \<Rightarrow> (jerr 500 ''provider secret unavailable'', e)
             | Some xc \<Rightarrow> (case sl_exchange (so_lib G) xc (formValue r ''code'') (fc_Verifier fc) of
                 None \<Rightarrow> (jerr 502 ''token exchange failed'', e)
               | Some tok \<Rightarrow> (case socialIdentity G (e_now e) provider oc tok (fc_Nonce fc) (formValue r ''user'') of
                   Inl (code, msg) \<Rightarrow> (jerr code msg, e)
                 | Inr i \<Rightarrow> socialSignIn A r fc provider i e)))"

end
