(* ===== verification/SocialLaws.thy ===== *)
theory SocialLaws
  imports Social SafeguardLaws IdentityLaws
begin

text \<open>
  What social login guarantees: which accounts a provider's identity may reach, that it reaches the same
  one ever after, what the provider must have proved, and what a session of it rests on.
\<close>

section \<open>The account of a social identity\<close>

lemma UserByOAuth_Ok:
  "UserByOAuth s p x = Ok u \<longleftrightarrow> (\<exists>n v. mget (st_oauth s) (oauth_key p x) = Some n \<and> mget (st_users s) n = Some v \<and> u = view v)"
  by (auto simp: UserByOAuth_def split: option.splits)

lemma UserByOAuth_Err: "UserByOAuth s p x = Err err \<Longrightarrow> err = ErrNoUser"
  by (auto simp: UserByOAuth_def split: option.splits)

lemma LinkOAuth_fst: "fst (LinkOAuth s i p x m) = Ok ()"
  by (simp add: LinkOAuth_def split: option.split)

lemma LinkOAuth_users [simp]: "st_users (snd (LinkOAuth s i p x m)) = st_users s"
  by (simp add: LinkOAuth_def split: option.split)

lemma LinkOAuth_links:
  "parseID i = Some n \<Longrightarrow> mget (st_oauth (snd (LinkOAuth s i p x m))) (oauth_key p x) =
     (case mget (st_oauth s) (oauth_key p x) of None \<Rightarrow> Some n | Some k \<Rightarrow> Some k)"
  by (simp add: LinkOAuth_def split: option.split)

text \<open>The five ways a social identity is resolved.\<close>

lemma resolve_cases:
  assumes s: "cred_ok s"
  obtains
    (linked) n x where "mget (st_oauth s) (oauth_key p sub) = Some n" "mget (st_users s) n = Some x"
      "resolveSocialUser A now rid p sub email name s = (Ok (view x), s)"
  | (proven) k x where "UserByOAuth s p sub = Err ErrNoUser" "mget (st_users s) k = Some x" "u_email x = norm email" "u_emailVerified x"
      "resolveSocialUser A now rid p sub email name s = (Ok (view x), snd (LinkOAuth s (idStr k) p sub email))"
  | (upserted) k x u s1 where "UserByOAuth s p sub = Err ErrNoUser" "mget (st_users s) k = Some x" "u_email x = norm email"
      "\<not> u_emailVerified x" "a_dir A" "UpsertUserOnLogin now s (social_sub p sub) email name True = (Ok u, s1)"
      "resolveSocialUser A now rid p sub email name s = (Ok u, snd (LinkOAuth s1 (au_ID u) p sub email))"
  | (refused) k x where "UserByOAuth s p sub = Err ErrNoUser" "mget (st_users s) k = Some x" "u_email x = norm email" "\<not> u_emailVerified x"
      "resolveSocialUser A now rid p sub email name s = (Err ErrEmailConflict, s)"
  | (created) u s1 where "UserByOAuth s p sub = Err ErrNoUser" "findByEmail s email = None"
      "(Ok u, s1) = insert_user now (''local:'' @ rid) (norm email) name False s"
      "resolveSocialUser A now rid p sub email name s =
         (Ok u, snd (SetEmailVerified now (snd (LinkOAuth s1 (au_ID u) p sub email)) (au_ID u) True))"
proof (cases "UserByOAuth s p sub")
  case (Inr u)
  then obtain n x where "mget (st_oauth s) (oauth_key p sub) = Some n" "mget (st_users s) n = Some x" "u = view x"
    by (auto simp: UserByOAuth_Ok)
  with Inr show thesis by (intro linked) (simp_all add: resolveSocialUser_def)
next
  case (Inl err)
  then have none: "UserByOAuth s p sub = Err ErrNoUser" using UserByOAuth_Err by blast
  note u = cred_ok_users [OF s]
  show thesis
  proof (cases "findByEmail s email")
    case None
    obtain w s1 where i: "(Ok w, s1) = insert_user now (''local:'' @ rid) (norm email) name False s"
      by (simp add: insert_user_def Let_def)
    then have "CreateLocalUser now rid s email name = (Ok w, s1)" by (simp add: CreateLocalUser_def None)
    moreover obtain s2 where "LinkOAuth s1 (au_ID w) p sub email = (Ok (), s2)"
      using LinkOAuth_fst by (metis prod.collapse)
    ultimately show thesis
      using created [OF none None i] by (simp add: resolveSocialUser_def none UserByEmail_def None)
  next
    case (Some x)
    then obtain k where k: "mget (st_users s) k = Some x" "u_email x = norm email" "u_id x = k"
      using findByEmail_Some [OF u] users_ok_row [OF u] by metis
    have m: "UserByEmail s email = Ok (view x)" by (simp add: UserByEmail_def Some)
    have v: "au_EmailVerified (view x) = u_emailVerified x" "au_ID (view x) = idStr k" by (simp_all add: view_def k)
    show thesis
    proof (cases "u_emailVerified x")
      case True
      obtain s2 where "LinkOAuth s (idStr k) p sub email = (Ok (), s2)"
        using LinkOAuth_fst by (metis prod.collapse)
      with True show thesis
        by (intro proven [OF none k(1,2)]) (simp_all add: resolveSocialUser_def none m v)
    next
      case False
      obtain res s1 where up: "UpsertUserOnLogin now s (social_sub p sub) email name True = (res, s1)" by fastforce
      show thesis
      proof (cases "a_dir A \<and> (\<exists>u. res = Ok u)")
        case True
        then obtain w where "res = Ok w" by blast
        with False True up show thesis
          by (intro upserted [OF none k(1,2)]) (simp_all add: resolveSocialUser_def none m v UpsertExternalUser_def)
      next
        case no: False
        have "res = Err ErrEmailConflict \<and> s1 = s" if "a_dir A"
          using s no that up by (cases rule: upsert_cases [of s "social_sub p sub" email now name True])
            (auto simp: rebind_user_def insert_user_def Let_def)
        with False no up show thesis
          by (intro refused [OF none k(1,2)])
            (cases "a_dir A"; simp add: resolveSocialUser_def none m v UpsertExternalUser_def)+
      qed
    qed
  qed
qed


lemma in_mput: "x \<in> set (mput k v m) \<Longrightarrow> x = (k, v) \<or> x \<in> set m"
  unfolding mput_def by (induction m) (auto split: if_splits)

lemma linked_erased:
  assumes e: "erased k s" and m: "m \<noteq> k"
  shows "erased k (snd (LinkOAuth s (idStr m) p sub email))"
proof (cases "parseID (idStr m)")
  case None
  then show ?thesis using e by (simp add: LinkOAuth_def)
next
  case (Some n)
  then have "n = m" by (auto simp: parseID_def parse_uint_def idStr_def digits_val_format split: if_splits)
  moreover have "v \<noteq> k" if "v \<in> set (mvals (mput key m (st_oauth s)))" for key v
    using that e m by (auto simp: erased_def in_mvals dest!: in_mput)
  ultimately show ?thesis using e Some by (simp add: erased_def LinkOAuth_def split: option.split)
qed

text \<open>
  An unproven account that holds the address a provider proved is never signed in to: with a directory
  it is erased, with every credential, link, token and session of it, and the identity gets a fresh
  account without a password; without one the login is refused and nothing changes.
\<close>

theorem social_displaces_squatter:
  assumes s: "cred_ok s" and new: "UserByOAuth s p sub = Err ErrNoUser" and none: "findBySub s (social_sub p sub) = None"
    and x: "mget (st_users s) k = Some x" "u_email x = norm email" "\<not> u_emailVerified x" "\<not> has_prefix (u_sub x) ''bootstrap:''"
    and run: "resolveSocialUser A now rid p sub email name s = (res, s')"
  shows "if a_dir A then erased k s' \<and> (\<exists>u. res = Ok u \<and> au_ID u = idStr (Suc (st_seq s)) \<and> au_EmailVerified u \<and> au_Email u = norm email)
    else res = Err ErrEmailConflict \<and> s' = s"
proof -
  note us = cred_ok_users [OF s]
  have m: "findByEmail s email = Some x" using findByEmail_Some [OF us] x by blast
  have k: "u_id x = k" "k \<le> st_seq s" using users_ok_row [OF us x(1)] by auto
  have um: "UserByEmail s email = Ok (view x)" by (simp add: UserByEmail_def m)
  have v: "\<not> au_EmailVerified (view x)" using x by (simp add: view_def)
  have fe: "findByEmail s (norm email) = findByEmail s email" by (simp add: findByEmail_def)
  let ?s1 = "snd (insert_user now (social_sub p sub) (norm email) name True (deleteUserCascadeLocked s k))"
  let ?u = "view (new_user now (Suc (st_seq s)) (social_sub p sub) (norm email) name True)"
  have up: "UpsertUserOnLogin now s (social_sub p sub) email name True = (Ok ?u, ?s1)"
    using x by (simp add: UpsertUserOnLogin_def Let_def none fe m k insert_user_def deleteUserCascadeLocked_def)
  show ?thesis
  proof (cases "a_dir A")
    case True
    have "(res, s') = (Ok ?u, snd (LinkOAuth ?s1 (au_ID ?u) p sub email))"
      using run True v by (simp add: resolveSocialUser_def new um UpsertExternalUser_def up)
    moreover have "erased k (snd (LinkOAuth ?s1 (au_ID ?u) p sub email))"
    proof -
      have e1: "erased k ?s1"
        using cascade_erases [of k s] k by (simp add: erased_def insert_user_def Let_def)
      show ?thesis
        using linked_erased [OF e1, of "Suc (st_seq s)"] k by (simp add: view_def new_user_def)
    qed
    ultimately show ?thesis using True by (simp add: view_def new_user_def)
  next
    case False
    then show ?thesis using run v by (simp add: resolveSocialUser_def new um)
  qed
qed

text \<open>
  Signing in again with the same identity reaches the same account, whatever address and name the
  provider reports by then, and changes nothing: the account follows the provider's subject.
\<close>

lemma linked_after:
  assumes "mget (st_oauth s) (oauth_key p sub) = None" and "mget (st_users s) k = Some y" and "1 \<le> k" "k < 2 ^ 64"
  shows "UserByOAuth (snd (LinkOAuth s (idStr k) p sub email)) p sub = Ok (view y)"
  using assms by (simp add: UserByOAuth_def LinkOAuth_def)

lemma upsert_keeps_unlinked:
  assumes s: "cred_ok s" and none: "mget (st_oauth s) key = None"
  shows "mget (st_oauth (snd (UpsertUserOnLogin now s sub email name v))) key = None \<and>
    st_seq (snd (UpsertUserOnLogin now s sub email name v)) \<le> Suc (st_seq s)"
  using s
proof (cases rule: upsert_cases [of s sub email now name v])
  case (reclaim k u)
  then show ?thesis
    using none cred_ok_oauth [OF s]
    by (simp add: insert_user_def Let_def deleteUserCascadeLocked_def mget_mprune)
qed (use none in \<open>simp_all add: rebind_user_def insert_user_def Let_def\<close>)

theorem social_resolves_again:
  assumes s: "cred_ok s" and fits: "Suc (st_seq s) < 2 ^ 64"
    and live: "\<forall>n. mget (st_oauth s) (oauth_key p sub) = Some n \<longrightarrow> mget (st_users s) n \<noteq> None"
    and run: "resolveSocialUser A now rid p sub email name s = (Ok u, s')"
  shows "\<exists>v. au_ID v = au_ID u \<and> resolveSocialUser A now' rid' p sub email' name' s' = (Ok v, s')"
proof -
  have again: ?thesis if "UserByOAuth s' p sub = Ok v" "au_ID v = au_ID u" for v
    using that by (auto simp: resolveSocialUser_def)
  note us = cred_ok_users [OF s]
  have none: "mget (st_oauth s) (oauth_key p sub) = None" if "UserByOAuth s p sub = Err ErrNoUser"
    using that live by (auto simp: UserByOAuth_def split: option.splits)
  from s show ?thesis
  proof (cases rule: resolve_cases [of s p sub A now rid email name])
    case (linked n x)
    then show ?thesis using run by (intro again [of u]) (auto simp: UserByOAuth_Ok)
  next
    case (proven k x)
    then have "UserByOAuth s' p sub = Ok (view x)" "view x = u"
      using run fits users_ok_row [OF us proven(2)] linked_after [OF none [OF proven(1)] proven(2), of email] by auto
    then show ?thesis by (intro again [of u]) auto
  next
    case (upserted k x w s1)
    obtain j y where y: "mget (st_users s1) j = Some y" "w = view y"
      using upsert_row [OF s, of now "social_sub p sub" email name True w] upserted(6) by auto
    have "cred_ok s1" using UpsertUserOnLogin_ok [OF s, of now "social_sub p sub" email name True] upserted(6) by simp
    then have "u_id y = j" "1 \<le> j" "j \<le> st_seq s1" using users_ok_row [OF cred_ok_users y(1)] by auto
    moreover have "mget (st_oauth s1) (oauth_key p sub) = None" "st_seq s1 \<le> Suc (st_seq s)"
      using upsert_keeps_unlinked [OF s none [OF upserted(1)], of now "social_sub p sub" email name True] upserted(6) by auto
    ultimately have "UserByOAuth s' p sub = Ok (view y)"
      using run fits upserted(7) y linked_after [of s1 p sub j y email] by (simp add: view_def)
    then show ?thesis using run upserted(7) y by (intro again [of u]) auto
  next
    case (created w s1)
    let ?y = "new_user now (Suc (st_seq s)) (''local:'' @ rid) (norm email) name False"
    have c: "w = view ?y" "au_ID w = idStr (Suc (st_seq s))" "mget (st_users s1) (Suc (st_seq s)) = Some ?y"
        "mget (st_oauth s1) (oauth_key p sub) = None"
      using created(3) none [OF created(1)] by (auto simp: insert_user_def Let_def view_def new_user_def)
    let ?s2 = "snd (LinkOAuth s1 (au_ID w) p sub email)"
    have "UserByOAuth ?s2 p sub = Ok w" using linked_after [OF c(4,3), of email] fits c(1,2) by simp
    moreover have u: "u = w" "s' = snd (SetEmailVerified now ?s2 (au_ID w) True)" using run created(4) by auto
    moreover have "mget (st_oauth (snd (SetEmailVerified now s2 i True))) q = mget (st_oauth s2) q" for s2 i q
      by (simp add: SetEmailVerified_def split: option.split)
    moreover have "mget (st_users s') n \<noteq> None \<and> (mget (st_users s') n = Some z \<longrightarrow> u_id z = u_id v)"
      if "mget (st_users ?s2) n = Some v" for n v z
      using that u(2) by (auto simp: SetEmailVerified_def split: option.split)
    ultimately have "\<exists>v. UserByOAuth s' p sub = Ok v \<and> au_ID v = au_ID u"
      unfolding UserByOAuth_Ok by (metis option.exhaust view_def AuthUser.select_convs(1))
    then show ?thesis using again by blast
  qed (use run in simp)
qed

section \<open>What a provider must have proved\<close>

text \<open>The ID token the provider issued to this client for the login flow of this nonce.\<close>

definition id_token_of :: "social \<Rightarrow> time \<Rightarrow> string \<Rightarrow> string \<Rightarrow> social_token \<Rightarrow> string \<Rightarrow> social_idtoken \<Rightarrow> bool" where
  "id_token_of G now issuer clientID tok nonce idt \<longleftrightarrow>
     (\<exists>raw. st_IDToken tok = Some raw \<and> sl_verify (so_lib G) issuer clientID now raw = Some idt) \<and> vt_Nonce idt = nonce \<and>
     verifyAZP (vt_Audience idt) (claim_string (vt_Claims idt) ''azp'') clientID"

lemma addProvider_new:
  "mget (so_oidc (addProvider A sp G)) n = Some q \<Longrightarrow> mget (so_oidc G) n = Some q \<or>
     to_lower (trim_space (pr_Name sp)) = n \<and> ip_assumeVerified q = pr_AssumeVerified sp \<and> ip_clientID q = pr_ClientID sp \<and>
     ip_issuer q = trim_slashes (pr_Issuer sp)"
  by (auto simp: addProvider_def Let_def split: if_splits)

lemma addProvider_lib: "so_lib (addProvider A sp G) = so_lib G"
  by (simp add: addProvider_def Let_def)

lemma added_providers:
  "mget (so_oidc (fold (addProvider A) ps G)) n = Some q \<Longrightarrow> mget (so_oidc G) n = Some q \<or>
     (\<exists>sp \<in> set ps. to_lower (trim_space (pr_Name sp)) = n \<and> ip_assumeVerified q = pr_AssumeVerified sp \<and>
        ip_clientID q = pr_ClientID sp \<and> ip_issuer q = trim_slashes (pr_Issuer sp))"
proof (induction ps arbitrary: G)
  case (Cons sp ps)
  from Cons.IH [of "addProvider A sp G"] Cons.prems addProvider_new [of A sp G n q] show ?case by auto
qed simp

lemma enabled_providers:
  assumes "mget (so_oidc (enableSocial A c lib)) n = Some q"
  shows "\<exists>sp \<in> set (cf_SocialOIDC c) \<union> {microsoftPreset c}. to_lower (trim_space (pr_Name sp)) = n \<and>
    ip_assumeVerified q = pr_AssumeVerified sp \<and> ip_clientID q = pr_ClientID sp \<and> ip_issuer q = trim_slashes (pr_Issuer sp)"
proof -
  have none: "so_oidc (enableDiscord A (enableApple A G)) = so_oidc G" "so_cfg (enableDiscord A (enableApple A G)) = so_cfg G" for G
    by (auto simp: enableDiscord_def enableApple_def Let_def split: option.split)
  have "\<exists>ps G. enableSocial A c lib = fold (addProvider A) ps G \<and> so_oidc G = [] \<and>
      set ps \<subseteq> set (cf_SocialOIDC c) \<union> {microsoftPreset c}"
    unfolding enableSocial_def enableOIDCSocial_def Let_def none social.select_convs
    by ((intro exI conjI, rule refl), simp_all add: none, blast)
  then obtain ps G where f: "enableSocial A c lib = fold (addProvider A) ps G" "so_oidc G = []"
      "set ps \<subseteq> set (cf_SocialOIDC c) \<union> {microsoftPreset c}" by blast
  from assms have "mget (so_oidc (fold (addProvider A) ps G)) n = Some q" by (simp add: f)
  from added_providers [OF this] f(2,3) show ?thesis by auto
qed

lemma oidcSocialIdentity_proven:
  assumes "oidcSocialIdentity G now q tok nonce = Inr (subject, email, name)" and "\<not> ip_assumeVerified q"
  shows "\<exists>idt. id_token_of G now (ip_issuer q) (ip_clientID q) tok nonce idt \<and> subject = vt_Subject idt \<and>
    email = claim_string (vt_Claims idt) ''email'' \<and> email \<noteq> [] \<and> claim_bool_ptr (vt_Claims idt) ''email_verified'' = Some True"
  using assms by (auto simp: oidcSocialIdentity_def social_refused_def id_token_of_def Let_def split: option.splits if_splits)

text \<open>
  A Microsoft endpoint that serves every tenant never vouches for an address by keeping silent about
  it: unless the operator configured another provider under that name, an identity is accepted only
  from an ID token of this login, issued by Microsoft to this client, that states the address to be
  verified. A tenant's administrator can put any address on an account, so silence proves nothing.
\<close>

theorem microsoft_address_confirmed:
  assumes "isMultiTenantMicrosoft (cf_MicrosoftTenant c)"
    and "\<forall>sp \<in> set (cf_SocialOIDC c). to_lower (trim_space (pr_Name sp)) \<noteq> ''microsoft''"
    and "socialIdentity (enableSocial A c lib) now ''microsoft'' oc tok nonce user = Inr (subject, email, name)"
  shows "\<exists>idt. id_token_of (enableSocial A c lib) now (trim_slashes (pr_Issuer (microsoftPreset c))) (cf_MicrosoftClientID c) tok nonce idt \<and>
    subject = vt_Subject idt \<and> email = claim_string (vt_Claims idt) ''email'' \<and> email \<noteq> [] \<and>
    claim_bool_ptr (vt_Claims idt) ''email_verified'' = Some True"
proof -
  let ?G = "enableSocial A c lib"
  obtain q where q: "mget (so_oidc ?G) ''microsoft'' = Some q" "oidcSocialIdentity ?G now q tok nonce = Inr (subject, email, name)"
    using assms(3) by (auto simp: socialIdentity_def split: option.splits)
  have mt: "isMultiTenantMicrosoft (if cf_MicrosoftTenant c = [] then ''common'' else cf_MicrosoftTenant c)"
  proof (cases "cf_MicrosoftTenant c = []")
    case True
    have "isMultiTenantMicrosoft ''common''" by code_simp
    with True show ?thesis by simp
  qed (use assms(1) in simp)
  have "ip_assumeVerified q = pr_AssumeVerified (microsoftPreset c) \<and> ip_clientID q = pr_ClientID (microsoftPreset c) \<and>
      ip_issuer q = trim_slashes (pr_Issuer (microsoftPreset c))"
    using enabled_providers [OF q(1)] assms(2) by blast
  moreover have "\<not> pr_AssumeVerified (microsoftPreset c)" "pr_ClientID (microsoftPreset c) = cf_MicrosoftClientID c"
    using mt by (simp_all add: microsoftPreset_def Let_def)
  ultimately show ?thesis
    using oidcSocialIdentity_proven [OF q(2)] by simp
qed

section \<open>The session of a social login\<close>

definition by_social :: "authn \<Rightarrow> social \<Rightarrow> request \<Rightarrow> env \<Rightarrow> env \<Rightarrow> setcookie \<Rightarrow> bool" where
  "by_social A G r e e' c \<longleftrightarrow> (let provider = attr (rq_params r) ''provider'' in
     \<exists>fc oc xc tok subject email name rid u s.
       socialOAuth G provider = Some oc \<and> parseFlowMulti (a_lib A) (e_now e) (secrets A) (cookieValue r flowCookie) = Some fc \<and>
       formValue r ''state'' = fc_State fc \<and> exchangeConfig G (e_now e) provider oc = Some xc \<and>
       sl_exchange (so_lib G) xc (formValue r ''code'') (fc_Verifier fc) = Some tok \<and>
       socialIdentity G (e_now e) provider oc tok (fc_Nonce fc) (formValue r ''user'') = Inr (subject, email, name) \<and>
       resolveSocialUser A (e_now e) rid provider subject email name (e_store e) = (Ok u, s) \<and> signs_in A e e' c u)"

lemma socialSignIn_cookie:
  assumes "sess_cookies e = []" and "c \<in> set (sess_cookies (snd (socialSignIn A r fc provider (subject, email, name) e)))"
  shows "\<exists>rid u s. resolveSocialUser A (e_now e) rid provider subject email name (e_store e) = (Ok u, s) \<and>
    signs_in A e (snd (socialSignIn A r fc provider (subject, email, name) e)) c u"
proof -
  let ?p = "socialSignIn A r fc provider (subject, email, name) e"
  obtain rid e1 where f: "freshToken A e = (rid, e1)" by fastforce
  then have e1: "sess_cookies e1 = []" "e_now e1 = e_now e" "e_store e1 = e_store e"
    using assms(1) by (auto simp: freshToken_def sess_cookies_def)
  obtain res e2 where o: "op (resolveSocialUser A (e_now e1) rid provider subject email name) e1 = (res, e2)" by fastforce
  then have e2: "sess_cookies e2 = []" "e_now e2 = e_now e" "(res, e_store e2) = resolveSocialUser A (e_now e) rid provider subject email name (e_store e)"
    using e1 by (auto simp: op_def sess_cookies_def split: prod.splits)
  show ?thesis
  proof (cases res)
    case (Inl err)
    then have "snd ?p = e2" by (simp add: socialSignIn_def f o)
    with assms(2) e2 show ?thesis by simp
  next
    case (Inr u)
    have nb: "\<not> fst (loginBlocked (e_now e) (Some u))"
      using assms(2) e2 unfolding socialSignIn_def f prod.case o Inr sum.case by (auto split: if_splits)
    let ?e = "doAudit (au_ID u) (au_Email u) True e2"
    let ?i = "\<lparr>id_Subject = au_Sub u, id_Email = au_Email u, id_Name = au_Name u, id_EmailVerified = True, id_Groups = []\<rparr>"
    have env: "snd ?p = snd (completeLogin A r ?i False [] ?e)"
      unfolding socialSignIn_def f prod.case o Inr sum.case e2(2) using nb by (simp add: split_beta split: sum.split)
    have "sess_cookies ?e = []" "e_now ?e = e_now e" using e2 by simp_all
    from completeLogin_cookie [OF this(1), of c A r ?i False "[]"] assms(2) env this(2) nb
    have "signs_in A e (snd ?p) c u" unfolding signs_in_def holds_def by auto
    then show ?thesis using e2(3) Inr by metis
  qed
qed

text \<open>
  A session of a social login is earned: it answers the login flow this browser began (the signed
  flow cookie and its state), the provider named in the path exchanged the code for the flow's
  verifier and proved the identity for the flow's nonce, the identity resolves to the account, and the
  account passed the gates of every other login: it is not disabled or banned and has no second factor.
\<close>

theorem social_session_is_earned:
  assumes "sess_cookies e = []" and "c \<in> set (sess_cookies (snd (SocialCallback A G r e)))"
  shows "by_social A G r e (snd (SocialCallback A G r e)) c"
proof -
  let ?e = "clearCookie flowCookie e" and ?provider = "attr (rq_params r) ''provider''"
  have e: "sess_cookies ?e = []" "e_now ?e = e_now e" "e_store ?e = e_store e" using assms(1) by simp_all
  obtain oc where oc: "socialOAuth G ?provider = Some oc"
    using assms by (auto simp: SocialCallback_def Let_def split: option.splits)
  obtain fc where fc: "a_creds A" "parseFlowMulti (a_lib A) (e_now e) (secrets A) (cookieValue r flowCookie) = Some fc"
    using assms by (auto simp: SocialCallback_def Let_def split: option.splits if_splits)
  have st: "formValue r ''error'' = []" "formValue r ''state'' = fc_State fc"
    using assms e by (auto simp: SocialCallback_def Let_def oc fc split: if_splits)
  obtain xc where xc: "exchangeConfig G (e_now e) ?provider oc = Some xc"
    using assms e by (auto simp: SocialCallback_def Let_def oc fc st split: option.splits)
  obtain tok where tok: "sl_exchange (so_lib G) xc (formValue r ''code'') (fc_Verifier fc) = Some tok"
    using assms e by (auto simp: SocialCallback_def Let_def oc fc st xc split: option.splits)
  obtain subject email name where i:
    "socialIdentity G (e_now e) ?provider oc tok (fc_Nonce fc) (formValue r ''user'') = Inr (subject, email, name)"
    using assms e by (auto simp: SocialCallback_def Let_def oc fc st xc tok split: sum.splits)
  have env: "SocialCallback A G r e = socialSignIn A r fc ?provider (subject, email, name) ?e"
    by (simp add: SocialCallback_def Let_def oc fc st xc tok i e)
  then obtain rid u s where "resolveSocialUser A (e_now e) rid ?provider subject email name (e_store e) = (Ok u, s)"
      "signs_in A ?e (snd (SocialCallback A G r e)) c u"
    using socialSignIn_cookie [OF e(1), of c A r fc ?provider subject email name] assms(2) e by auto
  then show ?thesis
    using oc fc st xc tok i unfolding by_social_def Let_def signs_in_def holds_def e by blast
qed

section \<open>The stores under social logins\<close>

context env_effects
begin

lemma keeps_ops:
  assumes "steps_to\<^sup>*\<^sup>* (e_store e) (snd (f (e_store e)))" and "P e"
  shows "keeps (op f e)"
proof -
  have "P (e\<lparr>e_store := s\<rparr>)" if "steps_to\<^sup>*\<^sup>* (e_store e) s" for s
    using that
  proof (induction rule: rtranclp_induct)
    case base
    have "quiet e (e\<lparr>e_store := e_store e\<rparr>)" by (simp add: quiet_def sess_cookies_def)
    then show ?case by (rule same [OF assms(2)])
  next
    case (step s s')
    then show ?case by (intro env_effects.step [OF env_effects_axioms step.IH]) (simp_all add: sess_cookies_def)
  qed
  from this [OF assms(1)] show ?thesis by (simp add: keeps_def op_def split_beta)
qed

lemma keeps_SocialLogin: "P e \<Longrightarrow> keeps (SocialLogin A G r e)"
  unfolding SocialLogin_def by (intro keeps_rules)

end

lemma resolve_steps:
  assumes "findBySub s (''local:'' @ rid) = None"
  shows "steps_to\<^sup>*\<^sup>* s (snd (resolveSocialUser A now rid p sub email name s))"
proof -
  have link: "steps_to s (snd (LinkOAuth s i p sub email))" for s i
    by (rule steps_to_parts(1), rule cred_step.LinkOAuth)
  have linked: "steps_to\<^sup>*\<^sup>* s s' \<Longrightarrow> steps_to\<^sup>*\<^sup>* s (snd (LinkOAuth s' i p sub email))" for s s' i
    using link by (metis rtranclp.rtrancl_into_rtrancl)
  have ok: "LinkOAuth s' i p sub email = (x, y) \<Longrightarrow> x = Ok () \<and> y = snd (LinkOAuth s' i p sub email)" for s' i x y
    by (metis LinkOAuth_fst fst_conv snd_conv)
  have up: "steps_to s (snd (UpsertExternalUser now s (social_sub p sub) email name True))"
    unfolding UpsertExternalUser_def by (rule steps_to_parts(1), rule cred_step.UpsertUserOnLogin)
  have cr: "steps_to s (snd (CreateLocalUser now rid s email name))" using assms by (rule cred_calls)
  have ver: "steps_to\<^sup>*\<^sup>* s s' \<Longrightarrow> steps_to\<^sup>*\<^sup>* s (snd (SetEmailVerified now s' i True))" for s s' i
    using cred_calls(2) by (metis rtranclp.rtrancl_into_rtrancl)
  show ?thesis
    unfolding resolveSocialUser_def
    using link up cr by (auto split: sum.split prod.split simp: split_beta intro!: linked ver dest!: ok)
qed

context env_invariant
begin

lemma keeps_socialSignIn:
  assumes "store_authorizer A" and "P e" and "fresh_subject A e"
  shows "keeps (socialSignIn A r fc provider (subject, email, name) e)"
proof -
  obtain rid e1 where f: "freshToken A e = (rid, e1)" by fastforce
  then have e1: "findBySub (e_store e1) (''local:'' @ rid) = None"
    using assms(3) by (auto simp: freshToken_def fresh_subject_def)
  have P1: "P e1" using keeps_effects(1) [OF assms(2), of A] f by (simp add: keeps_def)
  note o = keeps_ops [where f = "resolveSocialUser A (e_now e1) rid provider subject email name" and e = e1, OF resolve_steps [OF e1] P1]
  show ?thesis
    unfolding socialSignIn_def f prod.case
    by (intro keeps_bind [OF o] keeps_rules keeps_login assms)
qed

lemma keeps_SocialCallback:
  assumes "store_authorizer A" and "P e" and "fresh_subject A e"
  shows "keeps (SocialCallback A G r e)"
proof -
  have i: "keeps (socialSignIn A r fc provider i (clearCookie n e))" for fc provider i n
    using keeps_socialSignIn [OF assms(1) P_effects(3) [OF assms(2)], of n r fc provider] assms(3)
    by (cases i) (simp add: fresh_subject_def)
  note P = P_effects(3) [OF assms(2)]
  show ?thesis
    unfolding SocialCallback_def Let_def
    using assms(2) P i by (auto split: option.split sum.split intro!: keeps_ret)
qed

end

text \<open>
  The social handlers keep the stores well formed, and change them only by a history of the stores'
  own methods, so the laws of those histories hold of social logins as of every other request.
\<close>

theorem social_keeps_stores:
  assumes "store_authorizer A" and "store_ok (e_store e)" and "fresh_subject A e"
  shows "store_ok (e_store (snd (SocialCallback A G r e))) \<and> (\<exists>evs. mem_trace (e_store e) evs (e_store (snd (SocialCallback A G r e))))"
proof
  show "store_ok (e_store (snd (SocialCallback A G r e)))"
    using stores.keeps_SocialCallback [OF assms] by (simp add: stores.keeps_def)
  have "\<exists>evs. mem_trace (e_store e) evs (e_store e)" by (blast intro: mem_trace.start)
  from history.keeps_SocialCallback [OF assms(1) this assms(3)]
  show "\<exists>evs. mem_trace (e_store e) evs (e_store (snd (SocialCallback A G r e)))" by (simp add: history.keeps_def)
qed

section \<open>A provider to try the laws on\<close>

text \<open>Microsoft for every tenant, whose ID token states the address of the demonstration's account as verified.\<close>

definition demo_idtoken :: social_idtoken where
  "demo_idtoken = \<lparr>vt_Subject = ''m1'', vt_Nonce = ''n'', vt_Audience = [''cid''],
     vt_Claims = VObj [(''email'', VStr ''a@x.y''), (''email_verified'', VBool True)]\<rparr>"

definition demo_social_config :: social_config where
  "demo_social_config = \<lparr>cf_GoogleClientID = [], cf_GoogleClientSecret = [], cf_GitHubClientID = [], cf_GitHubClientSecret = [],
     cf_FacebookClientID = [], cf_FacebookClientSecret = [], cf_AppleClientID = [], cf_AppleTeamID = [], cf_AppleKeyID = [],
     cf_ApplePrivateKey = [], cf_MicrosoftClientID = ''cid'', cf_MicrosoftClientSecret = ''sec'', cf_MicrosoftTenant = [],
     cf_MicrosoftStrictEmailVerified = False, cf_DiscordClientID = [], cf_DiscordClientSecret = [], cf_SocialOIDC = []\<rparr>"

definition demo_social_lib :: social_lib where
  "demo_social_lib = \<lparr>sl_discover = (\<lambda>i. True), sl_parseKey = (\<lambda>k. None), sl_signSecret = (\<lambda>a b c d t. None),
     sl_authURL = (\<lambda>oc st ve no fp. st), sl_exchange = (\<lambda>oc code ve. Some \<lparr>st_AccessToken = ''at'', st_IDToken = Some ''raw''\<rparr>),
     sl_verify = (\<lambda>i cid t raw. if i = ''https://login.microsoftonline.com/common/v2.0'' then Some demo_idtoken else None),
     sl_get = (\<lambda>a u t. None), sl_hmac = (\<lambda>k m. m), sl_parse = (\<lambda>s. None)\<rparr>"

definition demo_social :: social where
  "demo_social = enableSocial demo_oidc demo_social_config demo_social_lib"

abbreviation demo_oc :: oauth_config where
  "demo_oc \<equiv> \<lparr>oc_ClientID = ''cid'', oc_ClientSecret = ''sec'', oc_Endpoint = ''https://login.microsoftonline.com/common/v2.0'',
     oc_RedirectURL = socialRedirect demo_oidc ''microsoft'', oc_Scopes = [''openid'', ''email'', ''profile'']\<rparr>"

definition demo_social_request :: "string \<Rightarrow> request" where
  "demo_social_request tk = (demo_callback tk)\<lparr>rq_params := [(''provider'', ''microsoft'')]\<rparr>"

abbreviation demo_social_tok :: social_token where
  "demo_social_tok \<equiv> \<lparr>st_AccessToken = ''at'', st_IDToken = Some ''raw''\<rparr>"

lemma demo_social:
  "socialOAuth demo_social ''microsoft'' = Some demo_oc" "so_lib demo_social = demo_social_lib"
  "socialIdentity demo_social now ''microsoft'' demo_oc demo_social_tok ''n'' [] = Inr (''m1'', ''a@x.y'', [])"
proof -
  show "socialOAuth demo_social ''microsoft'' = Some demo_oc" by code_simp
  have "so_lib (fold (addProvider A) ps G) = so_lib G" for A ps G
    by (induction ps arbitrary: G) (simp_all add: addProvider_lib)
  moreover have "so_lib (enableDiscord A G) = so_lib G" "so_lib (enableApple A G) = so_lib G" for A G
    by (auto simp: enableDiscord_def enableApple_def Let_def split: option.split)
  ultimately show "so_lib demo_social = demo_social_lib"
    by (simp only: demo_social_def enableSocial_def enableOIDCSocial_def Let_def social.select_convs)
qed code_simp

lemma demo_resolves:
  "UserByOAuth demo_login_store ''microsoft'' ''m1'' = Err ErrNoUser"
  "resolveSocialUser demo_oidc now rid ''microsoft'' ''m1'' ''a@x.y'' name demo_login_store =
     (Ok demo_login_user, snd (LinkOAuth demo_login_store ''1'' ''microsoft'' ''m1'' ''a@x.y''))"
proof -
  show o: "UserByOAuth demo_login_store ''microsoft'' ''m1'' = Err ErrNoUser" by code_simp
  have m: "UserByEmail demo_login_store ''a@x.y'' = Ok demo_login_user" by code_simp
  have f: "LinkOAuth demo_login_store ''1'' ''microsoft'' ''m1'' ''a@x.y'' =
      (Ok (), snd (LinkOAuth demo_login_store ''1'' ''microsoft'' ''m1'' ''a@x.y''))"
    by (rule prod_eqI) (simp_all only: LinkOAuth_fst fst_conv snd_conv)
  have u: "au_EmailVerified demo_login_user" "au_ID demo_login_user = ''1''" by (simp_all add: demo_login_user_def)
  show "resolveSocialUser demo_oidc now rid ''microsoft'' ''m1'' ''a@x.y'' name demo_login_store =
     (Ok demo_login_user, snd (LinkOAuth demo_login_store ''1'' ''microsoft'' ''m1'' ''a@x.y''))"
    unfolding resolveSocialUser_def o m sum.case u(2) by (subst f) (simp add: u)
qed

lemma demo_oidc_creds: "a_creds demo_oidc"
  by (simp add: demo_oidc_def demo_authn_def)

lemma demo_store_ok: "cred_ok demo_login_store" "store_ok demo_login_store"
proof -
  show "store_ok demo_login_store" unfolding demo_login_store_def
    by (intro store_ok_steps cred_step_ok [OF cred_step.SetEmailVerified]) simp_all
  then show "cred_ok demo_login_store" by (rule store_ok_cred)
qed

lemma demo_row: "mget (st_users demo_login_store) 1 = Some
    ((new_user 3 1 ''local:r'' ''a@x.y'' ''A'' False)\<lparr>u_emailVerified := True, u_updatedAt := 4\<rparr>)"
  by code_simp


theorem social_resolves_again_witness:
  "\<exists>v. au_ID v = ''1'' \<and>
     fst (resolveSocialUser demo_oidc 9 ''r9'' ''microsoft'' ''m1'' ''new@x.y'' ''B''
       (snd (LinkOAuth demo_login_store ''1'' ''microsoft'' ''m1'' ''a@x.y''))) = Ok v"
proof -
  have n: "st_seq demo_login_store = 1" "mget (st_oauth demo_login_store) (oauth_key ''microsoft'' ''m1'') = None" by code_simp+
  then have "Suc (st_seq demo_login_store) < 2 ^ 64"
    "\<forall>n. mget (st_oauth demo_login_store) (oauth_key ''microsoft'' ''m1'') = Some n \<longrightarrow> mget (st_users demo_login_store) n \<noteq> None"
    by simp_all
  from social_resolves_again [OF demo_store_ok(1) this demo_resolves(2), of 9 "''r9''" "''new@x.y''" "''B''"]
  show ?thesis by (auto simp: demo_login_user_def)
qed

theorem social_displaces_squatter_witness:
  "erased 1 (snd (resolveSocialUser demo_oidc 9 ''r9'' ''microsoft'' ''m1'' ''A@x'' ''B'' (snd (CreateLocalUser 3 ''r'' New ''a@x'' ''A''))))"
proof -
  let ?s = "snd (CreateLocalUser 3 ''r'' New ''a@x'' ''A'')"
  let ?x = "new_user 3 1 ''local:r'' ''a@x'' ''A'' False"
  have s: "cred_ok ?s" by (rule CreateLocalUser_ok) simp_all
  have x: "mget (st_users ?s) 1 = Some ?x" "UserByOAuth ?s ''microsoft'' ''m1'' = Err ErrNoUser"
    "findBySub ?s (social_sub ''microsoft'' ''m1'') = None" by code_simp+
  have y: "u_email ?x = norm ''A@x''" "\<not> u_emailVerified ?x" "\<not> has_prefix (u_sub ?x) ''bootstrap:''" "a_dir demo_oidc"
    by code_simp+
  show ?thesis
    using social_displaces_squatter [OF s x(2,3,1) y(1-3) surjective_pairing, of demo_oidc 9 "''r9''" "''B''"] y(4) by simp
qed

theorem microsoft_address_confirmed_witness:
  "\<exists>idt. id_token_of demo_social 5 ''https://login.microsoftonline.com/common/v2.0'' ''cid'' demo_social_tok ''n'' idt \<and>
     vt_Subject idt = ''m1'' \<and> claim_bool_ptr (vt_Claims idt) ''email_verified'' = Some True"
proof -
  have a: "isMultiTenantMicrosoft (cf_MicrosoftTenant demo_social_config)" "cf_SocialOIDC demo_social_config = []"
    "trim_slashes (pr_Issuer (microsoftPreset demo_social_config)) = ''https://login.microsoftonline.com/common/v2.0''"
    "cf_MicrosoftClientID demo_social_config = ''cid''" by code_simp+
  have b: "\<forall>sp \<in> set (cf_SocialOIDC demo_social_config). to_lower (trim_space (pr_Name sp)) \<noteq> ''microsoft''" by (simp add: a)
  show ?thesis
    using microsoft_address_confirmed [OF a(1) b demo_social(3) [of 5, unfolded demo_social_def]] a unfolding demo_social_def by auto
qed

text \<open>With every part in order, the callback does open a session.\<close>

lemma social_opens:
  assumes A: "minSessionSecret \<le> length (a_SessionSecret A)" "a_authorizer A = None" "a_creds A"
    and f: "parseFlowMulti (a_lib A) (e_now e) (secrets A) (cookieValue r flowCookie) = Some fc"
      "formValue r ''error'' = []" "formValue r ''state'' = fc_State fc"
    and p: "socialOAuth G (attr (rq_params r) ''provider'') = Some oc"
      "exchangeConfig G (e_now e) (attr (rq_params r) ''provider'') oc = Some xc"
      "sl_exchange (so_lib G) xc (formValue r ''code'') (fc_Verifier fc) = Some tok"
      "socialIdentity G (e_now e) (attr (rq_params r) ''provider'') oc tok (fc_Nonce fc) (formValue r ''user'') = Inr (subject, email, name)"
    and u: "\<And>rid. resolveSocialUser A (e_now e) rid (attr (rq_params r) ''provider'') subject email name (e_store e) = (Ok u, s)"
      "\<not> fst (loginBlocked (e_now e) (Some u))" "no_second_factor A (au_Sub u) (e\<lparr>e_store := s\<rparr>)"
  shows "sess_cookies (snd (SocialCallback A G r e)) \<noteq> []"
proof -
  let ?e = "clearCookie flowCookie e" and ?provider = "attr (rq_params r) ''provider''"
  obtain rid e1 where fr: "freshToken A ?e = (rid, e1)" by fastforce
  then have e1: "e_now e1 = e_now e" "e_store e1 = e_store e" by (auto simp: freshToken_def)
  obtain e2 where o: "op (resolveSocialUser A (e_now e1) rid ?provider subject email name) e1 = (Ok u, e2)" "e_store e2 = s" "e_now e2 = e_now e"
    using u(1) by (simp add: op_def e1)
  let ?e = "doAudit (au_ID u) (au_Email u) True e2"
  let ?i = "\<lparr>id_Subject = au_Sub u, id_Email = au_Email u, id_Name = au_Name u, id_EmailVerified = True, id_Groups = []\<rparr>"
  have same: "st_users (e_store ?e) = st_users s" "st_totp (e_store ?e) = st_totp s" "e_store (e\<lparr>e_store := s\<rparr>) = s"
    by (simp_all add: o RecordAudit_def)
  have "no_second_factor A (au_Sub u) ?e"
    using u(3) unfolding no_second_factor_def storedUser_def userHasTOTP_def UserBySub_def findBySub_def TOTP_def same .
  moreover have z: "0 \<le> loginTTL False" by (simp add: loginTTL_def sessionTTL_def hour_def minute_def second_ns_def)
  have "sess_cookies (snd (openSession A r b i j (loginTTL False) e0)) \<noteq> []" for b i j e0
    using opens [OF A(1) z, of r b i j e0] by auto
  ultimately have "sess_cookies (snd (completeLogin A r ?i False [] ?e)) \<noteq> []"
    by (cases "storedUser A (au_Sub u) ?e")
      (simp_all add: completeLogin_def authorizeLogin_def A(2) no_second_factor_def Let_def split_beta split: sum.split)
  moreover have "SocialCallback A G r e = socialSignIn A r fc ?provider (subject, email, name) (clearCookie flowCookie e)"
    by (simp add: SocialCallback_def Let_def A(3) f p)
  moreover have "snd (socialSignIn A r fc ?provider (subject, email, name) (clearCookie flowCookie e)) = snd (completeLogin A r ?i False [] ?e)"
    unfolding socialSignIn_def fr prod.case o(1) sum.case o(3) using u(2) by (simp add: split_beta split: sum.split)
  ultimately show ?thesis by simp
qed

theorem social_session_is_earned_witness:
  "\<exists>tk c. let e = demo_env demo_login_store; r = demo_social_request tk; e' = snd (SocialCallback demo_oidc demo_social r e) in
     c \<in> set (sess_cookies e') \<and> by_social demo_oidc demo_social r e e' c"
proof -
  obtain tk where tk: "mintFlow demo_lib demo_secret demo_flow 1000 = Some tk"
    by (simp add: mintFlow_def signJWT_def not_less)
  let ?e = "demo_env demo_login_store" and ?r = "demo_social_request tk"
  have now: "e_now ?e = 1000" "e_store ?e = demo_login_store" "sess_cookies ?e = []" by (simp_all add: demo_env_def sess_cookies_def)
  have "1000 < numeric_date (1000 + flowTTL)"
    by (rule numeric_date_later) (simp add: second_ns_def flowTTL_def minute_def)
  then have f: "parseFlowMulti (a_lib demo_oidc) (e_now ?e) (secrets demo_oidc) (cookieValue ?r flowCookie) = Some demo_flow"
    using own_flow [of demo_oidc demo_flow 1000 tk 1000] tk
    by (simp add: now demo_social_request_def demo_callback_def demo_request_def cookieValue_def attr_def)
  have q: "attr (rq_params ?r) ''provider'' = ''microsoft''" "formValue ?r ''error'' = []" "formValue ?r ''state'' = ''s''"
    "formValue ?r ''user'' = []" "formValue ?r ''code'' = ''c''"
    by (simp_all add: demo_social_request_def demo_callback_def demo_request_def attr_def formValue_def)
  have x: "exchangeConfig demo_social 1000 ''microsoft'' demo_oc = Some demo_oc" by (simp add: exchangeConfig_def)
  have t: "sl_exchange (so_lib demo_social) demo_oc cd v = Some demo_social_tok" for cd v
    by (simp add: demo_social(2) demo_social_lib_def)
  have "no_second_factor demo_oidc (au_Sub demo_login_user) (?e\<lparr>e_store := s\<rparr>)"
    if "st_users s = st_users demo_login_store" "st_totp s = []" for s
    using that by (auto simp: no_second_factor_def userHasTOTP_def TOTP_def split: option.splits sum.splits)
  moreover have "st_totp (snd (LinkOAuth demo_login_store i p sub m)) = []" for i p sub m
  proof -
    have "st_totp demo_login_store = []" by code_simp
    then show ?thesis by (simp add: LinkOAuth_def split: option.split)
  qed
  ultimately have "sess_cookies (snd (SocialCallback demo_oidc demo_social ?r ?e)) \<noteq> []"
    using social_opens [of demo_oidc ?e ?r demo_flow demo_social demo_oc demo_oc demo_social_tok "''m1''" "''a@x.y''" "[]"
        demo_login_user "snd (LinkOAuth demo_login_store ''1'' ''microsoft'' ''m1'' ''a@x.y'')"] f q x t demo_social(1,3) demo_resolves(2)
    by (simp add: now demo_login_steps demo_oidc_creds)
  then obtain c where "c \<in> set (sess_cookies (snd (SocialCallback demo_oidc demo_social ?r ?e)))"
    using list.set_intros(1) by (metis neq_Nil_conv)
  with social_session_is_earned [OF now(3) this] show ?thesis
    by (intro exI [of _ tk] exI [of _ c]) (simp add: Let_def)
qed

theorem social_keeps_stores_witness:
  "store_ok (e_store (snd (SocialCallback demo_oidc demo_social (demo_social_request ''t'') (demo_env New))))"
proof -
  have "store_authorizer demo_oidc" by (simp add: store_authorizer_def)
  moreover have "fresh_subject demo_oidc (demo_env New)"
    by (simp add: fresh_subject_def demo_env_def New_def findBySub_def mfind_def)
  moreover have "store_ok (e_store (demo_env New))" by (simp add: demo_env_def)
  ultimately show ?thesis using social_keeps_stores by blast
qed

end
