(* ===== verification/Passkeys.thy ===== *)
theory Passkeys
  imports LoginFlows SessionFlows
begin

text \<open>
  Passkeys: enrolment, discoverable sign-in (\<open>webauthn.go\<close>) and the passkey as a second factor
  (\<open>twofactor_webauthn.go\<close>). The ceremonies themselves are the WebAuthn library's (\<open>passkey_lib\<close>): the
  options it offers the browser, the session data it needs to finish (carried as the JSON text it is
  marshalled to), and the checks of an attestation or an assertion, the body of the request.
\<close>

record credential =
  cr_ID :: bytes
  cr_PublicKey :: bytes
  cr_AttestationType :: string
  cr_Transport :: "string list"
  cr_BackupEligible :: bool
  cr_BackupState :: bool
  cr_AAGUID :: bytes
  cr_SignCount :: "32 word"
  cr_CloneWarning :: bool

record wauthnUser =
  wu_handle :: bytes
  wu_email :: string
  wu_name :: string
  wu_creds :: "credential list"

definition WebAuthnDisplayName :: "wauthnUser \<Rightarrow> string" where
  "WebAuthnDisplayName u = (if wu_name u \<noteq> [] then wu_name u else wu_email u)"

text \<open>
  \<open>pl_assertion\<close> reads the credential ID and the user handle from an assertion that answers a
  discoverable login, \<open>pl_finishLogin\<close> validates the assertion for a user. \<open>pl_new\<close> is the constructor of
  the relying party for an ID, a display name and an origin, \<open>pl_hostname\<close> the host of a URL.
\<close>

record passkey_lib =
  pl_hostname :: "string \<Rightarrow> string option"
  pl_new :: "string \<Rightarrow> string \<Rightarrow> string \<Rightarrow> bool"
  pl_beginRegistration :: "nat \<Rightarrow> wauthnUser \<Rightarrow> bytes list \<Rightarrow> (string \<times> bytes) option"
  pl_finishRegistration :: "time \<Rightarrow> wauthnUser \<Rightarrow> bytes \<Rightarrow> string \<Rightarrow> credential option"
  pl_beginDiscoverable :: "nat \<Rightarrow> (string \<times> bytes) option"
  pl_beginLogin :: "nat \<Rightarrow> wauthnUser \<Rightarrow> (string \<times> bytes) option"
  pl_assertion :: "bytes \<Rightarrow> string \<Rightarrow> (bytes \<times> bytes) option"
  pl_finishLogin :: "time \<Rightarrow> wauthnUser \<Rightarrow> bytes \<Rightarrow> string \<Rightarrow> credential option"
  pl_session :: "bytes \<Rightarrow> bool"

definition enableWebauthn :: "passkey_lib \<Rightarrow> string \<Rightarrow> string \<Rightarrow> authn \<Rightarrow> authn" where
  "enableWebauthn L rpID name A =
     (if baseURL A = [] \<or> a_passkeys A then A
      else case pl_hostname L (baseURL A) of
        None \<Rightarrow> A
      | Some host \<Rightarrow>
          if host = [] then A
          else if pl_new L (if rpID = [] then host else rpID) name (baseURL A) then A\<lparr>a_passkeys := True\<rparr> else A)"

section \<open>Stored passkeys and the library's credentials\<close>

definition passkeyToCredential :: "Passkey \<Rightarrow> credential" where
  "passkeyToCredential p = \<lparr>cr_ID = pk_CredentialID p, cr_PublicKey = pk_PublicKey p, cr_AttestationType = pk_AttestationType p,
     cr_Transport = filter (\<lambda>t. t \<noteq> []) (map trim_space (split_on CHR '','' (pk_Transports p))),
     cr_BackupEligible = pk_BackupEligible p, cr_BackupState = pk_BackupState p, cr_AAGUID = pk_AAGUID p,
     cr_SignCount = pk_SignCount p, cr_CloneWarning = False\<rparr>"

definition credentialToPasskey :: "credential \<Rightarrow> string \<Rightarrow> Passkey" where
  "credentialToPasskey c name = \<lparr>pk_ID = [], pk_CredentialID = cr_ID c, pk_PublicKey = cr_PublicKey c,
     pk_AttestationType = cr_AttestationType c, pk_AAGUID = cr_AAGUID c, pk_SignCount = cr_SignCount c,
     pk_Transports = join_with '','' (cr_Transport c), pk_BackupEligible = cr_BackupEligible c,
     pk_BackupState = cr_BackupState c, pk_Name = name, pk_CreatedAt = 0, pk_LastUsedAt = 0\<rparr>"

definition wauthnUserFor :: "authn \<Rightarrow> AuthUser \<Rightarrow> env \<Rightarrow> wauthnUser result \<times> env" where
  "wauthnUserFor A au e =
     (case op (\<lambda>s. EnsureWebauthnHandle (c_rand (a_lib A) (e_rand e) 32) s (au_ID au)) (e\<lparr>e_rand := Suc (e_rand e)\<rparr>) of
        (Inl err, e) \<Rightarrow> (Err err, e)
      | (Inr handle, e) \<Rightarrow> (case Passkeys (e_store e) (au_ID au) of
          Inl err \<Rightarrow> (Err err, e)
        | Inr pks \<Rightarrow> (Ok \<lparr>wu_handle = handle, wu_email = au_Email au, wu_name = au_Name au,
            wu_creds = map passkeyToCredential pks\<rparr>, e)))"

section \<open>The ceremony's cookie\<close>

definition wauthnFlowCookie :: string where "wauthnFlowCookie = ''sweep_wauthn_flow''"

definition setWauthnFlow :: "authn \<Rightarrow> bytes \<Rightarrow> env \<Rightarrow> bool \<times> env" where
  "setWauthnFlow A sd e =
     (case signJWT (a_lib A) (a_SessionSecret A) (zero_claims\<lparr>jw_s := sd, jw_aud := [audWebauthn],
          jw_exp := Some (numeric_date (e_now e + 5 * minute))\<rparr>) of
        None \<Rightarrow> (False, e)
      | Some tok \<Rightarrow> (True, setCookie wauthnFlowCookie tok 300 e))"

definition getWauthnFlow :: "authn \<Rightarrow> passkey_lib \<Rightarrow> request \<Rightarrow> env \<Rightarrow> bytes option" where
  "getWauthnFlow A L r e =
     (case parseJWTMulti (a_lib A) (e_now e) (secrets A) (cookieValue r wauthnFlowCookie) audWebauthn of
        None \<Rightarrow> None
      | Some c \<Rightarrow> if pl_session L (jw_s c) then Some (jw_s c) else None)"

text \<open>What the three \<open>Begin\<close> handlers end in.\<close>

definition offer :: "authn \<Rightarrow> string \<Rightarrow> (string \<times> bytes) option \<Rightarrow> env \<Rightarrow> reply \<times> env" where
  "offer A msg res e = (case res of
     None \<Rightarrow> (jerr 500 msg, e)
   | Some (options, sd) \<Rightarrow> (case setWauthnFlow A sd e of
       (False, e) \<Rightarrow> (jerr 500 msg, e)
     | (True, e) \<Rightarrow> (JSON 200 [(''publicKey'', JStr options)], e)))"

section \<open>Enrolment\<close>

definition WebauthnRegisterBegin :: "authn \<Rightarrow> passkey_lib \<Rightarrow> request \<Rightarrow> env \<Rightarrow> reply \<times> env" where
  "WebauthnRegisterBegin A L r e =
     (if \<not> a_passkeys A then (jerr 501 ''passkeys not available'', e)
      else case currentAuthUser A r e of
        None \<Rightarrow> (jerr 401 ''sign in first'', e)
      | Some au \<Rightarrow> (case wauthnUserFor A au e of
          (Inl _, e) \<Rightarrow> (jerr 500 ''could not start enrolment'', e)
        | (Inr wu, e) \<Rightarrow> offer A ''could not start enrolment''
            (pl_beginRegistration L (e_rand e) wu (map cr_ID (wu_creds wu))) (e\<lparr>e_rand := Suc (e_rand e)\<rparr>)))"

definition WebauthnRegisterFinish :: "authn \<Rightarrow> passkey_lib \<Rightarrow> string \<Rightarrow> request \<Rightarrow> env \<Rightarrow> reply \<times> env" where
  "WebauthnRegisterFinish A L body r e =
     (if \<not> a_passkeys A then (jerr 501 ''passkeys not available'', e)
      else case currentAuthUser A r e of
        None \<Rightarrow> (jerr 401 ''sign in first'', e)
      | Some au \<Rightarrow> (case getWauthnFlow A L r e of
          None \<Rightarrow> (jerr 400 (''enrolment expired '' @ em_dash @ '' try again''), e)
        | Some sd \<Rightarrow> (case wauthnUserFor A au (clearCookie wauthnFlowCookie e) of
            (Inl _, e) \<Rightarrow> (jerr 500 ''could not finish enrolment'', e)
          | (Inr wu, e) \<Rightarrow> (case pl_finishRegistration L (e_now e) wu sd body of
              None \<Rightarrow> (jerr 400 ''passkey registration failed'', e)
            | Some cred \<Rightarrow>
                let name = trim_space (attr (rq_query r) ''name'') in
                (case op (\<lambda>s. AddPasskey (e_now e) s (au_ID au)
                    (credentialToPasskey cred (if name = [] then ''Passkey'' else name))) e of
                  (Inl _, e) \<Rightarrow> (jerr 500 ''could not save passkey'', e)
                | (Inr _, e) \<Rightarrow> (jok [], doAudit (au_ID au) (au_Email au) True e))))))"

section \<open>Signing in\<close>

definition WebauthnLoginBegin :: "authn \<Rightarrow> passkey_lib \<Rightarrow> request \<Rightarrow> env \<Rightarrow> reply \<times> env" where
  "WebauthnLoginBegin A L r e =
     (if \<not> a_passkeys A then (jerr 501 ''passkeys not available'', e)
      else offer A ''could not start sign-in'' (pl_beginDiscoverable L (e_rand e)) (e\<lparr>e_rand := Suc (e_rand e)\<rparr>))"

text \<open>The callback \<open>handler\<close> and \<open>FinishDiscoverableLogin\<close> around it.\<close>

definition finishDiscoverable ::
  "authn \<Rightarrow> passkey_lib \<Rightarrow> bytes \<Rightarrow> string \<Rightarrow> env \<Rightarrow> (AuthUser \<times> credential) option \<times> env" where
  "finishDiscoverable A L sd body e = (case pl_assertion L sd body of
     None \<Rightarrow> (None, e)
   | Some (rawID, userHandle) \<Rightarrow> (case UserByWebauthnHandle (e_store e) userHandle of
       Inl _ \<Rightarrow> (None, e)
     | Inr u \<Rightarrow> (case wauthnUserFor A u e of
         (Inl _, e) \<Rightarrow> (None, e)
       | (Inr wu, e) \<Rightarrow> (map_option (\<lambda>c. (u, c)) (pl_finishLogin L (e_now e) wu sd body), e))))"

definition WebauthnLoginFinish :: "authn \<Rightarrow> passkey_lib \<Rightarrow> string \<Rightarrow> request \<Rightarrow> env \<Rightarrow> reply \<times> env" where
  "WebauthnLoginFinish A L body r e =
     (if \<not> a_passkeys A then (jerr 501 ''passkeys not available'', e)
      else case getWauthnFlow A L r e of
        None \<Rightarrow> (jerr 400 (''sign-in expired '' @ em_dash @ '' try again''), e)
      | Some sd \<Rightarrow> (case finishDiscoverable A L sd body (clearCookie wauthnFlowCookie e) of
          (None, e) \<Rightarrow> (jerr 401 ''passkey sign-in failed'', e)
        | (Some (u, cred), e) \<Rightarrow>
            if fst (loginBlocked (e_now e) (Some u)) then (jerr 403 (snd (loginBlocked (e_now e) (Some u))), e)
            else if cr_CloneWarning cred
            then (jerr 401 ''passkey sign-in failed (security check)'', doAudit (au_ID u) (au_Email u) False e)
            else
              let e = snd (op (\<lambda>s. TouchPasskey (e_now e) s (cr_ID cred) (cr_SignCount cred)) e);
                  e = doAudit (au_ID u) (au_Email u) True e
              in (case completeLogin A r (identity_of u) (attr (rq_query r) ''remember'' = ''true'') (cr_ID cred) e of
                    (Inl _, e) \<Rightarrow> (jerr 500 ''sign-in failed'', e)
                  | (Inr True, e) \<Rightarrow> (JSON 200 [(''twoFactorRequired'', JBool True)], e)
                  | (Inr False, e) \<Rightarrow> (jok [(''next'', JStr (sanitizeNext (attr (rq_query r) ''next''))),
                      (''email'', JStr (au_Email u))], e))))"

section \<open>The passkey as a second factor\<close>

definition pendingUser :: "authn \<Rightarrow> request \<Rightarrow> env \<Rightarrow> (AuthUser \<times> pendingClaims) option" where
  "pendingUser A r e =
     (case parsePending (a_lib A) (e_now e) (secrets A) (cookieValue r twoFactorPendingCookie) of
        None \<Rightarrow> None
      | Some pc \<Rightarrow> (case UserBySub (e_store e) (pc_Subject pc) of Inl _ \<Rightarrow> None | Inr u \<Rightarrow> Some (u, pc)))"

definition TwoFactorWebauthnBegin :: "authn \<Rightarrow> passkey_lib \<Rightarrow> request \<Rightarrow> env \<Rightarrow> reply \<times> env" where
  "TwoFactorWebauthnBegin A L r e =
     (if \<not> a_twoFactor A \<or> \<not> a_passkeys A then (jerr 404 ''2fa passkey not available'', e)
      else case pendingUser A r e of
        None \<Rightarrow> (jerr 401 (''your login session expired '' @ em_dash @ '' sign in again''), e)
      | Some (u, pc) \<Rightarrow> (case wauthnUserFor A u e of
          (Inl _, e) \<Rightarrow> (jerr 400 ''no passkey registered on this account'', e)
        | (Inr wu, e) \<Rightarrow>
            if wu_creds wu = [] then (jerr 400 ''no passkey registered on this account'', e)
            else offer A ''could not start passkey verification'' (pl_beginLogin L (e_rand e) wu) (e\<lparr>e_rand := Suc (e_rand e)\<rparr>)))"

definition TwoFactorWebauthnFinish :: "authn \<Rightarrow> passkey_lib \<Rightarrow> string \<Rightarrow> request \<Rightarrow> env \<Rightarrow> reply \<times> env" where
  "TwoFactorWebauthnFinish A L body r e =
     (if \<not> a_twoFactor A \<or> \<not> a_passkeys A then (jerr 404 ''2fa passkey not available'', e)
      else case pendingUser A r e of
        None \<Rightarrow> (jerr 401 (''your login session expired '' @ em_dash @ '' sign in again''), e)
      | Some (u, pc) \<Rightarrow>
          if fst (loginBlocked (e_now e) (Some u)) then (jerr 403 (snd (loginBlocked (e_now e) (Some u))), e)
          else case getWauthnFlow A L r e of
            None \<Rightarrow> (jerr 400 (''verification expired '' @ em_dash @ '' try again''), e)
          | Some sd \<Rightarrow> (case wauthnUserFor A u (clearCookie wauthnFlowCookie e) of
              (Inl _, e) \<Rightarrow> (jerr 500 ''sign-in failed'', e)
            | (Inr wu, e) \<Rightarrow> (case pl_finishLogin L (e_now e) wu sd body of
                None \<Rightarrow> (jerr 401 ''passkey verification failed'', doAudit (au_ID u) (au_Email u) False e)
              | Some cred \<Rightarrow>
                  if 0 < length (pc_FirstFactorCred pc) \<and> cr_ID cred = pc_FirstFactorCred pc
                  then (jerr 401 ''use a different passkey or your authenticator code for the second step'',
                    doAudit (au_ID u) (au_Email u) False e)
                  else if cr_CloneWarning cred
                  then (jerr 401 ''passkey verification failed (security check)'', doAudit (au_ID u) (au_Email u) False e)
                  else
                    let e = snd (op (\<lambda>s. TouchPasskey (e_now e) s (cr_ID cred) (cr_SignCount cred)) e)
                    in (case completePendingLogin A r pc e of
                          (Inl _, e) \<Rightarrow> (jerr 500 ''sign-in failed'', e)
                        | (Inr _, e) \<Rightarrow> (jok [], doAudit (au_ID u) (au_Email u) True e)))))"

end
