(* ===== verification/Site.thy ===== *)
theory Site
  imports Social Passkeys EngineTrace
begin

text \<open>
  The whole HTTP surface of the engine: the endpoints of \<open>EngineTrace\<close> together with the ceremonies of
  passkeys, social login and \<open>/auth/config\<close> (\<open>magic.go\<close>), under the conditions of \<open>routes\<close>
  (\<open>handlers.go\<close>), behind the cross-site check.
\<close>

text \<open>
  What a deployment wires: the engine, its social providers and the WebAuthn library. \<open>a_social\<close> of the
  engine says whether any social provider is configured; the laws do not depend on it.
\<close>

record site =
  sw_authn :: authn
  sw_social :: social
  sw_passkeys :: passkey_lib

datatype ceremony =
    EpAuthConfig
  | EpRegisterBegin | EpRegisterFinish | EpPasskeyBegin | EpPasskeyFinish
  | EpSecondPasskeyBegin | EpSecondPasskeyFinish
  | EpSocialLogin | EpSocialCallback | EpSocialFormCallback

definition ceremonies :: "site \<Rightarrow> ceremony list" where
  "ceremonies W = EpAuthConfig #
     (if LocalEnabled (sw_authn W) then [EpRegisterBegin, EpRegisterFinish, EpPasskeyBegin, EpPasskeyFinish] else []) @
     (if a_twoFactor (sw_authn W) \<and> a_passkeys (sw_authn W) then [EpSecondPasskeyBegin, EpSecondPasskeyFinish] else []) @
     (if anySocialConfigured (sw_social W) then [EpSocialLogin, EpSocialCallback, EpSocialFormCallback] else [])"

primrec ceremonyRoute :: "ceremony \<Rightarrow> (string \<times> string) list \<Rightarrow> string \<times> string" where
  "ceremonyRoute EpAuthConfig ps = (''GET'', ''/auth/config'')"
| "ceremonyRoute EpRegisterBegin ps = (''POST'', ''/auth/webauthn/register/begin'')"
| "ceremonyRoute EpRegisterFinish ps = (''POST'', ''/auth/webauthn/register/finish'')"
| "ceremonyRoute EpPasskeyBegin ps = (''POST'', ''/auth/webauthn/login/begin'')"
| "ceremonyRoute EpPasskeyFinish ps = (''POST'', ''/auth/webauthn/login/finish'')"
| "ceremonyRoute EpSecondPasskeyBegin ps = (''POST'', ''/auth/2fa/webauthn/begin'')"
| "ceremonyRoute EpSecondPasskeyFinish ps = (''POST'', ''/auth/2fa/webauthn/finish'')"
| "ceremonyRoute EpSocialLogin ps = (''GET'', ''/auth/social/'' @ attr ps ''provider'' @ ''/login'')"
| "ceremonyRoute EpSocialCallback ps = (''GET'', ''/auth/social/'' @ attr ps ''provider'' @ ''/callback'')"
| "ceremonyRoute EpSocialFormCallback ps = (''POST'', ''/auth/social/'' @ attr ps ''provider'' @ ''/callback'')"

definition AuthConfig :: "authn \<Rightarrow> social \<Rightarrow> reply" where
  "AuthConfig A G = (let emailOn = LocalEnabled A \<and> a_mailer A in JSON 200 [
     (''local'', JBool (LocalEnabled A)), (''oidc'', JBool (a_enabled A)), (''orgs'', JBool (OrgsEnabled A)),
     (''signupOpen'', JBool (LocalEnabled A)),
     (''methods'', JObj [(''password'', JBool (LocalEnabled A)), (''email'', JBool emailOn), (''emailOtp'', JBool emailOn),
        (''passkey'', JBool (LocalEnabled A \<and> a_passkeys A)), (''google'', JBool (socialConfigured G ''google'')),
        (''github'', JBool (socialConfigured G ''github'')), (''facebook'', JBool (socialConfigured G ''facebook'')),
        (''apple'', JBool (socialConfigured G ''apple'')), (''microsoft'', JBool (socialConfigured G ''microsoft'')),
        (''discord'', JBool (socialConfigured G ''discord''))]),
     (''socialProviders'', JList (map JStr (enabledSocialProviders G)))])"

text \<open>\<open>body\<close> is the raw body of the request, which the WebAuthn library reads.\<close>

primrec ceremonyHandler :: "ceremony \<Rightarrow> site \<Rightarrow> string \<Rightarrow> request \<Rightarrow> env \<Rightarrow> reply \<times> env" where
  "ceremonyHandler EpAuthConfig W body r e = (AuthConfig (sw_authn W) (sw_social W), e)"
| "ceremonyHandler EpRegisterBegin W body r e = WebauthnRegisterBegin (sw_authn W) (sw_passkeys W) r e"
| "ceremonyHandler EpRegisterFinish W body r e = WebauthnRegisterFinish (sw_authn W) (sw_passkeys W) body r e"
| "ceremonyHandler EpPasskeyBegin W body r e = WebauthnLoginBegin (sw_authn W) (sw_passkeys W) r e"
| "ceremonyHandler EpPasskeyFinish W body r e = WebauthnLoginFinish (sw_authn W) (sw_passkeys W) body r e"
| "ceremonyHandler EpSecondPasskeyBegin W body r e = TwoFactorWebauthnBegin (sw_authn W) (sw_passkeys W) r e"
| "ceremonyHandler EpSecondPasskeyFinish W body r e = TwoFactorWebauthnFinish (sw_authn W) (sw_passkeys W) body r e"
| "ceremonyHandler EpSocialLogin W body r e = SocialLogin (sw_authn W) (sw_social W) r e"
| "ceremonyHandler EpSocialCallback W body r e = SocialCallback (sw_authn W) (sw_social W) r e"
| "ceremonyHandler EpSocialFormCallback W body r e = SocialCallback (sw_authn W) (sw_social W) r e"

definition ceremonyRouted :: "request \<Rightarrow> ceremony \<Rightarrow> bool" where
  "ceremonyRouted r ep \<longleftrightarrow> (case ceremonyRoute ep (rq_params r) of (m, p) \<Rightarrow>
     rq_path r = p \<and> (rq_method r = m \<or> m = ''GET'' \<and> rq_method r = ''HEAD''))"

definition SiteHandler :: "site \<Rightarrow> string \<Rightarrow> request \<Rightarrow> env \<Rightarrow> reply \<times> env" where
  "SiteHandler W body r e = (case CSRFHTTP (sw_authn W) r of
     Refuse rep \<Rightarrow> (rep, e)
   | Pass r \<Rightarrow> (case find (ceremonyRouted r) (ceremonies W) of
       Some ep \<Rightarrow> ceremonyHandler ep W body r e
     | None \<Rightarrow> (case find (routed r) (endpoints (sw_authn W)) of
         None \<Rightarrow> (jerr 404 ''not found'', e)
       | Some ep \<Rightarrow> handler ep (sw_authn W) r e)))"

text \<open>The steps of the engine, with the requests of the whole surface.\<close>

inductive site_step :: "site \<Rightarrow> env \<Rightarrow> env \<Rightarrow> bool" for W where
  engine: "engine_step (sw_authn W) e e' \<Longrightarrow> site_step W e e'"
| request: "fresh_subject (sw_authn W) e \<Longrightarrow> site_step W e (snd (SiteHandler W body r (e\<lparr>e_cookies := []\<rparr>)))"

inductive site_run :: "site \<Rightarrow> env \<Rightarrow> env \<Rightarrow> bool" for W where
  start: "site_run W e e"
| next_step: "site_run W e e' \<Longrightarrow> site_step W e' e'' \<Longrightarrow> site_run W e e''"

end
