(* ===== verification/PasskeyLaws.thy ===== *)
theory PasskeyLaws
  imports Passkeys SocialLaws
begin

text \<open>
  What passkeys guarantee: the library gets back the credential it enrolled, a session of a passkey rests
  on an assertion the library validated against the account's own credentials, the second factor is not
  the first one again, and the signature counter of a stored passkey only grows.
\<close>

section \<open>Stored credentials\<close>

text \<open>
  The library gets back the credential it handed over at enrolment, with its transports, whatever name
  the owner gave it: the comma-separated text of the store loses none of them, provided no transport is
  blank or holds a comma or outer blanks, as the identifiers of the WebAuthn registry do not.
\<close>

theorem passkey_roundtrip:
  assumes "\<forall>t \<in> set (cr_Transport c). t \<noteq> [] \<and> CHR '','' \<notin> set t \<and> trim_space t = t"
  shows "passkeyToCredential (credentialToPasskey c name) = c\<lparr>cr_CloneWarning := False\<rparr>"
proof -
  have "filter (\<lambda>t. t \<noteq> []) (map trim_space (split_on CHR '','' (join_with '','' (cr_Transport c)))) = cr_Transport c"
  proof (cases "cr_Transport c = []")
    case True
    have "trim_space [] = []" by code_simp
    with True show ?thesis by simp
  next
    case False
    then have "split_on CHR '','' (join_with '','' (cr_Transport c)) = cr_Transport c"
      using assms by (intro split_join) auto
    moreover have "map trim_space (cr_Transport c) = cr_Transport c"
      using assms by (intro map_idI) auto
    moreover have "filter (\<lambda>t. t \<noteq> []) (cr_Transport c) = cr_Transport c"
      using assms by (auto simp: filter_id_conv)
    ultimately show ?thesis by simp
  qed
  then show ?thesis by (simp add: passkeyToCredential_def credentialToPasskey_def)
qed

definition demo_credential :: credential where
  "demo_credential = \<lparr>cr_ID = ''id'', cr_PublicKey = ''pk'', cr_AttestationType = ''none'', cr_Transport = [''internal'', ''hybrid''],
     cr_BackupEligible = True, cr_BackupState = False, cr_AAGUID = ''a'', cr_SignCount = 7, cr_CloneWarning = False\<rparr>"

theorem passkey_roundtrip_witness:
  "passkeyToCredential (credentialToPasskey demo_credential ''phone'') = demo_credential"
proof -
  have t: "trim_space ''internal'' = ''internal''" "trim_space ''hybrid'' = ''hybrid''" by code_simp+
  have "\<forall>t \<in> set (cr_Transport demo_credential). t \<noteq> [] \<and> CHR '','' \<notin> set t \<and> trim_space t = t"
    by (simp add: demo_credential_def t)
  from passkey_roundtrip [OF this, of "''phone''"] show ?thesis by (simp add: demo_credential_def)
qed

section \<open>The effects of the ceremonies\<close>

text \<open>The environment after reading the user for the library, and the credentials the library is given.\<close>

lemma EnsureWebauthnHandle_passkeys [simp]: "st_passkeys (snd (EnsureWebauthnHandle h s i)) = st_passkeys s"
  by (simp add: EnsureWebauthnHandle_def split: option.split)

lemma wauthnUserFor_effect:
  assumes "wauthnUserFor A u e = (res, e')"
  shows "sess_cookies e' = sess_cookies e" and "e_now e' = e_now e" and "st_passkeys (e_store e') = st_passkeys (e_store e)"
    and "res = Ok wu \<Longrightarrow> wu_creds wu = map passkeyToCredential (listed (Passkeys (e_store e) (au_ID u)))"
    and "e_store e' = snd (EnsureWebauthnHandle (c_rand (a_lib A) (e_rand e) 32) (e_store e) (au_ID u))"
proof -
  have f: "Passkeys s i = Passkeys s' i" if "st_passkeys s = st_passkeys s'" for s s' i
    using that by (simp add: Passkeys_def split: option.split)
  obtain x e1 where o: "op (\<lambda>s. EnsureWebauthnHandle (c_rand (a_lib A) (e_rand e) 32) s (au_ID u)) (e\<lparr>e_rand := Suc (e_rand e)\<rparr>) = (x, e1)"
    by fastforce
  then have e1: "sess_cookies e1 = sess_cookies e" "e_now e1 = e_now e" "st_passkeys (e_store e1) = st_passkeys (e_store e)"
      "e_store e1 = snd (EnsureWebauthnHandle (c_rand (a_lib A) (e_rand e) 32) (e_store e) (au_ID u))"
    by (auto simp: op_def sess_cookies_def split_beta)
  have r: "(res, e') = (case (x, e1) of (Inl err, e) \<Rightarrow> (Err err, e)
      | (Inr handle, e) \<Rightarrow> (case Passkeys (e_store e) (au_ID u) of Inl err \<Rightarrow> (Err err, e)
        | Inr pks \<Rightarrow> (Ok \<lparr>wu_handle = handle, wu_email = au_Email u, wu_name = au_Name u, wu_creds = map passkeyToCredential pks\<rparr>, e)))"
    using assms unfolding wauthnUserFor_def o by simp
  then have "e' = e1" by (auto split: sum.splits)
  then show "sess_cookies e' = sess_cookies e" "e_now e' = e_now e" "st_passkeys (e_store e') = st_passkeys (e_store e)"
      "e_store e' = snd (EnsureWebauthnHandle (c_rand (a_lib A) (e_rand e) 32) (e_store e) (au_ID u))"
    using e1 by simp_all
  show "wu_creds wu = map passkeyToCredential (listed (Passkeys (e_store e) (au_ID u)))" if "res = Ok wu"
    using r that f [OF e1(3), of "au_ID u"] by (auto simp: listed_def split: sum.splits)
qed

lemma setWauthnFlow_effect:
  "sess_cookies (snd (setWauthnFlow A sd e)) = sess_cookies e" "e_now (snd (setWauthnFlow A sd e)) = e_now e"
  "e_store (snd (setWauthnFlow A sd e)) = e_store e"
  by (simp_all add: setWauthnFlow_def sess_cookies_setCookie wauthnFlowCookie_def sessionCookie_def split: option.split)

lemma offer_effect:
  "sess_cookies (snd (offer A msg res e)) = sess_cookies e" "e_store (snd (offer A msg res e)) = e_store e"
  using setWauthnFlow_effect [of A _ e]
  by (auto simp: offer_def split: option.split prod.split bool.split) (metis snd_conv)+

section \<open>The sessions of passkeys\<close>

text \<open>
  The library finished the ceremony this browser began, for the account, with the account's own stored
  credentials, and gave no warning of a cloned authenticator.
\<close>

definition assertion_proven :: "authn \<Rightarrow> passkey_lib \<Rightarrow> string \<Rightarrow> request \<Rightarrow> env \<Rightarrow> AuthUser \<Rightarrow> bytes \<Rightarrow> credential \<Rightarrow> bool" where
  "assertion_proven A L body r e u sd cred \<longleftrightarrow> a_passkeys A \<and> getWauthnFlow A L r e = Some sd \<and> \<not> cr_CloneWarning cred \<and>
     (\<exists>wu. wu_creds wu = map passkeyToCredential (listed (Passkeys (e_store e) (au_ID u))) \<and>
        pl_finishLogin L (e_now e) wu sd body = Some cred)"

definition by_passkey :: "authn \<Rightarrow> passkey_lib \<Rightarrow> string \<Rightarrow> request \<Rightarrow> env \<Rightarrow> env \<Rightarrow> setcookie \<Rightarrow> bool" where
  "by_passkey A L body r e e' c \<longleftrightarrow> (\<exists>u sd cred rawID userHandle. assertion_proven A L body r e u sd cred \<and>
     pl_assertion L sd body = Some (rawID, userHandle) \<and> UserByWebauthnHandle (e_store e) userHandle = Ok u \<and> signs_in A e e' c u)"

definition by_second_passkey :: "authn \<Rightarrow> passkey_lib \<Rightarrow> string \<Rightarrow> request \<Rightarrow> env \<Rightarrow> env \<Rightarrow> setcookie \<Rightarrow> bool" where
  "by_second_passkey A L body r e e' c \<longleftrightarrow> (\<exists>u pc sd cred base. assertion_proven A L body r e u sd cred \<and> a_twoFactor A \<and>
     parsePending (a_lib A) (e_now e) (secrets A) (cookieValue r twoFactorPendingCookie) = Some pc \<and>
     UserBySub (e_store e) (pc_Subject pc) = Ok u \<and> \<not> fst (loginBlocked (e_now e) (Some u)) \<and>
     (pc_FirstFactorCred pc = [] \<or> cr_ID cred \<noteq> pc_FirstFactorCred pc) \<and> sess_cookies e' = [c] \<and>
     holds A e c base (pc_Subject pc) (loginTTL (pc_Remember pc)) \<and> sc_ImpersonatedBy base = [])"

lemma finishDiscoverable_effect:
  assumes "finishDiscoverable A L sd body e = (res, e')"
  shows "sess_cookies e' = sess_cookies e" and "e_now e' = e_now e" and "st_passkeys (e_store e') = st_passkeys (e_store e)"
    and "res = Some (u, cred) \<Longrightarrow> \<exists>rawID userHandle wu. pl_assertion L sd body = Some (rawID, userHandle) \<and>
      UserByWebauthnHandle (e_store e) userHandle = Ok u \<and>
      wu_creds wu = map passkeyToCredential (listed (Passkeys (e_store e) (au_ID u))) \<and> pl_finishLogin L (e_now e) wu sd body = Some cred"
proof -
  have "sess_cookies e' = sess_cookies e \<and> e_now e' = e_now e \<and> st_passkeys (e_store e') = st_passkeys (e_store e) \<and>
    (\<forall>u cred. res = Some (u, cred) \<longrightarrow> (\<exists>rawID userHandle wu. pl_assertion L sd body = Some (rawID, userHandle) \<and>
      UserByWebauthnHandle (e_store e) userHandle = Ok u \<and>
      wu_creds wu = map passkeyToCredential (listed (Passkeys (e_store e) (au_ID u))) \<and> pl_finishLogin L (e_now e) wu sd body = Some cred))"
  proof (cases "\<exists>x h v. pl_assertion L sd body = Some (x, h) \<and> UserByWebauthnHandle (e_store e) h = Ok v")
    case False
    then show ?thesis using assms by (auto simp: finishDiscoverable_def split: option.splits sum.splits)
  next
    case True
    then obtain x h v where v: "pl_assertion L sd body = Some (x, h)" "UserByWebauthnHandle (e_store e) h = Ok v" by blast
    obtain r1 e1 where w: "wauthnUserFor A v e = (r1, e1)" by fastforce
    note f = wauthnUserFor_effect [OF w]
    from assms have "e' = e1" and "res = (case r1 of Inl _ \<Rightarrow> None | Inr wu \<Rightarrow> map_option (\<lambda>c. (v, c)) (pl_finishLogin L (e_now e1) wu sd body))"
      by (auto simp: finishDiscoverable_def v w split: sum.splits)
    then show ?thesis using f v by (auto split: sum.splits)
  qed
  then show "sess_cookies e' = sess_cookies e" and "e_now e' = e_now e" and "st_passkeys (e_store e') = st_passkeys (e_store e)"
    and "res = Some (u, cred) \<Longrightarrow> \<exists>rawID userHandle wu. pl_assertion L sd body = Some (rawID, userHandle) \<and>
      UserByWebauthnHandle (e_store e) userHandle = Ok u \<and>
      wu_creds wu = map passkeyToCredential (listed (Passkeys (e_store e) (au_ID u))) \<and> pl_finishLogin L (e_now e) wu sd body = Some cred"
    by blast+
qed

text \<open>What a passkey login ends in, once its assertion is accepted.\<close>

lemma passkey_login:
  assumes "sess_cookies e = []" and "c \<in> set (sess_cookies (snd (WebauthnLoginFinish A L body r e)))"
  obtains sd u cred e1 where "a_passkeys A" "getWauthnFlow A L r e = Some sd"
    "finishDiscoverable A L sd body (clearCookie wauthnFlowCookie e) = (Some (u, cred), e1)"
    "\<not> fst (loginBlocked (e_now e) (Some u))" "\<not> cr_CloneWarning cred"
    "snd (WebauthnLoginFinish A L body r e) = snd (completeLogin A r (identity_of u) (attr (rq_query r) ''remember'' = ''true'') (cr_ID cred)
       (doAudit (au_ID u) (au_Email u) True (snd (op (\<lambda>s. TouchPasskey (e_now e) s (cr_ID cred) (cr_SignCount cred)) e1))))"
proof -
  obtain sd where sd: "a_passkeys A" "getWauthnFlow A L r e = Some sd"
    using assms by (auto simp: WebauthnLoginFinish_def split: if_splits option.splits)
  obtain res e1 where f: "finishDiscoverable A L sd body (clearCookie wauthnFlowCookie e) = (res, e1)" by fastforce
  have e1: "sess_cookies e1 = []" "e_now e1 = e_now e" using finishDiscoverable_effect(1,2) [OF f] assms(1) by simp_all
  let ?p = "WebauthnLoginFinish A L body r e"
  obtain u cred where u: "res = Some (u, cred)" using assms(2) e1 by (cases res) (auto simp: WebauthnLoginFinish_def sd f)
  have nb: "\<not> fst (loginBlocked (e_now e) (Some u))" "\<not> cr_CloneWarning cred"
    using assms(2) e1 by (auto simp: WebauthnLoginFinish_def sd f u split: if_splits)
  have "snd ?p = snd (completeLogin A r (identity_of u) (attr (rq_query r) ''remember'' = ''true'') (cr_ID cred)
       (doAudit (au_ID u) (au_Email u) True (snd (op (\<lambda>s. TouchPasskey (e_now e) s (cr_ID cred) (cr_SignCount cred)) e1))))"
    using nb by (simp add: WebauthnLoginFinish_def sd f u e1 Let_def split_beta split: sum.split bool.split)
  with that [OF sd f [unfolded u] nb] show thesis by blast
qed

text \<open>
  A session of a passkey is earned: the browser holds the signed challenge of a ceremony it began, the
  library validated its assertion against the stored credentials of the account the authenticator named,
  with no sign of a copy, and the account is not blocked and has no second factor.
\<close>

theorem passkey_session_is_earned:
  assumes "sess_cookies e = []" and "c \<in> set (sess_cookies (snd (WebauthnLoginFinish A L body r e)))"
  shows "by_passkey A L body r e (snd (WebauthnLoginFinish A L body r e)) c"
proof (rule passkey_login [OF assms])
  fix sd u cred e1
  assume p: "a_passkeys A" "getWauthnFlow A L r e = Some sd"
    and f: "finishDiscoverable A L sd body (clearCookie wauthnFlowCookie e) = (Some (u, cred), e1)"
    and nb: "\<not> fst (loginBlocked (e_now e) (Some u))" "\<not> cr_CloneWarning cred"
    and env: "snd (WebauthnLoginFinish A L body r e) = snd (completeLogin A r (identity_of u) (attr (rq_query r) ''remember'' = ''true'') (cr_ID cred)
       (doAudit (au_ID u) (au_Email u) True (snd (op (\<lambda>s. TouchPasskey (e_now e) s (cr_ID cred) (cr_SignCount cred)) e1))))"
  let ?e = "doAudit (au_ID u) (au_Email u) True (snd (op (\<lambda>s. TouchPasskey (e_now e) s (cr_ID cred) (cr_SignCount cred)) e1))"
  have e: "sess_cookies ?e = []" "e_now ?e = e_now e" using finishDiscoverable_effect(1,2) [OF f] assms(1) by simp_all
  have "signs_in A e (snd (WebauthnLoginFinish A L body r e)) c u"
    using completed_signs_in [OF e nb(1)] assms(2) unfolding env by blast
  moreover obtain rawID userHandle wu where "pl_assertion L sd body = Some (rawID, userHandle)"
      "UserByWebauthnHandle (e_store e) userHandle = Ok u"
      "wu_creds wu = map passkeyToCredential (listed (Passkeys (e_store e) (au_ID u)))" "pl_finishLogin L (e_now e) wu sd body = Some cred"
    using finishDiscoverable_effect(4) [OF f refl] by auto
  ultimately show ?thesis
    using p nb(2) unfolding by_passkey_def assertion_proven_def by blast
qed

text \<open>What a second step with a passkey ends in, once its assertion is accepted.\<close>

lemma second_passkey:
  assumes "sess_cookies e = []" and "c \<in> set (sess_cookies (snd (TwoFactorWebauthnFinish A L body r e)))"
  shows "by_second_passkey A L body r e (snd (TwoFactorWebauthnFinish A L body r e)) c"
proof -
  let ?p = "TwoFactorWebauthnFinish A L body r e"
  obtain u pc sd where u: "a_twoFactor A" "a_passkeys A" "pendingUser A r e = Some (u, pc)" "\<not> fst (loginBlocked (e_now e) (Some u))"
      "getWauthnFlow A L r e = Some sd"
    using assms by (auto simp: TwoFactorWebauthnFinish_def split: if_splits option.splits)
  obtain res e1 where w: "wauthnUserFor A u (clearCookie wauthnFlowCookie e) = (res, e1)" by fastforce
  note f = wauthnUserFor_effect [OF w]
  have e1: "sess_cookies e1 = []" "e_now e1 = e_now e" using f(1,2) assms(1) by simp_all
  obtain wu where wu: "res = Ok wu" using assms(2) e1 by (cases res) (auto simp: TwoFactorWebauthnFinish_def u w)
  obtain cred where cred: "pl_finishLogin L (e_now e) wu sd body = Some cred" "\<not> cr_CloneWarning cred"
      "pc_FirstFactorCred pc = [] \<or> cr_ID cred \<noteq> pc_FirstFactorCred pc"
    using assms(2) e1 by (auto simp: TwoFactorWebauthnFinish_def u w wu split: option.splits if_splits)
  let ?e = "snd (op (\<lambda>s. TouchPasskey (e_now e) s (cr_ID cred) (cr_SignCount cred)) e1)"
  have same: "sess_cookies (snd ?p) = sess_cookies (snd (completePendingLogin A r pc ?e))"
    using cred by (auto simp: TwoFactorWebauthnFinish_def u w wu e1 Let_def split_beta split: sum.split)
  have "sess_cookies ?e = []" "e_now ?e = e_now e" using e1 by simp_all
  from completePending_cookie [OF this(1)] assms(2) obtain base where "sess_cookies (snd ?p) = [c]"
      "holds A e c base (pc_Subject pc) (loginTTL (pc_Remember pc))" "sc_ImpersonatedBy base = []"
    unfolding same holds_def \<open>e_now ?e = e_now e\<close> by blast
  moreover have "parsePending (a_lib A) (e_now e) (secrets A) (cookieValue r twoFactorPendingCookie) = Some pc"
      "UserBySub (e_store e) (pc_Subject pc) = Ok u"
    using u(3) by (auto simp: pendingUser_def split: option.splits sum.splits)
  moreover have "assertion_proven A L body r e u sd cred"
    using u cred f(4) [OF wu] unfolding assertion_proven_def by auto
  ultimately show ?thesis
    using u cred unfolding by_second_passkey_def by blast
qed

text \<open>
  A passkey completes a halted login only as a second factor: the login is the pending one of the signed
  cookie, its account is not blocked, the assertion is one of the account's own credentials, and that
  credential is not the one the login began with.
\<close>

theorem second_passkey_is_distinct:
  assumes "sess_cookies e = []" and "c \<in> set (sess_cookies (snd (TwoFactorWebauthnFinish A L body r e)))"
  shows "by_second_passkey A L body r e (snd (TwoFactorWebauthnFinish A L body r e)) c"
  by (rule second_passkey [OF assms])

text \<open>A pending login is read back from its cookie until it expires.\<close>

lemma own_pending:
  assumes "signing_ok A" and "mintPending (a_lib A) (a_SessionSecret A) start i role rm ff = Some tk"
  shows "parsePending (a_lib A) now (secrets A) tk = (if now < numeric_date (start + twoFactorPendingTTL) \<and> id_Subject i \<noteq> [] then
    Some \<lparr>pc_Email = id_Email i, pc_Name = id_Name i, pc_Groups = id_Groups i, pc_Role = role, pc_Remember = rm,
      pc_FirstFactorCred = ff, pc_Subject = id_Subject i\<rparr> else None)"
proof -
  have len: "minSessionSecret \<le> length (a_SessionSecret A)" using assms(2) by (auto simp: mintPending_def signJWT_def split: if_splits)
  then have k: "a_SessionSecret A \<in> set (secrets A)" by (simp add: secrets_def set_verifySecrets)
  have j: "jwt_ok (a_lib A)" using assms(1) by (simp add: signing_ok_def)
  then have "c_jwtSign (a_lib A) k c \<noteq> []" for k c by (simp add: jwt_ok_def)
  moreover have "keys_separate (a_lib A) (filter (\<lambda>k. k \<noteq> a_SessionSecret A) (secrets A)) (a_SessionSecret A)"
    using assms(1) by (simp add: signing_ok_def)
  ultimately show ?thesis
    using parseJWTMulti_signed [OF j k len] assms(2) len by (auto simp: parsePending_def mintPending_def signJWT_def)
qed

lemma ceremony_cookies:
  "wauthnUserFor A u e = (res, e') \<Longrightarrow> e_cookies e' = e_cookies e"
  "finishDiscoverable A L sd body e = (x, e') \<Longrightarrow> e_cookies e' = e_cookies e"
proof -
  show *: "wauthnUserFor A u e = (res, e') \<Longrightarrow> e_cookies e' = e_cookies e" for u e res e'
    by (auto simp: wauthnUserFor_def op_def split_beta split: sum.splits)
  show "finishDiscoverable A L sd body e = (x, e') \<Longrightarrow> e_cookies e' = e_cookies e"
    by (auto simp: finishDiscoverable_def dest: * split: option.splits sum.splits prod.splits)
qed

text \<open>A login that is held back leaves its identity and its first credential in the pending cookie.\<close>

lemma held_login:
  assumes "fst (completeLogin A r i rm ff e) = Ok True" and "\<forall>c \<in> set (e_cookies e). ck_name c \<noteq> twoFactorPendingCookie"
    and "p \<in> set (e_cookies (snd (completeLogin A r i rm ff e)))" and "ck_name p = twoFactorPendingCookie"
  obtains j role where "mintPending (a_lib A) (a_SessionSecret A) (e_now e) j role rm ff = Some (ck_value p)"
    "id_Subject j = id_Subject i"
proof -
  obtain role e1 where a: "authorizeLogin A i e = (Ok role, e1)"
    using assms(1) by (cases "authorizeLogin A i e") (auto simp: completeLogin_def split: sum.splits)
  then have e1: "e_now e1 = e_now e" "e_cookies e1 = e_cookies e"
    by (auto simp: authorizeLogin_def op_def split_beta split: option.splits)
  let ?j = "loginGroups A (storedUser A (id_Subject i) e1) i e1"
  obtain tk where tk: "mintPending (a_lib A) (a_SessionSecret A) (e_now e1) ?j role rm ff = Some tk"
      "snd (completeLogin A r i rm ff e) = clearCookie flowCookie (setCookie twoFactorPendingCookie tk (twoFactorPendingTTL div second_ns) e1)"
    using assms(1) by (auto simp: completeLogin_def a Let_def split: if_splits option.splits sum.splits prod.splits)
  have "ck_value p = tk"
    using assms(2-4) e1(2)
    by (auto simp: tk(2) setCookie_def clearCookie_def flowCookie_def twoFactorPendingCookie_def)
  with tk(1) that [of ?j role] show thesis by (simp add: e1)
qed


section \<open>The signature counter\<close>

text \<open>
  \<open>grown k p s\<close>: the passkey stored under the number \<open>k\<close> is still the one that was, with its key and its
  owner and a counter at least as high, or it was removed; the number is not given out again.
\<close>

definition grown :: "nat \<Rightarrow> passkey \<Rightarrow> store \<Rightarrow> bool" where
  "grown k p s \<longleftrightarrow> k \<le> st_pkSeq s \<and> (case mget (st_passkeys s) k of
     None \<Rightarrow> True
   | Some q \<Rightarrow> p_userID q = p_userID p \<and> pk_CredentialID (p_p q) = pk_CredentialID (p_p p) \<and>
       pk_PublicKey (p_p q) = pk_PublicKey (p_p p) \<and> pk_SignCount (p_p p) \<le> pk_SignCount (p_p q))"

lemma grown_same: "st_passkeys s' = st_passkeys s \<Longrightarrow> st_pkSeq s' = st_pkSeq s \<Longrightarrow> grown k p s \<Longrightarrow> grown k p s'"
  by (simp add: grown_def)

lemma grown_pruned:
  assumes "keys_ok (st_passkeys s)" and "st_passkeys s' = mprune f (st_passkeys s)" and "st_pkSeq s' = st_pkSeq s" and "grown k p s"
  shows "grown k p s'"
  using assms by (auto simp: grown_def mget_mprune split: option.splits)

lemma frames_passkeys:
  "dir_frame s s' \<Longrightarrow> st_passkeys s' = st_passkeys s \<and> st_pkSeq s' = st_pkSeq s"
  "tfa_frame s s' \<Longrightarrow> st_passkeys s' = st_passkeys s \<and> st_pkSeq s' = st_pkSeq s"
  "oauth_frame s s' \<Longrightarrow> st_passkeys s' = st_passkeys s \<and> st_pkSeq s' = st_pkSeq s"
  unfolding dir_frame_def tfa_frame_def oauth_frame_def by (erule ssubst, simp)+

text \<open>The upsert of a login leaves the passkeys alone, or removes those of the account it displaces.\<close>

lemma upsert_passkeys:
  assumes s: "cred_ok s"
  shows "st_pkSeq (snd (UpsertUserOnLogin now s sub em nm v)) = st_pkSeq s \<and>
    (\<exists>f. st_passkeys (snd (UpsertUserOnLogin now s sub em nm v)) = mprune f (st_passkeys s))"
proof -
  have same: "\<exists>f. m = mprune f m" for m :: "(nat, passkey) gomap"
    by (intro exI [of _ "\<lambda>_ _. False"]) (simp add: mprune_def)
  from s show ?thesis
    by (cases rule: upsert_cases [of s sub em now nm v])
      (auto simp: rebind_user_def insert_user_def deleteUserCascadeLocked_def Let_def intro: same)
qed

lemma cred_step_grown:
  assumes "cred_step s ev s'" and s: "cred_ok s" and g: "grown k p s"
  shows "grown k p s'"
proof -
  have keys: "keys_ok (st_passkeys s)" using cred_ok_passkeys [OF s] by (auto simp: passkeys_ok_def dest: table_ok_keys)
  from assms(1) show ?thesis
  proof cases
    case (AddPasskey now u q)
    have "mget (st_passkeys s) (Suc (st_pkSeq s)) = None"
      using cred_ok_passkeys [OF s] unfolding passkeys_ok_def by (rule table_ok_fresh) simp
    with g AddPasskey show ?thesis
      by (auto simp: grown_def AddPasskey_def Let_def split: option.splits if_splits)
  next
    case (TouchPasskey now c n)
    with g show ?thesis
      by (auto simp: grown_def TouchPasskey_def touch_passkey_def Let_def split: option.splits)
  next
    case (RemovePasskey u i)
    with g show ?thesis by (auto simp: grown_def RemovePasskey_def split: option.splits)
  next
    case (RenamePasskey u i nm)
    with g show ?thesis by (auto simp: grown_def RenamePasskey_def split: option.splits)
  next
    case (DeleteUser u)
    show ?thesis
    proof (cases "parseID u")
      case None
      with DeleteUser g show ?thesis by (simp add: DeleteUser_def)
    next
      case (Some n)
      then have "st_passkeys s' = mprune (\<lambda>_ pk. p_userID pk = n) (st_passkeys s)" "st_pkSeq s' = st_pkSeq s"
        using DeleteUser by (auto simp: DeleteUser_def deleteUserCascadeLocked_def Let_def)
      from grown_pruned [OF keys this g] show ?thesis .
    qed
  next
    case (UpsertUserOnLogin now sub em nm v)
    with upsert_passkeys [OF s, of now sub em nm v] grown_pruned [OF keys _ _ g, of s'] show ?thesis by auto
  next
    case (Authorize now i)
    then have "s' = snd (UpsertUserOnLogin now s (id_Subject i) (id_Email i) (id_Name i) (id_EmailVerified i))"
      by (simp add: Authorize_def split: prod.split sum.split)
    with upsert_passkeys [OF s, of now "id_Subject i" "id_Email i" "id_Name i" "id_EmailVerified i"]
      grown_pruned [OF keys _ _ g, of s'] show ?thesis by auto
  next
    case (ConsumeToken_Ok now q h c)
    then show ?thesis by (intro grown_same [OF _ _ g]) (auto simp: ConsumeToken_def split: prod.splits)
  next
    case (ConsumeToken_Err now q h er)
    then show ?thesis by (intro grown_same [OF _ _ g]) (auto simp: ConsumeToken_def split: prod.splits)
  next
    case (VerifyEmailOTP e q oo now h r)
    then show ?thesis by (intro grown_same [OF _ _ g]) (auto simp: VerifyEmailOTP_def Let_def split: if_splits)
  next
    case (VerifyEmailOTP_dead q e now h)
    then show ?thesis by (intro grown_same [OF _ _ g]) (auto simp: VerifyEmailOTP_def Let_def split: option.splits if_splits)
  qed (intro grown_same [OF _ _ g]; simp add: CreateLocalUser_def insert_user_def SetEmailVerified_def EnsureWebauthnHandle_def
      SetEmail_def SetPasswordHash_def LinkOAuth_def UnlinkOAuth_def CreateToken_def CreateEmailOTP_def RecordAudit_def Let_def
      split: option.split)+
qed

lemma mem_trace_append: "mem_trace s evs s' \<Longrightarrow> mem_trace s' evs' s'' \<Longrightarrow> mem_trace s (evs @ evs') s''"
  by (rotate_tac 1, induction rule: mem_trace.induct) (auto simp flip: append_assoc intro: mem_trace.intros)

lemma counter_grows:
  assumes "store_ok s" and "mem_trace s evs s'" and "mget (st_passkeys s) k = Some p"
  shows "case mget (st_passkeys s') k of None \<Rightarrow> True
    | Some q \<Rightarrow> p_userID q = p_userID p \<and> pk_CredentialID (p_p q) = pk_CredentialID (p_p p) \<and>
        pk_PublicKey (p_p q) = pk_PublicKey (p_p p) \<and> pk_SignCount (p_p p) \<le> pk_SignCount (p_p q)"
proof -
  have "grown k p s"
    using assms(3) cred_ok_passkeys [OF store_ok_cred [OF assms(1)]] by (auto simp: grown_def passkeys_ok_def dest: table_ok_entry)
  with assms(2,1) have "grown k p s'"
  proof (induction rule: mem_trace.induct)
    case (extend s evs s' ev s'')
    then have g: "grown k p s'" and ok: "store_ok s'" using mem_trace_ok by blast+
    from extend.hyps(2) consider "cred_step s' ev s''" | "dir_step s' ev s''" | "tfa_step s' ev s''" | "oauth_step s' ev s''"
      unfolding mem_step_def by blast
    then show ?case
      using cred_step_grown [OF _ store_ok_cred [OF ok] g] frames_passkeys step_frames grown_same [OF _ _ g] by cases metis+
  qed simp
  then show ?thesis by (simp add: grown_def)
qed


text \<open>
  In every history of the stores a stored passkey keeps its key and its owner, and its signature counter
  never goes back, until it is removed; nothing else is ever stored under its number.
\<close>

theorem passkey_counter_grows:
  assumes "store_ok s" and "mem_trace s evs s'" and "mget (st_passkeys s) k = Some p"
  shows "case mget (st_passkeys s') k of None \<Rightarrow> True
    | Some q \<Rightarrow> p_userID q = p_userID p \<and> pk_CredentialID (p_p q) = pk_CredentialID (p_p p) \<and>
        pk_PublicKey (p_p q) = pk_PublicKey (p_p p) \<and> pk_SignCount (p_p p) \<le> pk_SignCount (p_p q)"
  by (rule counter_grows [OF assms])

text \<open>Reading the user for the library is a step of the stores.\<close>

lemma wauthnUserFor_store: "wauthnUserFor A u e = (res, e') \<Longrightarrow> store_ok (e_store e) \<Longrightarrow> store_ok (e_store e')"
  using cred_step_ok [OF cred_step.EnsureWebauthnHandle] by (metis wauthnUserFor_effect(5))

lemma finishDiscoverable_store:
  assumes "finishDiscoverable A L sd body (clearCookie n e) = (res, e')" and "store_ok (e_store e)"
  shows "store_ok (e_store e')"
proof -
  have "store_ok (e_store (clearCookie n e))" using assms(2) by simp
  with assms(1) show ?thesis
    by (auto simp: finishDiscoverable_def dest: wauthnUserFor_store split: option.splits sum.splits prod.splits)
qed

text \<open>
  What WebAuthn promises of a finished login: the credential is one of those the library was given, and
  without a clone warning its counter went up from the stored one, or the authenticator keeps none.
\<close>

definition counting_lib :: "passkey_lib \<Rightarrow> bool" where
  "counting_lib L \<longleftrightarrow> (\<forall>now wu sd body c. pl_finishLogin L now wu sd body = Some c \<longrightarrow>
     (\<exists>cr \<in> set (wu_creds wu). cr_ID cr = cr_ID c \<and>
        (\<not> cr_CloneWarning c \<longrightarrow> cr_SignCount cr < cr_SignCount c \<or> cr_SignCount cr = 0 \<and> cr_SignCount c = 0)))"

lemma proven_stored:
  assumes "counting_lib L" and "store_ok (e_store e)" and "assertion_proven A L body r e u sd cred"
    and k: "mget (st_passkeys (e_store e)) k = Some p" "pk_CredentialID (p_p p) = cr_ID cred"
  shows "pk_SignCount (p_p p) < cr_SignCount cred \<or> pk_SignCount (p_p p) = 0 \<and> cr_SignCount cred = 0"
proof -
  have ok: "passkeys_ok (st_pkSeq (e_store e)) (st_passkeys (e_store e))" by (rule cred_ok_passkeys [OF store_ok_cred [OF assms(2)]])
  then have keys: "keys_ok (st_passkeys (e_store e))" by (auto simp: passkeys_ok_def dest: table_ok_keys)
  obtain wu where wu: "wu_creds wu = map passkeyToCredential (listed (Passkeys (e_store e) (au_ID u)))"
      "pl_finishLogin L (e_now e) wu sd body = Some cred" "\<not> cr_CloneWarning cred"
    using assms(3) by (auto simp: assertion_proven_def)
  obtain cr where cr: "cr \<in> set (wu_creds wu)" "cr_ID cr = cr_ID cred"
      "cr_SignCount cr < cr_SignCount cred \<or> cr_SignCount cr = 0 \<and> cr_SignCount cred = 0"
    using assms(1) wu(2,3) unfolding counting_lib_def by blast
  then obtain q where "q \<in> set (mvals (st_passkeys (e_store e)))" "cr = passkeyToCredential (p_p q)"
    unfolding wu(1) by (auto simp: listed_def Passkeys_def split: option.splits)
  moreover from this k(2) cr(2) have "pk_CredentialID (p_p q) = pk_CredentialID (p_p p)" by (simp add: passkeyToCredential_def)
  moreover have "p \<in> set (mvals (st_passkeys (e_store e)))" using k(1) by (auto simp: mvals_mget [OF keys])
  ultimately have "cr = passkeyToCredential (p_p p)"
    using table_ok_unique [OF ok [unfolded passkeys_ok_def]] by metis
  with cr(3) show ?thesis by (simp add: passkeyToCredential_def)
qed

lemma login_leads_on:
  assumes "store_authorizer A"
  shows "\<exists>evs. mem_trace (e_store e) evs (e_store (snd (completeLogin A r i rm ff (doAudit u m b e))))"
proof -
  have "\<exists>evs. mem_trace (e_store e) evs (e_store e)" by (blast intro: mem_trace.start)
  from history.keeps_login [OF assms history.P_audit [OF this]] show ?thesis by (simp add: history.keeps_def)
qed


section \<open>The ceremonies and the invariants of the engine\<close>

lemma passkey_calls [store_calls]:
  "steps_to s (snd (EnsureWebauthnHandle h s u))" "steps_to s (snd (AddPasskey now s u p))" "steps_to s (snd (TouchPasskey now s c n))"
  by (blast intro: steps_to_parts(1) cred_step.intros)+

context env_effects
begin

lemma keeps_ceremony_pairs:
  fixes p :: "AuthUser \<times> pendingClaims" and q :: "AuthUser \<times> credential"
  shows "(\<And>x y. keeps (f x y)) \<Longrightarrow> keeps (case p of (x, y) \<Rightarrow> f x y)"
    and "(\<And>x y. keeps (g x y)) \<Longrightarrow> keeps (case q of (x, y) \<Rightarrow> g x y)"
  by (simp_all split: prod.split)

lemma P_flow: "P e \<Longrightarrow> P (setCookie wauthnFlowCookie v a e)"
  by (erule same, rule quiet_effects(1)) (simp add: wauthnFlowCookie_def sessionCookie_def)

lemma keeps_wauthnUserFor: "P e \<Longrightarrow> keeps (wauthnUserFor A u e)"
  unfolding wauthnUserFor_def by (intro keeps_rules passkey_calls)

lemma keeps_offer: "P e \<Longrightarrow> keeps (offer A msg res e)"
  unfolding offer_def setWauthnFlow_def by (intro keeps_rules P_flow)

lemma keeps_finishDiscoverable: "P e \<Longrightarrow> keeps (finishDiscoverable A L sd body e)"
  unfolding finishDiscoverable_def by (intro keeps_rules keeps_wauthnUserFor)

lemmas keeps_ceremony = keeps_rules keeps_parts keeps_ceremony_pairs passkey_calls keeps_wauthnUserFor keeps_offer keeps_finishDiscoverable P_flow

lemma keeps_WebauthnRegisterBegin: "P e \<Longrightarrow> keeps (WebauthnRegisterBegin A L r e)"
  unfolding WebauthnRegisterBegin_def by (intro keeps_ceremony)

lemma keeps_WebauthnRegisterFinish: "P e \<Longrightarrow> keeps (WebauthnRegisterFinish A L body r e)"
  unfolding WebauthnRegisterFinish_def by (intro keeps_ceremony)

lemma keeps_WebauthnLoginBegin: "P e \<Longrightarrow> keeps (WebauthnLoginBegin A L r e)"
  unfolding WebauthnLoginBegin_def by (intro keeps_ceremony)

lemma keeps_TwoFactorWebauthnBegin: "P e \<Longrightarrow> keeps (TwoFactorWebauthnBegin A L r e)"
  unfolding TwoFactorWebauthnBegin_def by (intro keeps_ceremony)

end

context env_invariant
begin

lemma keeps_WebauthnLoginFinish: "store_authorizer A \<Longrightarrow> P e \<Longrightarrow> keeps (WebauthnLoginFinish A L body r e)"
  unfolding WebauthnLoginFinish_def by (intro keeps_ceremony keeps_opening; assumption?)

lemma keeps_TwoFactorWebauthnFinish: "P e \<Longrightarrow> keeps (TwoFactorWebauthnFinish A L body r e)"
  unfolding TwoFactorWebauthnFinish_def by (intro keeps_ceremony keeps_opening; assumption?)

end

section \<open>A demonstration\<close>

text \<open>A challenge the browser was given comes back from its cookie until it expires.\<close>

lemma own_challenge:
  assumes "signing_ok A" and "minSessionSecret \<le> length (a_SessionSecret A)" and "pl_session L sd"
    and "e_now e < numeric_date (start + 5 * minute)"
    and "cookieValue r wauthnFlowCookie = c_jwtSign (a_lib A) (a_SessionSecret A)
      (zero_claims\<lparr>jw_s := sd, jw_aud := [audWebauthn], jw_exp := Some (numeric_date (start + 5 * minute))\<rparr>)"
  shows "getWauthnFlow A L r e = Some sd"
proof -
  have k: "a_SessionSecret A \<in> set (secrets A)" using assms(2) by (simp add: secrets_def set_verifySecrets)
  moreover have "jwt_ok (a_lib A)" "keys_separate (a_lib A) (filter (\<lambda>k. k \<noteq> a_SessionSecret A) (secrets A)) (a_SessionSecret A)"
    using assms(1) by (simp_all add: signing_ok_def)
  ultimately show ?thesis
    using parseJWTMulti_signed [of "a_lib A" "a_SessionSecret A" "secrets A"] assms(2-5) by (simp add: getWauthnFlow_def)
qed

text \<open>Where nothing stands against it, an accepted assertion opens a session.\<close>

lemma passkey_opens:
  assumes A: "minSessionSecret \<le> length (a_SessionSecret A)" "a_authorizer A = None" "a_passkeys A"
    and f: "getWauthnFlow A L r e = Some sd" "finishDiscoverable A L sd body (clearCookie wauthnFlowCookie e) = (Some (u, cred), e1)"
    and u: "\<not> fst (loginBlocked (e_now e) (Some u))" "\<not> cr_CloneWarning cred"
      "\<And>e'. st_users (e_store e') = st_users (e_store e1) \<Longrightarrow> st_totp (e_store e') = st_totp (e_store e1) \<Longrightarrow> no_second_factor A (au_Sub u) e'"
  shows "sess_cookies (snd (WebauthnLoginFinish A L body r e)) \<noteq> []"
proof -
  have n: "e_now e1 = e_now e" using finishDiscoverable_effect(2) [OF f(2)] by simp
  let ?e = "doAudit (au_ID u) (au_Email u) True (snd (op (\<lambda>s. TouchPasskey (e_now e) s (cr_ID cred) (cr_SignCount cred)) e1))"
  have "st_users (e_store ?e) = st_users (e_store e1)" "st_totp (e_store ?e) = st_totp (e_store e1)"
    by (simp_all add: RecordAudit_def op_def TouchPasskey_def)
  from u(3) [OF this] have "no_second_factor A (au_Sub u) ?e" .
  moreover have z: "0 \<le> loginTTL b" for b by (simp add: loginTTL_def sessionTTL_def rememberTTL_def hour_def minute_def second_ns_def)
  have "sess_cookies (snd (openSession A r b i j (loginTTL rm) e0)) \<noteq> []" for b i j rm e0
    using opens [OF A(1) z, of r b i j rm e0] by auto
  ultimately have "sess_cookies (snd (completeLogin A r (identity_of u) rm ff ?e)) \<noteq> []" for rm ff
    by (cases "storedUser A (au_Sub u) ?e")
      (simp_all add: completeLogin_def authorizeLogin_def A(2) identity_of_def no_second_factor_def Let_def split_beta split: sum.split)
  moreover have "snd (WebauthnLoginFinish A L body r e) =
      snd (completeLogin A r (identity_of u) (attr (rq_query r) ''remember'' = ''true'') (cr_ID cred) ?e)"
    using u(1,2) by (simp add: WebauthnLoginFinish_def A(3) f n Let_def split_beta split: sum.split bool.split)
  ultimately show ?thesis by simp
qed

text \<open>A library that answers with the credential named by the body, its counter up by one.\<close>

definition demo_passkeys :: passkey_lib where
  "demo_passkeys = \<lparr>pl_hostname = Some, pl_new = (\<lambda>i n o'. True), pl_beginRegistration = (\<lambda>i u ex. Some (''o'', ''sd'')),
     pl_finishRegistration = (\<lambda>now u sd body. None), pl_beginDiscoverable = (\<lambda>i. Some (''o'', ''sd'')),
     pl_beginLogin = (\<lambda>i u. Some (''o'', ''sd'')), pl_assertion = (\<lambda>sd body. Some (body, ''h'')),
     pl_finishLogin = (\<lambda>now u sd body. map_option (\<lambda>c. c\<lparr>cr_SignCount := cr_SignCount c + 1,
       cr_CloneWarning := \<not> cr_SignCount c < cr_SignCount c + 1\<rparr>) (find (\<lambda>c. cr_ID c = body) (wu_creds u))),
     pl_session = (\<lambda>sd. True)\<rparr>"

definition demo_keyed :: authn where "demo_keyed = demo_oidc\<lparr>a_passkeys := True\<rparr>"

definition demo_keyed_env :: env where
  "demo_keyed_env = demo_env (snd (AddPasskey 6 (snd (EnsureWebauthnHandle ''h'' demo_login_store ''1'')) ''1''
     (credentialToPasskey demo_credential ''phone'')))"

abbreviation demo_challenge :: string where
  "demo_challenge \<equiv> c_jwtSign demo_lib demo_secret
     (zero_claims\<lparr>jw_s := ''sd'', jw_aud := [audWebauthn], jw_exp := Some (numeric_date (1000 + 5 * minute))\<rparr>)"

definition demo_assertion :: "(string \<times> string) list \<Rightarrow> request" where
  "demo_assertion cs = (demo_request ((wauthnFlowCookie, demo_challenge) # cs) [])\<lparr>rq_path := ''/auth/webauthn/login/finish''\<rparr>"

lemma demo_keyed [simp]:
  "a_lib demo_keyed = demo_lib" "a_SessionSecret demo_keyed = demo_secret" "secrets demo_keyed = secrets demo_authn"
  "a_passkeys demo_keyed" "a_authorizer demo_keyed = None" "signing_ok demo_keyed" "a_twoFactor demo_keyed"
  "e_now demo_keyed_env = 1000" "sess_cookies demo_keyed_env = []"
  using demo_signing
  by (simp_all add: demo_keyed_def secrets_def signing_ok_def demo_keyed_env_def demo_env_def sess_cookies_def demo_oidc_def demo_authn_def)

lemma demo_counting: "counting_lib demo_passkeys"
  unfolding counting_lib_def demo_passkeys_def by (auto simp: find_Some_iff)

lemma demo_challenge: "e_now e = 1000 \<Longrightarrow> getWauthnFlow demo_keyed demo_passkeys (demo_assertion cs) e = Some ''sd''"
proof -
  have "1000 < numeric_date (1000 + 5 * minute)"
    by (rule numeric_date_later) (simp add: second_ns_def minute_def)
  moreover assume "e_now e = 1000"
  ultimately show ?thesis
    by (intro own_challenge [where start = 1000])
      (simp_all add: demo_passkeys_def demo_assertion_def demo_request_def cookieValue_def attr_def)
qed

lemma demo_discovered:
  "map_option (\<lambda>(u, c). (u, cr_CloneWarning c)) (fst (finishDiscoverable demo_keyed demo_passkeys ''sd'' ''id'' (clearCookie wauthnFlowCookie demo_keyed_env)))
     = Some (demo_login_user, False)"
  "st_users (e_store (snd (finishDiscoverable demo_keyed demo_passkeys ''sd'' ''id'' (clearCookie wauthnFlowCookie demo_keyed_env))))
     = st_users (e_store demo_keyed_env)"
  "st_totp (e_store (snd (finishDiscoverable demo_keyed demo_passkeys ''sd'' ''id'' (clearCookie wauthnFlowCookie demo_keyed_env)))) = []"
  by code_simp+

text \<open>The owner of the demonstration's passkey signs in.\<close>

lemma demo_signs_in: "sess_cookies (snd (WebauthnLoginFinish demo_keyed demo_passkeys ''id'' (demo_assertion []) demo_keyed_env)) \<noteq> []"
proof -
  obtain res e1 where f: "finishDiscoverable demo_keyed demo_passkeys ''sd'' ''id'' (clearCookie wauthnFlowCookie demo_keyed_env) = (res, e1)"
    by fastforce
  with demo_discovered obtain cred where cred: "res = Some (demo_login_user, cred)" "\<not> cr_CloneWarning cred"
      "st_users (e_store e1) = st_users (e_store demo_keyed_env)" "st_totp (e_store e1) = []"
    by auto
  have "no_second_factor demo_keyed i e'" if "st_totp (e_store e') = []" for i e'
    using that by (auto simp: no_second_factor_def userHasTOTP_def TOTP_def split: option.splits sum.splits)
  then show ?thesis
    using passkey_opens [OF _ _ _ demo_challenge f [unfolded cred(1)]] cred demo_login_steps(6) by simp
qed

theorem passkey_session_is_earned_witness:
  "\<exists>c. by_passkey demo_keyed demo_passkeys ''id'' (demo_assertion []) demo_keyed_env
     (snd (WebauthnLoginFinish demo_keyed demo_passkeys ''id'' (demo_assertion []) demo_keyed_env)) c"
proof -
  obtain c where "c \<in> set (sess_cookies (snd (WebauthnLoginFinish demo_keyed demo_passkeys ''id'' (demo_assertion []) demo_keyed_env)))"
    using demo_signs_in list.set_intros(1) by (metis neq_Nil_conv)
  from passkey_session_is_earned [OF _ this] show ?thesis by auto
qed

lemma demo_keyed_store: "store_ok (e_store demo_keyed_env)"
proof -
  have "store_ok demo_login_store" unfolding demo_login_store_def by (intro store_ok_steps cred_step_ok [OF cred_step.SetEmailVerified]) simp_all
  from cred_step_ok [OF cred_step.EnsureWebauthnHandle this] show ?thesis
    unfolding demo_keyed_env_def demo_env_def by (simp add: cred_step_ok [OF cred_step.AddPasskey])
qed

theorem passkey_counter_grows_witness:
  "\<exists>p q. mget (st_passkeys (e_store demo_keyed_env)) 1 = Some p \<and>
     mget (st_passkeys (snd (TouchPasskey 7 (e_store demo_keyed_env) ''id'' 5))) 1 = Some q \<and> pk_SignCount (p_p p) \<le> pk_SignCount (p_p q)"
proof -
  let ?s = "e_store demo_keyed_env" and ?s' = "snd (TouchPasskey 7 (e_store demo_keyed_env) ''id'' 5)"
  have p: "mget (st_passkeys ?s) 1 \<noteq> None" "mget (st_passkeys ?s') 1 \<noteq> None" by code_simp+
  then obtain p q where pq: "mget (st_passkeys ?s) 1 = Some p" "mget (st_passkeys ?s') 1 = Some q" by auto
  have "mem_step ?s Silent ?s'" by (simp add: mem_step_def cred_step.TouchPasskey)
  then have "mem_trace ?s ([] @ [Silent]) ?s'" by (rule mem_trace.extend [OF mem_trace.start])
  from passkey_counter_grows [OF demo_keyed_store this pq(1)] pq show ?thesis by auto
qed


text \<open>A login of the demonstration's account that began with another passkey.\<close>

definition demo_pending :: string where
  "demo_pending = the (mintPending demo_lib demo_secret 1000 (identity_of demo_login_user) [] False ''other'')"

lemma demo_pending:
  "\<exists>pc. pendingUser demo_keyed (demo_assertion [(twoFactorPendingCookie, demo_pending)]) demo_keyed_env = Some (demo_login_user, pc) \<and>
     pc_FirstFactorCred pc = ''other''"
proof -
  let ?i = "identity_of demo_login_user"
  have "mintPending demo_lib demo_secret 1000 ?i [] False ''other'' = Some demo_pending"
    by (simp add: demo_pending_def mintPending_def signJWT_def minSessionSecret_def)
  moreover have "1000 < numeric_date (1000 + twoFactorPendingTTL)"
    by (rule numeric_date_later) (simp add: second_ns_def twoFactorPendingTTL_def minute_def)
  moreover have "id_Subject ?i = ''local:r''" by (simp add: identity_of_def demo_login_user_def)
  ultimately have "parsePending demo_lib 1000 (secrets demo_authn) demo_pending =
      Some \<lparr>pc_Email = id_Email ?i, pc_Name = id_Name ?i, pc_Groups = id_Groups ?i, pc_Role = [], pc_Remember = False,
        pc_FirstFactorCred = ''other'', pc_Subject = ''local:r''\<rparr>"
    using own_pending [of demo_keyed 1000 ?i "[]" False "''other''" demo_pending 1000] by simp
  moreover have "UserBySub (e_store demo_keyed_env) ''local:r'' = Ok demo_login_user" by code_simp
  moreover have "cookieValue (demo_assertion [(twoFactorPendingCookie, demo_pending)]) twoFactorPendingCookie = demo_pending"
    by (simp add: demo_assertion_def demo_request_def cookieValue_def attr_def wauthnFlowCookie_def twoFactorPendingCookie_def)
  ultimately show ?thesis by (simp add: pendingUser_def)
qed

lemma demo_proves:
  "map_option (\<lambda>(wu, e). map_option (\<lambda>c. (cr_ID c, cr_CloneWarning c)) (pl_finishLogin demo_passkeys (e_now e) wu ''sd'' ''id''))
     (case wauthnUserFor demo_keyed demo_login_user (clearCookie wauthnFlowCookie demo_keyed_env) of (Inl _, e) \<Rightarrow> None | (Inr wu, e) \<Rightarrow> Some (wu, e))
     = Some (Some (''id'', False))"
  by code_simp

lemma second_opens:
  assumes A: "minSessionSecret \<le> length (a_SessionSecret A)" "a_twoFactor A" "a_passkeys A"
    and p: "pendingUser A r e = Some (u, pc)" "\<not> fst (loginBlocked (e_now e) (Some u))" "getWauthnFlow A L r e = Some sd"
    and w: "wauthnUserFor A u (clearCookie wauthnFlowCookie e) = (Ok wu, e1)" "pl_finishLogin L (e_now e1) wu sd body = Some cred"
      "\<not> cr_CloneWarning cred" "cr_ID cred \<noteq> pc_FirstFactorCred pc"
  shows "sess_cookies (snd (TwoFactorWebauthnFinish A L body r e)) \<noteq> []"
proof -
  have z: "0 \<le> loginTTL b" for b by (simp add: loginTTL_def sessionTTL_def rememberTTL_def hour_def minute_def second_ns_def)
  have "sess_cookies (snd (openSession A r b i j (loginTTL (pc_Remember pc)) e0)) \<noteq> []" for b i j e0
    using opens [OF A(1) z, of r b i j "pc_Remember pc" e0] by auto
  then have "sess_cookies (snd (completePendingLogin A r pc e0)) \<noteq> []" for e0
    by (simp add: completePendingLogin_def Let_def)
  then show ?thesis
    by (simp add: TwoFactorWebauthnFinish_def A p w Let_def split_beta split: sum.split)
qed

theorem second_passkey_is_distinct_witness:
  "\<exists>c. let r = demo_assertion [(twoFactorPendingCookie, demo_pending)]; e' = snd (TwoFactorWebauthnFinish demo_keyed demo_passkeys ''id'' r demo_keyed_env)
     in c \<in> set (sess_cookies e') \<and> by_second_passkey demo_keyed demo_passkeys ''id'' r demo_keyed_env e' c"
proof -
  let ?r = "demo_assertion [(twoFactorPendingCookie, demo_pending)]" and ?e = demo_keyed_env and ?A = demo_keyed and ?L = demo_passkeys
  obtain pc where pc: "pendingUser ?A ?r ?e = Some (demo_login_user, pc)" "pc_FirstFactorCred pc = ''other''" using demo_pending by blast
  obtain wu e1 cred where w: "wauthnUserFor ?A demo_login_user (clearCookie wauthnFlowCookie ?e) = (Ok wu, e1)"
      "pl_finishLogin ?L (e_now e1) wu ''sd'' ''id'' = Some cred" "cr_ID cred = ''id''" "\<not> cr_CloneWarning cred"
    using demo_proves by (auto split: prod.splits sum.splits)
  have "sess_cookies (snd (TwoFactorWebauthnFinish ?A ?L ''id'' ?r ?e)) \<noteq> []"
    using second_opens [OF _ _ _ pc(1) _ demo_challenge w(1,2,4)] demo_login_steps(6) pc(2) w(3) by (simp add: minSessionSecret_def)
  then obtain c where "c \<in> set (sess_cookies (snd (TwoFactorWebauthnFinish ?A ?L ''id'' ?r ?e)))"
    using list.set_intros(1) by (metis neq_Nil_conv)
  with second_passkey_is_distinct [OF _ this] show ?thesis by (intro exI [of _ c]) (simp add: Let_def)
qed

text \<open>An account with an authenticator app and two passkeys: the login with one is held back, the other completes it.\<close>

definition demo_two_env :: env where
  "demo_two_env = demo_env (snd (EnableTOTP (snd (SetTOTPSecret (snd (AddPasskey 8 (e_store demo_keyed_env) ''1''
     (credentialToPasskey (demo_credential\<lparr>cr_ID := ''id2''\<rparr>) ''tablet''))) ''1'' ''S'')) ''1''))"

lemma demo_two_discovered:
  "map_option (\<lambda>(u, c). (u, cr_CloneWarning c)) (fst (finishDiscoverable demo_keyed demo_passkeys ''sd'' ''id'' (clearCookie wauthnFlowCookie demo_two_env)))
     = Some (demo_login_user, False)"
  "(let e = snd (finishDiscoverable demo_keyed demo_passkeys ''sd'' ''id'' (clearCookie wauthnFlowCookie demo_two_env)) in
     storedUser demo_keyed ''local:r'' e = Some demo_login_user \<and> userHasTOTP demo_keyed ''1'' e)"
  "UserBySub (e_store demo_two_env) ''local:r'' = Ok demo_login_user"
  "map_option (\<lambda>(wu, e). map_option (\<lambda>c. (cr_ID c, cr_CloneWarning c)) (pl_finishLogin demo_passkeys (e_now e) wu ''sd'' ''id2''))
     (case wauthnUserFor demo_keyed demo_login_user (clearCookie wauthnFlowCookie demo_two_env) of (Inl _, e) \<Rightarrow> None | (Inr wu, e) \<Rightarrow> Some (wu, e))
     = Some (Some (''id2'', False))"
  by code_simp+

lemma completeLogin_held:
  assumes "a_authorizer A = None" and "minSessionSecret \<le> length (a_SessionSecret A)"
    and "storedUser A (id_Subject i) e = Some u" and "userHasTOTP A (au_ID u) e"
  shows "\<exists>j tk. mintPending (a_lib A) (a_SessionSecret A) (e_now e) j [] rm ff = Some tk \<and> id_Subject j = id_Subject i \<and>
    completeLogin A r i rm ff e =
      (Ok True, clearCookie flowCookie (setCookie twoFactorPendingCookie tk (twoFactorPendingTTL div second_ns) e))"
proof -
  let ?j = "loginGroups A (Some u) i e"
  obtain tk where "mintPending (a_lib A) (a_SessionSecret A) (e_now e) ?j [] rm ff = Some tk"
    using assms(2) by (simp add: mintPending_def signJWT_def)
  then show ?thesis
    using assms by (intro exI [of _ ?j] exI [of _ tk]) (simp add: completeLogin_def authorizeLogin_def Let_def)
qed

lemma user_cong:
  assumes "st_users (e_store e) = st_users (e_store e')" and "st_totp (e_store e) = st_totp (e_store e')"
  shows "storedUser A sub e = storedUser A sub e'" and "userHasTOTP A i e = userHasTOTP A i e'"
  unfolding storedUser_def userHasTOTP_def UserBySub_def findBySub_def TOTP_def assms by (rule refl)+

lemma demo_held:
  "\<exists>p j. let q = WebauthnLoginFinish demo_keyed demo_passkeys ''id'' (demo_assertion []) demo_two_env in
     fst q = JSON 200 [(''twoFactorRequired'', JBool True)] \<and> p \<in> set (e_cookies (snd q)) \<and> ck_name p = twoFactorPendingCookie \<and>
     mintPending demo_lib demo_secret 1000 j [] False ''id'' = Some (ck_value p) \<and> id_Subject j = ''local:r''"
proof -
  let ?A = demo_keyed and ?L = demo_passkeys and ?r = "demo_assertion []" and ?e = demo_two_env
  obtain res e1 where f: "finishDiscoverable ?A ?L ''sd'' ''id'' (clearCookie wauthnFlowCookie ?e) = (res, e1)" by fastforce
  obtain cred where cred: "res = Some (demo_login_user, cred)" "\<not> cr_CloneWarning cred"
    using demo_two_discovered(1) f by auto
  have n: "e_now ?e = 1000" "e_now e1 = 1000" using finishDiscoverable_effect(2) [OF f] by (simp_all add: demo_two_env_def demo_env_def)
  obtain wu where "pl_finishLogin ?L 1000 wu ''sd'' ''id'' = Some cred"
    using finishDiscoverable_effect(4) [OF f cred(1)] n(1) by auto
  then have id: "cr_ID cred = ''id''" by (auto simp: demo_passkeys_def find_Some_iff)
  let ?e' = "doAudit ''1'' ''a@x.y'' True (snd (op (\<lambda>s. TouchPasskey 1000 s (cr_ID cred) (cr_SignCount cred)) e1))"
  have u: "au_ID demo_login_user = ''1''" "au_Email demo_login_user = ''a@x.y''" "id_Subject (identity_of demo_login_user) = ''local:r''"
    by (simp_all add: demo_login_user_def identity_of_def)
  have same: "st_users (e_store ?e') = st_users (e_store e1)" "st_totp (e_store ?e') = st_totp (e_store e1)"
    by (simp_all add: RecordAudit_def op_def TouchPasskey_def)
  have "storedUser ?A ''local:r'' ?e' = Some demo_login_user" "userHasTOTP ?A ''1'' ?e'"
    using demo_two_discovered(2) f user_cong [OF same] by (simp_all only: Let_def snd_conv)
  then obtain j tk where c: "mintPending demo_lib demo_secret 1000 j [] False ''id'' = Some tk" "id_Subject j = ''local:r''"
      "completeLogin ?A ?r (identity_of demo_login_user) False ''id'' ?e' =
        (Ok True, clearCookie flowCookie (setCookie twoFactorPendingCookie tk (twoFactorPendingTTL div second_ns) ?e'))"
    using completeLogin_held [of ?A "identity_of demo_login_user" ?e' demo_login_user False "''id''" ?r] u n(2) by (auto simp: minSessionSecret_def)
  have "attr (rq_query ?r) ''remember'' = []" by (simp add: demo_assertion_def demo_request_def attr_def)
  then have "WebauthnLoginFinish ?A ?L ''id'' ?r ?e = (JSON 200 [(''twoFactorRequired'', JBool True)],
      clearCookie flowCookie (setCookie twoFactorPendingCookie tk (twoFactorPendingTTL div second_ns) ?e'))"
    using c(3) demo_login_steps(6) cred(2) id
    by (simp add: WebauthnLoginFinish_def demo_challenge [OF n(1)] f [unfolded cred(1)] n(2) u Let_def)
  moreover obtain p where "p \<in> set (e_cookies (setCookie twoFactorPendingCookie tk (twoFactorPendingTTL div second_ns) ?e'))"
      "ck_name p = twoFactorPendingCookie" "ck_value p = tk"
    by (rule that [of "\<lparr>ck_name = twoFactorPendingCookie, ck_value = tk, ck_maxAge = twoFactorPendingTTL div second_ns\<rparr>"])
      (simp_all add: setCookie_def)
  ultimately show ?thesis
    using c(1,2) by (intro exI [of _ p] exI [of _ j]) (auto simp: clearCookie_def setCookie_def Let_def)
qed


end
