(* ===== verification/SiteLaws.thy ===== *)
theory SiteLaws
  imports Site PasskeyLaws
begin

text \<open>
  The laws of the engine for the whole HTTP surface: every session is earned, the stores stay well formed
  along every run, and a ceremony uses the caller's session only behind the cross-site check.
\<close>

section \<open>Every session is earned\<close>

definition opening_ceremonies :: "ceremony set" where
  "opening_ceremonies = {EpPasskeyFinish, EpSecondPasskeyFinish, EpSocialCallback, EpSocialFormCallback}"

context env_effects
begin

lemma keeps_quiet_ceremony:
  assumes "P e" and "ep \<notin> opening_ceremonies"
  shows "keeps (ceremonyHandler ep W body r e)"
  using assms
  by (cases ep) (simp_all add: opening_ceremonies_def keeps_ret keeps_WebauthnRegisterBegin keeps_WebauthnRegisterFinish
      keeps_WebauthnLoginBegin keeps_TwoFactorWebauthnBegin keeps_SocialLogin)

end

context env_invariant
begin

lemma keeps_ceremonyHandler:
  assumes "store_authorizer A" and "P e" and "fresh_subject A e" and W: "sw_authn W = A"
  shows "keeps (ceremonyHandler ep W body r e)"
proof (cases "ep \<in> opening_ceremonies")
  case True
  with assms show ?thesis
    by (auto simp: opening_ceremonies_def W intro: keeps_WebauthnLoginFinish keeps_TwoFactorWebauthnFinish keeps_SocialCallback)
qed (rule keeps_quiet_ceremony [OF assms(2)])

lemma keeps_SiteHandler:
  assumes "store_authorizer A" and "P e" and "fresh_subject A e" and W: "sw_authn W = A"
  shows "keeps (SiteHandler W body r e)"
  using keeps_handler [OF assms(1-3)] keeps_ceremonyHandler [OF assms] assms(2)
  by (auto simp: SiteHandler_def W split: verdict.split option.split intro: keeps_ret)

lemma P_site_step:
  assumes "site_step W e e'" and "store_authorizer A" and "P e" and W: "sw_authn W = A"
    and tick: "\<And>e t. P e \<Longrightarrow> e_now e \<le> t \<Longrightarrow> P (e\<lparr>e_now := t\<rparr>)" and forget: "\<And>e. P e \<Longrightarrow> P (e\<lparr>e_cookies := []\<rparr>)"
  shows "P e'"
  using assms(1)
proof cases
  case engine
  then have "engine_step A e e'" by (simp add: W)
  then show ?thesis using assms(2,3) tick forget by (rule P_engine_step)
next
  case (request body r)
  then have "fresh_subject A (e\<lparr>e_cookies := []\<rparr>)" by (simp add: fresh_subject_def W)
  from keeps_SiteHandler [OF assms(2) forget [OF assms(3)] this W] request show ?thesis by (simp add: keeps_def)
qed

lemma P_site_run:
  assumes "site_run W e e'" and "store_authorizer A" and "P e" and "sw_authn W = A"
    and "\<And>e t. P e \<Longrightarrow> e_now e \<le> t \<Longrightarrow> P (e\<lparr>e_now := t\<rparr>)" and "\<And>e. P e \<Longrightarrow> P (e\<lparr>e_cookies := []\<rparr>)"
  shows "P e'"
  using assms by (induction) (auto intro: P_site_step)

end

text \<open>The justifications of the engine's own endpoints and those of the ceremonies.\<close>

definition earned :: "site \<Rightarrow> string \<Rightarrow> request \<Rightarrow> env \<Rightarrow> env \<Rightarrow> setcookie \<Rightarrow> bool" where
  "earned W body r e e' c \<longleftrightarrow> (let A = sw_authn W in
     by_first_factor A r e e' c \<or> by_second_factor A r e e' c \<or> by_provider A r e e' c \<or> by_admin A r e e' c \<or>
     by_own_session A r e e' c \<or> by_social A (sw_social W) r e e' c \<or> by_passkey A (sw_passkeys W) body r e e' c \<or>
     by_second_passkey A (sw_passkeys W) body r e e' c)"

lemma ceremony_cookie:
  assumes "sess_cookies e = []" and "ep \<in> opening_ceremonies" and "c \<in> set (sess_cookies (snd (ceremonyHandler ep W body r e)))"
  shows "earned W body r e (snd (ceremonyHandler ep W body r e)) c"
  using assms
  by (auto simp: opening_ceremonies_def earned_def Let_def dest: social_session_is_earned passkey_session_is_earned second_passkey)

text \<open>
  C1: Every session is earned, whatever endpoint of the site opens it. If the answer to a request carries a
  session cookie, that very request justified it: by a first factor (the password of a confirmed, not locked
  out address, an unused mailed link or a mailed code) of an account that is neither disabled nor banned and
  has no second factor enabled; by the pending login of a first factor and a fresh code of the second, or
  another passkey; by an ID token of the provider or of a social provider bound to the caller's own login
  flow; by a passkey's assertion that answers the caller's own challenge; by an administrator impersonating
  the account, and marked as such; or by the caller's own live session, whose id, subject and expiry the new
  cookie keeps.
\<close>

theorem site_session_is_earned:
  assumes "fresh_subject (sw_authn W) e" and "sess_cookies e = []" and "e' = snd (SiteHandler W body r e)" and "c \<in> set (sess_cookies e')"
  shows "earned W body r e e' c"
proof -
  have pass: "p = r" if "CSRFHTTP (sw_authn W) r = Pass p" for p
    using that by (auto simp: CSRFHTTP_def Let_def split: if_splits)
  from assms(2-4) pass consider
      (ceremony) ep where "e' = snd (ceremonyHandler ep W body r e)"
    | (endpoint) ep where "routed r ep" "e' = snd (handler ep (sw_authn W) r e)"
    by (auto simp: SiteHandler_def find_Some_iff split: verdict.splits option.splits)
  then show ?thesis
  proof cases
    case (ceremony ep)
    have "ep \<in> opening_ceremonies"
      using no_cookie.keeps_quiet_ceremony [OF assms(2), of ep W body r] assms(4) ceremony
      by (rule_tac ccontr) (simp add: no_cookie.keeps_def)
    from ceremony_cookie [OF assms(2) this] assms(4) show ?thesis by (simp add: ceremony)
  next
    case (endpoint ep)
    have "ep \<in> opening_endpoints"
      using no_cookie.keeps_quiet [OF assms(2,1), of ep r] assms(4) endpoint(2) by (rule_tac ccontr) (simp add: no_cookie.keeps_def)
    from opening_cookie [OF assms(2) this endpoint(1)] assms(4) show ?thesis by (auto simp: endpoint(2) earned_def Let_def)
  qed
qed

text \<open>
  C2: Whatever requests to the whole surface, background jobs, clock ticks and calls of other components the
  engine serves, in any order, the stores stay well formed, and their new state is reached from the old
  one by a history of the stores' own methods, so every law of those histories holds of the site.
\<close>

theorem site_keeps_stores:
  assumes "store_authorizer (sw_authn W)" and "store_ok (e_store e)" and "site_run W e e'"
  shows "store_ok (e_store e') \<and> (\<exists>evs. mem_trace (e_store e) evs (e_store e'))"
proof
  show "store_ok (e_store e')"
    using stores.P_site_run [OF assms(3,1,2) refl] by simp
  have "\<exists>evs. mem_trace (e_store e) evs (e_store e)" by (blast intro: mem_trace.start)
  from history.P_site_run [OF assms(3,1) this refl] show "\<exists>evs. mem_trace (e_store e) evs (e_store e')" by simp
qed

section \<open>Cross-site requests\<close>

text \<open>The handlers of ceremonies that answer without a token read only the cookies of their own flow.\<close>

lemma ceremony_cookieless:
  assumes "attr cs twoFactorPendingCookie = cookieValue r twoFactorPendingCookie"
    and "attr cs wauthnFlowCookie = cookieValue r wauthnFlowCookie" and "attr cs flowCookie = cookieValue r flowCookie"
    and "ep \<notin> {EpRegisterBegin, EpRegisterFinish, EpSocialLogin}"
  shows "ceremonyHandler ep W body (r\<lparr>rq_cookies := cs\<rparr>) e = ceremonyHandler ep W body r e"
proof -
  let ?r = "r\<lparr>rq_cookies := cs\<rparr>"
  have c: "cookieValue ?r twoFactorPendingCookie = cookieValue r twoFactorPendingCookie"
    "cookieValue ?r wauthnFlowCookie = cookieValue r wauthnFlowCookie" "cookieValue ?r flowCookie = cookieValue r flowCookie"
    using assms(1-3) by (simp_all add: cookieValue_def)
  have b: "rq_query ?r = rq_query r" "rq_params ?r = rq_params r" "formValue ?r k = formValue r k" for k
    by (simp_all add: formValue_def split: option.split)
  have "WebauthnLoginBegin A L ?r e = WebauthnLoginBegin A L r e" "WebauthnLoginFinish A L body ?r e = WebauthnLoginFinish A L body r e"
    "TwoFactorWebauthnBegin A L ?r e = TwoFactorWebauthnBegin A L r e" "TwoFactorWebauthnFinish A L body ?r e = TwoFactorWebauthnFinish A L body r e"
    "SocialCallback A G ?r e = SocialCallback A G r e" for A L G
    unfolding WebauthnLoginBegin_def WebauthnLoginFinish_def TwoFactorWebauthnBegin_def TwoFactorWebauthnFinish_def SocialCallback_def
      socialSignIn_def getWauthnFlow_def pendingUser_def complete_cookieless c b by (rule refl)+
  with assms(4) show ?thesis by (cases ep) simp_all
qed

text \<open>
  Without the token that only the site's own pages can read, a cross-site request cannot use the caller's
  session in a ceremony: enrolling a passkey answers 403 and changes nothing, and the others (signing in with
  a passkey, the second step, a provider's form post) do what they would do without the caller's session,
  reading only the cookies of the login that is under way.
\<close>

theorem ceremony_csrf:
  assumes "enforcing (sw_authn W)" and "ceremonyRouted r ep" and "fst (ceremonyRoute ep (rq_params r)) \<noteq> ''GET''"
    and "bearerToken (header r ''Authorization'') = []" and "\<not> csrfValid (sw_authn W) r"
  shows "SiteHandler W body r e = (jerr 403 ''invalid or missing CSRF token'', e) \<or>
    (\<forall>cs. attr cs twoFactorPendingCookie = cookieValue r twoFactorPendingCookie \<and>
       attr cs wauthnFlowCookie = cookieValue r wauthnFlowCookie \<and> attr cs flowCookie = cookieValue r flowCookie \<longrightarrow>
       ceremonyHandler ep W body (r\<lparr>rq_cookies := cs\<rparr>) e = ceremonyHandler ep W body r e)"
proof (cases "ep \<in> {EpRegisterBegin, EpRegisterFinish}")
  case True
  have "path_checked ''/auth/webauthn/register/begin''" "path_checked ''/auth/webauthn/register/finish''"
    by (simp_all add: path_simps)
  with True have r: "rq_method r = ''POST''" "path_checked (rq_path r)"
    using assms(2) unfolding ceremonyRouted_def by auto
  then have "CSRFHTTP (sw_authn W) r = Refuse (jerr 403 ''invalid or missing CSRF token'')"
    using assms(1,4,5) unfolding path_checked_def CSRFHTTP_def Let_def by auto
  then show ?thesis by (simp add: SiteHandler_def)
next
  case False
  moreover have "ep \<noteq> EpSocialLogin" using assms(3) by auto
  ultimately show ?thesis using ceremony_cookieless [where ep = ep] by simp
qed

section \<open>A site to try the laws on\<close>

definition demo_site :: site where
  "demo_site = \<lparr>sw_authn = demo_keyed, sw_social = demo_social, sw_passkeys = demo_passkeys\<rparr>"

lemma demo_site [simp]: "sw_authn demo_site = demo_keyed" "sw_social demo_site = demo_social" "sw_passkeys demo_site = demo_passkeys"
  by (simp_all add: demo_site_def)

lemma demo_keyed_fresh: "fresh_subject demo_keyed demo_keyed_env"
proof -
  have "map u_sub (mvals (st_users (e_store demo_keyed_env))) = [''local:r'']" by code_simp
  then have "findBySub (e_store demo_keyed_env) sub = None" if "sub \<noteq> ''local:r''" for sub
    using that by (auto simp: findBySub_def mfind_None)
  moreover have "format_uint k \<noteq> ''r''" for k
    using format_uint_digits [of k] by (auto simp: is_digit_def)
  ultimately show ?thesis by (simp add: fresh_subject_def)
qed

lemma demo_site_serves:
  "SiteHandler demo_site ''id'' (demo_assertion []) demo_keyed_env =
     WebauthnLoginFinish demo_keyed demo_passkeys ''id'' (demo_assertion []) demo_keyed_env"
proof -
  let ?r = "demo_assertion []"
  have "CSRFHTTP demo_keyed ?r = Pass ?r"
    by (simp add: CSRFHTTP_def Let_def demo_assertion_def demo_request_def isSocialCallback_def csrfExempt_def originAllowed_def
        requestOrigin_def header_def attr_def has_prefix_def)
  moreover have "LocalEnabled demo_keyed" by (simp add: LocalEnabled_def demo_keyed_def demo_oidc_def demo_authn_def)
  then have "\<exists>rest. ceremonies demo_site = [EpAuthConfig, EpRegisterBegin, EpRegisterFinish, EpPasskeyBegin, EpPasskeyFinish] @ rest"
    by (simp add: ceremonies_def)
  then have "find (ceremonyRouted ?r) (ceremonies demo_site) = Some EpPasskeyFinish"
    by (auto simp: ceremonyRouted_def demo_assertion_def demo_request_def)
  ultimately show ?thesis by (simp add: SiteHandler_def)
qed

theorem site_session_is_earned_witness:
  "\<exists>c. earned demo_site ''id'' (demo_assertion []) demo_keyed_env (snd (SiteHandler demo_site ''id'' (demo_assertion []) demo_keyed_env)) c"
proof -
  obtain c where "c \<in> set (sess_cookies (snd (SiteHandler demo_site ''id'' (demo_assertion []) demo_keyed_env)))"
    unfolding demo_site_serves using demo_signs_in list.set_intros(1) by (metis neq_Nil_conv)
  from site_session_is_earned [OF _ _ refl this] show ?thesis using demo_keyed_fresh by auto
qed

theorem site_keeps_stores_witness:
  "store_ok (e_store (snd (SiteHandler demo_site ''id'' (demo_assertion []) demo_keyed_env)))"
proof -
  have "site_step demo_site demo_keyed_env (snd (SiteHandler demo_site ''id'' (demo_assertion []) (demo_keyed_env\<lparr>e_cookies := []\<rparr>)))"
    by (rule site_step.request) (simp add: demo_keyed_fresh)
  moreover have "demo_keyed_env\<lparr>e_cookies := []\<rparr> = demo_keyed_env" by (simp add: demo_keyed_env_def demo_env_def)
  ultimately have "site_run demo_site demo_keyed_env (snd (SiteHandler demo_site ''id'' (demo_assertion []) demo_keyed_env))"
    by (simp add: site_run.next_step [OF site_run.start])
  then show ?thesis
    using site_keeps_stores [of demo_site demo_keyed_env] demo_keyed_store by (simp add: store_authorizer_def)
qed

theorem ceremony_csrf_witness:
  "let r = (demo_request [] [])\<lparr>rq_path := ''/auth/webauthn/register/begin''\<rparr> in
   SiteHandler demo_site [] r demo_keyed_env = (jerr 403 ''invalid or missing CSRF token'', demo_keyed_env) \<or>
   (\<forall>cs. attr cs twoFactorPendingCookie = cookieValue r twoFactorPendingCookie \<and>
      attr cs wauthnFlowCookie = cookieValue r wauthnFlowCookie \<and> attr cs flowCookie = cookieValue r flowCookie \<longrightarrow>
      ceremonyHandler EpRegisterBegin demo_site [] (r\<lparr>rq_cookies := cs\<rparr>) demo_keyed_env =
      ceremonyHandler EpRegisterBegin demo_site [] r demo_keyed_env)"
proof -
  let ?r = "(demo_request [] [])\<lparr>rq_path := ''/auth/webauthn/register/begin''\<rparr>"
  have "ceremonyRouted ?r EpRegisterBegin" by (simp add: ceremonyRouted_def demo_request_def)
  moreover have "bearerToken (header ?r ''Authorization'') = []"
    by (simp add: demo_request_def header_def attr_def bearerToken_def has_prefix_def)
  moreover have "\<not> csrfValid demo_keyed ?r"
    by (simp add: csrfValid_def cookieValue_def attr_def demo_request_def)
  moreover have "enforcing demo_keyed" by (simp add: enforcing_def demo_keyed_def)
  ultimately show ?thesis
    using ceremony_csrf [of demo_site ?r EpRegisterBegin "[]" demo_keyed_env] by (simp add: Let_def)
qed

end
