(* ===== verification/PublicAddr.thy ===== *)
theory PublicAddr
  imports Prelude "HOL-Library.Word"
begin

text \<open>
  Which addresses a client's metadata document may be fetched from (\<open>publicAddr\<close> and \<open>blockedPrefixes\<close> of
  \<open>oidcprovider/cimd.go\<close>), over the addresses and prefixes of \<open>net/netip\<close>, and its law: the test, written
  with prefixes and predicates, refuses exactly the ranges that do not belong to the public Internet, and
  an IPv6 address that carries an IPv4 one cannot get around it.
\<close>

unbundle bit_operations_syntax

section \<open>Addresses\<close>

text \<open>An IPv4 address, or an IPv6 address with its zone.\<close>

datatype ipaddr = V4 "32 word" | V6 "128 word" string

datatype prefix = P4 "32 word" nat | P6 "128 word" nat

definition v4 :: "nat \<Rightarrow> nat \<Rightarrow> nat \<Rightarrow> nat \<Rightarrow> 32 word" where
  "v4 a b c d = of_nat (a * 2 ^ 24 + b * 2 ^ 16 + c * 2 ^ 8 + d)"

text \<open>An IPv6 prefix from its first four groups of sixteen bits.\<close>

definition v6 :: "nat \<Rightarrow> nat \<Rightarrow> nat \<Rightarrow> nat \<Rightarrow> 128 word" where
  "v6 a b c d = of_nat (a * 2 ^ 112 + b * 2 ^ 96 + c * 2 ^ 80 + d * 2 ^ 64)"

text \<open>\<open>Prefix.Contains\<close>: a prefix holds no address of the other family and none with a zone.\<close>

fun contains_addr :: "prefix \<Rightarrow> ipaddr \<Rightarrow> bool" where
  "contains_addr (P4 n b) (V4 x) = (drop_bit (32 - b) x = drop_bit (32 - b) n)"
| "contains_addr (P6 n b) (V6 x z) = (z = [] \<and> drop_bit (128 - b) x = drop_bit (128 - b) n)"
| "contains_addr _ _ = False"

fun unmap :: "ipaddr \<Rightarrow> ipaddr" where
  "unmap (V4 x) = V4 x"
| "unmap (V6 x z) = (if drop_bit 32 x = 0xffff then V4 (ucast x) else V6 x z)"

fun zone :: "ipaddr \<Rightarrow> string" where
  "zone (V4 x) = []"
| "zone (V6 x z) = z"

definition within :: "prefix list \<Rightarrow> ipaddr \<Rightarrow> bool" where
  "within ps a \<longleftrightarrow> list_ex (\<lambda>p. contains_addr p a) ps"

definition isPrivate :: "ipaddr \<Rightarrow> bool" where
  "isPrivate a = within [P4 (v4 10 0 0 0) 8, P4 (v4 172 16 0 0) 12, P4 (v4 192 168 0 0) 16, P6 (v6 0xfc00 0 0 0) 7] a"

definition isLoopback :: "ipaddr \<Rightarrow> bool" where
  "isLoopback a = within [P4 (v4 127 0 0 0) 8, P6 1 128] a"

definition isLinkLocalUnicast :: "ipaddr \<Rightarrow> bool" where
  "isLinkLocalUnicast a = within [P4 (v4 169 254 0 0) 16, P6 (v6 0xfe80 0 0 0) 10] a"

definition isMulticast :: "ipaddr \<Rightarrow> bool" where
  "isMulticast a = within [P4 (v4 224 0 0 0) 4, P6 (v6 0xff00 0 0 0) 8] a"

definition isUnspecified :: "ipaddr \<Rightarrow> bool" where
  "isUnspecified a \<longleftrightarrow> a = V4 0 \<or> a = V6 0 []"

definition isGlobalUnicast :: "ipaddr \<Rightarrow> bool" where
  "isGlobalUnicast a \<longleftrightarrow> a \<noteq> V4 0 \<and> a \<noteq> V4 (v4 255 255 255 255) \<and> a \<noteq> V6 0 [] \<and>
     \<not> isLoopback a \<and> \<not> isMulticast a \<and> \<not> isLinkLocalUnicast a"

section \<open>The test\<close>

definition blockedPrefixes :: "prefix list" where
  "blockedPrefixes = [
     P4 (v4 0 0 0 0) 8, P4 (v4 100 64 0 0) 10, P4 (v4 192 0 0 0) 24, P4 (v4 192 0 2 0) 24, P4 (v4 198 18 0 0) 15,
     P4 (v4 198 51 100 0) 24, P4 (v4 203 0 113 0) 24, P4 (v4 240 0 0 0) 4,
     P6 0 96, P6 (v6 0x64 0xff9b 0 0) 96, P6 (v6 0x64 0xff9b 1 0) 48, P6 (v6 0x100 0 0 0) 64, P6 (v6 0x2001 0 0 0) 32,
     P6 (v6 0x2001 0xdb8 0 0) 32, P6 (v6 0x2002 0 0 0) 16, P6 (v6 0xfec0 0 0 0) 10]"

definition publicAddr :: "ipaddr \<Rightarrow> bool" where
  "publicAddr a0 = (let a = unmap a0 in
     if zone a \<noteq> [] \<or> \<not> isGlobalUnicast a \<or> isPrivate a \<or> isLoopback a \<or> isLinkLocalUnicast a \<or> isMulticast a \<or> isUnspecified a
     then False
     else \<not> within blockedPrefixes a)"

section \<open>What it refuses\<close>

text \<open>A prefix is an interval of addresses.\<close>

lemma drop_bit_eq_range:
  fixes x n :: "'a :: len word"
  assumes "2 ^ k dvd unat n"
  shows "drop_bit k x = drop_bit k n \<longleftrightarrow> unat n \<le> unat x \<and> unat x < unat n + 2 ^ k"
proof -
  have "drop_bit k x = drop_bit k n \<longleftrightarrow> unat (drop_bit k x) = unat (drop_bit k n)" by (rule word_unat_eq_iff)
  also have "\<dots> \<longleftrightarrow> unat x div 2 ^ k = unat n div 2 ^ k" by (simp only: unat_drop_bit_eq drop_bit_eq_div [where 'a = nat])
  finally have d: "drop_bit k x = drop_bit k n \<longleftrightarrow> unat x div 2 ^ k = unat n div 2 ^ k" .
  obtain q where q: "unat n = 2 ^ k * q" using assms by blast
  have "unat x div 2 ^ k = q \<longleftrightarrow> 2 ^ k * q \<le> unat x \<and> unat x < 2 ^ k * q + 2 ^ k"
    using div_nat_eqI [of "2 ^ k" q "unat x"] dividend_less_times_div [of "2 ^ k" "unat x"] times_div_less_eq_dividend [of "2 ^ k" "unat x"]
    by (auto simp: algebra_simps)
  with d q show ?thesis by simp
qed

lemma unat_v4:
  assumes "a < 256" "b < 256" "c < 256" "d < 256"
  shows "unat (v4 a b c d) = a * 2 ^ 24 + b * 2 ^ 16 + c * 2 ^ 8 + d"
proof -
  have "a * 2 ^ 24 + b * 2 ^ 16 + c * 2 ^ 8 + d < 2 ^ 32" using assms by simp
  then show ?thesis unfolding v4_def unat_of_nat by simp
qed

text \<open>The ranges that do not belong to the public Internet, first and last address.\<close>

definition internal4 :: "(32 word \<times> 32 word) list" where
  "internal4 = [(v4 0 0 0 0, v4 0 255 255 255), (v4 10 0 0 0, v4 10 255 255 255), (v4 100 64 0 0, v4 100 127 255 255),
     (v4 127 0 0 0, v4 127 255 255 255), (v4 169 254 0 0, v4 169 254 255 255), (v4 172 16 0 0, v4 172 31 255 255),
     (v4 192 0 0 0, v4 192 0 0 255), (v4 192 0 2 0, v4 192 0 2 255), (v4 192 168 0 0, v4 192 168 255 255),
     (v4 198 18 0 0, v4 198 19 255 255), (v4 198 51 100 0, v4 198 51 100 255), (v4 203 0 113 0, v4 203 0 113 255),
     (v4 224 0 0 0, v4 255 255 255 255)]"

lemma contains_v4:
  assumes "2 ^ (32 - k) dvd unat n"
  shows "contains_addr (P4 n k) (V4 x) \<longleftrightarrow> unat n \<le> unat x \<and> unat x \<le> unat n + 2 ^ (32 - k) - 1"
proof -
  have "unat x < unat n + 2 ^ (32 - k) \<longleftrightarrow> unat x \<le> unat n + 2 ^ (32 - k) - 1"
    using zero_less_power [of "2 :: nat" "32 - k"] by linarith
  with drop_bit_eq_range [OF assms] show ?thesis by simp
qed

lemma publicAddr_v4_ranges: "publicAddr (V4 x) \<longleftrightarrow> \<not> list_ex (\<lambda>(lo, hi). lo \<le> x \<and> x \<le> hi) internal4"
proof -
  have eqs: "V4 x = V4 0 \<longleftrightarrow> unat x = 0" "V4 x = V4 (v4 255 255 255 255) \<longleftrightarrow> unat x = 4294967295"
    by (simp_all add: word_unat_eq_iff [of x] unat_v4)
  have ends: "unat x = 0 \<Longrightarrow> unat x \<le> 16777215" "unat x = 4294967295 \<Longrightarrow> 4026531840 \<le> unat x" "unat x \<le> 4294967295"
    "3758096384 \<le> unat x \<longleftrightarrow> 3758096384 \<le> unat x \<and> unat x \<le> 4026531839 \<or> 4026531840 \<le> unat x"
    using unsigned_less [of x, where 'a = nat] by auto
  have "publicAddr (V4 x) \<longleftrightarrow> \<not> (unat x = 0 \<or> unat x = 4294967295 \<or> within blockedPrefixes (V4 x) \<or> isPrivate (V4 x) \<or>
      isLoopback (V4 x) \<or> isLinkLocalUnicast (V4 x) \<or> isMulticast (V4 x))"
    using eqs by (auto simp: publicAddr_def Let_def isGlobalUnicast_def isUnspecified_def)
  also have "\<dots> \<longleftrightarrow> \<not> list_ex (\<lambda>(lo, hi). lo \<le> x \<and> x \<le> hi) internal4"
    unfolding within_def blockedPrefixes_def isPrivate_def isLoopback_def isLinkLocalUnicast_def isMulticast_def internal4_def
    by (simp add: contains_v4 unat_v4 word_le_nat_alt ends(3) del: contains_addr.simps(1)) (use ends in blast)
  finally show ?thesis .
qed

text \<open>
  C30: The test refuses exactly the addresses outside the public Internet, the host's own network, its
  neighbours and its loopback among them: written with prefixes and predicates, it is the same as a look
  at thirteen ranges.
\<close>

theorem publicAddr_v4: "publicAddr (V4 x) \<longleftrightarrow> \<not> list_ex (\<lambda>(lo, hi). lo \<le> x \<and> x \<le> hi) internal4"
  by (rule publicAddr_v4_ranges)

lemma drop_low:
  fixes a :: "128 word" and x :: "'a :: len word"
  assumes "LENGTH('a) \<le> k"
  shows "drop_bit k (a OR ucast x) = drop_bit k a"
proof -
  have "\<not> bit x (k + i)" for i
    using assms by (auto dest: bit_imp_le_length)
  then show ?thesis by (intro bit_eqI) (auto simp: bit_simps)
qed

text \<open>
  An IPv6 address that carries an IPv4 one opens no way around: mapped, it is judged as the IPv4 address,
  in whatever zone; IPv4-compatible, translated (NAT64) or tunnelled (6to4), it is refused.
\<close>

theorem embedded_refused:
  fixes x :: "32 word" and y :: "80 word"
  shows "publicAddr (V6 (push_bit 32 0xffff OR ucast x) z) = publicAddr (V4 x) \<and> \<not> publicAddr (V6 (ucast x) z) \<and>
    \<not> publicAddr (V6 (v6 0x64 0xff9b 0 0 OR ucast x) z) \<and> \<not> publicAddr (V6 (v6 0x2002 0 0 0 OR push_bit 80 (ucast x) OR ucast y) z)"
proof (intro conjI)
  have low: "(ucast (push_bit 32 m OR (ucast x :: 128 word)) :: 32 word) = x" for m
    by (intro bit_eqI) (auto simp: bit_simps)
  have mapped: "(ucast (push_bit 32 0xffff OR (ucast x :: 128 word)) :: 32 word) = x" by (rule low)
  have z: "drop_bit 32 (ucast x :: 128 word) = 0" using drop_low [of 32 0 x] by simp
  have "drop_bit 32 (push_bit 32 0xffff OR (ucast x :: 128 word)) = 0xffff"
    unfolding drop_bit_or z by (simp add: drop_bit_eq_div)
  then have "unmap (V6 (push_bit 32 0xffff OR ucast x) z) = V4 x"
    by (simp only: unmap.simps mapped if_True simp_thms)
  moreover have "unmap (V4 x) = V4 x" by simp
  ultimately show "publicAddr (V6 (push_bit 32 0xffff OR ucast x) z) = publicAddr (V4 x)"
    unfolding publicAddr_def by (simp only:)
  show "\<not> publicAddr (V6 (ucast x) z)"
    by (simp add: publicAddr_def Let_def z within_def blockedPrefixes_def)
  have n: "drop_bit 32 (v6 0x64 0xff9b 0 0 OR ucast x) = drop_bit 32 (v6 0x64 0xff9b 0 0)" by (rule drop_low) simp
  moreover have "drop_bit 32 (v6 0x64 0xff9b 0 0) \<noteq> 0xffff" by (simp add: v6_def drop_bit_eq_div)
  ultimately show "\<not> publicAddr (V6 (v6 0x64 0xff9b 0 0 OR ucast x) z)"
    by (auto simp: publicAddr_def Let_def within_def blockedPrefixes_def)
  define a where "a = v6 0x2002 0 0 0 OR push_bit 80 (ucast x) OR ucast y"
  have hi: "drop_bit 112 a = drop_bit 112 (v6 0x2002 0 0 0)"
  proof -
    have "drop_bit 112 (push_bit 80 (ucast x :: 128 word)) = 0" "drop_bit 112 (ucast y :: 128 word) = 0"
      by (intro bit_eqI; auto simp: bit_simps dest: bit_imp_le_length)+
    then show ?thesis by (simp only: a_def drop_bit_or or.right_neutral)
  qed
  have "drop_bit 32 a \<noteq> 0xffff"
  proof
    assume "drop_bit 32 a = 0xffff"
    moreover have "drop_bit 112 a = drop_bit 80 (drop_bit 32 a)" by simp
    ultimately have "drop_bit 112 (v6 0x2002 0 0 0) = drop_bit 80 (0xffff :: 128 word)" using hi by (simp only:)
    then show False by (simp add: v6_def drop_bit_eq_div)
  qed
  with hi have "\<not> publicAddr (V6 a z)"
    by (auto simp: publicAddr_def Let_def within_def blockedPrefixes_def)
  then show "\<not> publicAddr (V6 (v6 0x2002 0 0 0 OR push_bit 80 (ucast x) OR ucast y) z)" unfolding a_def .
qed

end
