(* ===== verification/ProviderBase.thy ===== *)
theory ProviderBase
  imports AdminFlows MemOAuth Json PublicAddr
begin

text \<open>
  The OAuth provider's configuration and state (\<open>oidcprovider/provider.go\<close>), the clients it serves, from the
  store or from their metadata documents (\<open>cimd.go\<close>), and their registration (\<open>register.go\<close>). The
  OpenID library that drives the provider is outside the repository: its calls of the provider's storage are
  the operations of \<open>ProviderFlows\<close>. Parsing of URLs and JSON, HTTP and DNS, the encryption of access tokens
  and the generation of RSA keys are the fields of \<open>provider_lib\<close>. White space, control characters and the
  eighty characters of a client's name are modelled on ASCII.
\<close>

section \<open>Configuration and state\<close>

record purl =
  pu_Scheme :: string
  pu_Host :: string
  pu_Hostname :: string
  pu_Path :: string
  pu_User :: bool
  pu_RawQuery :: string
  pu_Fragment :: string
  pu_String :: string

text \<open>The answer to a fetch: \<open>ha_mediaType\<close> is \<open>None\<close> when the content type does not parse, \<open>ha_body\<close> when reading fails.\<close>

record http_answer =
  ha_status :: nat
  ha_mediaType :: "string option"
  ha_contentLength :: int
  ha_body :: "bytes option"
  ha_cacheControl :: string

text \<open>
  \<open>ol_get\<close> is the HTTP client: it dials the address its first argument gives for a host and port, and asks
  its second one whether to follow a redirect, given how many it followed. \<open>ol_withQuery\<close> sets values in
  the query or, when the flag is set, the fragment of a URL. \<open>ol_parseKey\<close> reads an RSA key from its PEM
  form, \<open>ol_newKey\<close> generates one in that form.
\<close>

record provider_lib =
  ol_url :: "string \<Rightarrow> purl option"
  ol_queryEscape :: "string \<Rightarrow> string"
  ol_withQuery :: "string \<Rightarrow> bool \<Rightarrow> (string \<times> string) list \<Rightarrow> string option"
  ol_splitHostPort :: "string \<Rightarrow> (string \<times> string) option"
  ol_lookup :: "time \<Rightarrow> string \<Rightarrow> ipaddr list option"
  ol_get :: "(string \<Rightarrow> (ipaddr \<times> nat) option) \<Rightarrow> (nat \<Rightarrow> string \<Rightarrow> bool) \<Rightarrow> time \<Rightarrow> string \<Rightarrow> http_answer option"
  ol_json :: "bytes \<Rightarrow> json option"
  ol_decrypt :: "string \<Rightarrow> string option"
  ol_parseKey :: "bytes \<Rightarrow> bytes option"
  ol_newKey :: "nat \<Rightarrow> bytes option"

record pconfig =
  pg_Issuer :: string
  pg_Prefix :: string
  pg_CryptoKey :: bytes
  pg_Scopes :: "string list"
  pg_DefaultScopes :: "string list"
  pg_Resources :: "string list"
  pg_LoginURL :: "(string \<Rightarrow> string) option"
  pg_ConsentURL :: "(string \<Rightarrow> string) option"
  pg_Registration :: bool
  pg_ClientMetadataDocuments :: bool
  pg_AccessTokenTTL :: int
  pg_RefreshTokenTTL :: int
  pg_UnusedClientTTL :: int
  pg_KeyRotation :: int
  pg_KeyGrace :: int
  pg_Claims :: "(string \<Rightarrow> string list \<Rightarrow> (string \<times> jval) list option) option"
  pg_Insecure :: bool

record provider =
  pv_auth :: authn
  pv_cfg :: pconfig
  pv_lib :: provider_lib

record regBucket =
  bk_start :: time
  bk_n :: nat

record metadataEntry =
  me_c :: "OAuthClient option"
  me_exp :: time

record signingKey =
  sk_id :: string
  sk_key :: bytes
  sk_at :: time
  sk_retired :: time

text \<open>
  What the provider keeps in memory beside the engine's environment: the codes it exchanged, the cached
  signing keys and metadata documents, and the registrations per address. The store is the shared one.
\<close>

record pstate =
  ps_env :: env
  ps_codes :: "(string, time) gomap"
  ps_keys :: "signingKey list"
  ps_keysAt :: time
  ps_cache :: "(string, metadataEntry) gomap"
  ps_reg :: "(string, regBucket) gomap"

datatype perror =
    PStore error | PInvalidClient | PInvalidRequest string | PInvalidGrant string | PInvalidRefreshToken | PAccessDenied
  | PUnsupportedGrant | PServerError | PNoRequest | PInvalidToken | PNoKey | PBadURL

type_synonym 'a presult = "perror + 'a"

definition authRequestTTL :: int where "authRequestTTL = 10 * minute"
definition codeTTL :: int where "codeTTL = minute"
definition idTokenTTL :: int where "idTokenTTL = hour"
definition keySkew :: int where "keySkew = 5 * minute"
definition keyRefresh :: int where "keyRefresh = 5 * minute"

abbreviation pnow :: "pstate \<Rightarrow> time" where "pnow s \<equiv> e_now (ps_env s)"
abbreviation pstore :: "pstate \<Rightarrow> store" where "pstore s \<equiv> e_store (ps_env s)"

text \<open>An operation of the store run by the provider.\<close>

definition pop :: "(store \<Rightarrow> 'a result \<times> store) \<Rightarrow> pstate \<Rightarrow> 'a presult \<times> pstate" where
  "pop f s = (case op f (ps_env s) of
     (Inl err, e) \<Rightarrow> (Err (PStore err), s\<lparr>ps_env := e\<rparr>)
   | (Inr x, e) \<Rightarrow> (Ok x, s\<lparr>ps_env := e\<rparr>))"

definition randomIDAt :: "provider \<Rightarrow> nat \<Rightarrow> nat \<Rightarrow> string" where
  "randomIDAt P k n = c_b64url (a_lib (pv_auth P)) (c_rand (a_lib (pv_auth P)) k n)"

definition randomID :: "provider \<Rightarrow> nat \<Rightarrow> pstate \<Rightarrow> string \<times> pstate" where
  "randomID P n s = (let e = ps_env s in (randomIDAt P (e_rand e) n, s\<lparr>ps_env := e\<lparr>e_rand := Suc (e_rand e)\<rparr>\<rparr>))"

definition tokenHash :: "provider \<Rightarrow> string \<Rightarrow> string" where
  "tokenHash P t = hex_encode (c_sha256 (a_lib (pv_auth P)) t)"

definition trim_right :: "char \<Rightarrow> string \<Rightarrow> string" where
  "trim_right c s = rev (dropWhile (\<lambda>x. x = c) (rev s))"

definition trim_char :: "char \<Rightarrow> string \<Rightarrow> string" where
  "trim_char c s = trim_right c (dropWhile (\<lambda>x. x = c) s)"

definition normResource :: "provider_lib \<Rightarrow> string \<Rightarrow> string" where
  "normResource L r0 = (let r = takeWhile (\<lambda>c. c \<noteq> CHR ''#'') (trim_space r0) in
     case ol_url L r of
       None \<Rightarrow> r
     | Some u \<Rightarrow> if pu_Path u \<noteq> ''/'' then trim_right CHR ''/'' r else r)"

fun askedResources :: "provider \<Rightarrow> string list \<Rightarrow> string list \<Rightarrow> string list option" where
  "askedResources P [] out = Some out"
| "askedResources P (a # as) out = (let a = normResource (pv_lib P) a in
     if \<not> List.member (pg_Resources (pv_cfg P)) a then None
     else askedResources P as (if List.member out a then out else out @ [a]))"

definition resources :: "provider \<Rightarrow> string list \<Rightarrow> string list option" where
  "resources P asked =
     (if asked = [] then
        (if length (pg_Resources (pv_cfg P)) = 1 then Some [hd (pg_Resources (pv_cfg P))] else Some [])
      else askedResources P asked [])"

text \<open>The checks and defaults of \<open>New\<close>.\<close>

definition normConfig :: "provider_lib \<Rightarrow> pconfig \<Rightarrow> pconfig option" where
  "normConfig L c =
     (if length (pg_CryptoKey c) \<noteq> 32 then None
      else case ol_url L (pg_Issuer c) of
        None \<Rightarrow> None
      | Some iss \<Rightarrow>
          if pu_Host iss = [] \<or> (pu_Scheme iss \<noteq> ''https'' \<and> \<not> (pg_Insecure c \<and> pu_Scheme iss = ''http'')) \<or>
             pu_RawQuery iss \<noteq> [] \<or> pu_Fragment iss \<noteq> [] then None
          else Some (c\<lparr>pg_Issuer := trim_right CHR ''/'' (pg_Issuer c),
            pg_Prefix := ''/'' @ trim_char CHR ''/'' (if pg_Prefix c = [] then ''/oauth'' else pg_Prefix c),
            pg_LoginURL := (case pg_LoginURL c of
               None \<Rightarrow> Some (\<lambda>to. ''/welcome?next='' @ ol_queryEscape L to) | Some f \<Rightarrow> Some f),
            pg_AccessTokenTTL := (if pg_AccessTokenTTL c \<le> 0 then hour else pg_AccessTokenTTL c),
            pg_RefreshTokenTTL := (if pg_RefreshTokenTTL c \<le> 0 then 30 * 24 * hour else pg_RefreshTokenTTL c),
            pg_UnusedClientTTL := (if pg_UnusedClientTTL c \<le> 0 then 30 * 24 * hour else pg_UnusedClientTTL c),
            pg_KeyRotation := (if pg_KeyRotation c = 0 then 90 * 24 * hour else pg_KeyRotation c),
            pg_KeyGrace := max (if pg_KeyGrace c \<le> 0 then 24 * hour else pg_KeyGrace c) (idTokenTTL + keySkew),
            pg_Resources := map (normResource L) (pg_Resources c)\<rparr>))"

section \<open>The registration limiter\<close>

definition regAllow :: "nat \<Rightarrow> int \<Rightarrow> string \<Rightarrow> time \<Rightarrow> (string, regBucket) gomap \<Rightarrow> bool \<times> (string, regBucket) gomap" where
  "regAllow n window key now m =
     (let fresh = \<lparr>bk_start = now, bk_n = 0\<rparr>;
          b = (case mget m key of None \<Rightarrow> fresh | Some b \<Rightarrow> if window \<le> now - bk_start b then fresh else b)
      in if n \<le> bk_n b then (False, mput key b m)
         else (True, mput key (b\<lparr>bk_n := Suc (bk_n b)\<rparr>) m))"

definition regSweep :: "int \<Rightarrow> time \<Rightarrow> (string, regBucket) gomap \<Rightarrow> (string, regBucket) gomap" where
  "regSweep window now m = mprune (\<lambda>_ b. window \<le> now - bk_start b) m"

section \<open>Checks of what a client says of itself\<close>

definition supportedGrants :: "string list \<Rightarrow> string list option" where
  "supportedGrants asked =
     (let code = List.member asked ''authorization_code''; refresh = List.member asked ''refresh_token'' in
      if asked \<noteq> [] \<and> \<not> code \<and> \<not> refresh then None
      else Some (''authorization_code'' # (if refresh then [''refresh_token''] else [])))"

definition redirectOK :: "provider_lib \<Rightarrow> string \<Rightarrow> bool" where
  "redirectOK L raw = (case ol_url L raw of
     None \<Rightarrow> False
   | Some u \<Rightarrow>
       if pu_Fragment u \<noteq> [] \<or> pu_Scheme u = [] then False
       else if pu_Scheme u = ''https'' then pu_Host u \<noteq> []
       else if pu_Scheme u = ''http'' then List.member [''localhost'', ''127.0.0.1'', ''::1''] (pu_Hostname u)
       else List.member (pu_Scheme u) CHR ''.'')"

definition httpsOrEmpty :: "provider_lib \<Rightarrow> string \<Rightarrow> string" where
  "httpsOrEmpty L raw = (case ol_url L (trim_space raw) of
     None \<Rightarrow> []
   | Some u \<Rightarrow> if pu_Scheme u \<noteq> ''https'' \<or> pu_Host u = [] \<or> 500 < length raw then [] else pu_String u)"

definition is_control :: "char \<Rightarrow> bool" where
  "is_control c \<longleftrightarrow> (let n = (of_char c :: nat) in n < 32 \<or> n = 127)"

definition cleanName :: "string \<Rightarrow> string" where
  "cleanName s = (let s = filter (\<lambda>c. \<not> is_control c) (trim_space s) in if 80 < length s then take 80 s else s)"

section \<open>Client metadata documents\<close>

definition metadataMaxBytes :: nat where "metadataMaxBytes = 65536"
definition metadataMinAge :: int where "metadataMinAge = 5 * minute"
definition metadataMaxAge :: int where "metadataMaxAge = 24 * hour"
definition metadataDefAge :: int where "metadataDefAge = hour"
definition metadataFailAge :: int where "metadataFailAge = minute"
definition metadataCacheMax :: nat where "metadataCacheMax = 1000"

record metadataDoc =
  md_ClientID :: string
  md_ClientSecret :: string
  md_RedirectURIs :: "string list"
  md_ClientName :: string
  md_ClientURI :: string
  md_LogoURI :: string
  md_GrantTypes :: "string list"
  md_ResponseTypes :: "string list"
  md_TokenEndpointAuthMethod :: string

definition zero_doc :: metadataDoc where
  "zero_doc = \<lparr>md_ClientID = [], md_ClientSecret = [], md_RedirectURIs = [], md_ClientName = [], md_ClientURI = [],
     md_LogoURI = [], md_GrantTypes = [], md_ResponseTypes = [], md_TokenEndpointAuthMethod = []\<rparr>"

definition d_metadataDoc :: "metadataDoc decoder" where
  "d_metadataDoc = j_struct (\<lambda>k.
     if equal_fold k ''client_id'' then into j_string md_ClientID (\<lambda>v. md_ClientID_update (\<lambda>_. v))
     else if equal_fold k ''client_secret'' then into j_string md_ClientSecret (\<lambda>v. md_ClientSecret_update (\<lambda>_. v))
     else if equal_fold k ''redirect_uris'' then into (j_slice j_string []) md_RedirectURIs (\<lambda>v. md_RedirectURIs_update (\<lambda>_. v))
     else if equal_fold k ''client_name'' then into j_string md_ClientName (\<lambda>v. md_ClientName_update (\<lambda>_. v))
     else if equal_fold k ''client_uri'' then into j_string md_ClientURI (\<lambda>v. md_ClientURI_update (\<lambda>_. v))
     else if equal_fold k ''logo_uri'' then into j_string md_LogoURI (\<lambda>v. md_LogoURI_update (\<lambda>_. v))
     else if equal_fold k ''grant_types'' then into (j_slice j_string []) md_GrantTypes (\<lambda>v. md_GrantTypes_update (\<lambda>_. v))
     else if equal_fold k ''response_types'' then into (j_slice j_string []) md_ResponseTypes (\<lambda>v. md_ResponseTypes_update (\<lambda>_. v))
     else if equal_fold k ''token_endpoint_auth_method''
     then into j_string md_TokenEndpointAuthMethod (\<lambda>v. md_TokenEndpointAuthMethod_update (\<lambda>_. v))
     else (\<lambda>_. Some))"

text \<open>What the dialer connects to: every address of the host has to be public, and the one dialed is checked again.\<close>

definition resolve :: "provider_lib \<Rightarrow> time \<Rightarrow> string \<Rightarrow> (ipaddr \<times> nat) option" where
  "resolve L now addr = (case ol_splitHostPort L addr of
     None \<Rightarrow> None
   | Some (host, port) \<Rightarrow> (case parse_uint port of
       None \<Rightarrow> None
     | Some pn \<Rightarrow>
         if 65535 < pn then None
         else case ol_lookup L now host of
           None \<Rightarrow> None
         | Some ips \<Rightarrow> if ips = [] then None
             else if list_ex (\<lambda>ip. \<not> publicAddr ip) ips then None
             else Some (unmap (hd ips), pn)))"

definition dialMetadata :: "provider_lib \<Rightarrow> time \<Rightarrow> string \<Rightarrow> (ipaddr \<times> nat) option" where
  "dialMetadata L now addr = (case resolve L now addr of
     None \<Rightarrow> None
   | Some (ip, pn) \<Rightarrow> if publicAddr ip then Some (ip, pn) else None)"

definition followRedirect :: "provider_lib \<Rightarrow> nat \<Rightarrow> string \<Rightarrow> bool" where
  "followRedirect L via url \<longleftrightarrow> via < 3 \<and> (case ol_url L url of None \<Rightarrow> False | Some u \<Rightarrow> pu_Scheme u = ''https'')"

definition isMetadataURL :: "provider_lib \<Rightarrow> string \<Rightarrow> bool" where
  "isMetadataURL L i =
     (if \<not> has_prefix i ''https://'' \<or> 2000 < length i then False
      else case ol_url L i of
        None \<Rightarrow> False
      | Some u \<Rightarrow>
          if pu_Scheme u \<noteq> ''https'' \<or> pu_Host u = [] \<or> pu_User u \<or> pu_Fragment u \<noteq> [] \<or> List.member i CHR ''#'' then False
          else if pu_Path u = [] \<or> pu_Path u = ''/'' then False
          else \<not> list_ex (\<lambda>seg. seg = ''.'' \<or> seg = ''..'') (split_on CHR ''/'' (pu_Path u)))"

definition metadataClient :: "provider \<Rightarrow> string \<Rightarrow> bool" where
  "metadataClient P i \<longleftrightarrow> pg_ClientMetadataDocuments (pv_cfg P) \<and> isMetadataURL (pv_lib P) i"

definition metadataToClient :: "provider \<Rightarrow> string \<Rightarrow> metadataDoc \<Rightarrow> time \<Rightarrow> OAuthClient option" where
  "metadataToClient P rawURL doc now = (let L = pv_lib P in
     if md_ClientID doc \<noteq> rawURL then None
     else if md_ClientSecret doc \<noteq> [] then None
     else if md_RedirectURIs doc = [] \<or> 10 < length (md_RedirectURIs doc) then None
     else if list_ex (\<lambda>u. \<not> redirectOK L u) (md_RedirectURIs doc) then None
     else if md_TokenEndpointAuthMethod doc \<noteq> [] \<and> md_TokenEndpointAuthMethod doc \<noteq> ''none'' then None
     else if md_ResponseTypes doc \<noteq> [] \<and> md_ResponseTypes doc \<noteq> [''code''] then None
     else case supportedGrants (md_GrantTypes doc) of
       None \<Rightarrow> None
     | Some grants \<Rightarrow> Some \<lparr>oc_ID = rawURL, oc_SecretHash = [], oc_Name = cleanName (md_ClientName doc),
         oc_URI = httpsOrEmpty L (md_ClientURI doc), oc_LogoURI = httpsOrEmpty L (md_LogoURI doc),
         oc_RedirectURIs = md_RedirectURIs doc, oc_GrantTypes = grants, oc_AuthMethod = ''none'', oc_Dynamic = True,
         oc_CreatedAt = now, oc_LastUsedAt = 0\<rparr>)"

text \<open>\<open>strconv.ParseInt\<close>: an optional sign and decimal digits, in the range of a 64-bit integer.\<close>

definition parseInt64 :: "string \<Rightarrow> int option" where
  "parseInt64 s = (let neg = take 1 s = ''-''; digits = (if neg \<or> take 1 s = ''+'' then drop 1 s else s) in
     case parse_uint digits of
       None \<Rightarrow> None
     | Some n \<Rightarrow> if neg then (if n \<le> 2 ^ 63 then Some (- int n) else None)
                 else if n < 2 ^ 63 then Some (int n) else None)"

fun cacheDirectives :: "string list \<Rightarrow> int \<Rightarrow> int" where
  "cacheDirectives [] age = min (max age metadataMinAge) metadataMaxAge"
| "cacheDirectives (d # ds) age =
     (let d = trim_space d; k = to_lower (takeWhile (\<lambda>c. c \<noteq> CHR ''='') d); v = drop 1 (dropWhile (\<lambda>c. c \<noteq> CHR ''='') d) in
      if k = ''no-store'' \<or> k = ''no-cache'' then metadataMinAge
      else if k = ''max-age'' then
        (case parseInt64 (trim_char CHR 0x22 v) of
           None \<Rightarrow> cacheDirectives ds age
         | Some n \<Rightarrow> cacheDirectives ds (if 0 \<le> n then min n (metadataMaxAge div second_ns) * second_ns else age))
      else cacheDirectives ds age)"

definition cacheAge :: "string \<Rightarrow> int" where
  "cacheAge cc = cacheDirectives (split_on CHR '','' cc) metadataDefAge"

subsection \<open>The cache\<close>

text \<open>
  The loop that looks for the entry expiring soonest, over the entries in the order of the map; the empty
  name stands for none yet, and a missing entry reads as the zero value.
\<close>

fun oldestFrom :: "(string, metadataEntry) gomap \<Rightarrow> (string, metadataEntry) gomap \<Rightarrow> string \<Rightarrow> string" where
  "oldestFrom m [] oldest = oldest"
| "oldestFrom m ((k, v) # kvs) oldest =
     oldestFrom m kvs (if oldest = [] \<or> me_exp v < (case mget m oldest of None \<Rightarrow> 0 | Some e \<Rightarrow> me_exp e) then k else oldest)"

lemma oldestFrom_key: "oldestFrom m kvs o' = o' \<or> oldestFrom m kvs o' \<in> fst ` set kvs"
proof (induction kvs arbitrary: o')
  case (Cons kv kvs)
  obtain k v where kv: "kv = (k, v)" by fastforce
  let ?o = "if o' = [] \<or> me_exp v < (case mget m o' of None \<Rightarrow> 0 | Some e \<Rightarrow> me_exp e) then k else o'"
  from Cons.IH [of ?o] show ?case by (auto simp: kv split: if_splits)
qed simp

lemma oldestFrom_in:
  assumes "kvs \<noteq> []"
  shows "oldestFrom m kvs [] \<in> fst ` set kvs"
proof -
  obtain k v rest where "kvs = (k, v) # rest" using assms by (cases kvs) auto
  with oldestFrom_key [of m rest k] show ?thesis by auto
qed

lemma mdel_shorter:
  assumes "k \<in> fst ` set m"
  shows "length (mdel k m) < length m"
proof -
  obtain v where "(k, v) \<in> set m" using assms by auto
  then show ?thesis unfolding mdel_def by (rule length_filter_less) simp
qed

function evict :: "(string, metadataEntry) gomap \<Rightarrow> (string, metadataEntry) gomap" where
  "evict m = (if metadataCacheMax \<le> length m then evict (mdel (oldestFrom m m []) m) else m)"
  by auto

termination
proof (relation "measure length", simp)
  fix m :: "(string, metadataEntry) gomap"
  assume "metadataCacheMax \<le> length m"
  then have "m \<noteq> []" by (auto simp: metadataCacheMax_def)
  from mdel_shorter [OF oldestFrom_in [OF this, of m]] show "(mdel (oldestFrom m m []) m, m) \<in> measure length" by simp
qed

declare evict.simps [simp del]

definition putMetadata :: "string \<Rightarrow> metadataEntry \<Rightarrow> time \<Rightarrow> (string, metadataEntry) gomap \<Rightarrow> (string, metadataEntry) gomap" where
  "putMetadata url ent now m =
     mput url ent (if mget m url = None \<and> metadataCacheMax \<le> length m then evict (mprune (\<lambda>_ v. \<not> now < me_exp v) m) else m)"

definition fetchMetadata :: "provider \<Rightarrow> time \<Rightarrow> string \<Rightarrow> (OAuthClient \<times> int) option" where
  "fetchMetadata P now url = (let L = pv_lib P in
     case ol_get L (dialMetadata L now) (followRedirect L) now url of
       None \<Rightarrow> None
     | Some a \<Rightarrow>
         if ha_status a \<noteq> 200 then None
         else if (case ha_mediaType a of None \<Rightarrow> True | Some mt \<Rightarrow> mt \<noteq> ''application/json'' \<and> \<not> has_suffix mt ''+json'') then None
         else if int metadataMaxBytes < ha_contentLength a then None
         else case map_option (take (metadataMaxBytes + 1)) (ha_body a) of
           None \<Rightarrow> None
         | Some body \<Rightarrow>
             if metadataMaxBytes < length body then None
             else case unmarshal d_metadataDoc zero_doc (ol_json L body) of
               None \<Rightarrow> None
             | Some doc \<Rightarrow> (case metadataToClient P url doc now of
                 None \<Rightarrow> None
               | Some c \<Rightarrow> Some (c, cacheAge (ha_cacheControl a))))"

definition getMetadata :: "provider \<Rightarrow> string \<Rightarrow> pstate \<Rightarrow> OAuthClient presult \<times> pstate" where
  "getMetadata P url s = (let now = pnow s in
     case (case mget (ps_cache s) url of None \<Rightarrow> None | Some ent \<Rightarrow> if now < me_exp ent then Some ent else None) of
       Some ent \<Rightarrow> (case me_c ent of None \<Rightarrow> (Err (PStore ErrOAuthNotFound), s) | Some c \<Rightarrow> (Ok c, s))
     | None \<Rightarrow> (case fetchMetadata P now url of
         None \<Rightarrow> (Err (PStore ErrOAuthNotFound),
           s\<lparr>ps_cache := putMetadata url \<lparr>me_c = None, me_exp = now + metadataFailAge\<rparr> now (ps_cache s)\<rparr>)
       | Some (c, age) \<Rightarrow> (Ok c, s\<lparr>ps_cache := putMetadata url \<lparr>me_c = Some c, me_exp = now + age\<rparr> now (ps_cache s)\<rparr>)))"

definition cachedMetadata :: "string \<Rightarrow> pstate \<Rightarrow> OAuthClient option" where
  "cachedMetadata url s = (case mget (ps_cache s) url of None \<Rightarrow> None | Some ent \<Rightarrow> me_c ent)"

definition client :: "provider \<Rightarrow> string \<Rightarrow> pstate \<Rightarrow> OAuthClient presult \<times> pstate" where
  "client P i s = (if metadataClient P i then getMetadata P i s
     else case OAuthClient_get (pstore s) i of Inl err \<Rightarrow> (Err (PStore err), s) | Inr c \<Rightarrow> (Ok c, s))"

section \<open>Registration\<close>

definition writeErr :: "nat \<Rightarrow> string \<Rightarrow> string \<Rightarrow> reply" where
  "writeErr code err desc = JSON code ((''error'', JStr err) # (if desc \<noteq> [] then [(''error_description'', JStr desc)] else []))"

text \<open>The members of the answer that are left out when empty.\<close>

definition nonempty :: "(string \<times> string) list \<Rightarrow> (string \<times> jval) list" where
  "nonempty kvs = map (\<lambda>(k, v). (k, JStr v)) (filter (\<lambda>(k, v). v \<noteq> []) kvs)"

definition register :: "provider \<Rightarrow> request \<Rightarrow> pstate \<Rightarrow> reply \<times> pstate" where
  "register P r s =
     (if rq_method r \<noteq> ''POST'' then (JSON 405 [], s)
      else case regAllow 20 hour (rq_ip r) (pnow s) (ps_reg s) of (ok, reg) \<Rightarrow>
        let s = s\<lparr>ps_reg := reg\<rparr>; L = pv_lib P in
        if \<not> ok then (writeErr 429 ''too_many_requests'' ''too many registrations; try again later'', s)
        else if rq_body r = None then (writeErr 400 ''invalid_client_metadata'' ''the body must be JSON client metadata'', s)
        else
          let uris = listField r ''redirect_uris''; types = listField r ''response_types'';
              meth = (if field r ''token_endpoint_auth_method'' = [] then ''client_secret_basic'' else field r ''token_endpoint_auth_method'') in
          if uris = [] \<or> 10 < length uris then (writeErr 400 ''invalid_redirect_uri'' ''one to ten redirect_uris are required'', s)
          else if list_ex (\<lambda>u. \<not> redirectOK L u) uris
          then (writeErr 400 ''invalid_redirect_uri'' (''redirect_uris must be https, a loopback http address, or an app'' @ [CHR 0x27] @ ''s own scheme''), s)
          else if types \<noteq> [] \<and> types \<noteq> [''code''] then (writeErr 400 ''invalid_client_metadata'' ''only the code response type is supported'', s)
          else case supportedGrants (listField r ''grant_types'') of
            None \<Rightarrow> (writeErr 400 ''invalid_client_metadata'' ''grant_types must include authorization_code or refresh_token'', s)
          | Some grants \<Rightarrow>
              if \<not> List.member [''none'', ''client_secret_basic'', ''client_secret_post''] meth
              then (writeErr 400 ''invalid_client_metadata'' ''token_endpoint_auth_method may be none, client_secret_basic or client_secret_post'', s)
              else case randomID P 16 s of (i, s) \<Rightarrow>
                case (if meth = ''none'' then ([], s) else randomID P 32 s) of (secret, s) \<Rightarrow>
                let c = \<lparr>oc_ID = ''dyn_'' @ i, oc_SecretHash = (if meth = ''none'' then [] else tokenHash P secret),
                      oc_Name = cleanName (field r ''client_name''), oc_URI = httpsOrEmpty L (field r ''client_uri''),
                      oc_LogoURI = httpsOrEmpty L (field r ''logo_uri''), oc_RedirectURIs = uris, oc_GrantTypes = grants,
                      oc_AuthMethod = meth, oc_Dynamic = True, oc_CreatedAt = pnow s, oc_LastUsedAt = 0\<rparr> in
                (case pop (\<lambda>st. CreateOAuthClient st c) s of
                   (Inl _, s) \<Rightarrow> (writeErr 500 ''server_error'' [], s)
                 | (Inr _, s) \<Rightarrow> (JSON 201 ([(''client_id'', JStr (oc_ID c)), (''client_id_issued_at'', JNum (pnow s div second_ns)),
                     (''redirect_uris'', JList (map JStr uris)), (''grant_types'', JList (map JStr grants)),
                     (''response_types'', JList [JStr ''code'']), (''token_endpoint_auth_method'', JStr meth)] @
                     (if secret \<noteq> [] then [(''client_secret'', JStr secret), (''client_secret_expires_at'', JNum 0)] else []) @
                     nonempty [(''client_name'', oc_Name c), (''client_uri'', oc_URI c), (''logo_uri'', oc_LogoURI c)]), s)))"

definition RegisterClient :: "provider \<Rightarrow> OAuthClient \<Rightarrow> pstate \<Rightarrow> string \<times> unit presult \<times> pstate" where
  "RegisterClient P c s =
     (case (if oc_ID c = [] then randomID P 16 s else (oc_ID c, s)) of (i, s) \<Rightarrow>
      let meth = (if oc_AuthMethod c = [] then ''client_secret_basic'' else oc_AuthMethod c);
          grants = (if oc_GrantTypes c = [] then [''authorization_code'', ''refresh_token''] else oc_GrantTypes c) in
      case (if meth = ''none'' then ([], s) else randomID P 32 s) of (secret, s) \<Rightarrow>
      let c = c\<lparr>oc_ID := i, oc_AuthMethod := meth, oc_GrantTypes := grants,
            oc_SecretHash := (if meth = ''none'' then oc_SecretHash c else tokenHash P secret), oc_Dynamic := False, oc_CreatedAt := pnow s\<rparr>
      in (secret, pop (\<lambda>st. CreateOAuthClient st c) s))"

text \<open>The metadata document, from the library's one (\<open>None\<close>: the library failed).\<close>

definition discoveryDoc :: "provider \<Rightarrow> (string, jval) gomap option \<Rightarrow> reply" where
  "discoveryDoc P doc = (case doc of
     None \<Rightarrow> writeErr 500 ''server_error'' []
   | Some d \<Rightarrow>
       let d = (if pg_Registration (pv_cfg P)
              then mput ''registration_endpoint'' (JStr (pg_Issuer (pv_cfg P) @ pg_Prefix (pv_cfg P) @ ''/register'')) d else d);
           d = (if pg_ClientMetadataDocuments (pv_cfg P) then mput ''client_id_metadata_document_supported'' (JBool True) d else d);
           d = mput ''code_challenge_methods_supported'' (JList [JStr ''S256'']) d;
           d = mput ''response_types_supported'' (JList [JStr ''code'']) d;
           d = mput ''grant_types_supported'' (JList [JStr ''authorization_code'', JStr ''refresh_token'']) d
       in JSON 200 (mdel ''device_authorization_endpoint'' d))"

end
