(* ===== verification/ProviderKeys.thy ===== *)
theory ProviderKeys
  imports ProviderBase
begin

text \<open>
  The signing keys of the provider (\<open>oidcprovider/keys.go\<close>): one key signs ID tokens, the newest one not
  retired, and every stored key is published. The laws: the replicas that share a store agree on the key
  that signs, an upkeep leaves exactly one, and a key outlives every token it signed.
\<close>

section \<open>Reading and adding keys\<close>

definition better :: "signingKey \<Rightarrow> signingKey \<Rightarrow> bool" where
  "better k b \<longleftrightarrow> sk_at b < sk_at k \<or> sk_at k = sk_at b \<and> sk_id b < sk_id k"

fun newestFrom :: "signingKey option \<Rightarrow> signingKey list \<Rightarrow> signingKey option" where
  "newestFrom best [] = best"
| "newestFrom best (k # ks) =
     (if sk_retired k \<noteq> 0 then newestFrom best ks
      else newestFrom (case best of None \<Rightarrow> Some k | Some b \<Rightarrow> if better k b then Some k else best) ks)"

definition newest :: "signingKey list \<Rightarrow> signingKey option" where
  "newest ks = newestFrom None ks"

definition signingKeyOf :: "provider_lib \<Rightarrow> OAuthSigningKey \<Rightarrow> signingKey option" where
  "signingKeyOf L k = (case ol_parseKey L (ok_PrivatePEM k) of
     None \<Rightarrow> None
   | Some rk \<Rightarrow> Some \<lparr>sk_id = ok_ID k, sk_key = rk, sk_at = ok_CreatedAt k,
       sk_retired = (case ok_RetiredAt k of None \<Rightarrow> 0 | Some t \<Rightarrow> t)\<rparr>)"

definition readKeys :: "provider \<Rightarrow> pstate \<Rightarrow> signingKey list presult" where
  "readKeys P s = (case OAuthSigningKeys (pstore s) of
     Inl err \<Rightarrow> Err (PStore err) | Inr stored \<Rightarrow> Ok (List.map_filter (signingKeyOf (pv_lib P)) stored))"

definition addKey :: "provider \<Rightarrow> time \<Rightarrow> pstate \<Rightarrow> unit presult \<times> pstate" where
  "addKey P now s = (let e = ps_env s; s = s\<lparr>ps_env := e\<lparr>e_rand := Suc (e_rand e)\<rparr>\<rparr> in
     case ol_newKey (pv_lib P) (e_rand e) of
       None \<Rightarrow> (Err PServerError, s)
     | Some pem \<Rightarrow> (case randomID P 12 s of (i, s) \<Rightarrow>
         pop (\<lambda>st. AddOAuthSigningKey st \<lparr>ok_ID = i, ok_Algorithm = ''RS256'', ok_PrivatePEM = pem, ok_CreatedAt = now,
           ok_RetiredAt = None\<rparr>) s))"

definition loadKeys :: "provider \<Rightarrow> pstate \<Rightarrow> unit presult \<times> pstate" where
  "loadKeys P s = (case readKeys P s of
     Inl err \<Rightarrow> (Err err, s)
   | Inr keys \<Rightarrow>
       let cached = (\<lambda>keys s. (Ok (), s\<lparr>ps_keys := keys, ps_keysAt := pnow s\<rparr>)) in
       if newest keys = None then
         (case addKey P (pnow s) s of
            (Inl err, s) \<Rightarrow> (Err err, s)
          | (Inr _, s) \<Rightarrow> (case readKeys P s of Inl err \<Rightarrow> (Err err, s) | Inr keys \<Rightarrow> cached keys s))
       else cached keys s)"

definition currentKeys :: "provider \<Rightarrow> pstate \<Rightarrow> signingKey list \<times> pstate" where
  "currentKeys P s =
     (if pnow s - ps_keysAt s < keyRefresh then (ps_keys s, s)
      else case loadKeys P (s\<lparr>ps_keysAt := pnow s\<rparr>) of
        (Inl _, s') \<Rightarrow> (ps_keys s, s') | (Inr _, s') \<Rightarrow> (ps_keys s', s'))"

definition SigningKey :: "provider \<Rightarrow> pstate \<Rightarrow> signingKey presult \<times> pstate" where
  "SigningKey P s = (case currentKeys P s of (keys, s) \<Rightarrow>
     (case newest keys of None \<Rightarrow> (Err PNoKey, s) | Some k \<Rightarrow> (Ok k, s)))"

definition KeySet :: "provider \<Rightarrow> pstate \<Rightarrow> signingKey list \<times> pstate" where
  "KeySet P s = currentKeys P s"

section \<open>Upkeep\<close>

text \<open>One turn of the loop over the keys, with whether an error occurred so far.\<close>

definition upkeepKey :: "provider \<Rightarrow> string \<Rightarrow> time \<Rightarrow> signingKey \<Rightarrow> bool \<times> pstate \<Rightarrow> bool \<times> pstate" where
  "upkeepKey P cur now k acc = (case acc of (failed, s) \<Rightarrow>
     if sk_retired k = 0 \<and> sk_id k \<noteq> cur then
       (case pop (\<lambda>st. RetireOAuthSigningKey st (sk_id k) now) s of
          (Inl err, s) \<Rightarrow> (failed \<or> err \<noteq> PStore ErrOAuthNotFound, s) | (Inr _, s) \<Rightarrow> (failed, s))
     else if sk_retired k \<noteq> 0 \<and> pg_KeyGrace (pv_cfg P) \<le> now - sk_retired k then
       (case pop (\<lambda>st. DeleteOAuthSigningKey st (sk_id k)) s of (Inl _, s) \<Rightarrow> (True, s) | (Inr _, s) \<Rightarrow> (failed, s))
     else (failed, s))"

definition upkeepKeys :: "provider \<Rightarrow> signingKey list \<Rightarrow> string \<Rightarrow> pstate \<Rightarrow> unit presult \<times> pstate" where
  "upkeepKeys P keys cur s = (case fold (upkeepKey P cur (pnow s)) keys (False, s) of (failed, s) \<Rightarrow>
     (case loadKeys P s of
        (Inl err, s) \<Rightarrow> (Err err, s) | (Inr _, s) \<Rightarrow> (if failed then Err PServerError else Ok (), s)))"

definition rotateKeys :: "provider \<Rightarrow> bool \<Rightarrow> pstate \<Rightarrow> unit presult \<times> pstate" where
  "rotateKeys P force s = (case readKeys P s of
     Inl err \<Rightarrow> (Err err, s)
   | Inr keys \<Rightarrow>
       if force \<or> (case newest keys of None \<Rightarrow> True
           | Some cur \<Rightarrow> 0 < pg_KeyRotation (pv_cfg P) \<and> pg_KeyRotation (pv_cfg P) \<le> pnow s - sk_at cur) then
         (case addKey P (pnow s) s of
            (Inl err, s) \<Rightarrow> (Err err, s)
          | (Inr _, s) \<Rightarrow> (case readKeys P s of
              Inl err \<Rightarrow> (Err err, s)
            | Inr keys \<Rightarrow> (case newest keys of None \<Rightarrow> (Err PNoKey, s) | Some cur \<Rightarrow> upkeepKeys P keys (sk_id cur) s)))
       else (case newest keys of None \<Rightarrow> (Err PNoKey, s) | Some cur \<Rightarrow> upkeepKeys P keys (sk_id cur) s))"

text \<open>\<open>New\<close>: the configuration, an empty state around the shared environment, and the first upkeep.\<close>

definition NewProvider :: "authn \<Rightarrow> provider_lib \<Rightarrow> pconfig \<Rightarrow> env \<Rightarrow> (provider \<times> pstate) option" where
  "NewProvider A L c e = (case normConfig L c of
     None \<Rightarrow> None
   | Some c \<Rightarrow> let P = \<lparr>pv_auth = A, pv_cfg = c, pv_lib = L\<rparr> in
       (case rotateKeys P False \<lparr>ps_env = e, ps_codes = [], ps_keys = [], ps_keysAt = 0, ps_cache = [], ps_reg = []\<rparr> of
          (Inl _, _) \<Rightarrow> None | (Inr _, s) \<Rightarrow> Some (P, s)))"

end
