(* ===== verification/ProviderFlows.thy ===== *)
theory ProviderFlows
  imports ProviderKeys
begin

text \<open>
  What the OpenID library asks of the provider (\<open>oidcprovider/storage.go\<close>, \<open>requests.go\<close>), and the login, the
  consent and the verification of tokens around it (\<open>consent.go\<close>). The library calls these operations in
  the course of its endpoints: it validates the client, the redirect and the PKCE verifier, and turns an
  access token's id into the opaque token (\<open>ol_decrypt\<close> turns it back). A plain-text error page is a
  reply with its text.
\<close>

section \<open>Authorization requests\<close>

record oidc_request =
  ar_ClientID :: string
  ar_RedirectURI :: string
  ar_State :: string
  ar_Nonce :: string
  ar_Scopes :: "string list"
  ar_ResponseType :: string
  ar_ResponseMode :: string
  ar_CodeChallenge :: string
  ar_CodeChallengeMethod :: string
  ar_Prompt :: "string list"

definition CreateAuthRequest :: "provider \<Rightarrow> oidc_request \<Rightarrow> string list \<Rightarrow> pstate \<Rightarrow> OAuthAuthRequest presult \<times> pstate" where
  "CreateAuthRequest P ar res s = (case client P (ar_ClientID ar) s of
     (Inl _, s) \<Rightarrow> (Err PInvalidClient, s)
   | (Inr c, s) \<Rightarrow>
       let scopes = ar_Scopes ar @ (if List.member (oc_GrantTypes c) ''refresh_token'' \<and> \<not> List.member (ar_Scopes ar) ''offline_access''
             then [''offline_access''] else []) in
       case randomID P 24 s of (i, s) \<Rightarrow>
       let r = \<lparr>or_ID = i, or_ClientID = ar_ClientID ar, or_RedirectURI = ar_RedirectURI ar, or_State = ar_State ar,
             or_Nonce = ar_Nonce ar, or_Scopes = scopes, or_ResponseType = ar_ResponseType ar, or_ResponseMode = ar_ResponseMode ar,
             or_CodeChallenge = ar_CodeChallenge ar, or_CodeChallengeMethod = ar_CodeChallengeMethod ar, or_Resources = res,
             or_Prompt = ar_Prompt ar, or_Subject = [], or_Ref = [], or_GrantExpiresAt = 0, or_AuthTime = 0, or_Done = False,
             or_CodeHash = [], or_CodeAt = 0, or_CreatedAt = pnow s\<rparr> in
       if or_CodeChallenge r = [] \<and> oc_AuthMethod c = ''none'' then (Err (PInvalidRequest ''code_challenge is required''), s)
       else if or_CodeChallenge r \<noteq> [] \<and> or_CodeChallengeMethod r \<noteq> ''S256''
       then (Err (PInvalidRequest ''code_challenge_method must be S256''), s)
       else case pop (\<lambda>st. SaveOAuthAuthRequest st r) s of (Inl err, s) \<Rightarrow> (Err err, s) | (Inr _, s) \<Rightarrow> (Ok r, s))"

definition request_at :: "time \<Rightarrow> string \<Rightarrow> store \<Rightarrow> OAuthAuthRequest presult" where
  "request_at now i st = (case OAuthAuthRequest_get st i of
     Inl err \<Rightarrow> Err (PStore err)
   | Inr r \<Rightarrow> if authRequestTTL < now - or_CreatedAt r then Err (PStore ErrOAuthNotFound) else Ok r)"

abbreviation request_of :: "string \<Rightarrow> pstate \<Rightarrow> OAuthAuthRequest presult" where
  "request_of i s \<equiv> request_at (pnow s) i (pstore s)"

definition AuthRequestByID :: "string \<Rightarrow> pstate \<Rightarrow> OAuthAuthRequest presult" where
  "AuthRequestByID i s = request_of i s"

text \<open>The PKCE challenge of a request and its method, which the library checks the verifier against.\<close>

definition GetCodeChallenge :: "OAuthAuthRequest \<Rightarrow> (string \<times> string) option" where
  "GetCodeChallenge r = (if or_CodeChallenge r = [] then None else Some (or_CodeChallenge r, or_CodeChallengeMethod r))"

definition AuthRequestByCode :: "provider \<Rightarrow> string \<Rightarrow> pstate \<Rightarrow> OAuthAuthRequest presult \<times> pstate" where
  "AuthRequestByCode P code s = (let h = tokenHash P code; now = pnow s in
     if mget (ps_codes s) h \<noteq> None then (Err (PInvalidGrant ''the code was already used''), s)
     else let s = s\<lparr>ps_codes := mput h now (ps_codes s)\<rparr> in
       case OAuthAuthRequestByCode (pstore s) h of
         Inl err \<Rightarrow> (Err (PStore err), s)
       | Inr r \<Rightarrow>
           if \<not> or_Done r \<or> codeTTL < now - or_CodeAt r \<or> authRequestTTL < now - or_CreatedAt r
           then (Err (PInvalidGrant ''the code has expired''), s) else (Ok r, s))"

definition forgetCodes :: "time \<Rightarrow> pstate \<Rightarrow> pstate" where
  "forgetCodes now s = s\<lparr>ps_codes := mprune (\<lambda>_ at. authRequestTTL < now - at) (ps_codes s)\<rparr>"

definition SaveAuthCode :: "provider \<Rightarrow> string \<Rightarrow> string \<Rightarrow> pstate \<Rightarrow> unit presult \<times> pstate" where
  "SaveAuthCode P i code s = (case request_of i s of
     Inl err \<Rightarrow> (Err err, s)
   | Inr r \<Rightarrow> pop (\<lambda>st. SaveOAuthAuthRequest st (r\<lparr>or_CodeHash := tokenHash P code, or_CodeAt := pnow s\<rparr>)) s)"

definition DeleteAuthRequest :: "string \<Rightarrow> pstate \<Rightarrow> unit presult \<times> pstate" where
  "DeleteAuthRequest i s = pop (\<lambda>st. DeleteOAuthAuthRequest st i) s"

section \<open>Tokens\<close>

record refreshRequest =
  rr_token :: OAuthRefreshToken
  rr_grant :: OAuthGrant
  rr_scopes :: "string list"

text \<open>What the library exchanges for tokens; of other kinds of request the provider supports none.\<close>

datatype tokenRequest = AuthReq OAuthAuthRequest | RefreshReq refreshRequest | OtherReq

primrec req_scopes :: "tokenRequest \<Rightarrow> string list" where
  "req_scopes (AuthReq r) = or_Scopes r"
| "req_scopes (RefreshReq r) = rr_scopes r"
| "req_scopes OtherReq = []"

primrec req_subject :: "tokenRequest \<Rightarrow> string" where
  "req_subject (AuthReq r) = or_Subject r"
| "req_subject (RefreshReq r) = og_Subject (rr_grant r)"
| "req_subject OtherReq = []"

primrec req_client :: "tokenRequest \<Rightarrow> string" where
  "req_client (AuthReq r) = or_ClientID r"
| "req_client (RefreshReq r) = og_ClientID (rr_grant r)"
| "req_client OtherReq = []"

definition SetCurrentScopes :: "string list \<Rightarrow> refreshRequest \<Rightarrow> refreshRequest" where
  "SetCurrentScopes scopes r = r\<lparr>rr_scopes := filter (\<lambda>x. List.member (ot_Scopes (rr_token r)) x) scopes\<rparr>"

text \<open>\<open>Authenticator.UserBySub\<close>: the account, unless it may not sign in.\<close>

definition authUserBySub :: "authn \<Rightarrow> string \<Rightarrow> env \<Rightarrow> AuthUser result" where
  "authUserBySub A sub e =
     (if \<not> a_creds A then Err ErrNoUser
      else case UserBySub (e_store e) sub of
        Inl err \<Rightarrow> Err err
      | Inr u \<Rightarrow> if fst (loginBlocked (e_now e) (Some u)) then Err ErrUserBlocked else Ok u)"

definition userOK :: "provider \<Rightarrow> string \<Rightarrow> pstate \<Rightarrow> unit presult" where
  "userOK P sub s = (case authUserBySub (pv_auth P) sub (ps_env s) of Inl _ \<Rightarrow> Err PAccessDenied | Inr _ \<Rightarrow> Ok ())"

definition live :: "provider \<Rightarrow> OAuthGrant \<Rightarrow> pstate \<Rightarrow> unit presult" where
  "live P g s =
     (if og_RevokedAt g \<noteq> None \<or> (og_ExpiresAt g \<noteq> 0 \<and> og_ExpiresAt g < pnow s) then Err PInvalidRefreshToken
      else userOK P (og_Subject g) s)"

definition capTime :: "time \<Rightarrow> time \<Rightarrow> time" where
  "capTime t limit = (if limit \<noteq> 0 \<and> limit < t then limit else t)"

definition grantFor :: "provider \<Rightarrow> tokenRequest \<Rightarrow> pstate \<Rightarrow> OAuthGrant presult \<times> pstate" where
  "grantFor P req s = (case req of
     RefreshReq r \<Rightarrow> (case live P (rr_grant r) s of Inl err \<Rightarrow> (Err err, s) | Inr _ \<Rightarrow> (Ok (rr_grant r), s))
   | AuthReq r \<Rightarrow>
       if \<not> or_Done r then (Err (PInvalidGrant []), s)
       else (case userOK P (or_Subject r) s of
         Inl err \<Rightarrow> (Err err, s)
       | Inr _ \<Rightarrow> (case randomID P 18 s of (i, s) \<Rightarrow>
           let g = \<lparr>og_ID = i, og_ClientID = or_ClientID r, og_Subject = or_Subject r, og_Scopes = or_Scopes r,
                 og_Resources = or_Resources r, og_Ref = or_Ref r, og_AuthTime = or_AuthTime r, og_CreatedAt = pnow s,
                 og_ExpiresAt = or_GrantExpiresAt r, og_RevokedAt = None\<rparr> in
           (case pop (\<lambda>st. CreateOAuthGrant st g) s of (Inl err, s) \<Rightarrow> (Err err, s) | (Inr _, s) \<Rightarrow> (Ok g, s))))
   | OtherReq \<Rightarrow> (Err PUnsupportedGrant, s))"

definition accessToken :: "provider \<Rightarrow> OAuthGrant \<Rightarrow> string list \<Rightarrow> pstate \<Rightarrow> (string \<times> time) presult \<times> pstate" where
  "accessToken P g scopes s = (case randomID P 18 s of (i, s) \<Rightarrow>
     let t = \<lparr>oa_ID = i, oa_GrantID = og_ID g, oa_ClientID = og_ClientID g, oa_Subject = og_Subject g, oa_Scopes = scopes,
           oa_ExpiresAt = capTime (pnow s + pg_AccessTokenTTL (pv_cfg P)) (og_ExpiresAt g), oa_CreatedAt = pnow s\<rparr> in
     case pop (\<lambda>st. CreateOAuthAccessToken st t) s of
       (Inl err, s) \<Rightarrow> (Err err, s)
     | (Inr _, s) \<Rightarrow>
         let s = (if metadataClient P (og_ClientID g) then s else snd (pop (\<lambda>st. TouchOAuthClient st (og_ClientID g) (pnow s)) s))
         in (Ok (oa_ID t, oa_ExpiresAt t), s))"

definition CreateAccessToken :: "provider \<Rightarrow> tokenRequest \<Rightarrow> pstate \<Rightarrow> (string \<times> time) presult \<times> pstate" where
  "CreateAccessToken P req s = (case grantFor P req s of
     (Inl err, s) \<Rightarrow> (Err err, s) | (Inr g, s) \<Rightarrow> accessToken P g (req_scopes req) s)"

definition grant_filter :: OAuthGrantFilter where
  "grant_filter = \<lparr>gf_ID = [], gf_Ref = [], gf_ClientID = [], gf_Subject = []\<rparr>"

definition revokeGrant :: "string \<Rightarrow> pstate \<Rightarrow> pstate" where
  "revokeGrant i s = snd (pop (\<lambda>st. RevokeOAuthGrants st (grant_filter\<lparr>gf_ID := i\<rparr>) (pnow s)) s)"

text \<open>The grant to issue under: the one of a refresh token that is used up now, or a new one.\<close>

definition rotated :: "provider \<Rightarrow> tokenRequest \<Rightarrow> string \<Rightarrow> pstate \<Rightarrow> OAuthGrant presult \<times> pstate" where
  "rotated P req current s =
     (if current = [] then grantFor P req s
      else case req of
        RefreshReq rr \<Rightarrow> (case pop (\<lambda>st. UseOAuthRefreshToken st (tokenHash P current) (pnow s)) s of
          (Inl err, s) \<Rightarrow> (Err PInvalidRefreshToken,
            if err = PStore ErrOAuthTokenUsed then revokeGrant (og_ID (rr_grant rr)) s else s)
        | (Inr _, s) \<Rightarrow> (case live P (rr_grant rr) s of Inl err \<Rightarrow> (Err err, s) | Inr _ \<Rightarrow> (Ok (rr_grant rr), s)))
      | _ \<Rightarrow> (Err PInvalidRefreshToken, s))"

definition CreateAccessAndRefreshTokens ::
  "provider \<Rightarrow> tokenRequest \<Rightarrow> string \<Rightarrow> pstate \<Rightarrow> (string \<times> string \<times> time) presult \<times> pstate" where
  "CreateAccessAndRefreshTokens P req current s = (case rotated P req current s of
     (Inl err, s) \<Rightarrow> (Err err, s)
   | (Inr g, s) \<Rightarrow> (case accessToken P g (req_scopes req) s of
       (Inl err, s) \<Rightarrow> (Err err, s)
     | (Inr (i, exp), s) \<Rightarrow> (case randomID P 32 s of (x, s) \<Rightarrow>
         let refresh = ''rt_'' @ x;
             t = \<lparr>ot_Hash = tokenHash P refresh, ot_GrantID = og_ID g, ot_ClientID = og_ClientID g, ot_Subject = og_Subject g,
               ot_Scopes = req_scopes req, ot_ExpiresAt = capTime (pnow s + pg_RefreshTokenTTL (pv_cfg P)) (og_ExpiresAt g),
               ot_CreatedAt = pnow s, ot_UsedAt = None\<rparr> in
         case pop (\<lambda>st. CreateOAuthRefreshToken st t) s of
           (Inl err, s) \<Rightarrow> (Err err, s) | (Inr _, s) \<Rightarrow> (Ok (i, refresh, exp), s))))"

definition TokenRequestByRefreshToken :: "provider \<Rightarrow> string \<Rightarrow> pstate \<Rightarrow> refreshRequest presult \<times> pstate" where
  "TokenRequestByRefreshToken P token s = (case OAuthRefreshToken_get (pstore s) (tokenHash P token) of
     Inl _ \<Rightarrow> (Err PInvalidRefreshToken, s)
   | Inr t \<Rightarrow>
       if ot_UsedAt t \<noteq> None then (Err PInvalidRefreshToken, revokeGrant (ot_GrantID t) s)
       else if ot_ExpiresAt t < pnow s then (Err PInvalidRefreshToken, s)
       else case OAuthGrant_get (pstore s) (ot_GrantID t) of
         Inl _ \<Rightarrow> (Err PInvalidRefreshToken, s)
       | Inr g \<Rightarrow> (case live P g s of
           Inl _ \<Rightarrow> (Err PInvalidRefreshToken, s)
         | Inr _ \<Rightarrow> (Ok \<lparr>rr_token = t, rr_grant = g, rr_scopes = ot_Scopes t\<rparr>, s)))"

definition TerminateSession :: "string \<Rightarrow> string \<Rightarrow> pstate \<Rightarrow> unit presult \<times> pstate" where
  "TerminateSession userID clientID s =
     (if userID = [] \<or> clientID = [] then (Ok (), s)
      else case pop (\<lambda>st. RevokeOAuthGrants st (grant_filter\<lparr>gf_ClientID := clientID, gf_Subject := userID\<rparr>) (pnow s)) s of
        (Inl err, s) \<Rightarrow> (Err err, s) | (Inr _, s) \<Rightarrow> (Ok (), s))"

definition GetRefreshTokenInfo :: "provider \<Rightarrow> string \<Rightarrow> string \<Rightarrow> pstate \<Rightarrow> (string \<times> string) presult" where
  "GetRefreshTokenInfo P clientID token s = (case OAuthRefreshToken_get (pstore s) (tokenHash P token) of
     Inl _ \<Rightarrow> Err PInvalidRefreshToken
   | Inr t \<Rightarrow> if ot_ClientID t \<noteq> clientID then Err PInvalidRefreshToken else Ok (ot_Subject t, ''rt:'' @ ot_Hash t))"

definition RevokeToken :: "string \<Rightarrow> string \<Rightarrow> string \<Rightarrow> pstate \<Rightarrow> unit presult \<times> pstate" where
  "RevokeToken tokenOrID userID clientID s =
     (if has_prefix tokenOrID ''rt:'' then
        (case OAuthRefreshToken_get (pstore s) (drop 3 tokenOrID) of
           Inl _ \<Rightarrow> (Ok (), s)
         | Inr t \<Rightarrow> (Ok (), if ot_ClientID t = clientID then revokeGrant (ot_GrantID t) s else s))
      else case OAuthAccessToken_get (pstore s) tokenOrID of
        Inl _ \<Rightarrow> (Ok (), s)
      | Inr t \<Rightarrow>
          if oa_ClientID t \<noteq> clientID \<or> (userID \<noteq> [] \<and> oa_Subject t \<noteq> userID) then (Ok (), s)
          else (case pop (\<lambda>st. DeleteOAuthAccessToken st (oa_ID t)) s of
            (Inl _, s) \<Rightarrow> (Err PServerError, s) | (Inr _, s) \<Rightarrow> (Ok (), s)))"

section \<open>Clients as the library sees them\<close>

definition GetClientByClientID :: "provider \<Rightarrow> string \<Rightarrow> pstate \<Rightarrow> OAuthClient presult \<times> pstate" where
  "GetClientByClientID P i s = client P i s"

definition LoginURL :: "provider \<Rightarrow> string \<Rightarrow> string" where
  "LoginURL P i = pg_Prefix (pv_cfg P) @ ''/login?id='' @ ol_queryEscape (pv_lib P) i"

definition IsScopeAllowed :: "provider \<Rightarrow> string \<Rightarrow> bool" where
  "IsScopeAllowed P scope \<longleftrightarrow> List.member (pg_Scopes (pv_cfg P)) scope"

definition AuthorizeClientIDSecret :: "provider \<Rightarrow> string \<Rightarrow> string \<Rightarrow> pstate \<Rightarrow> unit presult \<times> pstate" where
  "AuthorizeClientIDSecret P i secret s = (case client P i s of
     (Inl _, s) \<Rightarrow> (Err PInvalidClient, s)
   | (Inr c, s) \<Rightarrow> (if oc_SecretHash c = [] \<or> oc_SecretHash c \<noteq> tokenHash P secret then Err PInvalidClient else Ok (), s))"

section \<open>Claims\<close>

text \<open>The user's e-mail with its verification mark, the name, and the app's own claims, where granted.\<close>

record userinfo =
  ui_Subject :: string
  ui_Email :: "(string \<times> bool) option"
  ui_Name :: "string option"
  ui_Claims :: "(string \<times> jval) list"

definition userinfo_of :: "provider \<Rightarrow> string \<Rightarrow> string list \<Rightarrow> pstate \<Rightarrow> userinfo presult" where
  "userinfo_of P subject scopes s = (case authUserBySub (pv_auth P) subject (ps_env s) of
     Inl err \<Rightarrow> Err (PStore err)
   | Inr u \<Rightarrow> (case (case pg_Claims (pv_cfg P) of None \<Rightarrow> Some [] | Some f \<Rightarrow> f subject scopes) of
       None \<Rightarrow> Err PServerError
     | Some extra \<Rightarrow> Ok \<lparr>ui_Subject = subject,
         ui_Email = (if List.member scopes ''email'' then Some (au_Email u, au_EmailVerified u) else None),
         ui_Name = (if List.member scopes ''profile'' then Some (au_Name u) else None), ui_Claims = extra\<rparr>))"

definition SetUserinfoFromToken :: "provider \<Rightarrow> string \<Rightarrow> string \<Rightarrow> pstate \<Rightarrow> userinfo presult" where
  "SetUserinfoFromToken P tokenID subject s = (case OAuthAccessToken_get (pstore s) tokenID of
     Inl _ \<Rightarrow> Err PInvalidToken
   | Inr t \<Rightarrow>
       if oa_Subject t \<noteq> subject \<or> oa_ExpiresAt t < pnow s then Err PInvalidToken
       else userinfo_of P subject (oa_Scopes t) s)"

definition SetUserinfoFromRequest :: "provider \<Rightarrow> tokenRequest \<Rightarrow> string list \<Rightarrow> pstate \<Rightarrow> userinfo presult" where
  "SetUserinfoFromRequest P req scopes s = userinfo_of P (req_subject req) scopes s"

definition GetPrivateClaimsFromScopes :: "provider \<Rightarrow> string \<Rightarrow> string list \<Rightarrow> (string \<times> jval) list option" where
  "GetPrivateClaimsFromScopes P subject scopes = (case pg_Claims (pv_cfg P) of None \<Rightarrow> Some [] | Some f \<Rightarrow> f subject scopes)"

record introspection =
  is_Scope :: "string list"
  is_ClientID :: string
  is_Subject :: string
  is_Expiration :: time
  is_IssuedAt :: time
  is_Audience :: "string list"

definition SetIntrospectionFromToken :: "string \<Rightarrow> string \<Rightarrow> pstate \<Rightarrow> introspection presult" where
  "SetIntrospectionFromToken tokenID subject s = (case OAuthAccessToken_get (pstore s) tokenID of
     Inl _ \<Rightarrow> Err PInvalidToken
   | Inr t \<Rightarrow>
       if oa_Subject t \<noteq> subject \<or> oa_ExpiresAt t < pnow s then Err PInvalidToken
       else case OAuthGrant_get (pstore s) (oa_GrantID t) of
         Inl _ \<Rightarrow> Err PInvalidToken
       | Inr g \<Rightarrow>
           if og_RevokedAt g \<noteq> None then Err PInvalidToken
           else Ok \<lparr>is_Scope = oa_Scopes t, is_ClientID = oa_ClientID t, is_Subject = subject, is_Expiration = oa_ExpiresAt t,
             is_IssuedAt = oa_CreatedAt t, is_Audience = oa_ClientID t # og_Resources g\<rparr>)"

section \<open>Login and consent\<close>

text \<open>The front of the authorization endpoint: what the library is handed, the resources and the scopes asked for.\<close>

definition authorize :: "provider \<Rightarrow> string list \<Rightarrow> string \<Rightarrow> reply + (string list \<times> string)" where
  "authorize P asked scope = (case resources P asked of
     None \<Rightarrow> Inl (writeErr 400 ''invalid_target'' ''this resource is not served here'')
   | Some res \<Rightarrow> Inr (res, if trim_space scope = [] \<and> pg_DefaultScopes (pv_cfg P) \<noteq> []
       then join_with '' '' (pg_DefaultScopes (pv_cfg P)) else scope))"

definition errorURL :: "provider \<Rightarrow> OAuthAuthRequest \<Rightarrow> string \<Rightarrow> string \<Rightarrow> string option" where
  "errorURL P req code desc = ol_withQuery (pv_lib P) (or_RedirectURI req) (or_ResponseMode req = ''fragment'')
     ([(''error'', code), (''iss'', pg_Issuer (pv_cfg P))] @ (if desc \<noteq> [] then [(''error_description'', desc)] else []) @
      (if or_State req \<noteq> [] then [(''state'', or_State req)] else []))"

definition redirectError :: "provider \<Rightarrow> OAuthAuthRequest \<Rightarrow> string \<Rightarrow> string \<Rightarrow> pstate \<Rightarrow> reply \<times> pstate" where
  "redirectError P req code desc s = (let s = snd (pop (\<lambda>st. DeleteOAuthAuthRequest st (or_ID req)) s) in
     case errorURL P req code desc of None \<Rightarrow> (jerr 400 code, s) | Some to \<Rightarrow> (Redirect to, s))"

record decision =
  dc_Scopes :: "string list option"
  dc_Ref :: string
  dc_Expires :: time

definition own_request :: "string \<Rightarrow> string \<Rightarrow> pstate \<Rightarrow> OAuthAuthRequest presult" where
  "own_request i subject s = (case request_of i s of
     Inl _ \<Rightarrow> Err PNoRequest
   | Inr req \<Rightarrow> if or_Done req \<or> or_Subject req = [] \<or> or_Subject req \<noteq> subject then Err PNoRequest else Ok req)"

definition granted_scopes :: "string list option \<Rightarrow> string list \<Rightarrow> string list" where
  "granted_scopes d asked = (case d of
     None \<Rightarrow> asked
   | Some chosen \<Rightarrow> filter (\<lambda>x. List.member chosen x \<or> x = ''offline_access'' \<or> x = ''openid'') asked)"

definition Approve :: "provider \<Rightarrow> string \<Rightarrow> string \<Rightarrow> decision \<Rightarrow> pstate \<Rightarrow> string presult \<times> pstate" where
  "Approve P i subject d s = (case own_request i subject s of
     Inl err \<Rightarrow> (Err err, s)
   | Inr req \<Rightarrow>
       let req = req\<lparr>or_Scopes := granted_scopes (dc_Scopes d) (or_Scopes req), or_Done := True, or_Ref := dc_Ref d,
             or_GrantExpiresAt := dc_Expires d, or_AuthTime := pnow s\<rparr> in
       case pop (\<lambda>st. SaveOAuthAuthRequest st req) s of
         (Inl err, s) \<Rightarrow> (Err err, s)
       | (Inr _, s) \<Rightarrow> (Ok (pg_Prefix (pv_cfg P) @ ''/authorize/callback?id='' @ ol_queryEscape (pv_lib P) i), s))"

definition Deny :: "provider \<Rightarrow> string \<Rightarrow> string \<Rightarrow> pstate \<Rightarrow> string presult \<times> pstate" where
  "Deny P i subject s = (case own_request i subject s of
     Inl err \<Rightarrow> (Err err, s)
   | Inr req \<Rightarrow>
       let s = snd (pop (\<lambda>st. DeleteOAuthAuthRequest st i) s) in
       (case errorURL P req ''access_denied'' ''the user declined'' of None \<Rightarrow> (Err PBadURL, s) | Some to \<Rightarrow> (Ok to, s)))"

definition login :: "provider \<Rightarrow> request \<Rightarrow> pstate \<Rightarrow> reply \<times> pstate" where
  "login P r s = (let i = attr (rq_query r) ''id''; expired = ''This sign-in request has expired. Start again from the application.'' in
     case request_of i s of
       Inl _ \<Rightarrow> (jerr 400 expired, s)
     | Inr req \<Rightarrow>
         if or_Done req then (jerr 400 expired, s)
         else case sessionOf (pv_auth P) r (ps_env s) of
           None \<Rightarrow>
             if List.member (or_Prompt req) ''none'' then redirectError P req ''login_required'' [] s
             else (Redirect (the (pg_LoginURL (pv_cfg P)) (pg_Prefix (pv_cfg P) @ ''/login?id='' @ ol_queryEscape (pv_lib P) i)), s)
         | Some sc \<Rightarrow> (case authUserBySub (pv_auth P) (sc_Subject sc) (ps_env s) of
             Inl _ \<Rightarrow> redirectError P req ''access_denied'' ''this account may not sign in'' s
           | Inr _ \<Rightarrow>
               let req = req\<lparr>or_Subject := sc_Subject sc\<rparr> in
               (case pop (\<lambda>st. SaveOAuthAuthRequest st req) s of
                  (Inl _, s) \<Rightarrow> (jerr 500 ''server error'', s)
                | (Inr _, s) \<Rightarrow> (case pg_ConsentURL (pv_cfg P) of
                    None \<Rightarrow> (case Approve P i (sc_Subject sc) \<lparr>dc_Scopes = None, dc_Ref = [], dc_Expires = 0\<rparr> s of
                        (Inl _, s) \<Rightarrow> (jerr 500 ''server error'', s) | (Inr to, s) \<Rightarrow> (Redirect to, s))
                  | Some f \<Rightarrow>
                      if List.member (or_Prompt req) ''none'' then redirectError P req ''consent_required'' [] s
                      else (Redirect (f i), s)))))"

text \<open>The consent screen's view of a request, as the JSON it is answered with.\<close>

definition redirectHost :: "provider_lib \<Rightarrow> string \<Rightarrow> string" where
  "redirectHost L uri = (case ol_url L uri of
     None \<Rightarrow> uri | Some u \<Rightarrow> if pu_Host u \<noteq> [] then pu_Host u else pu_Scheme u @ '':'')"

definition Pending :: "provider \<Rightarrow> string \<Rightarrow> string \<Rightarrow> pstate \<Rightarrow> (OAuthAuthRequest \<times> OAuthClient \<times> string) presult \<times> pstate" where
  "Pending P i subject s = (case own_request i subject s of
     Inl err \<Rightarrow> (Err err, s)
   | Inr req \<Rightarrow> (case client P (or_ClientID req) s of
       (Inl _, s) \<Rightarrow> (Err PNoRequest, s)
     | (Inr c, s) \<Rightarrow> (Ok (req, c, redirectHost (pv_lib P) (or_RedirectURI req)), s)))"

definition request_json :: "OAuthAuthRequest \<times> OAuthClient \<times> string \<Rightarrow> (string \<times> jval) list" where
  "request_json v = (case v of (req, c, host) \<Rightarrow>
     [(''id'', JStr (or_ID req)),
      (''client'', JObj ([(''id'', JStr (oc_ID c)), (''name'', JStr (oc_Name c))] @ nonempty [(''uri'', oc_URI c), (''logoUri'', oc_LogoURI c)] @
         [(''redirectHost'', JStr host), (''dynamic'', JBool (oc_Dynamic c))])),
      (''scopes'', JList (map JStr (or_Scopes req))), (''resources'', JList (map JStr (or_Resources req))),
      (''subject'', JStr (or_Subject req))])"

definition consentJSON :: "provider \<Rightarrow> request \<Rightarrow> pstate \<Rightarrow> reply \<times> pstate" where
  "consentJSON P r s = (case sessionOf (pv_auth P) r (ps_env s) of
     None \<Rightarrow> (writeErr 401 ''unauthenticated'' [], s)
   | Some sc \<Rightarrow>
       if rq_method r = ''GET'' then
         (case Pending P (attr (rq_query r) ''id'') (sc_Subject sc) s of
            (Inl _, s) \<Rightarrow> (writeErr 404 ''not_found'' [], s) | (Inr v, s) \<Rightarrow> (JSON 200 (request_json v), s))
       else if rq_method r = ''POST'' then
         (if \<not> csrfValid (pv_auth P) r then (writeErr 403 ''csrf'' ''invalid or missing CSRF token'', s)
          else if rq_body r = None then (writeErr 400 ''invalid_request'' [], s)
          else case (if flag r ''approve''
              then Approve P (field r ''id'') (sc_Subject sc) \<lparr>dc_Scopes = map_of (rq_lists r) ''scopes'', dc_Ref = [], dc_Expires = 0\<rparr> s
              else Deny P (field r ''id'') (sc_Subject sc) s) of
            (Inl _, s) \<Rightarrow> (writeErr 404 ''not_found'' [], s)
          | (Inr to, s) \<Rightarrow> (JSON 200 [(''redirect'', JStr to)], s))
       else (JSON 405 [], s))"

section \<open>Verification and revocation\<close>

record verified =
  vf_ID :: string
  vf_ClientID :: string
  vf_ClientName :: string
  vf_Subject :: string
  vf_Scopes :: "string list"
  vf_Resources :: "string list"
  vf_Ref :: string
  vf_ExpiresAt :: time

definition cut_colon :: "string \<Rightarrow> (string \<times> string) option" where
  "cut_colon x = (if List.member x CHR '':'' then Some (takeWhile (\<lambda>c. c \<noteq> CHR '':'') x, drop 1 (dropWhile (\<lambda>c. c \<noteq> CHR '':'') x)) else None)"

definition clientName :: "provider \<Rightarrow> string \<Rightarrow> pstate \<Rightarrow> string" where
  "clientName P i s =
     (if metadataClient P i then (case cachedMetadata i s of None \<Rightarrow> [] | Some c \<Rightarrow> oc_Name c)
      else case OAuthClient_get (pstore s) i of Inl _ \<Rightarrow> [] | Inr c \<Rightarrow> oc_Name c)"

definition Verify :: "provider \<Rightarrow> string \<Rightarrow> pstate \<Rightarrow> verified presult" where
  "Verify P token s = (case ol_decrypt (pv_lib P) token of
     None \<Rightarrow> Err PInvalidToken
   | Some plain \<Rightarrow> (case cut_colon plain of
       None \<Rightarrow> Err PInvalidToken
     | Some (i, sub) \<Rightarrow> (case OAuthAccessToken_get (pstore s) i of
         Inl _ \<Rightarrow> Err PInvalidToken
       | Inr t \<Rightarrow>
           if oa_Subject t \<noteq> sub \<or> \<not> pnow s < oa_ExpiresAt t then Err PInvalidToken
           else case OAuthGrant_get (pstore s) (oa_GrantID t) of
             Inl _ \<Rightarrow> Err PInvalidToken
           | Inr g \<Rightarrow>
               if og_RevokedAt g \<noteq> None \<or> (og_ExpiresAt g \<noteq> 0 \<and> og_ExpiresAt g < pnow s) then Err PInvalidToken
               else Ok \<lparr>vf_ID = og_ID g, vf_ClientID = oa_ClientID t, vf_ClientName = clientName P (oa_ClientID t) s, vf_Subject = sub,
                 vf_Scopes = oa_Scopes t, vf_Resources = og_Resources g, vf_Ref = og_Ref g, vf_ExpiresAt = oa_ExpiresAt t\<rparr>)))"

definition VerifyFor :: "provider \<Rightarrow> string \<Rightarrow> string \<Rightarrow> pstate \<Rightarrow> verified presult" where
  "VerifyFor P token resource s = (case Verify P token s of
     Inl err \<Rightarrow> Err err
   | Inr g \<Rightarrow> if \<not> List.member (vf_Resources g) (normResource (pv_lib P) resource) then Err PInvalidToken else Ok g)"

definition RevokeRef :: "string \<Rightarrow> pstate \<Rightarrow> unit presult \<times> pstate" where
  "RevokeRef ref s =
     (if ref = [] then (Ok (), s)
      else case pop (\<lambda>st. RevokeOAuthGrants st (grant_filter\<lparr>gf_Ref := ref\<rparr>) (pnow s)) s of
        (Inl err, s) \<Rightarrow> (Err err, s) | (Inr _, s) \<Rightarrow> (Ok (), s))"

definition RevokeGrant :: "string \<Rightarrow> pstate \<Rightarrow> unit presult \<times> pstate" where
  "RevokeGrant i s =
     (if i = [] then (Ok (), s)
      else case pop (\<lambda>st. RevokeOAuthGrants st (grant_filter\<lparr>gf_ID := i\<rparr>) (pnow s)) s of
        (Inl err, s) \<Rightarrow> (Err err, s) | (Inr _, s) \<Rightarrow> (Ok (), s))"

text \<open>One turn of the clean-up.\<close>

definition provider_gc :: "provider \<Rightarrow> pstate \<Rightarrow> pstate" where
  "provider_gc P s = (let now = pnow s;
     s = snd (pop (\<lambda>st. DeleteExpiredOAuth st now (now - authRequestTTL) (now - pg_UnusedClientTTL (pv_cfg P))) s);
     s = snd (rotateKeys P False s);
     s = forgetCodes now s
   in s\<lparr>ps_reg := regSweep hour now (ps_reg s)\<rparr>)"

section \<open>The mounted paths\<close>

datatype pendpoint = PAuthorize | PLogin | PConsent | PRegister | PDiscovery | PLibrary

text \<open>The routes \<open>New\<close> registers, for a clean path: what is not the provider's own goes to the library.\<close>

definition providerRoute :: "provider \<Rightarrow> string \<Rightarrow> pendpoint option" where
  "providerRoute P path = (let pre = pg_Prefix (pv_cfg P) in
     if path = pre @ ''/authorize'' then Some PAuthorize
     else if path = pre @ ''/login'' then Some PLogin
     else if path = pre @ ''/consent'' then Some PConsent
     else if path = pre @ ''/register'' \<and> pg_Registration (pv_cfg P) then Some PRegister
     else if path = ''/.well-known/openid-configuration'' \<or> path = ''/.well-known/oauth-authorization-server'' then Some PDiscovery
     else if has_prefix path (pre @ ''/'') then Some PLibrary
     else None)"

definition Patterns :: "provider \<Rightarrow> string list" where
  "Patterns P = [pg_Prefix (pv_cfg P) @ ''/'', ''/.well-known/openid-configuration'', ''/.well-known/oauth-authorization-server'']"

definition RotateKeys :: "provider \<Rightarrow> pstate \<Rightarrow> unit presult \<times> pstate" where
  "RotateKeys P s = rotateKeys P True s"

end
