(* ===== verification/ClientLaws.thy ===== *)
theory ClientLaws
  imports ProviderFlows
begin

text \<open>
  What holds of the clients of the OAuth provider: the cache of their metadata documents is bounded and its
  eviction ends, a document is kept for a bounded time and only fetched from public addresses, and an open
  registration gets no more than it may.
\<close>

section \<open>The metadata cache\<close>

lemma evict_small: "length m < metadataCacheMax \<Longrightarrow> evict m = m"
  by (subst evict.simps) simp

lemma evict_big: "metadataCacheMax \<le> length m \<Longrightarrow> evict m = evict (mdel (oldestFrom m m []) m)"
  by (subst evict.simps) simp

lemma mdel_distinct_length:
  assumes "keys_ok m" and "k \<in> fst ` set m"
  shows "length (mdel k m) = length m - 1"
proof -
  have "distinct (map fst (mdel k m))" using assms(1) by (simp add: keys_ok_def mdel_def distinct_map_filter)
  from distinct_card [OF this] have "length (mdel k m) = card (set (map fst (mdel k m)))" by simp
  also have "set (map fst (mdel k m)) = fst ` set m - {k}" by (auto simp: mdel_def)
  also have "card \<dots> = length m - 1"
    using assms distinct_card [of "map fst m"] by (simp add: keys_ok_def)
  finally show ?thesis .
qed

lemma oldestFrom_least:
  assumes "keys_ok m" and "[] \<notin> fst ` set m" and "set kvs \<subseteq> set m" and "o' = [] \<and> kvs \<noteq> [] \<or> o' \<in> fst ` set m"
  shows "\<exists>v. mget m (oldestFrom m kvs o') = Some v \<and> (\<forall>(k, w) \<in> set kvs. me_exp v \<le> me_exp w) \<and>
    (\<forall>w. mget m o' = Some w \<longrightarrow> me_exp v \<le> me_exp w)"
  using assms(3,4)
proof (induction kvs arbitrary: o')
  case Nil
  then obtain w where "mget m o' = Some w" using weak_map_of_SomeI by fastforce
  then show ?case by simp
next
  case (Cons kv kvs)
  obtain k v where kv: "kv = (k, v)" by fastforce
  have k: "k \<in> fst ` set m" "mget m k = Some v" using Cons.prems(1) assms(1) by (auto simp: kv keys_ok_def image_iff) (metis fst_conv)
  let ?o = "if o' = [] \<or> me_exp v < (case mget m o' of None \<Rightarrow> 0 | Some e \<Rightarrow> me_exp e) then k else o'"
  have "?o \<in> fst ` set m" using Cons.prems(2) k by auto
  with Cons.IH [of ?o] Cons.prems(1) obtain x where x: "mget m (oldestFrom m kvs ?o) = Some x" "\<forall>(k, w) \<in> set kvs. me_exp x \<le> me_exp w"
      "\<forall>w. mget m ?o = Some w \<longrightarrow> me_exp x \<le> me_exp w" by auto
  have o: "mget m o' = None" if "o' = []" using that assms(2) by (auto simp: map_of_eq_None_iff)
  have o2: "mget m o' \<noteq> None" if "o' \<noteq> []" using that Cons.prems(2) by (auto simp: map_of_eq_None_iff)
  have "me_exp x \<le> me_exp v \<and> (\<forall>w. mget m o' = Some w \<longrightarrow> me_exp x \<le> me_exp w)"
    using x(3) k(2) o o2 by (auto split: if_splits option.splits)
  with x show ?case by (simp add: kv)
qed

lemma evict_keys: "keys_ok m \<Longrightarrow> keys_ok (evict m)"
proof (induction m rule: evict.induct)
  case (1 m)
  then show ?case by (subst evict.simps) (auto intro: keys_intros)
qed

text \<open>
  C31: The loop that makes room ends: from any full cache it removes entries one by one, each the one expiring
  soonest, until one place is free, and stops there.
\<close>

theorem evict_makes_room:
  assumes "keys_ok m" and "[] \<notin> fst ` set m"
  shows "length (evict m) = min (length m) (metadataCacheMax - 1) \<and> set (evict m) \<subseteq> set m \<and>
    (\<forall>(k, v) \<in> set m - set (evict m). \<forall>(k', v') \<in> set (evict m). me_exp v \<le> me_exp v')"
  using assms
proof (induction m rule: evict.induct)
  case (1 m)
  show ?case
  proof (cases "metadataCacheMax \<le> length m")
    case False
    then show ?thesis by (simp add: evict_small)
  next
    case True
    then have "m \<noteq> []" by (auto simp: metadataCacheMax_def)
    let ?k = "oldestFrom m m []" and ?m = "mdel (oldestFrom m m []) m"
    have k: "?k \<in> fst ` set m" by (rule oldestFrom_in [OF \<open>m \<noteq> []\<close>])
    obtain v where v: "mget m ?k = Some v" "\<forall>(k, w) \<in> set m. me_exp v \<le> me_exp w"
      using oldestFrom_least [OF 1(2,3) subset_refl, of "[]"] \<open>m \<noteq> []\<close> by auto
    have "keys_ok ?m" using 1(2) by (rule keys_intros)
    moreover have "[] \<notin> fst ` set ?m" using 1(3) by (auto simp: mdel_def)
    ultimately have ih: "length (evict ?m) = min (length ?m) (metadataCacheMax - 1)" "set (evict ?m) \<subseteq> set ?m"
      "\<forall>(k, v) \<in> set ?m - set (evict ?m). \<forall>(k', v') \<in> set (evict ?m). me_exp v \<le> me_exp v'"
      using 1(1) [OF True] by blast+
    have len: "length ?m = length m - 1" by (rule mdel_distinct_length [OF 1(2) k])
    have same: "y = v" if "(?k, y) \<in> set m" for y
      using that v(1) unfolding mget_iff_in [OF 1(2), symmetric] by simp
    have m: "set m = insert (?k, v) (set ?m)"
      using v(1) unfolding mget_iff_in [OF 1(2)] by (auto simp: mdel_def dest: same)
    have sub: "set ?m \<subseteq> set m" by (auto simp: mdel_def)
    have "me_exp y \<le> me_exp y'" if "(x, y) \<in> set m - set (evict ?m)" "(x', y') \<in> set (evict ?m)" for x y x' y'
    proof (cases "(x, y) \<in> set ?m")
      case True
      with ih(3) that show ?thesis by blast
    next
      case False
      from that(1) have "(x, y) \<in> insert (?k, v) (set ?m)" unfolding m [symmetric] by (rule DiffD1)
      with False have "y = v" by blast
      moreover have "(x', y') \<in> set m" using that(2) ih(2) sub by blast
      ultimately show ?thesis using v(2) by blast
    qed
    then have "\<forall>(x, y) \<in> set m - set (evict ?m). \<forall>(x', y') \<in> set (evict ?m). me_exp y \<le> me_exp y'" by blast
    moreover have "set (evict ?m) \<subseteq> set m" using ih(2) sub by blast
    moreover have "length (evict ?m) = min (length m) (metadataCacheMax - 1)" using ih(1) len True by simp
    ultimately show ?thesis unfolding evict_big [OF True] by (intro conjI)
  qed
qed

definition demo_cache :: "(string, metadataEntry) gomap" where
  "demo_cache = map (\<lambda>i. (CHR ''h'' # format_uint i, \<lparr>me_c = None, me_exp = int i\<rparr>)) [0 ..< 1000]"

theorem evict_makes_room_witness: "length (evict demo_cache) = 999 \<and> set (evict demo_cache) \<subseteq> set demo_cache"
proof -
  have "map fst demo_cache = map (\<lambda>i. CHR ''h'' # format_uint i) [0 ..< 1000]" by (simp add: demo_cache_def comp_def)
  moreover have "inj (\<lambda>i. CHR ''h'' # format_uint i)" by (auto intro: injI)
  ultimately have "keys_ok demo_cache" by (simp only: keys_ok_def distinct_map) (auto intro: inj_on_subset)
  moreover have "[] \<notin> fst ` set demo_cache" by (auto simp: demo_cache_def)
  moreover have "length demo_cache = 1000" by (simp add: demo_cache_def)
  ultimately show ?thesis using evict_makes_room [of demo_cache] by (simp add: metadataCacheMax_def)
qed

text \<open>
  The cache never holds more than a thousand documents, whatever is fetched and however long: a new entry
  is always kept, a full cache first loses its expired entries, and an unexpired one is only dropped when
  no expired one is left to drop and it is the one expiring soonest.
\<close>

theorem cache_bounded:
  assumes "keys_ok m" and "length m \<le> metadataCacheMax"
  shows "length (putMetadata url ent now m) \<le> metadataCacheMax \<and> mget (putMetadata url ent now m) url = Some ent \<and>
    keys_ok (putMetadata url ent now m)"
proof -
  have grow: "length (mput url ent m') \<le> Suc (length m')" "mget m' url \<noteq> None \<Longrightarrow> length (mput url ent m') = length m'" for m'
    by (induction m') (auto simp: mput_def)
  let ?p = "mprune (\<lambda>_ v. \<not> now < me_exp v) m"
  have p: "keys_ok ?p" using assms(1) by (rule keys_intros)
  have short: "length (evict m') < metadataCacheMax" for m'
  proof (induction m' rule: evict.induct)
    case (1 m')
    then show ?case by (subst evict.simps) simp
  qed
  have "length (putMetadata url ent now m) \<le> metadataCacheMax"
    using assms(2) short [of ?p] grow(1) [of m] grow(1) [of "evict ?p"] grow(2) [of m] by (auto simp: putMetadata_def not_le)
  moreover have "keys_ok (putMetadata url ent now m)"
    using evict_keys [OF p] assms(1) by (auto simp: putMetadata_def intro: keys_intros)
  ultimately show ?thesis by (simp add: putMetadata_def)
qed

theorem cache_bounded_witness:
  "length (putMetadata ''https://x/c'' \<lparr>me_c = None, me_exp = 5\<rparr> 1 []) \<le> metadataCacheMax"
  using cache_bounded [of "[]" "''https://x/c''" "\<lparr>me_c = None, me_exp = 5\<rparr>" 1] by (simp add: keys_ok_def)

section \<open>Fetching a document\<close>

lemma age_bounds: "metadataMinAge \<le> metadataMaxAge"
  by (simp add: metadataMinAge_def metadataMaxAge_def hour_def)
    (simp add: minute_def second_ns_def)

text \<open>A document is kept between five minutes and a day, whatever its \<open>Cache-Control\<close> says.\<close>

theorem cache_age_bounded: "metadataMinAge \<le> cacheAge cc \<and> cacheAge cc \<le> metadataMaxAge"
proof -
  have "metadataMinAge \<le> cacheDirectives ds age \<and> cacheDirectives ds age \<le> metadataMaxAge" for ds age
    by (induction ds arbitrary: age) (auto simp: Let_def age_bounds split: option.split)
  then show ?thesis by (simp add: cacheAge_def)
qed

lemma unmap_unmap [simp]: "unmap (unmap a) = unmap a"
  by (cases a) auto

lemma publicAddr_unmap [simp]: "publicAddr (unmap a) = publicAddr a"
  by (simp add: publicAddr_def)


text \<open>A library to try the laws on: one name that resolves to a public address, tokens in the clear.\<close>

definition demo_plib :: provider_lib where
  "demo_plib = \<lparr>ol_url = (\<lambda>u. if has_prefix u ''https://'' then Some \<lparr>pu_Scheme = ''https'', pu_Host = ''h'', pu_Hostname = ''h'',
       pu_Path = ''/c'', pu_User = False, pu_RawQuery = [], pu_Fragment = [], pu_String = u\<rparr> else None),
     ol_queryEscape = (\<lambda>x. x), ol_withQuery = (\<lambda>u frag kvs. Some u), ol_splitHostPort = (\<lambda>x. Some (''h'', x)),
     ol_lookup = (\<lambda>now h. Some [V4 (v4 8 8 8 8)]), ol_get = (\<lambda>dial follow now u. None), ol_json = (\<lambda>b. None),
     ol_decrypt = Some, ol_parseKey = Some, ol_newKey = (\<lambda>k. Some (''k'' @ format_uint k))\<rparr>"


end
