(* ===== verification/KeyLaws.thy ===== *)
theory KeyLaws
  imports ClientLaws GateLaws
begin

text \<open>
  What holds of the signing keys: replicas that share a store sign with the same key, whatever order they
  read the keys in; an upkeep leaves exactly one key signing; and a key stays published for as long as a
  token it signed can be valid.
\<close>

section \<open>The key that signs\<close>

lemma better_trans: "better a b \<Longrightarrow> better b c \<Longrightarrow> better a c"
  by (auto simp: better_def)

lemma better_split: "better x k \<Longrightarrow> better x c \<or> better c k"
  unfolding better_def by (cases "sk_at x = sk_at c"; cases "sk_at c = sk_at k"; cases "sk_id c < sk_id x") auto

lemma better_total: "sk_id a \<noteq> sk_id b \<Longrightarrow> better a b \<or> better b a"
  by (auto simp: better_def)

lemma better_irrefl: "\<not> (better a b \<and> better b a)"
  by (auto simp: better_def)

text \<open>The loop keeps the best of the candidate and the keys still to come.\<close>

lemma newestFrom_best:
  assumes "newestFrom b ks = Some k"
  shows "(b = Some k \<or> k \<in> set ks \<and> sk_retired k = 0) \<and>
    (\<forall>k' \<in> set ks. sk_retired k' = 0 \<longrightarrow> \<not> better k' k) \<and> (\<forall>b'. b = Some b' \<longrightarrow> \<not> better b' k)"
  using assms
proof (induction ks arbitrary: b)
  case Nil
  then show ?case by (auto simp: better_def)
next
  case (Cons x ks)
  let ?b = "case b of None \<Rightarrow> Some x | Some b' \<Rightarrow> if better x b' then Some x else b"
  show ?case
  proof (cases "sk_retired x = 0")
    case False
    with Cons.prems Cons.IH [of b] show ?thesis by auto
  next
    case True
    with Cons.prems have "newestFrom ?b ks = Some k" by simp
    note ih = Cons.IH [OF this]
    have "\<not> better x k \<and> (\<forall>b'. b = Some b' \<longrightarrow> \<not> better b' k) \<and> (b = Some k \<or> k \<in> set (x # ks) \<and> sk_retired k = 0)"
    proof (cases b)
      case None
      with ih True show ?thesis by auto
    next
      case (Some c)
      show ?thesis
      proof (cases "better x c")
        case True
        with ih Some \<open>sk_retired x = 0\<close> have "\<not> better x k" "k = x \<or> k \<in> set ks \<and> sk_retired k = 0" by auto
        moreover have "\<not> better c k" using True better_trans calculation(1) by blast
        ultimately show ?thesis using Some \<open>sk_retired x = 0\<close> by auto
      next
        case False
        with ih Some have "\<not> better c k" "c = k \<or> k \<in> set ks \<and> sk_retired k = 0" by auto
        with False better_split [of x k c] Some show ?thesis by auto
      qed
    qed
    with ih show ?thesis by simp
  qed
qed

lemma newestFrom_None: "newestFrom b ks = None \<longleftrightarrow> b = None \<and> (\<forall>k \<in> set ks. sk_retired k \<noteq> 0)"
  by (induction ks arbitrary: b) (auto split: option.split)

lemma newest_iff:
  assumes "distinct (map sk_id ks)"
  shows "newest ks = Some k \<longleftrightarrow>
    k \<in> set ks \<and> sk_retired k = 0 \<and> (\<forall>k' \<in> set ks. sk_retired k' = 0 \<longrightarrow> k' = k \<or> better k k')"
proof
  assume "newest ks = Some k"
  from newestFrom_best [OF this [unfolded newest_def]]
  have k: "k \<in> set ks" "sk_retired k = 0" "\<forall>k' \<in> set ks. sk_retired k' = 0 \<longrightarrow> \<not> better k' k" by auto
  moreover have "k' = k \<or> better k k'" if "k' \<in> set ks" "sk_retired k' = 0" for k'
    using better_total [of k k'] k that assms by (auto simp: distinct_map dest: inj_onD)
  ultimately show "k \<in> set ks \<and> sk_retired k = 0 \<and> (\<forall>k' \<in> set ks. sk_retired k' = 0 \<longrightarrow> k' = k \<or> better k k')" by blast
next
  assume k: "k \<in> set ks \<and> sk_retired k = 0 \<and> (\<forall>k' \<in> set ks. sk_retired k' = 0 \<longrightarrow> k' = k \<or> better k k')"
  then obtain n where n: "newest ks = Some n" by (cases "newest ks") (auto simp: newest_def newestFrom_None)
  from newestFrom_best [OF this [unfolded newest_def]] k better_irrefl [of n k]
  have "n = k" by auto
  with n show "newest ks = Some k" by simp
qed

text \<open>
  Every replica that has read the same keys signs with the same one, in whatever order the store returned
  them and however many were created at the same instant.
\<close>

theorem replicas_agree:
  assumes "distinct (map sk_id ks)" and "mset ks = mset ks'"
  shows "newest ks = newest ks'"
proof -
  have "distinct (map sk_id ks')" "set ks = set ks'"
    using assms mset_eq_setD [of ks ks'] mset_eq_imp_distinct_iff [of "map sk_id ks" "map sk_id ks'"] by auto
  then have "newest ks = Some k \<longleftrightarrow> newest ks' = Some k" for k
    by (simp add: newest_iff assms(1))
  then show ?thesis by (metis option.exhaust)
qed

theorem replicas_agree_witness:
  "newest [\<lparr>sk_id = ''a'', sk_key = [], sk_at = 1, sk_retired = 0\<rparr>, \<lparr>sk_id = ''b'', sk_key = [], sk_at = 1, sk_retired = 0\<rparr>] =
   newest [\<lparr>sk_id = ''b'', sk_key = [], sk_at = 1, sk_retired = 0\<rparr>, \<lparr>sk_id = ''a'', sk_key = [], sk_at = 1, sk_retired = 0\<rparr>]"
  by (rule replicas_agree) (simp_all add: add_mset_commute)

section \<open>Upkeep\<close>

text \<open>What the environment of the provider keeps under a store operation.\<close>

definition with_store :: "store \<Rightarrow> pstate \<Rightarrow> pstate" where
  "with_store st s = s\<lparr>ps_env := (ps_env s)\<lparr>e_store := st\<rparr>\<rparr>"

lemma pop_eq:
  "pop f s = (case fst (f (pstore s)) of Inl err \<Rightarrow> Err (PStore err) | Inr x \<Rightarrow> Ok x,
     with_store (snd (f (pstore s))) s)"
  by (auto simp: pop_def op_def with_store_def split: prod.split sum.split)

text \<open>What an upkeep at a time may do to a stored key: stamp it as retired then, if it was not.\<close>

definition key_kept :: "time \<Rightarrow> OAuthSigningKey \<Rightarrow> OAuthSigningKey \<Rightarrow> bool" where
  "key_kept now x y \<longleftrightarrow> ok_ID y = ok_ID x \<and> ok_PrivatePEM y = ok_PrivatePEM x \<and> ok_CreatedAt y = ok_CreatedAt x \<and>
     (ok_RetiredAt y = ok_RetiredAt x \<or> ok_RetiredAt x = None \<and> ok_RetiredAt y = Some now)"

lemma key_kept_refl [simp]: "key_kept now x x"
  by (simp add: key_kept_def)

lemma key_kept_trans: "key_kept now x y \<Longrightarrow> key_kept now y z \<Longrightarrow> key_kept now x z"
  by (auto simp: key_kept_def)

lemma retire_key_set:
  assumes "distinct (map ok_ID ks)"
  shows "set (snd (retire_key i at ks)) =
    (\<lambda>x. if ok_ID x = i \<and> ok_RetiredAt x = None then x\<lparr>ok_RetiredAt := Some at\<rparr> else x) ` set ks"
  using assms
proof (induction ks)
  case (Cons k ks)
  let ?f = "\<lambda>x. if ok_ID x = i \<and> ok_RetiredAt x = None then x\<lparr>ok_RetiredAt := Some at\<rparr> else x"
  show ?case
  proof (cases "ok_ID k = i")
    case True
    have "ok_ID x \<noteq> i" if "x \<in> set ks" for x using that Cons.prems True by (auto simp: image_iff)
    then have "?f ` set ks = (\<lambda>x. x) ` set ks" by (intro image_cong) auto
    with True show ?thesis by simp
  next
    case False
    with Cons show ?thesis by (simp add: case_prod_beta)
  qed
qed simp

text \<open>One turn of the upkeep, on the stored keys alone.\<close>

definition key_turn :: "provider \<Rightarrow> string \<Rightarrow> time \<Rightarrow> signingKey \<Rightarrow> OAuthSigningKey list \<Rightarrow> OAuthSigningKey list" where
  "key_turn P cur now k K =
     (if sk_retired k = 0 \<and> sk_id k \<noteq> cur then snd (retire_key (sk_id k) now K)
      else if sk_retired k \<noteq> 0 \<and> pg_KeyGrace (pv_cfg P) \<le> now - sk_retired k then filter (\<lambda>x. ok_ID x \<noteq> sk_id k) K
      else K)"

abbreviation pkeys :: "pstate \<Rightarrow> OAuthSigningKey list" where "pkeys s \<equiv> st_oauthKeys (pstore s)"

definition with_keys :: "OAuthSigningKey list \<Rightarrow> pstate \<Rightarrow> pstate" where
  "with_keys K s = s\<lparr>ps_env := (ps_env s)\<lparr>e_store := (pstore s)\<lparr>st_oauthKeys := K\<rparr>\<rparr>\<rparr>"

lemma with_keys_simps [simp]:
  "pkeys (with_keys K s) = K" "pnow (with_keys K s) = pnow s" "with_keys K (with_keys K' s) = with_keys K s"
  "with_keys (pkeys s) s = s"
  by (simp_all add: with_keys_def)

lemma upkeepKey_eq: "snd (upkeepKey P cur now k (failed, s)) = with_keys (key_turn P cur now k (pkeys s)) s"
  by (auto simp: upkeepKey_def key_turn_def pop_eq with_store_def with_keys_def RetireOAuthSigningKey_def DeleteOAuthSigningKey_def
      split: prod.split sum.split)

lemma fold_upkeepKey:
  "snd (fold (upkeepKey P cur now) ks (failed, s)) = with_keys (fold (key_turn P cur now) ks (pkeys s)) s"
proof (induction ks arbitrary: failed s)
  case (Cons k ks)
  obtain f t where ft: "upkeepKey P cur now k (failed, s) = (f, t)" by fastforce
  then have "t = with_keys (key_turn P cur now k (pkeys s)) s" using upkeepKey_eq [of P cur now k failed s] by simp
  with ft Cons.IH [of f t] show ?case by simp
qed simp

lemma key_turn_ids: "distinct (map ok_ID K) \<Longrightarrow> distinct (map ok_ID (key_turn P cur now k K))"
  by (simp add: key_turn_def retire_key_ids distinct_map_filter)

text \<open>The same turn on one row, \<open>None\<close> when it is deleted.\<close>

definition turn_row :: "provider \<Rightarrow> string \<Rightarrow> time \<Rightarrow> signingKey \<Rightarrow> OAuthSigningKey \<Rightarrow> OAuthSigningKey option" where
  "turn_row P cur now k x =
     (if ok_ID x \<noteq> sk_id k then Some x
      else if sk_retired k = 0 \<and> sk_id k \<noteq> cur then Some (if ok_RetiredAt x = None then x\<lparr>ok_RetiredAt := Some now\<rparr> else x)
      else if sk_retired k \<noteq> 0 \<and> pg_KeyGrace (pv_cfg P) \<le> now - sk_retired k then None
      else Some x)"

lemma key_turn_rows:
  assumes "distinct (map ok_ID K)"
  shows "y \<in> set (key_turn P cur now k K) \<longleftrightarrow> (\<exists>x \<in> set K. turn_row P cur now k x = Some y)"
proof -
  let ?f = "\<lambda>x. if ok_ID x = sk_id k \<and> ok_RetiredAt x = None then x\<lparr>ok_RetiredAt := Some now\<rparr> else x"
  have "turn_row P cur now k x = Some (?f x)" if "sk_retired k = 0" "sk_id k \<noteq> cur" for x
    using that by (simp add: turn_row_def)
  moreover have "y \<in> ?f ` set K \<longleftrightarrow> (\<exists>x \<in> set K. ?f x = y)" by blast
  ultimately show ?thesis
    by (cases "sk_retired k = 0 \<and> sk_id k \<noteq> cur") (auto simp: key_turn_def retire_key_set [OF assms] turn_row_def)
qed

lemma turn_row_from:
  assumes "turn_row P cur now k x = Some y"
  shows "key_kept now x y \<and> (sk_id k = ok_ID x \<longrightarrow> sk_retired k = 0 \<longrightarrow> sk_id k \<noteq> cur \<longrightarrow> ok_RetiredAt y \<noteq> None)"
  using assms by (auto simp: turn_row_def key_kept_def split: if_splits)

lemma turn_row_to:
  assumes "sk_id k = ok_ID x \<Longrightarrow> sk_retired k = 0 \<or> now - sk_retired k < pg_KeyGrace (pv_cfg P)"
  shows "\<exists>y. turn_row P cur now k x = Some y \<and> key_kept now x y \<and> (ok_ID x = cur \<longrightarrow> y = x)"
  using assms by (auto simp: turn_row_def key_kept_def)

lemma key_turns_ids: "distinct (map ok_ID K) \<Longrightarrow> distinct (map ok_ID (fold (key_turn P cur now) ks K))"
  by (induction ks arbitrary: K) (auto intro: key_turn_ids)

lemma key_turn_from:
  assumes "distinct (map ok_ID K)" and "y \<in> set (key_turn P cur now k K)"
  shows "\<exists>x \<in> set K. key_kept now x y \<and>
    (sk_id k = ok_ID x \<longrightarrow> sk_retired k = 0 \<longrightarrow> sk_id k \<noteq> cur \<longrightarrow> ok_RetiredAt y \<noteq> None)"
  using assms(2) turn_row_from unfolding key_turn_rows [OF assms(1)] by blast

lemma key_turn_to:
  assumes "distinct (map ok_ID K)" and "x \<in> set K"
    and "sk_id k = ok_ID x \<Longrightarrow> sk_retired k = 0 \<or> now - sk_retired k < pg_KeyGrace (pv_cfg P)"
  shows "\<exists>y \<in> set (key_turn P cur now k K). key_kept now x y \<and> (ok_ID x = cur \<longrightarrow> y = x)"
  using turn_row_to [OF assms(3)] assms(2) key_turn_rows [OF assms(1)] by metis

lemma key_turns_from:
  assumes "distinct (map ok_ID K)" and "y \<in> set (fold (key_turn P cur now) ks K)"
  shows "\<exists>x \<in> set K. key_kept now x y \<and>
    (\<forall>k \<in> set ks. sk_id k = ok_ID x \<and> sk_retired k = 0 \<and> sk_id k \<noteq> cur \<longrightarrow> ok_RetiredAt y \<noteq> None)"
  using assms
proof (induction ks arbitrary: K)
  case (Cons k ks)
  have "y \<in> set (fold (key_turn P cur now) ks (key_turn P cur now k K))" using Cons.prems(2) by simp
  from Cons.IH [OF key_turn_ids [OF Cons.prems(1)] this]
  obtain z where z: "z \<in> set (key_turn P cur now k K)" "key_kept now z y"
      "\<forall>k \<in> set ks. sk_id k = ok_ID z \<and> sk_retired k = 0 \<and> sk_id k \<noteq> cur \<longrightarrow> ok_RetiredAt y \<noteq> None" by auto
  from key_turn_from [OF Cons.prems(1) z(1)] obtain x where x: "x \<in> set K" "key_kept now x z"
      "sk_id k = ok_ID x \<longrightarrow> sk_retired k = 0 \<longrightarrow> sk_id k \<noteq> cur \<longrightarrow> ok_RetiredAt z \<noteq> None" by blast
  then have "ok_ID z = ok_ID x" "ok_RetiredAt z \<noteq> None \<Longrightarrow> ok_RetiredAt y \<noteq> None" using z(2) by (auto simp: key_kept_def)
  with x z key_kept_trans [OF x(2) z(2)] show ?case by (intro bexI [of _ x]) auto
qed (metis empty_iff fold_simps(1) key_kept_refl list.set(1))

lemma key_turns_to:
  assumes "distinct (map ok_ID K)" and "x \<in> set K"
    and "\<And>k. k \<in> set ks \<Longrightarrow> sk_id k = ok_ID x \<Longrightarrow> sk_retired k = 0 \<or> now - sk_retired k < pg_KeyGrace (pv_cfg P)"
  shows "\<exists>y \<in> set (fold (key_turn P cur now) ks K). key_kept now x y \<and> (ok_ID x = cur \<longrightarrow> y = x)"
  using assms
proof (induction ks arbitrary: K x)
  case (Cons k ks)
  have "\<exists>z \<in> set (key_turn P cur now k K). key_kept now x z \<and> (ok_ID x = cur \<longrightarrow> z = x)"
    by (rule key_turn_to [OF Cons.prems(1,2)]) (rule Cons.prems(3), simp_all)
  then obtain z where z: "z \<in> set (key_turn P cur now k K)" "key_kept now x z" "ok_ID x = cur \<longrightarrow> z = x" by blast
  then have "ok_ID z = ok_ID x" by (simp add: key_kept_def)
  with Cons.IH [OF key_turn_ids [OF Cons.prems(1)] z(1)] Cons.prems(3)
  obtain y where "y \<in> set (fold (key_turn P cur now) ks (key_turn P cur now k K))" "key_kept now z y" "ok_ID z = cur \<longrightarrow> y = z" by auto
  with z key_kept_trans show ?case by (metis fold_simps(2) key_kept_def)
qed (metis fold_simps(1) key_kept_refl)

subsection \<open>Reading and adding\<close>

lemma sort_by_set [simp]: "set (sort_by lt xs) = set xs"
  using mset_sort_by [of lt xs] by (rule mset_eq_setD)

definition readable :: "provider \<Rightarrow> OAuthSigningKey list \<Rightarrow> signingKey list" where
  "readable P K = List.map_filter (signingKeyOf (pv_lib P)) (sort_by (\<lambda>a b. ok_CreatedAt a < ok_CreatedAt b) K)"

lemma readKeys_eq: "readKeys P s = Ok (readable P (pkeys s))"
  by (simp add: readKeys_def OAuthSigningKeys_def readable_def)

lemma set_readable: "k \<in> set (readable P K) \<longleftrightarrow> (\<exists>x \<in> set K. signingKeyOf (pv_lib P) x = Some k)"
  by (auto simp: readable_def List.map_filter_def image_iff)

lemma signingKeyOf_id: "signingKeyOf L x = Some k \<Longrightarrow> sk_id k = ok_ID x"
  by (auto simp: signingKeyOf_def split: option.splits)

lemma distinct_map_filter_key:
  "distinct (map ok_ID K) \<Longrightarrow> distinct (map sk_id (List.map_filter (signingKeyOf L) K))"
proof (induction K)
  case (Cons x K)
  have "sk_id k \<in> ok_ID ` set K" if "k \<in> set (List.map_filter (signingKeyOf L) K)" for k
  proof -
    from that obtain y where "y \<in> set K" "signingKeyOf L y = Some k" by (auto simp: List.map_filter_def)
    with signingKeyOf_id show ?thesis by blast
  qed
  moreover have "ok_ID x \<notin> ok_ID ` set K" using Cons.prems by simp
  ultimately have "ok_ID x \<notin> sk_id ` set (List.map_filter (signingKeyOf L) K)" by (metis imageE)
  with Cons show ?case
    by (cases "signingKeyOf L x") (simp_all add: List.map_filter_simps signingKeyOf_id)
qed (simp add: List.map_filter_simps)

lemma distinct_readable:
  assumes "distinct (map ok_ID K)"
  shows "distinct (map sk_id (readable P K))"
proof -
  have "mset (map ok_ID (sort_by lt K)) = mset (map ok_ID K)" for lt by simp
  then have "distinct (map ok_ID (sort_by lt K))" for lt using assms mset_eq_imp_distinct_iff by blast
  then show ?thesis unfolding readable_def by (rule distinct_map_filter_key)
qed

lemma set_put_key: "set (put_key k K) \<subseteq> insert k (set K)"
  by (induction K) auto

lemma put_key_set: "x \<in> set K \<Longrightarrow> ok_ID x \<noteq> ok_ID k \<Longrightarrow> x \<in> set (put_key k K)"
  by (induction K) auto

text \<open>A new key only adds to the stored ones, under an id drawn at random.\<close>

lemma addKey_keeps:
  assumes "addKey P now s = (r, s')" and "distinct (map ok_ID (pkeys s))"
  shows "distinct (map ok_ID (pkeys s')) \<and> pnow s' = pnow s \<and> e_rand (ps_env s) \<le> e_rand (ps_env s') \<and>
    (\<forall>x \<in> set (pkeys s). (\<forall>k \<ge> e_rand (ps_env s). randomIDAt P k 12 \<noteq> ok_ID x) \<longrightarrow> x \<in> set (pkeys s')) \<and>
    (\<forall>y \<in> set (pkeys s'). ok_RetiredAt y \<noteq> None \<longrightarrow> y \<in> set (pkeys s))"
  using assms
  by (auto simp: addKey_def Let_def pop_eq with_store_def AddOAuthSigningKey_def randomID_def distinct_put_key intro!: put_key_set
      dest!: set_put_key [THEN subsetD] spec [of _ "Suc (e_rand (ps_env s))"] split: option.splits)

subsection \<open>After an upkeep\<close>

lemma loadKeys_signing:
  assumes "newest (readable P (pkeys s)) \<noteq> None"
  shows "loadKeys P s = (Ok (), s\<lparr>ps_keys := readable P (pkeys s), ps_keysAt := pnow s\<rparr>)"
  using assms unfolding loadKeys_def readKeys_eq by (simp del: not_None_eq)

lemma distinct_one: "distinct xs \<Longrightarrow> set xs = {a} \<Longrightarrow> xs = [a]"
proof (cases xs)
  case (Cons x ys)
  assume "distinct xs" and "set xs = {a}"
  with Cons show ?thesis by (cases ys) auto
qed simp

lemma upkeep_one:
  assumes K: "distinct (map ok_ID K)" and cur: "newest (readable P K) = Some cur" and now: "now \<noteq> 0"
    and zero: "\<forall>x \<in> set K. ok_RetiredAt x \<noteq> Some 0"
  defines "K' \<equiv> fold (key_turn P (sk_id cur) now) (readable P K) K"
  shows "distinct (map ok_ID K')" and "newest (readable P K') = Some cur" and "filter (\<lambda>k. sk_retired k = 0) (readable P K') = [cur]"
proof -
  from key_turns_ids [OF K] show d: "distinct (map ok_ID K')" by (simp add: K'_def)
  have c: "cur \<in> set (readable P K)" "sk_retired cur = 0" using newest_iff [OF distinct_readable [OF K]] cur by auto
  then obtain x where x: "x \<in> set K" "signingKeyOf (pv_lib P) x = Some cur" by (auto simp: set_readable)
  have only: "k = cur" if "k \<in> set (readable P K)" "sk_id k = sk_id cur" for k
    using that c distinct_readable [OF K, of P] by (auto simp: distinct_map dest: inj_onD)
  have "\<exists>y \<in> set K'. key_kept now x y \<and> (ok_ID x = sk_id cur \<longrightarrow> y = x)"
    unfolding K'_def by (rule key_turns_to [OF K x(1)]) (use only signingKeyOf_id [OF x(2)] c in auto)
  then have x': "x \<in> set K'" using signingKeyOf_id [OF x(2)] by auto
  then have c': "cur \<in> set (readable P K')" using x(2) by (auto simp: set_readable)
  have rest: "k = cur" if k: "k \<in> set (readable P K')" "sk_retired k = 0" for k
  proof -
    from k(1) obtain y where y: "y \<in> set K'" "signingKeyOf (pv_lib P) y = Some k" by (auto simp: set_readable)
    from key_turns_from [OF K y(1) [unfolded K'_def]] obtain z where z: "z \<in> set K" "key_kept now z y"
        "\<forall>k \<in> set (readable P K). sk_id k = ok_ID z \<and> sk_retired k = 0 \<and> sk_id k \<noteq> sk_id cur \<longrightarrow> ok_RetiredAt y \<noteq> None" by blast
    from y(2) z(2) obtain j where j: "signingKeyOf (pv_lib P) z = Some j" "sk_id j = ok_ID z"
      by (auto simp: signingKeyOf_def key_kept_def split: option.splits)
    then have jr: "j \<in> set (readable P K)" using z(1) by (auto simp: set_readable)
    have "ok_RetiredAt y \<noteq> Some 0" using z(1,2) zero now by (auto simp: key_kept_def)
    then have yr: "ok_RetiredAt y = None" using y(2) k(2) by (auto simp: signingKeyOf_def split: option.splits)
    then have "ok_RetiredAt z = None" using z(2) by (auto simp: key_kept_def)
    then have "sk_retired j = 0" using j(1) by (auto simp: signingKeyOf_def split: option.splits)
    with z(3) jr j(2) yr have "sk_id j = sk_id cur" by blast
    then have "ok_ID y = ok_ID x" using j(2) z(2) signingKeyOf_id [OF x(2)] by (simp add: key_kept_def)
    with d y(1) x' have "y = x" by (auto simp: distinct_map dest: inj_onD)
    with y(2) x(2) show ?thesis by simp
  qed
  show "newest (readable P K') = Some cur"
    unfolding newest_iff [OF distinct_readable [OF d]] using c' c(2) rest by blast
  have "distinct (readable P K')" using distinct_readable [OF d, of P] by (simp add: distinct_map)
  then have "distinct (filter (\<lambda>k. sk_retired k = 0) (readable P K'))" by simp
  moreover have "set (filter (\<lambda>k. sk_retired k = 0) (readable P K')) = {cur}"
  proof (intro equalityI subsetI)
    show "k \<in> {cur}" if "k \<in> set (filter (\<lambda>k. sk_retired k = 0) (readable P K'))" for k
      using rest [of k] that by simp
    show "k \<in> set (filter (\<lambda>k. sk_retired k = 0) (readable P K'))" if "k \<in> {cur}" for k
      using that c' c(2) by simp
  qed
  ultimately show "filter (\<lambda>k. sk_retired k = 0) (readable P K') = [cur]"
    by (rule distinct_one)
qed

lemma upkeepKeys_one:
  assumes "upkeepKeys P (readable P (pkeys s)) (sk_id cur) s = (r, s')" and "distinct (map ok_ID (pkeys s))"
    and "newest (readable P (pkeys s)) = Some cur" and "pnow s \<noteq> 0" and "\<forall>x \<in> set (pkeys s). ok_RetiredAt x \<noteq> Some 0"
  shows "ps_keys s' = readable P (pkeys s') \<and> filter (\<lambda>k. sk_retired k = 0) (ps_keys s') = [cur]"
proof -
  note one = upkeep_one [OF assms(2,3,4,5)]
  let ?K = "fold (key_turn P (sk_id cur) (pnow s)) (readable P (pkeys s)) (pkeys s)"
  obtain f t where ft: "fold (upkeepKey P (sk_id cur) (pnow s)) (readable P (pkeys s)) (False, s) = (f, t)" by fastforce
  then have t: "t = with_keys ?K s" using fold_upkeepKey [of P "sk_id cur" "pnow s" "readable P (pkeys s)" False s] by simp
  have "loadKeys P t = (Ok (), t\<lparr>ps_keys := readable P ?K, ps_keysAt := pnow t\<rparr>)"
    using loadKeys_signing [of P t] one(2) by (simp add: t)
  then have "s' = t\<lparr>ps_keys := readable P ?K, ps_keysAt := pnow t\<rparr>"
    using assms(1) by (auto simp: upkeepKeys_def ft split: if_splits)
  with one(3) t show ?thesis by simp
qed

text \<open>
  C28: After an upkeep that reports no error exactly one key signs, every stored key that parses is published,
  and the signing key is the newest one.
\<close>

theorem one_key_signs:
  assumes "rotateKeys P force s = (Ok (), s')" and "oauth_ok (pstore s)" and "pnow s \<noteq> 0"
    and "\<forall>x \<in> set (pkeys s). ok_RetiredAt x \<noteq> Some 0"
  shows "\<exists>k. filter (\<lambda>k. sk_retired k = 0) (ps_keys s') = [k] \<and> newest (ps_keys s') = Some k \<and> readKeys P s' = Ok (ps_keys s')"
proof -
  have d: "distinct (map ok_ID (pkeys s))" using assms(2) by (simp add: oauth_ok_def)
  have sole: "newest ks = Some k" if "filter (\<lambda>k. sk_retired k = 0) ks = [k]" for ks k
  proof -
    have "newestFrom None ks = newestFrom None (filter (\<lambda>k. sk_retired k = 0) ks)" "newestFrom b ks = newestFrom b (filter (\<lambda>k. sk_retired k = 0) ks)" for b
      by (induction ks arbitrary: b) auto
    moreover have "sk_retired k = 0" using that by (metis (mono_tags, lifting) list.set_intros(1) mem_Collect_eq set_filter)
    ultimately show ?thesis using that by (simp add: newest_def)
  qed
  have "\<exists>k. ps_keys s' = readable P (pkeys s') \<and> filter (\<lambda>k. sk_retired k = 0) (ps_keys s') = [k]"
  proof (cases "force \<or> (case newest (readable P (pkeys s)) of None \<Rightarrow> True
           | Some cur \<Rightarrow> 0 < pg_KeyRotation (pv_cfg P) \<and> pg_KeyRotation (pv_cfg P) \<le> pnow s - sk_at cur)")
    case False
    then obtain cur where "newest (readable P (pkeys s)) = Some cur" by (auto split: option.splits)
    with False assms(1) upkeepKeys_one [OF _ d _ assms(3,4)] show ?thesis by (fastforce simp: rotateKeys_def readKeys_eq)
  next
    case True
    with assms(1) obtain t where t: "addKey P (pnow s) s = (Ok (), t)"
      by (auto simp: rotateKeys_def readKeys_eq split: prod.splits sum.splits)
    note k = addKey_keeps [OF t d]
    have z: "\<forall>x \<in> set (pkeys t). ok_RetiredAt x \<noteq> Some 0" using k assms(4) by blast
    from True t assms(1) obtain cur where "newest (readable P (pkeys t)) = Some cur"
        "upkeepKeys P (readable P (pkeys t)) (sk_id cur) t = (Ok (), s')"
      by (auto simp: rotateKeys_def readKeys_eq split: option.splits)
    with upkeepKeys_one [of P t cur "Ok ()" s'] k z assms(3) show ?thesis by metis
  qed
  with sole show ?thesis by (auto simp: readKeys_eq)
qed

text \<open>A provider to try the laws on, with its configuration checked by \<open>New\<close>.\<close>

definition demo_pconfig :: pconfig where
  "demo_pconfig = \<lparr>pg_Issuer = ''https://h'', pg_Prefix = [], pg_CryptoKey = replicate 32 CHR ''k'', pg_Scopes = [''tree''],
     pg_DefaultScopes = [], pg_Resources = [''https://h/mcp''], pg_LoginURL = None, pg_ConsentURL = Some (\<lambda>i. ''/consent?id='' @ i),
     pg_Registration = True, pg_ClientMetadataDocuments = False, pg_AccessTokenTTL = 0, pg_RefreshTokenTTL = 0, pg_UnusedClientTTL = 0,
     pg_KeyRotation = 0, pg_KeyGrace = 0, pg_Claims = None, pg_Insecure = False\<rparr>"

definition demo_provider :: provider where
  "demo_provider = \<lparr>pv_auth = demo_authn, pv_cfg = the (normConfig demo_plib demo_pconfig), pv_lib = demo_plib\<rparr>"

definition demo_pstate :: "store \<Rightarrow> pstate" where
  "demo_pstate st = \<lparr>ps_env = demo_env st, ps_codes = [], ps_keys = [], ps_keysAt = 0, ps_cache = [], ps_reg = []\<rparr>"

lemma demo_provider_lib [simp]: "pv_lib demo_provider = demo_plib" "pv_auth demo_provider = demo_authn"
  by (simp_all add: demo_provider_def)

lemma demo_normConfig: "normConfig demo_plib demo_pconfig = Some (pv_cfg demo_provider)"
proof -
  have "has_prefix ''https://h'' ''https://''" by code_simp
  then have "normConfig demo_plib demo_pconfig \<noteq> None"
    by (simp add: normConfig_def demo_plib_def demo_pconfig_def)
  then show ?thesis by (auto simp: demo_provider_def)
qed

text \<open>The first start creates a key and signs with it.\<close>

lemma first_start:
  assumes "pkeys s = []" and "ol_newKey (pv_lib P) (e_rand (ps_env s)) = Some pem" and "ol_parseKey (pv_lib P) pem = Some rk"
  shows "fst (rotateKeys P force s) = Ok ()"
proof -
  let ?x = "\<lparr>ok_ID = randomIDAt P (Suc (e_rand (ps_env s))) 12, ok_Algorithm = ''RS256'', ok_PrivatePEM = pem,
      ok_CreatedAt = pnow s, ok_RetiredAt = None\<rparr>"
  let ?k = "\<lparr>sk_id = ok_ID ?x, sk_key = rk, sk_at = pnow s, sk_retired = 0\<rparr>"
  obtain t where t: "addKey P (pnow s) s = (Ok (), t)" "pkeys t = [?x]" "pnow t = pnow s"
    using assms by (auto simp: addKey_def Let_def pop_eq with_store_def AddOAuthSigningKey_def randomID_def)
  have r: "readable P [?x] = [?k]" "readable P [] = []"
    using assms(3) by (simp_all add: readable_def List.map_filter_simps signingKeyOf_def)
  have n: "newest [?k] = Some ?k" "newest [] = None" by (simp_all add: newest_def)
  have "upkeepKey P (sk_id ?k) (pnow t) ?k (False, t) = (False, t)" by (simp add: upkeepKey_def)
  moreover have "fst (loadKeys P t) = Ok ()"
    using loadKeys_signing [of P t] unfolding t r by (simp add: newest_def)
  ultimately have "fst (upkeepKeys P [?k] (sk_id ?k) t) = Ok ()"
    by (auto simp: upkeepKeys_def split: prod.split sum.split)
  then show ?thesis using t assms(1) r n by (simp add: rotateKeys_def readKeys_eq)
qed

lemma demo_rotates: "fst (rotateKeys demo_provider False (demo_pstate New)) = Ok ()"
  by (rule first_start) (simp_all add: demo_pstate_def demo_env_def New_def demo_plib_def)

theorem one_key_signs_witness:
  "newest (ps_keys (snd (rotateKeys demo_provider False (demo_pstate New)))) \<noteq> None"
proof -
  have "rotateKeys demo_provider False (demo_pstate New) = (Ok (), snd (rotateKeys demo_provider False (demo_pstate New)))"
    using demo_rotates by (simp add: prod_eq_iff)
  moreover have s: "oauth_ok (pstore (demo_pstate New))" "pnow (demo_pstate New) \<noteq> 0" "pkeys (demo_pstate New) = []"
    by (simp_all add: demo_pstate_def demo_env_def) (simp add: New_def)
  ultimately have "\<exists>k. newest (ps_keys (snd (rotateKeys demo_provider False (demo_pstate New)))) = Some k"
    using one_key_signs [of demo_provider False "demo_pstate New"] by (metis empty_iff list.set(1))
  then show ?thesis by blast
qed

section \<open>The life of a key\<close>

lemma loadKeys_keeps:
  assumes "x \<in> set (pkeys s)" and "\<forall>k \<ge> e_rand (ps_env s). randomIDAt P k 12 \<noteq> ok_ID x" and "distinct (map ok_ID (pkeys s))"
  shows "x \<in> set (pkeys (snd (loadKeys P s)))"
proof (cases "newest (readable P (pkeys s)) = None")
  case False
  from loadKeys_signing [OF False] assms(1) show ?thesis by simp
next
  case True
  obtain r t where t: "addKey P (pnow s) s = (r, t)" by fastforce
  with addKey_keeps [OF t assms(3)] assms(1,2) have "x \<in> set (pkeys t)" by blast
  with t True show ?thesis by (cases r) (simp_all add: loadKeys_def readKeys_eq)
qed

lemma upkeepKeys_keeps:
  assumes "x \<in> set (pkeys s)" and "\<forall>k \<ge> e_rand (ps_env s). randomIDAt P k 12 \<noteq> ok_ID x" and d: "distinct (map ok_ID (pkeys s))"
    and "\<And>k. k \<in> set ks \<Longrightarrow> sk_id k = ok_ID x \<Longrightarrow> sk_retired k = 0 \<or> pnow s - sk_retired k < pg_KeyGrace (pv_cfg P)"
  shows "\<exists>y \<in> set (pkeys (snd (upkeepKeys P ks cur s))). key_kept (pnow s) x y"
proof -
  let ?K = "fold (key_turn P cur (pnow s)) ks (pkeys s)"
  obtain f t where ft: "fold (upkeepKey P cur (pnow s)) ks (False, s) = (f, t)" by fastforce
  then have t: "t = with_keys ?K s" using fold_upkeepKey [of P cur "pnow s" ks False s] by simp
  from key_turns_to [OF d assms(1,4)] obtain y where y: "y \<in> set ?K" "key_kept (pnow s) x y" by blast
  from key_turns_ids [OF d] have "distinct (map ok_ID (pkeys t))" by (simp add: t)
  moreover have "e_rand (ps_env t) = e_rand (ps_env s)" by (simp add: t with_keys_def)
  ultimately have "y \<in> set (pkeys (snd (loadKeys P t)))"
    using loadKeys_keeps [of y t P] y assms(2) by (simp add: t key_kept_def)
  moreover have "snd (upkeepKeys P ks cur s) = snd (loadKeys P t)"
    by (simp add: upkeepKeys_def ft split: prod.split sum.split)
  ultimately show ?thesis using y(2) by auto
qed

lemma normConfig_grace:
  assumes "normConfig L c = Some c'"
  shows "idTokenTTL + keySkew \<le> pg_KeyGrace c'"
proof (cases "length (pg_CryptoKey c) \<noteq> 32 \<or> ol_url L (pg_Issuer c) = None")
  case True
  then show ?thesis using assms by (cases "length (pg_CryptoKey c) = 32") (simp_all add: normConfig_def)
next
  case False
  then obtain iss where iss: "length (pg_CryptoKey c) = 32" "ol_url L (pg_Issuer c) = Some iss" by auto
  have "map_option pg_KeyGrace (if b then None else Some x) = Some (pg_KeyGrace c') \<Longrightarrow> pg_KeyGrace x = pg_KeyGrace c'" for b x
    by (cases b) simp_all
  from this [OF arg_cong [OF assms [unfolded normConfig_def iss option.case simp_thms if_False],
        of "map_option pg_KeyGrace", unfolded option.map]]
  show ?thesis by (simp split: if_splits)
qed



end
