(* ===== verification/GrantProtocol.thy ===== *)
theory GrantProtocol
  imports ProviderFlows
begin

text \<open>
  The abstract protocol of grants: what the provider promises, without the operations that keep the promise.
  A world holds the tables as partial maps, and what happened so far: which requests were made, which
  approved and by whom, what the OpenID library holds, which grants were made and which codes issued.
  \<open>GrantTrace\<close> shows that the provider's operations are runs of this protocol.
\<close>

section \<open>Worlds and steps\<close>

record world =
  w_now :: time
  w_req :: "string \<Rightarrow> OAuthAuthRequest option"
  w_gr :: "string \<Rightarrow> OAuthGrant option"
  w_acc :: "string \<Rightarrow> OAuthAccessToken option"
  w_ref :: "string \<Rightarrow> OAuthRefreshToken option"
  w_codes :: "string \<Rightarrow> time option"
  w_asked :: "OAuthAuthRequest set"
  w_approved :: "(string \<times> string) set"
  w_held :: "tokenRequest set"
  w_grants :: "OAuthGrant set"
  w_issued :: "string set"

text \<open>The same request, with at most fewer scopes.\<close>

definition narrows :: "OAuthAuthRequest \<Rightarrow> OAuthAuthRequest \<Rightarrow> bool" where
  "narrows r' r \<longleftrightarrow> or_ID r' = or_ID r \<and> or_ClientID r' = or_ClientID r \<and> or_RedirectURI r' = or_RedirectURI r \<and>
     or_Resources r' = or_Resources r \<and> or_CreatedAt r' = or_CreatedAt r \<and> set (or_Scopes r') \<subseteq> set (or_Scopes r)"

text \<open>The same grant, revoked or not.\<close>

definition same_grant :: "OAuthGrant \<Rightarrow> OAuthGrant \<Rightarrow> bool" where
  "same_grant g g' \<longleftrightarrow> g'\<lparr>og_RevokedAt := None\<rparr> = g\<lparr>og_RevokedAt := None\<rparr>"

text \<open>The grant and the scopes a request the library holds issues tokens under.\<close>

definition issues :: "world \<Rightarrow> OAuthGrant \<Rightarrow> string list \<Rightarrow> bool" where
  "issues w g scopes \<longleftrightarrow> (\<exists>rr. RefreshReq rr \<in> w_held w \<and> g = rr_grant rr \<and> scopes = rr_scopes rr) \<or>
     (g \<in> w_grants w \<and> scopes = og_Scopes g)"

definition within_end :: "time \<Rightarrow> OAuthGrant \<Rightarrow> bool" where
  "within_end t g \<longleftrightarrow> og_ExpiresAt g = 0 \<or> t \<le> og_ExpiresAt g"

inductive pstep :: "world \<Rightarrow> world \<Rightarrow> bool" where
  tick: "w_now w \<le> t \<Longrightarrow> w' = w\<lparr>w_now := t\<rparr> \<Longrightarrow> pstep w w'"
| shrink: "q \<subseteq>\<^sub>m w_req w \<Longrightarrow> g \<subseteq>\<^sub>m w_gr w \<Longrightarrow> a \<subseteq>\<^sub>m w_acc w \<Longrightarrow> f \<subseteq>\<^sub>m w_ref w \<Longrightarrow>
    w' = w\<lparr>w_req := q, w_gr := g, w_acc := a, w_ref := f\<rparr> \<Longrightarrow> pstep w w'"
| forget: "c \<subseteq>\<^sub>m w_codes w \<Longrightarrow> (\<And>h at. w_codes w h = Some at \<Longrightarrow> c h = None \<Longrightarrow> authRequestTTL < w_now w - at) \<Longrightarrow>
    w' = w\<lparr>w_codes := c\<rparr> \<Longrightarrow> pstep w w'"
| mark: "w_codes w h = None \<Longrightarrow> w' = w\<lparr>w_codes := (w_codes w)(h \<mapsto> w_now w)\<rparr> \<Longrightarrow> pstep w w'"
| ask: "\<not> or_Done r \<Longrightarrow> or_CodeHash r = [] \<Longrightarrow> or_CreatedAt r = w_now w \<Longrightarrow>
    w' = w\<lparr>w_req := (w_req w)(or_ID r \<mapsto> r), w_asked := insert r (w_asked w)\<rparr> \<Longrightarrow> pstep w w'"
| note_acts: "w' = w\<lparr>w_approved := A \<union> w_approved w, w_issued := I \<union> w_issued w\<rparr> \<Longrightarrow> pstep w w'"
| touch: "w_req w i = Some r \<Longrightarrow> narrows r' r \<Longrightarrow> or_CodeHash r' = or_CodeHash r \<Longrightarrow>
    (or_Done r' \<Longrightarrow> or_Done r \<and> or_Subject r' = or_Subject r \<or> (or_Subject r', or_ID r') \<in> w_approved w) \<Longrightarrow>
    w' = w\<lparr>w_req := (w_req w)(or_ID r' \<mapsto> r')\<rparr> \<Longrightarrow> pstep w w'"
| code: "w_req w i = Some r \<Longrightarrow> h \<notin> w_issued w \<Longrightarrow>
    w' = w\<lparr>w_req := (w_req w)(or_ID r \<mapsto> r\<lparr>or_CodeHash := h, or_CodeAt := w_now w\<rparr>), w_issued := insert h (w_issued w)\<rparr> \<Longrightarrow>
    pstep w w'"
| exchange: "w_codes w h = None \<Longrightarrow> w_req w i = Some r \<Longrightarrow> or_CodeHash r = h \<Longrightarrow> h \<noteq> [] \<Longrightarrow> or_Done r \<Longrightarrow>
    w_now w - or_CodeAt r \<le> codeTTL \<Longrightarrow> w_now w - or_CreatedAt r \<le> authRequestTTL \<Longrightarrow>
    w' = w\<lparr>w_codes := (w_codes w)(h \<mapsto> w_now w), w_held := insert (AuthReq r) (w_held w)\<rparr> \<Longrightarrow> pstep w w'"
| present: "w_ref w h = Some t \<Longrightarrow> ot_UsedAt t = None \<Longrightarrow> w_gr w (ot_GrantID t) = Some g \<Longrightarrow> og_RevokedAt g = None \<Longrightarrow>
    w' = w\<lparr>w_held := insert (RefreshReq \<lparr>rr_token = t, rr_grant = g, rr_scopes = ot_Scopes t\<rparr>) (w_held w)\<rparr> \<Longrightarrow> pstep w w'"
| narrow: "RefreshReq rr \<in> w_held w \<Longrightarrow>
    w' = w\<lparr>w_held := insert (RefreshReq (SetCurrentScopes scopes rr)) (w_held w)\<rparr> \<Longrightarrow> pstep w w'"
| grant: "AuthReq r \<in> w_held w \<Longrightarrow> og_ID g \<notin> og_ID ` w_grants w \<Longrightarrow> og_ClientID g = or_ClientID r \<Longrightarrow>
    og_Subject g = or_Subject r \<Longrightarrow> og_Scopes g = or_Scopes r \<Longrightarrow> og_Resources g = or_Resources r \<Longrightarrow> og_RevokedAt g = None \<Longrightarrow>
    w' = w\<lparr>w_gr := (w_gr w)(og_ID g \<mapsto> g), w_grants := insert g (w_grants w)\<rparr> \<Longrightarrow> pstep w w'"
| revoke: "(\<And>g. p g = g \<or> og_RevokedAt g = None \<and> p g = g\<lparr>og_RevokedAt := Some at\<rparr>) \<Longrightarrow>
    w' = w\<lparr>w_gr := (\<lambda>i. map_option p (w_gr w i))\<rparr> \<Longrightarrow> pstep w w'"
| access: "issues w g (oa_Scopes t) \<Longrightarrow> oa_GrantID t = og_ID g \<Longrightarrow> oa_ClientID t = og_ClientID g \<Longrightarrow> oa_Subject t = og_Subject g \<Longrightarrow>
    within_end (oa_ExpiresAt t) g \<Longrightarrow> w' = w\<lparr>w_acc := (w_acc w)(oa_ID t \<mapsto> t)\<rparr> \<Longrightarrow> pstep w w'"
| refresh: "issues w g (ot_Scopes t) \<Longrightarrow> ot_GrantID t = og_ID g \<Longrightarrow> ot_ClientID t = og_ClientID g \<Longrightarrow> ot_Subject t = og_Subject g \<Longrightarrow>
    within_end (ot_ExpiresAt t) g \<Longrightarrow> w' = w\<lparr>w_ref := (w_ref w)(ot_Hash t \<mapsto> t)\<rparr> \<Longrightarrow> pstep w w'"
| use: "w_ref w h = Some t \<Longrightarrow> w' = w\<lparr>w_ref := (w_ref w)(h \<mapsto> t\<lparr>ot_UsedAt := Some at\<rparr>)\<rparr> \<Longrightarrow> pstep w w'"

abbreviation psteps :: "world \<Rightarrow> world \<Rightarrow> bool" where "psteps \<equiv> pstep\<^sup>*\<^sup>*"

section \<open>What is granted was approved\<close>

text \<open>A request of this client was approved by this subject, for at least these scopes and these resources.\<close>

definition approved_for :: "world \<Rightarrow> string \<Rightarrow> string \<Rightarrow> string set \<Rightarrow> string list \<Rightarrow> bool" where
  "approved_for w sub cid scopes res \<longleftrightarrow> (\<exists>a \<in> w_asked w. (sub, or_ID a) \<in> w_approved w \<and> or_ClientID a = cid \<and>
     scopes \<subseteq> set (or_Scopes a) \<and> or_Resources a = res)"

definition request_ok :: "world \<Rightarrow> OAuthAuthRequest \<Rightarrow> bool" where
  "request_ok w r \<longleftrightarrow> (\<exists>a \<in> w_asked w. narrows r a) \<and> (or_Done r \<longrightarrow> (or_Subject r, or_ID r) \<in> w_approved w)"

definition grant_ok :: "world \<Rightarrow> OAuthGrant \<Rightarrow> bool" where
  "grant_ok w g \<longleftrightarrow> approved_for w (og_Subject g) (og_ClientID g) (set (og_Scopes g)) (og_Resources g)"

text \<open>A token under a grant that was made: its client and subject, no more scopes, no longer than it.\<close>

definition under :: "world \<Rightarrow> string \<Rightarrow> string \<Rightarrow> string \<Rightarrow> string list \<Rightarrow> time \<Rightarrow> bool" where
  "under w gid cid sub scopes exp \<longleftrightarrow> (\<exists>g \<in> w_grants w. og_ID g = gid \<and> og_ClientID g = cid \<and> og_Subject g = sub \<and>
     set scopes \<subseteq> set (og_Scopes g) \<and> within_end exp g)"

definition refresh_ok :: "world \<Rightarrow> refreshRequest \<Rightarrow> bool" where
  "refresh_ok w rr \<longleftrightarrow> (\<exists>g \<in> w_grants w. same_grant g (rr_grant rr) \<and> set (ot_Scopes (rr_token rr)) \<subseteq> set (og_Scopes g) \<and>
     set (rr_scopes rr) \<subseteq> set (og_Scopes g))"

definition winv :: "world \<Rightarrow> bool" where
  "winv w \<longleftrightarrow>
     (\<forall>i r. w_req w i = Some r \<longrightarrow> request_ok w r) \<and>
     (\<forall>r. AuthReq r \<in> w_held w \<longrightarrow> request_ok w r \<and> or_Done r) \<and>
     (\<forall>rr. RefreshReq rr \<in> w_held w \<longrightarrow> refresh_ok w rr) \<and>
     (\<forall>g \<in> w_grants w. grant_ok w g) \<and> inj_on og_ID (w_grants w) \<and>
     (\<forall>i g. w_gr w i = Some g \<longrightarrow> og_ID g = i \<and> (\<exists>g0 \<in> w_grants w. same_grant g0 g)) \<and>
     (\<forall>i t. w_acc w i = Some t \<longrightarrow> under w (oa_GrantID t) (oa_ClientID t) (oa_Subject t) (oa_Scopes t) (oa_ExpiresAt t)) \<and>
     (\<forall>h t. w_ref w h = Some t \<longrightarrow> under w (ot_GrantID t) (ot_ClientID t) (ot_Subject t) (ot_Scopes t) (ot_ExpiresAt t))"

lemma winvI:
  assumes "\<And>i r. w_req w i = Some r \<Longrightarrow> request_ok w r" and "\<And>r. AuthReq r \<in> w_held w \<Longrightarrow> request_ok w r \<and> or_Done r"
    and "\<And>rr. RefreshReq rr \<in> w_held w \<Longrightarrow> refresh_ok w rr" and "\<And>g. g \<in> w_grants w \<Longrightarrow> grant_ok w g" and "inj_on og_ID (w_grants w)"
    and "\<And>i g. w_gr w i = Some g \<Longrightarrow> og_ID g = i \<and> (\<exists>g0 \<in> w_grants w. same_grant g0 g)"
    and "\<And>i t. w_acc w i = Some t \<Longrightarrow> under w (oa_GrantID t) (oa_ClientID t) (oa_Subject t) (oa_Scopes t) (oa_ExpiresAt t)"
    and "\<And>h t. w_ref w h = Some t \<Longrightarrow> under w (ot_GrantID t) (ot_ClientID t) (ot_Subject t) (ot_Scopes t) (ot_ExpiresAt t)"
  shows "winv w"
  using assms unfolding winv_def by blast

lemma winvD:
  assumes "winv w"
  shows "w_req w i = Some r \<Longrightarrow> request_ok w r" and "AuthReq r \<in> w_held w \<Longrightarrow> request_ok w r \<and> or_Done r"
    and "RefreshReq rr \<in> w_held w \<Longrightarrow> refresh_ok w rr" and "g \<in> w_grants w \<Longrightarrow> grant_ok w g" and "inj_on og_ID (w_grants w)"
    and "w_gr w i = Some g' \<Longrightarrow> og_ID g' = i \<and> (\<exists>g0 \<in> w_grants w. same_grant g0 g')"
    and "w_acc w i = Some t \<Longrightarrow> under w (oa_GrantID t) (oa_ClientID t) (oa_Subject t) (oa_Scopes t) (oa_ExpiresAt t)"
    and "w_ref w h = Some f \<Longrightarrow> under w (ot_GrantID f) (ot_ClientID f) (ot_Subject f) (ot_Scopes f) (ot_ExpiresAt f)"
  using assms unfolding winv_def by blast+

text \<open>What a later world has on record contains what an earlier one has.\<close>

definition grows :: "world \<Rightarrow> world \<Rightarrow> bool" where
  "grows w w' \<longleftrightarrow> w_asked w \<subseteq> w_asked w' \<and> w_approved w \<subseteq> w_approved w' \<and> w_grants w \<subseteq> w_grants w'"

lemma pstep_grows: "pstep w w' \<Longrightarrow> grows w w'"
  by (induction rule: pstep.induct) (auto simp: grows_def)

lemma grows_keeps:
  assumes "grows w w'"
  shows "request_ok w r \<Longrightarrow> request_ok w' r" and "refresh_ok w rr \<Longrightarrow> refresh_ok w' rr" and "grant_ok w g \<Longrightarrow> grant_ok w' g"
    and "under w a b c d e \<Longrightarrow> under w' a b c d e"
  using assms
  unfolding grows_def request_ok_def refresh_ok_def grant_ok_def approved_for_def under_def
  by blast+

lemma same_grant_refl [simp]: "same_grant g g"
  by (simp add: same_grant_def)

lemma same_grantD:
  assumes "same_grant g g'"
  shows "og_ID g' = og_ID g" "og_ClientID g' = og_ClientID g" "og_Subject g' = og_Subject g" "og_Scopes g' = og_Scopes g"
    "og_Resources g' = og_Resources g" "og_ExpiresAt g' = og_ExpiresAt g"
  using assms by (cases g; cases g'; simp add: same_grant_def)+

text \<open>Only what a step changes has to be checked.\<close>

lemma winv_frame:
  assumes w: "winv w" and grows: "grows w w'"
    and req: "\<And>i r. w_req w' i = Some r \<Longrightarrow> (\<exists>j. w_req w j = Some r) \<or> request_ok w' r"
    and auth: "\<And>r. AuthReq r \<in> w_held w' \<Longrightarrow> AuthReq r \<in> w_held w \<or> request_ok w' r \<and> or_Done r"
    and refr: "\<And>rr. RefreshReq rr \<in> w_held w' \<Longrightarrow> RefreshReq rr \<in> w_held w \<or> refresh_ok w' rr"
    and grants: "\<And>g. g \<in> w_grants w' \<Longrightarrow> g \<in> w_grants w \<or> grant_ok w' g" and inj: "inj_on og_ID (w_grants w')"
    and gr: "\<And>i g. w_gr w' i = Some g \<Longrightarrow> w_gr w i = Some g \<or> og_ID g = i \<and> (\<exists>g0 \<in> w_grants w'. same_grant g0 g)"
    and acc: "\<And>i t. w_acc w' i = Some t \<Longrightarrow> w_acc w i = Some t \<or>
      under w' (oa_GrantID t) (oa_ClientID t) (oa_Subject t) (oa_Scopes t) (oa_ExpiresAt t)"
    and ref: "\<And>h t. w_ref w' h = Some t \<Longrightarrow> (\<exists>t'. w_ref w h = Some t' \<and> t = t'\<lparr>ot_UsedAt := ot_UsedAt t\<rparr>) \<or>
      under w' (ot_GrantID t) (ot_ClientID t) (ot_Subject t) (ot_Scopes t) (ot_ExpiresAt t)"
  shows "winv w'"
proof (rule winvI)
  note d = winvD [OF w] and k = grows_keeps [OF grows]
  show "request_ok w' r" if "w_req w' i = Some r" for i r using req [OF that] d(1) k(1) by blast
  show "request_ok w' r \<and> or_Done r" if "AuthReq r \<in> w_held w'" for r using auth [OF that] d(2) k(1) by blast
  show "refresh_ok w' rr" if "RefreshReq rr \<in> w_held w'" for rr using refr [OF that] d(3) k(2) by blast
  show "grant_ok w' g" if "g \<in> w_grants w'" for g using grants [OF that] d(4) k(3) by blast
  show "og_ID g = i \<and> (\<exists>g0 \<in> w_grants w'. same_grant g0 g)" if "w_gr w' i = Some g" for i g
    using gr [OF that] d(6) [of i g] grows unfolding grows_def by blast
  show "under w' (oa_GrantID t) (oa_ClientID t) (oa_Subject t) (oa_Scopes t) (oa_ExpiresAt t)" if "w_acc w' i = Some t" for i t
    using acc [OF that] d(7) k(4) by blast
  show "under w' (ot_GrantID t) (ot_ClientID t) (ot_Subject t) (ot_Scopes t) (ot_ExpiresAt t)" if "w_ref w' h = Some t" for h t
    using ref [OF that]
  proof (elim disjE exE conjE)
    fix t'
    assume "w_ref w h = Some t'" and t: "t = t'\<lparr>ot_UsedAt := ot_UsedAt t\<rparr>"
    with d(8) k(4) have "under w' (ot_GrantID t') (ot_ClientID t') (ot_Subject t') (ot_Scopes t') (ot_ExpiresAt t')" by blast
    with t show ?thesis by (cases t; cases t') simp
  qed
qed (rule inj)

text \<open>Where a token may come from, its grant was made.\<close>

lemma issues_under:
  assumes "winv w" and "issues w g scopes" and "within_end exp g"
  shows "under w (og_ID g) (og_ClientID g) (og_Subject g) scopes exp"
  using assms(2)
  unfolding issues_def
proof (elim disjE exE conjE)
  fix rr
  assume rr: "RefreshReq rr \<in> w_held w" "g = rr_grant rr" "scopes = rr_scopes rr"
  from winvD(3) [OF assms(1) rr(1)] obtain g0 where "g0 \<in> w_grants w" "same_grant g0 g" "set scopes \<subseteq> set (og_Scopes g0)"
    unfolding refresh_ok_def rr by blast
  with assms(3) same_grantD [of g0 g] show ?thesis by (auto simp: under_def within_end_def)
next
  assume "g \<in> w_grants w" "scopes = og_Scopes g"
  with assms(3) show ?thesis by (auto simp: under_def)
qed

lemma narrows_trans: "narrows a b \<Longrightarrow> narrows b c \<Longrightarrow> narrows a c"
  by (auto simp: narrows_def)

lemma request_ok_narrows:
  assumes "request_ok w r" and "narrows r' r" and "or_Done r' \<Longrightarrow> or_Done r \<and> or_Subject r' = or_Subject r \<or> (or_Subject r', or_ID r') \<in> w_approved w"
  shows "request_ok w r'"
  using assms narrows_trans [OF assms(2)] by (auto simp: request_ok_def narrows_def)

lemma grant_ok_of_request:
  assumes "request_ok w r" and "or_Done r" and "og_ClientID g = or_ClientID r" and "og_Subject g = or_Subject r" and
    "og_Scopes g = or_Scopes r" and "og_Resources g = or_Resources r"
  shows "grant_ok w g"
proof -
  from assms(1) obtain a where "a \<in> w_asked w" "narrows r a" by (auto simp: request_ok_def)
  with assms show ?thesis by (auto simp: grant_ok_def approved_for_def request_ok_def narrows_def intro!: bexI [of _ a])
qed

lemma map_le_Some: "f \<subseteq>\<^sub>m g \<Longrightarrow> f i = Some x \<Longrightarrow> g i = Some x"
  by (auto simp: map_le_def dom_def)

lemma winv_step:
  assumes "pstep w w'" and "winv w"
  shows "winv w'"
proof -
  note grows = pstep_grows [OF assms(1)]
  note frame = winv_frame [OF assms(2) grows] and d = winvD [OF assms(2)] and k = grows_keeps [OF grows]
  from assms(1) show ?thesis
  proof cases
    case (tick t)
    then show ?thesis by (intro frame) (use d(5) in auto)
  next
    case (shrink q g a f)
    note le = map_le_Some [OF shrink(1)] map_le_Some [OF shrink(2)] map_le_Some [OF shrink(3)] map_le_Some [OF shrink(4)]
    from shrink(5) show ?thesis by (intro frame) (use d(5) in \<open>auto dest: le\<close>)
  next
    case (forget c)
    then show ?thesis by (intro frame) (use d(5) in auto)
  next
    case (mark h)
    then show ?thesis by (intro frame) (use d(5) in auto)
  next
    case (ask r)
    then have "request_ok w' r" by (auto simp: request_ok_def narrows_def)
    with ask show ?thesis by (intro frame) (use d(5) in \<open>auto split: if_splits\<close>)
  next
    case (note_acts A I)
    then show ?thesis by (intro frame) (use d(5) in auto)
  next
    case (touch i r r')
    then have "request_ok w' r'" using request_ok_narrows [OF d(1) [OF touch(1)] touch(2,4)] k(1) by blast
    with touch show ?thesis by (intro frame) (use d(5) in \<open>auto split: if_splits\<close>)
  next
    case (code i r h)
    have "request_ok w (r\<lparr>or_CodeHash := h, or_CodeAt := w_now w\<rparr>)"
      using d(1) [OF code(1)] by (simp add: request_ok_def narrows_def)
    with k(1) have "request_ok w' (r\<lparr>or_CodeHash := h, or_CodeAt := w_now w\<rparr>)" by blast
    with code(3) show ?thesis by (intro frame) (use d(5) in \<open>auto split: if_splits\<close>)
  next
    case (exchange h i r)
    then have "request_ok w' r" using d(1) k(1) by blast
    with exchange show ?thesis by (intro frame) (use d(5) in auto)
  next
    case (present h t g)
    from d(6) [OF present(3)] obtain g0 where g0: "og_ID g = ot_GrantID t" "g0 \<in> w_grants w" "same_grant g0 g" by blast
    from d(8) [OF present(1)] obtain g1 where g1: "g1 \<in> w_grants w" "og_ID g1 = ot_GrantID t" "set (ot_Scopes t) \<subseteq> set (og_Scopes g1)"
      by (auto simp: under_def)
    have "g1 = g0" using inj_onD [OF d(5), of g1 g0] g0 g1 same_grantD(1) [OF g0(3)] by simp
    with g0 g1 have "refresh_ok w \<lparr>rr_token = t, rr_grant = g, rr_scopes = ot_Scopes t\<rparr>" by (auto simp: refresh_ok_def)
    with k(2) have "refresh_ok w' \<lparr>rr_token = t, rr_grant = g, rr_scopes = ot_Scopes t\<rparr>" by blast
    with present(5) show ?thesis by (intro frame) (use d(5) in auto)
  next
    case (narrow rr scopes)
    have "refresh_ok w (SetCurrentScopes scopes rr)"
      using d(3) [OF narrow(1)] by (auto simp: refresh_ok_def SetCurrentScopes_def)
    with k(2) have "refresh_ok w' (SetCurrentScopes scopes rr)" by blast
    with narrow(2) show ?thesis by (intro frame) (use d(5) in auto)
  next
    case (grant r g)
    then have "grant_ok w' g" using grant_ok_of_request [of w r g] d(2) k(3) by blast
    with grant show ?thesis by (intro frame) (use d(5) in \<open>auto split: if_splits intro: inj_on_insert [THEN iffD2]\<close>)
  next
    case (revoke p at)
    have "same_grant g (p g)" for g using revoke(1) [of g] by (auto simp: same_grant_def)
    then have "og_ID (p g) = i \<and> (\<exists>g0 \<in> w_grants w. same_grant g0 (p g))" if "w_gr w i = Some g" for i g
      using d(6) [OF that] same_grantD(1) [of g "p g"] by (metis same_grant_def)
    with revoke(2) show ?thesis by (intro frame) (use d(5) in auto)
  next
    case (access g t)
    then have "under w' (oa_GrantID t) (oa_ClientID t) (oa_Subject t) (oa_Scopes t) (oa_ExpiresAt t)"
      using issues_under [OF assms(2) access(1,5)] k(4) by simp
    with access(6) show ?thesis by (intro frame) (use d(5) in \<open>auto split: if_splits\<close>)
  next
    case (refresh g t)
    then have "under w' (ot_GrantID t) (ot_ClientID t) (ot_Subject t) (ot_Scopes t) (ot_ExpiresAt t)"
      using issues_under [OF assms(2) refresh(1,5)] k(4) by simp
    with refresh(6) show ?thesis by (intro frame) (use d(5) in \<open>auto split: if_splits\<close>)
  next
    case (use h t at)
    then show ?thesis by (intro frame) (use d(5) in \<open>auto split: if_splits\<close>)
  qed
qed

lemma winv_run: "psteps w w' \<Longrightarrow> winv w \<Longrightarrow> winv w'"
  by (induction rule: rtranclp_induct) (auto intro: winv_step)

section \<open>Dead grants and spent codes\<close>

text \<open>A grant that was made and is revoked, or gone.\<close>

definition dead :: "string \<Rightarrow> world \<Rightarrow> bool" where
  "dead i w \<longleftrightarrow> i \<in> og_ID ` w_grants w \<and> (\<forall>g. w_gr w i = Some g \<longrightarrow> og_RevokedAt g \<noteq> None)"

lemma dead_step:
  assumes "pstep w w'" and "dead i w"
  shows "dead i w'"
proof -
  have made: "i \<in> og_ID ` w_grants w'"
    using assms pstep_grows [OF assms(1)] by (auto simp: dead_def grows_def)
  have old: "og_RevokedAt g \<noteq> None" if "w_gr w i = Some g" for g using assms(2) that by (simp add: dead_def)
  from assms(1) have "og_RevokedAt g \<noteq> None" if "w_gr w' i = Some g" for g
  proof cases
    case (shrink q x a f)
    then show ?thesis using that old map_le_Some [OF shrink(2)] by simp
  next
    case (grant r x)
    then have "og_ID x \<noteq> i" using assms(2) by (auto simp: dead_def)
    then show ?thesis using that old grant(8) by simp
  next
    case (revoke p at)
    with that obtain x where "w_gr w i = Some x" "g = p x" by auto
    with old [of x] revoke(1) [of x] show ?thesis by auto
  qed (use that old in auto)
  with made show ?thesis by (auto simp: dead_def)
qed

lemma dead_run: "psteps w w' \<Longrightarrow> dead i w \<Longrightarrow> dead i w'"
  by (induction rule: rtranclp_induct) (auto intro: dead_step)

text \<open>Requests are not from the future, and their codes were issued.\<close>

definition cinv :: "world \<Rightarrow> bool" where
  "cinv w \<longleftrightarrow> (\<forall>i r. w_req w i = Some r \<longrightarrow> or_CreatedAt r \<le> w_now w \<and> (or_CodeHash r \<noteq> [] \<longrightarrow> or_CodeHash r \<in> w_issued w))"

text \<open>A code exchanged at a time: remembered as used, or so old that its request has expired.\<close>

definition spent :: "string \<Rightarrow> time \<Rightarrow> world \<Rightarrow> bool" where
  "spent h t w \<longleftrightarrow> h \<noteq> [] \<and> h \<in> w_issued w \<and> (\<forall>i r. w_req w i = Some r \<longrightarrow> or_CodeHash r = h \<longrightarrow> or_CreatedAt r \<le> t) \<and>
     ((\<exists>at \<ge> t. w_codes w h = Some at) \<or> t + authRequestTTL < w_now w)"

lemma cinv_step:
  assumes "pstep w w'" and "cinv w"
  shows "cinv w'"
  using assms(1)
proof cases
  case (shrink q g a f)
  with assms(2) map_le_Some [OF shrink(1)] show ?thesis unfolding cinv_def by auto
next
  case (tick t)
  with assms(2) show ?thesis unfolding cinv_def by (auto intro: order_trans)
next
  case (touch i r r')
  with assms(2) show ?thesis unfolding cinv_def narrows_def by (auto split: if_splits)
qed (use assms(2) in \<open>auto simp: cinv_def split: if_splits\<close>)

lemma spent_step:
  assumes "pstep w w'" and "spent h t w"
  shows "spent h t w'"
proof -
  note d = assms(2) [unfolded spent_def]
  from assms(1) show ?thesis
  proof cases
    case (tick t')
    with d show ?thesis by (auto simp: spent_def)
  next
    case (shrink q g a f)
    with d map_le_Some [OF shrink(1)] show ?thesis by (auto simp: spent_def)
  next
    case (forget c)
    have "(\<exists>at \<ge> t. c h = Some at) \<or> t + authRequestTTL < w_now w"
    proof (cases "c h")
      case None
      with d forget(2) [of h] show ?thesis by force
    next
      case (Some at)
      with d map_le_Some [OF forget(1)] show ?thesis by fastforce
    qed
    with d forget(3) show ?thesis by (simp add: spent_def)
  next
    case (mark h')
    with d show ?thesis by (auto simp: spent_def)
  next
    case (ask r)
    with d show ?thesis by (auto simp: spent_def split: if_splits)
  next
    case (touch i r r')
    with d show ?thesis by (auto simp: spent_def narrows_def split: if_splits)
  next
    case (code i r h')
    with d show ?thesis by (auto simp: spent_def split: if_splits)
  next
    case (exchange h' i r)
    with d show ?thesis by (auto simp: spent_def)
  qed (use d in \<open>auto simp: spent_def\<close>)
qed

lemma spent_run: "psteps w w' \<Longrightarrow> spent h t w \<Longrightarrow> spent h t w'"
  by (induction rule: rtranclp_induct) (auto intro: spent_step)

lemma cinv_run: "psteps w w' \<Longrightarrow> cinv w \<Longrightarrow> cinv w'"
  by (induction rule: rtranclp_induct) (auto intro: cinv_step)

lemma spent_refused:
  assumes "spent h t w" and "w_req w i = Some r" and "or_CodeHash r = h" and "w_codes w h = None"
  shows "authRequestTTL < w_now w - or_CreatedAt r"
  using assms by (fastforce simp: spent_def)

end
