(* ===== verification/GrantTrace.thy ===== *)
theory GrantTrace
  imports GrantProtocol KeyLaws OAuthLaws
begin

text \<open>
  The runs of the provider, and that they are runs of the protocol of \<open>GrantProtocol\<close>: the OpenID library
  calls the operations of the storage with requests it holds, browsers log in and decide, the application
  approves and revokes, time passes, the clean-up runs and the rest of the engine moves the shared stores.
\<close>

section \<open>Runs\<close>

text \<open>What happened so far: it is not state of the program.\<close>

record plog =
  pl_asked :: "OAuthAuthRequest set"
  pl_approved :: "(string \<times> string) set"
  pl_held :: "tokenRequest set"
  pl_grants :: "OAuthGrant set"
  pl_issued :: "string set"

definition no_log :: plog where
  "no_log = \<lparr>pl_asked = {}, pl_approved = {}, pl_held = {}, pl_grants = {}, pl_issued = {}\<rparr>"

text \<open>The grants an operation made.\<close>

definition made :: "pstate \<Rightarrow> pstate \<Rightarrow> OAuthGrant set" where
  "made s s' = {g. mget (st_oauthGrants (pstore s')) (og_ID g) = Some g \<and> mget (st_oauthGrants (pstore s)) (og_ID g) = None}"

definition log_asked :: "OAuthAuthRequest presult \<Rightarrow> plog \<Rightarrow> plog" where
  "log_asked x g = (case x of Inl _ \<Rightarrow> g | Inr r \<Rightarrow> g\<lparr>pl_asked := insert r (pl_asked g)\<rparr>)"

definition log_held :: "('a \<Rightarrow> tokenRequest) \<Rightarrow> 'a presult \<Rightarrow> plog \<Rightarrow> plog" where
  "log_held f x g = (case x of Inl _ \<Rightarrow> g | Inr r \<Rightarrow> g\<lparr>pl_held := insert (f r) (pl_held g)\<rparr>)"

definition log_made :: "pstate \<Rightarrow> pstate \<Rightarrow> plog \<Rightarrow> plog" where
  "log_made s s' g = g\<lparr>pl_grants := made s s' \<union> pl_grants g\<rparr>"

definition log_approved :: "(string \<times> string) set \<Rightarrow> plog \<Rightarrow> plog" where
  "log_approved A g = g\<lparr>pl_approved := A \<union> pl_approved g\<rparr>"

definition log_issued :: "string \<Rightarrow> plog \<Rightarrow> plog" where
  "log_issued h g = g\<lparr>pl_issued := insert h (pl_issued g)\<rparr>"

text \<open>
  Who approves what. Without a consent screen, a signed-in browser that follows the login link; with one,
  a request to the consent endpoint with the session, the CSRF token and the approval.
\<close>

definition login_acts :: "provider \<Rightarrow> request \<Rightarrow> pstate \<Rightarrow> (string \<times> string) set" where
  "login_acts P r s = {(sub, i). pg_ConsentURL (pv_cfg P) = None \<and> i = attr (rq_query r) ''id'' \<and>
     (\<exists>sc. sessionOf (pv_auth P) r (ps_env s) = Some sc \<and> sub = sc_Subject sc)}"

definition consent_acts :: "provider \<Rightarrow> request \<Rightarrow> pstate \<Rightarrow> (string \<times> string) set" where
  "consent_acts P r s = {(sub, i). rq_method r = ''POST'' \<and> csrfValid (pv_auth P) r \<and> flag r ''approve'' \<and> i = field r ''id'' \<and>
     (\<exists>sc. sessionOf (pv_auth P) r (ps_env s) = Some sc \<and> sub = sc_Subject sc)}"

text \<open>The tables of the provider at most lose rows, the clock does not go back and no random value is drawn twice.\<close>

definition engine_moves :: "env \<Rightarrow> env \<Rightarrow> bool" where
  "engine_moves e e' \<longleftrightarrow> e_now e \<le> e_now e' \<and> e_rand e \<le> e_rand e' \<and> oauth_ok (e_store e') \<and>
     mget (st_oauthRequests (e_store e')) \<subseteq>\<^sub>m mget (st_oauthRequests (e_store e)) \<and>
     mget (st_oauthGrants (e_store e')) \<subseteq>\<^sub>m mget (st_oauthGrants (e_store e)) \<and>
     mget (st_oauthAccess (e_store e')) \<subseteq>\<^sub>m mget (st_oauthAccess (e_store e)) \<and>
     mget (st_oauthRefresh (e_store e')) \<subseteq>\<^sub>m mget (st_oauthRefresh (e_store e))"

inductive prov_step :: "provider \<Rightarrow> plog \<times> pstate \<Rightarrow> plog \<times> pstate \<Rightarrow> bool" for P where
  ask: "CreateAuthRequest P ar res s = (x, s') \<Longrightarrow> prov_step P (g, s) (log_asked x g, s')"
| by_code: "AuthRequestByCode P c s = (x, s') \<Longrightarrow> prov_step P (g, s) (log_held AuthReq x g, s')"
| save_code: "tokenHash P c \<notin> pl_issued g \<Longrightarrow> SaveAuthCode P i c s = (x, s') \<Longrightarrow>
    prov_step P (g, s) (log_issued (tokenHash P c) g, s')"
| delete_request: "DeleteAuthRequest i s = (x, s') \<Longrightarrow> prov_step P (g, s) (g, s')"
| by_refresh: "TokenRequestByRefreshToken P tok s = (x, s') \<Longrightarrow> prov_step P (g, s) (log_held RefreshReq x g, s')"
| set_scopes: "RefreshReq rr \<in> pl_held g \<Longrightarrow> prov_step P (g, s) (log_held RefreshReq (Ok (SetCurrentScopes scopes rr)) g, s)"
| access_token: "req \<in> pl_held g \<Longrightarrow> CreateAccessToken P req s = (x, s') \<Longrightarrow> prov_step P (g, s) (log_made s s' g, s')"
| both_tokens: "req \<in> pl_held g \<Longrightarrow> CreateAccessAndRefreshTokens P req tok s = (x', s') \<Longrightarrow> prov_step P (g, s) (log_made s s' g, s')"
| terminate: "TerminateSession u c s = (x, s') \<Longrightarrow> prov_step P (g, s) (g, s')"
| revoke_token: "RevokeToken tok u c s = (x, s') \<Longrightarrow> prov_step P (g, s) (g, s')"
| revoke_ref: "RevokeRef ref s = (x, s') \<Longrightarrow> prov_step P (g, s) (g, s')"
| revoke_grant: "RevokeGrant i s = (x, s') \<Longrightarrow> prov_step P (g, s) (g, s')"
| do_login: "login P r s = (a, s') \<Longrightarrow> prov_step P (g, s) (log_approved (login_acts P r s) g, s')"
| consent: "consentJSON P r s = (a, s') \<Longrightarrow> prov_step P (g, s) (log_approved (consent_acts P r s) g, s')"
| app_approves: "Approve P i sub d s = (y, s') \<Longrightarrow> prov_step P (g, s) (log_approved {(sub, i)} g, s')"
| app_denies: "Deny P i sub s = (y, s') \<Longrightarrow> prov_step P (g, s) (g, s')"
| registers: "register P r s = (a, s') \<Longrightarrow> prov_step P (g, s) (g, s')"
| app_registers: "RegisterClient P c s = (secret, x, s') \<Longrightarrow> prov_step P (g, s) (g, s')"
| looks_up: "client P i s = (z, s') \<Longrightarrow> prov_step P (g, s) (g, s')"
| reads_keys: "currentKeys P s = (ks, s') \<Longrightarrow> prov_step P (g, s) (g, s')"
| rotates: "rotateKeys P force s = (x, s') \<Longrightarrow> prov_step P (g, s) (g, s')"
| cleans: "prov_step P (g, s) (g, provider_gc P s)"
| engine: "engine_moves (ps_env s) e \<Longrightarrow> prov_step P (g, s) (g, s\<lparr>ps_env := e\<rparr>)"

abbreviation prov_run :: "provider \<Rightarrow> plog \<times> pstate \<Rightarrow> plog \<times> pstate \<Rightarrow> bool" where
  "prov_run P \<equiv> (prov_step P)\<^sup>*\<^sup>*"

section \<open>The world of a state\<close>

definition world_of :: "plog \<Rightarrow> pstate \<Rightarrow> world" where
  "world_of g s = \<lparr>w_now = pnow s, w_req = mget (st_oauthRequests (pstore s)), w_gr = mget (st_oauthGrants (pstore s)),
     w_acc = mget (st_oauthAccess (pstore s)), w_ref = mget (st_oauthRefresh (pstore s)), w_codes = mget (ps_codes s),
     w_asked = pl_asked g, w_approved = pl_approved g, w_held = pl_held g, w_grants = pl_grants g, w_issued = pl_issued g\<rparr>"

definition pinv :: "provider \<Rightarrow> plog \<Rightarrow> pstate \<Rightarrow> bool" where
  "pinv P g s \<longleftrightarrow> oauth_ok (pstore s) \<and> keys_ok (ps_codes s) \<and>
     (\<forall>x \<in> pl_grants g. \<exists>k < e_rand (ps_env s). og_ID x = randomIDAt P k 18)"

text \<open>An operation simulates the protocol.\<close>

definition sim :: "provider \<Rightarrow> plog \<Rightarrow> pstate \<Rightarrow> plog \<Rightarrow> pstate \<Rightarrow> bool" where
  "sim P g s g' s' \<longleftrightarrow> (pinv P g s \<longrightarrow> pinv P g' s' \<and> psteps (world_of g s) (world_of g' s'))"

lemma sim_refl [simp]: "sim P g s g s"
  by (simp add: sim_def)

lemma sim_trans: "sim P g s g' s' \<Longrightarrow> sim P g' s' g'' s'' \<Longrightarrow> sim P g s g'' s''"
  by (auto simp: sim_def)

lemma simI: "(pinv P g s \<Longrightarrow> pinv P g' s' \<and> pstep (world_of g s) (world_of g' s')) \<Longrightarrow> sim P g s g' s'"
  by (auto simp: sim_def)

text \<open>An operation that leaves the four tables, the codes and the clock alone.\<close>

definition hushed :: "pstate \<Rightarrow> pstate \<Rightarrow> bool" where
  "hushed s s' \<longleftrightarrow> pnow s' = pnow s \<and> e_rand (ps_env s) \<le> e_rand (ps_env s') \<and> ps_codes s' = ps_codes s \<and>
     (oauth_ok (pstore s) \<longrightarrow> oauth_ok (pstore s')) \<and>
     st_oauthRequests (pstore s') = st_oauthRequests (pstore s) \<and> st_oauthGrants (pstore s') = st_oauthGrants (pstore s) \<and>
     st_oauthAccess (pstore s') = st_oauthAccess (pstore s) \<and> st_oauthRefresh (pstore s') = st_oauthRefresh (pstore s)"

lemma hushed_refl [simp]: "hushed s s"
  by (simp add: hushed_def)

lemma hushed_trans: "hushed s s' \<Longrightarrow> hushed s' s'' \<Longrightarrow> hushed s s''"
  by (auto simp: hushed_def)

lemma pinv_rand:
  "pinv P g s \<Longrightarrow> e_rand (ps_env s) \<le> e_rand (ps_env s') \<Longrightarrow> oauth_ok (pstore s') \<Longrightarrow> keys_ok (ps_codes s') \<Longrightarrow> pl_grants g' = pl_grants g \<Longrightarrow>
   pinv P g' s'"
  unfolding pinv_def by (metis less_le_trans)

lemma sim_hushed: "hushed s s' \<Longrightarrow> sim P g s g s'"
  unfolding sim_def
proof
  assume "hushed s s'" and inv: "pinv P g s"
  then have "pinv P g s'" by (intro pinv_rand [OF inv]) (auto simp: hushed_def pinv_def)
  moreover have "world_of g s' = world_of g s" using \<open>hushed s s'\<close> by (simp add: hushed_def world_of_def)
  ultimately show "pinv P g s' \<and> psteps (world_of g s) (world_of g s')" by simp
qed

lemma world_with_store:
  "world_of g (with_store st s) = (world_of g s)\<lparr>w_req := mget (st_oauthRequests st), w_gr := mget (st_oauthGrants st),
     w_acc := mget (st_oauthAccess st), w_ref := mget (st_oauthRefresh st)\<rparr>"
  by (simp add: world_of_def with_store_def)

lemma pinv_with_store: "pinv P g s \<Longrightarrow> oauth_ok st \<Longrightarrow> pinv P g (with_store st s)"
  by (simp add: pinv_def with_store_def)

lemma hushed_with_store:
  assumes "oauth_ok (pstore s) \<Longrightarrow> oauth_ok st" and "st_oauthRequests st = st_oauthRequests (pstore s)"
    and "st_oauthGrants st = st_oauthGrants (pstore s)" and "st_oauthAccess st = st_oauthAccess (pstore s)"
    and "st_oauthRefresh st = st_oauthRefresh (pstore s)"
  shows "hushed s (with_store st s)"
  using assms by (simp add: hushed_def with_store_def)

section \<open>The pieces of the operations\<close>

lemma randomID_hushed: "hushed s (snd (randomID P n s))"
  by (simp add: randomID_def Let_def hushed_def)

lemma client_cache: "\<exists>c. snd (client P i s) = s\<lparr>ps_cache := c\<rparr>"
proof -
  have "\<exists>c. snd (getMetadata P i s) = s\<lparr>ps_cache := c\<rparr>"
    by (auto simp: getMetadata_def Let_def split: option.split) (metis pstate.surjective pstate.update_convs(5))+
  moreover have "\<exists>c. s = s\<lparr>ps_cache := c\<rparr>" by (metis pstate.surjective pstate.update_convs(5))
  ultimately show ?thesis by (auto simp: client_def split: sum.split)
qed

lemma client_hushed: "hushed s (snd (client P i s))"
  using client_cache [of P i s] by (auto simp: hushed_def)

lemma request_ofD:
  assumes "request_of i s = Inr r" and "oauth_ok (pstore s)"
  shows "mget (st_oauthRequests (pstore s)) i = Some r \<and> or_ID r = i"
  using assms by (auto simp: request_at_def OAuthAuthRequest_get_def oauth_ok_def keyed_def split: sum.splits option.splits if_splits)

lemma own_requestD:
  assumes "own_request i sub s = Inr r" and "oauth_ok (pstore s)"
  shows "mget (st_oauthRequests (pstore s)) i = Some r \<and> or_ID r = i \<and> \<not> or_Done r \<and> or_Subject r = sub"
  using assms request_ofD [where i = i and s = s and r = r] by (auto simp: own_request_def split: sum.splits if_splits)

lemma mget_mput_upd: "mget (mput k v m) = (mget m)(k \<mapsto> v)"
  by (rule ext) simp

lemma save_world:
  "world_of g (with_store (snd (SaveOAuthAuthRequest (pstore s) r)) s) =
   (world_of g s)\<lparr>w_req := (w_req (world_of g s))(or_ID r \<mapsto> r)\<rparr>"
  by (simp add: world_with_store SaveOAuthAuthRequest_def mget_mput_upd) (simp add: world_of_def)

text \<open>Saving a request that was there, changed as the protocol allows.\<close>

lemma sim_save:
  assumes "oauth_ok (pstore s) \<Longrightarrow> mget (st_oauthRequests (pstore s)) i = Some r" and "narrows r' r" and "or_CodeHash r' = or_CodeHash r"
    and "or_Done r' \<Longrightarrow> or_Done r \<and> or_Subject r' = or_Subject r \<or> (or_Subject r', or_ID r') \<in> pl_approved g"
  shows "sim P g s g (with_store (snd (SaveOAuthAuthRequest (pstore s) r')) s)"
proof (rule simI)
  assume inv: "pinv P g s"
  then have ok: "oauth_ok (pstore s)" by (simp add: pinv_def)
  have "pstep (world_of g s) (world_of g (with_store (snd (SaveOAuthAuthRequest (pstore s) r')) s))"
    by (rule pstep.touch [OF _ assms(2,3) _ save_world]) (use assms(1) [OF ok] assms(4) in \<open>auto simp: world_of_def\<close>)
  with pinv_with_store [OF inv SaveOAuthAuthRequest_ok [OF ok]]
  show "pinv P g (with_store (snd (SaveOAuthAuthRequest (pstore s) r')) s) \<and>
    pstep (world_of g s) (world_of g (with_store (snd (SaveOAuthAuthRequest (pstore s) r')) s))" by blast
qed

text \<open>The four tables only lose rows.\<close>

definition loses :: "store \<Rightarrow> store \<Rightarrow> bool" where
  "loses st st' \<longleftrightarrow> set (st_oauthRequests st') \<subseteq> set (st_oauthRequests st) \<and> set (st_oauthGrants st') \<subseteq> set (st_oauthGrants st) \<and>
     set (st_oauthAccess st') \<subseteq> set (st_oauthAccess st) \<and> set (st_oauthRefresh st') \<subseteq> set (st_oauthRefresh st)"

lemma map_le_set: "keys_ok m \<Longrightarrow> keys_ok m' \<Longrightarrow> set m' \<subseteq> set m \<Longrightarrow> mget m' \<subseteq>\<^sub>m mget m"
proof -
  assume "keys_ok m" "keys_ok m'" "set m' \<subseteq> set m"
  then have "mget m k = Some v" if "mget m' k = Some v" for k v using that by (auto simp: mget_iff_in)
  then show ?thesis by (auto simp: map_le_def dom_def)
qed

lemma sim_loses:
  assumes "oauth_ok (pstore s) \<Longrightarrow> oauth_ok st" and "loses (pstore s) st"
  shows "sim P g s g (with_store st s)"
proof (rule simI)
  assume inv: "pinv P g s"
  then have ok: "oauth_ok (pstore s)" "oauth_ok st" using assms(1) by (simp_all add: pinv_def)
  note le = map_le_set [OF oauth_ok_keys(2) [OF ok(1)] oauth_ok_keys(2) [OF ok(2)]] map_le_set [OF oauth_ok_keys(3) [OF ok(1)] oauth_ok_keys(3) [OF ok(2)]]
    map_le_set [OF oauth_ok_keys(4) [OF ok(1)] oauth_ok_keys(4) [OF ok(2)]] map_le_set [OF oauth_ok_keys(5) [OF ok(1)] oauth_ok_keys(5) [OF ok(2)]]
  have "pstep (world_of g s) (world_of g (with_store st s))"
    by (rule pstep.shrink [OF _ _ _ _ world_with_store]) (use assms(2) in \<open>auto simp: world_of_def loses_def intro: le\<close>)
  with pinv_with_store [OF inv ok(2)] show "pinv P g (with_store st s) \<and> pstep (world_of g s) (world_of g (with_store st s))" by blast
qed

lemma loses_refl [simp]: "loses st st"
  by (simp add: loses_def)

lemma loses_trans: "loses a b \<Longrightarrow> loses b c \<Longrightarrow> loses a c"
  by (auto simp: loses_def)

lemma loses_fold: "(\<And>x st. loses st (f x st)) \<Longrightarrow> loses st (fold f xs st)"
  by (induction xs arbitrary: st) (auto intro: loses_trans)

lemma loses_deleteGrant: "loses st (deleteGrantLocked i st)"
  by (auto simp: loses_def deleteGrantLocked_def)

lemma loses_deleteClient: "loses st (deleteClientLocked i st)"
proof -
  let ?s1 = "st\<lparr>st_oauthClients := mdel i (st_oauthClients st), st_oauthRequests := mprune (\<lambda>_ r. or_ClientID r = i) (st_oauthRequests st)\<rparr>"
  have "loses st ?s1" by (auto simp: loses_def)
  then have "loses st (fold deleteGrantLocked ks ?s1)" for ks
    using loses_fold [of deleteGrantLocked ?s1 ks] loses_deleteGrant by (blast intro: loses_trans)
  then show ?thesis by (auto simp: deleteClientLocked_def Let_def loses_def)
qed

lemma loses_cleanup: "loses st (snd (DeleteExpiredOAuth st now rb cb))"
proof -
  let ?s1 = "st\<lparr>st_oauthRequests := mprune (\<lambda>_ r. or_CreatedAt r < rb) (st_oauthRequests st),
      st_oauthAccess := mprune (\<lambda>_ t. oa_ExpiresAt t < now) (st_oauthAccess st),
      st_oauthRefresh := mprune (\<lambda>_ t. ot_ExpiresAt t < now) (st_oauthRefresh st)\<rparr>"
  have "loses st ?s1" by (auto simp: loses_def)
  moreover have "loses ?s1 (fold deleteGrantLocked ks ?s1)" for ks by (rule loses_fold) (rule loses_deleteGrant)
  moreover have "loses t (fold deleteClientLocked ks t)" for ks t by (rule loses_fold) (rule loses_deleteClient)
  ultimately show ?thesis unfolding DeleteExpiredOAuth_def Let_def snd_conv by (blast intro: loses_trans)
qed

lemma sim_delete_request: "sim P g s g (with_store (snd (DeleteOAuthAuthRequest (pstore s) i)) s)"
  by (rule sim_loses [OF DeleteOAuthAuthRequest_ok]) (auto simp: loses_def DeleteOAuthAuthRequest_def)

text \<open>Revoking grants.\<close>

lemma sim_revoke: "sim P g s g (with_store (snd (RevokeOAuthGrants (pstore s) f at)) s)"
proof (cases "filter_Empty f")
  case True
  have "hushed s (with_store (snd (RevokeOAuthGrants (pstore s) f at)) s)"
    by (rule hushed_with_store) (simp_all add: True RevokeOAuthGrants_def)
  then show ?thesis by (rule sim_hushed)
next
  case False
  show ?thesis
  proof (rule simI)
    assume inv: "pinv P g s"
    let ?p = "\<lambda>x. if grant_skipped f x then x else x\<lparr>og_RevokedAt := Some at\<rparr>"
    have "?p x = x \<or> og_RevokedAt x = None \<and> ?p x = x\<lparr>og_RevokedAt := Some at\<rparr>" for x
      by (auto simp: grant_skipped_def)
    moreover have "world_of g (with_store (snd (RevokeOAuthGrants (pstore s) f at)) s) =
        (world_of g s)\<lparr>w_gr := (\<lambda>i. map_option ?p (w_gr (world_of g s) i))\<rparr>"
      using False by (auto simp: world_of_def with_store_def RevokeOAuthGrants_def fun_eq_iff)
    ultimately have "pstep (world_of g s) (world_of g (with_store (snd (RevokeOAuthGrants (pstore s) f at)) s))"
      by (rule pstep.revoke)
    moreover have "pinv P g (with_store (snd (RevokeOAuthGrants (pstore s) f at)) s)"
      using inv by (intro pinv_with_store RevokeOAuthGrants_ok) (simp_all add: pinv_def)
    ultimately show "pinv P g (with_store (snd (RevokeOAuthGrants (pstore s) f at)) s) \<and>
      pstep (world_of g s) (world_of g (with_store (snd (RevokeOAuthGrants (pstore s) f at)) s))" by blast
  qed
qed

section \<open>Requests and codes\<close>

lemma sim_new_request:
  assumes "\<not> or_Done r" and "or_CodeHash r = []" and "or_CreatedAt r = pnow s"
  shows "sim P g s (log_asked (Inr r) g) (with_store (snd (SaveOAuthAuthRequest (pstore s) r)) s)"
proof (rule simI)
  assume inv: "pinv P g s"
  let ?s = "with_store (snd (SaveOAuthAuthRequest (pstore s) r)) s"
  have "world_of (log_asked (Inr r) g) ?s =
      (world_of g s)\<lparr>w_req := (w_req (world_of g s))(or_ID r \<mapsto> r), w_asked := insert r (w_asked (world_of g s))\<rparr>"
    using save_world [of "log_asked (Inr r) g" s r] by (simp add: world_of_def log_asked_def)
  then have "pstep (world_of g s) (world_of (log_asked (Inr r) g) ?s)"
    by (intro pstep.ask [of r]) (simp_all add: assms world_of_def)
  moreover have "pinv P g ?s" using inv by (intro pinv_with_store SaveOAuthAuthRequest_ok) (simp_all add: pinv_def)
  then have "pinv P (log_asked (Inr r) g) ?s" by (simp add: pinv_def log_asked_def)
  ultimately show "pinv P (log_asked (Inr r) g) ?s \<and> pstep (world_of g s) (world_of (log_asked (Inr r) g) ?s)" by blast
qed

lemma sim_ask:
  assumes "CreateAuthRequest P ar res s = (x, s')"
  shows "sim P g s (log_asked x g) s'"
proof -
  obtain c s1 where c: "client P (ar_ClientID ar) s = (c, s1)" by fastforce
  obtain i s2 where i: "randomID P 24 s1 = (i, s2)" by fastforce
  have h1: "hushed s s1" using client_hushed [of s P "ar_ClientID ar"] c by simp
  then have h2: "hushed s s2" using hushed_trans randomID_hushed [of s1 P 24] i by (metis snd_conv)
  have "s' = s1 \<and> (\<exists>e. x = Inl e) \<or> s' = s2 \<and> (\<exists>e. x = Inl e) \<or>
      (\<exists>r. x = Inr r \<and> \<not> or_Done r \<and> or_CodeHash r = [] \<and> or_CreatedAt r = pnow s2 \<and>
        s' = with_store (snd (SaveOAuthAuthRequest (pstore s2) r)) s2)"
    using assms c i by (auto simp: CreateAuthRequest_def Let_def pop_eq SaveOAuthAuthRequest_def split: sum.splits if_splits)
  then show ?thesis
  proof (elim disjE conjE exE)
    fix r
    assume r: "x = Inr r" "\<not> or_Done r" "or_CodeHash r = []" "or_CreatedAt r = pnow s2"
      "s' = with_store (snd (SaveOAuthAuthRequest (pstore s2) r)) s2"
    show ?thesis unfolding r(1,5) by (rule sim_trans [OF sim_hushed [OF h2] sim_new_request [OF r(2,3,4)]])
  qed (use h1 h2 in \<open>simp_all add: log_asked_def sim_hushed\<close>)
qed

lemma pinv_codes: "pinv P g s \<Longrightarrow> keys_ok c \<Longrightarrow> pinv P g (s\<lparr>ps_codes := c\<rparr>)"
  by (simp add: pinv_def)

lemma world_codes: "world_of g (s\<lparr>ps_codes := c\<rparr>) = (world_of g s)\<lparr>w_codes := mget c\<rparr>"
  by (simp add: world_of_def)

lemma world_held: "world_of (log_held f (Inr r) g) s = (world_of g s)\<lparr>w_held := insert (f r) (w_held (world_of g s))\<rparr>"
  by (simp add: world_of_def log_held_def)

lemma pinv_held [simp]: "pinv P (log_held f x g) s = pinv P g s"
  by (simp add: pinv_def log_held_def split: sum.split)

lemma log_held_Inl [simp]: "log_held f (Inl e) g = g"
  by (simp add: log_held_def)

lemma by_codeD:
  assumes "AuthRequestByCode P c s = (Inr r, s')" and "oauth_ok (pstore s)"
  shows "mget (ps_codes s) (tokenHash P c) = None \<and> tokenHash P c \<noteq> [] \<and> or_CodeHash r = tokenHash P c \<and> or_Done r \<and>
    pnow s - or_CodeAt r \<le> codeTTL \<and> pnow s - or_CreatedAt r \<le> authRequestTTL \<and>
    (\<exists>i. mget (st_oauthRequests (pstore s)) i = Some r) \<and>
    s' = s\<lparr>ps_codes := mput (tokenHash P c) (pnow s) (ps_codes s)\<rparr>"
proof -
  let ?h = "tokenHash P c"
  have n: "mget (ps_codes s) ?h = None"
    using assms(1) by (cases "mget (ps_codes s) ?h") (simp_all add: AuthRequestByCode_def Let_def)
  then have r: "OAuthAuthRequestByCode (pstore s) ?h = Inr r" "or_Done r" "pnow s - or_CodeAt r \<le> codeTTL"
      "pnow s - or_CreatedAt r \<le> authRequestTTL" "s' = s\<lparr>ps_codes := mput ?h (pnow s) (ps_codes s)\<rparr>"
    using assms(1) by (auto simp: AuthRequestByCode_def Let_def split: sum.splits if_splits)
  then have f: "?h \<noteq> []" "mfind (\<lambda>r. or_CodeHash r = ?h) (st_oauthRequests (pstore s)) = Some r"
    by (auto simp: OAuthAuthRequestByCode_def split: if_splits option.splits)
  then show ?thesis
    using n r mfind_Some [OF f(2)] mvals_mget [OF oauth_ok_keys(2) [OF assms(2)]] by simp
qed

lemma sim_by_code:
  assumes "AuthRequestByCode P c s = (x, s')"
  shows "sim P g s (log_held AuthReq x g) s'"
proof (cases "mget (ps_codes s) (tokenHash P c)")
  case (Some at)
  with assms show ?thesis by (auto simp: AuthRequestByCode_def Let_def)
next
  case None
  let ?h = "tokenHash P c" and ?s = "s\<lparr>ps_codes := mput (tokenHash P c) (pnow s) (ps_codes s)\<rparr>"
  have s': "s' = ?s" using assms None by (auto simp: AuthRequestByCode_def Let_def split: sum.splits if_splits)
  show ?thesis
  proof (rule simI)
    assume inv: "pinv P g s"
    then have "pinv P g ?s" by (intro pinv_codes keys_ok_mput) (simp_all add: pinv_def)
    moreover have "pstep (world_of g s) (world_of (log_held AuthReq x g) ?s)"
    proof (cases x)
      case (Inl e)
      then show ?thesis
        by (intro pstep.mark [of _ ?h]) (use None in \<open>simp_all add: world_codes mget_mput_upd\<close>, simp_all add: world_of_def)
    next
      case (Inr r)
      with by_codeD [of P c s r s'] assms inv obtain i where r: "?h \<noteq> []" "or_CodeHash r = ?h" "or_Done r"
          "pnow s - or_CodeAt r \<le> codeTTL" "pnow s - or_CreatedAt r \<le> authRequestTTL"
          "mget (st_oauthRequests (pstore s)) i = Some r" by (auto simp: pinv_def)
      have "world_of (log_held AuthReq x g) ?s = (world_of g s)\<lparr>w_codes := (w_codes (world_of g s))(?h \<mapsto> w_now (world_of g s)),
          w_held := insert (AuthReq r) (w_held (world_of g s))\<rparr>"
        unfolding Inr by (simp add: world_held world_codes mget_mput_upd) (simp add: world_of_def)
      then show ?thesis
        by (rule pstep.exchange [of _ ?h i r, rotated 7]) (use None r in \<open>simp_all add: world_of_def\<close>)
    qed
    ultimately show "pinv P (log_held AuthReq x g) s' \<and> pstep (world_of g s) (world_of (log_held AuthReq x g) s')"
      unfolding s' by simp
  qed
qed

text \<open>What the log gains without the program moving.\<close>

lemma sim_note: "sim P g s (g\<lparr>pl_approved := A \<union> pl_approved g, pl_issued := I \<union> pl_issued g\<rparr>) s"
proof (rule simI)
  assume "pinv P g s"
  moreover have "pstep (world_of g s) (world_of (g\<lparr>pl_approved := A \<union> pl_approved g, pl_issued := I \<union> pl_issued g\<rparr>) s)"
    by (rule pstep.note_acts [where A = A and I = I]) (simp add: world_of_def)
  ultimately show "pinv P (g\<lparr>pl_approved := A \<union> pl_approved g, pl_issued := I \<union> pl_issued g\<rparr>) s \<and>
      pstep (world_of g s) (world_of (g\<lparr>pl_approved := A \<union> pl_approved g, pl_issued := I \<union> pl_issued g\<rparr>) s)"
    by (simp add: pinv_def)
qed

lemma sim_log_approved: "sim P g s (log_approved A g) s"
  using sim_note [where P = P and g = g and s = s and A = A and I = "{}"] by (simp add: log_approved_def)

lemma sim_save_code:
  assumes "tokenHash P c \<notin> pl_issued g" and "SaveAuthCode P i c s = (x, s')"
  shows "sim P g s (log_issued (tokenHash P c) g) s'"
proof (cases "request_of i s")
  case (Inl e)
  with assms(2) have "s' = s" by (simp add: SaveAuthCode_def)
  with sim_note [where P = P and g = g and s = s and A = "{}" and I = "{tokenHash P c}"] show ?thesis by (simp add: log_issued_def)
next
  case (Inr r)
  let ?h = "tokenHash P c" and ?r = "r\<lparr>or_CodeHash := tokenHash P c, or_CodeAt := pnow s\<rparr>"
  have s': "s' = with_store (snd (SaveOAuthAuthRequest (pstore s) ?r)) s" using assms(2) Inr by (simp add: SaveAuthCode_def pop_eq)
  show ?thesis
  proof (rule simI)
    assume inv: "pinv P g s"
    then have ok: "oauth_ok (pstore s)" by (simp add: pinv_def)
    have "world_of (log_issued ?h g) s' = (world_of g s)\<lparr>w_req := (w_req (world_of g s))(or_ID r \<mapsto> r\<lparr>or_CodeHash := ?h, or_CodeAt := w_now (world_of g s)\<rparr>),
        w_issued := insert ?h (w_issued (world_of g s))\<rparr>"
      unfolding s' using save_world [of "log_issued ?h g" s ?r] by (simp add: world_of_def log_issued_def)
    then have "pstep (world_of g s) (world_of (log_issued ?h g) s')"
      by (rule pstep.code [of _ i r ?h, rotated 2]) (use request_ofD [OF Inr ok] assms(1) in \<open>simp_all add: world_of_def\<close>)
    moreover have "pinv P g s'" unfolding s' by (rule pinv_with_store [OF inv SaveOAuthAuthRequest_ok [OF ok]])
    then have "pinv P (log_issued ?h g) s'" by (simp add: pinv_def log_issued_def)
    ultimately show "pinv P (log_issued ?h g) s' \<and> pstep (world_of g s) (world_of (log_issued ?h g) s')" by blast
  qed
qed

section \<open>Login and consent\<close>

lemma pop_snd: "snd (pop f s) = with_store (snd (f (pstore s))) s"
  by (simp add: pop_eq)

text \<open>An approval by the subject the request belongs to, noted before.\<close>

lemma sim_approve:
  assumes "Approve P i sub d s = (x, s')" and "(sub, i) \<in> pl_approved g"
  shows "sim P g s g s'"
proof (cases "own_request i sub s")
  case (Inl e)
  with assms(1) show ?thesis by (simp add: Approve_def)
next
  case (Inr r)
  let ?r = "r\<lparr>or_Scopes := granted_scopes (dc_Scopes d) (or_Scopes r), or_Done := True, or_Ref := dc_Ref d,
      or_GrantExpiresAt := dc_Expires d, or_AuthTime := pnow s\<rparr>"
  have s': "s' = with_store (snd (SaveOAuthAuthRequest (pstore s) ?r)) s"
    using assms(1) Inr by (simp add: Approve_def pop_eq SaveOAuthAuthRequest_def)
  have "narrows ?r r" by (auto simp: narrows_def granted_scopes_def split: option.split)
  then show ?thesis
    unfolding s' sim_def
  proof (intro impI)
    assume n: "narrows ?r r" and inv: "pinv P g s"
    then have "oauth_ok (pstore s)" by (simp add: pinv_def)
    note r = own_requestD [OF Inr this]
    have "sim P g s g (with_store (snd (SaveOAuthAuthRequest (pstore s) ?r)) s)"
      by (rule sim_save [OF _ n]) (use r assms(2) in auto)
    with inv show "pinv P g (with_store (snd (SaveOAuthAuthRequest (pstore s) ?r)) s) \<and>
        psteps (world_of g s) (world_of g (with_store (snd (SaveOAuthAuthRequest (pstore s) ?r)) s))"
      by (simp add: sim_def)
  qed
qed

lemma sim_deny:
  assumes "Deny P i sub s = (x, s')"
  shows "sim P g s g s'"
proof -
  have "s' = s \<or> s' = with_store (snd (DeleteOAuthAuthRequest (pstore s) i)) s"
    using assms by (auto simp: Deny_def Let_def pop_snd split: sum.splits option.splits)
  then show ?thesis using sim_delete_request by auto
qed

lemma sim_redirectError:
  assumes "redirectError P req c d s = (x, s')"
  shows "sim P g s g s'"
proof -
  have "s' = with_store (snd (DeleteOAuthAuthRequest (pstore s) (or_ID req))) s"
    using assms by (auto simp: redirectError_def Let_def pop_snd split: option.splits)
  then show ?thesis using sim_delete_request by auto
qed

lemma sim_login:
  assumes "login P r s = (a, s')"
  shows "sim P g s (log_approved (login_acts P r s) g) s'"
proof -
  let ?i = "attr (rq_query r) ''id''" and ?g = "log_approved (login_acts P r s) g"
  have "sim P ?g s ?g s'"
  proof (cases "request_of ?i s")
    case (Inl e)
    with assms show ?thesis by (simp add: login_def Let_def)
  next
    case (Inr q)
    show ?thesis
    proof (cases "or_Done q \<or> sessionOf (pv_auth P) r (ps_env s) = None")
      case True
      then have "s' = s \<or> redirectError P q ''login_required'' [] s = (a, s')"
        using assms Inr by (auto simp: login_def Let_def split: if_splits)
      then show ?thesis using sim_redirectError by auto
    next
      case False
      then obtain sc where sc: "\<not> or_Done q" "sessionOf (pv_auth P) r (ps_env s) = Some sc" by auto
      let ?q = "q\<lparr>or_Subject := sc_Subject sc\<rparr>"
      let ?s1 = "with_store (snd (SaveOAuthAuthRequest (pstore s) ?q)) s"
      have "redirectError P q ''access_denied'' ''this account may not sign in'' s = (a, s') \<or>
          (pg_ConsentURL (pv_cfg P) = None \<and> s' = snd (Approve P ?i (sc_Subject sc) \<lparr>dc_Scopes = None, dc_Ref = [], dc_Expires = 0\<rparr> ?s1)) \<or>
          redirectError P ?q ''consent_required'' [] ?s1 = (a, s') \<or> s' = ?s1"
        using assms Inr sc
        by (auto simp: login_def Let_def pop_eq SaveOAuthAuthRequest_def split: sum.splits option.splits prod.splits if_splits)
      moreover have s1: "sim P ?g s ?g ?s1"
        using sc(1) by (intro sim_save [of s ?i q]) (use request_ofD [OF Inr] in \<open>auto simp: narrows_def\<close>)
      moreover have "(sc_Subject sc, ?i) \<in> pl_approved ?g" if "pg_ConsentURL (pv_cfg P) = None"
        using that sc(2) by (simp add: log_approved_def login_acts_def)
      ultimately show ?thesis
        using sim_redirectError sim_trans [OF s1] sim_approve [OF prod.collapse [symmetric]] by metis
    qed
  qed
  with sim_log_approved show ?thesis by (blast intro: sim_trans)
qed

lemma sim_consent:
  assumes "consentJSON P r s = (a, s')"
  shows "sim P g s (log_approved (consent_acts P r s) g) s'"
proof (cases "sessionOf (pv_auth P) r (ps_env s)")
  case None
  with assms sim_log_approved show ?thesis by (simp add: consentJSON_def)
next
  case (Some sc)
  let ?g = "log_approved (consent_acts P r s) g"
  let ?A = "Approve P (field r ''id'') (sc_Subject sc) \<lparr>dc_Scopes = map_of (rq_lists r) ''scopes'', dc_Ref = [], dc_Expires = 0\<rparr> s"
  have "s' = s \<or> s' = snd (Pending P (attr (rq_query r) ''id'') (sc_Subject sc) s) \<or>
      (flag r ''approve'' \<and> rq_method r = ''POST'' \<and> csrfValid (pv_auth P) r \<and> s' = snd ?A) \<or>
      s' = snd (Deny P (field r ''id'') (sc_Subject sc) s)"
    using assms Some by (auto simp: consentJSON_def split: sum.splits prod.splits if_splits)
  moreover have "hushed s (snd (Pending P i sub s))" for i sub
    using client_hushed by (auto simp: Pending_def split: sum.split prod.split) (metis snd_conv)+
  moreover have "(sc_Subject sc, field r ''id'') \<in> pl_approved ?g" if "flag r ''approve''" "rq_method r = ''POST''" "csrfValid (pv_auth P) r"
    using that Some by (simp add: log_approved_def consent_acts_def)
  ultimately have "sim P ?g s ?g s'"
    using sim_hushed sim_refl sim_approve [OF prod.collapse [symmetric]] sim_deny [OF prod.collapse [symmetric]] by metis
  with sim_log_approved show ?thesis by (blast intro: sim_trans)
qed

section \<open>Tokens\<close>

lemma capTime_end: "within_end (capTime t (og_ExpiresAt gr)) gr"
  by (auto simp: within_end_def capTime_def)

lemma issues_hushed: "hushed s s' \<Longrightarrow> issues (world_of g s') gr sc = issues (world_of g s) gr sc"
  by (simp add: issues_def world_of_def)

lemma sim_new_access:
  assumes "issues (world_of g s) gr (oa_Scopes t)" and "oa_GrantID t = og_ID gr" and "oa_ClientID t = og_ClientID gr"
    and "oa_Subject t = og_Subject gr" and "within_end (oa_ExpiresAt t) gr"
  shows "sim P g s g (with_store (snd (CreateOAuthAccessToken (pstore s) t)) s)"
proof (cases "mget (st_oauthAccess (pstore s)) (oa_ID t)")
  case (Some x)
  then have "hushed s (with_store (snd (CreateOAuthAccessToken (pstore s) t)) s)"
    by (intro hushed_with_store CreateOAuthAccessToken_ok) (simp_all add: CreateOAuthAccessToken_def)
  then show ?thesis by (rule sim_hushed)
next
  case None
  let ?s = "with_store (snd (CreateOAuthAccessToken (pstore s) t)) s"
  show ?thesis
  proof (rule simI)
    assume inv: "pinv P g s"
    have "world_of g ?s = (world_of g s)\<lparr>w_acc := (w_acc (world_of g s))(oa_ID t \<mapsto> t)\<rparr>"
      using None by (simp add: world_of_def with_store_def CreateOAuthAccessToken_def mget_mput_upd)
    then have "pstep (world_of g s) (world_of g ?s)" by (rule pstep.access [OF assms])
    moreover have "pinv P g ?s" using inv by (intro pinv_with_store CreateOAuthAccessToken_ok) (simp_all add: pinv_def)
    ultimately show "pinv P g ?s \<and> pstep (world_of g s) (world_of g ?s)" by blast
  qed
qed

lemma sim_new_refresh:
  assumes "issues (world_of g s) gr (ot_Scopes t)" and "ot_GrantID t = og_ID gr" and "ot_ClientID t = og_ClientID gr"
    and "ot_Subject t = og_Subject gr" and "within_end (ot_ExpiresAt t) gr"
  shows "sim P g s g (with_store (snd (CreateOAuthRefreshToken (pstore s) t)) s)"
proof (cases "mget (st_oauthRefresh (pstore s)) (ot_Hash t)")
  case (Some x)
  then have "hushed s (with_store (snd (CreateOAuthRefreshToken (pstore s) t)) s)"
    by (intro hushed_with_store CreateOAuthRefreshToken_ok) (simp_all add: CreateOAuthRefreshToken_def)
  then show ?thesis by (rule sim_hushed)
next
  case None
  let ?s = "with_store (snd (CreateOAuthRefreshToken (pstore s) t)) s"
  show ?thesis
  proof (rule simI)
    assume inv: "pinv P g s"
    have "world_of g ?s = (world_of g s)\<lparr>w_ref := (w_ref (world_of g s))(ot_Hash t \<mapsto> t)\<rparr>"
      using None by (simp add: world_of_def with_store_def CreateOAuthRefreshToken_def mget_mput_upd)
    then have "pstep (world_of g s) (world_of g ?s)" by (rule pstep.refresh [OF assms])
    moreover have "pinv P g ?s" using inv by (intro pinv_with_store CreateOAuthRefreshToken_ok) (simp_all add: pinv_def)
    ultimately show "pinv P g ?s \<and> pstep (world_of g s) (world_of g ?s)" by blast
  qed
qed

lemma hushed_touch: "hushed s (with_store (snd (TouchOAuthClient (pstore s) i at)) s)"
  by (intro hushed_with_store TouchOAuthClient_ok) (simp_all add: TouchOAuthClient_def split: option.split)

text \<open>The grants of the store, which only \<open>CreateOAuthGrant\<close> adds to.\<close>

abbreviation pgrants :: "pstate \<Rightarrow> (string, OAuthGrant) gomap" where "pgrants s \<equiv> st_oauthGrants (pstore s)"

lemma accessToken_sim:
  assumes "accessToken P gr sc s = (x, s')" and "issues (world_of g s) gr sc"
  shows "sim P g s g s' \<and> pgrants s' = pgrants s"
proof -
  obtain i s1 where i: "randomID P 18 s = (i, s1)" by fastforce
  then have h: "hushed s s1" using randomID_hushed [of s P 18] by simp
  let ?t = "\<lparr>oa_ID = i, oa_GrantID = og_ID gr, oa_ClientID = og_ClientID gr, oa_Subject = og_Subject gr, oa_Scopes = sc,
           oa_ExpiresAt = capTime (pnow s1 + pg_AccessTokenTTL (pv_cfg P)) (og_ExpiresAt gr), oa_CreatedAt = pnow s1\<rparr>"
  let ?s2 = "with_store (snd (CreateOAuthAccessToken (pstore s1) ?t)) s1"
  have "sim P g s1 g ?s2"
    by (rule sim_new_access [of g s1 gr]) (use assms(2) issues_hushed [OF h] in \<open>simp_all add: capTime_end\<close>)
  with sim_hushed [OF h] have two: "sim P g s g ?s2" by (rule sim_trans)
  have "s' = ?s2 \<or> s' = with_store (snd (TouchOAuthClient (pstore ?s2) (og_ClientID gr) (pnow ?s2))) ?s2"
    using assms(1) i by (auto simp: accessToken_def Let_def pop_eq split: sum.splits if_splits)
  moreover have "pgrants ?s2 = pgrants s"
    using h by (simp add: with_store_def CreateOAuthAccessToken_def hushed_def)
  ultimately show ?thesis
    using two sim_trans [OF two sim_hushed [OF hushed_touch]] hushed_touch [of ?s2] by (auto simp: hushed_def)
qed

lemma made_same: "pgrants s' = pgrants s \<Longrightarrow> made s s' = {}"
  by (auto simp: made_def)

lemma log_made_same [simp]: "made s s' = {} \<Longrightarrow> log_made s s' g = g"
  by (simp add: log_made_def)

text \<open>A new grant, for a request the library holds.\<close>

lemma sim_new_grant:
  assumes "AuthReq r \<in> pl_held g" and "og_ClientID gr = or_ClientID r" and "og_Subject gr = or_Subject r" and "og_Scopes gr = or_Scopes r"
    and "og_Resources gr = or_Resources r" and "og_RevokedAt gr = None" and "og_ID gr = randomIDAt P k 18" and "e_rand (ps_env s) = Suc k"
    and "inj (\<lambda>k. randomIDAt P k 18)" and "\<And>x. x \<in> pl_grants g \<Longrightarrow> \<exists>j < k. og_ID x = randomIDAt P j 18"
    and new: "mget (pgrants s) (og_ID gr) = None"
  defines "s' \<equiv> with_store (snd (CreateOAuthGrant (pstore s) gr)) s"
  shows "made s s' = {gr} \<and> sim P g s (log_made s s' g) s'"
proof -
  have g': "pgrants s' = mput (og_ID gr) gr (pgrants s)" using new by (simp add: s'_def with_store_def CreateOAuthGrant_def)
  then have m: "made s s' = {gr}" using new by (auto simp: made_def split: if_splits)
  have rest: "st_oauthRequests (pstore s') = st_oauthRequests (pstore s)" "st_oauthAccess (pstore s') = st_oauthAccess (pstore s)"
      "st_oauthRefresh (pstore s') = st_oauthRefresh (pstore s)" "ps_codes s' = ps_codes s" "pnow s' = pnow s"
    by (simp_all add: s'_def with_store_def CreateOAuthGrant_def)
  have "sim P g s (log_made s s' g) s'"
  proof (rule simI)
    assume inv: "pinv P g s"
    have "og_ID gr \<notin> og_ID ` pl_grants g"
    proof
      assume "og_ID gr \<in> og_ID ` pl_grants g"
      then obtain j where "j < k" "randomIDAt P j 18 = randomIDAt P k 18" using assms(7,10) by force
      with assms(9) show False by (auto dest: injD)
    qed
    moreover have "world_of (log_made s s' g) s' =
        (world_of g s)\<lparr>w_gr := (w_gr (world_of g s))(og_ID gr \<mapsto> gr), w_grants := insert gr (w_grants (world_of g s))\<rparr>"
      using rest by (simp add: world_of_def log_made_def m g' mget_mput_upd)
    ultimately have "pstep (world_of g s) (world_of (log_made s s' g) s')"
      by (intro pstep.grant [of r _ gr]) (use assms in \<open>simp_all add: world_of_def\<close>)
    moreover have "pinv P g s'" unfolding s'_def using inv by (intro pinv_with_store CreateOAuthGrant_ok) (simp_all add: pinv_def)
    then have "pinv P (log_made s s' g) s'" using assms(7,8) unfolding pinv_def log_made_def m
      by (auto simp: s'_def with_store_def)
    ultimately show "pinv P (log_made s s' g) s' \<and> pstep (world_of g s) (world_of (log_made s s' g) s')" by blast
  qed
  with m show ?thesis by blast
qed

lemma sim_grantFor:
  assumes "grantFor P req s = (x, s')" and "req \<in> pl_held g" and "inj (\<lambda>k. randomIDAt P k 18)" and inv: "pinv P g s"
  shows "sim P g s (log_made s s' g) s' \<and>
    (\<forall>gr. x = Inr gr \<longrightarrow> issues (world_of (log_made s s' g) s') gr (req_scopes req))"
proof (cases req)
  case (RefreshReq rr)
  then have s': "s' = s" and x: "x = Inr gr \<Longrightarrow> gr = rr_grant rr" for gr using assms(1) by (auto simp: grantFor_def split: sum.splits)
  then have "log_made s s' g = g" by (simp add: made_same)
  with s' x assms(2) RefreshReq show ?thesis by (auto simp: issues_def world_of_def)
next
  case OtherReq
  then have "s' = s" "\<exists>e. x = Inl e" using assms(1) by (auto simp: grantFor_def)
  then show ?thesis by (auto simp: made_same)
next
  case (AuthReq r)
  obtain i s1 where i: "randomID P 18 s = (i, s1)" by fastforce
  then have h: "hushed s s1" and i': "i = randomIDAt P (e_rand (ps_env s)) 18" "e_rand (ps_env s1) = Suc (e_rand (ps_env s))"
    using randomID_hushed [of s P 18] by (auto simp: randomID_def Let_def)
  let ?gr = "\<lparr>og_ID = i, og_ClientID = or_ClientID r, og_Subject = or_Subject r, og_Scopes = or_Scopes r,
                 og_Resources = or_Resources r, og_Ref = or_Ref r, og_AuthTime = or_AuthTime r, og_CreatedAt = pnow s1,
                 og_ExpiresAt = or_GrantExpiresAt r, og_RevokedAt = None\<rparr>"
  let ?s2 = "with_store (snd (CreateOAuthGrant (pstore s1) ?gr)) s1"
  have "s' = s \<and> (\<exists>e. x = Inl e) \<or> mget (pgrants s1) i \<noteq> None \<and> s' = ?s2 \<and> (\<exists>e. x = Inl e) \<or>
      mget (pgrants s1) i = None \<and> s' = ?s2 \<and> x = Inr ?gr"
    using assms(1) i AuthReq by (auto simp: grantFor_def Let_def pop_eq CreateOAuthGrant_def split: sum.splits if_splits)
  then show ?thesis
  proof (elim disjE conjE)
    assume s': "s' = ?s2" and "mget (pgrants s1) i \<noteq> None" and e: "\<exists>e. x = Inl e"
    then have "hushed s1 s'" unfolding s' by (intro hushed_with_store CreateOAuthGrant_ok) (simp_all add: CreateOAuthGrant_def)
    with h have "hushed s s'" by (rule hushed_trans)
    then show ?thesis using e by (auto simp: made_same hushed_def sim_hushed [OF \<open>hushed s s'\<close>])
  next
    assume s': "s' = ?s2" and new: "mget (pgrants s1) i = None" and x: "x = Inr ?gr"
    have old: "\<exists>j < e_rand (ps_env s). og_ID y = randomIDAt P j 18" if "y \<in> pl_grants g" for y
      using inv that by (simp add: pinv_def)
    have "made s1 s' = {?gr} \<and> sim P g s1 (log_made s1 s' g) s'"
      unfolding s' by (rule sim_new_grant [where r = r and k = "e_rand (ps_env s)"])
        (use assms(2,3) AuthReq i' new old in simp_all)
    moreover have "made s s' = made s1 s'" using h by (simp add: made_def hushed_def)
    moreover from this have eq: "log_made s s' g = log_made s1 s' g" by (simp only: log_made_def)
    ultimately have m: "made s s' = {?gr}" "sim P g s (log_made s s' g) s'"
      unfolding eq by (simp_all only: sim_trans [OF sim_hushed [OF h]])
    then have "issues (world_of (log_made s s' g) s') ?gr (req_scopes req)"
      by (simp add: issues_def world_of_def log_made_def AuthReq)
    with m(2) x show ?thesis by auto
  qed (auto simp: made_same)
qed

text \<open>A used refresh token stays a token of its grant.\<close>

lemma sim_use_refresh: "sim P g s g (with_store (snd (UseOAuthRefreshToken (pstore s) h at)) s)"
proof (cases "mget (st_oauthRefresh (pstore s)) h = None \<or> (\<exists>t. mget (st_oauthRefresh (pstore s)) h = Some t \<and> ot_UsedAt t \<noteq> None)")
  case True
  then have "with_store (snd (UseOAuthRefreshToken (pstore s) h at)) s = s"
    by (auto simp: UseOAuthRefreshToken_def with_store_def)
  then show ?thesis by simp
next
  case False
  then obtain t where t: "mget (st_oauthRefresh (pstore s)) h = Some t" "ot_UsedAt t = None" by auto
  let ?s = "with_store (snd (UseOAuthRefreshToken (pstore s) h at)) s"
  show ?thesis
  proof (rule simI)
    assume inv: "pinv P g s"
    have "world_of g ?s = (world_of g s)\<lparr>w_ref := (w_ref (world_of g s))(h \<mapsto> t\<lparr>ot_UsedAt := Some at\<rparr>)\<rparr>"
      using t by (auto simp: world_of_def with_store_def UseOAuthRefreshToken_def fun_eq_iff)
    then have "pstep (world_of g s) (world_of g ?s)" by (intro pstep.use [of _ h t]) (simp_all add: t world_of_def)
    moreover have "pinv P g ?s" using inv by (intro pinv_with_store UseOAuthRefreshToken_ok) (simp_all add: pinv_def)
    ultimately show "pinv P g ?s \<and> pstep (world_of g s) (world_of g ?s)" by blast
  qed
qed

lemma sim_rotated:
  assumes "rotated P req cur s = (x, s')" and "req \<in> pl_held g" and "inj (\<lambda>k. randomIDAt P k 18)" and inv: "pinv P g s"
  shows "sim P g s (log_made s s' g) s' \<and>
    (\<forall>gr. x = Inr gr \<longrightarrow> issues (world_of (log_made s s' g) s') gr (req_scopes req))"
proof (cases "cur = []")
  case True
  with assms sim_grantFor show ?thesis by (simp add: rotated_def)
next
  case False
  show ?thesis
  proof (cases req)
    case (RefreshReq rr)
    let ?s1 = "with_store (snd (UseOAuthRefreshToken (pstore s) (tokenHash P cur) (pnow s))) s"
    have "s' = ?s1 \<or> s' = revokeGrant (og_ID (rr_grant rr)) ?s1" and x: "\<And>gr. x = Inr gr \<Longrightarrow> gr = rr_grant rr"
      using assms(1) False RefreshReq by (auto simp: rotated_def pop_eq split: sum.splits if_splits)
    then have "sim P g s g s'"
      using sim_use_refresh sim_trans [OF sim_use_refresh sim_revoke] by (auto simp: revokeGrant_def pop_snd)
    moreover have "made s s' = {}"
      using \<open>s' = ?s1 \<or> s' = revokeGrant (og_ID (rr_grant rr)) ?s1\<close>
      by (auto simp: made_def revokeGrant_def pop_snd with_store_def UseOAuthRefreshToken_def RevokeOAuthGrants_def split: option.splits if_splits)
    ultimately show ?thesis using x assms(2) RefreshReq by (auto simp: issues_def world_of_def)
  qed (use assms(1) False in \<open>auto simp: rotated_def made_same\<close>)
qed

lemma log_made_grants: "pgrants s'' = pgrants s' \<Longrightarrow> log_made s s'' g = log_made s s' g"
  by (simp add: log_made_def made_def)

lemma sim_access_token:
  assumes "CreateAccessToken P req s = (x, s')" and "req \<in> pl_held g" and "inj (\<lambda>k. randomIDAt P k 18)"
  shows "sim P g s (log_made s s' g) s'"
  unfolding sim_def
proof (rule impI)
  assume inv: "pinv P g s"
  obtain y s1 where y: "grantFor P req s = (y, s1)" by fastforce
  note one = sim_grantFor [OF y assms(2,3) inv]
  have "sim P g s (log_made s s' g) s'"
  proof (cases y)
    case (Inl e)
    with assms(1) y one show ?thesis by (simp add: CreateAccessToken_def)
  next
    case (Inr gr)
    with assms(1) y have a: "accessToken P gr (req_scopes req) s1 = (x, s')" by (simp add: CreateAccessToken_def)
    from accessToken_sim [OF a] one Inr have "sim P (log_made s s1 g) s1 (log_made s s1 g) s'" "pgrants s' = pgrants s1" by auto
    with one log_made_grants [of s' s1] show ?thesis by (auto intro: sim_trans)
  qed
  with inv show "pinv P (log_made s s' g) s' \<and> psteps (world_of g s) (world_of (log_made s s' g) s')" by (simp add: sim_def)
qed

lemma sim_both_tokens:
  assumes "CreateAccessAndRefreshTokens P req cur s = (x, s')" and "req \<in> pl_held g" and "inj (\<lambda>k. randomIDAt P k 18)"
  shows "sim P g s (log_made s s' g) s'"
  unfolding sim_def
proof (rule impI)
  assume inv: "pinv P g s"
  obtain y s1 where y: "rotated P req cur s = (y, s1)" by fastforce
  let ?g = "log_made s s1 g"
  note one = sim_rotated [OF y assms(2,3) inv]
  have "sim P g s (log_made s s' g) s'"
  proof (cases y)
    case (Inl e)
    with assms(1) y one show ?thesis by (simp add: CreateAccessAndRefreshTokens_def)
  next
    case (Inr gr)
    obtain z s2 where a: "accessToken P gr (req_scopes req) s1 = (z, s2)" by fastforce
    have i1: "issues (world_of ?g s1) gr (req_scopes req)" using one Inr by blast
    from accessToken_sim [OF a i1] have two: "sim P ?g s1 ?g s2" "pgrants s2 = pgrants s1" by auto
    have i2: "issues (world_of ?g s2) gr (req_scopes req)" using i1 by (simp add: issues_def world_of_def)
    obtain t s3 where t: "randomID P 32 s2 = (t, s3)" by fastforce
    then have h: "hushed s2 s3" using randomID_hushed [of s2 P 32] by simp
    have i3: "issues (world_of ?g s3) gr (req_scopes req)" using i2 issues_hushed [OF h] by simp
    let ?t = "\<lparr>ot_Hash = tokenHash P (''rt_'' @ t), ot_GrantID = og_ID gr, ot_ClientID = og_ClientID gr, ot_Subject = og_Subject gr,
               ot_Scopes = req_scopes req, ot_ExpiresAt = capTime (pnow s3 + pg_RefreshTokenTTL (pv_cfg P)) (og_ExpiresAt gr),
               ot_CreatedAt = pnow s3, ot_UsedAt = None\<rparr>"
    let ?s4 = "with_store (snd (CreateOAuthRefreshToken (pstore s3) ?t)) s3"
    have "sim P ?g s3 ?g ?s4" by (rule sim_new_refresh [of ?g s3 gr]) (use i3 in \<open>simp_all add: capTime_end\<close>)
    then have four: "sim P ?g s1 ?g ?s4" using two(1) sim_hushed [OF h] by (blast intro: sim_trans)
    have g4: "pgrants ?s4 = pgrants s1" using two(2) h by (simp add: with_store_def CreateOAuthRefreshToken_def hushed_def)
    have "s' = s2 \<or> s' = ?s4"
      using assms(1) y Inr a t
      by (auto simp: CreateAccessAndRefreshTokens_def Let_def pop_eq split: sum.splits)
    then have "sim P ?g s1 ?g s' \<and> pgrants s' = pgrants s1" using two four g4 by blast
    with one log_made_grants [of s' s1] show ?thesis by (auto intro: sim_trans)
  qed
  with inv show "pinv P (log_made s s' g) s' \<and> psteps (world_of g s) (world_of (log_made s s' g) s')" by (simp add: sim_def)
qed

lemma sim_by_refresh:
  assumes "TokenRequestByRefreshToken P tok s = (x, s')"
  shows "sim P g s (log_held RefreshReq x g) s'"
proof (cases x)
  case (Inl e)
  then have "s' = s \<or> (\<exists>i. s' = revokeGrant i s)"
    using assms by (auto simp: TokenRequestByRefreshToken_def split: sum.splits if_splits)
  then have "sim P g s g s'" using sim_revoke by (auto simp: revokeGrant_def pop_snd)
  with Inl show ?thesis by simp
next
  case (Inr rr)
  let ?h = "tokenHash P tok"
  note d = assms [unfolded Inr TokenRequestByRefreshToken_def]
  obtain t where t: "OAuthRefreshToken_get (pstore s) ?h = Inr t"
    using d by (cases "OAuthRefreshToken_get (pstore s) ?h") simp_all
  have u: "ot_UsedAt t = None" using d t by (cases "ot_UsedAt t") simp_all
  have e: "\<not> ot_ExpiresAt t < pnow s" using d t u by (cases "ot_ExpiresAt t < pnow s") simp_all
  obtain gr where gr: "OAuthGrant_get (pstore s) (ot_GrantID t) = Inr gr"
    using d t u e by (cases "OAuthGrant_get (pstore s) (ot_GrantID t)") simp_all
  have l: "live P gr s = Inr ()" using d t u e gr by (cases "live P gr s") simp_all
  have s': "s' = s" and rr: "rr = \<lparr>rr_token = t, rr_grant = gr, rr_scopes = ot_Scopes t\<rparr>" using d t u e gr l by simp_all
  have "mget (st_oauthRefresh (pstore s)) ?h = Some t" "mget (pgrants s) (ot_GrantID t) = Some gr"
    using t gr by (auto simp: OAuthRefreshToken_get_def OAuthGrant_get_def split: option.splits)
  moreover have "og_RevokedAt gr = None" using l by (auto simp: live_def split: if_splits)
  ultimately have "pstep (world_of g s) (world_of (log_held RefreshReq x g) s)"
    unfolding Inr world_held rr
    by (intro pstep.present [of _ ?h t gr]) (simp_all add: u world_of_def)
  then show ?thesis unfolding s' by (intro simI) simp
qed

lemma sim_set_scopes:
  assumes "RefreshReq rr \<in> pl_held g"
  shows "sim P g s (log_held RefreshReq (Ok (SetCurrentScopes scopes rr)) g) s"
proof (rule simI)
  have "pstep (world_of g s) (world_of (log_held RefreshReq (Ok (SetCurrentScopes scopes rr)) g) s)"
    unfolding world_held by (rule pstep.narrow [OF _ refl]) (simp add: assms world_of_def)
  moreover assume "pinv P g s"
  ultimately show "pinv P (log_held RefreshReq (Ok (SetCurrentScopes scopes rr)) g) s \<and>
      pstep (world_of g s) (world_of (log_held RefreshReq (Ok (SetCurrentScopes scopes rr)) g) s)" by simp
qed

lemma sim_revocations:
  "TerminateSession u c s = (x, s') \<Longrightarrow> sim P g s g s'"
  "RevokeRef ref s = (x, s') \<Longrightarrow> sim P g s g s'"
  "RevokeGrant i s = (x, s') \<Longrightarrow> sim P g s g s'"
proof -
  have *: "sim P g s g s'" if "s' = s \<or> (\<exists>f at. s' = with_store (snd (RevokeOAuthGrants (pstore s) f at)) s)"
    using that sim_revoke by auto
  show "TerminateSession u c s = (x, s') \<Longrightarrow> sim P g s g s'"
    by (rule *) (auto simp: TerminateSession_def pop_eq split: sum.splits if_splits)
  show "RevokeRef ref s = (x, s') \<Longrightarrow> sim P g s g s'"
    by (rule *) (auto simp: RevokeRef_def pop_eq split: sum.splits if_splits)
  show "RevokeGrant i s = (x, s') \<Longrightarrow> sim P g s g s'"
    by (rule *) (auto simp: RevokeGrant_def pop_eq split: sum.splits if_splits)
qed

lemma sim_revoke_token:
  assumes "RevokeToken tok u c s = (x, s')"
  shows "sim P g s g s'"
proof -
  have "s' = s \<or> (\<exists>i. s' = revokeGrant i s) \<or> (\<exists>i. s' = with_store (snd (DeleteOAuthAccessToken (pstore s) i)) s)"
    using assms by (auto simp: RevokeToken_def pop_eq split: sum.splits if_splits)
  moreover have "sim P g s g (with_store (snd (DeleteOAuthAccessToken (pstore s) i)) s)" for i
    by (rule sim_loses [OF DeleteOAuthAccessToken_ok]) (auto simp: loses_def DeleteOAuthAccessToken_def)
  ultimately show ?thesis using sim_revoke by (auto simp: revokeGrant_def pop_snd)
qed

section \<open>Registration, keys and clean-up\<close>

lemma hushed_new_client: "hushed s (with_store (snd (CreateOAuthClient (pstore s) c)) s)"
  by (intro hushed_with_store CreateOAuthClient_ok) (simp_all add: CreateOAuthClient_def)

lemma hushed_reg: "hushed s (s\<lparr>ps_reg := m\<rparr>)"
  by (simp add: hushed_def)

lemma hushed_random:
  assumes "randomID P n s = (i, s')"
  shows "hushed s s'"
  using randomID_hushed [of s P n] assms by simp

lemma hushed_if: "(b \<Longrightarrow> hushed s (snd x)) \<Longrightarrow> (\<not> b \<Longrightarrow> hushed s (snd y)) \<Longrightarrow> hushed s (snd (if b then x else y))"
  by simp

lemma hushed_option:
  "hushed s (snd x) \<Longrightarrow> (\<And>v. hushed s (snd (f v))) \<Longrightarrow> hushed s (snd (case a of None \<Rightarrow> x | Some v \<Rightarrow> f v))"
  by (simp split: option.split)

lemma hushed_sum:
  "(\<And>e. hushed s (snd (f e))) \<Longrightarrow> (\<And>v. hushed s (snd (h v))) \<Longrightarrow> hushed s (snd (case a of Inl e \<Rightarrow> f e | Inr v \<Rightarrow> h v))"
  by (simp split: sum.split)

lemma hushed_random_case:
  assumes "hushed s t" and "\<And>i t'. hushed s t' \<Longrightarrow> hushed s (snd (F i t'))"
  shows "hushed s (snd (case randomID P n t of (i, t') \<Rightarrow> F i t'))"
    and "hushed s (snd (case (if b then (x, t) else randomID P n t) of (i, t') \<Rightarrow> F i t'))"
    and "hushed s (snd (case (if b then randomID P n t else (x, t)) of (i, t') \<Rightarrow> F i t'))"
  using assms hushed_trans [OF assms(1) randomID_hushed [of t P n]] by (simp_all add: case_prod_beta)

lemma hushed_client_case:
  assumes "hushed s t" and "\<And>x t'. hushed s t' \<Longrightarrow> hushed s (snd (F x t'))"
  shows "hushed s (snd (case pop (\<lambda>st. CreateOAuthClient st c) t of (x, t') \<Rightarrow> F x t'))"
  using assms hushed_trans [OF assms(1) hushed_new_client [of t c]] by (simp add: case_prod_beta pop_snd)

lemma register_hushed: "hushed s (snd (register P r s))"
proof -
  obtain ok reg where reg: "regAllow 20 hour (rq_ip r) (pnow s) (ps_reg s) = (ok, reg)" by fastforce
  have h: "hushed s (s\<lparr>ps_reg := reg\<rparr>)" by (rule hushed_reg)
  show ?thesis
    unfolding register_def Let_def
    unfolding reg prod.case
    apply (rule hushed_if, simp only: snd_conv hushed_refl)
    apply ((rule hushed_if, simp only: snd_conv h)+)
    apply (rule hushed_option, simp only: snd_conv h)
    apply (rule hushed_if, simp only: snd_conv h)
    apply (rule hushed_random_case, rule h)
    apply (rule hushed_random_case(2), assumption)
    apply (rule hushed_client_case, assumption)
    apply (rule hushed_sum; simp only: snd_conv)
    done
qed

lemma RegisterClient_hushed: "hushed s (snd (snd (RegisterClient P c s)))"
proof -
  obtain i s1 where i: "(if oc_ID c = [] then randomID P 16 s else (oc_ID c, s)) = (i, s1)" by fastforce
  define meth where "meth = (if oc_AuthMethod c = [] then ''client_secret_basic'' else oc_AuthMethod c)"
  obtain t s2 where t: "(if meth = ''none'' then ([], s1) else randomID P 32 s1) = (t, s2)" by fastforce
  have one: "hushed s s1" using i hushed_random [of P 16 s] by (cases "oc_ID c = []") auto
  have "hushed s1 s2" using t hushed_random [of P 32 s1] by (cases "meth = ''none''") (simp_all only: if_True if_False, auto)
  with one have h: "hushed s s2" by (rule hushed_trans)
  have "\<exists>c'. snd (snd (RegisterClient P c s)) = with_store (snd (CreateOAuthClient (pstore s2) c')) s2"
    unfolding RegisterClient_def Let_def meth_def [symmetric] i t prod.case snd_conv pop_snd by blast
  with hushed_trans [OF h hushed_new_client] show ?thesis by auto
qed

lemma addKey_hushed:
  assumes "addKey P now s = (x, s')"
  shows "hushed s s'"
proof -
  let ?s1 = "s\<lparr>ps_env := (ps_env s)\<lparr>e_rand := Suc (e_rand (ps_env s))\<rparr>\<rparr>"
  obtain i s2 where i: "randomID P 12 ?s1 = (i, s2)" by fastforce
  have h1: "hushed s ?s1" by (simp add: hushed_def)
  then have h2: "hushed s s2" using hushed_random [OF i] by (rule hushed_trans)
  have "hushed s2 (with_store (snd (AddOAuthSigningKey (pstore s2) k)) s2)" for k
    by (intro hushed_with_store AddOAuthSigningKey_ok) (simp_all add: AddOAuthSigningKey_def)
  moreover have "s' = ?s1 \<or> (\<exists>k. s' = with_store (snd (AddOAuthSigningKey (pstore s2) k)) s2)"
    using assms i by (auto simp: addKey_def Let_def pop_eq split: option.splits)
  ultimately show ?thesis using h1 hushed_trans [OF h2] by auto
qed

lemma loadKeys_hushed:
  assumes "loadKeys P s = (x, s')"
  shows "hushed s s'"
proof -
  obtain y s1 where y: "addKey P (pnow s) s = (y, s1)" by fastforce
  note h = addKey_hushed [OF y]
  have "hushed t (t\<lparr>ps_keys := ks, ps_keysAt := at\<rparr>)" for t ks at by (simp add: hushed_def)
  moreover have "s' = s1 \<or> (\<exists>ks at. s' = s1\<lparr>ps_keys := ks, ps_keysAt := at\<rparr> \<or> s' = s\<lparr>ps_keys := ks, ps_keysAt := at\<rparr>)"
    using assms y by (auto simp: loadKeys_def readKeys_eq split: sum.splits if_splits)
  ultimately show ?thesis using h hushed_trans [OF h] by auto
qed

lemma upkeepKeys_hushed:
  assumes "upkeepKeys P ks cur s = (x, s')"
  shows "hushed s s'"
proof -
  obtain f t where ft: "fold (upkeepKey P cur (pnow s)) ks (False, s) = (f, t)" by fastforce
  then have t: "t = with_keys (fold (key_turn P cur (pnow s)) ks (pkeys s)) s"
    using fold_upkeepKey [of P cur "pnow s" ks False s] by simp
  have "hushed s t"
    unfolding t with_keys_def by (auto simp: hushed_def oauth_ok_def intro: key_turns_ids)
  moreover have "\<exists>y. loadKeys P t = (y, s')" using assms by (auto simp: upkeepKeys_def ft split: sum.splits prod.splits)
  ultimately show ?thesis using loadKeys_hushed hushed_trans by blast
qed

lemma rotateKeys_hushed:
  assumes "rotateKeys P force s = (x, s')"
  shows "hushed s s'"
proof -
  obtain y t where y: "addKey P (pnow s) s = (y, t)" by fastforce
  note h = addKey_hushed [OF y]
  have "s' = s \<or> s' = t \<or> (\<exists>ks cur. upkeepKeys P ks cur s = (x, s') \<or> upkeepKeys P ks cur t = (x, s'))"
    using assms y by (auto simp: rotateKeys_def readKeys_eq split: sum.splits option.splits if_splits)
  then show ?thesis
  proof (elim disjE exE)
    fix ks cur
    assume "upkeepKeys P ks cur t = (x, s')"
    then show ?thesis by (rule hushed_trans [OF h upkeepKeys_hushed])
  qed (simp_all add: h upkeepKeys_hushed)
qed

lemma currentKeys_hushed:
  assumes "currentKeys P s = (ks, s')"
  shows "hushed s s'"
proof -
  let ?s = "s\<lparr>ps_keysAt := pnow s\<rparr>"
  have "hushed s ?s" by (simp add: hushed_def)
  moreover have "s' = s \<or> (\<exists>x. loadKeys P ?s = (x, s'))"
    using assms by (auto simp: currentKeys_def split: sum.splits prod.splits if_splits)
  ultimately show ?thesis using loadKeys_hushed hushed_trans hushed_refl by blast
qed

lemma sim_forget: "sim P g s g (forgetCodes (pnow s) s)"
proof (rule simI)
  assume inv: "pinv P g s"
  then have k: "keys_ok (ps_codes s)" by (simp add: pinv_def)
  let ?c = "mprune (\<lambda>_ at. authRequestTTL < pnow s - at) (ps_codes s)"
  have c: "mget ?c h = (case mget (ps_codes s) h of None \<Rightarrow> None | Some at \<Rightarrow> if authRequestTTL < pnow s - at then None else Some at)" for h
    by (simp add: mget_mprune [OF k])
  have "pstep (world_of g s) (world_of g (s\<lparr>ps_codes := ?c\<rparr>))"
  proof (rule pstep.forget [OF _ _ world_codes])
    show "mget ?c \<subseteq>\<^sub>m w_codes (world_of g s)"
      by (auto simp: map_le_def dom_def c world_of_def split: option.splits if_splits)
    show "authRequestTTL < w_now (world_of g s) - at" if "w_codes (world_of g s) h = Some at" "mget ?c h = None" for h at
      using that by (simp add: c world_of_def split: if_splits)
  qed
  moreover have "pinv P g (s\<lparr>ps_codes := ?c\<rparr>)" using inv by (intro pinv_codes keys_ok_mprune k)
  ultimately show "pinv P g (forgetCodes (pnow s) s) \<and> pstep (world_of g s) (world_of g (forgetCodes (pnow s) s))"
    by (simp add: forgetCodes_def)
qed

lemma sim_gc: "sim P g s g (provider_gc P s)"
proof -
  let ?s1 = "with_store (snd (DeleteExpiredOAuth (pstore s) (pnow s) (pnow s - authRequestTTL) (pnow s - pg_UnusedClientTTL (pv_cfg P)))) s"
  let ?s2 = "snd (rotateKeys P False ?s1)"
  let ?s3 = "forgetCodes (pnow ?s2) ?s2"
  have one: "sim P g s g ?s1" by (rule sim_loses [OF DeleteExpiredOAuth_ok loses_cleanup])
  have h: "hushed ?s1 ?s2" by (rule rotateKeys_hushed [OF prod.collapse [symmetric]])
  have three: "sim P g s g ?s3" by (rule sim_trans [OF sim_trans [OF one sim_hushed [OF h]] sim_forget])
  have "pnow ?s2 = pnow s" using h by (simp add: hushed_def with_store_def)
  then have "provider_gc P s = ?s3\<lparr>ps_reg := regSweep hour (pnow s) (ps_reg ?s3)\<rparr>"
    unfolding provider_gc_def Let_def pop_snd by simp
  then show ?thesis using sim_trans [OF three sim_hushed [OF hushed_reg]] by simp
qed

lemma sim_engine:
  assumes "engine_moves (ps_env s) e"
  shows "sim P g s g (s\<lparr>ps_env := e\<rparr>)"
  unfolding sim_def
proof (intro impI)
  assume inv: "pinv P g s"
  let ?w = "world_of g s" and ?s = "s\<lparr>ps_env := e\<rparr>"
  note m = assms [unfolded engine_moves_def]
  have "pstep ?w (?w\<lparr>w_now := e_now e\<rparr>)" by (rule pstep.tick [OF _ refl]) (use m in \<open>simp add: world_of_def\<close>)
  moreover have "pstep (?w\<lparr>w_now := e_now e\<rparr>) (world_of g ?s)"
    by (rule pstep.shrink [of "w_req (world_of g ?s)" _ "w_gr (world_of g ?s)" "w_acc (world_of g ?s)" "w_ref (world_of g ?s)"])
      (use m in \<open>simp_all add: world_of_def\<close>)
  moreover have "pinv P g ?s" by (rule pinv_rand [OF inv]) (use m inv in \<open>simp_all add: pinv_def\<close>)
  ultimately show "pinv P g ?s \<and> psteps ?w (world_of g ?s)" by (meson converse_rtranclp_into_rtranclp r_into_rtranclp)
qed

section \<open>Refinement\<close>

lemma sim_app_approves:
  assumes "Approve P i sub d s = (y, s')"
  shows "sim P g s (log_approved {(sub, i)} g) s'"
  by (rule sim_trans [OF sim_log_approved sim_approve [OF assms]]) (simp add: log_approved_def)

lemma sim_simple:
  "DeleteAuthRequest i s = (x, s') \<Longrightarrow> sim P g s g s'"
  "client P i s = (z, s') \<Longrightarrow> sim P g s g s'"
  "register P r s = (a, s') \<Longrightarrow> sim P g s g s'"
  "RegisterClient P c s = (sec, u, s') \<Longrightarrow> sim P g s g s'"
  "currentKeys P s = (ks, s') \<Longrightarrow> sim P g s g s'"
  "rotateKeys P force s = (v, s') \<Longrightarrow> sim P g s g s'"
proof -
  show "DeleteAuthRequest i s = (x, s') \<Longrightarrow> sim P g s g s'"
    using sim_delete_request by (auto simp: DeleteAuthRequest_def pop_eq)
  show "client P i s = (z, s') \<Longrightarrow> sim P g s g s'"
    using sim_hushed [OF client_hushed [of s P i]] by simp
  show "register P r s = (a, s') \<Longrightarrow> sim P g s g s'"
    using sim_hushed [OF register_hushed [of s P r]] by simp
  show "RegisterClient P c s = (sec, u, s') \<Longrightarrow> sim P g s g s'"
    using sim_hushed [OF RegisterClient_hushed [of s P c]] by simp
qed (simp_all add: sim_hushed currentKeys_hushed rotateKeys_hushed)

lemma prov_step_sim:
  assumes "prov_step P a b" and "inj (\<lambda>k. randomIDAt P k 18)"
  shows "sim P (fst a) (snd a) (fst b) (snd b)"
  using assms
  by (induction rule: prov_step.induct)
    (simp_all add: sim_ask sim_by_code sim_save_code sim_by_refresh sim_set_scopes sim_access_token sim_both_tokens sim_login sim_consent
      sim_revocations sim_revoke_token sim_gc sim_engine sim_deny sim_app_approves sim_simple)

text \<open>
  The random identifiers of grants are never drawn twice and never empty; a provider starts on tables
  without requests, grants and tokens.
\<close>

definition random_ids :: "provider \<Rightarrow> bool" where
  "random_ids P \<longleftrightarrow> inj (\<lambda>k. randomIDAt P k 18) \<and> (\<forall>k. randomIDAt P k 18 \<noteq> [])"

definition fresh_provider :: "pstate \<Rightarrow> bool" where
  "fresh_provider s \<longleftrightarrow> oauth_ok (pstore s) \<and> st_oauthRequests (pstore s) = [] \<and> pgrants s = [] \<and>
     st_oauthAccess (pstore s) = [] \<and> st_oauthRefresh (pstore s) = [] \<and> ps_codes s = []"

lemma prov_run_sim:
  assumes "prov_run P a b" and "random_ids P" and "pinv P (fst a) (snd a)"
  shows "pinv P (fst b) (snd b) \<and> psteps (world_of (fst a) (snd a)) (world_of (fst b) (snd b))"
  using assms(1)
proof (induction rule: rtranclp_induct)
  case base
  then show ?case using assms(3) by simp
next
  case (step y z)
  then show ?case using prov_step_sim [OF step.hyps(2)] assms(2) by (auto simp: sim_def random_ids_def)
qed

lemma fresh_world:
  assumes "fresh_provider s"
  shows "pinv P no_log s" and "winv (world_of no_log s)" and "cinv (world_of no_log s)"
  using assms by (auto simp: fresh_provider_def pinv_def no_log_def winv_def cinv_def world_of_def)

lemma fresh_run:
  assumes "prov_run P (no_log, s0) (g, s)" and "random_ids P" and "fresh_provider s0"
  shows "pinv P g s" and "psteps (world_of no_log s0) (world_of g s)" and "winv (world_of g s)" and "cinv (world_of g s)"
proof -
  have r: "pinv P g s \<and> psteps (world_of no_log s0) (world_of g s)"
    using prov_run_sim [OF assms(1,2)] fresh_world(1) [OF assms(3)] by simp
  then show "pinv P g s" and "psteps (world_of no_log s0) (world_of g s)" by blast+
  with winv_run cinv_run fresh_world(2,3) [OF assms(3)] show "winv (world_of g s)" and "cinv (world_of g s)" by blast+
qed

end
