(* ===== verification/GrantLaws.thy ===== *)
theory GrantLaws
  imports GrantTrace AccountLaws
begin

text \<open>
  What holds of the tokens the provider issues, in every run: nothing is granted that was not approved, a
  replayed refresh token ends its grant for good, a code is exchanged once; and that an honest flow gets its
  token.
\<close>

section \<open>Nothing without approval\<close>

text \<open>What a verified token says, read off the tables.\<close>

lemma VerifyD:
  assumes "Verify P tok s = Inr v"
  shows "\<exists>i t gr. mget (st_oauthAccess (pstore s)) i = Some t \<and> mget (pgrants s) (oa_GrantID t) = Some gr \<and> og_RevokedAt gr = None \<and>
    (og_ExpiresAt gr = 0 \<or> pnow s \<le> og_ExpiresAt gr) \<and> pnow s < oa_ExpiresAt t \<and> vf_ID v = og_ID gr \<and> vf_ClientID v = oa_ClientID t \<and>
    vf_Subject v = oa_Subject t \<and> vf_Scopes v = oa_Scopes t \<and> vf_Resources v = og_Resources gr \<and> vf_ExpiresAt v = oa_ExpiresAt t"
  using assms
proof -
  note d = assms [unfolded Verify_def OAuthAccessToken_get_def OAuthGrant_get_def]
  obtain i t where t: "mget (st_oauthAccess (pstore s)) i = Some t" "pnow s < oa_ExpiresAt t" and
      e: "(case (case mget (pgrants s) (oa_GrantID t) of None \<Rightarrow> Err ErrOAuthNotFound | Some g \<Rightarrow> Ok g) of
         Inl _ \<Rightarrow> Err PInvalidToken
       | Inr g \<Rightarrow> if og_RevokedAt g \<noteq> None \<or> (og_ExpiresAt g \<noteq> 0 \<and> og_ExpiresAt g < pnow s) then Err PInvalidToken
           else Ok \<lparr>vf_ID = og_ID g, vf_ClientID = oa_ClientID t, vf_ClientName = clientName P (oa_ClientID t) s, vf_Subject = oa_Subject t,
             vf_Scopes = oa_Scopes t, vf_Resources = og_Resources g, vf_Ref = og_Ref g, vf_ExpiresAt = oa_ExpiresAt t\<rparr>) = Inr v"
    using d by (auto split: option.splits prod.splits if_splits) 
  from e t show ?thesis
    by (intro exI [of _ i] exI [of _ t]) (auto split: option.splits if_splits)
qed

lemma grant_of_token:
  assumes "winv (world_of g s)" and "mget (st_oauthAccess (pstore s)) i = Some t" and "mget (pgrants s) (oa_GrantID t) = Some gr"
  shows "og_ID gr = oa_GrantID t \<and> oa_ClientID t = og_ClientID gr \<and> oa_Subject t = og_Subject gr \<and> set (oa_Scopes t) \<subseteq> set (og_Scopes gr) \<and>
    within_end (oa_ExpiresAt t) gr \<and> grant_ok (world_of g s) gr"
proof -
  note d = winvD [OF assms(1)]
  have "w_acc (world_of g s) i = Some t" "w_gr (world_of g s) (oa_GrantID t) = Some gr" using assms(2,3) by (simp_all add: world_of_def)
  note d7 = d(7) [OF this(1)] and d6 = d(6) [OF this(2)]
  from d6 obtain g0 where g0: "og_ID gr = oa_GrantID t" "g0 \<in> w_grants (world_of g s)" "same_grant g0 gr" by blast
  from d7 obtain g1 where g1: "g1 \<in> w_grants (world_of g s)" "og_ID g1 = oa_GrantID t" "og_ClientID g1 = oa_ClientID t"
      "og_Subject g1 = oa_Subject t" "set (oa_Scopes t) \<subseteq> set (og_Scopes g1)" "within_end (oa_ExpiresAt t) g1"
    by (auto simp: under_def)
  have "g1 = g0" using inj_onD [OF d(5), of g1 g0] g0 g1(1,2) same_grantD(1) [OF g0(3)] by simp
  with g0 g1 d(4) [OF g0(2)] same_grantD [OF g0(3)] show ?thesis
    by (simp add: within_end_def grant_ok_def)
qed

text \<open>
  C3: A token that verifies was approved: its subject approved a request of its client, on the consent screen or
  by logging in where there is none, and the token's scopes and resources are within that request. It is
  short of its own end and not longer than the approval allows.
\<close>

theorem verified_was_approved:
  assumes "random_ids P" and "fresh_provider s0" and "prov_run P (no_log, s0) (g, s)" and "Verify P tok s = Inr v"
  shows "pnow s < vf_ExpiresAt v \<and> (\<exists>a \<in> pl_asked g. (vf_Subject v, or_ID a) \<in> pl_approved g \<and> or_ClientID a = vf_ClientID v \<and>
    set (vf_Scopes v) \<subseteq> set (or_Scopes a) \<and> or_Resources a = vf_Resources v)"
proof -
  note w = fresh_run(3) [OF assms(3,1,2)]
  from VerifyD [OF assms(4)] obtain i t gr where t: "mget (st_oauthAccess (pstore s)) i = Some t" "mget (pgrants s) (oa_GrantID t) = Some gr"
      "pnow s < oa_ExpiresAt t" and v: "vf_ClientID v = oa_ClientID t" "vf_Subject v = oa_Subject t" "vf_Scopes v = oa_Scopes t"
      "vf_Resources v = og_Resources gr" "vf_ExpiresAt v = oa_ExpiresAt t" by blast
  from grant_of_token [OF w t(1,2)] have gt: "oa_ClientID t = og_ClientID gr" "oa_Subject t = og_Subject gr"
      "set (oa_Scopes t) \<subseteq> set (og_Scopes gr)" "grant_ok (world_of g s) gr" by blast+
  from gt(4) obtain a where "a \<in> pl_asked g" "(og_Subject gr, or_ID a) \<in> pl_approved g" "or_ClientID a = og_ClientID gr"
      "set (og_Scopes gr) \<subseteq> set (or_Scopes a)" "or_Resources a = og_Resources gr"
    by (auto simp: grant_ok_def approved_for_def world_of_def)
  with gt(1,2,3) v t(3) show ?thesis by (auto intro!: bexI [of _ a])
qed

section \<open>Dead grants\<close>

lemma dead_refused:
  assumes "dead i (world_of g s)" and "winv (world_of g s)"
  shows "Verify P tok s = Inr v \<Longrightarrow> vf_ID v \<noteq> i"
    and "TokenRequestByRefreshToken P tok s = (Inr rr, s') \<Longrightarrow> og_ID (rr_grant rr) \<noteq> i"
    and "SetIntrospectionFromToken tid sub s = Inr w \<Longrightarrow> OAuthAccessToken_get (pstore s) tid = Inr t \<Longrightarrow> oa_GrantID t \<noteq> i"
proof -
  have no: "og_RevokedAt gr \<noteq> None" if "mget (pgrants s) i = Some gr" for gr
    using assms(1) that by (simp add: dead_def world_of_def)
  have key: "og_ID gr = k" if "mget (pgrants s) k = Some gr" for k gr
    using winvD(6) [OF assms(2), of k gr] that by (simp add: world_of_def)
  show "vf_ID v \<noteq> i" if "Verify P tok s = Inr v"
    using VerifyD [OF that] no key by fastforce
  show "og_ID (rr_grant rr) \<noteq> i" if r: "TokenRequestByRefreshToken P tok s = (Inr rr, s')"
  proof -
    note d = r [unfolded TokenRequestByRefreshToken_def]
    obtain t where t: "OAuthRefreshToken_get (pstore s) (tokenHash P tok) = Inr t"
      using d by (cases "OAuthRefreshToken_get (pstore s) (tokenHash P tok)") simp_all
    have u: "ot_UsedAt t = None" "\<not> ot_ExpiresAt t < pnow s"
      using d t by (cases "ot_UsedAt t"; cases "ot_ExpiresAt t < pnow s"; simp)+
    obtain gr where gr: "OAuthGrant_get (pstore s) (ot_GrantID t) = Inr gr"
      using d t u by (cases "OAuthGrant_get (pstore s) (ot_GrantID t)") simp_all
    have l: "live P gr s = Inr ()" using d t u gr by (cases "live P gr s") simp_all
    have "rr_grant rr = gr" using d t u gr l by auto
    moreover have "og_RevokedAt gr = None" using l by (auto simp: live_def split: if_splits)
    moreover have "mget (pgrants s) (ot_GrantID t) = Some gr" using gr by (simp add: OAuthGrant_get_def split: option.splits)
    ultimately show ?thesis using no key by metis
  qed
  show "oa_GrantID t \<noteq> i" if "SetIntrospectionFromToken tid sub s = Inr w" "OAuthAccessToken_get (pstore s) tid = Inr t"
    using that no by (auto simp: SetIntrospectionFromToken_def OAuthGrant_get_def split: sum.splits option.splits if_splits)
qed

lemma revokeGrant_dead:
  assumes "i \<in> og_ID ` pl_grants g" and "i \<noteq> []" and "winv (world_of g s)"
  shows "dead i (world_of g (revokeGrant i s))"
proof -
  let ?f = "grant_filter\<lparr>gf_ID := i\<rparr>"
  have f: "\<not> filter_Empty ?f" using assms(2) by (simp add: filter_Empty_def)
  have "og_RevokedAt gr \<noteq> None" if "mget (pgrants (revokeGrant i s)) i = Some gr" for gr
  proof -
    from that f obtain x where x: "mget (pgrants s) i = Some x" "gr = (if grant_skipped ?f x then x else x\<lparr>og_RevokedAt := Some (pnow s)\<rparr>)"
      by (auto simp: revokeGrant_def pop_snd with_store_def RevokeOAuthGrants_def)
    moreover have "og_ID x = i" using winvD(6) [OF assms(3), of i x] x(1) by (simp add: world_of_def)
    ultimately show ?thesis by (auto simp: grant_skipped_def grant_filter_def)
  qed
  with assms(1) show ?thesis by (auto simp: dead_def world_of_def)
qed

text \<open>
  C4: Presenting a used refresh token fails and ends its grant for good: whatever happens afterwards, no token
  of the grant verifies or introspects as active and no refresh token of it is accepted, because no later
  operation revives a grant or makes another under its identifier.
\<close>

theorem replay_ends_grant:
  assumes "random_ids P" and "fresh_provider s0" and "prov_run P (no_log, s0) (g, s)"
    and "OAuthRefreshToken_get (pstore s) (tokenHash P tok) = Inr t" and "ot_UsedAt t \<noteq> None"
    and "TokenRequestByRefreshToken P tok s = (x, s1)" and "prov_run P (g, s1) (g', s')"
  shows "x = Err PInvalidRefreshToken \<and> (\<forall>tok v. Verify P tok s' = Inr v \<longrightarrow> vf_ID v \<noteq> ot_GrantID t) \<and>
    (\<forall>tok rr s2. TokenRequestByRefreshToken P tok s' = (Inr rr, s2) \<longrightarrow> og_ID (rr_grant rr) \<noteq> ot_GrantID t) \<and>
    (\<forall>tid sub w u. SetIntrospectionFromToken tid sub s' = Inr w \<longrightarrow> OAuthAccessToken_get (pstore s') tid = Inr u \<longrightarrow>
       oa_GrantID u \<noteq> ot_GrantID t)"
proof -
  let ?i = "ot_GrantID t"
  note r = fresh_run [OF assms(3,1,2)]
  have x: "x = Err PInvalidRefreshToken" "s1 = revokeGrant ?i s"
    using assms(4,5,6) by (auto simp: TokenRequestByRefreshToken_def)
  have "mget (st_oauthRefresh (pstore s)) (tokenHash P tok) = Some t"
    using assms(4) by (simp add: OAuthRefreshToken_get_def split: option.splits)
  then have "under (world_of g s) ?i (ot_ClientID t) (ot_Subject t) (ot_Scopes t) (ot_ExpiresAt t)"
    using winvD(8) [OF r(3)] by (simp add: world_of_def)
  then have i: "?i \<in> og_ID ` pl_grants g" by (force simp: under_def world_of_def)
  moreover have "?i \<noteq> []" using i r(1) assms(1) unfolding pinv_def random_ids_def by (metis imageE)
  ultimately have d: "dead ?i (world_of g s1)" using revokeGrant_dead r(3) by (simp add: x(2))
  have one: "pinv P g s1 \<and> psteps (world_of g s) (world_of g s1)"
    using sim_revoke r(1) unfolding x(2) revokeGrant_def pop_snd sim_def by blast
  with prov_run_sim [OF assms(7,1)] have two: "psteps (world_of g s1) (world_of g' s')" by simp
  have d': "dead ?i (world_of g' s')" by (rule dead_run [OF two d])
  have "winv (world_of g' s')" using winv_run [OF two winv_run [OF conjunct2 [OF one] r(3)]] .
  from dead_refused [OF d' this] x(1) show ?thesis by blast
qed

section \<open>Codes\<close>

text \<open>
  C5: A code is exchanged once. After a successful exchange every later attempt with the same code fails,
  whatever happens in between: the process forgets used codes only after the lifetime of the request they
  stand for.
\<close>

theorem code_single_use:
  assumes "random_ids P" and "fresh_provider s0" and "prov_run P (no_log, s0) (g, s)"
    and "AuthRequestByCode P c s = (Inr r, s1)" and "prov_run P (log_held AuthReq (Inr r) g, s1) (g', s')"
    and "AuthRequestByCode P c s' = (x, s2)"
  shows "\<exists>e. x = Inl e"
proof (rule ccontr)
  assume "\<not> (\<exists>e. x = Inl e)"
  then obtain r' where r': "x = Inr r'" by (cases x) auto
  let ?h = "tokenHash P c" and ?w = "world_of (log_held AuthReq (Inr r) g) s1"
  note f = fresh_run [OF assms(3,1,2)]
  have ok: "oauth_ok (pstore s)" using f(1) by (simp add: pinv_def)
  from by_codeD [OF assms(4) ok] obtain i where c: "?h \<noteq> []" "or_CodeHash r = ?h" "mget (st_oauthRequests (pstore s)) i = Some r"
      "s1 = s\<lparr>ps_codes := mput ?h (pnow s) (ps_codes s)\<rparr>" by blast
  have "or_CodeHash r \<noteq> [] \<longrightarrow> or_CodeHash r \<in> pl_issued g" using f(4) c(3) unfolding cinv_def by (simp add: world_of_def)
  then have "?h \<in> pl_issued g" using c(1,2) by simp
  moreover have "or_CreatedAt q \<le> pnow s" if "mget (st_oauthRequests (pstore s)) j = Some q" for j q
    using f(4) that by (auto simp: cinv_def world_of_def)
  ultimately have spent: "spent ?h (pnow s) ?w"
    using c(1) by (auto simp: spent_def world_of_def log_held_def c(4))
  have "sim P g s (log_held AuthReq (Inr r) g) s1" by (rule sim_by_code [OF assms(4)])
  then have "pinv P (log_held AuthReq (Inr r) g) s1" using f(1) by (simp add: sim_def)
  with prov_run_sim [OF assms(5,1)] have p: "pinv P g' s'" "psteps ?w (world_of g' s')" by simp_all
  have s: "spent ?h (pnow s) (world_of g' s')" by (rule spent_run [OF p(2) spent])
  from p(1) have ok': "oauth_ok (pstore s')" by (simp add: pinv_def)
  from by_codeD [OF assms(6) [unfolded r'] ok'] obtain j where "mget (ps_codes s') ?h = None" "or_CodeHash r' = ?h"
      "pnow s' - or_CreatedAt r' \<le> authRequestTTL" "mget (st_oauthRequests (pstore s')) j = Some r'" by blast
  with spent_refused [OF s, of j r'] show False by (simp add: world_of_def)
qed

section \<open>The provider refines the protocol\<close>

text \<open>
  C6: Every run of the provider from empty tables is a run of the abstract protocol of grants, whose steps can
  be read without the code, and keeps its invariant: requests only narrow, grants stem from approved
  requests, tokens stay within their grants, identifiers of grants are not reused.
\<close>

theorem provider_refines_protocol:
  assumes "random_ids P" and "fresh_provider s0" and "prov_run P (no_log, s0) (g, s)"
  shows "psteps (world_of no_log s0) (world_of g s) \<and> winv (world_of g s)"
  using fresh_run [OF assms(3,1,2)] by blast

section \<open>An honest flow\<close>

lemma sessionOf_same:
  "e_now e' = e_now e \<Longrightarrow> st_sessions (e_store e') = st_sessions (e_store e) \<Longrightarrow> sessionOf A r e' = sessionOf A r e"
  by (simp add: sessionOf_def sessionRevoked_def IsRevoked_def split: option.split)

lemma authUserBySub_same:
  "e_now e' = e_now e \<Longrightarrow> st_users (e_store e') = st_users (e_store e) \<Longrightarrow> authUserBySub A sub e' = authUserBySub A sub e"
  by (simp add: authUserBySub_def UserBySub_def findBySub_def split: option.split)

lemma TTL_nonneg: "0 \<le> authRequestTTL" "0 \<le> codeTTL"
  by (simp_all add: authRequestTTL_def codeTTL_def minute_def second_ns_def)

text \<open>The state with other requests, grants and access tokens, after some random values.\<close>

definition flow_state :: "pstate \<Rightarrow> nat \<Rightarrow> (string, OAuthAuthRequest) gomap \<Rightarrow> (string, OAuthGrant) gomap \<Rightarrow>
    (string, OAuthAccessToken) gomap \<Rightarrow> pstate" where
  "flow_state s k q gs ts = s\<lparr>ps_env := (ps_env s)\<lparr>e_rand := e_rand (ps_env s) + k,
     e_store := (pstore s)\<lparr>st_oauthRequests := q, st_oauthGrants := gs, st_oauthAccess := ts\<rparr>\<rparr>\<rparr>"

lemma flow_state_simps [simp]:
  "pnow (flow_state s k q gs ts) = pnow s" "st_oauthRequests (pstore (flow_state s k q gs ts)) = q" "pgrants (flow_state s k q gs ts) = gs"
  "st_oauthAccess (pstore (flow_state s k q gs ts)) = ts" "st_oauthClients (pstore (flow_state s k q gs ts)) = st_oauthClients (pstore s)"
  "ps_codes (flow_state s k q gs ts) = ps_codes s" "e_rand (ps_env (flow_state s k q gs ts)) = e_rand (ps_env s) + k"
  "st_users (pstore (flow_state s k q gs ts)) = st_users (pstore s)" "st_sessions (pstore (flow_state s k q gs ts)) = st_sessions (pstore s)"
  "st_oauthRefresh (pstore (flow_state s k q gs ts)) = st_oauthRefresh (pstore s)"
  by (simp_all add: flow_state_def)

lemma save_flow:
  "pop (\<lambda>st. SaveOAuthAuthRequest st r) (flow_state s k q gs ts) = (Ok (), flow_state s k (mput (or_ID r) r q) gs ts)"
  by (simp add: pop_eq with_store_def SaveOAuthAuthRequest_def flow_state_def)

lemma flow_session [simp]: "sessionOf A r (ps_env (flow_state s k q gs ts)) = sessionOf A r (ps_env s)"
  by (rule sessionOf_same) simp_all

lemma flow_user [simp]: "authUserBySub A sub (ps_env (flow_state s k q gs ts)) = authUserBySub A sub (ps_env s)"
  by (rule authUserBySub_same) simp_all

lemma random_flow:
  "randomID P n (flow_state s k q gs ts) = (randomIDAt P (e_rand (ps_env s) + k) n, flow_state s (Suc k) q gs ts)"
  by (simp add: randomID_def Let_def flow_state_def)

lemma mput_one [simp]: "mput k v [] = [(k, v)]" "mput k v [(k, v')] = [(k, v)]"
  by (simp_all add: mput_def)

lemma flow_of_fresh: "fresh_provider s \<Longrightarrow> s = flow_state s 0 [] [] []"
  by (simp add: flow_state_def fresh_provider_def)

lemma request_flow:
  assumes "or_CreatedAt r = pnow s"
  shows "request_at (pnow s) i (pstore (flow_state s k [(i, r)] gs ts)) = Inr r"
  using assms TTL_nonneg by (simp add: request_at_def OAuthAuthRequest_get_def)

lemma flow_ask:
  assumes "\<not> metadataClient P (ar_ClientID ar)" and "OAuthClient_get (pstore s) (ar_ClientID ar) = Inr c" and "oc_AuthMethod c \<noteq> ''none''"
    and "ar_CodeChallenge ar = []" and "fresh_provider s"
  defines "i \<equiv> randomIDAt P (e_rand (ps_env s)) 24"
  shows "\<exists>r. CreateAuthRequest P ar res s = (Inr r, flow_state s 1 [(i, r)] [] []) \<and> or_ID r = i \<and> or_ClientID r = ar_ClientID ar \<and>
    or_Resources r = res \<and> or_Prompt r = ar_Prompt ar \<and> or_CreatedAt r = pnow s \<and> \<not> or_Done r \<and> set (ar_Scopes ar) \<subseteq> set (or_Scopes r)"
proof -
  have c: "client P (ar_ClientID ar) s = (Ok c, s)" using assms(1,2) by (simp add: client_def)
  have r: "randomID P 24 s = (i, flow_state s 1 [] [] [])"
    using random_flow [of P 24 s 0 "[]" "[]" "[]"] flow_of_fresh [OF assms(5)] by (simp add: i_def)
  define q where "q = \<lparr>or_ID = i, or_ClientID = ar_ClientID ar, or_RedirectURI = ar_RedirectURI ar, or_State = ar_State ar,
             or_Nonce = ar_Nonce ar, or_Scopes = ar_Scopes ar @ (if List.member (oc_GrantTypes c) ''refresh_token'' \<and> \<not> List.member (ar_Scopes ar) ''offline_access''
             then [''offline_access''] else []), or_ResponseType = ar_ResponseType ar, or_ResponseMode = ar_ResponseMode ar,
             or_CodeChallenge = ar_CodeChallenge ar, or_CodeChallengeMethod = ar_CodeChallengeMethod ar, or_Resources = res,
             or_Prompt = ar_Prompt ar, or_Subject = [], or_Ref = [], or_GrantExpiresAt = 0, or_AuthTime = 0, or_Done = False,
             or_CodeHash = [], or_CodeAt = 0, or_CreatedAt = pnow (flow_state s 1 [] [] [])\<rparr>"
  have "or_CodeChallenge q = []" "or_ID q = i" using assms(4) by (simp_all add: q_def)
  then have "CreateAuthRequest P ar res s = (Inr q, flow_state s 1 [(i, q)] [] [])"
    unfolding CreateAuthRequest_def c Let_def prod.case sum.case r q_def [symmetric] save_flow using assms(3) by simp
  then show ?thesis by (intro exI [of _ q]) (auto simp: q_def)
qed

lemma flow_login:
  assumes "or_ID r = i" and "or_CreatedAt r = pnow s" and "\<not> or_Done r" and "\<not> List.member (or_Prompt r) ''none''"
    and "attr (rq_query rq) ''id'' = i" and "sessionOf (pv_auth P) rq (ps_env s) = Some sc"
    and "authUserBySub (pv_auth P) (sc_Subject sc) (ps_env s) = Inr u" and "pg_ConsentURL (pv_cfg P) = Some f"
  shows "login P rq (flow_state s 1 [(i, r)] [] []) = (Redirect (f i), flow_state s 1 [(i, r\<lparr>or_Subject := sc_Subject sc\<rparr>)] [] [])"
  using assms request_flow [OF assms(2), of i 1 "[]" "[]"] save_flow [of "r\<lparr>or_Subject := sc_Subject sc\<rparr>" s 1 "[(i, r)]" "[]" "[]"]
  by (simp add: login_def Let_def)

lemma flow_approve:
  assumes "or_ID r = i" and "or_CreatedAt r = pnow s" and "\<not> or_Done r" and "or_Subject r = sub" and "sub \<noteq> []"
  shows "\<exists>to. Approve P i sub \<lparr>dc_Scopes = None, dc_Ref = [], dc_Expires = 0\<rparr> (flow_state s 1 [(i, r)] [] []) =
    (Inr to, flow_state s 1 [(i, r\<lparr>or_Done := True, or_Ref := [], or_GrantExpiresAt := 0, or_AuthTime := pnow s\<rparr>)] [] [])"
proof -
  let ?r = "r\<lparr>or_Done := True, or_Ref := [], or_GrantExpiresAt := 0, or_AuthTime := pnow s\<rparr>"
  have "own_request i sub (flow_state s 1 [(i, r)] [] []) = Inr r"
    using assms request_flow [OF assms(2), of i 1 "[]" "[]"] by (simp add: own_request_def)
  moreover have "r\<lparr>or_Scopes := granted_scopes None (or_Scopes r), or_Done := True, or_Ref := [], or_GrantExpiresAt := 0, or_AuthTime := pnow s\<rparr> = ?r"
    by (simp add: granted_scopes_def)
  ultimately show ?thesis
    using assms(1) save_flow [of ?r s 1 "[(i, r)]" "[]" "[]"] by (simp add: Approve_def)
qed

lemma flow_code:
  assumes "or_ID r = i" and "or_CreatedAt r = pnow s"
  shows "SaveAuthCode P i code (flow_state s 1 [(i, r)] [] []) =
    (Ok (), flow_state s 1 [(i, r\<lparr>or_CodeHash := tokenHash P code, or_CodeAt := pnow s\<rparr>)] [] [])"
  using assms request_flow [OF assms(2), of i 1 "[]" "[]"]
    save_flow [of "r\<lparr>or_CodeHash := tokenHash P code, or_CodeAt := pnow s\<rparr>" s 1 "[(i, r)]" "[]" "[]"]
  by (simp add: SaveAuthCode_def)

lemma flow_exchange:
  assumes "or_CreatedAt r = pnow s" and "or_CodeAt r = pnow s" and "or_CodeHash r = tokenHash P code" and "tokenHash P code \<noteq> []"
    and "or_Done r" and "ps_codes s = []"
  shows "AuthRequestByCode P code (flow_state s 1 [(i, r)] [] []) =
    (Inr r, (flow_state s 1 [(i, r)] [] [])\<lparr>ps_codes := [(tokenHash P code, pnow s)]\<rparr>)"
  using assms TTL_nonneg by (simp add: AuthRequestByCode_def Let_def OAuthAuthRequestByCode_def mfind_def)

text \<open>The grant and the access token issued for an approved request that is exchanged.\<close>

definition flow_grant :: "provider \<Rightarrow> pstate \<Rightarrow> OAuthAuthRequest \<Rightarrow> OAuthGrant" where
  "flow_grant P s r = \<lparr>og_ID = randomIDAt P (e_rand (ps_env s) + 1) 18, og_ClientID = or_ClientID r, og_Subject = or_Subject r,
     og_Scopes = or_Scopes r, og_Resources = or_Resources r, og_Ref = or_Ref r, og_AuthTime = or_AuthTime r,
     og_CreatedAt = pnow s, og_ExpiresAt = or_GrantExpiresAt r, og_RevokedAt = None\<rparr>"

definition flow_token :: "provider \<Rightarrow> pstate \<Rightarrow> OAuthAuthRequest \<Rightarrow> OAuthAccessToken" where
  "flow_token P s r = \<lparr>oa_ID = randomIDAt P (e_rand (ps_env s) + 2) 18, oa_GrantID = og_ID (flow_grant P s r),
     oa_ClientID = or_ClientID r, oa_Subject = or_Subject r, oa_Scopes = or_Scopes r,
     oa_ExpiresAt = capTime (pnow s + pg_AccessTokenTTL (pv_cfg P)) (or_GrantExpiresAt r), oa_CreatedAt = pnow s\<rparr>"

lemma flow_grantFor:
  assumes "or_Done r" and "authUserBySub (pv_auth P) (or_Subject r) (ps_env s) = Inr u"
  shows "grantFor P (AuthReq r) (flow_state s 1 q [] []) = (Ok (flow_grant P s r), flow_state s 2 q [(og_ID (flow_grant P s r), flow_grant P s r)] [])"
proof -
  let ?gr = "flow_grant P s r" and ?j = "randomIDAt P (e_rand (ps_env s) + 1) 18"
  have r1: "randomID P 18 (flow_state s 1 q [] []) = (?j, flow_state s 2 q [] [])" by (simp add: random_flow numeral_2_eq_2)
  have gr: "\<lparr>og_ID = ?j, og_ClientID = or_ClientID r, og_Subject = or_Subject r, og_Scopes = or_Scopes r, og_Resources = or_Resources r,
      og_Ref = or_Ref r, og_AuthTime = or_AuthTime r, og_CreatedAt = pnow (flow_state s 2 q [] []), og_ExpiresAt = or_GrantExpiresAt r,
      og_RevokedAt = None\<rparr> = ?gr" by (simp add: flow_grant_def)
  have u: "userOK P (or_Subject r) (flow_state s 1 q [] []) = Ok ()" by (simp add: userOK_def assms(2))
  have "pop (\<lambda>st. CreateOAuthGrant st ?gr) (flow_state s 2 q [] []) = (Ok (), flow_state s 2 q [(og_ID ?gr, ?gr)] [])"
    by (simp add: pop_eq with_store_def CreateOAuthGrant_def flow_state_def)
  then show ?thesis unfolding grantFor_def tokenRequest.case r1 prod.case Let_def gr u using assms(1) by simp
qed

lemma flow_accessToken:
  "\<exists>s'. accessToken P (flow_grant P s r) (or_Scopes r) (flow_state s 2 q [(og_ID (flow_grant P s r), flow_grant P s r)] []) =
      (Ok (oa_ID (flow_token P s r), oa_ExpiresAt (flow_token P s r)), s') \<and>
    st_oauthAccess (pstore s') = [(oa_ID (flow_token P s r), flow_token P s r)] \<and> pgrants s' = [(og_ID (flow_grant P s r), flow_grant P s r)] \<and>
    st_oauthRefresh (pstore s') = st_oauthRefresh (pstore s) \<and> pnow s' = pnow s \<and> st_users (pstore s') = st_users (pstore s)"
proof -
  let ?gr = "flow_grant P s r" and ?t = "flow_token P s r" and ?l = "randomIDAt P (e_rand (ps_env s) + 2) 18"
  let ?a = "flow_state s 3 q [(og_ID ?gr, ?gr)] []" and ?s = "flow_state s 3 q [(og_ID ?gr, ?gr)] [(oa_ID ?t, ?t)]"
  let ?s' = "if metadataClient P (og_ClientID ?gr) then ?s else snd (pop (\<lambda>st. TouchOAuthClient st (og_ClientID ?gr) (pnow ?s)) ?s)"
  have r2: "randomID P 18 (flow_state s 2 q [(og_ID ?gr, ?gr)] []) = (?l, ?a)" by (simp add: random_flow numeral_3_eq_3)
  have t: "\<lparr>oa_ID = ?l, oa_GrantID = og_ID ?gr, oa_ClientID = og_ClientID ?gr, oa_Subject = og_Subject ?gr, oa_Scopes = or_Scopes r,
      oa_ExpiresAt = capTime (pnow ?a + pg_AccessTokenTTL (pv_cfg P)) (og_ExpiresAt ?gr), oa_CreatedAt = pnow ?a\<rparr> = ?t"
    by (simp add: flow_token_def flow_grant_def)
  have "pop (\<lambda>st. CreateOAuthAccessToken st ?t) ?a = (Ok (), ?s)"
    by (simp add: pop_eq with_store_def CreateOAuthAccessToken_def flow_state_def)
  then have "accessToken P ?gr (or_Scopes r) (flow_state s 2 q [(og_ID ?gr, ?gr)] []) = (Ok (oa_ID ?t, oa_ExpiresAt ?t), ?s')"
    unfolding accessToken_def r2 prod.case Let_def t by simp
  moreover have "st_oauthAccess (pstore ?s') = [(oa_ID ?t, ?t)] \<and> pgrants ?s' = [(og_ID ?gr, ?gr)] \<and>
      st_oauthRefresh (pstore ?s') = st_oauthRefresh (pstore s) \<and> pnow ?s' = pnow s \<and> st_users (pstore ?s') = st_users (pstore s)"
    by (auto simp: pop_snd with_store_def TouchOAuthClient_def split: option.split)
  ultimately show ?thesis by blast
qed

lemma flow_tokens:
  assumes "or_Done r" and "or_GrantExpiresAt r = 0" and "authUserBySub (pv_auth P) (or_Subject r) (ps_env s) = Inr u"
  defines "l \<equiv> randomIDAt P (e_rand (ps_env s) + 2) 18"
  shows "\<exists>s' t gr exp. CreateAccessToken P (AuthReq r) (flow_state s 1 q [] []) = (Inr (l, exp), s') \<and> mget (st_oauthAccess (pstore s')) l = Some t \<and>
    mget (pgrants s') (oa_GrantID t) = Some gr \<and> pnow s' = pnow s \<and> oa_ClientID t = or_ClientID r \<and> oa_Subject t = or_Subject r \<and>
    oa_Scopes t = or_Scopes r \<and> oa_ExpiresAt t = pnow s + pg_AccessTokenTTL (pv_cfg P) \<and> og_RevokedAt gr = None \<and> og_ExpiresAt gr = 0 \<and>
    og_Resources gr = or_Resources r"
proof -
  let ?gr = "flow_grant P s r" and ?t = "flow_token P s r"
  obtain s' where a: "accessToken P ?gr (or_Scopes r) (flow_state s 2 q [(og_ID ?gr, ?gr)] []) = (Ok (oa_ID ?t, oa_ExpiresAt ?t), s')"
    and s': "st_oauthAccess (pstore s') = [(oa_ID ?t, ?t)]" "pgrants s' = [(og_ID ?gr, ?gr)]" "pnow s' = pnow s"
    using flow_accessToken [of P s r q] by blast
  have "CreateAccessToken P (AuthReq r) (flow_state s 1 q [] []) = (Ok (oa_ID ?t, oa_ExpiresAt ?t), s')"
    unfolding CreateAccessToken_def flow_grantFor [OF assms(1,3)] prod.case sum.case by (simp only: req_scopes.simps a)
  with s' assms(2) show ?thesis
    by (intro exI [of _ s'] exI [of _ ?t] exI [of _ ?gr] exI [of _ "oa_ExpiresAt ?t"]) (simp add: flow_token_def flow_grant_def l_def capTime_def)
qed

text \<open>With a refresh token, which can be presented once and is used up by the rotation.\<close>

lemma flow_refresh:
  assumes "or_Done r" and "or_GrantExpiresAt r = 0" and "authUserBySub (pv_auth P) (or_Subject r) (ps_env s) = Inr u"
    and "st_oauthRefresh (pstore s) = []" and "0 \<le> pg_RefreshTokenTTL (pv_cfg P)"
  shows "\<exists>i tok exp s' rr. CreateAccessAndRefreshTokens P (AuthReq r) [] (flow_state s 1 q [] []) = (Inr (i, tok, exp), s') \<and> tok \<noteq> [] \<and>
    TokenRequestByRefreshToken P tok s' = (Inr rr, s')"
proof -
  let ?gr = "flow_grant P s r" and ?t = "flow_token P s r"
  obtain s1 where a: "accessToken P ?gr (or_Scopes r) (flow_state s 2 q [(og_ID ?gr, ?gr)] []) = (Ok (oa_ID ?t, oa_ExpiresAt ?t), s1)"
    and s1: "pgrants s1 = [(og_ID ?gr, ?gr)]" "st_oauthRefresh (pstore s1) = []" "pnow s1 = pnow s" "st_users (pstore s1) = st_users (pstore s)"
    using flow_accessToken [of P s r q] assms(4) by auto
  have rot: "rotated P (AuthReq r) [] (flow_state s 1 q [] []) = (Ok ?gr, flow_state s 2 q [(og_ID ?gr, ?gr)] [])"
    by (simp add: rotated_def flow_grantFor [OF assms(1,3), simplified])
  obtain x s2 where x: "randomID P 32 s1 = (x, s2)" by (cases "randomID P 32 s1")
  have s2: "pstore s2 = pstore s1" "pnow s2 = pnow s1" using x by (auto simp: randomID_def Let_def)
  let ?tok = "''rt_'' @ x"
  define rt where "rt = \<lparr>ot_Hash = tokenHash P ?tok, ot_GrantID = og_ID ?gr, ot_ClientID = og_ClientID ?gr, ot_Subject = og_Subject ?gr,
               ot_Scopes = or_Scopes r, ot_ExpiresAt = capTime (pnow s2 + pg_RefreshTokenTTL (pv_cfg P)) (og_ExpiresAt ?gr),
               ot_CreatedAt = pnow s2, ot_UsedAt = None\<rparr>"
  let ?s' = "with_store ((pstore s2)\<lparr>st_oauthRefresh := [(ot_Hash rt, rt)]\<rparr>) s2"
  have "pop (\<lambda>st. CreateOAuthRefreshToken st rt) s2 = (Ok (), ?s')"
    using s1(2) s2 by (simp add: pop_eq CreateOAuthRefreshToken_def)
  then have c: "CreateAccessAndRefreshTokens P (AuthReq r) [] (flow_state s 1 q [] []) = (Ok (oa_ID ?t, ?tok, oa_ExpiresAt ?t), ?s')"
    unfolding CreateAccessAndRefreshTokens_def rot prod.case sum.case req_scopes.simps a x Let_def rt_def [symmetric] by simp
  have u: "authUserBySub (pv_auth P) (or_Subject r) (ps_env ?s') = Inr u"
    using authUserBySub_same [of "ps_env ?s'" "ps_env s"] s1(3,4) s2 assms(3) by (simp add: with_store_def)
  have rt: "ot_Hash rt = tokenHash P ?tok" "ot_UsedAt rt = None" "ot_GrantID rt = og_ID ?gr" "ot_ExpiresAt rt = pnow s + pg_RefreshTokenTTL (pv_cfg P)"
    using s1(3) s2(2) assms(2) by (simp_all add: rt_def flow_grant_def capTime_def)
  have "OAuthRefreshToken_get (pstore ?s') (tokenHash P ?tok) = Ok rt"
    by (simp add: OAuthRefreshToken_get_def with_store_def rt(1))
  moreover have "OAuthGrant_get (pstore ?s') (ot_GrantID rt) = Ok ?gr"
    using s1(1) s2(1) by (simp add: OAuthGrant_get_def with_store_def rt(3))
  moreover have "live P ?gr ?s' = Ok ()"
    using u assms(2) by (simp add: live_def userOK_def flow_grant_def)
  ultimately have "TokenRequestByRefreshToken P ?tok ?s' = (Ok \<lparr>rr_token = rt, rr_grant = ?gr, rr_scopes = ot_Scopes rt\<rparr>, ?s')"
    using assms(5) rt s1(3) s2(2) by (simp add: TokenRequestByRefreshToken_def with_store_def)
  with c show ?thesis by blast
qed

lemma accessToken_keeps: "st_oauthRefresh (pstore (snd (accessToken P g sc s))) = st_oauthRefresh (pstore s)"
  by (simp add: accessToken_def Let_def pop_eq with_store_def randomID_def CreateOAuthAccessToken_def TouchOAuthClient_def split: option.split)

lemma rotation_uses:
  assumes "TokenRequestByRefreshToken P tok s = (Inr rr, s)" and "tok \<noteq> []" and "CreateAccessAndRefreshTokens P (RefreshReq rr) tok s = (x, s')"
  shows "\<exists>t. OAuthRefreshToken_get (pstore s') (tokenHash P tok) = Inr t \<and> ot_UsedAt t \<noteq> None"
proof -
  let ?h = "tokenHash P tok" and ?used = "\<lambda>s. \<exists>t. mget (st_oauthRefresh (pstore s)) (tokenHash P tok) = Some t \<and> ot_UsedAt t \<noteq> None"
  note d = assms(1) [unfolded TokenRequestByRefreshToken_def]
  obtain t where t: "mget (st_oauthRefresh (pstore s)) ?h = Some t" "ot_UsedAt t = None"
    using d by (cases "mget (st_oauthRefresh (pstore s)) ?h") (auto simp: OAuthRefreshToken_get_def split: if_splits)
  have 1: "?used (snd (rotated P (RefreshReq rr) tok s))"
    using assms(2) t by (auto simp: rotated_def pop_eq with_store_def UseOAuthRefreshToken_def split: sum.split)
  have "?used s'"
  proof (cases "fst (rotated P (RefreshReq rr) tok s)")
    case (Inl e)
    with 1 assms(3) show ?thesis by (auto simp: CreateAccessAndRefreshTokens_def split: prod.splits)
  next
    case (Inr g)
    let ?s1 = "snd (rotated P (RefreshReq rr) tok s)"
    have 2: "?used (snd (accessToken P g (rr_scopes rr) ?s1))" using 1 by (simp add: accessToken_keeps)
    with Inr assms(3) show ?thesis
      by (auto simp: CreateAccessAndRefreshTokens_def Let_def randomID_def pop_eq with_store_def CreateOAuthRefreshToken_def
          split: prod.splits sum.splits if_splits)
  qed
  then show ?thesis by (auto simp: OAuthRefreshToken_get_def)
qed

lemma Verify_good:
  assumes "ol_decrypt (pv_lib P) tok = Some (l @ '':'' @ oa_Subject t)" and "CHR '':'' \<notin> set l" and "mget (st_oauthAccess (pstore s)) l = Some t"
    and "mget (pgrants s) (oa_GrantID t) = Some gr" and "og_RevokedAt gr = None" and "og_ExpiresAt gr = 0" and "pnow s < oa_ExpiresAt t"
  shows "\<exists>v. Verify P tok s = Inr v \<and> vf_Subject v = oa_Subject t \<and> vf_ClientID v = oa_ClientID t \<and> vf_Scopes v = oa_Scopes t \<and>
    vf_Resources v = og_Resources gr"
proof -
  have cut: "cut_colon (l @ '':'' @ x) = Some (l, x)" for x
    using assms(2) by (auto simp: cut_colon_def takeWhile_append dropWhile_append)
  show ?thesis
    unfolding Verify_def assms(1) option.case cut prod.case
    using assms(3-7) by (simp add: OAuthAccessToken_get_def OAuthGrant_get_def)
qed

lemma exchanged_flow:
  fixes ar :: oidc_request
  assumes "fresh_provider s" and "\<not> metadataClient P (ar_ClientID ar)" and "OAuthClient_get (pstore s) (ar_ClientID ar) = Inr c"
    and "oc_AuthMethod c \<noteq> ''none''" and "ar_CodeChallenge ar = []" and "\<not> List.member (ar_Prompt ar) ''none''"
    and "attr (rq_query rq) ''id'' = randomIDAt P (e_rand (ps_env s)) 24" and "sessionOf (pv_auth P) rq (ps_env s) = Some sc"
    and "authUserBySub (pv_auth P) (sc_Subject sc) (ps_env s) = Inr u" and "sc_Subject sc \<noteq> []" and "pg_ConsentURL (pv_cfg P) = Some f"
    and "tokenHash P code \<noteq> []"
  shows "\<exists>g r0 s0 s1 to s2 s3 r c q. CreateAuthRequest P ar res s = (Inr r0, s0) \<and> login P rq s0 = (Redirect (f (or_ID r0)), s1) \<and>
    Approve P (or_ID r0) (sc_Subject sc) \<lparr>dc_Scopes = None, dc_Ref = [], dc_Expires = 0\<rparr> s1 = (Inr to, s2) \<and>
    SaveAuthCode P (or_ID r0) code s2 = (Ok (), s3) \<and> prov_run P (no_log, s) (g, s3) \<and>
    AuthRequestByCode P code s3 = (Inr r, flow_state (s\<lparr>ps_codes := c\<rparr>) 1 q [] []) \<and> or_Done r \<and> or_GrantExpiresAt r = 0 \<and> or_Subject r = sc_Subject sc \<and> or_ClientID r = ar_ClientID ar \<and>
    set (ar_Scopes ar) \<subseteq> set (or_Scopes r) \<and> or_Resources r = res"
proof -
  let ?i = "randomIDAt P (e_rand (ps_env s)) 24" and ?sub = "sc_Subject sc" and ?d = "\<lparr>dc_Scopes = None, dc_Ref = [], dc_Expires = 0\<rparr>"
  from flow_ask [OF assms(2,3,4,5) assms(1), of res] obtain r where
    ask: "CreateAuthRequest P ar res s = (Inr r, flow_state s 1 [(?i, r)] [] [])" and r: "or_ID r = ?i" "or_ClientID r = ar_ClientID ar"
      "or_Resources r = res" "or_Prompt r = ar_Prompt ar" "or_CreatedAt r = pnow s" "\<not> or_Done r" "set (ar_Scopes ar) \<subseteq> set (or_Scopes r)" by blast
  have none: "\<not> List.member (or_Prompt r) ''none''" using assms(6) r(4) by simp
  note log = flow_login [OF r(1,5,6) none assms(7,8,9,11)]
  let ?r1 = "r\<lparr>or_Subject := ?sub\<rparr>"
  from flow_approve [of ?r1 ?i s ?sub P] r assms(10) obtain to where
    app: "Approve P ?i ?sub ?d (flow_state s 1 [(?i, ?r1)] [] []) =
      (Inr to, flow_state s 1 [(?i, ?r1\<lparr>or_Done := True, or_Ref := [], or_GrantExpiresAt := 0, or_AuthTime := pnow s\<rparr>)] [] [])" by auto
  let ?r2 = "?r1\<lparr>or_Done := True, or_Ref := [], or_GrantExpiresAt := 0, or_AuthTime := pnow s\<rparr>"
  let ?r3 = "?r2\<lparr>or_CodeHash := tokenHash P code, or_CodeAt := pnow s\<rparr>" and ?c = "[(tokenHash P code, pnow s)]"
  have sav: "SaveAuthCode P ?i code (flow_state s 1 [(?i, ?r2)] [] []) = (Ok (), flow_state s 1 [(?i, ?r3)] [] [])"
    by (rule flow_code) (simp_all add: r)
  have "ps_codes s = []" using assms(1) by (simp add: fresh_provider_def)
  then have exc: "AuthRequestByCode P code (flow_state s 1 [(?i, ?r3)] [] []) = (Inr ?r3, flow_state (s\<lparr>ps_codes := ?c\<rparr>) 1 [(?i, ?r3)] [] [])"
    using flow_exchange [of ?r3 s P code ?i] assms(12) r(5) by (simp add: flow_state_def)
  let ?g1 = "log_asked (Inr r) no_log"
  let ?g2 = "log_approved (login_acts P rq (flow_state s 1 [(?i, r)] [] [])) ?g1"
  let ?g3 = "log_approved {(?sub, ?i)} ?g2"
  let ?g4 = "log_issued (tokenHash P code) ?g3"
  let ?g5 = "log_held AuthReq (Inr ?r3) ?g4"
  have "prov_run P (no_log, s) (?g1, flow_state s 1 [(?i, r)] [] [])"
    using prov_step.ask [OF ask] by (rule r_into_rtranclp)
  also have "prov_step P (?g1, flow_state s 1 [(?i, r)] [] []) (?g2, flow_state s 1 [(?i, ?r1)] [] [])" by (rule prov_step.do_login [OF log])
  also have "prov_step P (?g2, flow_state s 1 [(?i, ?r1)] [] []) (?g3, flow_state s 1 [(?i, ?r2)] [] [])" by (rule prov_step.app_approves [OF app])
  also have "prov_step P (?g3, flow_state s 1 [(?i, ?r2)] [] []) (?g4, flow_state s 1 [(?i, ?r3)] [] [])"
    by (rule prov_step.save_code [OF _ sav]) (simp add: log_approved_def log_asked_def no_log_def)
  finally have run1: "prov_run P (no_log, s) (?g4, flow_state s 1 [(?i, ?r3)] [] [])" .
  have "or_Done ?r3" "or_GrantExpiresAt ?r3 = 0" "or_Subject ?r3 = sc_Subject sc" "or_ClientID ?r3 = ar_ClientID ar"
      "set (ar_Scopes ar) \<subseteq> set (or_Scopes ?r3)" "or_Resources ?r3 = res" using r by simp_all
  with ask log [folded r(1)] app [folded r(1)] sav [folded r(1)] run1 exc show ?thesis unfolding r(1) [symmetric] by blast
qed

lemma consented_flow:
  fixes ar :: oidc_request
  assumes "fresh_provider s" and "\<not> metadataClient P (ar_ClientID ar)" and "OAuthClient_get (pstore s) (ar_ClientID ar) = Inr c"
    and "oc_AuthMethod c \<noteq> ''none''" and "ar_CodeChallenge ar = []" and "\<not> List.member (ar_Prompt ar) ''none''"
    and "attr (rq_query rq) ''id'' = randomIDAt P (e_rand (ps_env s)) 24" and "sessionOf (pv_auth P) rq (ps_env s) = Some sc"
    and "authUserBySub (pv_auth P) (sc_Subject sc) (ps_env s) = Inr u" and "sc_Subject sc \<noteq> []" and "pg_ConsentURL (pv_cfg P) = Some f"
    and "tokenHash P code \<noteq> []" and "0 < pg_AccessTokenTTL (pv_cfg P)"
    and "CHR '':'' \<notin> set (randomIDAt P (e_rand (ps_env s) + 2) 18)"
    and "ol_decrypt (pv_lib P) tok = Some (randomIDAt P (e_rand (ps_env s) + 2) 18 @ '':'' @ sc_Subject sc)"
  shows "\<exists>g r0 s0 s1 to s2 s3 r s4 exp s' v. CreateAuthRequest P ar res s = (Inr r0, s0) \<and> login P rq s0 = (Redirect (f (or_ID r0)), s1) \<and>
    Approve P (or_ID r0) (sc_Subject sc) \<lparr>dc_Scopes = None, dc_Ref = [], dc_Expires = 0\<rparr> s1 = (Inr to, s2) \<and>
    SaveAuthCode P (or_ID r0) code s2 = (Ok (), s3) \<and> AuthRequestByCode P code s3 = (Inr r, s4) \<and>
    CreateAccessToken P (AuthReq r) s4 = (Inr (randomIDAt P (e_rand (ps_env s) + 2) 18, exp), s') \<and> prov_run P (no_log, s) (g, s') \<and>
    Verify P tok s' = Inr v \<and> vf_Subject v = sc_Subject sc \<and> vf_ClientID v = ar_ClientID ar \<and>
    set (ar_Scopes ar) \<subseteq> set (vf_Scopes v) \<and> vf_Resources v = res"
proof -
  obtain g r0 s0 s1 to s2 s3 r c q where chain: "CreateAuthRequest P ar res s = (Inr r0, s0)" "login P rq s0 = (Redirect (f (or_ID r0)), s1)"
      "Approve P (or_ID r0) (sc_Subject sc) \<lparr>dc_Scopes = None, dc_Ref = [], dc_Expires = 0\<rparr> s1 = (Inr to, s2)"
      "SaveAuthCode P (or_ID r0) code s2 = (Ok (), s3)" and run: "prov_run P (no_log, s) (g, s3)"
    and exc: "AuthRequestByCode P code s3 = (Inr r, flow_state (s\<lparr>ps_codes := c\<rparr>) 1 q [] [])"
    and r: "or_Done r" "or_GrantExpiresAt r = 0" "or_Subject r = sc_Subject sc" "or_ClientID r = ar_ClientID ar"
      "set (ar_Scopes ar) \<subseteq> set (or_Scopes r)" "or_Resources r = res"
    using exchanged_flow [OF assms(1-12), of res] by blast
  let ?s = "s\<lparr>ps_codes := c\<rparr>" and ?l = "randomIDAt P (e_rand (ps_env s) + 2) 18" and ?g = "log_held AuthReq (Inr r) g"
  from flow_tokens [of r P ?s u q] r assms(9) obtain s' t gr exp where
    tok: "CreateAccessToken P (AuthReq r) (flow_state ?s 1 q [] []) = (Inr (?l, exp), s')"
    and t: "mget (st_oauthAccess (pstore s')) ?l = Some t" "mget (pgrants s') (oa_GrantID t) = Some gr"
      "pnow s' = pnow s" "oa_ClientID t = ar_ClientID ar" "oa_Subject t = sc_Subject sc" "oa_Scopes t = or_Scopes r"
      "oa_ExpiresAt t = pnow s + pg_AccessTokenTTL (pv_cfg P)" "og_RevokedAt gr = None" "og_ExpiresAt gr = 0" "og_Resources gr = res"
    by auto
  note run
  also have "prov_step P (g, s3) (?g, flow_state ?s 1 q [] [])" by (rule prov_step.by_code [OF exc])
  also have "prov_step P (?g, flow_state ?s 1 q [] []) (log_made (flow_state ?s 1 q [] []) s' ?g, s')"
    by (rule prov_step.access_token [OF _ tok]) (simp add: log_held_def)
  finally have run': "prov_run P (no_log, s) (log_made (flow_state ?s 1 q [] []) s' ?g, s')" .
  from Verify_good [OF _ assms(14) t(1,2,8,9), of P tok] assms(13,15) t obtain v where v: "Verify P tok s' = Inr v"
      "vf_Subject v = sc_Subject sc" "vf_ClientID v = ar_ClientID ar" "vf_Scopes v = or_Scopes r" "vf_Resources v = res" by auto
  have "set (ar_Scopes ar) \<subseteq> set (vf_Scopes v)" using r(5) v(4) by simp
  with chain exc tok run' v(1,2,3,5) show ?thesis by blast
qed


section \<open>A revoked grant and the userinfo endpoint\<close>

text \<open>
  C32: Revoking a grant ends what introspection, verification and refreshing say of its tokens, but not what the
  userinfo endpoint answers: an access token of a revoked grant still gets the user's claims there until it
  expires on its own.
\<close>

theorem userinfo_survives_revocation:
  assumes "OAuthAccessToken_get (pstore s) i = Ok t" and "pnow s \<le> oa_ExpiresAt t" and "OAuthGrant_get (pstore s) (oa_GrantID t) = Ok gr"
    and "og_ID gr = oa_GrantID t" and "oa_GrantID t \<noteq> []"
    and "s' = revokeGrant (oa_GrantID t) s"
  shows "SetIntrospectionFromToken i (oa_Subject t) s' = Err PInvalidToken \<and>
    SetUserinfoFromToken P i (oa_Subject t) s' = userinfo_of P (oa_Subject t) (oa_Scopes t) s"
proof -
  let ?f = "grant_filter\<lparr>gf_ID := oa_GrantID t\<rparr>"
  have f: "\<not> filter_Empty ?f" using assms(5) by (simp add: filter_Empty_def)
  have s': "s' = with_store (snd (RevokeOAuthGrants (pstore s) ?f (pnow s))) s" by (simp add: assms(6) revokeGrant_def pop_snd)
  have same: "pnow s' = pnow s" "st_oauthAccess (pstore s') = st_oauthAccess (pstore s)" "st_users (pstore s') = st_users (pstore s)"
    by (simp_all add: s' with_store_def RevokeOAuthGrants_def)
  have t: "OAuthAccessToken_get (pstore s') i = Ok t" using assms(1) same(2) by (simp add: OAuthAccessToken_get_def)
  have "mget (pgrants s) (oa_GrantID t) = Some gr" using assms(3) by (simp add: OAuthGrant_get_def split: option.splits)
  moreover have "\<not> grant_skipped ?f gr \<or> og_RevokedAt gr \<noteq> None" using assms(4) by (auto simp: grant_skipped_def grant_filter_def)
  ultimately have "\<exists>g. OAuthGrant_get (pstore s') (oa_GrantID t) = Ok g \<and> og_RevokedAt g \<noteq> None"
    using f by (auto simp: s' with_store_def RevokeOAuthGrants_def OAuthGrant_get_def)
  then have "SetIntrospectionFromToken i (oa_Subject t) s' = Err PInvalidToken"
    using t assms(2) same(1) by (auto simp: SetIntrospectionFromToken_def)
  moreover have "userinfo_of P (oa_Subject t) (oa_Scopes t) s' = userinfo_of P (oa_Subject t) (oa_Scopes t) s"
    using authUserBySub_same [of "ps_env s'" "ps_env s"] same(1,3) by (simp add: userinfo_of_def)
  then have "SetUserinfoFromToken P i (oa_Subject t) s' = userinfo_of P (oa_Subject t) (oa_Scopes t) s"
    using t assms(2) same(1) by (simp add: SetUserinfoFromToken_def)
  ultimately show ?thesis by blast
qed

section \<open>A demonstration provider with a signed-in user\<close>

definition demo_app :: OAuthClient where
  "demo_app = \<lparr>oc_ID = ''app'', oc_SecretHash = ''0'', oc_Name = ''App'', oc_URI = [], oc_LogoURI = [], oc_RedirectURIs = [''https://app/cb''],
     oc_GrantTypes = [''authorization_code'', ''refresh_token''], oc_AuthMethod = ''client_secret_basic'', oc_Dynamic = False, oc_CreatedAt = 1000,
     oc_LastUsedAt = 1000\<rparr>"

definition demo_flow :: pstate where
  "demo_flow = (demo_pstate New)\<lparr>ps_env := demo_home\<lparr>e_store := (e_store demo_home)\<lparr>st_oauthClients := [(''app'', demo_app)],
     st_oauthRequests := [], st_oauthGrants := [], st_oauthAccess := [], st_oauthRefresh := [], st_oauthKeys := []\<rparr>\<rparr>\<rparr>"

definition demo_ask :: oidc_request where
  "demo_ask = \<lparr>ar_ClientID = ''app'', ar_RedirectURI = ''https://app/cb'', ar_State = ''s'', ar_Nonce = [], ar_Scopes = [''tree''],
     ar_ResponseType = ''code'', ar_ResponseMode = [], ar_CodeChallenge = [], ar_CodeChallengeMethod = [], ar_Prompt = []\<rparr>"

definition demo_visit :: request where
  "demo_visit = (demo_caller demo_cookie)\<lparr>rq_query := [(''id'', format_uint (e_rand demo_home))]\<rparr>"

lemma demo_random [simp]: "randomIDAt demo_provider k n = format_uint k"
  by (simp add: randomIDAt_def demo_lib_def)

lemma demo_random_ids: "random_ids demo_provider"
  by (simp add: random_ids_def inj_def)

lemma demo_fresh: "fresh_provider demo_flow"
  by (simp add: fresh_provider_def demo_flow_def demo_pstate_def oauth_ok_def demo_app_def keyed_def keys_ok_def)

lemma demo_flow_env [simp]: "e_rand (ps_env demo_flow) = e_rand demo_home" "OAuthClient_get (pstore demo_flow) ''app'' = Ok demo_app"
  "st_oauthRefresh (pstore demo_flow) = []"
  by (simp_all add: demo_flow_def OAuthClient_get_def)

lemma normConfig_times:
  assumes "normConfig L c = Some c'"
  shows "pg_ConsentURL c' = pg_ConsentURL c \<and> pg_Claims c' = pg_Claims c \<and> pg_ClientMetadataDocuments c' = pg_ClientMetadataDocuments c \<and>
    0 < pg_AccessTokenTTL c' \<and> 0 < pg_RefreshTokenTTL c'"
proof -
  have h: "0 < hour" by (simp add: hour_def minute_def second_ns_def)
  from assms obtain iss where iss: "length (pg_CryptoKey c) = 32" "ol_url L (pg_Issuer c) = Some iss"
    by (cases "length (pg_CryptoKey c) = 32"; cases "ol_url L (pg_Issuer c)") (simp_all add: normConfig_def)
  have "(if b then None else Some x) = Some y \<Longrightarrow> x = y" for b and x y :: pconfig by (cases b) simp_all
  from this [OF assms [unfolded normConfig_def iss option.case simp_thms if_False]] show ?thesis
    by (rule subst) (simp add: h)
qed

lemma demo_config [simp]: "pg_ConsentURL (pv_cfg demo_provider) = Some (\<lambda>i. ''/consent?id='' @ i)" "0 < pg_AccessTokenTTL (pv_cfg demo_provider)"
  "0 \<le> pg_RefreshTokenTTL (pv_cfg demo_provider)" "\<not> pg_ClientMetadataDocuments (pv_cfg demo_provider)"
  using normConfig_times [OF demo_normConfig] by (simp_all add: demo_pconfig_def)

lemma demo_session: "sessionOf demo_authn demo_visit (ps_env demo_flow) = Some demo_claims"
proof -
  have "sessionOf demo_authn demo_visit (ps_env demo_flow) = sessionOf demo_authn demo_visit demo_home"
    by (rule sessionOf_same) (simp_all add: demo_flow_def)
  also have "\<dots> = sessionOf demo_authn (demo_caller demo_cookie) demo_home"
    by (simp add: sessionOf_def demo_visit_def cookieValue_def)
  finally show ?thesis by (simp add: demo_home(3))
qed

lemma demo_user: "\<exists>u. authUserBySub demo_authn ''u'' (ps_env demo_flow) = Inr u"
proof -
  have "UserBySub (e_store demo_home) ''u'' = UserBySub demo_account ''u''"
    by (simp add: demo_home_def demo_signed_in RecordSession_def Let_def pruneSessionsLocked_def UserBySub_def findBySub_def)
  moreover have "isl (UserBySub demo_account ''u'') = False \<and> fst (loginBlocked 1000 (Some (projr (UserBySub demo_account ''u'')))) = False"
    by code_simp
  ultimately have "\<exists>u. authUserBySub demo_authn ''u'' demo_home = Inr u"
    using demo_home(1) by (cases "UserBySub demo_account ''u''") (simp_all add: authUserBySub_def)
  moreover have "authUserBySub demo_authn ''u'' (ps_env demo_flow) = authUserBySub demo_authn ''u'' demo_home"
    by (rule authUserBySub_same) (simp_all add: demo_flow_def)
  ultimately show ?thesis by simp
qed

lemma no_colon: "CHR '':'' \<notin> set (format_uint n)"
  using format_uint_digits [of n] by (auto simp: list_all_iff is_digit_def)

text \<open>The flow, its exchange, and a refresh token that has been used, on the demonstration provider.\<close>

lemma demo_hyps:
  "\<not> metadataClient demo_provider (ar_ClientID demo_ask)" "OAuthClient_get (pstore demo_flow) (ar_ClientID demo_ask) = Inr demo_app"
  "oc_AuthMethod demo_app \<noteq> ''none''" "ar_CodeChallenge demo_ask = []" "\<not> List.member (ar_Prompt demo_ask) ''none''"
  "attr (rq_query demo_visit) ''id'' = randomIDAt demo_provider (e_rand (ps_env demo_flow)) 24"
  "sessionOf (pv_auth demo_provider) demo_visit (ps_env demo_flow) = Some demo_claims"
  "sc_Subject demo_claims = ''u''" "tokenHash demo_provider ''c'' \<noteq> []"
  using demo_session
  by (simp_all add: metadataClient_def demo_ask_def demo_app_def demo_visit_def attr_def demo_claims_def tokenHash_def demo_lib_def hex_encode_def)

lemma demo_consented:
  "\<exists>g s v. prov_run demo_provider (no_log, demo_flow) (g, s) \<and>
     Verify demo_provider (format_uint (e_rand demo_home + 2) @ '':u'') s = Inr v"
proof -
  obtain u where u: "authUserBySub (pv_auth demo_provider) (sc_Subject demo_claims) (ps_env demo_flow) = Inr u"
    using demo_user demo_hyps(8) by auto
  show ?thesis
    using consented_flow [OF demo_fresh demo_hyps(1-7) u, of _ "''c''" "format_uint (e_rand demo_home + 2) @ '':u''"]
    by (simp add: demo_hyps(8,9) no_colon) (simp add: demo_plib_def, blast)
qed

lemma demo_exchanged:
  "\<exists>g s r c q. prov_run demo_provider (no_log, demo_flow) (g, s) \<and>
    AuthRequestByCode demo_provider ''c'' s = (Inr r, flow_state (demo_flow\<lparr>ps_codes := c\<rparr>) 1 q [] []) \<and> or_Done r \<and>
    or_GrantExpiresAt r = 0 \<and> or_Subject r = ''u''"
proof -
  obtain u where u: "authUserBySub (pv_auth demo_provider) (sc_Subject demo_claims) (ps_env demo_flow) = Inr u"
    using demo_user demo_hyps(8) by auto
  have sub: "sc_Subject demo_claims \<noteq> []" by (simp add: demo_hyps(8))
  show ?thesis
    using exchanged_flow [OF demo_fresh demo_hyps(1-7) u sub demo_config(1) demo_hyps(9), of "[]"] unfolding demo_hyps(8) by blast
qed

lemma demo_used:
  "\<exists>g s tok t. prov_run demo_provider (no_log, demo_flow) (g, s) \<and>
    OAuthRefreshToken_get (pstore s) (tokenHash demo_provider tok) = Inr t \<and> ot_UsedAt t \<noteq> None"
proof -
  let ?P = demo_provider
  obtain g s r c q where run: "prov_run ?P (no_log, demo_flow) (g, s)"
    and exc: "AuthRequestByCode ?P ''c'' s = (Inr r, flow_state (demo_flow\<lparr>ps_codes := c\<rparr>) 1 q [] [])"
    and r: "or_Done r" "or_GrantExpiresAt r = 0" "or_Subject r = ''u''" using demo_exchanged by blast
  let ?s = "flow_state (demo_flow\<lparr>ps_codes := c\<rparr>) 1 q [] []"
  obtain u where "authUserBySub (pv_auth ?P) (or_Subject r) (ps_env (demo_flow\<lparr>ps_codes := c\<rparr>)) = Inr u"
    using demo_user r(3) by auto
  then obtain i tok exp s1 rr where new: "CreateAccessAndRefreshTokens ?P (AuthReq r) [] ?s = (Inr (i, tok, exp), s1)" "tok \<noteq> []"
      "TokenRequestByRefreshToken ?P tok s1 = (Inr rr, s1)"
    using flow_refresh [of r ?P "demo_flow\<lparr>ps_codes := c\<rparr>" u q] r by auto
  obtain x s2 where rot: "CreateAccessAndRefreshTokens ?P (RefreshReq rr) tok s1 = (x, s2)"
    by (cases "CreateAccessAndRefreshTokens ?P (RefreshReq rr) tok s1")
  let ?g1 = "log_held AuthReq (Inr r) g" and ?g2 = "log_made ?s s1 (log_held AuthReq (Inr r) g)"
  let ?g3 = "log_held RefreshReq (Inr rr) (log_made ?s s1 (log_held AuthReq (Inr r) g))"
  note run
  also have "prov_step ?P (g, s) (?g1, ?s)" by (rule prov_step.by_code [OF exc])
  also have "prov_step ?P (?g1, ?s) (?g2, s1)" by (rule prov_step.both_tokens [OF _ new(1)]) (simp add: log_held_def)
  also have "prov_step ?P (?g2, s1) (?g3, s1)" by (rule prov_step.by_refresh [OF new(3)])
  also have "prov_step ?P (?g3, s1) (log_made s1 s2 ?g3, s2)" by (rule prov_step.both_tokens [OF _ rot]) (simp add: log_held_def)
  finally show ?thesis using rotation_uses [OF new(3,2) rot] by blast
qed

section \<open>The theorems on the demonstration provider\<close>

theorem verified_was_approved_witness:
  "\<exists>g s v. prov_run demo_provider (no_log, demo_flow) (g, s) \<and>
    Verify demo_provider (format_uint (e_rand demo_home + 2) @ '':u'') s = Inr v \<and> (\<exists>a \<in> pl_asked g. (vf_Subject v, or_ID a) \<in> pl_approved g)"
proof -
  obtain g s v where r: "prov_run demo_provider (no_log, demo_flow) (g, s)"
    and v: "Verify demo_provider (format_uint (e_rand demo_home + 2) @ '':u'') s = Inr v"
    using demo_consented by blast
  from verified_was_approved [OF demo_random_ids demo_fresh r v] r v show ?thesis by blast
qed

theorem replay_ends_grant_witness: "\<exists>s tok. fst (TokenRequestByRefreshToken demo_provider tok s) = Err PInvalidRefreshToken"
proof -
  obtain g s tok t where r: "prov_run demo_provider (no_log, demo_flow) (g, s)"
    and t: "OAuthRefreshToken_get (pstore s) (tokenHash demo_provider tok) = Inr t" "ot_UsedAt t \<noteq> None" using demo_used by blast
  obtain x s1 where x: "TokenRequestByRefreshToken demo_provider tok s = (x, s1)"
    by (cases "TokenRequestByRefreshToken demo_provider tok s")
  from replay_ends_grant [OF demo_random_ids demo_fresh r t x rtranclp.rtrancl_refl] x show ?thesis by (metis fst_conv)
qed

theorem code_single_use_witness:
  "\<exists>s r s1 e s2. AuthRequestByCode demo_provider ''c'' s = (Inr r, s1) \<and> AuthRequestByCode demo_provider ''c'' s1 = (Inl e, s2)"
proof -
  obtain g s r s1 where r: "prov_run demo_provider (no_log, demo_flow) (g, s)" and x: "AuthRequestByCode demo_provider ''c'' s = (Inr r, s1)"
    using demo_exchanged by blast
  obtain y s2 where y: "AuthRequestByCode demo_provider ''c'' s1 = (y, s2)" by (cases "AuthRequestByCode demo_provider ''c'' s1")
  from code_single_use [OF demo_random_ids demo_fresh r x rtranclp.rtrancl_refl y] x y show ?thesis by blast
qed

theorem provider_refines_protocol_witness: "winv (world_of no_log demo_flow)"
  using provider_refines_protocol [OF demo_random_ids demo_fresh rtranclp.rtrancl_refl] by blast


theorem userinfo_survives_revocation_witness:
  "\<exists>s. SetIntrospectionFromToken ''t'' ''u'' s = Err PInvalidToken \<and> (\<exists>i. SetUserinfoFromToken demo_provider ''t'' ''u'' s = Inr i)"
proof -
  define t where "t = \<lparr>oa_ID = ''t'', oa_GrantID = ''g'', oa_ClientID = ''app'', oa_Subject = ''u'', oa_Scopes = [''email''],
      oa_ExpiresAt = 2000, oa_CreatedAt = 1000\<rparr>"
  define gr where "gr = \<lparr>og_ID = ''g'', og_ClientID = ''app'', og_Subject = ''u'', og_Scopes = [''email''], og_Resources = [], og_Ref = [],
      og_AuthTime = 1000, og_CreatedAt = 1000, og_ExpiresAt = 0, og_RevokedAt = None\<rparr>"
  let ?s = "flow_state demo_flow 0 [] [(''g'', gr)] [(''t'', t)]"
  have now: "pnow demo_flow = 1000" by (simp add: demo_flow_def demo_home(1))
  obtain u where "authUserBySub demo_authn ''u'' (ps_env ?s) = Inr u" using demo_user by auto
  then obtain i where i: "userinfo_of demo_provider ''u'' [''email''] ?s = Inr i"
    using normConfig_times [OF demo_normConfig] by (auto simp: userinfo_of_def demo_pconfig_def)
  from userinfo_survives_revocation [of ?s "''t''" t gr _ demo_provider] now i show ?thesis
    by (fastforce simp: OAuthAccessToken_get_def OAuthGrant_get_def t_def gr_def)
qed

end
