(* ===== verification/Spec2Isabelle.thy ===== *)
theory Spec2Isabelle
  imports IdentityLaws DirectoryLaws OrgLaws OrgView SessionLaws TraceLaws OAuthLaws FilterLaws RateLimit SafeguardLaws ScimLaws SocialLaws SiteLaws ClientLaws KeyLaws GrantLaws
begin

text \<open>
  go-auth-x: an embeddable authentication engine for Go web applications, and a model of it.

  \<^bold>\<open>The program.\<close> An application builds one \<open>Authenticator\<close> (package \<open>authx\<close>, the root directory) from a
  configuration and a few interfaces: a credential store, and optionally a directory, an organization
  store, a session store and a two-factor store. The authenticator serves the endpoints under
  \<open>/auth\<close> and offers gates (middlewares) for the application's own. It keeps little state itself: two rate
  limiters and the wiring. Everything durable is in the stores; what the browser holds are cookies signed
  with the session secret. Around it sit a SCIM server for provisioning and an OAuth/OIDC provider.

  \<^bold>\<open>The state and the steps.\<close> \<open>MemState.store\<close> is the struct \<open>Store\<close> of the in-memory reference store, one
  field per Go map, as an association list; a method is a function from a store to a result and a store,
  because the store's mutex makes each call one step. \<open>Engine.env\<close> is what a handler can reach: the time,
  the number of random values drawn so far, the store, the two limiters, the cookies and mails written
  and the background jobs started. \<open>Engine.authn\<close> is the configured authenticator. A handler is a function
  \<open>authn \<Rightarrow> request \<Rightarrow> env \<Rightarrow> reply \<times> env\<close>; \<open>EngineTrace.Handler\<close> is the mounted handler with its routes and
  \<open>EngineTrace.engine_step\<close> lets time pass, a request be served or a background job run, in any order.

  \<^bold>\<open>Theories and sources.\<close>
  \<^item> \<open>Prelude\<close>, \<open>GoStrings\<close>: results, Go maps, tables with a serial key, sorting; the functions of
    \<open>strings\<close>, \<open>strconv\<close> and \<open>net/url\<close> the code calls, and \<open>parseID\<close> / \<open>idStr\<close>.
  \<^item> \<open>AuthxTypes\<close>: the records, errors and pure functions of \<open>credstore.go\<close>, \<open>directory.go\<close>, \<open>orgs.go\<close>,
    \<open>sessions.go\<close>, \<open>twofactor.go\<close>, \<open>oauthstore.go\<close>.
  \<^item> \<open>MemState\<close>, \<open>MemIdentity\<close>, \<open>MemDirectory\<close>, \<open>MemOrgs\<close>, \<open>MemSessions\<close>, \<open>MemOAuth\<close>: every method of
    \<open>store/memory\<close>, each group with its part of the invariant; \<open>MemTrace\<close>: the store as a state machine.
  \<^item> \<open>OrgView\<close> (\<open>orgdirectory.go\<close>), \<open>ScimFilter\<close> (\<open>scim/filter.go\<close>), \<open>RateLimit\<close> (\<open>ratelimit.go\<close>).
  \<^item> \<open>Tokens\<close> (\<open>session.go\<close>, \<open>tokens.go\<close>, \<open>totp.go\<close>, \<open>twofactor.go\<close>, \<open>emailotp.go\<close>, \<open>stepup.go\<close>): cookies, hashes, codes.
  \<^item> \<open>Engine\<close>: wiring, session checks, both tails of a login (\<open>login.go\<close>, \<open>twofactor.go\<close>), step-up.
  \<^item> \<open>SessionFlows\<close>, \<open>LoginFlows\<close>, \<open>AccountFlows\<close>, \<open>OidcFlows\<close>, \<open>OrgFlows\<close>, \<open>AdminFlows\<close>, \<open>Gates\<close>: the handlers
    and gates, file by file (\<open>sessions.go\<close>, \<open>twofactor_handlers.go\<close>, \<open>password.go\<close>, \<open>breach.go\<close>, \<open>magic.go\<close>,
    \<open>emailotp.go\<close>, \<open>account.go\<close>, \<open>account_lifecycle.go\<close>, \<open>handlers.go\<close>, \<open>orgs_handlers.go\<close>, \<open>admin.go\<close>,
    \<open>admin_users.go\<close>, \<open>admin_orgs.go\<close>, \<open>httpadapter.go\<close>, \<open>csrf.go\<close>).
  \<^item> \<open>EngineLaws\<close>, \<open>EngineTrace\<close>: the locales that carry an invariant of the environment through all
    handlers, the routes, and the runs of the engine.

  \<^bold>\<open>What the lemmas show.\<close>
  \<^item> Stores: the total invariant \<open>store_ok\<close> holds in every reachable state; what each operation does and
    leaves alone (\<open>IdentityLaws\<close>, \<open>DirectoryLaws\<close>, \<open>OrgLaws\<close>, \<open>OAuthLaws\<close>); over whole histories, that one-time
    secrets are spent once, revoked sessions stay revoked and TOTP steps increase (\<open>TraceLaws\<close>, \<open>SessionLaws\<close>).
  \<^item> Pure parts: the limiter against a log of grants, the filter language, the kinds of cookie.
  \<^item> Engine: every run keeps the stores well formed and moves them only by their own methods
    (\<open>EngineTrace\<close>); gates and logout (\<open>GateLaws\<close>); where sessions come from (\<open>LoginLaws\<close>); guessing,
    switching, impersonation (\<open>AccountLaws\<close>); last owner, last sign-in method, provider logins (\<open>SafeguardLaws\<close>).

  \<^bold>\<open>Assumptions.\<close> Cryptography is a record of functions (\<open>Tokens.crypto\<close>) with the laws of a signature, \<open>jwt_ok\<close> and
  \<open>keys_separate\<close>, as hypotheses where they are used; \<open>TokenLaws.demo_lib\<close> is an executable instance. Random
  values are drawn by number from \<open>c_random\<close>. The identity provider, the breach service and the authorizer are
  functions of the configuration; \<open>memAuthorizer\<close> is the one of the in-memory store. Both limiters are
  installed, as \<open>New\<close> does. A handler runs at one instant; the mutexes of the engine (\<open>credMu\<close>, \<open>orgMu\<close>)
  make it one step. Errors of I/O (an unreadable body, a failing mail server) are values of the request
  or are logged by the code only. Times are integers of nanoseconds. Recursions are structural or have
  a measure; the filter parser's fuel is the number of tokens, and \<open>FilterLaws\<close> shows it is never used up.

  \<^bold>\<open>Not modelled.\<close> Logging, the \<open>WWW-Authenticate\<close> and content headers, and the difference of 405 and 404 in
  the router; reading the configuration from the environment; the rendering of mails and SMTP;
  the SQL store, whose behaviour is that of an ORM outside the repository; LDAP.
\<close>

end
